(* ===== verification/Prelude.thy ===== *)
theory Prelude
  imports Main "HOL-Library.Word"
begin

text \<open>
  Shared vocabulary of the development: machine integers, byte strings, result values, the
  byte-array operations the Rust sources use (slicing, \<open>copy_from_slice\<close>, bounded
  \<open>heapless::Vec\<close> pushes, little- and big-endian integer encodings) and the generic lemmas
  on them.

  Conventions used by every theory of the development:
  \<^item> a Rust \<open>Result<T, E>\<close> is a value of \<open>'e + 'a\<close>, \<open>Inl\<close> for \<open>Err\<close>, \<open>Inr\<close> for \<open>Ok\<close>;
  \<^item> a method with \<open>&mut self\<close> takes the state and returns the result paired with the new state,
    also on the error paths, because what was written before an early return stays written;
  \<^item> \<open>u8\<close>, \<open>u16\<close>, \<open>u32\<close>, \<open>u64\<close> are words of that width; \<open>usize\<close> values (lengths, loop counters,
    byte offsets into memories far below \<open>2 ^ 32\<close> bytes) are natural numbers.
\<close>

unbundle bit_operations_syntax

section \<open>Types and collections of rules\<close>

type_synonym u8 = "8 word"
type_synonym u16 = "16 word"
type_synonym u32 = "32 word"
type_synonym u64 = "64 word"
type_synonym bytes = "8 word list"

named_theorems slice_simps \<open>rewriting of slices of spliced byte arrays\<close>
named_theorems bounds_intros \<open>length and capacity bounds of constructed values\<close>

section \<open>Saturating arithmetic\<close>

definition sat_add32 :: "u32 \<Rightarrow> u32 \<Rightarrow> u32" where
  "sat_add32 a b = (if unat a + unat b < 2 ^ 32 then a + b else 0xFFFFFFFF)"

definition sat_sub32 :: "u32 \<Rightarrow> u32 \<Rightarrow> u32" where
  "sat_sub32 a b = (if b \<le> a then a - b else 0)"

lemma unat_sat_add32: "unat (sat_add32 a b) = min (unat a + unat b) (2 ^ 32 - 1)"
proof (cases "unat a + unat b < 2 ^ 32")
  case True
  then have "unat (a + b) = unat a + unat b"
    by (simp add: unat_word_ariths)
  with True show ?thesis by (simp add: sat_add32_def)
next
  case False
  then show ?thesis by (simp add: sat_add32_def)
qed

lemma unat_sat_sub32: "unat (sat_sub32 a b) = unat a - unat b"
  by (auto simp: sat_sub32_def unat_sub word_le_nat_alt)

section \<open>Results\<close>

definition map_err :: "('e \<Rightarrow> 'f) \<Rightarrow> 'e + 'a \<Rightarrow> 'f + 'a" where
  "map_err f r = (case r of Inl e \<Rightarrow> Inl (f e) | Inr x \<Rightarrow> Inr x)"

lemma map_err_simps [simp]: "map_err f (Inl e) = Inl (f e)" "map_err f (Inr x) = Inr x"
  by (simp_all add: map_err_def)

lemma map_err_eq_Inr [simp]: "map_err f r = Inr x \<longleftrightarrow> r = Inr x"
  by (cases r) auto

lemma map_err_eq_Inl: "map_err f r = Inl e \<longleftrightarrow> (\<exists>e'. r = Inl e' \<and> e = f e')"
  by (cases r) auto

definition ok_or :: "'e \<Rightarrow> 'a option \<Rightarrow> 'e + 'a" where
  "ok_or e r = (case r of None \<Rightarrow> Inl e | Some x \<Rightarrow> Inr x)"

lemma ok_or_simps [simp]: "ok_or e None = Inl e" "ok_or e (Some x) = Inr x"
  by (simp_all add: ok_or_def)

lemma ok_or_eq_Inr: "ok_or e r = Inr x \<longleftrightarrow> r = Some x"
  by (cases r) simp_all

text \<open>The \<open>?\<close> operator on results without state.\<close>

definition res_bind :: "'e + 'a \<Rightarrow> ('a \<Rightarrow> 'e + 'b) \<Rightarrow> 'e + 'b" where
  "res_bind r f = (case r of Inl e \<Rightarrow> Inl e | Inr x \<Rightarrow> f x)"

lemma res_bind_simps [simp]: "res_bind (Inl e) f = Inl e" "res_bind (Inr x) f = f x"
  by (simp_all add: res_bind_def)

lemma res_bind_eq_Inr: "res_bind r f = Inr y \<longleftrightarrow> (\<exists>x. r = Inr x \<and> f x = Inr y)"
  by (cases r) auto

section \<open>Slices and in-place copies\<close>

text \<open>
  \<open>slice off n xs\<close> is \<open>xs[off..off + n]\<close>; \<open>splice xs off ys\<close> is \<open>xs\<close> after
  \<open>xs[off..off + ys.len()].copy_from_slice(ys)\<close>. Both are used within bounds only.
\<close>

definition slice :: "nat \<Rightarrow> nat \<Rightarrow> 'a list \<Rightarrow> 'a list" where
  "slice off n xs = take n (drop off xs)"

definition splice :: "'a list \<Rightarrow> nat \<Rightarrow> 'a list \<Rightarrow> 'a list" where
  "splice xs off ys = take off xs @ ys @ drop (off + length ys) xs"

lemma length_slice [simp]: "length (slice off n xs) = min n (length xs - off)"
  by (simp add: slice_def)

lemma length_splice [simp]:
  "off + length ys \<le> length xs \<Longrightarrow> length (splice xs off ys) = length xs"
  by (simp add: splice_def)

lemma nth_splice:
  assumes "off + length ys \<le> length xs" and "i < length xs"
  shows "splice xs off ys ! i = (if off \<le> i \<and> i < off + length ys then ys ! (i - off) else xs ! i)"
  using assms by (auto simp: splice_def nth_append)

lemma nth_slice [simp]: "i < n \<Longrightarrow> off + i < length xs \<Longrightarrow> slice off n xs ! i = xs ! (off + i)"
  by (simp add: slice_def)

lemma slice_zero [simp]: "slice off 0 xs = []"
  by (simp add: slice_def)

lemma splice_Nil [simp]: "splice xs off [] = xs"
  by (simp add: splice_def)

lemma slice_all [simp]: "slice 0 (length xs) xs = xs"
  by (simp add: slice_def)

lemma slice_splice_same [slice_simps]:
  "off + length ys \<le> length xs \<Longrightarrow> n = length ys \<Longrightarrow> slice off n (splice xs off ys) = ys"
  by (simp add: slice_def splice_def)

lemma slice_splice_disjoint [slice_simps]:
  assumes "off + length ys \<le> length xs"
    and "o2 + n \<le> off \<or> off + length ys \<le> o2" and "o2 + n \<le> length xs"
  shows "slice o2 n (splice xs off ys) = slice o2 n xs"
proof (rule nth_equalityI)
  show "length (slice o2 n (splice xs off ys)) = length (slice o2 n xs)"
    using assms by simp
next
  fix i assume "i < length (slice o2 n (splice xs off ys))"
  with assms have "i < n" by simp
  with assms show "slice o2 n (splice xs off ys) ! i = slice o2 n xs ! i"
    by (auto simp: nth_splice)
qed

lemma slice_splice_inner:
  assumes "off + length ys \<le> length xs" and "off \<le> o2" and "o2 + n \<le> off + length ys"
  shows "slice o2 n (splice xs off ys) = slice (o2 - off) n ys"
  by (rule nth_equalityI) (use assms in \<open>auto simp: nth_splice\<close>)

lemma slice_slice: "a + n \<le> m \<Longrightarrow> slice a n (slice off m xs) = slice (off + a) n xs"
  by (simp add: slice_def drop_take add.commute min_def)

lemma slice_append_left [slice_simps]:
  "off + n \<le> length xs \<Longrightarrow> slice off n (xs @ ys) = slice off n xs"
  by (simp add: slice_def)

lemma slice_append_right [slice_simps]:
  "length xs \<le> off \<Longrightarrow> slice off n (xs @ ys) = slice (off - length xs) n ys"
  by (simp add: slice_def)

section \<open>Bounded vectors\<close>

text \<open>
  \<open>heapless::Vec<T, N>\<close> is a list of at most \<open>N\<close> elements. \<open>push\<close> fails on a full vector;
  \<open>push_all\<close> is the loop that pushes each element and stops with an error at the first failure;
  \<open>push_lossy\<close> is the loop that ignores the failures (\<open>let _ = v.push(b)\<close>).
\<close>

definition vpush :: "nat \<Rightarrow> 'a list \<Rightarrow> 'a \<Rightarrow> 'a list option" where
  "vpush cap v x = (if length v < cap then Some (v @ [x]) else None)"

fun push_all :: "nat \<Rightarrow> 'a list \<Rightarrow> 'a list \<Rightarrow> 'a list option" where
  "push_all cap v [] = Some v"
| "push_all cap v (x # xs) = (case vpush cap v x of None \<Rightarrow> None | Some v' \<Rightarrow> push_all cap v' xs)"

fun push_lossy :: "nat \<Rightarrow> 'a list \<Rightarrow> 'a list \<Rightarrow> 'a list" where
  "push_lossy cap v [] = v"
| "push_lossy cap v (x # xs) =
     push_lossy cap (case vpush cap v x of None \<Rightarrow> v | Some v' \<Rightarrow> v') xs"

lemma push_all_eq:
  "length v \<le> cap \<Longrightarrow>
   push_all cap v xs = (if length v + length xs \<le> cap then Some (v @ xs) else None)"
  by (induction xs arbitrary: v) (auto simp: vpush_def)

lemma push_all_bound: "push_all cap v xs = Some r \<Longrightarrow> xs \<noteq> [] \<Longrightarrow> length r \<le> cap"
  by (cases xs) (auto simp: vpush_def push_all_eq split: if_splits)

declare push_all.simps [simp del]

lemma push_all_Nil [simp]: "push_all cap [] xs = (if length xs \<le> cap then Some xs else None)"
  by (simp add: push_all_eq)

lemma push_lossy_full: "cap \<le> length v \<Longrightarrow> push_lossy cap v xs = v"
  by (induction xs arbitrary: v) (simp_all add: vpush_def)

lemma push_lossy_eq: "length v \<le> cap \<Longrightarrow> push_lossy cap v xs = take cap (v @ xs)"
proof (induction xs arbitrary: v)
  case Nil
  then show ?case by simp
next
  case (Cons x xs)
  show ?case
  proof (cases "length v < cap")
    case True
    then have "Suc (length v) \<le> cap" and "cap - length v = Suc (cap - Suc (length v))"
      by simp_all
    with Cons.IH [of "v @ [x]"] True show ?thesis by (simp add: vpush_def)
  next
    case False
    with Cons.prems show ?thesis by (simp add: vpush_def push_lossy_full)
  qed
qed

declare push_lossy.simps [simp del]

lemma push_lossy_fits [simp]: "length v + length xs \<le> cap \<Longrightarrow> push_lossy cap v xs = v @ xs"
  by (simp add: push_lossy_eq)

section \<open>Integer encodings\<close>

lemma push_bit_or_byte: "push_bit 8 l OR unat (b :: u8) = 256 * l + unat b"
proof -
  have "unat b < 2 ^ 8" using unsigned_less [of b] by simp
  then have "push_bit 8 l AND unat b = 0"
    by (intro bit_eqI) (auto simp: bit_simps not_le dest: bit_imp_le_length)
  then have "push_bit 8 l + unat b = push_bit 8 l OR unat b"
    by (rule disjunctive_add_eq_or)
  then show ?thesis by (simp add: push_bit_eq_mult)
qed

lemma nat_and_0x80: "n < 256 \<Longrightarrow> (n AND 0x80 = 0) = (n < (128 :: nat))"
proof -
  assume n: "n < 256"
  have "(n AND 2 ^ 7 = 0) = even (n div 2 ^ 7)"
    unfolding and_exp_eq_0_iff_not_bit bit_iff_odd by simp
  then have "(n AND 0x80 = 0) = even (n div 128)" by simp
  also have "n div 128 = (if n < 128 then 0 else 1)"
    using n by (auto intro: div_nat_eqI)
  also have "even (if n < 128 then 0 else 1 :: nat) = (n < 128)" by simp
  finally show ?thesis .
qed

lemma unat_of_nat_u8: "n < 256 \<Longrightarrow> unat (of_nat n :: u8) = n"
  by (simp add: unat_of_nat)

lemma unat_of_nat_u16: "n < 65536 \<Longrightarrow> unat (of_nat n :: u16) = n"
  by (simp add: unat_of_nat)

lemma unat_ucast: "unat (ucast (w :: 'a::len word) :: 'b::len word) = unat w mod 2 ^ LENGTH('b)"
  by (simp add: unsigned_ucast_eq take_bit_eq_mod)

definition u16_le :: "u16 \<Rightarrow> bytes" where
  "u16_le w = [ucast w, ucast (drop_bit 8 w)]"

definition u32_le :: "u32 \<Rightarrow> bytes" where
  "u32_le w = [ucast w, ucast (drop_bit 8 w), ucast (drop_bit 16 w), ucast (drop_bit 24 w)]"

definition u64_le :: "u64 \<Rightarrow> bytes" where
  "u64_le w = u32_le (ucast w) @ u32_le (ucast (drop_bit 32 w))"

definition u16_be :: "u16 \<Rightarrow> bytes" where
  "u16_be w = [ucast (drop_bit 8 w), ucast w]"

definition u16_of_le :: "u8 \<Rightarrow> u8 \<Rightarrow> u16" where
  "u16_of_le b0 b1 = ucast b0 OR push_bit 8 (ucast b1)"

definition u32_of_le :: "u8 \<Rightarrow> u8 \<Rightarrow> u8 \<Rightarrow> u8 \<Rightarrow> u32" where
  "u32_of_le b0 b1 b2 b3 =
     ucast b0 OR push_bit 8 (ucast b1) OR push_bit 16 (ucast b2) OR push_bit 24 (ucast b3)"

definition u16_of_be :: "u8 \<Rightarrow> u8 \<Rightarrow> u16" where
  "u16_of_be b0 b1 = push_bit 8 (ucast b0) OR ucast b1"

text \<open>Reads at an offset of a byte array, as \<open>from_le_bytes\<close> on a fixed-size slice.\<close>

definition rd_u16_le :: "bytes \<Rightarrow> nat \<Rightarrow> u16" where
  "rd_u16_le bs off = u16_of_le (bs ! off) (bs ! (off + 1))"

definition rd_u32_le :: "bytes \<Rightarrow> nat \<Rightarrow> u32" where
  "rd_u32_le bs off = u32_of_le (bs ! off) (bs ! (off + 1)) (bs ! (off + 2)) (bs ! (off + 3))"

definition rd_u64_le :: "bytes \<Rightarrow> nat \<Rightarrow> u64" where
  "rd_u64_le bs off = ucast (rd_u32_le bs off) OR push_bit 32 (ucast (rd_u32_le bs (off + 4)))"

lemma length_u_le [simp]:
  "length (u16_le w) = 2" "length (u32_le x) = 4" "length (u64_le y) = 8" "length (u16_be w) = 2"
  by (simp_all add: u16_le_def u32_le_def u64_le_def u16_be_def)

lemma u16_le_roundtrip [simp]: "u16_of_le (ucast w) (ucast (drop_bit 8 w)) = w"
  by (rule bit_word_eqI) (auto simp: u16_of_le_def bit_simps)

lemma u16_be_roundtrip [simp]: "u16_of_be (ucast (drop_bit 8 w)) (ucast w) = w"
  by (rule bit_word_eqI) (auto simp: u16_of_be_def bit_simps)

lemma u32_le_roundtrip [simp]:
  "u32_of_le (ucast w) (ucast (drop_bit 8 w)) (ucast (drop_bit 16 w)) (ucast (drop_bit 24 w)) = w"
proof (rule bit_word_eqI)
  fix n assume "n < LENGTH(32)"
  then consider "n < 8" | "8 \<le> n \<and> n < 16" | "16 \<le> n \<and> n < 24" | "24 \<le> n \<and> n < 32"
    by fastforce
  then show "bit (u32_of_le (ucast w) (ucast (drop_bit 8 w)) (ucast (drop_bit 16 w))
      (ucast (drop_bit 24 w))) n = bit w n"
    by cases (auto simp: u32_of_le_def bit_simps)
qed

lemma u64_split_roundtrip:
  "ucast (ucast (w :: u64) :: u32) OR push_bit 32 (ucast (ucast (drop_bit 32 w) :: u32)) = w"
  by (rule bit_word_eqI) (auto simp: bit_simps)

lemma rd_u16_le_u16_le [simp]: "rd_u16_le (u16_le w @ bs) 0 = w"
  by (simp add: rd_u16_le_def u16_le_def)

lemma rd_u32_le_u32_le [simp]: "rd_u32_le (u32_le w @ bs) 0 = w"
  by (simp add: rd_u32_le_def u32_le_def)

text \<open>Reads behind a prefix, and reads as the inverse of the encodings.\<close>

lemma rd_append:
  assumes "length xs \<le> pos"
  shows "rd_u32_le (xs @ ys) pos = rd_u32_le ys (pos - length xs)"
    and "rd_u16_le (xs @ ys) pos = rd_u16_le ys (pos - length xs)"
    and "rd_u64_le (xs @ ys) pos = rd_u64_le ys (pos - length xs)"
proof -
  have 32: "rd_u32_le (xs @ ys) p = rd_u32_le ys (p - length xs)" if "length xs \<le> p" for p
    using that by (simp add: rd_u32_le_def nth_append Suc_diff_le)
  show "rd_u16_le (xs @ ys) pos = rd_u16_le ys (pos - length xs)"
    using assms by (simp add: rd_u16_le_def nth_append Suc_diff_le)
  show "rd_u32_le (xs @ ys) pos = rd_u32_le ys (pos - length xs)"
    using assms by (rule 32)
  show "rd_u64_le (xs @ ys) pos = rd_u64_le ys (pos - length xs)"
    using assms by (simp add: rd_u64_le_def 32)
qed

lemma rd_Cons:
  "0 < pos \<Longrightarrow> rd_u32_le (x # xs) pos = rd_u32_le xs (pos - 1)"
  "0 < pos \<Longrightarrow> rd_u16_le (x # xs) pos = rd_u16_le xs (pos - 1)"
  "0 < pos \<Longrightarrow> rd_u64_le (x # xs) pos = rd_u64_le xs (pos - 1)"
  using rd_append [of "[x]" pos xs] by simp_all

lemma rd_u64_le_u64_le: "rd_u64_le (u64_le w @ bs) 0 = w"
  by (simp add: rd_u64_le_def u64_le_def rd_append u64_split_roundtrip)

lemma rd_u32_le_self [simp]: "rd_u32_le (u32_le w) 0 = w"
  using rd_u32_le_u32_le [of w "[]"] by simp

lemma rd_u16_le_self [simp]: "rd_u16_le (u16_le w) 0 = w"
  using rd_u16_le_u16_le [of w "[]"] by simp

lemma bit_beyond: "LENGTH('a) \<le> n \<Longrightarrow> \<not> bit (w :: 'a::len word) n"
  using bit_imp_le_length [of w n] by linarith

lemma u16_le_of_le: "u16_le (u16_of_le a b) = [a, b]"
  by (auto simp: u16_le_def u16_of_le_def bit_simps bit_beyond intro!: bit_word_eqI)

lemma u32_le_of_le: "u32_le (u32_of_le a b c d) = [a, b, c, d]"
  by (auto simp: u32_le_def u32_of_le_def bit_simps bit_beyond intro!: bit_word_eqI)

lemma u64_halves:
  "ucast (ucast (lo :: u32) OR push_bit 32 (ucast (hi :: u32)) :: u64) = lo"
  "ucast (drop_bit 32 (ucast (lo :: u32) OR push_bit 32 (ucast (hi :: u32)) :: u64)) = hi"
  by (auto simp: bit_simps bit_beyond intro!: bit_word_eqI)

lemma slice_list4:
  "pos + 4 \<le> length bs \<Longrightarrow> slice pos 4 bs = [bs ! pos, bs ! (pos + 1), bs ! (pos + 2), bs ! (pos + 3)]"
  by (rule nth_equalityI) (auto simp: less_Suc_eq eval_nat_numeral)

lemma slice_list2: "pos + 2 \<le> length bs \<Longrightarrow> slice pos 2 bs = [bs ! pos, bs ! (pos + 1)]"
  by (rule nth_equalityI) (auto simp: less_Suc_eq eval_nat_numeral)

lemma slice_list1: "pos + 1 \<le> length bs \<Longrightarrow> [bs ! pos] = slice pos 1 bs"
  by (rule nth_equalityI) auto

lemma slice_join: "slice pos n bs @ slice (pos + n) m bs = slice pos (n + m) bs"
  unfolding slice_def take_add by (simp add: add.commute)

lemma le_of_rd:
  "pos + 4 \<le> length bs \<Longrightarrow> u32_le (rd_u32_le bs pos) = slice pos 4 bs"
  "pos + 2 \<le> length bs \<Longrightarrow> u16_le (rd_u16_le bs pos) = slice pos 2 bs"
  by (simp_all add: rd_u32_le_def rd_u16_le_def u32_le_of_le u16_le_of_le slice_list4 slice_list2)

lemma u64_le_of_rd: "pos + 8 \<le> length bs \<Longrightarrow> u64_le (rd_u64_le bs pos) = slice pos 8 bs"
  using slice_join [of pos 4 bs 4] unfolding u64_le_def rd_u64_le_def u64_halves
  by (simp add: le_of_rd)

end
