(* ===== verification/Hal.thy ===== *)
theory Hal
  imports Prelude
begin

text \<open>
  The hardware abstraction of \<open>crates/galdr-core\<close>: the error enums of \<open>error.rs\<close>, the traits of
  \<open>hal.rs\<close> and the in-memory doubles of \<open>fake_hal.rs\<close>.

  A trait is a record of functions over a world \<open>'w\<close>, the state the implementor reaches through
  \<open>&self\<close> or \<open>&mut self\<close>. Keeping one world lets several trait objects share state, as the
  firmware's RRAM handles do, or own disjoint parts of it, as the test doubles do
  (\<open>vault_via\<close> and \<open>counter_via\<close> embed an implementation into a part of a larger world).

  Drivers outside the repository implement the traits too. What the clients rely on is stated once,
  as the contracts \<open>vault_contract\<close> and \<open>counter_contract\<close>, and both are discharged here for the
  repository's own implementations.
\<close>

section \<open>Errors\<close>

datatype galdr_error =
    NotImplemented | PrivilegedOperationDenied | GaldrDenied | Integrity | DeviceZeroised
  | GaldrKeyDerivation

fun is_permanent_denial :: "galdr_error \<Rightarrow> bool" where
  "is_permanent_denial PrivilegedOperationDenied = True"
| "is_permanent_denial GaldrDenied = True"
| "is_permanent_denial DeviceZeroised = True"
| "is_permanent_denial _ = False"

datatype hal_error = Bus | EccUncorrectable | Timeout | Denied | NeedsProvisioning | Unsupported

section \<open>Traits\<close>

text \<open>\<open>VaultStorage\<close>: \<open>vs_read w off n\<close> fills a buffer of \<open>n\<close> bytes from \<open>off\<close>.\<close>

record 'w vault_storage =
  vs_read :: "'w \<Rightarrow> nat \<Rightarrow> nat \<Rightarrow> hal_error + bytes"
  vs_write :: "'w \<Rightarrow> nat \<Rightarrow> bytes \<Rightarrow> (hal_error + unit) \<times> 'w"

record 'w monotonic_counter =
  mc_read :: "'w \<Rightarrow> hal_error + u32"
  mc_increment :: "'w \<Rightarrow> (hal_error + u32) \<times> 'w"
  mc_refund :: "'w \<Rightarrow> (hal_error + unit) \<times> 'w"

text \<open>
  \<open>HardwareTrng\<close> is \<open>RngCore + CryptoRng\<close>: \<open>tr_fill n\<close> is \<open>fill_bytes\<close> on a buffer of \<open>n\<close> bytes,
  \<open>tr_try_fill n\<close> its fallible form.
\<close>

record 'w hardware_trng =
  tr_fill :: "nat \<Rightarrow> 'w \<Rightarrow> bytes \<times> 'w"
  tr_try_fill :: "nat \<Rightarrow> 'w \<Rightarrow> (unit + bytes) \<times> 'w"

text \<open>The default body of \<open>MonotonicCounter::refund_on_success\<close>.\<close>

definition refund_on_success_default :: "'w \<Rightarrow> (hal_error + unit) \<times> 'w" where
  "refund_on_success_default w = (Inl Denied, w)"

section \<open>Implementations\<close>

definition UnsupportedVaultStorage :: "'w vault_storage" where
  "UnsupportedVaultStorage = \<lparr>
     vs_read = (\<lambda>w off n. Inl Unsupported),
     vs_write = (\<lambda>w off d. (Inl Unsupported, w))\<rparr>"

record fake_monotonic_counter =
  fc_n :: u32
  fc_fail_next :: bool

definition fake_counter_new :: "u32 \<Rightarrow> fake_monotonic_counter" where
  "fake_counter_new start = \<lparr>fc_n = start, fc_fail_next = False\<rparr>"

definition fake_counter_read :: "fake_monotonic_counter \<Rightarrow> hal_error + u32" where
  "fake_counter_read c = Inr (fc_n c)"

definition fake_counter_increment ::
  "fake_monotonic_counter \<Rightarrow> (hal_error + u32) \<times> fake_monotonic_counter" where
  "fake_counter_increment c =
     (if fc_fail_next c then (Inl Bus, c\<lparr>fc_fail_next := False\<rparr>)
      else let n = sat_add32 (fc_n c) 1 in (Inr n, c\<lparr>fc_n := n\<rparr>))"

definition fake_counter_refund ::
  "fake_monotonic_counter \<Rightarrow> (hal_error + unit) \<times> fake_monotonic_counter" where
  "fake_counter_refund c = (Inr (), c\<lparr>fc_n := sat_sub32 (fc_n c) 1\<rparr>)"

definition FakeMonotonicCounter :: "fake_monotonic_counter monotonic_counter" where
  "FakeMonotonicCounter = \<lparr>
     mc_read = fake_counter_read,
     mc_increment = fake_counter_increment,
     mc_refund = fake_counter_refund\<rparr>"

record fake_vault_storage =
  fv_mem :: bytes
  fv_fail_next_write :: bool

definition fake_vault_new :: "nat \<Rightarrow> fake_vault_storage" where
  "fake_vault_new sz = \<lparr>fv_mem = replicate sz 0, fv_fail_next_write = False\<rparr>"

definition fake_vault_read :: "fake_vault_storage \<Rightarrow> nat \<Rightarrow> nat \<Rightarrow> hal_error + bytes" where
  "fake_vault_read s off n =
     (if off + n > length (fv_mem s) then Inl Denied else Inr (slice off n (fv_mem s)))"

definition fake_vault_write ::
  "fake_vault_storage \<Rightarrow> nat \<Rightarrow> bytes \<Rightarrow> (hal_error + unit) \<times> fake_vault_storage" where
  "fake_vault_write s off d =
     (if fv_fail_next_write s then (Inl EccUncorrectable, s\<lparr>fv_fail_next_write := False\<rparr>)
      else if off + length d > length (fv_mem s) then (Inl Denied, s)
      else (Inr (), s\<lparr>fv_mem := splice (fv_mem s) off d\<rparr>))"

definition FakeVaultStorage :: "fake_vault_storage vault_storage" where
  "FakeVaultStorage = \<lparr>vs_read = fake_vault_read, vs_write = fake_vault_write\<rparr>"

text \<open>\<open>FakeTrng\<close>: a 64-bit linear congruential generator, eight output bytes per two steps.\<close>

definition fake_trng_next_u32 :: "u64 \<Rightarrow> u32 \<times> u64" where
  "fake_trng_next_u32 st = (let st = st * 6364136223846793005 + 1 in (ucast (drop_bit 33 st), st))"

definition fake_trng_next_u64 :: "u64 \<Rightarrow> u64 \<times> u64" where
  "fake_trng_next_u64 st =
     (case fake_trng_next_u32 st of (hi, st) \<Rightarrow>
      case fake_trng_next_u32 st of (lo, st) \<Rightarrow> (push_bit 32 (ucast hi) OR ucast lo, st))"

fun fake_trng_fill :: "nat \<Rightarrow> u64 \<Rightarrow> bytes \<times> u64" where
  "fake_trng_fill n st =
     (if n = 0 then ([], st)
      else case fake_trng_next_u64 st of (v, st) \<Rightarrow>
        case fake_trng_fill (n - 8) st of (bs, st) \<Rightarrow> (take (min n 8) (u64_le v) @ bs, st))"

declare fake_trng_fill.simps [simp del]

definition FakeTrng :: "u64 hardware_trng" where
  "FakeTrng = \<lparr>
     tr_fill = fake_trng_fill,
     tr_try_fill = (\<lambda>n st. case fake_trng_fill n st of (bs, st) \<Rightarrow> (Inr bs, st))\<rparr>"

text \<open>
  An implementation over \<open>'s\<close> as an implementation over a world \<open>'w\<close> that holds an \<open>'s\<close>, reached
  by \<open>get\<close> and replaced by \<open>put\<close>.
\<close>

definition vault_via ::
  "('w \<Rightarrow> 's) \<Rightarrow> ('s \<Rightarrow> 'w \<Rightarrow> 'w) \<Rightarrow> 's vault_storage \<Rightarrow> 'w vault_storage" where
  "vault_via get put ops = \<lparr>
     vs_read = (\<lambda>w off n. vs_read ops (get w) off n),
     vs_write = (\<lambda>w off d. case vs_write ops (get w) off d of (r, s) \<Rightarrow> (r, put s w))\<rparr>"

definition counter_via ::
  "('w \<Rightarrow> 's) \<Rightarrow> ('s \<Rightarrow> 'w \<Rightarrow> 'w) \<Rightarrow> 's monotonic_counter \<Rightarrow> 'w monotonic_counter" where
  "counter_via get put ops = \<lparr>
     mc_read = (\<lambda>w. mc_read ops (get w)),
     mc_increment = (\<lambda>w. case mc_increment ops (get w) of (r, s) \<Rightarrow> (r, put s w)),
     mc_refund = (\<lambda>w. case mc_refund ops (get w) of (r, s) \<Rightarrow> (r, put s w))\<rparr>"

definition trng_via ::
  "('w \<Rightarrow> 's) \<Rightarrow> ('s \<Rightarrow> 'w \<Rightarrow> 'w) \<Rightarrow> 's hardware_trng \<Rightarrow> 'w hardware_trng" where
  "trng_via get put ops = \<lparr>
     tr_fill = (\<lambda>n w. case tr_fill ops n (get w) of (r, s) \<Rightarrow> (r, put s w)),
     tr_try_fill = (\<lambda>n w. case tr_try_fill ops n (get w) of (r, s) \<Rightarrow> (r, put s w))\<rparr>"

section \<open>Contracts\<close>

text \<open>
  What a client of \<open>VaultStorage\<close> relies on: \<open>vs_mem\<close> is the content the implementor keeps and
  \<open>vs_ok\<close> says that no injected fault is pending. In bounds, a healthy storage reads the content
  and writes exactly the bytes given; a failing write leaves the content as it was.
\<close>

locale vault_contract =
  fixes vs :: "'w vault_storage"
    and vs_mem :: "'w \<Rightarrow> bytes"
    and vs_ok :: "'w \<Rightarrow> bool"
  assumes read_in: "vs_ok w \<Longrightarrow> off + n \<le> length (vs_mem w) \<Longrightarrow>
      vs_read vs w off n = Inr (slice off n (vs_mem w))"
    and write_in: "vs_ok w \<Longrightarrow> off + length d \<le> length (vs_mem w) \<Longrightarrow>
      fst (vs_write vs w off d) = Inr ()"
    and write_mem: "fst (vs_write vs w off d) = Inr () \<Longrightarrow>
      off + length d \<le> length (vs_mem w) \<and>
      vs_mem (snd (vs_write vs w off d)) = splice (vs_mem w) off d"
    and write_err: "fst (vs_write vs w off d) = Inl e \<Longrightarrow>
      vs_mem (snd (vs_write vs w off d)) = vs_mem w"
    and write_ok: "vs_ok w \<Longrightarrow> vs_ok (snd (vs_write vs w off d))"
    and read_len: "vs_read vs w off n = Inr bs \<Longrightarrow> length bs = n"
begin

lemma write_length: "length (vs_mem (snd (vs_write vs w off d))) = length (vs_mem w)"
proof (cases "fst (vs_write vs w off d)")
  case (Inl e)
  then show ?thesis by (simp add: write_err)
next
  case (Inr u)
  then have "fst (vs_write vs w off d) = Inr ()" by simp
  from write_mem [OF this] show ?thesis by simp
qed

lemma write_then_read:
  assumes "vs_ok w" and "off + length d \<le> length (vs_mem w)" and "n = length d"
  shows "vs_read vs (snd (vs_write vs w off d)) off n = Inr d"
  using assms write_in [of w off d] write_mem [of w off d] write_ok [of w off d]
  by (simp add: read_in slice_simps)

lemma write_frame:
  assumes "vs_ok w" and "off + length d \<le> length (vs_mem w)"
    and "o2 + n \<le> length (vs_mem w)" and "o2 + n \<le> off \<or> off + length d \<le> o2"
  shows "vs_read vs (snd (vs_write vs w off d)) o2 n = vs_read vs w o2 n"
  using assms write_in [of w off d] write_mem [of w off d] write_ok [of w off d]
  by (simp add: read_in slice_splice_disjoint)

end

text \<open>
  What the PIN policy relies on of a counter: an increment that succeeds returns and stores the
  saturating successor, one that fails leaves the count, and a refund either takes the reservation
  back or, on hardware that cannot roll back, leaves the count where it is.
\<close>

locale counter_contract =
  fixes mc :: "'w monotonic_counter"
    and mc_val :: "'w \<Rightarrow> u32"
    and mc_ok :: "'w \<Rightarrow> bool"
  assumes inc_ok: "mc_ok w \<Longrightarrow> fst (mc_increment mc w) = Inr (sat_add32 (mc_val w) 1)"
    and inc_val: "fst (mc_increment mc w) = Inr c \<Longrightarrow>
      c = sat_add32 (mc_val w) 1 \<and> mc_val (snd (mc_increment mc w)) = c"
    and inc_err: "fst (mc_increment mc w) = Inl e \<Longrightarrow> mc_val (snd (mc_increment mc w)) = mc_val w"
    and inc_healthy: "mc_ok w \<Longrightarrow> mc_ok (snd (mc_increment mc w))"
    and refund_val: "mc_val (snd (mc_refund mc w)) = mc_val w \<or>
      mc_val (snd (mc_refund mc w)) = sat_sub32 (mc_val w) 1"
    and refund_healthy: "mc_ok w \<Longrightarrow> mc_ok (snd (mc_refund mc w))"

text \<open>Counters that really take the reservation back, as both of the repository do.\<close>

locale refunding_counter = counter_contract +
  assumes refund_takes: "mc_ok w \<Longrightarrow> mc_val (snd (mc_refund mc w)) = sat_sub32 (mc_val w) 1"

text \<open>A generator fills the whole buffer it is given.\<close>

locale trng_contract =
  fixes tr :: "'w hardware_trng"
  assumes fill_length: "length (fst (tr_fill tr n w)) = n"
    and try_fill_length: "fst (tr_try_fill tr n w) = Inr bs \<Longrightarrow> length bs = n"

section \<open>The doubles satisfy the contracts\<close>

lemma fake_trng_fill_length: "length (fst (fake_trng_fill n st)) = n"
proof (induction n arbitrary: st rule: less_induct)
  case (less n)
  show ?case
  proof (cases "n = 0")
    case False
    obtain v st1 where v: "fake_trng_next_u64 st = (v, st1)" by (cases "fake_trng_next_u64 st")
    obtain bs st2 where bs: "fake_trng_fill (n - 8) st1 = (bs, st2)"
      by (cases "fake_trng_fill (n - 8) st1")
    from False have "length (fst (fake_trng_fill (n - 8) st1)) = n - 8" by (intro less) simp
    with False v bs show ?thesis by (subst fake_trng_fill.simps) simp
  qed (simp add: fake_trng_fill.simps)
qed

interpretation fake_trng: trng_contract FakeTrng
proof unfold_locales
  show "length (fst (tr_fill FakeTrng n w)) = n" for n w
    by (simp add: FakeTrng_def fake_trng_fill_length)
  show "fst (tr_try_fill FakeTrng n w) = Inr bs \<Longrightarrow> length bs = n" for n w bs
    using fake_trng_fill_length [of n w] by (auto simp: FakeTrng_def split: prod.splits)
qed

lemmas fake_vault_defs = FakeVaultStorage_def fake_vault_read_def fake_vault_write_def

lemmas fake_counter_defs = FakeMonotonicCounter_def fake_counter_read_def
  fake_counter_increment_def fake_counter_refund_def

text \<open>
  A healthy \<open>FakeVaultStorage\<close> is one without a pending injected fault. The contract asks a write
  to keep health, and a write to an injected-fault storage clears the flag.
\<close>

interpretation fake_vault: vault_contract FakeVaultStorage fv_mem "\<lambda>s. \<not> fv_fail_next_write s"
  by unfold_locales (auto simp: fake_vault_defs split: if_splits)

interpretation fake_counter: refunding_counter FakeMonotonicCounter fc_n "\<lambda>c. \<not> fc_fail_next c"
  by unfold_locales (auto simp: fake_counter_defs Let_def split: if_splits)

section \<open>Embedded implementations keep the contracts\<close>

lemma via_simps [simp]:
  "vs_read (vault_via get put ops) w off n = vs_read ops (get w) off n"
  "fst (vs_write (vault_via get put ops) w off d) = fst (vs_write ops (get w) off d)"
  "snd (vs_write (vault_via get put ops) w off d) = put (snd (vs_write ops (get w) off d)) w"
  "fst (mc_increment (counter_via get put c) w) = fst (mc_increment c (get w))"
  "snd (mc_increment (counter_via get put c) w) = put (snd (mc_increment c (get w))) w"
  "fst (mc_refund (counter_via get put c) w) = fst (mc_refund c (get w))"
  "snd (mc_refund (counter_via get put c) w) = put (snd (mc_refund c (get w))) w"
  "fst (tr_fill (trng_via get put t) n w) = fst (tr_fill t n (get w))"
  "snd (tr_fill (trng_via get put t) n w) = put (snd (tr_fill t n (get w))) w"
  "fst (tr_try_fill (trng_via get put t) n w) = fst (tr_try_fill t n (get w))"
  "snd (tr_try_fill (trng_via get put t) n w) = put (snd (tr_try_fill t n (get w))) w"
  by (simp_all add: vault_via_def counter_via_def trng_via_def split: prod.split)

lemma vault_via_contract:
  assumes "vault_contract ops mem ok" and "\<And>s w. get (put s w) = s"
  shows "vault_contract (vault_via get put ops) (\<lambda>w. mem (get w)) (\<lambda>w. ok (get w))"
  using assms(1) unfolding vault_contract_def via_simps assms(2) by blast

lemma counter_via_contract:
  assumes "refunding_counter c val ok" and "\<And>s w. get (put s w) = s"
  shows "refunding_counter (counter_via get put c) (\<lambda>w. val (get w)) (\<lambda>w. ok (get w))"
  using assms(1)
  unfolding refunding_counter_def refunding_counter_axioms_def counter_contract_def via_simps assms(2)
  by blast

lemma trng_via_contract:
  assumes "trng_contract t"
  shows "trng_contract (trng_via get put t)"
  using assms unfolding trng_contract_def via_simps by blast

end
