(* ===== verification/Constant_Time.thy ===== *)
theory Constant_Time
  imports Prelude
begin

text \<open>
  The constant-time equality of the vendored \<open>subtle\<close> crate
  (\<open>crates/subtle-vendored/src/lib.rs\<close>, patched into the workspace), which every PIN,
  fingerprint and digest comparison of the firmware uses. The branch-free bit manipulation is kept
  as written; that it decides equality is a lemma the other components share.
\<close>

text \<open>\<open>Choice\<close> wraps a \<open>u8\<close>; the conversion to \<open>bool\<close> tests it against zero.\<close>

type_synonym choice = u8

definition bool_of_choice :: "choice \<Rightarrow> bool" where
  "bool_of_choice c \<longleftrightarrow> c \<noteq> 0"

definition ct_eq_u8 :: "u8 \<Rightarrow> u8 \<Rightarrow> choice" where
  "ct_eq_u8 a b =
     (let x = a XOR b;
          y = drop_bit 7 (x OR (- x))
      in y XOR 1)"

fun ct_eq_loop :: "choice \<Rightarrow> (u8 \<times> u8) list \<Rightarrow> choice" where
  "ct_eq_loop x [] = x"
| "ct_eq_loop x ((a, b) # ps) = ct_eq_loop (x AND ct_eq_u8 a b) ps"

definition ct_eq :: "bytes \<Rightarrow> bytes \<Rightarrow> choice" where
  "ct_eq a b = (if length a \<noteq> length b then 0 else ct_eq_loop 1 (zip a b))"

section \<open>The bit manipulation decides equality\<close>

lemma high_bit_of_nonzero: "bit ((x :: u8) OR (- x)) 7 \<longleftrightarrow> x \<noteq> 0"
proof
  assume "bit (x OR (- x)) 7"
  then show "x \<noteq> 0" by auto
next
  assume nz: "x \<noteq> 0"
  show "bit (x OR (- x)) 7"
  proof (rule ccontr)
    assume a: "\<not> bit (x OR (- x)) 7"
    have msb7: "bit (w :: u8) 7 \<longleftrightarrow> 128 \<le> uint w" for w
    proof -
      have "bit w 7 \<longleftrightarrow> bit (uint w) 7"
        by (simp add: bit_uint_iff)
      also have "\<dots> \<longleftrightarrow> odd (uint w div 2 ^ 7)"
        by (rule bit_iff_odd)
      finally have "bit w 7 \<longleftrightarrow> odd (uint w div 128)" by simp
      moreover have "uint w < 256" using uint_lt2p [of w] by simp
      moreover have "uint w \<ge> 0" by simp
      moreover have "0 \<le> u \<Longrightarrow> u < 256 \<Longrightarrow> odd (u div 128) \<longleftrightarrow> 128 \<le> u" for u :: int
        by presburger
      ultimately show ?thesis by blast
    qed
    from a have "\<not> bit x 7" and "\<not> bit (- x) 7"
      by (simp_all only: bit_or_iff) blast+
    then have "uint x < 128" and "uint (- x) < 128"
      by (simp_all add: msb7)
    moreover have "uint x \<noteq> 0" using nz by (simp add: word_uint_eq_iff)
    then have "uint (- x) = 256 - uint x"
      using uint_lt2p [of x] by (simp add: uint_word_ariths zmod_zminus1_eq_if)
    ultimately show False by simp
  qed
qed

lemma drop_bit_7_eq: "drop_bit 7 (w :: u8) = (if bit w 7 then 1 else 0)"
proof (rule bit_word_eqI)
  fix n assume "n < LENGTH(8)"
  then show "bit (drop_bit 7 w) n = bit (if bit w 7 then 1 else 0 :: u8) n"
    by (cases "n = 0") (auto simp: bit_simps dest: bit_imp_le_length)
qed

lemma ct_eq_u8_iff [simp]: "ct_eq_u8 a b = (if a = b then 1 else 0)"
proof -
  have "a XOR b = 0 \<longleftrightarrow> a = b"
    by (metis xor_self_eq bit.xor_left_self xor.right_neutral)
  then have "drop_bit 7 ((a XOR b) OR - (a XOR b)) = (if a = b then 0 else 1)"
    unfolding drop_bit_7_eq high_bit_of_nonzero by simp
  then show ?thesis by (simp add: ct_eq_u8_def Let_def)
qed

lemma ct_eq_loop_iff:
  "x = 0 \<or> x = 1 \<Longrightarrow> ct_eq_loop x ps = (if x = 1 \<and> (\<forall>(a, b) \<in> set ps. a = b) then 1 else 0)"
proof (induction x ps rule: ct_eq_loop.induct)
  case (1 x)
  then show ?case by auto
next
  case (2 x a b ps)
  then have "x AND ct_eq_u8 a b = (if x = 1 \<and> a = b then 1 else 0)" by auto
  with 2 show ?case by auto
qed

text \<open>The slice comparison is equality of the two slices.\<close>

lemma ct_eq_iff: "ct_eq a b = (if a = b then 1 else 0)"
proof (cases "length a = length b")
  case True
  then have "(\<forall>(x, y) \<in> set (zip a b). x = y) \<longleftrightarrow> a = b"
    by (induction a b rule: list_induct2) auto
  with True show ?thesis by (simp add: ct_eq_def ct_eq_loop_iff)
next
  case False
  then show ?thesis by (auto simp: ct_eq_def)
qed

lemma bool_of_ct_eq [simp]: "bool_of_choice (ct_eq a b) \<longleftrightarrow> a = b"
  by (simp add: ct_eq_iff bool_of_choice_def)

end
