(* ===== verification/Pin_Policy.thy ===== *)
theory Pin_Policy
  imports Hal Constant_Time
begin

text \<open>
  The PIN entry policy of \<open>crates/pin-policy\<close>: the attempt state machine of \<open>machine.rs\<close>, the
  boot-time resume model of \<open>zeroise_fsm.rs\<close> and the input parser of \<open>pin_input.rs\<close>.

  A \<open>PinPolicyMachine\<close> holds its configuration and state; the counter it charges and the
  zeroisation hook it fires act on the world \<open>'w\<close> and are arguments of \<open>submit_attempt\<close>.
  Contract-level lemmas are proved once for every counter that satisfies \<open>counter_contract\<close> and
  read off for the repository's counter through the interpretation \<open>fake_counter\<close>.
\<close>

section \<open>Model\<close>

definition pin_compare :: "bytes \<Rightarrow> bytes \<Rightarrow> choice" where
  "pin_compare a b = (if length a \<noteq> length b then 0 else ct_eq a b)"

definition DEFAULT_MAX_PIN_ATTEMPTS :: u32 where "DEFAULT_MAX_PIN_ATTEMPTS = 3"
definition MIN_PROVISIONED_PIN_ATTEMPTS :: u32 where "MIN_PROVISIONED_PIN_ATTEMPTS = 3"
definition MAX_PROVISIONED_PIN_ATTEMPTS :: u32 where "MAX_PROVISIONED_PIN_ATTEMPTS = 10"

datatype pin_policy_provision_error = MaxAttemptsOutOfRange

record pin_policy_config =
  max_attempts :: u32

definition try_with_max_attempts :: "u32 \<Rightarrow> pin_policy_provision_error + pin_policy_config" where
  "try_with_max_attempts n =
     (if \<not> (MIN_PROVISIONED_PIN_ATTEMPTS \<le> n \<and> n \<le> MAX_PROVISIONED_PIN_ATTEMPTS)
      then Inl MaxAttemptsOutOfRange else Inr \<lparr>max_attempts = n\<rparr>)"

definition pin_policy_config_default :: pin_policy_config where
  "pin_policy_config_default = \<lparr>max_attempts = DEFAULT_MAX_PIN_ATTEMPTS\<rparr>"

datatype pin_state =
    BootCold | LockedIdle | AttemptCharge | Verifying | Unlocked | Cooldown | Bricked

datatype pin_outcome = Success | Failed u32 | Breach

record pin_policy_machine =
  config :: pin_policy_config
  pstate :: pin_state

definition pin_machine_new :: "pin_policy_config \<Rightarrow> pin_policy_machine" where
  "pin_machine_new cfg = \<lparr>config = cfg, pstate = BootCold\<rparr>"

definition enter_locked_idle :: "pin_policy_machine \<Rightarrow> pin_policy_machine" where
  "enter_locked_idle m = (if pstate m \<noteq> Bricked then m\<lparr>pstate := LockedIdle\<rparr> else m)"

text \<open>
  The closure \<open>verify\<close> is called at most once, after the counter was charged; \<open>zeroise\<close> is
  \<open>ZeroisationTrigger::trigger_zeroisation\<close>. The result of the refund is discarded, as in the code.
\<close>

definition submit_attempt ::
  "'w monotonic_counter \<Rightarrow> ('w \<Rightarrow> 'w) \<Rightarrow> (unit \<Rightarrow> choice) \<Rightarrow> pin_policy_machine \<Rightarrow> 'w \<Rightarrow>
   (hal_error + pin_outcome) \<times> pin_policy_machine \<times> 'w" where
  "submit_attempt mc zeroise verify m w =
     (if pstate m = Bricked then (Inr Breach, m, w)
      else
        let m1 = m\<lparr>pstate := AttemptCharge\<rparr> in
        case mc_increment mc w of
          (Inl e, w1) \<Rightarrow> (Inl e, m1, w1)
        | (Inr count, w1) \<Rightarrow>
            let m2 = m1\<lparr>pstate := Verifying\<rparr> in
            if count > max_attempts (config m2)
            then (Inr Breach, m2\<lparr>pstate := Bricked\<rparr>, zeroise w1)
            else if bool_of_choice (verify ())
            then (Inr Success, m2\<lparr>pstate := Unlocked\<rparr>, snd (mc_refund mc w1))
            else (Inr (Failed count), m2\<lparr>pstate := LockedIdle\<rparr>, w1))"

text \<open>A sequence of submissions, with the outcome of each.\<close>

fun submit_attempts ::
  "'w monotonic_counter \<Rightarrow> ('w \<Rightarrow> 'w) \<Rightarrow> (unit \<Rightarrow> choice) list \<Rightarrow> pin_policy_machine \<Rightarrow> 'w \<Rightarrow>
   (hal_error + pin_outcome) list \<times> pin_policy_machine \<times> 'w" where
  "submit_attempts mc z [] m w = ([], m, w)"
| "submit_attempts mc z (v # vs) m w =
     (case submit_attempt mc z v m w of (r, m1, w1) \<Rightarrow>
        case submit_attempts mc z vs m1 w1 of (rs, m2, w2) \<Rightarrow> (r # rs, m2, w2))"

fun is_failed :: "hal_error + pin_outcome \<Rightarrow> bool" where
  "is_failed (Inr (Failed n)) = True"
| "is_failed _ = False"

abbreviation failures :: "(hal_error + pin_outcome) list \<Rightarrow> nat" where
  "failures rs \<equiv> length (filter is_failed rs)"

subsection \<open>Interrupted zeroisation\<close>

datatype zeroise_phase = ZIdle | ZInProgress u8

datatype zeroise_boot_state = Clean | ResumeRequired zeroise_phase

fun on_power_loss_during_wipe :: "zeroise_phase \<Rightarrow> zeroise_boot_state" where
  "on_power_loss_during_wipe ZIdle = Clean"
| "on_power_loss_during_wipe (ZInProgress pass) = ResumeRequired (ZInProgress pass)"

fun boot0_may_enumerate_usb :: "zeroise_boot_state \<Rightarrow> bool" where
  "boot0_may_enumerate_usb (ResumeRequired _) = False"
| "boot0_may_enumerate_usb Clean = True"

subsection \<open>PIN text input\<close>

text \<open>A \<open>&str\<close> is its sequence of Unicode scalar values.\<close>

type_synonym code_point = nat

datatype pin_parse_error = TooShort | InvalidCharacter

definition is_ascii_alphanumeric :: "code_point \<Rightarrow> bool" where
  "is_ascii_alphanumeric c \<longleftrightarrow>
     (0x30 \<le> c \<and> c \<le> 0x39) \<or> (0x41 \<le> c \<and> c \<le> 0x5A) \<or> (0x61 \<le> c \<and> c \<le> 0x7A)"

definition parse_unlock_pin :: "code_point list \<Rightarrow> pin_parse_error + code_point list" where
  "parse_unlock_pin input =
     (if length input < 5 then Inl TooShort
      else if \<not> list_all is_ascii_alphanumeric input then Inl InvalidCharacter
      else Inr input)"

definition parse_challenge_passphrase ::
  "code_point list \<Rightarrow> pin_parse_error + code_point list" where
  "parse_challenge_passphrase input = parse_unlock_pin input"

section \<open>Single submissions\<close>

lemma pin_compare_iff [simp]: "bool_of_choice (pin_compare a b) \<longleftrightarrow> a = b"
  by (auto simp: pin_compare_def bool_of_choice_def ct_eq_iff)

lemma submit_attempt_config [simp]: "config (fst (snd (submit_attempt mc z v m w))) = config m"
  by (auto simp: submit_attempt_def Let_def split: prod.splits sum.splits)

lemma submit_attempts_config [simp]: "config (fst (snd (submit_attempts mc z vs m w))) = config m"
proof (induction vs arbitrary: m w)
  case Nil
  then show ?case by simp
next
  case (Cons v vs)
  obtain r m1 w1 where s: "submit_attempt mc z v m w = (r, m1, w1)" by (cases "submit_attempt mc z v m w")
  moreover obtain rs m2 w2 where "submit_attempts mc z vs m1 w1 = (rs, m2, w2)"
    by (cases "submit_attempts mc z vs m1 w1")
  ultimately show ?case
    using Cons.IH [of m1 w1] submit_attempt_config [of mc z v m w] by simp
qed

lemma submit_attempt_bricked [simp]:
  "pstate m = Bricked \<Longrightarrow> submit_attempt mc z v m w = (Inr Breach, m, w)"
  by (simp add: submit_attempt_def)

lemma submit_attempts_bricked:
  "pstate m = Bricked \<Longrightarrow>
   submit_attempts mc z vs m w = (replicate (length vs) (Inr Breach), m, w)"
  by (induction vs) simp_all

text \<open>The five ways a submission ends, in terms of the counter.\<close>

lemma submit_attempt_cases:
  assumes "submit_attempt mc z v m w = (r, m', w')"
  obtains (bricked) "pstate m = Bricked" "r = Inr Breach" "m' = m" "w' = w"
    | (hal) e where "pstate m \<noteq> Bricked" "mc_increment mc w = (Inl e, w')" "r = Inl e"
        "m' = m\<lparr>pstate := AttemptCharge\<rparr>"
    | (breach) c w1 where "pstate m \<noteq> Bricked" "mc_increment mc w = (Inr c, w1)"
        "max_attempts (config m) < c" "r = Inr Breach" "m' = m\<lparr>pstate := Bricked\<rparr>" "w' = z w1"
    | (success) c w1 where "pstate m \<noteq> Bricked" "mc_increment mc w = (Inr c, w1)"
        "c \<le> max_attempts (config m)" "bool_of_choice (v ())" "r = Inr Success"
        "m' = m\<lparr>pstate := Unlocked\<rparr>" "w' = snd (mc_refund mc w1)"
    | (failed) c where "pstate m \<noteq> Bricked" "mc_increment mc w = (Inr c, w')"
        "c \<le> max_attempts (config m)" "\<not> bool_of_choice (v ())" "r = Inr (Failed c)"
        "m' = m\<lparr>pstate := LockedIdle\<rparr>"
  using assms
  by (auto simp: submit_attempt_def Let_def not_less split: prod.splits sum.splits if_splits)

section \<open>What every counter gives\<close>

context counter_contract
begin

text \<open>
  One submission moves the count up by at least the failures it reports. The zeroisation hook is
  outside the contract, so the bound is stated for submissions that do not breach.
\<close>

lemma submit_count:
  assumes "submit_attempt mc z v m w = (r, m', w')" and "r \<noteq> Inr Breach"
    and "max_attempts (config m) < 0xFFFFFFFF" and "mc_val w \<le> max_attempts (config m)"
  shows "unat (mc_val w) + (if is_failed r then 1 else 0) \<le> unat (mc_val w')
    \<and> mc_val w' \<le> max_attempts (config m)"
  using assms(1)
proof (cases rule: submit_attempt_cases)
  case bricked
  with assms show ?thesis by simp
next
  case (hal e)
  with inc_err [of w e] assms show ?thesis by simp
next
  case (breach c w1)
  with assms show ?thesis by simp
next
  case (success c w1)
  from success(2) inc_val [of w c] have c: "c = sat_add32 (mc_val w) 1" "mc_val w1 = c" by auto
  with assms(3,4) success(3) have u: "unat c = unat (mc_val w) + 1"
    by (auto simp: unat_sat_add32 word_less_nat_alt word_le_nat_alt)
  from refund_val [of w1] c u success(3,7)
  have "unat (mc_val w') = unat (mc_val w) \<or> unat (mc_val w') = unat (mc_val w) + 1"
    by (auto simp: unat_sat_sub32)
  with success(3,5) u show ?thesis by (auto simp: word_le_nat_alt)
next
  case (failed c)
  from failed(2) inc_val [of w c] have c: "c = sat_add32 (mc_val w) 1" "mc_val w' = c" by auto
  with assms(3,4) failed(3) have "unat c = unat (mc_val w) + 1"
    by (auto simp: unat_sat_add32 word_less_nat_alt word_le_nat_alt)
  with c failed show ?thesis by simp
qed

text \<open>
  Over any sequence of submissions the number of compared and rejected PINs never exceeds what was
  left of the configured ceiling, whatever else happens in between (successes, refunds that the
  hardware refuses, counter faults, breaches).
\<close>

lemma failures_bounded:
  assumes "submit_attempts mc z vs m w = (rs, m', w')"
    and "max_attempts (config m) < 0xFFFFFFFF" and "mc_val w \<le> max_attempts (config m)"
  shows "unat (mc_val w) + failures rs \<le> unat (max_attempts (config m))"
  using assms
proof (induction vs arbitrary: m w rs)
  case Nil
  then show ?case by (simp add: word_le_nat_alt)
next
  case (Cons v vs)
  obtain r m1 w1 where s: "submit_attempt mc z v m w = (r, m1, w1)"
    by (cases "submit_attempt mc z v m w")
  obtain rs1 m2 w2 where t: "submit_attempts mc z vs m1 w1 = (rs1, m2, w2)"
    by (cases "submit_attempts mc z vs m1 w1")
  from Cons.prems(1) s t have rs: "rs = r # rs1" "m' = m2" "w' = w2" by auto
  have cfg: "config m1 = config m" using submit_attempt_config [of mc z v m w] s by simp
  show ?case
  proof (cases "r = Inr Breach")
    case True
    with s have "pstate m1 = Bricked" by (cases rule: submit_attempt_cases) auto
    with t have "rs1 = replicate (length vs) (Inr Breach)" by (simp add: submit_attempts_bricked)
    with True rs have "failures rs = 0" by simp
    with Cons.prems(3) show ?thesis by (simp add: word_le_nat_alt)
  next
    case False
    from submit_count [OF s False Cons.prems(2,3)] cfg
    have step: "unat (mc_val w) + (if is_failed r then 1 else 0) \<le> unat (mc_val w1)"
      and le: "mc_val w1 \<le> max_attempts (config m1)" by auto
    from Cons.IH [OF t [unfolded rs(2,3) [symmetric]]] le Cons.prems(2) cfg
    have "unat (mc_val w1) + failures rs1 \<le> unat (max_attempts (config m))" by simp
    with step rs show ?thesis by (simp split: if_splits)
  qed
qed

end

context refunding_counter
begin

lemma sat_back: "c < 0xFFFFFFFF \<Longrightarrow> sat_sub32 (sat_add32 c 1) 1 = (c :: u32)"
  by (rule word_unat_eq_iff [THEN iffD2])
    (simp add: unat_sat_sub32 unat_sat_add32 word_less_nat_alt)

text \<open>
  With a counter that honours refunds, the count after a run without faults or breaches is exactly
  the start value plus the rejected attempts: a success never clears earlier failures.
\<close>

lemma count_is_failures:
  assumes "submit_attempts mc z vs m w = (rs, m', w')" and "\<forall>r \<in> set rs. r \<noteq> Inr Breach"
    and "mc_ok w" and "max_attempts (config m) < 0xFFFFFFFF"
  shows "unat (mc_val w') = unat (mc_val w) + failures rs \<and> mc_ok w'"
  using assms
proof (induction vs arbitrary: m w rs)
  case Nil
  then show ?case by simp
next
  case (Cons v vs)
  obtain r m1 w1 where s: "submit_attempt mc z v m w = (r, m1, w1)"
    by (cases "submit_attempt mc z v m w")
  obtain rs1 m2 w2 where t: "submit_attempts mc z vs m1 w1 = (rs1, m2, w2)"
    by (cases "submit_attempts mc z vs m1 w1")
  from Cons.prems(1) s t have rs: "rs = r # rs1" "m' = m2" "w' = w2" by auto
  have cfg: "config m1 = config m" using submit_attempt_config [of mc z v m w] s by simp
  from s Cons.prems have step: "unat (mc_val w1) = unat (mc_val w) + (if is_failed r then 1 else 0)
      \<and> mc_ok w1"
  proof (cases rule: submit_attempt_cases)
    case (hal e)
    with inc_ok [of w] Cons.prems(3) show ?thesis by simp
  next
    case (success c w2)
    from success(2) inc_val [of w c] inc_healthy [of w] Cons.prems(3)
    have c: "c = sat_add32 (mc_val w) 1" "mc_val w2 = c" "mc_ok w2" by auto
    from c(1) success(3) Cons.prems(4) have "mc_val w < 0xFFFFFFFF"
      by (auto simp: word_less_nat_alt word_le_nat_alt unat_sat_add32)
    with c refund_takes [of w2] refund_healthy [of w2] success show ?thesis
      by (simp add: sat_back)
  next
    case (failed c)
    from failed(2) inc_val [of w c] inc_healthy [of w] Cons.prems(3)
    have c: "c = sat_add32 (mc_val w) 1" "mc_val w1 = c" "mc_ok w1" by auto
    with failed Cons.prems(4) show ?thesis
      by (auto simp: unat_sat_add32 word_less_nat_alt word_le_nat_alt)
  qed (use rs in auto)
  from Cons.IH [OF t [unfolded rs(2,3) [symmetric]]] Cons.prems(2,4) rs cfg step
  show ?case by simp
qed

end

section \<open>Properties\<close>

text \<open>
  (C1) Brute-force bound: over any sequence of submissions against any counter that keeps the
  \<open>MonotonicCounter\<close> contract, the count found at the start plus the number of PIN comparisons that
  were answered with a failure stays within \<open>max_attempts\<close>, whatever successes, refused refunds,
  counter faults or breaches occur in between.
\<close>

theorem pin_failures_bounded:
  assumes "counter_contract mc mc_val mc_ok"
    and "submit_attempts mc z vs m w = (rs, m', w')"
    and "max_attempts (config m) < 0xFFFFFFFF" and "mc_val w \<le> max_attempts (config m)"
  shows "unat (mc_val w) + failures rs \<le> unat (max_attempts (config m))"
  using counter_contract.failures_bounded [OF assms] .

theorem pin_failures_bounded_witness:
  "unat (fc_n (fake_counter_new 0)) + failures (fst (submit_attempts FakeMonotonicCounter id
      (replicate 6 (\<lambda>_. 0)) (pin_machine_new pin_policy_config_default) (fake_counter_new 0)))
   \<le> unat (max_attempts pin_policy_config_default)"
  using pin_failures_bounded [OF fake_counter.counter_contract_axioms, of id "replicate 6 (\<lambda>_. 0)"
      "pin_machine_new pin_policy_config_default" "fake_counter_new 0"]
  by (simp add: pin_machine_new_def pin_policy_config_default_def DEFAULT_MAX_PIN_ATTEMPTS_def
      fake_counter_new_def prod_eq_iff)

text \<open>
  (C3) With a counter that takes reservations back, the count after a run without a breach is the
  start value plus the rejected attempts of the whole run. A success gives back its own reservation
  only: earlier failures are never forgotten, so the ceiling bounds the failures of a lifetime and
  not the consecutive ones.
\<close>

theorem pin_count_is_cumulative_failures:
  assumes "refunding_counter mc mc_val mc_ok"
    and "submit_attempts mc z vs m w = (rs, m', w')" and "\<forall>r \<in> set rs. r \<noteq> Inr Breach"
    and "mc_ok w" and "max_attempts (config m) < 0xFFFFFFFF"
  shows "unat (mc_val w') = unat (mc_val w) + failures rs"
  using refunding_counter.count_is_failures [OF assms] by simp

theorem pin_count_is_cumulative_failures_witness:
  "unat (fc_n (snd (snd (submit_attempts FakeMonotonicCounter id
      [\<lambda>_. 0, \<lambda>_. 1, \<lambda>_. 0, \<lambda>_. 1] (pin_machine_new pin_policy_config_default)
      (fake_counter_new 0))))) = 2"
proof -
  have run: "submit_attempts FakeMonotonicCounter id [\<lambda>_. 0, \<lambda>_. 1, \<lambda>_. 0, \<lambda>_. 1]
      (pin_machine_new pin_policy_config_default) (fake_counter_new 0) =
      ([Inr (Failed 1), Inr Success, Inr (Failed 2), Inr Success],
       \<lparr>config = pin_policy_config_default, pstate = Unlocked\<rparr>, fake_counter_new 2)"
    by (simp add: submit_attempt_def pin_machine_new_def pin_policy_config_default_def
        DEFAULT_MAX_PIN_ATTEMPTS_def fake_counter_new_def fake_counter_defs sat_add32_def
        sat_sub32_def bool_of_choice_def)
  show ?thesis
    using pin_count_is_cumulative_failures [OF fake_counter.refunding_counter_axioms run]
    unfolding run
    by (simp add: fake_counter_new_def pin_machine_new_def pin_policy_config_default_def
        DEFAULT_MAX_PIN_ATTEMPTS_def)
qed

text \<open>
  Success needs everything: a submission answers \<open>Success\<close> exactly when the machine is not
  bricked, the counter accepted the charge, the charged count is within the ceiling and the
  comparison accepted. In particular a counter fault or an exceeded ceiling never unlocks, whatever
  the PIN.
\<close>

theorem submit_attempt_success_iff:
  "fst (submit_attempt mc z v m w) = Inr Success \<longleftrightarrow>
     pstate m \<noteq> Bricked \<and> (\<exists>c. fst (mc_increment mc w) = Inr c \<and> c \<le> max_attempts (config m))
     \<and> bool_of_choice (v ())"
  by (cases "mc_increment mc w") (auto simp: submit_attempt_def Let_def split: sum.splits)

text \<open>
  (C2) A breach is final: the submission that first exceeds the ceiling bricks the machine and fires
  the zeroisation hook on the charged world, and from then on every submission is a breach that
  neither charges the counter nor looks at the PIN.
\<close>

theorem breach_is_final:
  assumes "fst (submit_attempt mc z v m w) = Inr Breach" and "pstate m \<noteq> Bricked"
  shows "snd (submit_attempt mc z v m w) = (m\<lparr>pstate := Bricked\<rparr>, z (snd (mc_increment mc w)))
    \<and> submit_attempts mc z vs (m\<lparr>pstate := Bricked\<rparr>) w' =
        (replicate (length vs) (Inr Breach), m\<lparr>pstate := Bricked\<rparr>, w')"
proof -
  obtain r m1 w1 where s: "submit_attempt mc z v m w = (r, m1, w1)"
    by (cases "submit_attempt mc z v m w")
  with assms have "r = Inr Breach" by simp
  from s this assms(2) have "m1 = m\<lparr>pstate := Bricked\<rparr> \<and> w1 = z (snd (mc_increment mc w))"
    by (cases rule: submit_attempt_cases) auto
  with s show ?thesis by (simp add: submit_attempts_bricked)
qed

theorem breach_is_final_witness:
  "snd (submit_attempt FakeMonotonicCounter (\<lambda>c. c\<lparr>fc_n := 99\<rparr>) (\<lambda>_. 1)
      (pin_machine_new pin_policy_config_default) (fake_counter_new 3)) =
     (\<lparr>config = pin_policy_config_default, pstate = Bricked\<rparr>, fake_counter_new 99)"
  using breach_is_final [of FakeMonotonicCounter "\<lambda>c. c\<lparr>fc_n := 99\<rparr>" "\<lambda>_. 1"
      "pin_machine_new pin_policy_config_default" "fake_counter_new 3"]
  by (simp add: submit_attempt_def pin_machine_new_def pin_policy_config_default_def
        DEFAULT_MAX_PIN_ATTEMPTS_def fake_counter_new_def fake_counter_defs sat_add32_def)

end
