(* ===== verification/Do_Store.thy ===== *)
theory Do_Store
  imports Hal
begin

text \<open>
  The data-object store of \<open>openpgp/do_store.rs\<close>: 32 fixed slots behind an eight-byte header in one
  region of the vault RRAM. The storage handle is the world, reached by the operations \<open>vs\<close>;
  \<open>base\<close> is the offset of the region.

  The contract a client relies on is the locale \<open>do_map\<close>: a finite map from tags to values with a
  capacity. \<open>do_region\<close> derives it for every storage that keeps the \<open>VaultStorage\<close> contract.
\<close>

section \<open>Model\<close>

definition DO_STORE_MAGIC :: bytes where "DO_STORE_MAGIC = [0x4F, 0x50, 0x47, 0x50]"
definition DO_VERSION :: u8 where "DO_VERSION = 1"
abbreviation HEADER_LEN :: nat where "HEADER_LEN \<equiv> 8"
abbreviation SLOT_BYTES :: nat where "SLOT_BYTES \<equiv> 257"
abbreviation SLOT_COUNT :: nat where "SLOT_COUNT \<equiv> 32"
abbreviation DO_STORE_REGION_BYTES :: nat where "DO_STORE_REGION_BYTES \<equiv> 8232"

datatype do_store_error = ValueTooLong | Full | Io hal_error

definition do_probe :: "'w vault_storage \<Rightarrow> nat \<Rightarrow> 'w \<Rightarrow> do_store_error + bool" where
  "do_probe vs base w =
     (case vs_read vs w base HEADER_LEN of
        Inl e \<Rightarrow> Inl (Io e)
      | Inr hdr \<Rightarrow> Inr (slice 0 4 hdr = DO_STORE_MAGIC \<and> hdr ! 4 = DO_VERSION))"

definition do_init_if_needed ::
  "'w vault_storage \<Rightarrow> nat \<Rightarrow> 'w \<Rightarrow> (do_store_error + unit) \<times> 'w" where
  "do_init_if_needed vs base w =
     (case do_probe vs base w of
        Inl e \<Rightarrow> (Inl e, w)
      | Inr True \<Rightarrow> (Inr (), w)
      | Inr False \<Rightarrow>
          let buf = (splice (replicate DO_STORE_REGION_BYTES 0) 0 DO_STORE_MAGIC)[4 := DO_VERSION] in
          case vs_write vs w base buf of (r, w1) \<Rightarrow> (map_err Io r, w1))"

definition do_read_slot ::
  "'w vault_storage \<Rightarrow> nat \<Rightarrow> 'w \<Rightarrow> nat \<Rightarrow> do_store_error + bytes" where
  "do_read_slot vs base w index =
     (if index \<ge> SLOT_COUNT then Inl (Io Denied)
      else map_err Io (vs_read vs w (base + HEADER_LEN + index * SLOT_BYTES) SLOT_BYTES))"

definition do_write_slot ::
  "'w vault_storage \<Rightarrow> nat \<Rightarrow> 'w \<Rightarrow> nat \<Rightarrow> bytes \<Rightarrow> (do_store_error + unit) \<times> 'w" where
  "do_write_slot vs base w index slot =
     (if index \<ge> SLOT_COUNT then (Inl (Io Denied), w)
      else case vs_write vs w (base + HEADER_LEN + index * SLOT_BYTES) slot of
        (r, w1) \<Rightarrow> (map_err Io r, w1))"

definition slot_tag :: "bytes \<Rightarrow> u16" where
  "slot_tag slot = u16_of_le (slot ! 0) (slot ! 1)"

fun do_read_loop :: "'w vault_storage \<Rightarrow> nat \<Rightarrow> 'w \<Rightarrow> u16 \<Rightarrow> nat list \<Rightarrow> bytes option" where
  "do_read_loop vs base w tag [] = None"
| "do_read_loop vs base w tag (i # is) =
     (case do_read_slot vs base w i of
        Inl _ \<Rightarrow> None
      | Inr slot \<Rightarrow>
          if slot_tag slot \<noteq> tag then do_read_loop vs base w tag is
          else
            let len = unat (slot ! 2) in
            if len > 254 then None else push_all 254 [] (slice 3 len slot))"

definition do_read :: "'w vault_storage \<Rightarrow> nat \<Rightarrow> 'w \<Rightarrow> u16 \<Rightarrow> bytes option" where
  "do_read vs base w tag =
     (case do_probe vs base w of
        Inl _ \<Rightarrow> None
      | Inr hdr_ok \<Rightarrow> if \<not> hdr_ok then None else do_read_loop vs base w tag [0..<SLOT_COUNT])"

text \<open>The scan of \<open>write\<close>: the first slot with the tag, else the first empty one.\<close>

fun do_find_loop ::
  "'w vault_storage \<Rightarrow> nat \<Rightarrow> 'w \<Rightarrow> u16 \<Rightarrow> nat list \<Rightarrow> nat option \<Rightarrow>
   do_store_error + (nat option \<times> nat option)" where
  "do_find_loop vs base w tag [] empty_idx = Inr (None, empty_idx)"
| "do_find_loop vs base w tag (i # is) empty_idx =
     (case do_read_slot vs base w i of
        Inl e \<Rightarrow> Inl e
      | Inr slot \<Rightarrow>
          if slot_tag slot = tag then Inr (Some i, empty_idx)
          else do_find_loop vs base w tag is
            (if slot_tag slot = 0 \<and> empty_idx = None then Some i else empty_idx))"

definition do_slot_bytes :: "u16 \<Rightarrow> bytes \<Rightarrow> bytes" where
  "do_slot_bytes tag value =
     splice ((splice (replicate SLOT_BYTES 0) 0 (u16_le tag))[2 := of_nat (length value)]) 3 value"

definition do_write ::
  "'w vault_storage \<Rightarrow> nat \<Rightarrow> 'w \<Rightarrow> u16 \<Rightarrow> bytes \<Rightarrow> (do_store_error + unit) \<times> 'w" where
  "do_write vs base w tag value =
     (if length value > 254 then (Inl ValueTooLong, w)
      else case do_init_if_needed vs base w of
          (Inl e, w1) \<Rightarrow> (Inl e, w1)
        | (Inr _, w1) \<Rightarrow>
            (case do_find_loop vs base w1 tag [0..<SLOT_COUNT] None of
               Inl e \<Rightarrow> (Inl e, w1)
             | Inr (existing_idx, empty_idx) \<Rightarrow>
                 (case (case existing_idx of Some i \<Rightarrow> Some i | None \<Rightarrow> empty_idx) of
                    None \<Rightarrow> (Inl Full, w1)
                  | Some idx \<Rightarrow> do_write_slot vs base w1 idx (do_slot_bytes tag value))))"

fun do_delete_loop ::
  "'w vault_storage \<Rightarrow> nat \<Rightarrow> u16 \<Rightarrow> nat list \<Rightarrow> 'w \<Rightarrow> (do_store_error + unit) \<times> 'w" where
  "do_delete_loop vs base tag [] w = (Inr (), w)"
| "do_delete_loop vs base tag (i # is) w =
     (case do_read_slot vs base w i of
        Inl e \<Rightarrow> (Inl e, w)
      | Inr slot \<Rightarrow>
          if slot_tag slot = tag then do_write_slot vs base w i (replicate SLOT_BYTES 0)
          else do_delete_loop vs base tag is w)"

definition do_delete ::
  "'w vault_storage \<Rightarrow> nat \<Rightarrow> 'w \<Rightarrow> u16 \<Rightarrow> (do_store_error + unit) \<times> 'w" where
  "do_delete vs base w tag =
     (if \<not> (case do_probe vs base w of Inl _ \<Rightarrow> False | Inr b \<Rightarrow> b) then (Inr (), w)
      else do_delete_loop vs base tag [0..<SLOT_COUNT] w)"

section \<open>Contract\<close>

text \<open>
  The store as a partial map with room for a bounded number of tags. Tag 0 marks an empty slot and
  is outside the contract.
\<close>

locale do_map =
  fixes rd :: "'w \<Rightarrow> u16 \<Rightarrow> bytes option"
    and wr :: "'w \<Rightarrow> u16 \<Rightarrow> bytes \<Rightarrow> (do_store_error + unit) \<times> 'w"
    and del :: "'w \<Rightarrow> u16 \<Rightarrow> (do_store_error + unit) \<times> 'w"
    and inv :: "'w \<Rightarrow> bool"
    and content :: "'w \<Rightarrow> u16 \<Rightarrow> bytes option"
  assumes rd_content: "inv w \<Longrightarrow> t \<noteq> 0 \<Longrightarrow> rd w t = content w t"
    and wr_inv: "inv w \<Longrightarrow> t \<noteq> 0 \<Longrightarrow> inv (snd (wr w t v))"
    and wr_result: "inv w \<Longrightarrow> t \<noteq> 0 \<Longrightarrow>
      fst (wr w t v) = (if length v > 254 then Inl ValueTooLong
        else if content w t = None \<and> card (dom (content w)) \<ge> SLOT_COUNT then Inl Full else Inr ())"
    and wr_content: "inv w \<Longrightarrow> t \<noteq> 0 \<Longrightarrow> fst (wr w t v) = Inr () \<Longrightarrow>
      content (snd (wr w t v)) = (content w)(t \<mapsto> v)"
    and wr_failed: "inv w \<Longrightarrow> t \<noteq> 0 \<Longrightarrow> fst (wr w t v) \<noteq> Inr () \<Longrightarrow>
      content (snd (wr w t v)) = content w"
    and del_inv: "inv w \<Longrightarrow> t \<noteq> 0 \<Longrightarrow> inv (snd (del w t))"
    and del_result: "inv w \<Longrightarrow> t \<noteq> 0 \<Longrightarrow> fst (del w t) = Inr ()"
    and del_content: "inv w \<Longrightarrow> t \<noteq> 0 \<Longrightarrow> content (snd (del w t)) = (content w)(t := None)"
begin

lemma read_after_write:
  assumes "inv w" and "t \<noteq> 0" and "s \<noteq> 0" and "fst (wr w t v) = Inr ()"
  shows "rd (snd (wr w t v)) s = (if s = t then Some v else rd w s)"
  using assms by (simp add: rd_content wr_inv wr_content)

lemma read_after_failed_write:
  assumes "inv w" and "t \<noteq> 0" and "s \<noteq> 0" and "fst (wr w t v) \<noteq> Inr ()"
  shows "rd (snd (wr w t v)) s = rd w s"
  using assms by (simp add: rd_content wr_inv wr_failed)

lemma read_after_delete:
  assumes "inv w" and "t \<noteq> 0" and "s \<noteq> 0"
  shows "rd (snd (del w t)) s = (if s = t then None else rd w s)"
  using assms by (simp add: rd_content del_inv del_content)

lemma overwrite_never_full:
  assumes "inv w" and "t \<noteq> 0" and "rd w t \<noteq> None" and "length v \<le> 254"
  shows "fst (wr w t v) = Inr ()"
  using assms by (simp add: wr_result rd_content)

end

section \<open>Slots as an abstract table\<close>

abbreviation slot_payload :: "bytes \<Rightarrow> bytes" where
  "slot_payload x \<equiv> slice 3 (unat (x ! 2)) x"

definition slots_wf :: "bytes list \<Rightarrow> bool" where
  "slots_wf s \<longleftrightarrow> length s = SLOT_COUNT \<and> (\<forall>x \<in> set s. length x = SLOT_BYTES \<and> unat (x ! 2) \<le> 254)
     \<and> (\<forall>i < SLOT_COUNT. \<forall>j < SLOT_COUNT. slot_tag (s ! i) = slot_tag (s ! j) \<longrightarrow>
          slot_tag (s ! i) \<noteq> 0 \<longrightarrow> i = j)"

definition slots_content :: "bytes list \<Rightarrow> u16 \<Rightarrow> bytes option" where
  "slots_content s t =
     (if t = 0 then None
      else case find (\<lambda>i. slot_tag (s ! i) = t) [0..<SLOT_COUNT] of
          None \<Rightarrow> None | Some i \<Rightarrow> Some (slot_payload (s ! i)))"

lemma set_upt_le: "set [0..<n] \<subseteq> {..<n}"
  by auto

lemma find_upt_SomeD: "find P [0..<n] = Some i \<Longrightarrow> i < n \<and> P i"
  by (auto simp: find_Some_iff)

lemma slots_content_Some:
  assumes "slots_wf s"
  shows "slots_content s t = Some v \<longleftrightarrow>
    t \<noteq> 0 \<and> (\<exists>i < SLOT_COUNT. slot_tag (s ! i) = t \<and> v = slot_payload (s ! i))"
proof (cases "find (\<lambda>i. slot_tag (s ! i) = t) [0..<SLOT_COUNT]")
  case None
  then have "\<forall>i < SLOT_COUNT. slot_tag (s ! i) \<noteq> t" by (simp add: find_None_iff)
  with None show ?thesis by (auto simp: slots_content_def)
next
  case (Some i)
  with assms show ?thesis
    by (auto simp: slots_content_def slots_wf_def dest!: find_upt_SomeD)
qed

lemma slots_content_None:
  "slots_content s t = None \<longleftrightarrow> t = 0 \<or> (\<forall>i < SLOT_COUNT. slot_tag (s ! i) \<noteq> t)"
  by (auto simp: slots_content_def find_None_iff split: option.splits dest!: find_upt_SomeD)

lemma map_eqI_Some: "(\<And>t v. m t = Some v \<longleftrightarrow> m' t = Some v) \<Longrightarrow> m = m'"
  by (rule ext) (metis not_None_eq)

lemma do_slot_bytes_props:
  assumes "length v \<le> 254"
  shows "length (do_slot_bytes t v) = SLOT_BYTES" and "slot_tag (do_slot_bytes t v) = t"
    and "unat (do_slot_bytes t v ! 2) = length v" and "slot_payload (do_slot_bytes t v) = v"
proof -
  show l: "length (do_slot_bytes t v) = SLOT_BYTES"
    using assms by (simp add: do_slot_bytes_def)
  have nth: "do_slot_bytes t v ! 0 = ucast t" "do_slot_bytes t v ! 1 = ucast (drop_bit 8 t)"
    "do_slot_bytes t v ! 2 = of_nat (length v)"
    using assms by (simp_all add: do_slot_bytes_def nth_splice u16_le_def)
  then show "slot_tag (do_slot_bytes t v) = t" by (simp add: slot_tag_def)
  show u: "unat (do_slot_bytes t v ! 2) = length v"
    using assms nth by (simp add: unat_of_nat_u8)
  show "slot_payload (do_slot_bytes t v) = v"
    unfolding u using assms by (simp add: do_slot_bytes_def slice_splice_same)
qed

lemma zero_slot_props:
  "slot_tag (replicate SLOT_BYTES 0) = 0" "replicate SLOT_BYTES (0 :: u8) ! 2 = 0"
  by (simp_all add: slot_tag_def u16_of_le_def)

lemma slots_content_other:
  assumes "length s = SLOT_COUNT" and "u \<noteq> slot_tag y" and "u \<noteq> slot_tag (s ! i)"
  shows "slots_content (s[i := y]) u = slots_content s u"
proof -
  have eq: "slot_tag (s[i := y] ! j) = u \<longleftrightarrow> slot_tag (s ! j) = u" if "j < SLOT_COUNT" for j
    using that assms by (cases "j = i") (auto simp: nth_list_update)
  have f: "find (\<lambda>j. slot_tag (s[i := y] ! j) = u) [0..<SLOT_COUNT] =
      find (\<lambda>j. slot_tag (s ! j) = u) [0..<SLOT_COUNT]"
    by (rule find_cong) (simp_all add: eq)
  show ?thesis
    unfolding slots_content_def f
    using assms by (auto split: option.splits dest!: find_upt_SomeD) (metis nth_list_update_neq)
qed

text \<open>Writing a slot that holds the tag, or an empty slot when no slot holds it.\<close>

lemma slots_update:
  assumes "slots_wf s" and "i < SLOT_COUNT" and "t \<noteq> 0" and "length v \<le> 254"
    and "slot_tag (s ! i) = t \<or> (slot_tag (s ! i) = 0 \<and> slots_content s t = None)"
  shows "slots_wf (s[i := do_slot_bytes t v])"
    and "slots_content (s[i := do_slot_bytes t v]) = (slots_content s)(t \<mapsto> v)"
proof -
  let ?s = "s[i := do_slot_bytes t v]"
  have len: "length s = SLOT_COUNT" using assms(1) by (simp add: slots_wf_def)
  have tag: "slot_tag (?s ! j) = (if j = i then t else slot_tag (s ! j))" if "j < SLOT_COUNT" for j
    using that len assms by (simp add: nth_list_update do_slot_bytes_props)
  have other: "slot_tag (s ! j) \<noteq> t" if "j < SLOT_COUNT" "j \<noteq> i" for j
    using that assms by (auto simp: slots_wf_def slots_content_None)
  show wf: "slots_wf ?s"
    unfolding slots_wf_def
  proof (intro conjI)
    show "\<forall>x \<in> set ?s. length x = SLOT_BYTES \<and> unat (x ! 2) \<le> 254"
      using assms(1,4) set_update_subset_insert [of s i "do_slot_bytes t v"]
      by (auto simp: slots_wf_def do_slot_bytes_props)
    show "\<forall>k < SLOT_COUNT. \<forall>j < SLOT_COUNT. slot_tag (?s ! k) = slot_tag (?s ! j) \<longrightarrow>
        slot_tag (?s ! k) \<noteq> 0 \<longrightarrow> k = j"
      using assms(1) other by (auto simp: tag slots_wf_def split: if_splits)
  qed (simp add: len)
  have "slot_tag (?s ! i) = t \<and> v = slot_payload (?s ! i)"
    using assms(2,4) len do_slot_bytes_props(2,4) [OF assms(4)] by simp
  with assms(2,3) have "slots_content ?s t = Some v"
    unfolding slots_content_Some [OF wf] by blast
  moreover have "slots_content ?s u = slots_content s u" if "u \<noteq> t" for u
    using that assms len
    by (cases "u = 0") (auto simp: slots_content_other do_slot_bytes_props, simp add: slots_content_def)
  ultimately show "slots_content ?s = (slots_content s)(t \<mapsto> v)" by auto
qed

lemma slots_clear:
  assumes "slots_wf s" and "i < SLOT_COUNT" and "t \<noteq> 0" and "slot_tag (s ! i) = t"
  shows "slots_wf (s[i := replicate SLOT_BYTES 0])"
    and "slots_content (s[i := replicate SLOT_BYTES 0]) = (slots_content s)(t := None)"
proof -
  let ?z = "replicate SLOT_BYTES (0 :: u8)" and ?s = "s[i := replicate SLOT_BYTES 0]"
  have len: "length s = SLOT_COUNT" using assms(1) by (simp add: slots_wf_def)
  have tag: "slot_tag (?s ! j) = (if j = i then 0 else slot_tag (s ! j))" if "j < SLOT_COUNT" for j
    using that len by (simp add: nth_list_update zero_slot_props)
  have other: "slot_tag (s ! j) \<noteq> t" if "j < SLOT_COUNT" "j \<noteq> i" for j
    using that assms by (auto simp: slots_wf_def)
  show wf: "slots_wf ?s"
    unfolding slots_wf_def
  proof (intro conjI)
    show "\<forall>x \<in> set ?s. length x = SLOT_BYTES \<and> unat (x ! 2) \<le> 254"
      using assms(1) set_update_subset_insert [of s i ?z]
      by (auto simp: slots_wf_def)
    show "\<forall>k < SLOT_COUNT. \<forall>j < SLOT_COUNT. slot_tag (?s ! k) = slot_tag (?s ! j) \<longrightarrow>
        slot_tag (?s ! k) \<noteq> 0 \<longrightarrow> k = j"
      using assms(1) by (auto simp: tag slots_wf_def split: if_splits)
  qed (simp add: len)
  have "slots_content ?s t = None"
    using other assms(3) tag by (auto simp: slots_content_None)
  moreover have "slots_content ?s u = slots_content s u" if "u \<noteq> t" for u
    using that assms(4) len
    by (cases "u = 0")
      (simp_all add: slots_content_other zero_slot_props, simp add: slots_content_def)
  ultimately show "slots_content ?s = (slots_content s)(t := None)" by auto
qed

lemma slots_full_iff:
  assumes "slots_wf s"
  shows "card (dom (slots_content s)) \<ge> SLOT_COUNT \<longleftrightarrow> (\<forall>i < SLOT_COUNT. slot_tag (s ! i) \<noteq> 0)"
proof -
  let ?I = "{i. i < SLOT_COUNT \<and> slot_tag (s ! i) \<noteq> 0}"
  have "dom (slots_content s) = (\<lambda>i. slot_tag (s ! i)) ` ?I"
    by (auto simp: dom_def slots_content_Some [OF assms])
  moreover have "inj_on (\<lambda>i. slot_tag (s ! i)) ?I"
    using assms by (auto simp: inj_on_def slots_wf_def)
  ultimately have c: "card (dom (slots_content s)) = card ?I" by (simp add: card_image)
  have sub: "?I \<subseteq> {..<SLOT_COUNT}" by auto
  show ?thesis
  proof
    assume "card (dom (slots_content s)) \<ge> SLOT_COUNT"
    with c sub have "?I = {..<SLOT_COUNT}" by (intro card_subset_eq) (auto dest: card_mono [rotated])
    then show "\<forall>i < SLOT_COUNT. slot_tag (s ! i) \<noteq> 0" by blast
  next
    assume "\<forall>i < SLOT_COUNT. slot_tag (s ! i) \<noteq> 0"
    then have "?I = {..<SLOT_COUNT}" by auto
    with c show "card (dom (slots_content s)) \<ge> SLOT_COUNT" by simp
  qed
qed

section \<open>Any healthy storage gives the contract\<close>

definition do_header_ok :: "nat \<Rightarrow> bytes \<Rightarrow> bool" where
  "do_header_ok base mem \<longleftrightarrow> slice base 4 mem = DO_STORE_MAGIC \<and> mem ! (base + 4) = DO_VERSION"

definition do_slots :: "nat \<Rightarrow> bytes \<Rightarrow> bytes list" where
  "do_slots base mem = map (\<lambda>i. slice (base + HEADER_LEN + i * SLOT_BYTES) SLOT_BYTES mem) [0..<SLOT_COUNT]"

definition do_content :: "nat \<Rightarrow> bytes \<Rightarrow> u16 \<Rightarrow> bytes option" where
  "do_content base mem = (if do_header_ok base mem then slots_content (do_slots base mem) else Map.empty)"

definition do_inv :: "nat \<Rightarrow> bytes \<Rightarrow> bool" where
  "do_inv base mem \<longleftrightarrow> base + DO_STORE_REGION_BYTES \<le> length mem
     \<and> (do_header_ok base mem \<longrightarrow> slots_wf (do_slots base mem))"

lemma length_do_slots [simp]: "length (do_slots base mem) = SLOT_COUNT"
  by (simp add: do_slots_def)

lemma nth_do_slots [simp]:
  "i < SLOT_COUNT \<Longrightarrow> do_slots base mem ! i = slice (base + HEADER_LEN + i * SLOT_BYTES) SLOT_BYTES mem"
  by (simp add: do_slots_def)

text \<open>The effect of one slot write on header and table.\<close>

lemma slot_splice:
  assumes "base + DO_STORE_REGION_BYTES \<le> length mem" and "i < SLOT_COUNT" and "length x = SLOT_BYTES"
  shows "do_header_ok base (splice mem (base + HEADER_LEN + i * SLOT_BYTES) x) = do_header_ok base mem"
    and "do_slots base (splice mem (base + HEADER_LEN + i * SLOT_BYTES) x) = (do_slots base mem)[i := x]"
proof -
  let ?o = "base + HEADER_LEN + i * SLOT_BYTES"
  have fit: "?o + length x \<le> length mem" using assms by simp
  then show "do_header_ok base (splice mem ?o x) = do_header_ok base mem"
    using assms by (simp add: do_header_ok_def slice_splice_disjoint nth_splice)
  show "do_slots base (splice mem ?o x) = (do_slots base mem)[i := x]"
  proof (rule nth_equalityI)
    fix j assume "j < length (do_slots base (splice mem ?o x))"
    then have j: "j < SLOT_COUNT" by simp
    show "do_slots base (splice mem ?o x) ! j = (do_slots base mem)[i := x] ! j"
    proof (cases "j = i")
      case True
      with fit assms show ?thesis by (simp add: slice_splice_same)
    next
      case False
      then have "base + HEADER_LEN + j * SLOT_BYTES + SLOT_BYTES \<le> ?o \<or>
          ?o + SLOT_BYTES \<le> base + HEADER_LEN + j * SLOT_BYTES"
        by (cases "j < i") auto
      with False fit assms j show ?thesis by (simp add: slice_splice_disjoint)
    qed
  qed simp
qed

text \<open>The region written by \<open>init_if_needed\<close>.\<close>

abbreviation do_blank :: bytes where
  "do_blank \<equiv> (splice (replicate DO_STORE_REGION_BYTES 0) 0 DO_STORE_MAGIC)[4 := DO_VERSION]"

lemma length_do_blank: "length do_blank = DO_STORE_REGION_BYTES"
  by (simp add: DO_STORE_MAGIC_def)

lemma do_blank_slot:
  assumes "i < SLOT_COUNT"
  shows "slice (HEADER_LEN + i * SLOT_BYTES) SLOT_BYTES do_blank = replicate SLOT_BYTES 0"
proof (rule nth_equalityI)
  show "length (slice (HEADER_LEN + i * SLOT_BYTES) SLOT_BYTES do_blank) = length (replicate SLOT_BYTES (0 :: u8))"
    using assms unfolding length_slice length_do_blank by simp
next
  fix j assume "j < length (slice (HEADER_LEN + i * SLOT_BYTES) SLOT_BYTES do_blank)"
  then have "j < SLOT_BYTES" using assms unfolding length_slice length_do_blank by simp
  with assms show "slice (HEADER_LEN + i * SLOT_BYTES) SLOT_BYTES do_blank ! j = replicate SLOT_BYTES 0 ! j"
    by (simp add: nth_splice DO_STORE_MAGIC_def)
qed

lemma do_blank_header: "slice 0 4 do_blank = DO_STORE_MAGIC" "do_blank ! 4 = DO_VERSION"
  by (simp_all add: slice_def splice_def DO_STORE_MAGIC_def)

lemma do_init_splice:
  assumes "base + DO_STORE_REGION_BYTES \<le> length mem" and b: "b = do_blank"
  shows "do_header_ok base (splice mem base b)"
    and "do_slots base (splice mem base b) = replicate SLOT_COUNT (replicate SLOT_BYTES 0)"
proof -
  have len: "length b = DO_STORE_REGION_BYTES" unfolding b by (rule length_do_blank)
  have "slice 0 4 b = DO_STORE_MAGIC" "b ! 4 = DO_VERSION" unfolding b by (rule do_blank_header)+
  with len assms(1) show "do_header_ok base (splice mem base b)"
    by (simp add: do_header_ok_def slice_splice_inner nth_splice)
  have slot: "slice (HEADER_LEN + i * SLOT_BYTES) SLOT_BYTES b = replicate SLOT_BYTES 0"
    if "i < SLOT_COUNT" for i
    unfolding b using that by (rule do_blank_slot)
  show "do_slots base (splice mem base b) = replicate SLOT_COUNT (replicate SLOT_BYTES 0)"
  proof (rule nth_equalityI)
    fix i assume "i < length (do_slots base (splice mem base b))"
    then have i: "i < SLOT_COUNT" by simp
    then have "do_slots base (splice mem base b) ! i =
        slice (base + HEADER_LEN + i * SLOT_BYTES) SLOT_BYTES (splice mem base b)" by simp
    also have "\<dots> = slice (HEADER_LEN + i * SLOT_BYTES) SLOT_BYTES b"
      using i len assms(1) slice_splice_inner [of base b mem "base + HEADER_LEN + i * SLOT_BYTES" SLOT_BYTES]
      by (simp add: add.assoc)
    finally show "do_slots base (splice mem base b) ! i =
        replicate SLOT_COUNT (replicate SLOT_BYTES 0) ! i"
      using i slot by simp
  qed simp
qed

lemma blank_slots: "slots_wf (replicate SLOT_COUNT (replicate SLOT_BYTES 0))"
  "slots_content (replicate SLOT_COUNT (replicate SLOT_BYTES 0)) = Map.empty"
proof -
  let ?z = "replicate SLOT_COUNT (replicate SLOT_BYTES (0 :: u8))"
  have "slot_tag (?z ! i) = 0" if "i < SLOT_COUNT" for i
    using that zero_slot_props(1) by (simp only: nth_replicate)
  then show "slots_wf ?z" "slots_content ?z = Map.empty"
    by (auto simp: slots_wf_def slots_content_None fun_eq_iff)
qed

definition do_region_inv :: "('w \<Rightarrow> bool) \<Rightarrow> ('w \<Rightarrow> bytes) \<Rightarrow> nat \<Rightarrow> 'w \<Rightarrow> bool" where
  "do_region_inv ok mem base w \<longleftrightarrow> ok w \<and> do_inv base (mem w)"

locale do_region = vault_contract +
  fixes base :: nat
begin

abbreviation rinv :: "'a \<Rightarrow> bool" where
  "rinv w \<equiv> do_region_inv vs_ok vs_mem base w"

lemma read_slot_in:
  assumes "rinv w" and "i < SLOT_COUNT"
  shows "do_read_slot vs base w i = Inr (do_slots base (vs_mem w) ! i)"
  using assms by (simp add: do_region_inv_def do_inv_def do_read_slot_def read_in)

lemma probe_in: "rinv w \<Longrightarrow> do_probe vs base w = Inr (do_header_ok base (vs_mem w))"
  by (simp add: do_region_inv_def do_inv_def do_probe_def read_in do_header_ok_def slice_slice)

lemma read_loop_in:
  assumes "rinv w" and "set is \<subseteq> {..<SLOT_COUNT}" and "slots_wf (do_slots base (vs_mem w))"
  shows "do_read_loop vs base w t is =
    (case find (\<lambda>i. slot_tag (do_slots base (vs_mem w) ! i) = t) is of
       None \<Rightarrow> None | Some i \<Rightarrow> Some (slot_payload (do_slots base (vs_mem w) ! i)))"
  using assms(2)
proof (induction "is")
  case (Cons i "is")
  then have i: "i < SLOT_COUNT" by simp
  let ?x = "do_slots base (vs_mem w) ! i"
  from i have "?x \<in> set (do_slots base (vs_mem w))" by (metis length_do_slots nth_mem)
  with assms(3) have "length ?x = SLOT_BYTES" "unat (?x ! 2) \<le> 254" by (simp_all add: slots_wf_def)
  then have "push_all 254 [] (slot_payload ?x) = Some (slot_payload ?x)" by simp
  with Cons read_slot_in [OF assms(1) i] \<open>unat (?x ! 2) \<le> 254\<close> show ?case
    by (simp add: Let_def del: nth_do_slots)
qed simp

lemma find_loop_in:
  assumes "rinv w" and "set is \<subseteq> {..<SLOT_COUNT}"
  shows "\<exists>e. do_find_loop vs base w t is emp =
      Inr (find (\<lambda>i. slot_tag (do_slots base (vs_mem w) ! i) = t) is, e)
    \<and> (find (\<lambda>i. slot_tag (do_slots base (vs_mem w) ! i) = t) is = None \<longrightarrow>
       e = (case emp of Some i \<Rightarrow> Some i
            | None \<Rightarrow> find (\<lambda>i. slot_tag (do_slots base (vs_mem w) ! i) = 0) is))"
  using assms(2)
proof (induction "is" arbitrary: emp)
  case (Cons i "is")
  let ?t = "slot_tag (do_slots base (vs_mem w) ! i)"
  from Cons have i: "i < SLOT_COUNT" and sub: "set is \<subseteq> {..<SLOT_COUNT}" by auto
  show ?case
    using Cons.IH [OF sub, of "if ?t = 0 \<and> emp = None then Some i else emp"]
      read_slot_in [OF assms(1) i]
    by (auto simp del: nth_do_slots split: option.splits if_splits)
qed (simp split: option.split)

lemma write_slot_in:
  assumes "rinv w" and "i < SLOT_COUNT" and "length x = SLOT_BYTES"
  shows "fst (do_write_slot vs base w i x) = Inr ()"
    and "vs_mem (snd (do_write_slot vs base w i x)) =
      splice (vs_mem w) (base + HEADER_LEN + i * SLOT_BYTES) x"
    and "vs_ok (snd (do_write_slot vs base w i x))"
proof -
  let ?o = "base + HEADER_LEN + i * SLOT_BYTES"
  have fit: "vs_ok w" "?o + length x \<le> length (vs_mem w)"
    using assms by (auto simp: do_region_inv_def do_inv_def)
  obtain r w1 where e: "vs_write vs w ?o x = (r, w1)" by (cases "vs_write vs w ?o x")
  with fit have "r = Inr ()" using write_in [of w ?o x] by simp
  with e fit assms(2) write_mem [of w ?o x] write_ok [of w ?o x]
  show "fst (do_write_slot vs base w i x) = Inr ()"
    "vs_mem (snd (do_write_slot vs base w i x)) = splice (vs_mem w) ?o x"
    "vs_ok (snd (do_write_slot vs base w i x))"
    by (simp_all add: do_write_slot_def)
qed

lemma init_in:
  assumes "rinv w"
  obtains w1 where "do_init_if_needed vs base w = (Inr (), w1)" "rinv w1"
    "do_header_ok base (vs_mem w1)" "do_content base (vs_mem w1) = do_content base (vs_mem w)"
proof (cases "do_header_ok base (vs_mem w)")
  case True
  with assms have "do_init_if_needed vs base w = (Inr (), w)"
    by (simp add: do_init_if_needed_def probe_in)
  with True assms that show ?thesis by blast
next
  case False
  define b where "b = do_blank"
  have fit: "vs_ok w" "base + length b \<le> length (vs_mem w)"
    using assms length_do_blank by (auto simp: do_region_inv_def do_inv_def b_def)
  obtain r w1 where e: "vs_write vs w base b = (r, w1)" by (cases "vs_write vs w base b")
  with fit have r: "r = Inr ()" using write_in [of w base b] by simp
  with e fit write_mem [of w base b] write_ok [of w base b]
  have w1: "vs_mem w1 = splice (vs_mem w) base b" "vs_ok w1" by simp_all
  have init: "do_init_if_needed vs base w = (Inr (), w1)"
    using False e r assms by (simp add: do_init_if_needed_def probe_in Let_def b_def [symmetric])
  note i = do_init_splice [OF _ b_def, of base "vs_mem w"]
  have "base + DO_STORE_REGION_BYTES \<le> length (vs_mem w)"
    using assms by (simp add: do_region_inv_def do_inv_def)
  note i = i [OF this]
  show ?thesis
  proof (rule that [OF init])
    show "rinv w1"
      using i w1 fit assms
      by (simp add: do_region_inv_def do_inv_def blank_slots del: replicate.simps)
    show "do_header_ok base (vs_mem w1)" using i w1 by simp
    show "do_content base (vs_mem w1) = do_content base (vs_mem w)"
      using i w1 False by (simp add: do_content_def blank_slots)
  qed
qed

lemma write_slot_effect:
  assumes "rinv w" and "do_header_ok base (vs_mem w)" and "i < SLOT_COUNT" and "length x = SLOT_BYTES"
    and "slots_wf ((do_slots base (vs_mem w))[i := x])"
  shows "fst (do_write_slot vs base w i x) = Inr ()"
    and "rinv (snd (do_write_slot vs base w i x))"
    and "do_content base (vs_mem (snd (do_write_slot vs base w i x))) =
      slots_content ((do_slots base (vs_mem w))[i := x])"
proof -
  note ws = write_slot_in [OF assms(1,3,4)]
  have len: "base + DO_STORE_REGION_BYTES \<le> length (vs_mem w)"
    using assms(1) by (simp add: do_region_inv_def do_inv_def)
  note sp = slot_splice [OF len assms(3,4)]
  show "fst (do_write_slot vs base w i x) = Inr ()" by (rule ws)
  show "do_content base (vs_mem (snd (do_write_slot vs base w i x))) =
      slots_content ((do_slots base (vs_mem w))[i := x])"
    using assms(2) by (simp add: do_content_def ws sp)
  show "rinv (snd (do_write_slot vs base w i x))"
    using assms ws len by (simp add: do_region_inv_def do_inv_def sp)
qed

text \<open>A write of a value that fits, after initialisation.\<close>

lemma write_initialised:
  assumes "rinv w" and "do_header_ok base (vs_mem w)" and "t \<noteq> 0" and "length v \<le> 254"
  shows "case do_find_loop vs base w t [0..<SLOT_COUNT] None of
      Inl e \<Rightarrow> False
    | Inr (ex, em) \<Rightarrow>
        (case (case ex of Some i \<Rightarrow> Some i | None \<Rightarrow> em) of
           None \<Rightarrow> do_content base (vs_mem w) t = None
             \<and> card (dom (do_content base (vs_mem w))) \<ge> SLOT_COUNT
         | Some i \<Rightarrow> (do_content base (vs_mem w) t \<noteq> None
               \<or> \<not> card (dom (do_content base (vs_mem w))) \<ge> SLOT_COUNT)
             \<and> (let r = do_write_slot vs base w i (do_slot_bytes t v) in
                fst r = Inr () \<and> rinv (snd r)
                \<and> do_content base (vs_mem (snd r)) = (do_content base (vs_mem w))(t \<mapsto> v)))"
proof -
  let ?s = "do_slots base (vs_mem w)"
  have wf: "slots_wf ?s" using assms by (simp add: do_region_inv_def do_inv_def)
  have c: "do_content base (vs_mem w) = slots_content ?s" using assms by (simp add: do_content_def)
  have eff: "let r = do_write_slot vs base w i (do_slot_bytes t v) in
      fst r = Inr () \<and> rinv (snd r)
      \<and> do_content base (vs_mem (snd r)) = (do_content base (vs_mem w))(t \<mapsto> v)"
    if "i < SLOT_COUNT" "slot_tag (?s ! i) = t \<or> (slot_tag (?s ! i) = 0 \<and> slots_content ?s t = None)" for i
    using slots_update [OF wf that(1) assms(3,4) that(2)]
      write_slot_effect [OF assms(1,2) that(1) do_slot_bytes_props(1) [OF assms(4), of t]]
    by (simp add: Let_def c)
  obtain e where f: "do_find_loop vs base w t [0..<SLOT_COUNT] None =
      Inr (find (\<lambda>i. slot_tag (?s ! i) = t) [0..<SLOT_COUNT], e)"
    and e: "find (\<lambda>i. slot_tag (?s ! i) = t) [0..<SLOT_COUNT] = None \<longrightarrow>
      e = find (\<lambda>i. slot_tag (?s ! i) = 0) [0..<SLOT_COUNT]"
    using find_loop_in [OF assms(1) set_upt_le, of t None] by auto
  show ?thesis
  proof (cases "find (\<lambda>i. slot_tag (?s ! i) = t) [0..<SLOT_COUNT]")
    case (Some i)
    then have i: "i < SLOT_COUNT" "slot_tag (?s ! i) = t" by (auto dest: find_upt_SomeD)
    then have "slots_content ?s t \<noteq> None" using assms(3) slots_content_None by blast
    with Some f eff [of i] i c show ?thesis by simp
  next
    case None
    note fn = None
    then have n: "slots_content ?s t = None"
      by (simp add: slots_content_def)
    show ?thesis
    proof (cases e)
      case None
      with e fn have "find (\<lambda>i. slot_tag (?s ! i) = 0) [0..<SLOT_COUNT] = None" by simp
      then have "\<forall>i < SLOT_COUNT. slot_tag (?s ! i) \<noteq> 0"
        by (simp add: find_None_iff del: nth_do_slots)
      with n None fn f c slots_full_iff [OF wf] show ?thesis by simp
    next
      case (Some i)
      with e fn have "find (\<lambda>i. slot_tag (?s ! i) = 0) [0..<SLOT_COUNT] = Some i" by simp
      then have i: "i < SLOT_COUNT" "slot_tag (?s ! i) = 0"
        by (auto dest: find_upt_SomeD)
      then have "\<not> card (dom (slots_content ?s)) \<ge> SLOT_COUNT" using slots_full_iff [OF wf] by blast
      with n Some fn f c eff [of i] i show ?thesis by simp
    qed
  qed
qed

lemma do_write_law:
  assumes "rinv w" and "t \<noteq> 0"
  defines "room \<equiv> do_content base (vs_mem w) t \<noteq> None
    \<or> card (dom (do_content base (vs_mem w))) < SLOT_COUNT"
  shows "fst (do_write vs base w t v) =
      (if length v > 254 then Inl ValueTooLong else if \<not> room then Inl Full else Inr ())
    \<and> rinv (snd (do_write vs base w t v))
    \<and> do_content base (vs_mem (snd (do_write vs base w t v))) =
      (if length v \<le> 254 \<and> room then (do_content base (vs_mem w))(t \<mapsto> v)
       else do_content base (vs_mem w))"
proof (cases "length v > 254")
  case True
  with assms show ?thesis by (simp add: do_write_def)
next
  case False
  obtain w1 where i: "do_init_if_needed vs base w = (Inr (), w1)" "rinv w1"
    "do_header_ok base (vs_mem w1)" "do_content base (vs_mem w1) = do_content base (vs_mem w)"
    using init_in [OF assms(1)] .
  show ?thesis
    using write_initialised [OF i(2,3) assms(2), of v] False i
    by (auto simp: do_write_def room_def Let_def not_le split: sum.splits option.splits)
qed

lemma do_read_law: "rinv w \<Longrightarrow> t \<noteq> 0 \<Longrightarrow> do_read vs base w t = do_content base (vs_mem w) t"
  using read_loop_in [OF _ set_upt_le, of w t]
  by (simp add: do_read_def probe_in do_content_def slots_content_def do_region_inv_def do_inv_def
      del: nth_do_slots)

lemma delete_loop_in:
  assumes "rinv w" and "set is \<subseteq> {..<SLOT_COUNT}"
  shows "do_delete_loop vs base t is w =
    (case find (\<lambda>i. slot_tag (do_slots base (vs_mem w) ! i) = t) is of
       None \<Rightarrow> (Inr (), w)
     | Some i \<Rightarrow> do_write_slot vs base w i (replicate SLOT_BYTES 0))"
  using assms(2)
  by (induction "is") (simp_all add: read_slot_in [OF assms(1)] del: nth_do_slots)

lemma do_delete_law:
  assumes "rinv w" and "t \<noteq> 0"
  shows "fst (do_delete vs base w t) = Inr () \<and> rinv (snd (do_delete vs base w t))
    \<and> do_content base (vs_mem (snd (do_delete vs base w t))) = (do_content base (vs_mem w))(t := None)"
proof (cases "do_header_ok base (vs_mem w)")
  case False
  with assms show ?thesis by (simp add: do_delete_def probe_in do_content_def fun_eq_iff)
next
  case True
  let ?s = "do_slots base (vs_mem w)"
  have wf: "slots_wf ?s" using assms True by (simp add: do_region_inv_def do_inv_def)
  have c: "do_content base (vs_mem w) = slots_content ?s" using True by (simp add: do_content_def)
  have d: "do_delete vs base w t = do_delete_loop vs base t [0..<SLOT_COUNT] w"
    using True assms by (simp add: do_delete_def probe_in)
  show ?thesis
  proof (cases "find (\<lambda>i. slot_tag (?s ! i) = t) [0..<SLOT_COUNT]")
    case None
    then have "slots_content ?s t = None" by (simp add: slots_content_def)
    with None d assms c show ?thesis
      by (simp add: delete_loop_in [OF assms(1) set_upt_le] fun_upd_idem)
  next
    case (Some i)
    then have i: "i < SLOT_COUNT" "slot_tag (?s ! i) = t" by (auto dest: find_upt_SomeD)
    note sc = slots_clear [OF wf i(1) assms(2) i(2)]
    have len: "length (replicate SLOT_BYTES (0 :: u8)) = SLOT_BYTES" by simp
    note we = write_slot_effect [OF assms(1) True i(1) len sc(1)]
    show ?thesis
      unfolding d delete_loop_in [OF assms(1) set_upt_le] Some
      using we sc(2) c by simp
  qed
qed

end

sublocale do_region \<subseteq> store: do_map "do_read vs base" "do_write vs base" "do_delete vs base"
    "do_region_inv vs_ok vs_mem base" "\<lambda>w. do_content base (vs_mem w)"
proof unfold_locales
  fix w :: 'a and t :: u16 and v
  assume a: "do_region_inv vs_ok vs_mem base w" "t \<noteq> 0"
  show "do_read vs base w t = do_content base (vs_mem w) t"
    using a by (rule do_read_law)
  show "do_region_inv vs_ok vs_mem base (snd (do_write vs base w t v))"
    and "fst (do_write vs base w t v) = (if length v > 254 then Inl ValueTooLong
        else if do_content base (vs_mem w) t = None
          \<and> card (dom (do_content base (vs_mem w))) \<ge> SLOT_COUNT then Inl Full else Inr ())"
    using do_write_law [OF a, of v] by auto
  show "fst (do_write vs base w t v) = Inr () \<Longrightarrow>
      do_content base (vs_mem (snd (do_write vs base w t v))) = (do_content base (vs_mem w))(t \<mapsto> v)"
    and "fst (do_write vs base w t v) \<noteq> Inr () \<Longrightarrow>
      do_content base (vs_mem (snd (do_write vs base w t v))) = do_content base (vs_mem w)"
    using do_write_law [OF a, of v] by (auto split: if_splits)
  show "fst (do_delete vs base w t) = Inr ()"
    and "do_region_inv vs_ok vs_mem base (snd (do_delete vs base w t))"
    and "do_content base (vs_mem (snd (do_delete vs base w t))) = (do_content base (vs_mem w))(t := None)"
    using do_delete_law [OF a] by auto
qed

context do_region
begin

lemma region_is_map:
  assumes "rinv w" and "t \<noteq> 0" and "s \<noteq> 0"
  shows "do_read vs base (snd (do_write vs base w t v)) s =
      (if fst (do_write vs base w t v) = Inr () \<and> s = t then Some v else do_read vs base w s)
    \<and> do_read vs base (snd (do_delete vs base w t)) s =
      (if s = t then None else do_read vs base w s)"
  using store.read_after_write [OF assms, of v] store.read_after_failed_write [OF assms, of v]
    store.read_after_delete [OF assms]
  by (cases "fst (do_write vs base w t v) = Inr ()") auto

lemma region_write_result:
  assumes "rinv w" and "t \<noteq> 0"
  shows "fst (do_write vs base w t v) =
    (if length v > 254 then Inl ValueTooLong
     else if do_read vs base w t = None \<and> 32 \<le> card {u. u \<noteq> 0 \<and> do_read vs base w u \<noteq> None}
       then Inl Full else Inr ())"
proof -
  have "{u. u \<noteq> 0 \<and> do_read vs base w u \<noteq> None} = dom (do_content base (vs_mem w))"
    using do_read_law [OF assms(1)]
    by (force simp: dom_def do_content_def slots_content_def split: if_splits)
  then show ?thesis using store.wr_result [OF assms, of v] assms by (simp add: store.rd_content)
qed

end

text \<open>The repository's own storage carries a data-object region at any offset.\<close>

interpretation fake_do: do_region FakeVaultStorage fv_mem "\<lambda>s. \<not> fv_fail_next_write s" base
  for base
  by unfold_locales

section \<open>Properties\<close>

text \<open>
  (C37) The store is a map: over any storage that keeps the \<open>VaultStorage\<close> contract and holds the
  region, after a write that reports success a read returns the written value for that tag and the
  earlier value for every other tag, after a write that fails every tag reads as before, and after a
  delete exactly that tag is gone. Formatting an uninitialised region is part of the first write.
\<close>

theorem do_store_is_map:
  assumes "vault_contract vs mem ok" and "do_region_inv ok mem base w" and "t \<noteq> 0" and "s \<noteq> 0"
  shows "do_read vs base (snd (do_write vs base w t v)) s =
      (if fst (do_write vs base w t v) = Inr () \<and> s = t then Some v else do_read vs base w s)
    \<and> do_read vs base (snd (do_delete vs base w t)) s =
      (if s = t then None else do_read vs base w s)"
proof -
  have r: "do_region vs mem ok" using assms(1) by (simp add: do_region_def)
  show ?thesis by (rule do_region.region_is_map [OF r assms(2-4)])
qed

lemma fake_do_fresh:
  "base + DO_STORE_REGION_BYTES \<le> n \<Longrightarrow>
   do_region_inv (\<lambda>s. \<not> fv_fail_next_write s) fv_mem base (fake_vault_new n)"
  by (simp add: do_region_inv_def do_inv_def fake_vault_new_def do_header_ok_def DO_VERSION_def)

theorem do_store_is_map_witness:
  "do_read FakeVaultStorage 0
      (snd (do_write FakeVaultStorage 0 (fake_vault_new 8232) 0x5B [0x41, 0x6C])) 0x5B =
    (if fst (do_write FakeVaultStorage 0 (fake_vault_new 8232) 0x5B [0x41, 0x6C]) = Inr ()
     then Some [0x41, 0x6C] else do_read FakeVaultStorage 0 (fake_vault_new 8232) 0x5B)"
  using do_store_is_map [OF fake_vault.vault_contract_axioms fake_do_fresh [of 0 8232], of "0x5B" "0x5B"
      "[0x41, 0x6C]"]
  by simp

text \<open>
  When a write is refused: exactly if the value exceeds 254 bytes, or if it is new and all 32
  slots hold other tags. Replacing a stored object never runs out of room.
\<close>

theorem do_write_result:
  assumes "vault_contract vs mem ok" and "do_region_inv ok mem base w" and "t \<noteq> 0"
  shows "fst (do_write vs base w t v) =
    (if length v > 254 then Inl ValueTooLong
     else if do_read vs base w t = None \<and> 32 \<le> card {u. u \<noteq> 0 \<and> do_read vs base w u \<noteq> None}
       then Inl Full else Inr ())"
proof -
  have r: "do_region vs mem ok" using assms(1) by (simp add: do_region_def)
  show ?thesis by (rule do_region.region_write_result [OF r assms(2-3)])
qed

theorem do_write_result_witness:
  "fst (do_write FakeVaultStorage 0 (fake_vault_new 8232) 0x5B (replicate 255 0)) = Inl ValueTooLong"
  using do_write_result [OF fake_vault.vault_contract_axioms fake_do_fresh [of 0 8232], of "0x5B"
      "replicate 255 0"]
  by simp

end
