(* ===== verification/Apdu.thy ===== *)
theory Apdu
  imports Prelude
begin

text \<open>
  ISO 7816-4 command parsing, status words and response encoding
  (\<open>crates/usb-personality/src/openpgp/apdu.rs\<close> and \<open>openpgp/error.rs\<close>).

  The parser is checked against the ISO encodings: \<open>iso_encode\<close> writes a command in the six
  command cases of the standard, and \<open>CommandApdu_parse\<close> reads each of them back.
\<close>

section \<open>Status words\<close>

datatype status_word =
    Success_sw | MoreDataAvailable u8 | TerminationState | VerificationFailed
  | VerificationFailedRetries u8 | ExecutionError | MemoryFailure | WrongLength
  | LogicalChannelNotSupported | SecureMessagingNotSupported | CommandNotAllowed
  | SecurityStatusNotSatisfied | AuthMethodBlocked | ConditionsNotSatisfied | IncorrectParameters
  | FileNotFound | ReferenceDataNotFound | WrongParametersP1P2 | InstructionNotSupported
  | ClassNotSupported | NoPreciseDiagnosis

fun sw1_of :: "status_word \<Rightarrow> u8" where
  "sw1_of Success_sw = 0x90"
| "sw1_of (MoreDataAvailable _) = 0x61"
| "sw1_of TerminationState = 0x62"
| "sw1_of VerificationFailed = 0x63"
| "sw1_of (VerificationFailedRetries _) = 0x63"
| "sw1_of ExecutionError = 0x64"
| "sw1_of MemoryFailure = 0x65"
| "sw1_of WrongLength = 0x67"
| "sw1_of LogicalChannelNotSupported = 0x68"
| "sw1_of SecureMessagingNotSupported = 0x68"
| "sw1_of CommandNotAllowed = 0x69"
| "sw1_of SecurityStatusNotSatisfied = 0x69"
| "sw1_of AuthMethodBlocked = 0x69"
| "sw1_of ConditionsNotSatisfied = 0x69"
| "sw1_of IncorrectParameters = 0x6A"
| "sw1_of FileNotFound = 0x6A"
| "sw1_of ReferenceDataNotFound = 0x6A"
| "sw1_of WrongParametersP1P2 = 0x6B"
| "sw1_of InstructionNotSupported = 0x6D"
| "sw1_of ClassNotSupported = 0x6E"
| "sw1_of NoPreciseDiagnosis = 0x6F"

fun sw2_of :: "status_word \<Rightarrow> u8" where
  "sw2_of Success_sw = 0x00"
| "sw2_of (MoreDataAvailable n) = n"
| "sw2_of TerminationState = 0x85"
| "sw2_of VerificationFailed = 0x00"
| "sw2_of (VerificationFailedRetries x) = 0xC0 OR (x AND 0x0F)"
| "sw2_of ExecutionError = 0x00"
| "sw2_of MemoryFailure = 0x81"
| "sw2_of WrongLength = 0x00"
| "sw2_of LogicalChannelNotSupported = 0x81"
| "sw2_of SecureMessagingNotSupported = 0x82"
| "sw2_of CommandNotAllowed = 0x00"
| "sw2_of SecurityStatusNotSatisfied = 0x82"
| "sw2_of AuthMethodBlocked = 0x83"
| "sw2_of ConditionsNotSatisfied = 0x85"
| "sw2_of IncorrectParameters = 0x80"
| "sw2_of FileNotFound = 0x82"
| "sw2_of ReferenceDataNotFound = 0x88"
| "sw2_of WrongParametersP1P2 = 0x00"
| "sw2_of InstructionNotSupported = 0x00"
| "sw2_of ClassNotSupported = 0x00"
| "sw2_of NoPreciseDiagnosis = 0x00"

section \<open>Commands\<close>

record command_apdu =
  cla :: u8
  ins :: u8
  p1 :: u8
  p2 :: u8
  cdata :: bytes
  le :: "u16 option"

datatype apdu_error = Empty | ApduTooShort | InconsistentLengths

definition le_short :: "u8 \<Rightarrow> u16" where
  "le_short b = (if b = 0 then 256 else ucast b)"

text \<open>The trailing \<open>Le\<close> field of the extended and of the short branch, starting at \<open>e\<close>.\<close>

definition parse_le_extended :: "bytes \<Rightarrow> nat \<Rightarrow> apdu_error + u16 option" where
  "parse_le_extended raw e =
     (if length raw > e then
        if length raw = e + 1 then Inr (Some (le_short (raw ! e)))
        else if length raw = e + 2 then Inr (Some (u16_of_be (raw ! e) (raw ! (e + 1))))
        else if length raw = e + 3 \<and> raw ! e = 0
          then Inr (Some (u16_of_be (raw ! (e + 1)) (raw ! (e + 2))))
        else Inl InconsistentLengths
      else Inr None)"

definition parse_le_short :: "bytes \<Rightarrow> nat \<Rightarrow> apdu_error + u16 option" where
  "parse_le_short raw e =
     (if length raw > e then
        if length raw = e + 1 then Inr (Some (le_short (raw ! e)))
        else if length raw = e + 2 then
          (if raw ! e = 0 then Inr (Some (u16_of_be 0 (raw ! (e + 1))))
           else Inr (Some (u16_of_be (raw ! e) (raw ! (e + 1)))))
        else if length raw = e + 3 \<and> raw ! e = 0
          then Inr (Some (u16_of_be (raw ! (e + 1)) (raw ! (e + 2))))
        else Inl InconsistentLengths
      else Inr None)"

definition CommandApdu_parse :: "bytes \<Rightarrow> apdu_error + command_apdu" where
  "CommandApdu_parse raw =
     (if raw = [] then Inl Empty
      else if length raw < 4 then Inl ApduTooShort
      else
        let c = \<lparr>cla = raw ! 0, ins = raw ! 1, p1 = raw ! 2, p2 = raw ! 3, cdata = [], le = None\<rparr> in
        if length raw = 4 then Inr c
        else if length raw = 5 then Inr (c\<lparr>le := Some (le_short (raw ! 4))\<rparr>)
        else
          let l0 = raw ! 4 in
          if l0 = 0 \<and> length raw > 7 then
            let lc = unat (u16_of_be (raw ! 5) (raw ! 6)); data_end = 7 + lc in
            if length raw < data_end then Inl InconsistentLengths
            else case push_all 512 [] (slice 7 lc raw) of
                None \<Rightarrow> Inl InconsistentLengths
              | Some d \<Rightarrow>
                  (case parse_le_extended raw data_end of
                     Inl e \<Rightarrow> Inl e
                   | Inr l \<Rightarrow> Inr (c\<lparr>cdata := d, le := l\<rparr>))
          else
            let lc = unat l0; data_end = 5 + lc in
            if length raw < data_end then Inl InconsistentLengths
            else case push_all 512 [] (slice 5 lc raw) of
                None \<Rightarrow> Inl InconsistentLengths
              | Some d \<Rightarrow>
                  (case parse_le_short raw data_end of
                     Inl e \<Rightarrow> Inl e
                   | Inr l \<Rightarrow> Inr (c\<lparr>cdata := d, le := l\<rparr>)))"

section \<open>Responses\<close>

record response_apdu =
  rdata :: bytes
  rsw1 :: u8
  rsw2 :: u8

definition rapdu_ok :: "bytes \<Rightarrow> response_apdu" where
  "rapdu_ok d = \<lparr>rdata = d, rsw1 = sw1_of Success_sw, rsw2 = sw2_of Success_sw\<rparr>"

definition rapdu_ok_empty :: response_apdu where
  "rapdu_ok_empty = \<lparr>rdata = [], rsw1 = sw1_of Success_sw, rsw2 = sw2_of Success_sw\<rparr>"

definition rapdu_error :: "status_word \<Rightarrow> response_apdu" where
  "rapdu_error sw = \<lparr>rdata = [], rsw1 = sw1_of sw, rsw2 = sw2_of sw\<rparr>"

definition rapdu_to_bytes :: "response_apdu \<Rightarrow> bytes" where
  "rapdu_to_bytes r =
     push_lossy 514 (push_lossy 514 (push_lossy 514 [] (rdata r)) [rsw1 r]) [rsw2 r]"

section \<open>The ISO encodings\<close>

text \<open>
  The reference encoder: the header, then the length fields of the chosen form (short or extended)
  for the four combinations of command data and expected length. A short \<open>Le\<close> of 256 is the byte 0.
\<close>

datatype apdu_form = Short | Extended

definition short_le_byte :: "u16 \<Rightarrow> u8" where
  "short_le_byte n = (if n = 256 then 0 else ucast n)"

fun iso_body :: "apdu_form \<Rightarrow> bytes \<Rightarrow> u16 option \<Rightarrow> bytes" where
  "iso_body Short d None = (if d = [] then [] else of_nat (length d) # d)"
| "iso_body Short d (Some n) =
     (if d = [] then [short_le_byte n] else of_nat (length d) # d @ [short_le_byte n])"
| "iso_body Extended d None = (if d = [] then [] else 0 # u16_be (of_nat (length d)) @ d)"
| "iso_body Extended d (Some n) =
     (if d = [] then 0 # u16_be n else 0 # u16_be (of_nat (length d)) @ d @ u16_be n)"

definition iso_encode :: "apdu_form \<Rightarrow> command_apdu \<Rightarrow> bytes" where
  "iso_encode f c = [cla c, ins c, p1 c, p2 c] @ iso_body f (cdata c) (le c)"

fun iso_encodable :: "apdu_form \<Rightarrow> command_apdu \<Rightarrow> bool" where
  "iso_encodable Short c \<longleftrightarrow>
     length (cdata c) \<le> 255 \<and> (case le c of None \<Rightarrow> True | Some n \<Rightarrow> 1 \<le> n \<and> n \<le> 256)"
| "iso_encodable Extended c \<longleftrightarrow> length (cdata c) \<le> 512"


section \<open>Lemmas\<close>

lemma le_short_byte:
  assumes "1 \<le> n" and "n \<le> 256"
  shows "le_short (short_le_byte n) = n"
proof (cases "n = 256")
  case True
  then show ?thesis by (simp add: le_short_def short_le_byte_def)
next
  case False
  have u: "unat n \<noteq> 0" "unat n < 256"
    using assms False by (auto simp: word_le_nat_alt word_unat_eq_iff)
  then have "unat (ucast n :: u8) = unat n"
    by (simp add: unat_ucast)
  with u have "(ucast n :: u8) \<noteq> 0" and "(ucast (ucast n :: u8) :: u16) = n"
    by (auto simp: word_unat_eq_iff unat_ucast)
  with False show ?thesis by (simp add: le_short_def short_le_byte_def)
qed

lemma parse_le_at_end [simp]:
  "e = length xs \<Longrightarrow> parse_le_short xs e = Inr None"
  "e = length xs \<Longrightarrow> parse_le_extended xs e = Inr None"
  by (simp_all add: parse_le_short_def parse_le_extended_def)

lemma parse_le_one [simp]:
  "e = length xs \<Longrightarrow> parse_le_short (xs @ [b]) e = Inr (Some (le_short b))"
  by (simp add: parse_le_short_def)

lemma parse_le_two:
  "e = length xs \<Longrightarrow> parse_le_short (xs @ u16_be n) e = Inr (Some n)"
  "e = length xs \<Longrightarrow> parse_le_extended (xs @ u16_be n) e = Inr (Some n)"
proof -
  have "ucast (drop_bit 8 n) = (0 :: u8) \<Longrightarrow> u16_of_be 0 (ucast n) = n"
    using u16_be_roundtrip [of n] by simp
  then show "e = length xs \<Longrightarrow> parse_le_short (xs @ u16_be n) e = Inr (Some n)"
    by (simp add: parse_le_short_def u16_be_def nth_append)
  show "e = length xs \<Longrightarrow> parse_le_extended (xs @ u16_be n) e = Inr (Some n)"
    by (simp add: parse_le_extended_def u16_be_def nth_append)
qed

text \<open>The body parser on the shapes that carry command data.\<close>

lemma parse_short_data:
  assumes "d \<noteq> []" and "length d \<le> 255" and "length rest \<le> 1"
    and "parse_le_short ((a # b # c # e # of_nat (length d) # d) @ rest) (5 + length d) = Inr l"
  shows "CommandApdu_parse (a # b # c # e # of_nat (length d) # d @ rest) =
    Inr \<lparr>cla = a, ins = b, p1 = c, p2 = e, cdata = d, le = l\<rparr>"
proof -
  have nz: "(of_nat (length d) :: u8) \<noteq> 0"
    using assms unat_of_nat_u8 [of "length d"] by (auto simp: word_unat_eq_iff)
  have len: "length d > 0" using assms by simp
  show ?thesis
    using nz len assms
    by (simp add: CommandApdu_parse_def Let_def unat_of_nat_u8 push_all_Nil slice_def)
qed

lemma parse_extended_data:
  assumes "d \<noteq> []" and "length d \<le> 512"
    and "parse_le_extended ((a # b # c # e # 0 # u16_be (of_nat (length d)) @ d) @ rest)
      (7 + length d) = Inr l"
  shows "CommandApdu_parse (a # b # c # e # 0 # u16_be (of_nat (length d)) @ d @ rest) =
    Inr \<lparr>cla = a, ins = b, p1 = c, p2 = e, cdata = d, le = l\<rparr>"
proof -
  have len: "length d > 0" using assms by simp
  show ?thesis
    using len assms
    by (simp add: CommandApdu_parse_def Let_def unat_of_nat_u16 push_all_Nil slice_def u16_be_def)
qed

lemma parse_le_only:
  "CommandApdu_parse [a, b, c, e, x] =
     Inr \<lparr>cla = a, ins = b, p1 = c, p2 = e, cdata = [], le = Some (le_short x)\<rparr>"
  "CommandApdu_parse (a # b # c # e # 0 # u16_be n) =
     Inr \<lparr>cla = a, ins = b, p1 = c, p2 = e, cdata = [], le = Some n\<rparr>"
  "CommandApdu_parse [a, b, c, e] =
     Inr \<lparr>cla = a, ins = b, p1 = c, p2 = e, cdata = [], le = None\<rparr>"
  using parse_le_two(1) [of 5 "[a, b, c, e, 0]" n]
  by (simp_all add: CommandApdu_parse_def Let_def u16_be_def)

section \<open>Properties\<close>

text \<open>
  The parser reads back every ISO 7816-4 encoding: a command with at most 255 data bytes and a
  short \<open>Le\<close> written in short form, or one with at most 512 data bytes and any 16-bit \<open>Le\<close> written
  in extended form, is parsed to itself.
\<close>

theorem parse_iso_encode:
  assumes "iso_encodable f c"
  shows "CommandApdu_parse (iso_encode f c) = Inr c"
proof (cases "cdata c = []")
  case True
  with assms show ?thesis
    by (cases f; cases "le c")
      (simp_all add: iso_encode_def parse_le_only le_short_byte)
next
  case False
  show ?thesis
  proof (cases f)
    case Short
    with False assms show ?thesis
      using parse_short_data [OF False, of "[]"]
        parse_short_data [OF False, of "[x]" for x, OF _ _ parse_le_one]
      by (cases "le c") (simp_all add: iso_encode_def le_short_byte)
  next
    case Extended
    with False assms show ?thesis
      using parse_extended_data [OF False, of _ _ _ _ "[]"]
        parse_extended_data [OF False _ parse_le_two(2)]
      by (cases "le c") (simp_all add: iso_encode_def)
  qed
qed

theorem parse_iso_encode_witness:
  "CommandApdu_parse (iso_encode Extended
     \<lparr>cla = 0, ins = 0xDB, p1 = 0x3F, p2 = 0xFF, cdata = replicate 300 7, le = Some 0x1234\<rparr>) =
   Inr \<lparr>cla = 0, ins = 0xDB, p1 = 0x3F, p2 = 0xFF, cdata = replicate 300 7, le = Some 0x1234\<rparr>"
  by (rule parse_iso_encode) simp

end
