(* ===== verification/Data_Objects.thy ===== *)
theory Data_Objects
  imports Prelude
begin

text \<open>
  OpenPGP card data objects: algorithm attributes (\<open>openpgp/dos.rs\<close>), the application identifier
  (\<open>openpgp/aid.rs\<close>), the BER-TLV reader of PSO:DECIPHER (\<open>openpgp/commands/decipher.rs\<close>) and the
  retired-curve screen of \<open>galdr-core/src/legacy_removed.rs\<close>. SHA-1 and SHA-256 are third-party
  digests and parameters of the definitions that hash.
\<close>

section \<open>Model\<close>

definition BRAINPOOL_P512R1_OID :: bytes where
  "BRAINPOOL_P512R1_OID = [0x2B, 0x24, 0x03, 0x03, 0x02, 0x08, 0x01, 0x01, 0x0D]"

definition is_brainpool_p512_oid :: "bytes \<Rightarrow> bool" where
  "is_brainpool_p512_oid oid \<longleftrightarrow> oid = BRAINPOOL_P512R1_OID"

definition BRAINPOOL_P256R1 :: bytes where
  "BRAINPOOL_P256R1 = [0x2B, 0x24, 0x03, 0x03, 0x02, 0x08, 0x01, 0x01, 0x07]"
definition BRAINPOOL_P384R1 :: bytes where
  "BRAINPOOL_P384R1 = [0x2B, 0x24, 0x03, 0x03, 0x02, 0x08, 0x01, 0x01, 0x0B]"
definition NIST_P256 :: bytes where
  "NIST_P256 = [0x2A, 0x86, 0x48, 0xCE, 0x3D, 0x03, 0x01, 0x07]"
definition NIST_P384 :: bytes where
  "NIST_P384 = [0x2B, 0x81, 0x04, 0x00, 0x22]"
definition ED25519 :: bytes where
  "ED25519 = [0x2B, 0x06, 0x01, 0x04, 0x01, 0xDA, 0x47, 0x0F, 0x01]"
definition CURVE25519 :: bytes where
  "CURVE25519 = [0x2B, 0x06, 0x01, 0x04, 0x01, 0x97, 0x55, 0x01, 0x05, 0x01]"

datatype algorithm_attributes =
    Rsa (modulus_bits: u16) (exponent_bits: u16) (import_format: u8)
  | Ecdh bytes
  | Ecdsa bytes
  | EdDsa bytes

fun uses_removed_curve :: "algorithm_attributes \<Rightarrow> bool" where
  "uses_removed_curve (Rsa _ _ _) = False"
| "uses_removed_curve (Ecdh curve_oid) = is_brainpool_p512_oid curve_oid"
| "uses_removed_curve (Ecdsa curve_oid) = is_brainpool_p512_oid curve_oid"
| "uses_removed_curve (EdDsa curve_oid) = is_brainpool_p512_oid curve_oid"

fun attributes_to_bytes :: "algorithm_attributes \<Rightarrow> unit + bytes" where
  "attributes_to_bytes (Rsa m e f) =
     ok_or () (push_all 32 [] [0x01, ucast (m div 256), ucast m, ucast (e div 256), ucast e, f])"
| "attributes_to_bytes (Ecdh oid) = ok_or () (push_all 32 [] (0x12 # oid))"
| "attributes_to_bytes (Ecdsa oid) = ok_or () (push_all 32 [] (0x13 # oid))"
| "attributes_to_bytes (EdDsa oid) = ok_or () (push_all 32 [] (0x16 # oid))"

definition attributes_parse :: "bytes \<Rightarrow> unit + algorithm_attributes" where
  "attributes_parse d =
     (if d = [] then Inl ()
      else if d ! 0 = 0x01 \<and> length d \<ge> 6
        then Inr (Rsa (u16_of_be (d ! 1) (d ! 2)) (u16_of_be (d ! 3) (d ! 4)) (d ! 5))
      else if d ! 0 = 0x12 then
        (case push_all 16 [] (drop 1 d) of None \<Rightarrow> Inl () | Some oid \<Rightarrow> Inr (Ecdh oid))
      else if d ! 0 = 0x13 then
        (case push_all 16 [] (drop 1 d) of None \<Rightarrow> Inl () | Some oid \<Rightarrow> Inr (Ecdsa oid))
      else if d ! 0 = 0x16 then
        (case push_all 16 [] (drop 1 d) of None \<Rightarrow> Inl () | Some oid \<Rightarrow> Inr (EdDsa oid))
      else Inl ())"

definition extended_capabilities_default :: bytes where
  "extended_capabilities_default = [0xB0, 0x00, 0x00, 0x40, 0x00, 0x00, 0x00, 0x00, 0x00, 0x00]"

text \<open>The digests are arguments: \<open>sha1\<close> and \<open>sha256\<close> map the hashed bytes to the digest.\<close>

definition u32_be :: "u32 \<Rightarrow> bytes" where
  "u32_be w = [ucast (drop_bit 24 w), ucast (drop_bit 16 w), ucast (drop_bit 8 w), ucast w]"

definition compute_v4_fingerprint :: "(bytes \<Rightarrow> bytes) \<Rightarrow> u32 \<Rightarrow> u8 \<Rightarrow> bytes \<Rightarrow> bytes" where
  "compute_v4_fingerprint sha1 creation_timestamp algorithm_id key_material =
     sha1 ([0x04] @ u32_be creation_timestamp @ [algorithm_id] @ key_material)"

definition pin_bytes_to_verifier_digest :: "(bytes \<Rightarrow> bytes) \<Rightarrow> bytes \<Rightarrow> bytes" where
  "pin_bytes_to_verifier_digest sha256 pin = sha256 pin"

subsection \<open>Application identifier\<close>

definition OPENPGP_AID_PREFIX :: bytes where
  "OPENPGP_AID_PREFIX = [0xD2, 0x76, 0x00, 0x01, 0x24]"
definition OPENPGP_CARD_VERSION_MAJOR :: u8 where "OPENPGP_CARD_VERSION_MAJOR = 0x03"
definition OPENPGP_CARD_VERSION_MINOR :: u8 where "OPENPGP_CARD_VERSION_MINOR = 0x04"

definition build_aid :: "u16 \<Rightarrow> bytes \<Rightarrow> bytes" where
  "build_aid manufacturer_id serial =
     (let aid = replicate 16 0;
          aid = splice aid 0 OPENPGP_AID_PREFIX;
          aid = aid[5 := OPENPGP_CARD_VERSION_MAJOR];
          aid = aid[6 := OPENPGP_CARD_VERSION_MINOR];
          aid = splice aid 7 (u16_be manufacturer_id)
      in splice aid 9 serial)"

definition aid_matches_openpgp :: "bytes \<Rightarrow> bool" where
  "aid_matches_openpgp aid \<longleftrightarrow>
     (if length aid < 7 then False
      else take (length OPENPGP_AID_PREFIX) aid = OPENPGP_AID_PREFIX
        \<and> aid ! 5 = OPENPGP_CARD_VERSION_MAJOR \<and> aid ! 6 = OPENPGP_CARD_VERSION_MINOR)"

subsection \<open>BER-TLV\<close>

definition TAG_ECDH_WRAPPER :: u16 where "TAG_ECDH_WRAPPER = 0xA6"
definition TAG_ECC_PK :: u16 where "TAG_ECC_PK = 0x7F49"
definition TAG_EPHEMERAL_KEY :: u16 where "TAG_EPHEMERAL_KEY = 0x86"

definition parse_ber_length :: "bytes \<Rightarrow> unit + (nat \<times> bytes)" where
  "parse_ber_length buf =
     (if buf = [] then Inl ()
      else
        let b0 = unat (buf ! 0) in
        if b0 AND 0x80 = 0 then Inr (b0, drop 1 buf)
        else
          let n = b0 AND 0x7F in
          if n = 0 \<or> n > 4 \<or> length buf < 1 + n then Inl ()
          else Inr (foldl (\<lambda>len i. push_bit 8 len OR unat (buf ! (1 + i))) 0 [0..<n],
                    drop (1 + n) buf))"

definition parse_ber_tag :: "bytes \<Rightarrow> unit + (u16 \<times> bytes)" where
  "parse_ber_tag buf =
     (if buf = [] then Inl ()
      else
        let b0 = buf ! 0 in
        if b0 AND 0x1F \<noteq> 0x1F then Inr (ucast b0, drop 1 buf)
        else if length buf < 2 then Inl ()
        else
          let b1 = buf ! 1 in
          if b1 AND 0x80 \<noteq> 0 then Inl ()
          else Inr (push_bit 8 (ucast b0) OR ucast b1, drop 2 buf))"

definition read_tlv :: "bytes \<Rightarrow> unit + (u16 \<times> bytes \<times> bytes)" where
  "read_tlv buf =
     (case parse_ber_tag buf of
        Inl e \<Rightarrow> Inl e
      | Inr (tag, rest) \<Rightarrow>
          (case parse_ber_length rest of
             Inl e \<Rightarrow> Inl e
           | Inr (len, rest) \<Rightarrow>
               if length rest < len then Inl ()
               else Inr (tag, take len rest, drop len rest)))"

definition parse_ecdh_peer_public_key :: "bytes \<Rightarrow> bytes option" where
  "parse_ecdh_peer_public_key d =
     (case read_tlv d of
        Inl _ \<Rightarrow> None
      | Inr (tag, inner, _) \<Rightarrow>
          if tag \<noteq> TAG_ECDH_WRAPPER then None
          else case read_tlv inner of
              Inl _ \<Rightarrow> None
            | Inr (tag2, inner2, _) \<Rightarrow>
                if tag2 \<noteq> TAG_ECC_PK then None
                else case read_tlv inner2 of
                    Inl _ \<Rightarrow> None
                  | Inr (tag3, peer, _) \<Rightarrow>
                      if tag3 \<noteq> TAG_EPHEMERAL_KEY then None
                      else if peer = [] then None
                      else Some peer)"

subsection \<open>Reference encoder\<close>

text \<open>BER lengths in their shortest form, up to two length bytes, and one- or two-byte tags.\<close>

definition ber_length :: "nat \<Rightarrow> bytes" where
  "ber_length n =
     (if n < 0x80 then [of_nat n]
      else if n < 0x100 then [0x81, of_nat n]
      else [0x82, of_nat (n div 256), of_nat (n mod 256)])"

definition ber_tag :: "u16 \<Rightarrow> bytes" where
  "ber_tag t = (if t < 256 then [ucast t] else u16_be t)"

definition ber_tag_ok :: "u16 \<Rightarrow> bool" where
  "ber_tag_ok t \<longleftrightarrow>
     (if t < 256 then (ucast t :: u8) AND 0x1F \<noteq> 0x1F
      else (ucast (drop_bit 8 t) :: u8) AND 0x1F = 0x1F \<and> (ucast t :: u8) AND 0x80 = 0)"

definition ber_tlv :: "u16 \<Rightarrow> bytes \<Rightarrow> bytes" where
  "ber_tlv t v = ber_tag t @ ber_length (length v) @ v"

section \<open>Lemmas\<close>

lemma attributes_parse_oid:
  "length oid \<le> 16 \<Longrightarrow> attributes_parse (0x12 # oid) = Inr (Ecdh oid)"
  "length oid \<le> 16 \<Longrightarrow> attributes_parse (0x13 # oid) = Inr (Ecdsa oid)"
  "length oid \<le> 16 \<Longrightarrow> attributes_parse (0x16 # oid) = Inr (EdDsa oid)"
  by (simp_all add: attributes_parse_def push_all_Nil)

lemma div_256_be: "ucast ((w :: u16) div 256) = (ucast (drop_bit 8 w) :: u8)"
  by (simp add: drop_bit_eq_div)

lemma parse_ber_length_ok:
  assumes "n < 65536"
  shows "parse_ber_length (ber_length n @ rest) = Inr (n, rest)"
proof -
  consider "n < 0x80" | "0x80 \<le> n \<and> n < 0x100" | "0x100 \<le> n" by linarith
  then show ?thesis
  proof cases
    case 1
    then show ?thesis
      by (simp add: parse_ber_length_def ber_length_def Let_def unat_of_nat_u8 nat_and_0x80)
  next
    case 2
    then show ?thesis
      by (simp add: parse_ber_length_def ber_length_def Let_def unat_of_nat_u8)
  next
    case 3
    with assms have "n div 256 < 256" by simp
    with 3 show ?thesis
      by (simp add: parse_ber_length_def ber_length_def Let_def unat_of_nat_u8 push_bit_or_byte
          upt_rec)
  qed
qed

lemma parse_ber_tag_ok:
  assumes "ber_tag_ok t"
  shows "parse_ber_tag (ber_tag t @ rest) = Inr (t, rest)"
proof (cases "t < 256")
  case True
  then have "ucast (ucast t :: u8) = t"
    by (simp add: word_unat_eq_iff unat_ucast word_less_nat_alt)
  with True assms show ?thesis
    by (simp add: ber_tag_ok_def ber_tag_def parse_ber_tag_def Let_def)
next
  case False
  with assms u16_be_roundtrip [of t] show ?thesis
    by (simp add: ber_tag_ok_def ber_tag_def parse_ber_tag_def Let_def u16_be_def u16_of_be_def)
qed

lemma read_tlv_ber_tlv:
  assumes "ber_tag_ok t" and "length v < 65536"
  shows "read_tlv (ber_tlv t v @ rest) = Inr (t, v, rest)"
  using assms by (simp add: read_tlv_def ber_tlv_def parse_ber_tag_ok parse_ber_length_ok)

lemma length_ber_tlv_le: "length (ber_tlv t v) \<le> length v + 5"
  by (simp add: ber_tlv_def ber_tag_def ber_length_def)

lemma card_tags_ok:
  "ber_tag_ok TAG_ECDH_WRAPPER" "ber_tag_ok TAG_ECC_PK" "ber_tag_ok TAG_EPHEMERAL_KEY"
  by (simp_all add: ber_tag_ok_def TAG_ECDH_WRAPPER_def TAG_ECC_PK_def TAG_EPHEMERAL_KEY_def)

section \<open>Properties\<close>

text \<open>
  Algorithm attributes survive storage: what \<open>to_bytes\<close> writes into DO C1, C2 or C3, \<open>parse\<close>
  reads back, for RSA with any sizes and for every curve identifier of at most 16 bytes.
\<close>

theorem attributes_roundtrip:
  assumes "case a of Rsa m e f \<Rightarrow> True | Ecdh oid \<Rightarrow> length oid \<le> 16
    | Ecdsa oid \<Rightarrow> length oid \<le> 16 | EdDsa oid \<Rightarrow> length oid \<le> 16"
  shows "\<exists>bs. attributes_to_bytes a = Inr bs \<and> length bs \<le> 32 \<and> attributes_parse bs = Inr a"
proof (cases a)
  case (Rsa m e f)
  then show ?thesis
    by (simp add: push_all_Nil attributes_parse_def div_256_be)
qed (use assms in \<open>simp_all add: push_all_Nil attributes_parse_oid\<close>)

theorem attributes_roundtrip_witness:
  "\<exists>bs. attributes_to_bytes (Ecdsa BRAINPOOL_P384R1) = Inr bs \<and> length bs \<le> 32
     \<and> attributes_parse bs = Inr (Ecdsa BRAINPOOL_P384R1)"
  by (rule attributes_roundtrip) (simp add: BRAINPOOL_P384R1_def)

text \<open>
  PSO:DECIPHER finds the peer key: for the nested BER encoding the OpenPGP card specification
  prescribes (A6 around 7F49 around 86), with any non-empty key of up to 65000 bytes and any bytes
  after the outer object, the parser returns exactly that key.
\<close>

theorem ecdh_peer_key_extracted:
  assumes "peer \<noteq> []" and "length peer \<le> 65000"
  shows "parse_ecdh_peer_public_key
      (ber_tlv TAG_ECDH_WRAPPER (ber_tlv TAG_ECC_PK (ber_tlv TAG_EPHEMERAL_KEY peer)) @ rest) =
    Some peer"
proof -
  let ?k = "ber_tlv TAG_EPHEMERAL_KEY peer" and ?p = "ber_tlv TAG_ECC_PK (ber_tlv TAG_EPHEMERAL_KEY peer)"
  have "length ?k \<le> 65005" "length ?p \<le> 65010"
    using assms length_ber_tlv_le [of TAG_EPHEMERAL_KEY peer] length_ber_tlv_le [of TAG_ECC_PK ?k]
    by simp_all
  then have "read_tlv (ber_tlv TAG_ECDH_WRAPPER ?p @ rest) = Inr (TAG_ECDH_WRAPPER, ?p, rest)"
    and "read_tlv ?p = Inr (TAG_ECC_PK, ?k, [])"
    and "read_tlv ?k = Inr (TAG_EPHEMERAL_KEY, peer, [])"
    using assms read_tlv_ber_tlv [of TAG_ECC_PK ?k "[]"]
      read_tlv_ber_tlv [of TAG_EPHEMERAL_KEY peer "[]"]
    by (simp_all add: read_tlv_ber_tlv card_tags_ok)
  with assms show ?thesis by (simp add: parse_ecdh_peer_public_key_def)
qed

theorem ecdh_peer_key_extracted_witness:
  "parse_ecdh_peer_public_key
      (ber_tlv TAG_ECDH_WRAPPER (ber_tlv TAG_ECC_PK (ber_tlv TAG_EPHEMERAL_KEY [4, 1, 2])) @ [0x90]) =
    Some [4, 1, 2]"
  by (rule ecdh_peer_key_extracted) simp_all

end
