(* ===== verification/Ccid.thy ===== *)
theory Ccid
  imports Prelude
begin

text \<open>
  CCID framing of \<open>crates/usb-personality/src/ccid\<close>: parsing of PC_to_RDR messages
  (\<open>command.rs\<close>), construction of RDR_to_PC frames (\<open>response.rs\<close>) and the class descriptor
  (\<open>mod.rs\<close>).
\<close>

section \<open>Host messages\<close>

abbreviation HDR_LEN :: nat where "HDR_LEN \<equiv> 10"
abbreviation CCID_WIRE_BUF_SIZE :: nat where "CCID_WIRE_BUF_SIZE \<equiv> 530"

datatype pc_to_rdr =
    IccPowerOn u8 u8 u8
  | IccPowerOff u8 u8
  | GetSlotStatus u8 u8
  | XfrBlock u8 u8 bytes
  | Abort u8 u8

fun answered_inline_by_usb_bao1x :: "pc_to_rdr \<Rightarrow> bool" where
  "answered_inline_by_usb_bao1x (IccPowerOn _ _ _) = True"
| "answered_inline_by_usb_bao1x (GetSlotStatus _ _) = True"
| "answered_inline_by_usb_bao1x _ = False"

datatype ccid_error = CcidTooShort | LengthMismatch | UnknownMessageType | PayloadTooLarge

definition parse_pc_to_rdr :: "bytes \<Rightarrow> ccid_error + pc_to_rdr" where
  "parse_pc_to_rdr d =
     (if length d < HDR_LEN then Inl CcidTooShort
      else
        let msg_type = d ! 0;
            dw_length = rd_u32_le d 1;
            slot = d ! 5; seq = d ! 6; b7 = d ! 7;
            expected = HDR_LEN + unat dw_length in
        if length d \<noteq> expected then Inl LengthMismatch
        else if msg_type = 0x62 then
          (if dw_length \<noteq> 0 then Inl LengthMismatch else Inr (IccPowerOn slot seq b7))
        else if msg_type = 0x63 then
          (if dw_length \<noteq> 0 then Inl LengthMismatch else Inr (IccPowerOff slot seq))
        else if msg_type = 0x65 then
          (if dw_length \<noteq> 0 then Inl LengthMismatch else Inr (GetSlotStatus slot seq))
        else if msg_type = 0x6F then
          let payload = drop HDR_LEN d in
          if length payload > 512 then Inl PayloadTooLarge
          else case push_all 512 [] payload of
              None \<Rightarrow> Inl PayloadTooLarge
            | Some apdu \<Rightarrow> Inr (XfrBlock slot seq apdu)
        else if msg_type = 0x72 then
          (if dw_length \<noteq> 0 then Inl LengthMismatch else Inr (Abort slot seq))
        else Inl UnknownMessageType)"

section \<open>Reader frames\<close>

definition RDR_TO_PC_DATA_BLOCK :: u8 where "RDR_TO_PC_DATA_BLOCK = 0x80"
definition RDR_TO_PC_SLOT_STATUS :: u8 where "RDR_TO_PC_SLOT_STATUS = 0x81"
definition RDR_TO_PC_PARAMETERS :: u8 where "RDR_TO_PC_PARAMETERS = 0x82"

record ccid_status =
  b_status :: u8
  b_error :: u8
  b_chain :: u8

definition ok_active :: ccid_status where
  "ok_active = \<lparr>b_status = 0x00, b_error = 0x00, b_chain = 0x00\<rparr>"

definition cmd_not_supported :: ccid_status where
  "cmd_not_supported = \<lparr>b_status = 0x40, b_error = 0xFE, b_chain = 0x00\<rparr>"

text \<open>
  \<open>push_hdr\<close> stops at the first push that fails and its result is discarded by every caller: what
  was pushed before stays, as with \<open>push_lossy\<close> on a vector that is full from then on.
\<close>

definition push_hdr :: "bytes \<Rightarrow> u8 \<Rightarrow> u32 \<Rightarrow> u8 \<Rightarrow> u8 \<Rightarrow> ccid_status \<Rightarrow> bytes" where
  "push_hdr out msg_type dw_length slot seq st =
     push_lossy 530 out
       ([msg_type] @ u32_le dw_length @ [slot, seq, b_status st, b_error st, b_chain st])"

definition atr_openpgp_profile :: bytes where
  "atr_openpgp_profile =
     [0x3B, 0xDA, 0x18, 0xFF, 0x81, 0xB1, 0xFE, 0x75, 0x1F, 0x03, 0x00, 0x31, 0xC5, 0x73, 0xC0,
      0x01, 0x40, 0x00, 0x90, 0x00, 0x0C]"

definition rdr_to_pc_data_block :: "u8 \<Rightarrow> u8 \<Rightarrow> ccid_status \<Rightarrow> bytes \<Rightarrow> bytes" where
  "rdr_to_pc_data_block slot seq status apdu_response =
     push_lossy 530
       (push_hdr [] RDR_TO_PC_DATA_BLOCK (of_nat (length apdu_response)) slot seq status)
       apdu_response"

definition rdr_to_pc_slot_status :: "u8 \<Rightarrow> u8 \<Rightarrow> ccid_status \<Rightarrow> bytes" where
  "rdr_to_pc_slot_status slot seq status = push_hdr [] RDR_TO_PC_SLOT_STATUS 0 slot seq status"

definition rdr_to_pc_parameters :: "u8 \<Rightarrow> u8 \<Rightarrow> bytes" where
  "rdr_to_pc_parameters slot seq =
     push_lossy 530
       (push_hdr [] RDR_TO_PC_PARAMETERS (of_nat (length atr_openpgp_profile)) slot seq ok_active)
       atr_openpgp_profile"

section \<open>Class descriptor\<close>

definition CCID_BCD_CCID :: u16 where "CCID_BCD_CCID = 0x0110"
definition CCID_MAX_SLOT_INDEX :: u8 where "CCID_MAX_SLOT_INDEX = 0x00"
definition CCID_VOLTAGE_SUPPORT :: u8 where "CCID_VOLTAGE_SUPPORT = 0x07"
definition CCID_DW_PROTOCOLS :: u32 where "CCID_DW_PROTOCOLS = 0x00000002"
definition CCID_DW_DEFAULT_CLOCK :: u32 where "CCID_DW_DEFAULT_CLOCK = 0x00000FA0"
definition CCID_DW_MAXIMUM_CLOCK :: u32 where "CCID_DW_MAXIMUM_CLOCK = 0x00000FA0"
definition CCID_DW_DATA_RATE :: u32 where "CCID_DW_DATA_RATE = 0x00002580"
definition CCID_DW_MAX_DATA_RATE :: u32 where "CCID_DW_MAX_DATA_RATE = 0x00002580"
definition CCID_DW_MAX_IFSD :: u32 where "CCID_DW_MAX_IFSD = 0xFE"
definition CCID_DW_SYNCH_PROTOCOLS :: u32 where "CCID_DW_SYNCH_PROTOCOLS = 0"
definition CCID_DW_MECHANICAL :: u32 where "CCID_DW_MECHANICAL = 0"
definition CCID_DW_FEATURES :: u32 where "CCID_DW_FEATURES = 0x000400FE"
definition CCID_MAX_MESSAGE_LENGTH :: u32 where "CCID_MAX_MESSAGE_LENGTH = 0x10F"
definition CCID_CLASS_GET_RESPONSE :: u8 where "CCID_CLASS_GET_RESPONSE = 0xFF"
definition CCID_CLASS_ENVELOPE :: u8 where "CCID_CLASS_ENVELOPE = 0xFF"
definition CCID_LCD_LAYOUT :: u16 where "CCID_LCD_LAYOUT = 0"
definition CCID_PIN_SUPPORT :: u8 where "CCID_PIN_SUPPORT = 0x00"
definition CCID_MAX_BUSY_SLOTS :: u8 where "CCID_MAX_BUSY_SLOTS = 0x01"

definition ccid_class_descriptor_bytes :: bytes where
  "ccid_class_descriptor_bytes =
     (let b = replicate 54 0;
          b = b[0 := 0x21];
          b = b[1 := 0x36];
          b = splice b 2 (u16_le CCID_BCD_CCID);
          b = b[4 := CCID_MAX_SLOT_INDEX];
          b = b[5 := CCID_VOLTAGE_SUPPORT];
          b = splice b 6 (u32_le CCID_DW_PROTOCOLS);
          b = splice b 10 (u32_le CCID_DW_DEFAULT_CLOCK);
          b = splice b 14 (u32_le CCID_DW_MAXIMUM_CLOCK);
          b = splice b 18 (u32_le CCID_DW_DATA_RATE);
          b = splice b 22 (u32_le CCID_DW_MAX_DATA_RATE);
          b = splice b 26 (u32_le CCID_DW_MAX_IFSD);
          b = splice b 30 (u32_le CCID_DW_SYNCH_PROTOCOLS);
          b = splice b 34 (u32_le CCID_DW_MECHANICAL);
          b = splice b 38 (u32_le CCID_DW_FEATURES);
          b = splice b 42 (u32_le CCID_MAX_MESSAGE_LENGTH);
          b = b[46 := CCID_CLASS_GET_RESPONSE];
          b = b[47 := CCID_CLASS_ENVELOPE];
          b = splice b 48 (u16_le CCID_LCD_LAYOUT);
          b = b[50 := CCID_PIN_SUPPORT]
      in b[51 := CCID_MAX_BUSY_SLOTS])"

section \<open>Reference encoder of host messages\<close>

definition ccid_frame :: "u8 \<Rightarrow> u8 \<Rightarrow> u8 \<Rightarrow> u8 \<Rightarrow> u8 \<Rightarrow> u8 \<Rightarrow> bytes \<Rightarrow> bytes" where
  "ccid_frame t slot seq b7 b8 b9 payload =
     [t] @ u32_le (of_nat (length payload)) @ [slot, seq, b7, b8, b9] @ payload"

fun pc_to_rdr_encode :: "pc_to_rdr \<Rightarrow> bytes" where
  "pc_to_rdr_encode (IccPowerOn slot seq p) = ccid_frame 0x62 slot seq p 0 0 []"
| "pc_to_rdr_encode (IccPowerOff slot seq) = ccid_frame 0x63 slot seq 0 0 0 []"
| "pc_to_rdr_encode (GetSlotStatus slot seq) = ccid_frame 0x65 slot seq 0 0 0 []"
| "pc_to_rdr_encode (XfrBlock slot seq apdu) = ccid_frame 0x6F slot seq 0 0 0 apdu"
| "pc_to_rdr_encode (Abort slot seq) = ccid_frame 0x72 slot seq 0 0 0 []"

section \<open>Lemmas\<close>

lemma unat_of_nat_u32: "n < 2 ^ 32 \<Longrightarrow> unat (of_nat n :: u32) = n"
  by (simp add: unat_of_nat)

lemma length_ccid_frame [simp]: "length (ccid_frame t s q a b c p) = HDR_LEN + length p"
  by (simp add: ccid_frame_def)

lemma nth_ccid_frame [simp]:
  "ccid_frame t s q a b c p ! 0 = t" "rd_u32_le (ccid_frame t s q a b c p) (Suc 0) = of_nat (length p)"
  "ccid_frame t s q a b c p ! 5 = s" "ccid_frame t s q a b c p ! 6 = q"
  "ccid_frame t s q a b c p ! 7 = a" "drop HDR_LEN (ccid_frame t s q a b c p) = p"
  by (simp_all add: ccid_frame_def u32_le_def rd_u32_le_def)

lemma push_hdr_Nil:
  "push_hdr [] t n slot seq st = [t] @ u32_le n @ [slot, seq, b_status st, b_error st, b_chain st]"
  by (simp add: push_hdr_def push_lossy_fits u32_le_def)

text \<open>Every frame the reader builds from an APDU response is the ten-byte header and the response.\<close>

lemma rdr_to_pc_data_block_eq:
  "length r \<le> 514 \<Longrightarrow> rdr_to_pc_data_block slot seq st r =
     ccid_frame RDR_TO_PC_DATA_BLOCK slot seq (b_status st) (b_error st) (b_chain st) r"
  by (simp add: rdr_to_pc_data_block_def push_hdr_Nil push_lossy_fits ccid_frame_def)

lemma rdr_to_pc_slot_status_eq:
  "rdr_to_pc_slot_status slot seq st =
     ccid_frame RDR_TO_PC_SLOT_STATUS slot seq (b_status st) (b_error st) (b_chain st) []"
  by (simp add: rdr_to_pc_slot_status_def push_hdr_Nil ccid_frame_def)

lemma rdr_to_pc_parameters_eq:
  "rdr_to_pc_parameters slot seq =
     ccid_frame RDR_TO_PC_PARAMETERS slot seq 0 0 0 atr_openpgp_profile"
  by (simp add: rdr_to_pc_parameters_def push_hdr_Nil push_lossy_fits ccid_frame_def ok_active_def
      atr_openpgp_profile_def)

lemma parse_pc_to_rdr_total_length:
  "parse_pc_to_rdr d = Inr m \<Longrightarrow> length d = HDR_LEN + unat (rd_u32_le d 1)"
  by (simp add: parse_pc_to_rdr_def Let_def split: if_splits)

lemma parse_ccid_frame_long:
  assumes "length p \<le> 512"
  shows "parse_pc_to_rdr (ccid_frame t s q a b c p @ x # xs) = Inl LengthMismatch"
proof -
  have "rd_u32_le (ccid_frame t s q a b c p @ x # xs) (Suc 0) = of_nat (length p)"
    using nth_ccid_frame(2) [of t s q a b c p] by (simp add: rd_u32_le_def nth_append)
  with assms show ?thesis by (simp add: parse_pc_to_rdr_def Let_def unat_of_nat_u32)
qed

section \<open>Properties\<close>

text \<open>
  The parser reads back every host message in its CCID encoding, with APDU payloads of up to
  512 bytes, and refuses the same frame as soon as its length and \<open>dwLength\<close> disagree.
\<close>

theorem parse_pc_to_rdr_roundtrip:
  assumes "case m of XfrBlock s q a \<Rightarrow> length a \<le> 512 | _ \<Rightarrow> True"
  shows "parse_pc_to_rdr (pc_to_rdr_encode m) = Inr m
    \<and> (\<forall>x xs. parse_pc_to_rdr (pc_to_rdr_encode m @ x # xs) = Inl LengthMismatch)"
proof
  show "parse_pc_to_rdr (pc_to_rdr_encode m) = Inr m"
    using assms by (cases m) (simp_all add: parse_pc_to_rdr_def Let_def unat_of_nat_u32)
  show "\<forall>x xs. parse_pc_to_rdr (pc_to_rdr_encode m @ x # xs) = Inl LengthMismatch"
    using assms by (cases m) (simp_all add: parse_ccid_frame_long)
qed

theorem parse_pc_to_rdr_roundtrip_witness:
  "parse_pc_to_rdr (pc_to_rdr_encode (XfrBlock 0 2 [0, 0xA4, 4, 0])) = Inr (XfrBlock 0 2 [0, 0xA4, 4, 0])"
  using parse_pc_to_rdr_roundtrip [of "XfrBlock 0 2 [0, 0xA4, 4, 0]"] by simp

end
