(* ===== verification/Kdf_Policy.thy ===== *)
theory Kdf_Policy
  imports Hal
begin

text \<open>
  Key purposes and HKDF domain separation (\<open>crates/vault/src/kdf_policy.rs\<close>). The \<open>info\<close> octet
  strings are ASCII and kept as strings. HKDF-SHA512 itself is third-party code: \<open>hkdf\<close> takes salt,
  input key material, info and output length, and fails with \<open>None\<close>.
\<close>

datatype key_purpose =
    VaultRootUnwrap | RramBlobWrap | StorageSeal | UsbSession | PinVerifier | OpenPgpSigning
  | KeyAgreement | ShamirRecovery | CamelliaStorage | SerpentStorage | TwofishStorage | RsaKeyWrap
  | SessionLongTermSign | EphemeralSessionPrk | OpenPgpSig | OpenPgpDec | OpenPgpAut
  | OpenPgpAdminPin | OpenPgpCcidMaster | ContactKeyWrap | ContactStoreIntegrity

fun purpose_info :: "key_purpose \<Rightarrow> string" where
  "purpose_info VaultRootUnwrap = ''galdr-v1/vault/root-unwrap''"
| "purpose_info RramBlobWrap = ''galdr-v1/vault/rram-blob-wrap''"
| "purpose_info StorageSeal = ''galdr-v1/vault/storage-seal''"
| "purpose_info UsbSession = ''galdr-v1/vault/usb-session''"
| "purpose_info PinVerifier = ''galdr-v1/vault/pin-verifier''"
| "purpose_info OpenPgpSigning = ''galdr-v1/vault/openpgp-signing''"
| "purpose_info KeyAgreement = ''galdr-v1/vault/key-agreement''"
| "purpose_info ShamirRecovery = ''galdr-v1/vault/shamir-recovery''"
| "purpose_info CamelliaStorage = ''galdralag/camellia/storage/v1''"
| "purpose_info SerpentStorage = ''galdralag/serpent/storage/v1''"
| "purpose_info TwofishStorage = ''galdralag/twofish/storage/v1''"
| "purpose_info RsaKeyWrap = ''galdralag/rsa/key-wrap/v1''"
| "purpose_info SessionLongTermSign = ''galdralag/session/long-term-sign/v1''"
| "purpose_info EphemeralSessionPrk = ''galdralag/session/ephemeral-prk/v1''"
| "purpose_info OpenPgpSig = ''galdralag/openpgp/sig/v1''"
| "purpose_info OpenPgpDec = ''galdralag/openpgp/dec/v1''"
| "purpose_info OpenPgpAut = ''galdralag/openpgp/aut/v1''"
| "purpose_info OpenPgpAdminPin = ''galdralag/openpgp/pw3/v1''"
| "purpose_info OpenPgpCcidMaster = ''galdralag/openpgp/ccid-master/v1''"
| "purpose_info ContactKeyWrap = ''galdralag/contact/key-wrap/v1''"
| "purpose_info ContactStoreIntegrity = ''galdralag/contact/integrity/v1''"

definition derive_subkey_sha512 ::
  "(bytes \<Rightarrow> bytes \<Rightarrow> string \<Rightarrow> nat \<Rightarrow> bytes option) \<Rightarrow> bytes \<Rightarrow> bytes \<Rightarrow> key_purpose \<Rightarrow> nat \<Rightarrow>
   galdr_error + bytes" where
  "derive_subkey_sha512 hkdf ikm salt purpose n =
     ok_or GaldrKeyDerivation (hkdf salt ikm (purpose_info purpose) n)"

text \<open>
  Domain separation: two purposes that are not the same never expand with the same \<open>info\<close>, and
  no \<open>info\<close> is a prefix of another, so no truncation or concatenation of labels confuses them either.
\<close>

theorem purpose_info_prefix_free:
  "(\<exists>rest. purpose_info p @ rest = purpose_info q) \<longleftrightarrow> p = q"
  by (cases p; cases q) simp_all

end
