(* ===== verification/Card.thy ===== *)
theory Card
  imports Apdu Data_Objects Ccid Kdf_Policy
begin

text \<open>
  The OpenPGP card application: session state (\<open>openpgp/state.rs\<close>), the backend interface
  (\<open>openpgp/backend.rs\<close>) and the instruction dispatcher with its CCID front end
  (\<open>openpgp/dispatch.rs\<close>).

  The trait \<open>OpenPgpBackend\<close> is a record of operations over the backend state \<open>'b\<close>; every handler
  takes the record, so all statements here hold for every backend. \<open>Vault_Backend\<close> provides the
  repository's own one.
\<close>

section \<open>Session state\<close>

record card_state =
  pw1_verified_sign :: bool
  pw1_verified_other :: bool
  pw3_verified :: bool
  chain_buffer :: bytes
  response_buffer :: bytes
  response_offset :: nat
  mse_dec_key_ref :: "u8 option"
  mse_sig_key_ref :: "u8 option"
  mse_aut_key_ref :: "u8 option"

definition card_state_new :: card_state where
  "card_state_new = \<lparr>pw1_verified_sign = False, pw1_verified_other = False, pw3_verified = False,
     chain_buffer = [], response_buffer = [], response_offset = 0,
     mse_dec_key_ref = None, mse_sig_key_ref = None, mse_aut_key_ref = None\<rparr>"

definition card_state_reset :: "card_state \<Rightarrow> card_state" where
  "card_state_reset s = s\<lparr>pw1_verified_sign := False, pw1_verified_other := False,
     pw3_verified := False, chain_buffer := [], response_buffer := [], response_offset := 0,
     mse_dec_key_ref := None, mse_sig_key_ref := None, mse_aut_key_ref := None\<rparr>"

definition set_pw1_sign :: "bool \<Rightarrow> card_state \<Rightarrow> card_state" where
  "set_pw1_sign v s = s\<lparr>pw1_verified_sign := v\<rparr>"

definition consume_pw1_sign :: "card_state \<Rightarrow> card_state" where
  "consume_pw1_sign s = s\<lparr>pw1_verified_sign := False\<rparr>"

definition set_pw1_other :: "bool \<Rightarrow> card_state \<Rightarrow> card_state" where
  "set_pw1_other v s = s\<lparr>pw1_verified_other := v\<rparr>"

definition set_pw3 :: "bool \<Rightarrow> card_state \<Rightarrow> card_state" where
  "set_pw3 v s = s\<lparr>pw3_verified := v\<rparr>"

lemmas card_state_defs = card_state_new_def card_state_reset_def set_pw1_sign_def
  consume_pw1_sign_def set_pw1_other_def set_pw3_def

section \<open>Backend interface\<close>

datatype openpgp_key_slot = Sig | Dec | Aut

datatype openpgp_backend_error = Status status_word | HalErr hal_error

fun to_status_word :: "openpgp_backend_error \<Rightarrow> status_word" where
  "to_status_word (Status s) = s"
| "to_status_word (HalErr _) = ExecutionError"

type_synonym 'a backend_result = "openpgp_backend_error + 'a"

record 'b openpgp_backend =
  is_termination_state :: "'b \<Rightarrow> bool"
  aid_bytes :: "'b \<Rightarrow> bytes"
  pw_status_bytes :: "'b \<Rightarrow> bytes"
  user_pin_retries_remaining :: "'b \<Rightarrow> u8"
  admin_pin_retries_remaining :: "'b \<Rightarrow> u8"
  verify_pw1_sign :: "bytes \<Rightarrow> 'b \<Rightarrow> unit backend_result \<times> 'b"
  verify_pw1_other :: "bytes \<Rightarrow> 'b \<Rightarrow> unit backend_result \<times> 'b"
  verify_pw3 :: "bytes \<Rightarrow> 'b \<Rightarrow> unit backend_result \<times> 'b"
  change_pin :: "bool \<Rightarrow> bytes \<Rightarrow> bytes \<Rightarrow> 'b \<Rightarrow> unit backend_result \<times> 'b"
  set_pw1_verifier_admin_only :: "bytes \<Rightarrow> 'b \<Rightarrow> unit backend_result \<times> 'b"
  reset_pw1_retry_counter :: "'b \<Rightarrow> unit backend_result \<times> 'b"
  get_do :: "'b \<Rightarrow> u16 \<Rightarrow> bytes backend_result"
  put_do :: "u16 \<Rightarrow> bytes \<Rightarrow> 'b \<Rightarrow> unit backend_result \<times> 'b"
  algorithm_attributes :: "'b \<Rightarrow> openpgp_key_slot \<Rightarrow> algorithm_attributes"
  pso_sign_hash :: "bytes \<Rightarrow> 'b \<Rightarrow> bytes backend_result \<times> 'b"
  pso_decipher :: "bytes \<Rightarrow> 'b \<Rightarrow> bytes backend_result \<times> 'b"
  ecdh_dec :: "key_purpose \<Rightarrow> bytes \<Rightarrow> 'b \<Rightarrow> bytes backend_result \<times> 'b"
  get_challenge :: "nat \<Rightarrow> 'b \<Rightarrow> bytes backend_result \<times> 'b"
  ed25519_sign :: "key_purpose \<Rightarrow> bytes \<Rightarrow> 'b \<Rightarrow> bytes backend_result \<times> 'b"
  x25519_ecdh :: "key_purpose \<Rightarrow> bytes \<Rightarrow> 'b \<Rightarrow> bytes backend_result \<times> 'b"
  internal_authenticate :: "bytes \<Rightarrow> 'b \<Rightarrow> bytes backend_result \<times> 'b"
  generate_or_read_key :: "u8 \<Rightarrow> openpgp_key_slot \<Rightarrow> 'b \<Rightarrow> bytes backend_result \<times> 'b"
  increment_signature_counter :: "'b \<Rightarrow> unit backend_result \<times> 'b"
  on_lock_disconnect :: "'b \<Rightarrow> 'b"
  log_event :: "u32 \<Rightarrow> 'b \<Rightarrow> 'b"

section \<open>Dispatcher\<close>

definition INS_SELECT :: u8 where "INS_SELECT = 0xA4"
definition INS_VERIFY :: u8 where "INS_VERIFY = 0x20"
definition INS_CHANGE_REFERENCE :: u8 where "INS_CHANGE_REFERENCE = 0x24"
definition INS_PSO :: u8 where "INS_PSO = 0x2A"
definition INS_INTERNAL_AUTH :: u8 where "INS_INTERNAL_AUTH = 0x88"
definition INS_GET_RESPONSE :: u8 where "INS_GET_RESPONSE = 0xC0"
definition INS_GET_DATA :: u8 where "INS_GET_DATA = 0xCA"
definition INS_PUT_DATA :: u8 where "INS_PUT_DATA = 0xDA"
definition INS_PUT_DATA_ODD :: u8 where "INS_PUT_DATA_ODD = 0xDB"
definition INS_GENERATE_KEY :: u8 where "INS_GENERATE_KEY = 0x47"
definition INS_RESET_RETRY_COUNTER :: u8 where "INS_RESET_RETRY_COUNTER = 0x2C"
definition INS_GET_CHALLENGE :: u8 where "INS_GET_CHALLENGE = 0x84"
definition INS_MANAGE_SECURITY_ENVIRONMENT :: u8 where "INS_MANAGE_SECURITY_ENVIRONMENT = 0x22"

lemmas ins_defs = INS_SELECT_def INS_VERIFY_def INS_CHANGE_REFERENCE_def INS_PSO_def
  INS_INTERNAL_AUTH_def INS_GET_RESPONSE_def INS_GET_DATA_def INS_PUT_DATA_def
  INS_PUT_DATA_ODD_def INS_GENERATE_KEY_def INS_RESET_RETRY_COUNTER_def INS_GET_CHALLENGE_def
  INS_MANAGE_SECURITY_ENVIRONMENT_def

definition parse_mse_key_ref :: "bytes \<Rightarrow> u8 option" where
  "parse_mse_key_ref d =
     (if length d \<ge> 3 \<and> d ! 0 = 0x83 \<and> d ! 1 = 0x01 then Some (d ! 2) else None)"

definition map_backend_err :: "openpgp_backend_error \<Rightarrow> response_apdu" where
  "map_backend_err e = rapdu_error (to_status_word e)"

text \<open>The loop that drops trailing \<open>0xFF\<close> bytes, on the length it keeps.\<close>

fun trim_end :: "bytes \<Rightarrow> nat \<Rightarrow> nat" where
  "trim_end buf 0 = 0"
| "trim_end buf (Suc e) = (if buf ! e = 0xFF then trim_end buf e else Suc e)"

definition trim_openpgp_pin_padding :: "bytes \<Rightarrow> bytes" where
  "trim_openpgp_pin_padding buf = take (trim_end buf (length buf)) buf"

definition le_limit :: "command_apdu \<Rightarrow> nat" where
  "le_limit cmd =
     (case le cmd of
        Some l \<Rightarrow> if l = 0 then 256 else unat (min l 512)
      | None \<Rightarrow> 256)"

text \<open>A push sequence into \<open>Vec<u8, 512>\<close> that gives up at the first full push.\<close>

definition encode_tlv :: "u16 \<Rightarrow> bytes \<Rightarrow> bytes \<Rightarrow> unit + bytes" where
  "encode_tlv tag value out =
     ok_or () (push_all 512 out
       ((if tag \<le> 0xFF then [ucast tag] else [ucast (drop_bit 8 tag), ucast tag])
        @ (let len = length value in
           if len \<le> 0x7F then [of_nat len]
           else if len \<le> 0xFF then [0x81, of_nat len]
           else [0x82, of_nat (len div 256), of_nat len])
        @ value))"

type_synonym 'b handler = "command_apdu \<Rightarrow> card_state \<Rightarrow> 'b \<Rightarrow> response_apdu \<times> card_state \<times> 'b"

text \<open>\<open>chunk_response\<close> and \<open>handle_get_response\<close>: responses longer than \<open>Le\<close> are kept and continued.\<close>

definition chunk_response :: "command_apdu \<Rightarrow> card_state \<Rightarrow> bytes \<Rightarrow> response_apdu \<times> card_state" where
  "chunk_response cmd s d =
     (let lim = le_limit cmd in
      if length d \<le> lim then (rapdu_ok d, s)
      else
        let s = s\<lparr>response_buffer := [], response_offset := 0\<rparr>;
            s = s\<lparr>response_buffer := push_lossy 2048 (response_buffer s) d\<rparr>;
            n_take = min (length (response_buffer s)) lim;
            chunk = push_lossy 512 [] (take n_take (response_buffer s));
            s = s\<lparr>response_offset := n_take\<rparr>;
            remaining = length (response_buffer s) - n_take;
            n = (if remaining > 255 then 0xFF else of_nat remaining)
        in (\<lparr>rdata = chunk, rsw1 = sw1_of (MoreDataAvailable n),
             rsw2 = sw2_of (MoreDataAvailable n)\<rparr>, s))"

definition handle_get_response :: "'b openpgp_backend \<Rightarrow> 'b handler" where
  "handle_get_response B cmd s b =
     (let lim = le_limit cmd;
          remaining = length (response_buffer s) - response_offset s in
      if remaining = 0 then (rapdu_error WrongParametersP1P2, s, b)
      else
        let n_take = min remaining lim;
            start = response_offset s in
        case push_all 512 [] (take n_take (drop start (response_buffer s))) of
          None \<Rightarrow> (rapdu_error ExecutionError, s, b)
        | Some chunk \<Rightarrow>
            let s = s\<lparr>response_offset := response_offset s + n_take\<rparr>;
                left = remaining - n_take in
            if left > 0 then
              let n = of_nat (min left 255) in
              (\<lparr>rdata = chunk, rsw1 = sw1_of (MoreDataAvailable n),
                rsw2 = sw2_of (MoreDataAvailable n)\<rparr>, s, b)
            else (rapdu_ok chunk, s\<lparr>response_buffer := [], response_offset := 0\<rparr>, b))"

definition handle_change_reference :: "'b openpgp_backend \<Rightarrow> 'b handler" where
  "handle_change_reference B cmd s b =
     (if p1 cmd \<noteq> 0x00 then (rapdu_error WrongParametersP1P2, s, b)
      else case (if p2 cmd = 0x81 then Some False else if p2 cmd = 0x83 then Some True else None) of
          None \<Rightarrow> (rapdu_error WrongParametersP1P2, s, b)
        | Some pw3 \<Rightarrow>
            let pw = pw_status_bytes B b;
                pin_len = (if pw3 then unat (pw ! 3) else unat (pw ! 1)) in
            if pin_len = 0 \<or> pin_len > 127 then (rapdu_error IncorrectParameters, s, b)
            else
              let total = pin_len * 2 in
              if length (cdata cmd) \<noteq> total then (rapdu_error WrongLength, s, b)
              else
                let old_raw = take pin_len (cdata cmd);
                    new_raw = drop pin_len (cdata cmd);
                    old_pin = trim_openpgp_pin_padding old_raw;
                    new_pin = trim_openpgp_pin_padding new_raw in
                if new_pin = [] then (rapdu_error IncorrectParameters, s, b)
                else case change_pin B pw3 old_pin new_pin b of
                    (Inr _, b1) \<Rightarrow>
                      (rapdu_ok_empty, s, log_event B (0x240000 OR ucast (p2 cmd)) b1)
                  | (Inl e, b1) \<Rightarrow> (map_backend_err e, s, b1))"

definition handle_get_challenge :: "'b openpgp_backend \<Rightarrow> 'b handler" where
  "handle_get_challenge B cmd s b =
     (if p1 cmd \<noteq> 0x00 \<or> p2 cmd \<noteq> 0x00 then (rapdu_error WrongParametersP1P2, s, b)
      else case le cmd of
          None \<Rightarrow> (rapdu_error WrongLength, s, b)
        | Some l \<Rightarrow>
            let n = unat l in
            if n = 0 \<or> n > 64 then (rapdu_error WrongLength, s, b)
            else case get_challenge B n b of
                (Inr bs, b1) \<Rightarrow>
                  (case push_all 512 [] bs of
                     None \<Rightarrow> (rapdu_error ExecutionError, s, b1)
                   | Some out \<Rightarrow> (rapdu_ok out, s, b1))
              | (Inl _, b1) \<Rightarrow> (rapdu_error ExecutionError, s, b1))"

definition handle_manage_security_environment ::
  "command_apdu \<Rightarrow> card_state \<Rightarrow> response_apdu \<times> card_state" where
  "handle_manage_security_environment cmd s =
     (if p1 cmd \<noteq> 0x41 then (rapdu_error ConditionsNotSatisfied, s)
      else case parse_mse_key_ref (cdata cmd) of
          None \<Rightarrow> (rapdu_error IncorrectParameters, s)
        | Some key_ref \<Rightarrow>
            if p2 cmd = 0xB6 then (rapdu_ok_empty, s\<lparr>mse_sig_key_ref := Some key_ref\<rparr>)
            else if p2 cmd = 0xB8 then (rapdu_ok_empty, s\<lparr>mse_dec_key_ref := Some key_ref\<rparr>)
            else if p2 cmd = 0xA4 then (rapdu_ok_empty, s\<lparr>mse_aut_key_ref := Some key_ref\<rparr>)
            else (rapdu_error WrongParametersP1P2, s))"

definition handle_reset_retry_counter :: "'b openpgp_backend \<Rightarrow> 'b handler" where
  "handle_reset_retry_counter B cmd s b =
     (if p1 cmd = 0x02 then (rapdu_error ReferenceDataNotFound, s, b)
      else if p1 cmd \<noteq> 0x00 \<or> p2 cmd \<noteq> 0x81 then (rapdu_error WrongParametersP1P2, s, b)
      else if \<not> pw3_verified s then (rapdu_error SecurityStatusNotSatisfied, s, b)
      else
        let pw = pw_status_bytes B b;
            max_len = unat (pw ! 1) in
        if max_len = 0 \<or> max_len > 127 then (rapdu_error IncorrectParameters, s, b)
        else
          let new_pin = trim_openpgp_pin_padding (cdata cmd) in
          if new_pin = [] \<or> length new_pin > max_len then (rapdu_error WrongLength, s, b)
          else case set_pw1_verifier_admin_only B new_pin b of
              (Inl e, b1) \<Rightarrow> (map_backend_err e, s, b1)
            | (Inr _, b1) \<Rightarrow>
                (case reset_pw1_retry_counter B b1 of
                   (Inr _, b2) \<Rightarrow> (rapdu_ok_empty, s, log_event B 0x2C0081 b2)
                 | (Inl e, b2) \<Rightarrow> (map_backend_err e, s, b2)))"

definition handle_select :: "'b openpgp_backend \<Rightarrow> 'b handler" where
  "handle_select B cmd s b =
     (if p1 cmd \<noteq> 0x04 \<or> (p2 cmd \<noteq> 0x00 \<and> p2 cmd \<noteq> 0x04) then (rapdu_error WrongParametersP1P2, s, b)
      else if \<not> aid_matches_openpgp (cdata cmd) then (rapdu_error FileNotFound, s, b)
      else (rapdu_ok_empty, s, log_event B 0xA40001 b))"

definition handle_verify :: "'b openpgp_backend \<Rightarrow> 'b handler" where
  "handle_verify B cmd s b =
     (case (if p2 cmd = 0x81 then Some (verify_pw1_sign B (cdata cmd) b)
            else if p2 cmd = 0x82 then Some (verify_pw1_other B (cdata cmd) b)
            else if p2 cmd = 0x83 then Some (verify_pw3 B (cdata cmd) b)
            else None) of
        None \<Rightarrow> (rapdu_error WrongParametersP1P2, s, b)
      | Some (Inr _, b1) \<Rightarrow>
          (rapdu_ok_empty,
           (if p2 cmd = 0x81 then set_pw1_sign True s
            else if p2 cmd = 0x82 then set_pw1_other True s
            else if p2 cmd = 0x83 then set_pw3 True s
            else s),
           log_event B (0x200000 OR ucast (p2 cmd)) b1)
      | Some (Inl (Status sw), b1) \<Rightarrow> (rapdu_error sw, s, b1)
      | Some (Inl e, b1) \<Rightarrow> (map_backend_err e, s, b1))"

definition tlv_step :: "u16 \<Rightarrow> bytes \<Rightarrow> bytes \<Rightarrow> bytes backend_result" where
  "tlv_step tag value out = map_err (\<lambda>_. Status ExecutionError) (encode_tlv tag value out)"

definition do_tag :: "'b openpgp_backend \<Rightarrow> u16 \<Rightarrow> 'b \<Rightarrow> bytes backend_result" where
  "do_tag B tag b =
     (if tag = 0x004F then ok_or (Status ExecutionError) (push_all 512 [] (aid_bytes B b))
      else if tag = 0x6E then
        res_bind (tlv_step 0x4F (aid_bytes B b) []) (\<lambda>buf.
        res_bind (tlv_step 0xC0 extended_capabilities_default buf) (\<lambda>buf.
        tlv_step 0x5F52 atr_openpgp_profile buf))
      else if tag = 0x65 then
        res_bind (get_do B b 0x5B) (\<lambda>name.
        res_bind (get_do B b 0x5F2D) (\<lambda>lang.
        res_bind (get_do B b 0x5F35) (\<lambda>sex.
        res_bind (tlv_step 0x5B name []) (\<lambda>buf.
        res_bind (tlv_step 0x5F2D lang buf) (\<lambda>buf.
        res_bind (tlv_step 0x5F35 sex buf) (\<lambda>buf.
        tlv_step 0x65 buf []))))))
      else if tag = 0x7A then
        res_bind (get_do B b 0x93) (\<lambda>ctr.
        res_bind (tlv_step 0x93 ctr []) (\<lambda>buf.
        tlv_step 0x7A buf []))
      else get_do B b tag)"

text \<open>The end of a handler that answers with data: split into chunks as \<open>Le\<close> asks.\<close>

definition chunked ::
  "command_apdu \<Rightarrow> card_state \<Rightarrow> bytes \<Rightarrow> 'b \<Rightarrow> response_apdu \<times> card_state \<times> 'b" where
  "chunked cmd s d b = (case chunk_response cmd s d of (r, s1) \<Rightarrow> (r, s1, b))"

definition p1p2_tag :: "command_apdu \<Rightarrow> u16" where
  "p1p2_tag cmd = push_bit 8 (ucast (p1 cmd)) OR ucast (p2 cmd)"

definition handle_get_data :: "'b openpgp_backend \<Rightarrow> 'b handler" where
  "handle_get_data B cmd s b =
     (case do_tag B (p1p2_tag cmd) b of
        Inr d \<Rightarrow> chunked cmd s d b
      | Inl e \<Rightarrow> (map_backend_err e, s, b))"

definition put_requires_pw3 :: "u16 \<Rightarrow> bool" where
  "put_requires_pw3 tag \<longleftrightarrow>
     tag \<in> {0x5B, 0x5F2D, 0x5F35, 0x5E, 0x5F50, 0xC1, 0xC2, 0xC3, 0xC4, 0x7F21}
     \<or> (0xC7 \<le> tag \<and> tag \<le> 0xCE) \<or> (0xD1 \<le> tag \<and> tag \<le> 0xD3) \<or> tag = 0xF4"

definition put_allowed :: "card_state \<Rightarrow> u16 \<Rightarrow> bool" where
  "put_allowed s tag =
     (if 0x0101 \<le> tag \<and> tag \<le> 0x0104 then pw1_verified_other s
      else if put_requires_pw3 tag then pw3_verified s
      else pw3_verified s)"

definition handle_put_data :: "'b openpgp_backend \<Rightarrow> 'b handler" where
  "handle_put_data B cmd s b =
     (let tag = p1p2_tag cmd in
      if \<not> put_allowed s tag then (rapdu_error SecurityStatusNotSatisfied, s, b)
      else case put_do B tag (cdata cmd) b of
          (Inr _, b1) \<Rightarrow> (rapdu_ok_empty, s, log_event B (0xDA0000 OR ucast tag) b1)
        | (Inl e, b1) \<Rightarrow> (map_backend_err e, s, b1))"

definition slot_from_p2 :: "u8 \<Rightarrow> openpgp_key_slot option" where
  "slot_from_p2 p =
     (if p = 0xB6 then Some Sig else if p = 0xB8 then Some Dec else if p = 0xA4 then Some Aut
      else None)"

text \<open>
  The signature computation of PSO:CDS: \<open>Inl\<close> is the response of an early return. The Ed25519
  signature is copied into the 512-byte response vector.
\<close>

definition pso_cds_sign ::
  "'b openpgp_backend \<Rightarrow> bytes \<Rightarrow> 'b \<Rightarrow> (response_apdu + bytes) \<times> 'b" where
  "pso_cds_sign B hash b =
     (case algorithm_attributes B b Sig of
        Ecdsa _ \<Rightarrow>
          (case pso_sign_hash B hash b of
             (Inr sig, b1) \<Rightarrow> (Inr sig, b1)
           | (Inl e, b1) \<Rightarrow> (Inl (map_backend_err e), b1))
      | EdDsa curve_oid \<Rightarrow>
          if curve_oid = ED25519 then
            (case ed25519_sign B OpenPgpSig hash b of
               (Inr sig, b1) \<Rightarrow> (ok_or (rapdu_error ExecutionError) (push_all 512 [] sig), b1)
             | (Inl e, b1) \<Rightarrow> (Inl (map_backend_err e), b1))
          else (Inl (rapdu_error ConditionsNotSatisfied), b)
      | _ \<Rightarrow> (Inl (rapdu_error ConditionsNotSatisfied), b))"

definition pso_decipher_run ::
  "'b openpgp_backend \<Rightarrow> bytes \<Rightarrow> 'b \<Rightarrow> (response_apdu + bytes) \<times> 'b" where
  "pso_decipher_run B d b =
     (case parse_ecdh_peer_public_key d of
        Some peer \<Rightarrow>
          (let b = log_event B 0x2A8086 b in
           case algorithm_attributes B b Dec of
             Ecdh curve_oid \<Rightarrow>
               (case (if curve_oid = CURVE25519 then x25519_ecdh B OpenPgpDec peer b
                      else ecdh_dec B OpenPgpDec peer b) of
                  (Inr shared, b1) \<Rightarrow> (ok_or (rapdu_error ExecutionError) (push_all 512 [] shared), b1)
                | (Inl e, b1) \<Rightarrow> (Inl (map_backend_err e), b1))
           | _ \<Rightarrow> (Inl (rapdu_error ConditionsNotSatisfied), b))
      | None \<Rightarrow>
          (case pso_decipher B d (log_event B 0x2A8086 b) of
             (Inr out, b1) \<Rightarrow> (Inr out, b1)
           | (Inl e, b1) \<Rightarrow> (Inl (map_backend_err e), b1)))"

definition handle_pso :: "'b openpgp_backend \<Rightarrow> 'b handler" where
  "handle_pso B cmd s b =
     (if p1 cmd = 0x9E \<and> p2 cmd = 0x9A then
        if \<not> pw1_verified_sign s then (rapdu_error SecurityStatusNotSatisfied, s, b)
        else case pso_cds_sign B (cdata cmd) b of
            (Inl r, b1) \<Rightarrow> (r, s, b1)
          | (Inr sig, b1) \<Rightarrow>
              (case increment_signature_counter B b1 of
                 (Inl e, b2) \<Rightarrow> (map_backend_err e, s, b2)
               | (Inr _, b2) \<Rightarrow>
                   chunked cmd (consume_pw1_sign s) sig (log_event B 0x2A9E9A b2))
      else if p1 cmd = 0x80 \<and> p2 cmd = 0x86 then
        if \<not> pw1_verified_other s then (rapdu_error SecurityStatusNotSatisfied, s, b)
        else case pso_decipher_run B (cdata cmd) b of
            (Inl r, b1) \<Rightarrow> (r, s, b1)
          | (Inr out, b1) \<Rightarrow> chunked cmd s out b1
      else (rapdu_error WrongParametersP1P2, s, b))"

definition handle_internal_auth :: "'b openpgp_backend \<Rightarrow> 'b handler" where
  "handle_internal_auth B cmd s b =
     (if \<not> pw1_verified_other s then (rapdu_error SecurityStatusNotSatisfied, s, b)
      else case internal_authenticate B (cdata cmd) b of
          (Inr out, b1) \<Rightarrow> chunked cmd s out (log_event B 0x880000 b1)
        | (Inl e, b1) \<Rightarrow> (map_backend_err e, s, b1))"

definition handle_generate :: "'b openpgp_backend \<Rightarrow> 'b handler" where
  "handle_generate B cmd s b =
     (case slot_from_p2 (p2 cmd) of
        None \<Rightarrow> (rapdu_error WrongParametersP1P2, s, b)
      | Some slot \<Rightarrow>
          if p1 cmd = 0x80 \<and> \<not> pw3_verified s then (rapdu_error SecurityStatusNotSatisfied, s, b)
          else case generate_or_read_key B (p1 cmd) slot b of
              (Inr out, b1) \<Rightarrow>
                chunked cmd s out
                  (if p1 cmd = 0x80 then log_event B (0x470000 OR ucast (p2 cmd)) b1 else b1)
            | (Inl e, b1) \<Rightarrow> (map_backend_err e, s, b1))"

definition handle_apdu :: "'b openpgp_backend \<Rightarrow> 'b handler" where
  "handle_apdu B cmd s b =
     (if is_termination_state B b then
        (if ins cmd = INS_VERIFY then (rapdu_error AuthMethodBlocked, s, b)
         else (rapdu_error TerminationState, s, b))
      else if ins cmd = INS_GET_RESPONSE then handle_get_response B cmd s b
      else if ins cmd = INS_SELECT then handle_select B cmd s b
      else if ins cmd = INS_VERIFY then handle_verify B cmd s b
      else if ins cmd = INS_GET_DATA then handle_get_data B cmd s b
      else if ins cmd = INS_PUT_DATA \<or> ins cmd = INS_PUT_DATA_ODD then handle_put_data B cmd s b
      else if ins cmd = INS_PSO then handle_pso B cmd s b
      else if ins cmd = INS_INTERNAL_AUTH then handle_internal_auth B cmd s b
      else if ins cmd = INS_GENERATE_KEY then handle_generate B cmd s b
      else if ins cmd = INS_CHANGE_REFERENCE then handle_change_reference B cmd s b
      else if ins cmd = INS_RESET_RETRY_COUNTER then handle_reset_retry_counter B cmd s b
      else if ins cmd = INS_GET_CHALLENGE then handle_get_challenge B cmd s b
      else if ins cmd = INS_MANAGE_SECURITY_ENVIRONMENT then
        (case handle_manage_security_environment cmd s of (r, s1) \<Rightarrow> (r, s1, b))
      else (rapdu_error InstructionNotSupported, s, b))"

section \<open>CCID dispatcher\<close>

record 'b dispatcher =
  dstate :: card_state
  dbackend :: 'b

definition dispatcher_new :: "'b \<Rightarrow> 'b dispatcher" where
  "dispatcher_new b = \<lparr>dstate = card_state_new, dbackend = b\<rparr>"

fun handle_ccid :: "'b openpgp_backend \<Rightarrow> pc_to_rdr \<Rightarrow> 'b dispatcher \<Rightarrow> bytes \<times> 'b dispatcher" where
  "handle_ccid B (IccPowerOn slot seq _) d = (rdr_to_pc_parameters slot seq, d)"
| "handle_ccid B (IccPowerOff slot seq) d =
     (rdr_to_pc_slot_status slot seq ok_active, d\<lparr>dstate := card_state_reset (dstate d)\<rparr>)"
| "handle_ccid B (GetSlotStatus slot seq) d = (rdr_to_pc_slot_status slot seq ok_active, d)"
| "handle_ccid B (XfrBlock slot seq apdu) d =
     (case CommandApdu_parse apdu of
        Inr cmd \<Rightarrow>
          (case handle_apdu B cmd (dstate d) (dbackend d) of
             (resp, s1, b1) \<Rightarrow>
               (rdr_to_pc_data_block slot seq ok_active (rapdu_to_bytes resp),
                d\<lparr>dstate := s1, dbackend := b1\<rparr>))
      | Inl _ \<Rightarrow> (rdr_to_pc_slot_status slot seq cmd_not_supported, d))"
| "handle_ccid B (Abort slot seq) d =
     (rdr_to_pc_slot_status slot seq ok_active, d\<lparr>dstate := card_state_reset (dstate d)\<rparr>)"

definition on_usb_reset :: "'b openpgp_backend \<Rightarrow> 'b dispatcher \<Rightarrow> 'b dispatcher" where
  "on_usb_reset B d =
     d\<lparr>dstate := card_state_reset (dstate d), dbackend := on_lock_disconnect B (dbackend d)\<rparr>"

section \<open>Response chunking\<close>

lemma le_limit_bounds: "1 \<le> le_limit cmd" "le_limit cmd \<le> 512"
proof -
  have "1 \<le> unat (min l 512) \<and> unat (min l 512) \<le> 512" if "l \<noteq> 0" for l :: u16
  proof (cases "l \<le> 512")
    case True
    with that show ?thesis
      by (simp add: min_def word_le_nat_alt) (metis Suc_leI gr0I unat_eq_zero)
  next
    case False
    then show ?thesis by (simp add: min_def)
  qed
  then show "1 \<le> le_limit cmd" "le_limit cmd \<le> 512"
    by (auto simp: le_limit_def split: option.split)
qed

lemma chunk_response_long:
  assumes "le_limit cmd < length d" and "length d \<le> 512"
  shows "\<exists>n. chunk_response cmd s d =
    (\<lparr>rdata = take (le_limit cmd) d, rsw1 = 0x61, rsw2 = n\<rparr>,
     s\<lparr>response_buffer := d, response_offset := le_limit cmd\<rparr>)"
  using assms by (simp add: chunk_response_def Let_def)

lemma chunk_response_short:
  "length d \<le> le_limit cmd \<Longrightarrow> chunk_response cmd s d = (rapdu_ok d, s)"
  by (simp add: chunk_response_def Let_def)

lemma chunk_response_flags:
  assumes "chunk_response cmd s d = (r, s')"
  shows "pw1_verified_sign s' = pw1_verified_sign s" "pw1_verified_other s' = pw1_verified_other s"
    "pw3_verified s' = pw3_verified s"
  using assms by (auto simp: chunk_response_def Let_def split: if_splits)

lemma chunk_response_size:
  assumes "chunk_response cmd s d = (r, s')" and "length d \<le> 512"
  shows "length (rdata r) \<le> 512"
proof (cases "length d \<le> le_limit cmd")
  case True
  with assms show ?thesis by (auto simp: chunk_response_short rapdu_ok_def)
next
  case False
  with assms chunk_response_long [of cmd d s] show ?thesis by auto
qed

text \<open>One GET RESPONSE delivers the next \<open>Le\<close> bytes of the buffer.\<close>

lemma get_response_step:
  assumes "response_offset s < length (response_buffer s)"
  shows "rdata (fst (handle_get_response B cmd s b)) =
      take (le_limit cmd) (drop (response_offset s) (response_buffer s))"
    and "fst (snd (handle_get_response B cmd s b)) =
      (if response_offset s + le_limit cmd < length (response_buffer s)
       then s\<lparr>response_offset := response_offset s + le_limit cmd\<rparr>
       else s\<lparr>response_buffer := [], response_offset := 0\<rparr>)"
  using assms le_limit_bounds [of cmd]
  by (auto simp: handle_get_response_def Let_def rapdu_ok_def min_def)

lemma get_response_done:
  "length (response_buffer s) \<le> response_offset s \<Longrightarrow>
   handle_get_response B cmd s b = (rapdu_error WrongParametersP1P2, s, b)"
  by (simp add: handle_get_response_def)

text \<open>A sequence of GET RESPONSE commands, with the data of each reply.\<close>

fun get_responses :: "'b openpgp_backend \<Rightarrow> command_apdu list \<Rightarrow> card_state \<Rightarrow> 'b \<Rightarrow> bytes list" where
  "get_responses B [] s b = []"
| "get_responses B (c # cs) s b =
     (case handle_get_response B c s b of (r, s1, b1) \<Rightarrow> rdata r # get_responses B cs s1 b1)"

lemma get_responses_exhausted:
  "length (response_buffer s) \<le> response_offset s \<Longrightarrow> concat (get_responses B cs s b) = []"
  by (induction cs) (simp_all add: get_response_done rapdu_error_def)

lemma get_responses_drain:
  "response_offset s \<le> length (response_buffer s) \<Longrightarrow>
   concat (get_responses B cs s b) =
     take (sum_list (map le_limit cs)) (drop (response_offset s) (response_buffer s))"
proof (induction cs arbitrary: s b)
  case (Cons c cs)
  show ?case
  proof (cases "response_offset s < length (response_buffer s)")
    case False
    then have "concat (get_responses B (c # cs) s b) = []"
      by (intro get_responses_exhausted) simp
    with False show ?thesis by simp
  next
    case True
    obtain r s1 b1 where h: "handle_get_response B c s b = (r, s1, b1)"
      by (cases "handle_get_response B c s b")
    note step = get_response_step [OF True, of B c b, unfolded h fst_conv snd_conv]
    show ?thesis
    proof (cases "response_offset s + le_limit c < length (response_buffer s)")
      case more: True
      with step(2) have s1: "s1 = s\<lparr>response_offset := response_offset s + le_limit c\<rparr>" by simp
      have "concat (get_responses B cs s1 b1) =
          take (sum_list (map le_limit cs)) (drop (le_limit c + response_offset s) (response_buffer s))"
        using Cons.IH [of s1 b1] more by (simp add: s1 add.commute)
      with h step(1) show ?thesis by (simp add: take_add)
    next
      case False
      with step(2) have "s1 = s\<lparr>response_buffer := [], response_offset := 0\<rparr>" by simp
      then have "concat (get_responses B cs s1 b1) = []"
        by (intro get_responses_exhausted) simp
      with h step(1) False show ?thesis by simp
    qed
  qed
qed simp

section \<open>Session flags\<close>

text \<open>The verification a VERIFY command with a given P2 asks of the backend.\<close>

definition backend_verify ::
  "'b openpgp_backend \<Rightarrow> u8 \<Rightarrow> bytes \<Rightarrow> 'b \<Rightarrow> unit backend_result \<times> 'b" where
  "backend_verify B p =
     (if p = 0x81 then verify_pw1_sign B else if p = 0x82 then verify_pw1_other B else verify_pw3 B)"

definition session_flags :: "card_state \<Rightarrow> bool \<times> bool \<times> bool" where
  "session_flags s = (pw1_verified_sign s, pw1_verified_other s, pw3_verified s)"

lemma session_flags_simps [simp]:
  "session_flags (s\<lparr>response_buffer := x\<rparr>) = session_flags s"
  "session_flags (s\<lparr>response_offset := n\<rparr>) = session_flags s"
  "session_flags (s\<lparr>mse_sig_key_ref := k\<rparr>) = session_flags s"
  "session_flags (s\<lparr>mse_dec_key_ref := k\<rparr>) = session_flags s"
  "session_flags (s\<lparr>mse_aut_key_ref := k\<rparr>) = session_flags s"
  "session_flags (card_state_reset s) = (False, False, False)"
  "session_flags card_state_new = (False, False, False)"
  by (simp_all add: session_flags_def card_state_defs)

lemma chunked_flags [simp]: "session_flags (fst (snd (chunked cmd s d b))) = session_flags s"
  using chunk_response_flags [of cmd s d]
  by (cases "chunk_response cmd s d") (simp add: chunked_def session_flags_def)

lemma chunked_backend [simp]: "snd (snd (chunked cmd s d b)) = b"
  by (cases "chunk_response cmd s d") (simp add: chunked_def)

lemma handler_flags:
  "session_flags (fst (snd (handle_get_response B cmd s b))) = session_flags s"
  "session_flags (fst (snd (handle_select B cmd s b))) = session_flags s"
  "session_flags (fst (snd (handle_get_data B cmd s b))) = session_flags s"
  "session_flags (fst (snd (handle_put_data B cmd s b))) = session_flags s"
  "session_flags (fst (snd (handle_internal_auth B cmd s b))) = session_flags s"
  "session_flags (fst (snd (handle_generate B cmd s b))) = session_flags s"
  "session_flags (fst (snd (handle_change_reference B cmd s b))) = session_flags s"
  "session_flags (fst (snd (handle_reset_retry_counter B cmd s b))) = session_flags s"
  "session_flags (fst (snd (handle_get_challenge B cmd s b))) = session_flags s"
  "session_flags (snd (handle_manage_security_environment cmd s)) = session_flags s"
  by (simp_all add: handle_get_response_def handle_select_def handle_get_data_def
      handle_put_data_def handle_internal_auth_def handle_generate_def handle_change_reference_def
      handle_reset_retry_counter_def handle_get_challenge_def
      handle_manage_security_environment_def Let_def
      split: option.split sum.split prod.split)

text \<open>PSO:CDS releases a signature: it was authorised, computed and counted.\<close>

definition pso_releases :: "'b openpgp_backend \<Rightarrow> command_apdu \<Rightarrow> card_state \<Rightarrow> 'b \<Rightarrow> bool" where
  "pso_releases B cmd s b \<longleftrightarrow>
     ins cmd = INS_PSO \<and> p1 cmd = 0x9E \<and> p2 cmd = 0x9A \<and> pw1_verified_sign s
     \<and> (\<exists>sig b1. pso_cds_sign B (cdata cmd) b = (Inr sig, b1)
          \<and> (\<exists>u b2. increment_signature_counter B b1 = (Inr u, b2)))"

lemma pso_flags:
  "session_flags (fst (snd (handle_pso B cmd s b))) =
     (if p1 cmd = 0x9E \<and> p2 cmd = 0x9A \<and> pw1_verified_sign s
        \<and> (\<exists>sig b1. pso_cds_sign B (cdata cmd) b = (Inr sig, b1)
          \<and> (\<exists>u b2. increment_signature_counter B b1 = (Inr u, b2)))
      then session_flags (consume_pw1_sign s) else session_flags s)"
  by (auto simp: handle_pso_def split: prod.splits sum.splits)

lemma verify_flags:
  "session_flags (fst (snd (handle_verify B cmd s b))) =
     (if p2 cmd \<in> {0x81, 0x82, 0x83} \<and> (\<exists>u b1. backend_verify B (p2 cmd) (cdata cmd) b = (Inr u, b1))
      then (pw1_verified_sign s \<or> p2 cmd = 0x81, pw1_verified_other s \<or> p2 cmd = 0x82,
            pw3_verified s \<or> p2 cmd = 0x83)
      else session_flags s)"
  by (auto simp: handle_verify_def backend_verify_def session_flags_def card_state_defs
      split: prod.splits sum.splits openpgp_backend_error.splits)

text \<open>What one command APDU does to the three flags, for any backend.\<close>

definition verify_succeeds :: "'b openpgp_backend \<Rightarrow> u8 \<Rightarrow> command_apdu \<Rightarrow> 'b \<Rightarrow> bool" where
  "verify_succeeds B p cmd b \<longleftrightarrow>
     \<not> is_termination_state B b \<and> ins cmd = INS_VERIFY \<and> p2 cmd = p
     \<and> (\<exists>u b1. backend_verify B p (cdata cmd) b = (Inr u, b1))"

lemma handle_apdu_other_flags:
  assumes "ins cmd \<noteq> INS_VERIFY" and "ins cmd \<noteq> INS_PSO"
  shows "session_flags (fst (snd (handle_apdu B cmd s b))) = session_flags s"
  using assms handler_flags(10) [of cmd s]
  by (cases "handle_manage_security_environment cmd s") (simp add: handle_apdu_def handler_flags)

lemma handle_apdu_flags:
  assumes "handle_apdu B cmd s b = (r, s', b')"
  shows "session_flags s' =
    ((pw1_verified_sign s \<or> verify_succeeds B 0x81 cmd b)
       \<and> \<not> (\<not> is_termination_state B b \<and> pso_releases B cmd s b),
     pw1_verified_other s \<or> verify_succeeds B 0x82 cmd b,
     pw3_verified s \<or> verify_succeeds B 0x83 cmd b)"
proof -
  have s': "s' = fst (snd (handle_apdu B cmd s b))" using assms by simp
  consider "is_termination_state B b" | "\<not> is_termination_state B b" "ins cmd = INS_VERIFY"
    | "\<not> is_termination_state B b" "ins cmd = INS_PSO"
    | "ins cmd \<noteq> INS_VERIFY" "ins cmd \<noteq> INS_PSO" by blast
  then show ?thesis
  proof cases
    case 1
    then show ?thesis
      by (simp add: s' handle_apdu_def verify_succeeds_def session_flags_def)
  next
    case 2
    then have "handle_apdu B cmd s b = handle_verify B cmd s b"
      by (simp add: handle_apdu_def ins_defs)
    with 2 verify_flags [of B cmd s b] show ?thesis
      by (auto simp: s' verify_succeeds_def pso_releases_def ins_defs session_flags_def)
  next
    case 3
    then have "handle_apdu B cmd s b = handle_pso B cmd s b"
      by (simp add: handle_apdu_def ins_defs)
    with 3 pso_flags [of B cmd s b] show ?thesis
      by (auto simp: s' verify_succeeds_def pso_releases_def ins_defs session_flags_def
          consume_pw1_sign_def)
  next
    case 4
    then show ?thesis
      using handle_apdu_other_flags [of cmd B s b]
      by (simp add: s' verify_succeeds_def pso_releases_def session_flags_def)
  qed
qed

section \<open>Runs of the card\<close>

text \<open>What reaches the dispatcher: a parsed host message or a USB bus reset.\<close>

datatype host_event = HostMsg pc_to_rdr | UsbReset

fun dispatch_event :: "'b openpgp_backend \<Rightarrow> host_event \<Rightarrow> 'b dispatcher \<Rightarrow> 'b dispatcher" where
  "dispatch_event B (HostMsg m) d = snd (handle_ccid B m d)"
| "dispatch_event B UsbReset d = on_usb_reset B d"

text \<open>\<open>card_run B d evs d'\<close>: the events \<open>evs\<close>, in order, lead the dispatcher from \<open>d\<close> to \<open>d'\<close>.\<close>

inductive card_run ::
  "'b openpgp_backend \<Rightarrow> 'b dispatcher \<Rightarrow> host_event list \<Rightarrow> 'b dispatcher \<Rightarrow> bool"
  for B d where
  start: "card_run B d [] d"
| step: "card_run B d evs d1 \<Longrightarrow> card_run B d (evs @ [e]) (dispatch_event B e d1)"

inductive_cases card_run_NilE: "card_run B d [] d'"

text \<open>The command an event carries, and the events that end the session.\<close>

fun event_command :: "host_event \<Rightarrow> command_apdu option" where
  "event_command (HostMsg (XfrBlock slot seq apdu)) =
     (case CommandApdu_parse apdu of Inl _ \<Rightarrow> None | Inr cmd \<Rightarrow> Some cmd)"
| "event_command _ = None"

fun event_resets :: "host_event \<Rightarrow> bool" where
  "event_resets (HostMsg (IccPowerOff _ _)) = True"
| "event_resets (HostMsg (Abort _ _)) = True"
| "event_resets UsbReset = True"
| "event_resets _ = False"

definition event_verifies :: "'b openpgp_backend \<Rightarrow> u8 \<Rightarrow> 'b dispatcher \<Rightarrow> host_event \<Rightarrow> bool" where
  "event_verifies B p d e \<longleftrightarrow>
     (case event_command e of None \<Rightarrow> False | Some cmd \<Rightarrow> verify_succeeds B p cmd (dbackend d))"

definition event_signs :: "'b openpgp_backend \<Rightarrow> 'b dispatcher \<Rightarrow> host_event \<Rightarrow> bool" where
  "event_signs B d e \<longleftrightarrow>
     (case event_command e of
        None \<Rightarrow> False
      | Some cmd \<Rightarrow> \<not> is_termination_state B (dbackend d) \<and> pso_releases B cmd (dstate d) (dbackend d))"

lemma dispatch_event_flags:
  "session_flags (dstate (dispatch_event B e d)) =
    (if event_resets e then (False, False, False)
     else ((pw1_verified_sign (dstate d) \<or> event_verifies B 0x81 d e) \<and> \<not> event_signs B d e,
           pw1_verified_other (dstate d) \<or> event_verifies B 0x82 d e,
           pw3_verified (dstate d) \<or> event_verifies B 0x83 d e))"
proof (cases "event_command e")
  case None
  then have "(event_resets e \<longrightarrow> dstate (dispatch_event B e d) = card_state_reset (dstate d))
      \<and> (\<not> event_resets e \<longrightarrow> dstate (dispatch_event B e d) = dstate d)"
    by (cases e rule: event_command.cases)
      (auto simp: on_usb_reset_def split: sum.splits)
  with None show ?thesis
    by (auto simp: event_verifies_def event_signs_def session_flags_def card_state_defs)
next
  case (Some cmd)
  then obtain slot seq apdu where e: "e = HostMsg (XfrBlock slot seq apdu)"
    and p: "CommandApdu_parse apdu = Inr cmd"
    by (cases e rule: event_command.cases) (auto split: sum.splits)
  obtain r s1 b1 where h: "handle_apdu B cmd (dstate d) (dbackend d) = (r, s1, b1)"
    by (cases "handle_apdu B cmd (dstate d) (dbackend d)")
  from handle_apdu_flags [OF h] e p h show ?thesis
    by (simp add: event_verifies_def event_signs_def)
qed

end
