(* ===== verification/Key_Vault.thy ===== *)
theory Key_Vault
  imports Hal Kdf_Policy
begin

text \<open>
  Key storage of \<open>crates/vault\<close>: AEAD-sealed private scalars (\<open>sealed_key.rs\<close>), the fixed RRAM
  offsets (\<open>layout.rs\<close>), the public-key table (\<open>public_key_vault.rs\<close>) and the BrainpoolP256r1
  wrappers (\<open>brainpool.rs\<close>, \<open>ecdsa_brainpool.rs\<close>).

  The third-party primitives are the fields of \<open>crypto_lib\<close>. A key object of one of those libraries
  is represented by the secret bytes it encodes to.
\<close>

section \<open>Third-party primitives\<close>

record crypto_lib =
  sha256 :: "bytes \<Rightarrow> bytes"
  hkdf_sha256 :: "bytes \<Rightarrow> bytes \<Rightarrow> bytes \<Rightarrow> nat \<Rightarrow> bytes option"
  gcm_encrypt :: "bytes \<Rightarrow> bytes \<Rightarrow> bytes \<Rightarrow> bytes \<Rightarrow> bytes option"
  gcm_decrypt :: "bytes \<Rightarrow> bytes \<Rightarrow> bytes \<Rightarrow> bytes \<Rightarrow> bytes option"
  bp_from_slice :: "bytes \<Rightarrow> bytes option"
  bp_public_point :: "bytes \<Rightarrow> bytes"
  bp_sign_prehash :: "bytes \<Rightarrow> bytes \<Rightarrow> bytes option"
  bp_dh :: "bytes \<Rightarrow> bytes \<Rightarrow> bytes"
  sec1_parse :: "bytes \<Rightarrow> bytes option"
  sec1_is_identity :: "bytes \<Rightarrow> bool"
  sec1_to_public :: "bytes \<Rightarrow> bytes option"
  public_is_identity :: "bytes \<Rightarrow> bool"
  public_to_sec1_compressed :: "bytes \<Rightarrow> bytes"
  ed25519_public :: "bytes \<Rightarrow> bytes"
  ed25519_sign_msg :: "bytes \<Rightarrow> bytes \<Rightarrow> bytes"
  x25519_public :: "bytes \<Rightarrow> bytes"
  x25519_dh :: "bytes \<Rightarrow> bytes \<Rightarrow> bytes"

section \<open>Layout\<close>

abbreviation PUBLIC_KEY_SLOT_BYTES :: nat where "PUBLIC_KEY_SLOT_BYTES \<equiv> 2048"
abbreviation PUBLIC_KEY_REGION_BASE :: nat where "PUBLIC_KEY_REGION_BASE \<equiv> 256"
definition PUBLIC_KEY_TABLE_BYTES :: nat where "PUBLIC_KEY_TABLE_BYTES = 64 * 1024"
abbreviation SEALED_BLOB_BYTES :: nat where "SEALED_BLOB_BYTES \<equiv> 93"
definition SEALED_SIG_OFFSET :: nat where
  "SEALED_SIG_OFFSET = PUBLIC_KEY_REGION_BASE + PUBLIC_KEY_TABLE_BYTES"
definition SEALED_DEC_OFFSET :: nat where "SEALED_DEC_OFFSET = SEALED_SIG_OFFSET + SEALED_BLOB_BYTES"
definition SEALED_AUT_OFFSET :: nat where "SEALED_AUT_OFFSET = SEALED_DEC_OFFSET + SEALED_BLOB_BYTES"
definition SEALED_KEY_REGION_END :: nat where
  "SEALED_KEY_REGION_END = SEALED_AUT_OFFSET + SEALED_BLOB_BYTES"

lemmas sealed_layout_defs = PUBLIC_KEY_TABLE_BYTES_def SEALED_SIG_OFFSET_def SEALED_DEC_OFFSET_def
  SEALED_AUT_OFFSET_def SEALED_KEY_REGION_END_def

section \<open>Sealed keys\<close>

definition WRAP_INFO_PREFIX :: bytes where
  "WRAP_INFO_PREFIX = map (\<lambda>c. of_nat (of_char c)) ''galdralag/sealed-key/wrap/v1''"

datatype sealed_key_error = AuthenticationFailed | PurposeMismatch | TrngError | StorageError

fun purpose_wire_id :: "key_purpose \<Rightarrow> sealed_key_error + u8" where
  "purpose_wire_id OpenPgpSig = Inr 1"
| "purpose_wire_id OpenPgpDec = Inr 2"
| "purpose_wire_id OpenPgpAut = Inr 3"
| "purpose_wire_id _ = Inl StorageError"

definition derive_wrapping_key :: "crypto_lib \<Rightarrow> bytes \<Rightarrow> u8 \<Rightarrow> sealed_key_error + bytes" where
  "derive_wrapping_key C master_key purpose_byte =
     res_bind (ok_or StorageError (push_all 64 [] (WRAP_INFO_PREFIX @ [purpose_byte]))) (\<lambda>info.
     ok_or StorageError (hkdf_sha256 C [] master_key info 32))"

definition build_aad :: "u8 \<Rightarrow> bytes \<Rightarrow> sealed_key_error + bytes" where
  "build_aad purpose_byte nonce = ok_or StorageError (push_all 13 [] (purpose_byte # nonce))"

definition seal ::
  "crypto_lib \<Rightarrow> 'w hardware_trng \<Rightarrow> bytes \<Rightarrow> key_purpose \<Rightarrow> bytes \<Rightarrow> 'w \<Rightarrow>
   (sealed_key_error + bytes) \<times> 'w" where
  "seal C tr master_key purpose scalar_bytes w =
     (if scalar_bytes = [] \<or> length scalar_bytes > 64 then (Inl StorageError, w)
      else case purpose_wire_id purpose of
          Inl e \<Rightarrow> (Inl e, w)
        | Inr purpose_byte \<Rightarrow>
            (case tr_try_fill tr 12 w of
               (Inl _, w1) \<Rightarrow> (Inl TrngError, w1)
             | (Inr nonce, w1) \<Rightarrow>
                 (res_bind (build_aad purpose_byte nonce) (\<lambda>aad.
                  res_bind (derive_wrapping_key C master_key purpose_byte) (\<lambda>wrapping_key.
                  res_bind (ok_or StorageError (gcm_encrypt C wrapping_key nonce aad scalar_bytes))
                    (\<lambda>combined.
                    if length combined \<noteq> length scalar_bytes + 16 then Inl StorageError
                    else ok_or StorageError
                      (push_all 93 [] ([purpose_byte] @ nonce @ combined))))), w1)))"

definition unseal_inner ::
  "crypto_lib \<Rightarrow> bytes \<Rightarrow> bytes \<Rightarrow> u8 \<Rightarrow> sealed_key_error + bytes" where
  "unseal_inner C raw master_key expected_wire =
     (if \<not> (29 \<le> length raw \<and> length raw \<le> 93) then Inl AuthenticationFailed
      else if list_all (\<lambda>b. b = 0) raw then Inl AuthenticationFailed
      else
        let purpose_byte = raw ! 0 in
        if purpose_byte \<noteq> expected_wire then
          (if 1 \<le> purpose_byte \<and> purpose_byte \<le> 3 then Inl PurposeMismatch
           else Inl AuthenticationFailed)
        else
          let nonce = slice 1 12 raw;
              combined = drop 13 raw in
          if length combined < 17 then Inl AuthenticationFailed
          else
            res_bind (build_aad purpose_byte nonce) (\<lambda>aad.
            res_bind (derive_wrapping_key C master_key purpose_byte) (\<lambda>wrapping_key.
            res_bind (ok_or AuthenticationFailed (gcm_decrypt C wrapping_key nonce aad combined))
              (\<lambda>pt. ok_or StorageError (push_all 64 [] pt)))))"

definition unseal :: "crypto_lib \<Rightarrow> bytes \<Rightarrow> bytes \<Rightarrow> key_purpose \<Rightarrow> sealed_key_error + bytes" where
  "unseal C blob master_key expected_purpose =
     res_bind (purpose_wire_id expected_purpose) (unseal_inner C blob master_key)"

text \<open>The descending loop over the scalar lengths a padded cell may hold.\<close>

fun unseal_cell_loop ::
  "crypto_lib \<Rightarrow> bytes \<Rightarrow> bytes \<Rightarrow> u8 \<Rightarrow> nat \<Rightarrow> sealed_key_error + bytes" where
  "unseal_cell_loop C cell master_key wire 0 = Inl AuthenticationFailed"
| "unseal_cell_loop C cell master_key wire (Suc n) =
     (let len = 29 + Suc n in
      if len > SEALED_BLOB_BYTES then unseal_cell_loop C cell master_key wire n
      else if len < SEALED_BLOB_BYTES \<and> list_ex (\<lambda>b. b \<noteq> 0) (drop len cell)
        then unseal_cell_loop C cell master_key wire n
      else case push_all 93 [] (take len cell) of
          None \<Rightarrow> Inl StorageError
        | Some v \<Rightarrow>
            (case unseal_inner C v master_key wire of
               Inr s \<Rightarrow> Inr s
             | Inl PurposeMismatch \<Rightarrow> Inl PurposeMismatch
             | Inl AuthenticationFailed \<Rightarrow> unseal_cell_loop C cell master_key wire n
             | Inl e \<Rightarrow> Inl e))"

definition unseal_from_storage_cell ::
  "crypto_lib \<Rightarrow> bytes \<Rightarrow> bytes \<Rightarrow> key_purpose \<Rightarrow> sealed_key_error + bytes" where
  "unseal_from_storage_cell C cell master_key expected_purpose =
     res_bind (purpose_wire_id expected_purpose) (\<lambda>wire.
       if list_all (\<lambda>b. b = 0) cell then Inl AuthenticationFailed
       else unseal_cell_loop C cell master_key wire 64)"

section \<open>BrainpoolP256r1 wrappers\<close>

datatype brainpool_error =
    InvalidPoint | InvalidScalar | TrngFailure | PointAtInfinity | InvalidSignature

text \<open>Rejection sampling of \<open>BrainpoolSigningKey::generate\<close> and \<open>BrainpoolScalar::generate\<close>.\<close>

fun bp_sample ::
  "crypto_lib \<Rightarrow> 'w hardware_trng \<Rightarrow> nat \<Rightarrow> 'w \<Rightarrow> (brainpool_error + bytes) \<times> 'w" where
  "bp_sample C tr 0 w = (Inl TrngFailure, w)"
| "bp_sample C tr (Suc n) w =
     (case tr_try_fill tr 32 w of
        (Inl _, w1) \<Rightarrow> (Inl TrngFailure, w1)
      | (Inr raw, w1) \<Rightarrow>
          (case bp_from_slice C raw of
             Some sk \<Rightarrow> (Inr sk, w1)
           | None \<Rightarrow> bp_sample C tr n w1))"

abbreviation SCALAR_SAMPLE_TRIES :: nat where "SCALAR_SAMPLE_TRIES \<equiv> 128"

definition bp_signing_key_generate ::
  "crypto_lib \<Rightarrow> 'w hardware_trng \<Rightarrow> 'w \<Rightarrow> (brainpool_error + bytes) \<times> 'w" where
  "bp_signing_key_generate C tr w = bp_sample C tr SCALAR_SAMPLE_TRIES w"

definition bp_scalar_generate ::
  "crypto_lib \<Rightarrow> 'w hardware_trng \<Rightarrow> 'w \<Rightarrow> (brainpool_error + bytes) \<times> 'w" where
  "bp_scalar_generate C tr w = bp_sample C tr SCALAR_SAMPLE_TRIES w"

definition sign_handshake_sha256_prehash :: "crypto_lib \<Rightarrow> bytes \<Rightarrow> bytes \<Rightarrow> brainpool_error + bytes" where
  "sign_handshake_sha256_prehash C sk preimage =
     res_bind (ok_or InvalidSignature (bp_sign_prehash C sk (sha256 C preimage))) (\<lambda>sig.
     ok_or InvalidSignature (push_all 72 [] sig))"

definition bp_signing_key_from_scalar :: "crypto_lib \<Rightarrow> bytes \<Rightarrow> brainpool_error + bytes" where
  "bp_signing_key_from_scalar C bs = ok_or InvalidScalar (bp_from_slice C bs)"

definition bp_verifying_key_sec1 :: "crypto_lib \<Rightarrow> bytes \<Rightarrow> bytes" where
  "bp_verifying_key_sec1 C sk = public_to_sec1_compressed C (bp_public_point C sk)"

definition bp_scalar_from_secret :: "crypto_lib \<Rightarrow> bytes \<Rightarrow> brainpool_error + bytes" where
  "bp_scalar_from_secret C bs = ok_or InvalidScalar (bp_from_slice C bs)"

definition bp_public_key :: "crypto_lib \<Rightarrow> bytes \<Rightarrow> brainpool_error + bytes" where
  "bp_public_key C s =
     res_bind (ok_or InvalidScalar (bp_from_slice C s)) (\<lambda>sk. Inr (bp_public_point C sk))"

definition bp_from_sec1 :: "crypto_lib \<Rightarrow> bytes \<Rightarrow> brainpool_error + bytes" where
  "bp_from_sec1 C bs =
     res_bind (ok_or InvalidPoint (sec1_parse C bs)) (\<lambda>point.
     if sec1_is_identity C point then Inl PointAtInfinity
     else ok_or InvalidPoint (sec1_to_public C point))"

definition bp_diffie_hellman :: "crypto_lib \<Rightarrow> bytes \<Rightarrow> bytes \<Rightarrow> brainpool_error + bytes" where
  "bp_diffie_hellman C s peer =
     (if public_is_identity C peer then Inl PointAtInfinity
      else res_bind (ok_or InvalidScalar (bp_from_slice C s)) (\<lambda>sk.
        let raw = bp_dh C sk peer in
        if length raw \<noteq> 32 then Inl InvalidPoint else Inr raw))"

section \<open>Public-key table\<close>

datatype public_key_vault_error = SlotOccupied | SlotEmpty | DerTooLarge | SlotInvalid | PkStorageError

definition PUBLIC_KEY_MAGIC :: bytes where "PUBLIC_KEY_MAGIC = [0x47, 0x50, 0x4B, 0x31]"

definition slot_offset :: "u32 \<Rightarrow> nat" where
  "slot_offset slot = PUBLIC_KEY_REGION_BASE + unat slot * PUBLIC_KEY_SLOT_BYTES"

definition vault_store_public_key_der ::
  "'w vault_storage \<Rightarrow> u32 \<Rightarrow> bytes \<Rightarrow> bool \<Rightarrow> 'w \<Rightarrow> (public_key_vault_error + unit) \<times> 'w" where
  "vault_store_public_key_der vs slot der overwrite w =
     (if 8 + length der > PUBLIC_KEY_SLOT_BYTES then (Inl DerTooLarge, w)
      else
        let off = slot_offset slot in
        case vs_read vs w off 4 of
          Inl _ \<Rightarrow> (Inl PkStorageError, w)
        | Inr probe \<Rightarrow>
            if probe = PUBLIC_KEY_MAGIC \<and> \<not> overwrite then (Inl SlotOccupied, w)
            else
              let buf = replicate PUBLIC_KEY_SLOT_BYTES 0;
                  buf = splice buf 0 PUBLIC_KEY_MAGIC;
                  buf = splice buf 4 (u32_le (of_nat (length der)));
                  buf = splice buf 8 der in
              case vs_write vs w off buf of (r, w1) \<Rightarrow> (map_err (\<lambda>_. PkStorageError) r, w1))"

definition vault_load_public_key_der ::
  "'w vault_storage \<Rightarrow> u32 \<Rightarrow> 'w \<Rightarrow> public_key_vault_error + bytes" where
  "vault_load_public_key_der vs slot w =
     res_bind (map_err (\<lambda>_. PkStorageError) (vs_read vs w (slot_offset slot) PUBLIC_KEY_SLOT_BYTES))
       (\<lambda>buf.
        if slice 0 4 buf \<noteq> PUBLIC_KEY_MAGIC then Inl SlotEmpty
        else
          let len = unat (rd_u32_le buf 4) in
          if len > PUBLIC_KEY_SLOT_BYTES - 8 then Inl SlotInvalid
          else Inr (slice 8 len buf))"

definition vault_delete_public_key ::
  "'w vault_storage \<Rightarrow> u32 \<Rightarrow> 'w \<Rightarrow> (public_key_vault_error + unit) \<times> 'w" where
  "vault_delete_public_key vs slot w =
     (case vs_write vs w (slot_offset slot) (replicate PUBLIC_KEY_SLOT_BYTES 0) of
        (r, w1) \<Rightarrow> (map_err (\<lambda>_. PkStorageError) r, w1))"

section \<open>Lemmas\<close>

text \<open>
  What the sealing code relies on of AES-256-GCM and HKDF: encryption appends a 16-byte tag,
  decryption under the same key, nonce and associated data inverts it, and deriving 32 bytes is
  within HKDF's output limit.
\<close>

definition aead_correct :: "crypto_lib \<Rightarrow> bool" where
  "aead_correct C \<longleftrightarrow>
     (\<forall>k n a m. \<exists>c. gcm_encrypt C k n a m = Some c \<and> length c = length m + 16
        \<and> gcm_decrypt C k n a c = Some m)
     \<and> (\<forall>salt ikm info. \<exists>okm. hkdf_sha256 C salt ikm info 32 = Some okm)"

lemma bp_sample_accepted: "bp_sample C tr k w = (Inr sk, w1) \<Longrightarrow> \<exists>raw. bp_from_slice C raw = Some sk"
  by (induction k arbitrary: w) (auto split: prod.splits sum.splits option.splits)

lemma length_WRAP_INFO_PREFIX [simp]: "length WRAP_INFO_PREFIX = 28"
  by (simp add: WRAP_INFO_PREFIX_def)

lemma wire_id_range: "purpose_wire_id p = Inr b \<Longrightarrow> 1 \<le> b \<and> b \<le> 3 \<and> b \<noteq> 0"
  by (cases p) auto

lemma purpose_wire_distinct:
  "q \<in> {OpenPgpSig, OpenPgpDec, OpenPgpAut} \<Longrightarrow> q \<noteq> p \<Longrightarrow> purpose_wire_id p = Inr b \<Longrightarrow>
   \<exists>b'. purpose_wire_id q = Inr b' \<and> b \<noteq> b'"
  by (cases p) auto

lemma wrapping_key_Some:
  "aead_correct C \<Longrightarrow> \<exists>k. derive_wrapping_key C m b = Inr k"
  by (auto simp: derive_wrapping_key_def aead_correct_def) (metis ok_or_simps(2))

lemma seal_result:
  assumes "aead_correct C" and "trng_contract tr" and "purpose_wire_id p = Inr b"
    and "s \<noteq> []" and "length s \<le> 64" and "tr_try_fill tr 12 w = (Inr nonce, w1)"
  obtains k c where "derive_wrapping_key C mk b = Inr k" "length nonce = 12"
    "gcm_encrypt C k nonce (b # nonce) s = Some c" "length c = length s + 16"
    "gcm_decrypt C k nonce (b # nonce) c = Some s"
    "seal C tr mk p s w = (Inr (b # nonce @ c), w1)"
proof -
  obtain k where k: "derive_wrapping_key C mk b = Inr k" using wrapping_key_Some [OF assms(1)] by blast
  have n: "length nonce = 12"
    using trng_contract.try_fill_length [OF assms(2), of 12 w nonce] assms(6) by simp
  obtain c where c: "gcm_encrypt C k nonce (b # nonce) s = Some c" "length c = length s + 16"
    "gcm_decrypt C k nonce (b # nonce) c = Some s"
    using assms(1) unfolding aead_correct_def by blast
  have "seal C tr mk p s w = (Inr (b # nonce @ c), w1)"
    using assms k n c by (simp add: seal_def build_aad_def)
  with k n c that show ?thesis by blast
qed

lemma unseal_inner_sealed:
  assumes "length nonce = 12" and "derive_wrapping_key C mk b = Inr k" and "b \<noteq> 0"
    and "17 \<le> length c" and "length c \<le> 80"
  shows "unseal_inner C (b # nonce @ c) mk b =
    res_bind (ok_or AuthenticationFailed (gcm_decrypt C k nonce (b # nonce) c))
      (\<lambda>pt. ok_or StorageError (push_all 64 [] pt))"
  using assms by (simp add: unseal_inner_def slice_def build_aad_def)

lemma unseal_inner_wrong_purpose:
  assumes "length nonce = 12" and "17 \<le> length c" and "length c \<le> 80"
    and "1 \<le> b" and "b \<le> 3" and "b \<noteq> b'"
  shows "unseal_inner C (b # nonce @ c) mk b' = Inl PurposeMismatch"
  using assms by (auto simp: unseal_inner_def)

text \<open>
  A stored cell is the blob followed by zero bytes, and the loop tries the longer readings first.
  It relies on authentication: a ciphertext extended by zero bytes is rejected.
\<close>

definition aead_rejects_padding :: "crypto_lib \<Rightarrow> bool" where
  "aead_rejects_padding C \<longleftrightarrow>
     (\<forall>k n a m c j. gcm_encrypt C k n a m = Some c \<longrightarrow> 0 < j \<longrightarrow>
        gcm_decrypt C k n a (c @ replicate j 0) = None)"

definition storage_cell :: "bytes \<Rightarrow> bytes" where
  "storage_cell blob = splice (replicate SEALED_BLOB_BYTES 0) 0 blob"

lemma storage_cell_eq:
  "length blob \<le> SEALED_BLOB_BYTES \<Longrightarrow>
   storage_cell blob = blob @ replicate (SEALED_BLOB_BYTES - length blob) 0"
  by (simp add: storage_cell_def splice_def)

lemma unseal_cell_loop_finds:
  assumes "length nonce = 12" and "derive_wrapping_key C mk b = Inr k" and "b \<noteq> 0"
    and "s \<noteq> []" and "length s \<le> 64" and "length c = length s + 16"
    and "gcm_encrypt C k nonce (b # nonce) s = Some c" and "gcm_decrypt C k nonce (b # nonce) c = Some s"
    and "aead_rejects_padding C" and "cell = storage_cell (b # nonce @ c)"
    and "length s \<le> n" and "n \<le> 64"
  shows "unseal_cell_loop C cell mk b n = Inr s"
  using assms(11,12)
proof (induction n)
  case 0
  with assms(4) show ?case by simp
next
  case (Suc n)
  let ?m = "Suc n"
  have cell: "cell = (b # nonce @ c @ replicate (?m - length s) 0) @ replicate (64 - ?m) 0"
    using assms Suc.prems by (simp add: storage_cell_eq flip: replicate_add)
  have len: "length (b # nonce @ c @ replicate (?m - length s) 0) = 29 + ?m"
    using assms Suc.prems by simp
  have tk: "take (29 + ?m) cell = b # nonce @ (c @ replicate (?m - length s) 0)"
    and dr: "drop (29 + ?m) cell = replicate (64 - ?m) 0"
    unfolding cell using len by (simp_all only: take_append drop_append) auto
  have u: "unseal_inner C (take (29 + ?m) cell) mk b =
      res_bind (ok_or AuthenticationFailed
          (gcm_decrypt C k nonce (b # nonce) (c @ replicate (?m - length s) 0)))
        (\<lambda>pt. ok_or StorageError (push_all 64 [] pt))"
    unfolding tk using assms Suc.prems len by (intro unseal_inner_sealed) auto
  have push: "push_all 93 [] (take (29 + ?m) cell) = Some (take (29 + ?m) cell)"
    unfolding tk using len Suc.prems by simp
  have ex: "\<not> list_ex (\<lambda>x. x \<noteq> 0) (drop (29 + ?m) cell)"
    unfolding dr by (simp add: list_ex_iff)
  have loop: "unseal_cell_loop C cell mk b ?m =
      (case unseal_inner C (take (29 + ?m) cell) mk b of
         Inr s \<Rightarrow> Inr s | Inl PurposeMismatch \<Rightarrow> Inl PurposeMismatch
       | Inl AuthenticationFailed \<Rightarrow> unseal_cell_loop C cell mk b n | Inl e \<Rightarrow> Inl e)"
    using Suc.prems push ex by (simp add: Let_def)
  show ?case
  proof (cases "?m = length s")
    case True
    with u loop assms show ?thesis by simp
  next
    case False
    with Suc.prems have "gcm_decrypt C k nonce (b # nonce) (c @ replicate (?m - length s) 0) = None"
      using assms(7,9) unfolding aead_rejects_padding_def by simp
    with u loop Suc False show ?thesis by simp
  qed
qed

lemma unseal_cell_wrong_purpose:
  assumes "length nonce = 12" and "17 \<le> length c" and "length c \<le> 80"
    and "1 \<le> b" and "b \<le> 3" and "b \<noteq> b'" and "cell = storage_cell (b # nonce @ c)"
  shows "unseal_cell_loop C cell mk b' 64 = Inl PurposeMismatch"
proof -
  let ?c = "c @ replicate (80 - length c) 0"
  have cell: "cell = b # nonce @ ?c" using assms by (simp add: storage_cell_eq)
  have "unseal_inner C (b # nonce @ ?c) mk b' = Inl PurposeMismatch"
    using assms by (intro unseal_inner_wrong_purpose) simp_all
  moreover have "length cell = 93" using assms(1,3) cell by (simp del: append_assoc)
  moreover have "unseal_cell_loop C cell mk b' (Suc 63) =
      (case unseal_inner C cell mk b' of
         Inr s \<Rightarrow> Inr s | Inl PurposeMismatch \<Rightarrow> Inl PurposeMismatch
       | Inl AuthenticationFailed \<Rightarrow> unseal_cell_loop C cell mk b' 63 | Inl e \<Rightarrow> Inl e)"
    unfolding unseal_cell_loop.simps using \<open>length cell = 93\<close> by (simp add: Let_def)
  ultimately have "unseal_cell_loop C cell mk b' (Suc 63) = Inl PurposeMismatch" by (simp add: cell)
  then show ?thesis by simp
qed

subsection \<open>Public-key slots\<close>

definition pk_slot_bytes :: "bytes \<Rightarrow> bytes" where
  "pk_slot_bytes der =
     splice (splice (splice (replicate PUBLIC_KEY_SLOT_BYTES 0) 0 PUBLIC_KEY_MAGIC) 4
       (u32_le (of_nat (length der)))) 8 der"

lemma pk_slot_bytes_props:
  assumes "8 + length der \<le> PUBLIC_KEY_SLOT_BYTES"
  shows "length (pk_slot_bytes der) = PUBLIC_KEY_SLOT_BYTES"
    and "slice 0 4 (pk_slot_bytes der) = PUBLIC_KEY_MAGIC"
    and "unat (rd_u32_le (pk_slot_bytes der) 4) = length der"
    and "slice 8 (length der) (pk_slot_bytes der) = der"
proof -
  have m: "length PUBLIC_KEY_MAGIC = 4" by (simp add: PUBLIC_KEY_MAGIC_def)
  show "length (pk_slot_bytes der) = PUBLIC_KEY_SLOT_BYTES"
    "slice 0 4 (pk_slot_bytes der) = PUBLIC_KEY_MAGIC"
    "slice 8 (length der) (pk_slot_bytes der) = der"
    using assms m by (simp_all add: pk_slot_bytes_def slice_simps)
  have "rd_u32_le (pk_slot_bytes der) 4 = of_nat (length der)"
    using assms m by (simp add: rd_u32_le_def pk_slot_bytes_def nth_splice u32_le_def)
  with assms show "unat (rd_u32_le (pk_slot_bytes der) 4) = length der"
    by (simp add: unat_of_nat)
qed

context vault_contract
begin

text \<open>Storing into a slot whose bytes lie within the storage and whose occupancy allows it.\<close>

lemma store_public_key:
  assumes "vs_ok w" and "slot_offset sl + PUBLIC_KEY_SLOT_BYTES \<le> length (vs_mem w)"
    and "8 + length der \<le> PUBLIC_KEY_SLOT_BYTES"
    and "ov \<or> slice (slot_offset sl) 4 (vs_mem w) \<noteq> PUBLIC_KEY_MAGIC"
  shows "fst (vault_store_public_key_der vs sl der ov w) = Inr ()"
    and "vs_mem (snd (vault_store_public_key_der vs sl der ov w)) =
      splice (vs_mem w) (slot_offset sl) (pk_slot_bytes der)"
    and "vs_ok (snd (vault_store_public_key_der vs sl der ov w))"
proof -
  let ?b = "pk_slot_bytes der" and ?o = "slot_offset sl"
  have fit: "?o + length ?b \<le> length (vs_mem w)" using assms pk_slot_bytes_props(1) by simp
  obtain r w1 where e: "vs_write vs w ?o ?b = (r, w1)" by (cases "vs_write vs w ?o ?b")
  with write_in [OF assms(1) fit] have r: "r = Inr ()" by simp
  have st: "vault_store_public_key_der vs sl der ov w = (Inr (), w1)"
    using assms e r read_in [OF assms(1), of ?o 4]
    by (auto simp: vault_store_public_key_der_def Let_def pk_slot_bytes_def)
  show "fst (vault_store_public_key_der vs sl der ov w) = Inr ()" using st by simp
  show "vs_mem (snd (vault_store_public_key_der vs sl der ov w)) = splice (vs_mem w) ?o ?b"
    using st e r write_mem [of w ?o ?b] by simp
  show "vs_ok (snd (vault_store_public_key_der vs sl der ov w))"
    using st e write_ok [OF assms(1), of ?o ?b] by simp
qed

lemma load_public_key:
  assumes "vs_ok w" and "slot_offset sl + PUBLIC_KEY_SLOT_BYTES \<le> length (vs_mem w)"
    and "slice (slot_offset sl) PUBLIC_KEY_SLOT_BYTES (vs_mem w) = pk_slot_bytes der"
    and "8 + length der \<le> PUBLIC_KEY_SLOT_BYTES"
  shows "vault_load_public_key_der vs sl w = Inr der"
  using assms pk_slot_bytes_props [OF assms(4)] read_in [OF assms(1,2)]
  by (simp add: vault_load_public_key_der_def Let_def)

lemma load_public_key_frame:
  assumes "vs_ok w" "vs_ok w'" and "length (vs_mem w') = length (vs_mem w)"
    and "slot_offset sl + PUBLIC_KEY_SLOT_BYTES \<le> length (vs_mem w)"
    and "slice (slot_offset sl) PUBLIC_KEY_SLOT_BYTES (vs_mem w') =
      slice (slot_offset sl) PUBLIC_KEY_SLOT_BYTES (vs_mem w)"
  shows "vault_load_public_key_der vs sl w' = vault_load_public_key_der vs sl w"
  using assms by (simp add: vault_load_public_key_der_def read_in)

end

lemma slot_offset_disjoint:
  "a \<noteq> b \<Longrightarrow> slot_offset a + PUBLIC_KEY_SLOT_BYTES \<le> slot_offset b
     \<or> slot_offset b + PUBLIC_KEY_SLOT_BYTES \<le> slot_offset a"
  by (cases "unat a < unat b") (auto simp: slot_offset_def word_unat_eq_iff)

section \<open>A concrete library\<close>

text \<open>
  A library for which every hypothesis on \<open>crypto_lib\<close> holds: the cipher appends a constant tag
  and checks it. It serves as the concrete instance of statements about arbitrary libraries.
\<close>

definition plain_crypto :: crypto_lib where
  "plain_crypto = \<lparr>
     sha256 = (\<lambda>m. take 32 (m @ replicate 32 0xA5)),
     hkdf_sha256 = (\<lambda>salt ikm info n. Some (replicate n 7)),
     gcm_encrypt = (\<lambda>k n a m. Some (m @ replicate 16 1)),
     gcm_decrypt = (\<lambda>k n a c.
       if 16 \<le> length c \<and> drop (length c - 16) c = replicate 16 1
       then Some (take (length c - 16) c) else None),
     bp_from_slice = (\<lambda>bs. if length bs = 32 then Some bs else None),
     bp_public_point = (\<lambda>sk. 2 # sk),
     bp_sign_prehash = (\<lambda>sk d. Some (take 8 d @ take 8 sk)),
     bp_dh = (\<lambda>sk pk. take 32 (sk @ pk)),
     sec1_parse = Some,
     sec1_is_identity = (\<lambda>p. p = [0]),
     sec1_to_public = (\<lambda>p. if length p = 33 then Some p else None),
     public_is_identity = (\<lambda>p. p = []),
     public_to_sec1_compressed = (\<lambda>p. p),
     ed25519_public = (\<lambda>s. s),
     ed25519_sign_msg = (\<lambda>s m. take 64 (s @ m @ replicate 64 0)),
     x25519_public = (\<lambda>s. s),
     x25519_dh = (\<lambda>s p. s)\<rparr>"

lemma plain_crypto_aead: "aead_correct plain_crypto" "aead_rejects_padding plain_crypto"
proof -
  show "aead_correct plain_crypto" by (simp add: aead_correct_def plain_crypto_def)
  have "drop (length m + j) (m @ replicate 16 1 @ replicate j 0) \<noteq> replicate 16 (1 :: u8)"
    if "0 < j" for m j
  proof
    assume "drop (length m + j) (m @ replicate 16 1 @ replicate j 0) = replicate 16 (1 :: u8)"
    then have "last (drop (length m + j) (m @ replicate 16 1 @ replicate j 0)) = (1 :: u8)" by simp
    moreover have "last (drop (length m + j) (m @ replicate 16 1 @ replicate j 0)) = (0 :: u8)"
      using that by (subst last_drop) (simp_all add: last_append)
    ultimately show False by simp
  qed
  then show "aead_rejects_padding plain_crypto"
    by (simp add: aead_rejects_padding_def plain_crypto_def add.commute)
qed

lemma sealed_cell_unseals:
  assumes "aead_correct C" and "aead_rejects_padding C" and "trng_contract tr"
    and "seal C tr mk p s w = (Inr blob, w1)"
  shows "unseal_from_storage_cell C (storage_cell blob) mk p = Inr s" and "length blob = 29 + length s"
    and "length s \<le> 64"
    and "q \<in> {OpenPgpSig, OpenPgpDec, OpenPgpAut} \<Longrightarrow> q \<noteq> p \<Longrightarrow>
      unseal_from_storage_cell C (storage_cell blob) mk q = Inl PurposeMismatch"
proof -
  from assms(4) obtain b nonce where b: "purpose_wire_id p = Inr b" and s: "s \<noteq> []" "length s \<le> 64"
    and t: "tr_try_fill tr 12 w = (Inr nonce, w1)"
    by (auto simp: seal_def split: if_splits sum.splits prod.splits)
  note br = wire_id_range [OF b]
  from seal_result [OF assms(1,3) b s t, of mk]
  obtain k c where k: "derive_wrapping_key C mk b = Inr k" "length nonce = 12"
    "gcm_encrypt C k nonce (b # nonce) s = Some c" "length c = length s + 16"
    "gcm_decrypt C k nonce (b # nonce) c = Some s"
    "seal C tr mk p s w = (Inr (b # nonce @ c), w1)" by blast
  then have blob: "blob = b # nonce @ c" using assms(4) by simp
  have s0: "length s > 0" using s by simp
  have nz: "\<not> list_all (\<lambda>x. x = 0) (storage_cell blob)"
    using br k s by (simp add: storage_cell_eq blob)
  show "unseal_from_storage_cell C (storage_cell blob) mk p = Inr s"
    using nz unseal_cell_loop_finds [OF k(2,1) _ s k(4,3,5) assms(2) refl] b br s
    by (simp add: unseal_from_storage_cell_def blob)
  show "length blob = 29 + length s" "length s \<le> 64" using k s by (simp_all add: blob)
  assume q: "q \<in> {OpenPgpSig, OpenPgpDec, OpenPgpAut}" "q \<noteq> p"
  obtain b' where b': "purpose_wire_id q = Inr b'" "b \<noteq> b'"
    using purpose_wire_distinct [OF q b] by blast
  then show "unseal_from_storage_cell C (storage_cell blob) mk q = Inl PurposeMismatch"
    using nz unseal_cell_wrong_purpose [OF k(2) _ _ _ _ b'(2) refl, of c] br k(4) s0 s
    by (simp add: unseal_from_storage_cell_def blob)
qed

section \<open>Properties\<close>

text \<open>
  Sealed keys come back: for any AEAD that inverts and rejects zero-extended ciphertexts, a
  scalar of 1 to 64 bytes sealed for an OpenPGP slot and written zero-padded into its storage cell is
  unsealed to itself for that slot, and refused with a purpose mismatch for each of the other slots.
\<close>

theorem seal_cell_roundtrip:
  assumes "aead_correct C" and "aead_rejects_padding C" and "trng_contract tr"
    and "p \<in> {OpenPgpSig, OpenPgpDec, OpenPgpAut}" and "s \<noteq> []" and "length s \<le> 64"
    and "fst (tr_try_fill tr 12 w) = Inr nonce"
  shows "\<exists>blob. fst (seal C tr mk p s w) = Inr blob \<and> length blob = 29 + length s
    \<and> unseal_from_storage_cell C (storage_cell blob) mk p = Inr s
    \<and> (\<forall>q \<in> {OpenPgpSig, OpenPgpDec, OpenPgpAut}. q \<noteq> p \<longrightarrow>
         unseal_from_storage_cell C (storage_cell blob) mk q = Inl PurposeMismatch)"
proof -
  obtain b where b: "purpose_wire_id p = Inr b" using assms(4) by auto
  obtain w1 where "tr_try_fill tr 12 w = (Inr nonce, w1)" using assms(7) by (cases "tr_try_fill tr 12 w") auto
  from seal_result [OF assms(1,3) b assms(5,6) this, of mk]
  obtain blob where blob: "seal C tr mk p s w = (Inr blob, w1)" by blast
  with sealed_cell_unseals [OF assms(1-3) blob] show ?thesis by auto
qed

theorem seal_cell_roundtrip_witness:
  "\<exists>blob. fst (seal plain_crypto FakeTrng (replicate 32 9) OpenPgpDec [1, 2, 3] 5) = Inr blob
    \<and> unseal_from_storage_cell plain_crypto (storage_cell blob) (replicate 32 9) OpenPgpDec = Inr [1, 2, 3]
    \<and> unseal_from_storage_cell plain_crypto (storage_cell blob) (replicate 32 9) OpenPgpSig = Inl PurposeMismatch"
proof -
  obtain nonce where "fst (tr_try_fill FakeTrng 12 5) = Inr nonce"
    by (cases "fake_trng_fill 12 5") (simp add: FakeTrng_def)
  from seal_cell_roundtrip [OF plain_crypto_aead fake_trng.trng_contract_axioms _ _ _ this,
      of OpenPgpDec "[1, 2, 3]" "replicate 32 9"]
  show ?thesis by auto
qed

text \<open>
  Public-key slots: a key stored into a slot of the table is loaded back as stored, every other
  slot loads as before, and the sealed private-key cells behind the table keep their bytes, as long
  as the slot index is below 32.
\<close>

theorem public_key_store_load:
  assumes "vault_contract vs mem ok" and "ok w" and "SEALED_KEY_REGION_END \<le> length (mem w)"
    and "sl < 32" and "8 + length der \<le> PUBLIC_KEY_SLOT_BYTES"
  defines "w' \<equiv> snd (vault_store_public_key_der vs sl der True w)"
  shows "vault_load_public_key_der vs sl w' = Inr der
    \<and> (\<forall>k. k < 32 \<longrightarrow> k \<noteq> sl \<longrightarrow> vault_load_public_key_der vs k w' = vault_load_public_key_der vs k w)
    \<and> slice SEALED_SIG_OFFSET (3 * SEALED_BLOB_BYTES) (mem w') =
        slice SEALED_SIG_OFFSET (3 * SEALED_BLOB_BYTES) (mem w)"
proof -
  have off: "slot_offset k + PUBLIC_KEY_SLOT_BYTES \<le> SEALED_SIG_OFFSET" if "k < 32" for k
    using that by (simp add: slot_offset_def sealed_layout_defs word_less_nat_alt)
  have fit: "SEALED_SIG_OFFSET + 3 * SEALED_BLOB_BYTES \<le> length (mem w)"
    using assms(3) by (simp add: sealed_layout_defs)
  have slot: "slot_offset k + PUBLIC_KEY_SLOT_BYTES \<le> length (mem w)" if "k < 32" for k
    using off [OF that] fit by simp
  note st = vault_contract.store_public_key [OF assms(1,2) slot [OF assms(4)] assms(5), of True,
      unfolded w'_def [symmetric]]
  note pl = pk_slot_bytes_props(1) [OF assms(5)]
  have mem: "mem w' = splice (mem w) (slot_offset sl) (pk_slot_bytes der)" "ok w'"
    using st by simp_all
  have len: "length (mem w') = length (mem w)" using mem slot [OF assms(4)] pl by simp
  have "vault_load_public_key_der vs sl w' = Inr der"
    using mem len slot [OF assms(4)] pl assms(5)
    by (intro vault_contract.load_public_key [OF assms(1)]) (simp_all add: slice_splice_same)
  moreover have "vault_load_public_key_der vs k w' = vault_load_public_key_der vs k w"
    if "k < 32" "k \<noteq> sl" for k
    using mem len slot [OF assms(4)] slot [OF that(1)] pl slot_offset_disjoint [OF that(2)] assms(2)
    by (intro vault_contract.load_public_key_frame [OF assms(1)]) (auto simp: slice_splice_disjoint)
  moreover have "slice SEALED_SIG_OFFSET (3 * SEALED_BLOB_BYTES) (mem w') =
        slice SEALED_SIG_OFFSET (3 * SEALED_BLOB_BYTES) (mem w)"
    using mem fit off [OF assms(4)] slot [OF assms(4)] pl by (simp add: slice_splice_disjoint)
  ultimately show ?thesis by blast
qed

theorem public_key_store_load_witness:
  "vault_load_public_key_der FakeVaultStorage 3
     (snd (vault_store_public_key_der FakeVaultStorage 3 [0x30, 3, 1] True (fake_vault_new 70000))) =
   Inr [0x30, 3, 1]"
  using public_key_store_load [OF fake_vault.vault_contract_axioms, of "fake_vault_new 70000" 3
      "[0x30, 3, 1]"]
  by (simp add: fake_vault_new_def sealed_layout_defs)

text \<open>
  No index check guards the table: slot 32 starts exactly at the sealed SIG cell, so storing a
  public key there replaces the first bytes of the sealed signing key by the public-key magic.
\<close>

theorem public_key_slot_32_overwrites_sealed_key:
  assumes "vault_contract vs mem ok" and "ok w"
    and "SEALED_SIG_OFFSET + PUBLIC_KEY_SLOT_BYTES \<le> length (mem w)"
    and "8 + length der \<le> PUBLIC_KEY_SLOT_BYTES"
  shows "fst (vault_store_public_key_der vs 32 der True w) = Inr ()
    \<and> slice SEALED_SIG_OFFSET 4 (mem (snd (vault_store_public_key_der vs 32 der True w))) =
        PUBLIC_KEY_MAGIC"
proof -
  have off: "slot_offset 32 = SEALED_SIG_OFFSET" by (simp add: slot_offset_def sealed_layout_defs)
  note st = vault_contract.store_public_key [OF assms(1,2), of 32 der True, unfolded off,
      OF assms(3,4)]
  note pl = pk_slot_bytes_props [OF assms(4)]
  show ?thesis
    using st assms(3) pl
      slice_splice_inner [of SEALED_SIG_OFFSET "pk_slot_bytes der" "mem w" SEALED_SIG_OFFSET 4]
    by simp
qed

theorem public_key_slot_32_overwrites_sealed_key_witness:
  "slice SEALED_SIG_OFFSET 4 (fv_mem (snd (vault_store_public_key_der FakeVaultStorage 32 [1] True
      (fake_vault_new 70000)))) = PUBLIC_KEY_MAGIC"
  using public_key_slot_32_overwrites_sealed_key [OF fake_vault.vault_contract_axioms,
      of "fake_vault_new 70000" "[1]"]
  by (simp add: fake_vault_new_def sealed_layout_defs)

end
