(* ===== verification/Vault_Backend.thy ===== *)
theory Vault_Backend
  imports Pin_Policy Do_Store Card Key_Vault
begin

text \<open>
  The firmware's \<open>OpenPgpBackend\<close>: \<open>openpgp/vault_backend.rs\<close>. It composes the data-object store,
  the PIN policy machines, the sealed-key cells and the cryptographic wrappers.

  The type parameters of \<open>OpenPgpVaultBackend\<close> and its handles are the fields of \<open>vault_env\<close>; all of
  them act on one world \<open>'w\<close>, so storages and counters may or may not share memory. The fields that
  the methods change are \<open>vault_backend\<close>. \<open>env_new_user_counter\<close> is the effect of
  \<open>user_counter = (new_user_counter)()\<close> on the world.
\<close>

section \<open>State\<close>

record 'w vault_env =
  env_do :: "'w vault_storage"
  env_do_base :: nat
  env_pin :: "'w vault_storage"
  env_pin_user_off :: nat
  env_pin_admin_off :: nat
  env_key :: "'w vault_storage"
  env_master_key :: bytes
  env_trng :: "'w hardware_trng"
  env_aid :: bytes
  env_user_counter :: "'w monotonic_counter"
  env_admin_counter :: "'w monotonic_counter"
  env_user_zeroise :: "'w \<Rightarrow> 'w"
  env_admin_zeroise :: "'w \<Rightarrow> 'w"
  env_new_user_counter :: "'w \<Rightarrow> 'w"
  env_new_admin_counter :: "'w \<Rightarrow> 'w"
  env_crypto :: crypto_lib

record 'w vault_backend =
  vb_world :: 'w
  vb_user_verifier :: bytes
  vb_admin_verifier :: bytes
  vb_user_machine :: pin_policy_machine
  vb_admin_machine :: pin_policy_machine
  vb_sig_key :: "bytes option"
  vb_sig_ed25519 :: "bytes option"
  vb_aut_key :: "bytes option"
  vb_aut_ed25519 :: "bytes option"
  vb_dec_key :: "bytes option"
  vb_dec_x25519 :: "bytes option"
  vb_sig_counter :: u32
  vb_termination :: bool
  vb_audit :: u32

section \<open>Provisioning defaults\<close>

definition DEFAULT_PW_STATUS_BYTES :: bytes where
  "DEFAULT_PW_STATUS_BYTES = [0x00, 5, 0, 8, 3, 3, 3]"

text \<open>A sequence of writes that stops at the first failure with \<open>HalError::Bus\<close>.\<close>

fun write_defaults ::
  "'w vault_storage \<Rightarrow> nat \<Rightarrow> (u16 \<times> bytes) list \<Rightarrow> 'w \<Rightarrow> (hal_error + unit) \<times> 'w" where
  "write_defaults vs base [] w = (Inr (), w)"
| "write_defaults vs base ((t, v) # ps) w =
     (case do_write vs base w t v of
        (Inl _, w1) \<Rightarrow> (Inl Bus, w1)
      | (Inr _, w1) \<Rightarrow> write_defaults vs base ps w1)"

definition init_production_defaults :: "'w vault_storage \<Rightarrow> nat \<Rightarrow> 'w \<Rightarrow> (hal_error + unit) \<times> 'w" where
  "init_production_defaults vs base w =
     (case push_all 16 [] BRAINPOOL_P256R1 of
        None \<Rightarrow> (Inl Bus, w)
      | Some oid \<Rightarrow>
          (case (attributes_to_bytes (Ecdsa oid), attributes_to_bytes (Ecdh oid),
                 attributes_to_bytes (Ecdsa oid)) of
             (Inr c1, Inr c2, Inr c3) \<Rightarrow>
               write_defaults vs base
                 [(0xC1, c1), (0xC2, c2), (0xC3, c3), (0xC4, DEFAULT_PW_STATUS_BYTES),
                  (0x93, [0x00, 0x00, 0x00])] w
           | _ \<Rightarrow> (Inl Bus, w)))"

definition seed_defaults_if_fresh :: "'w vault_storage \<Rightarrow> nat \<Rightarrow> 'w \<Rightarrow> (hal_error + unit) \<times> 'w" where
  "seed_defaults_if_fresh vs base w =
     (let fresh = (case do_probe vs base w of Inr True \<Rightarrow> False | Inr False \<Rightarrow> True | Inl _ \<Rightarrow> True) in
      if fresh then init_production_defaults vs base w else (Inr (), w))"

section \<open>Private helpers\<close>

definition vb_do_read :: "'w vault_env \<Rightarrow> 'w vault_backend \<Rightarrow> u16 \<Rightarrow> bytes option" where
  "vb_do_read E b tag = do_read (env_do E) (env_do_base E) (vb_world b) tag"

definition algorithm_attributes_for_slot ::
  "'w vault_env \<Rightarrow> 'w vault_backend \<Rightarrow> openpgp_key_slot \<Rightarrow> algorithm_attributes" where
  "algorithm_attributes_for_slot E b slot =
     (let tag = (case slot of Sig \<Rightarrow> 0xC1 | Dec \<Rightarrow> 0xC2 | Aut \<Rightarrow> 0xC3);
          oid = BRAINPOOL_P256R1;
          default = (case slot of Dec \<Rightarrow> Ecdh oid | _ \<Rightarrow> Ecdsa oid) in
      case vb_do_read E b tag of
        Some d \<Rightarrow> (case attributes_parse d of Inr a \<Rightarrow> a | Inl _ \<Rightarrow> default)
      | None \<Rightarrow> default)"

text \<open>
  \<open>load_private_keys\<close>: each slot reads its cell, unseals it and, for a 32-byte scalar, restores the
  key object that the stored algorithm attributes call for. A failed read ends the procedure.
\<close>

definition load_sig_key :: "'w vault_env \<Rightarrow> bytes \<Rightarrow> 'w vault_backend \<Rightarrow> 'w vault_backend" where
  "load_sig_key E buf b =
     (case unseal_from_storage_cell (env_crypto E) buf (env_master_key E) OpenPgpSig of
        Inl _ \<Rightarrow> b
      | Inr sl \<Rightarrow>
          if length sl \<noteq> 32 then b
          else case algorithm_attributes_for_slot E b Sig of
              EdDsa oid \<Rightarrow> if oid = ED25519 then b\<lparr>vb_sig_ed25519 := Some sl\<rparr> else b
            | Ecdsa _ \<Rightarrow>
                (case bp_signing_key_from_scalar (env_crypto E) sl of
                   Inr sk \<Rightarrow> b\<lparr>vb_sig_key := Some sk\<rparr> | Inl _ \<Rightarrow> b)
            | _ \<Rightarrow> b)"

definition load_dec_key :: "'w vault_env \<Rightarrow> bytes \<Rightarrow> 'w vault_backend \<Rightarrow> 'w vault_backend" where
  "load_dec_key E buf b =
     (case unseal_from_storage_cell (env_crypto E) buf (env_master_key E) OpenPgpDec of
        Inl _ \<Rightarrow> b
      | Inr sl \<Rightarrow>
          if length sl \<noteq> 32 then b
          else case algorithm_attributes_for_slot E b Dec of
              Ecdh oid \<Rightarrow>
                if oid = CURVE25519 then b\<lparr>vb_dec_x25519 := Some sl\<rparr>
                else (case bp_scalar_from_secret (env_crypto E) sl of
                        Inr sk \<Rightarrow> b\<lparr>vb_dec_key := Some sk\<rparr> | Inl _ \<Rightarrow> b)
            | _ \<Rightarrow> b)"

definition load_aut_key :: "'w vault_env \<Rightarrow> bytes \<Rightarrow> 'w vault_backend \<Rightarrow> 'w vault_backend" where
  "load_aut_key E buf b =
     (case unseal_from_storage_cell (env_crypto E) buf (env_master_key E) OpenPgpAut of
        Inl _ \<Rightarrow> b
      | Inr sl \<Rightarrow>
          if length sl \<noteq> 32 then b
          else case algorithm_attributes_for_slot E b Aut of
              EdDsa oid \<Rightarrow> if oid = ED25519 then b\<lparr>vb_aut_ed25519 := Some sl\<rparr> else b
            | Ecdsa _ \<Rightarrow>
                (case bp_signing_key_from_scalar (env_crypto E) sl of
                   Inr sk \<Rightarrow> b\<lparr>vb_aut_key := Some sk\<rparr> | Inl _ \<Rightarrow> b)
            | _ \<Rightarrow> b)"

definition load_private_keys ::
  "'w vault_env \<Rightarrow> 'w vault_backend \<Rightarrow> (hal_error + unit) \<times> 'w vault_backend" where
  "load_private_keys E b =
     (let b = b\<lparr>vb_sig_key := None, vb_sig_ed25519 := None, vb_aut_key := None,
                vb_aut_ed25519 := None, vb_dec_key := None, vb_dec_x25519 := None\<rparr> in
      case vs_read (env_key E) (vb_world b) SEALED_SIG_OFFSET SEALED_BLOB_BYTES of
        Inl e \<Rightarrow> (Inl e, b)
      | Inr buf \<Rightarrow>
          let b = load_sig_key E buf b in
          (case vs_read (env_key E) (vb_world b) SEALED_DEC_OFFSET SEALED_BLOB_BYTES of
             Inl e \<Rightarrow> (Inl e, b)
           | Inr buf \<Rightarrow>
               let b = load_dec_key E buf b in
               (case vs_read (env_key E) (vb_world b) SEALED_AUT_OFFSET SEALED_BLOB_BYTES of
                  Inl e \<Rightarrow> (Inl e, b)
                | Inr buf \<Rightarrow> (Inr (), load_aut_key E buf b))))"

definition persist_private_key ::
  "'w vault_env \<Rightarrow> key_purpose \<Rightarrow> bytes \<Rightarrow> 'w vault_backend \<Rightarrow>
   unit backend_result \<times> 'w vault_backend" where
  "persist_private_key E purpose scalar_bytes b =
     (case seal (env_crypto E) (env_trng E) (env_master_key E) purpose scalar_bytes (vb_world b) of
        (Inl _, w1) \<Rightarrow> (Inl (Status MemoryFailure), b\<lparr>vb_world := w1\<rparr>)
      | (Inr blob, w1) \<Rightarrow>
          let b = b\<lparr>vb_world := w1\<rparr> in
          case (case purpose of OpenPgpSig \<Rightarrow> Some SEALED_SIG_OFFSET
                 | OpenPgpDec \<Rightarrow> Some SEALED_DEC_OFFSET | OpenPgpAut \<Rightarrow> Some SEALED_AUT_OFFSET
                 | _ \<Rightarrow> None) of
            None \<Rightarrow> (Inl (Status IncorrectParameters), b)
          | Some off \<Rightarrow>
              if length blob > SEALED_BLOB_BYTES then (Inl (Status MemoryFailure), b)
              else case vs_write (env_key E) (vb_world b) off (storage_cell blob) of
                  (r, w2) \<Rightarrow>
                    (map_err (\<lambda>_. Status MemoryFailure) r, b\<lparr>vb_world := w2\<rparr>))"

definition load_pin_verifiers_from_storage ::
  "'w vault_env \<Rightarrow> 'w vault_backend \<Rightarrow> (hal_error + unit) \<times> 'w vault_backend" where
  "load_pin_verifiers_from_storage E b =
     (case vs_read (env_pin E) (vb_world b) (env_pin_user_off E) 32 of
        Inl e \<Rightarrow> (Inl e, b)
      | Inr uv \<Rightarrow>
          (case vs_read (env_pin E) (vb_world b) (env_pin_admin_off E) 32 of
             Inl e \<Rightarrow> (Inl e, b)
           | Inr av \<Rightarrow> (Inr (), b\<lparr>vb_user_verifier := uv, vb_admin_verifier := av\<rparr>)))"

definition persist_pin_hashes ::
  "'w vault_env \<Rightarrow> 'w vault_backend \<Rightarrow> unit backend_result \<times> 'w vault_backend" where
  "persist_pin_hashes E b =
     (case vs_write (env_pin E) (vb_world b) (env_pin_user_off E) (vb_user_verifier b) of
        (Inl _, w1) \<Rightarrow> (Inl (Status ExecutionError), b\<lparr>vb_world := w1\<rparr>)
      | (Inr _, w1) \<Rightarrow>
          (case vs_write (env_pin E) w1 (env_pin_admin_off E) (vb_admin_verifier b) of
             (Inl _, w2) \<Rightarrow> (Inl (Status ExecutionError), b\<lparr>vb_world := w2\<rparr>)
           | (Inr _, w2) \<Rightarrow> (Inr (), b\<lparr>vb_world := w2\<rparr>)))"

definition reset_user_machine :: "'w vault_env \<Rightarrow> 'w vault_backend \<Rightarrow> 'w vault_backend" where
  "reset_user_machine E b =
     b\<lparr>vb_user_machine := pin_machine_new (config (vb_user_machine b)),
       vb_world := env_new_user_counter E (vb_world b)\<rparr>"

definition reset_admin_machine :: "'w vault_env \<Rightarrow> 'w vault_backend \<Rightarrow> 'w vault_backend" where
  "reset_admin_machine E b =
     b\<lparr>vb_admin_machine := pin_machine_new (config (vb_admin_machine b)),
       vb_world := env_new_admin_counter E (vb_world b)\<rparr>"

definition verify_user ::
  "'w vault_env \<Rightarrow> bytes \<Rightarrow> 'w vault_backend \<Rightarrow> unit backend_result \<times> 'w vault_backend" where
  "verify_user E pin b =
     (if vb_termination b then (Inl (Status TerminationState), b)
      else
        let d = pin_bytes_to_verifier_digest (sha256 (env_crypto E)) pin;
            expd = vb_user_verifier b in
        case submit_attempt (env_user_counter E) (env_user_zeroise E) (\<lambda>_. pin_compare d expd)
               (vb_user_machine b) (vb_world b) of
          (r, m1, w1) \<Rightarrow>
            let b = b\<lparr>vb_user_machine := m1, vb_world := w1\<rparr> in
            (case r of
               Inl _ \<Rightarrow> (Inl (Status ExecutionError), b)
             | Inr Success \<Rightarrow> (Inr (), b)
             | Inr (Failed attempts_used) \<Rightarrow>
                 let rem = sat_sub32 (max_attempts (config m1)) attempts_used in
                 (Inl (Status (VerificationFailedRetries (ucast rem))), b)
             | Inr Breach \<Rightarrow> (Inl (Status AuthMethodBlocked), b\<lparr>vb_termination := True\<rparr>)))"

definition verify_admin ::
  "'w vault_env \<Rightarrow> bytes \<Rightarrow> 'w vault_backend \<Rightarrow> unit backend_result \<times> 'w vault_backend" where
  "verify_admin E pin b =
     (if vb_termination b then (Inl (Status TerminationState), b)
      else
        let d = pin_bytes_to_verifier_digest (sha256 (env_crypto E)) pin;
            expd = vb_admin_verifier b in
        case submit_attempt (env_admin_counter E) (env_admin_zeroise E) (\<lambda>_. pin_compare d expd)
               (vb_admin_machine b) (vb_world b) of
          (r, m1, w1) \<Rightarrow>
            let b = b\<lparr>vb_admin_machine := m1, vb_world := w1\<rparr> in
            (case r of
               Inl _ \<Rightarrow> (Inl (Status ExecutionError), b)
             | Inr Success \<Rightarrow> (Inr (), b)
             | Inr (Failed attempts_used) \<Rightarrow>
                 let rem = sat_sub32 (max_attempts (config m1)) attempts_used in
                 (Inl (Status (VerificationFailedRetries (ucast rem))), b)
             | Inr Breach \<Rightarrow> (Inl (Status AuthMethodBlocked), b\<lparr>vb_termination := True\<rparr>)))"

section \<open>Construction\<close>

definition vault_backend_blank ::
  "bytes \<Rightarrow> bytes \<Rightarrow> pin_policy_machine \<Rightarrow> pin_policy_machine \<Rightarrow> 'w \<Rightarrow> 'w vault_backend" where
  "vault_backend_blank uv av user_machine admin_machine w = \<lparr>
     vb_world = w, vb_user_verifier = uv, vb_admin_verifier = av,
     vb_user_machine = user_machine, vb_admin_machine = admin_machine,
     vb_sig_key = None, vb_sig_ed25519 = None, vb_aut_key = None, vb_aut_ed25519 = None,
     vb_dec_key = None, vb_dec_x25519 = None,
     vb_sig_counter = 0, vb_termination = False, vb_audit = 0\<rparr>"

text \<open>The constructors return the error, or the backend; the world is part of the backend.\<close>

definition vault_backend_new ::
  "'w vault_env \<Rightarrow> bytes \<Rightarrow> bytes \<Rightarrow> pin_policy_machine \<Rightarrow> pin_policy_machine \<Rightarrow> 'w \<Rightarrow>
   hal_error + 'w vault_backend" where
  "vault_backend_new E user_pin admin_pin user_machine admin_machine w =
     (let uv = pin_bytes_to_verifier_digest (sha256 (env_crypto E)) user_pin;
          av = pin_bytes_to_verifier_digest (sha256 (env_crypto E)) admin_pin in
      case vs_write (env_pin E) w (env_pin_user_off E) uv of
        (Inl e, _) \<Rightarrow> Inl e
      | (Inr _, w1) \<Rightarrow>
          (case vs_write (env_pin E) w1 (env_pin_admin_off E) av of
             (Inl e, _) \<Rightarrow> Inl e
           | (Inr _, w2) \<Rightarrow>
               (case seed_defaults_if_fresh (env_do E) (env_do_base E) w2 of
                  (Inl e, _) \<Rightarrow> Inl e
                | (Inr _, w3) \<Rightarrow>
                    (case load_private_keys E
                        (vault_backend_blank uv av user_machine admin_machine w3) of
                       (Inl e, _) \<Rightarrow> Inl e
                     | (Inr _, b) \<Rightarrow> Inr b))))"

definition vault_backend_open ::
  "'w vault_env \<Rightarrow> pin_policy_machine \<Rightarrow> pin_policy_machine \<Rightarrow> 'w \<Rightarrow> hal_error + 'w vault_backend" where
  "vault_backend_open E user_machine admin_machine w =
     (case seed_defaults_if_fresh (env_do E) (env_do_base E) w of
        (Inl e, _) \<Rightarrow> Inl e
      | (Inr _, w1) \<Rightarrow>
          (case load_pin_verifiers_from_storage E
              (vault_backend_blank (replicate 32 0) (replicate 32 0) user_machine admin_machine w1) of
             (Inl e, _) \<Rightarrow> Inl e
           | (Inr _, b) \<Rightarrow>
               (case load_private_keys E b of
                  (Inl e, _) \<Rightarrow> Inl e
                | (Inr _, b) \<Rightarrow> Inr b)))"

definition vault_backend_new_with_policy ::
  "'w vault_env \<Rightarrow> bytes \<Rightarrow> bytes \<Rightarrow> pin_policy_config \<Rightarrow> pin_policy_config \<Rightarrow> 'w \<Rightarrow>
   hal_error + 'w vault_backend" where
  "vault_backend_new_with_policy E user_pin admin_pin user_policy admin_policy w =
     vault_backend_new E user_pin admin_pin (pin_machine_new user_policy)
       (pin_machine_new admin_policy)
       (env_new_admin_counter E (env_new_user_counter E w))"

section \<open>Backend operations\<close>

text \<open>\<open>ensure_not_terminated\<close>, as the guard of the operation that follows.\<close>

definition unless_terminated ::
  "'w vault_backend \<Rightarrow> 'a backend_result \<times> 'w vault_backend \<Rightarrow> 'a backend_result \<times> 'w vault_backend" where
  "unless_terminated b k = (if vb_termination b then (Inl (Status TerminationState), b) else k)"

definition vb_pw_status_bytes :: "'w vault_env \<Rightarrow> 'w vault_backend \<Rightarrow> bytes" where
  "vb_pw_status_bytes E b =
     (case vb_do_read E b 0xC4 of
        Some v \<Rightarrow> splice (replicate 7 0) 0 (take (min (length v) 7) v)
      | None \<Rightarrow> [0x00, 5, 0, 8, 3, 3, 3])"

definition vb_change_pin ::
  "'w vault_env \<Rightarrow> bool \<Rightarrow> bytes \<Rightarrow> bytes \<Rightarrow> 'w vault_backend \<Rightarrow>
   unit backend_result \<times> 'w vault_backend" where
  "vb_change_pin E pw3 old_pin new_pin b =
     unless_terminated b
       (let max_len = unat (vb_pw_status_bytes E b ! (if pw3 then 3 else 1)) in
        if length new_pin > max_len then (Inl (Status IncorrectParameters), b)
        else if pw3 then
          (case verify_admin E old_pin b of
             (Inl e, b1) \<Rightarrow> (Inl e, b1)
           | (Inr _, b1) \<Rightarrow>
               (case persist_pin_hashes E (b1\<lparr>vb_admin_verifier :=
                    pin_bytes_to_verifier_digest (sha256 (env_crypto E)) new_pin\<rparr>) of
                  (Inl e, b2) \<Rightarrow> (Inl e, b2)
                | (Inr _, b2) \<Rightarrow> (Inr (), reset_admin_machine E b2)))
        else
          (case verify_user E old_pin b of
             (Inl e, b1) \<Rightarrow> (Inl e, b1)
           | (Inr _, b1) \<Rightarrow>
               (case persist_pin_hashes E (b1\<lparr>vb_user_verifier :=
                    pin_bytes_to_verifier_digest (sha256 (env_crypto E)) new_pin\<rparr>) of
                  (Inl e, b2) \<Rightarrow> (Inl e, b2)
                | (Inr _, b2) \<Rightarrow> (Inr (), reset_user_machine E b2))))"

definition vb_set_pw1_verifier_admin_only ::
  "'w vault_env \<Rightarrow> bytes \<Rightarrow> 'w vault_backend \<Rightarrow> unit backend_result \<times> 'w vault_backend" where
  "vb_set_pw1_verifier_admin_only E new_pin b =
     unless_terminated b
       (let max_len = unat (vb_pw_status_bytes E b ! 1) in
        if max_len = 0 \<or> new_pin = [] \<or> length new_pin > max_len then (Inl (Status WrongLength), b)
        else persist_pin_hashes E (b\<lparr>vb_user_verifier :=
          pin_bytes_to_verifier_digest (sha256 (env_crypto E)) new_pin\<rparr>))"

definition vb_reset_pw1_retry_counter ::
  "'w vault_env \<Rightarrow> 'w vault_backend \<Rightarrow> unit backend_result \<times> 'w vault_backend" where
  "vb_reset_pw1_retry_counter E b = unless_terminated b (Inr (), reset_user_machine E b)"

definition vb_get_do :: "'w vault_env \<Rightarrow> 'w vault_backend \<Rightarrow> u16 \<Rightarrow> bytes backend_result" where
  "vb_get_do E b tag =
     (if vb_termination b then Inl (Status TerminationState)
      else case vb_do_read E b tag of
          Some v \<Rightarrow> ok_or (Status ExecutionError) (push_all 512 [] v)
        | None \<Rightarrow> Inr [])"

definition vb_put_do ::
  "'w vault_env \<Rightarrow> u16 \<Rightarrow> bytes \<Rightarrow> 'w vault_backend \<Rightarrow> unit backend_result \<times> 'w vault_backend" where
  "vb_put_do E tag value b =
     unless_terminated b
       (if tag \<in> {0xC1, 0xC2, 0xC3}
          \<and> (case attributes_parse value of Inr attrs \<Rightarrow> uses_removed_curve attrs | Inl _ \<Rightarrow> False)
        then (Inl (Status IncorrectParameters), b)
        else case do_write (env_do E) (env_do_base E) (vb_world b) tag value of
            (r, w1) \<Rightarrow> (map_err (\<lambda>_. Status ExecutionError) r, b\<lparr>vb_world := w1\<rparr>))"

text \<open>A byte string copied into the 512-byte result vector.\<close>

definition out512 :: "bytes \<Rightarrow> bytes backend_result" where
  "out512 bs = ok_or (Status ExecutionError) (push_all 512 [] bs)"

definition vb_pso_sign_hash ::
  "'w vault_env \<Rightarrow> bytes \<Rightarrow> 'w vault_backend \<Rightarrow> bytes backend_result \<times> 'w vault_backend" where
  "vb_pso_sign_hash E hash b =
     unless_terminated b
       (case vb_sig_key b of
          None \<Rightarrow> (Inl (Status ReferenceDataNotFound), b)
        | Some sk \<Rightarrow>
            (res_bind (map_err (\<lambda>_. Status ExecutionError)
                (sign_handshake_sha256_prehash (env_crypto E) sk hash)) out512, b))"

definition vb_pso_decipher ::
  "'w vault_env \<Rightarrow> bytes \<Rightarrow> 'w vault_backend \<Rightarrow> bytes backend_result \<times> 'w vault_backend" where
  "vb_pso_decipher E d b = unless_terminated b (Inl (Status ReferenceDataNotFound), b)"

definition vb_ecdh_dec ::
  "'w vault_env \<Rightarrow> key_purpose \<Rightarrow> bytes \<Rightarrow> 'w vault_backend \<Rightarrow>
   bytes backend_result \<times> 'w vault_backend" where
  "vb_ecdh_dec E purpose peer b =
     unless_terminated b
       (if purpose \<noteq> OpenPgpDec then (Inl (Status IncorrectParameters), b)
        else case vb_dec_key b of
            None \<Rightarrow> (Inl (Status ReferenceDataNotFound), b)
          | Some sk \<Rightarrow>
              (res_bind (map_err (\<lambda>_. Status IncorrectParameters) (bp_from_sec1 (env_crypto E) peer))
                (\<lambda>pk.
               res_bind (map_err (\<lambda>_. Status ExecutionError) (bp_diffie_hellman (env_crypto E) sk pk))
                (\<lambda>sec. ok_or (Status ExecutionError) (push_all 64 [] sec))), b))"

definition vb_get_challenge ::
  "'w vault_env \<Rightarrow> nat \<Rightarrow> 'w vault_backend \<Rightarrow> bytes backend_result \<times> 'w vault_backend" where
  "vb_get_challenge E n b =
     unless_terminated b
       (case tr_fill (env_trng E) n (vb_world b) of
          (bs, w1) \<Rightarrow> (ok_or (Status ExecutionError) (push_all 64 [] bs), b\<lparr>vb_world := w1\<rparr>))"

definition vb_ed25519_sign ::
  "'w vault_env \<Rightarrow> key_purpose \<Rightarrow> bytes \<Rightarrow> 'w vault_backend \<Rightarrow>
   bytes backend_result \<times> 'w vault_backend" where
  "vb_ed25519_sign E purpose msg b =
     unless_terminated b
       (case (case purpose of OpenPgpSig \<Rightarrow> vb_sig_ed25519 b | OpenPgpAut \<Rightarrow> vb_aut_ed25519 b
              | _ \<Rightarrow> None) of
          None \<Rightarrow> (Inl (Status ReferenceDataNotFound), b)
        | Some sk \<Rightarrow>
            (ok_or (Status ExecutionError) (push_all 64 [] (ed25519_sign_msg (env_crypto E) sk msg)), b))"

definition vb_x25519_ecdh ::
  "'w vault_env \<Rightarrow> key_purpose \<Rightarrow> bytes \<Rightarrow> 'w vault_backend \<Rightarrow>
   bytes backend_result \<times> 'w vault_backend" where
  "vb_x25519_ecdh E purpose peer b =
     unless_terminated b
       (if purpose \<noteq> OpenPgpDec then (Inl (Status IncorrectParameters), b)
        else if length peer \<noteq> 32 then (Inl (Status IncorrectParameters), b)
        else case vb_dec_x25519 b of
            None \<Rightarrow> (Inl (Status ReferenceDataNotFound), b)
          | Some sk \<Rightarrow>
              (ok_or (Status ExecutionError) (push_all 32 [] (x25519_dh (env_crypto E) sk peer)), b))"

definition vb_internal_authenticate ::
  "'w vault_env \<Rightarrow> bytes \<Rightarrow> 'w vault_backend \<Rightarrow> bytes backend_result \<times> 'w vault_backend" where
  "vb_internal_authenticate E challenge b =
     unless_terminated b
       (if algorithm_attributes_for_slot E b Aut = EdDsa ED25519 then
          (case vb_aut_ed25519 b of
             None \<Rightarrow> (Inl (Status ReferenceDataNotFound), b)
           | Some sk \<Rightarrow> (out512 (ed25519_sign_msg (env_crypto E) sk challenge), b))
        else
          (case vb_aut_key b of
             None \<Rightarrow> (Inl (Status ReferenceDataNotFound), b)
           | Some sk \<Rightarrow>
               (res_bind (map_err (\<lambda>_. Status ExecutionError)
                   (sign_handshake_sha256_prehash (env_crypto E) sk challenge)) out512, b)))"

text \<open>\<open>generate_or_read_key\<close> with P1 = 0x81: the public half of the loaded key.\<close>

definition read_public_key ::
  "'w vault_env \<Rightarrow> openpgp_key_slot \<Rightarrow> 'w vault_backend \<Rightarrow> bytes backend_result" where
  "read_public_key E slot b =
     (let attrs = algorithm_attributes_for_slot E b slot;
          C = env_crypto E;
          signing = (\<lambda>ed bp. case attrs of
              EdDsa oid \<Rightarrow>
                if oid = ED25519 then
                  res_bind (ok_or (Status ReferenceDataNotFound) ed) (\<lambda>k. out512 (ed25519_public C k))
                else Inl (Status ReferenceDataNotFound)
            | Ecdsa _ \<Rightarrow>
                res_bind (ok_or (Status ReferenceDataNotFound) bp) (\<lambda>k. out512 (bp_verifying_key_sec1 C k))
            | _ \<Rightarrow> Inl (Status ReferenceDataNotFound)) in
      case slot of
        Sig \<Rightarrow> signing (vb_sig_ed25519 b) (vb_sig_key b)
      | Aut \<Rightarrow> signing (vb_aut_ed25519 b) (vb_aut_key b)
      | Dec \<Rightarrow>
          (case attrs of
             Ecdh oid \<Rightarrow>
               if oid = CURVE25519 then
                 res_bind (ok_or (Status ReferenceDataNotFound) (vb_dec_x25519 b))
                   (\<lambda>k. out512 (x25519_public C k))
               else
                 res_bind (ok_or (Status ReferenceDataNotFound)
                     (case vb_dec_key b of
                        None \<Rightarrow> None
                      | Some k \<Rightarrow> (case bp_public_key C k of Inr pk \<Rightarrow> Some pk | Inl _ \<Rightarrow> None)))
                   (\<lambda>pk. out512 (public_to_sec1_compressed C pk))
           | _ \<Rightarrow> Inl (Status ReferenceDataNotFound)))"

text \<open>
  Key generation (P1 = 0x80): draw the secret, seal it into the slot's cell and, once that worked,
  replace the loaded key. \<open>install\<close> puts the new secret in its field and clears the alternative one.
\<close>

definition generate_ed25519 ::
  "'w vault_env \<Rightarrow> key_purpose \<Rightarrow> (bytes \<Rightarrow> 'w vault_backend \<Rightarrow> 'w vault_backend) \<Rightarrow>
   (bytes \<Rightarrow> bytes) \<Rightarrow> 'w vault_backend \<Rightarrow> bytes backend_result \<times> 'w vault_backend" where
  "generate_ed25519 E purpose install pub b =
     (case tr_fill (env_trng E) 32 (vb_world b) of
        (seed, w1) \<Rightarrow>
          (case persist_private_key E purpose seed (b\<lparr>vb_world := w1\<rparr>) of
             (Inl e, b1) \<Rightarrow> (Inl e, b1)
           | (Inr _, b1) \<Rightarrow> (out512 (pub seed), install seed b1)))"

definition generate_brainpool ::
  "'w vault_env \<Rightarrow> key_purpose \<Rightarrow> (bytes \<Rightarrow> 'w vault_backend \<Rightarrow> 'w vault_backend) \<Rightarrow>
   ('w \<Rightarrow> (brainpool_error + bytes) \<times> 'w) \<Rightarrow> (bytes \<Rightarrow> bytes backend_result) \<Rightarrow>
   'w vault_backend \<Rightarrow> bytes backend_result \<times> 'w vault_backend" where
  "generate_brainpool E purpose install gen pub b =
     (case gen (vb_world b) of
        (Inl _, w1) \<Rightarrow> (Inl (Status ExecutionError), b\<lparr>vb_world := w1\<rparr>)
      | (Inr sk, w1) \<Rightarrow>
          (case persist_private_key E purpose sk (b\<lparr>vb_world := w1\<rparr>) of
             (Inl e, b1) \<Rightarrow> (Inl e, b1)
           | (Inr _, b1) \<Rightarrow> (pub sk, install sk b1)))"

definition generate_key ::
  "'w vault_env \<Rightarrow> openpgp_key_slot \<Rightarrow> 'w vault_backend \<Rightarrow> bytes backend_result \<times> 'w vault_backend" where
  "generate_key E slot b =
     (let attrs = algorithm_attributes_for_slot E b slot;
          C = env_crypto E;
          tr = env_trng E in
      case slot of
        Sig \<Rightarrow>
          (case attrs of
             EdDsa oid \<Rightarrow>
               if oid = ED25519 then
                 generate_ed25519 E OpenPgpSig
                   (\<lambda>k b. b\<lparr>vb_sig_key := None, vb_sig_ed25519 := Some k\<rparr>) (ed25519_public C) b
               else (Inl (Status ConditionsNotSatisfied), b)
           | Ecdsa _ \<Rightarrow>
               generate_brainpool E OpenPgpSig
                 (\<lambda>k b. b\<lparr>vb_sig_ed25519 := None, vb_sig_key := Some k\<rparr>)
                 (bp_signing_key_generate C tr) (\<lambda>k. out512 (bp_verifying_key_sec1 C k)) b
           | _ \<Rightarrow> (Inl (Status ConditionsNotSatisfied), b))
      | Aut \<Rightarrow>
          (case attrs of
             EdDsa oid \<Rightarrow>
               if oid = ED25519 then
                 generate_ed25519 E OpenPgpAut
                   (\<lambda>k b. b\<lparr>vb_aut_key := None, vb_aut_ed25519 := Some k\<rparr>) (ed25519_public C) b
               else (Inl (Status ConditionsNotSatisfied), b)
           | Ecdsa _ \<Rightarrow>
               generate_brainpool E OpenPgpAut
                 (\<lambda>k b. b\<lparr>vb_aut_ed25519 := None, vb_aut_key := Some k\<rparr>)
                 (bp_signing_key_generate C tr) (\<lambda>k. out512 (bp_verifying_key_sec1 C k)) b
           | _ \<Rightarrow> (Inl (Status ConditionsNotSatisfied), b))
      | Dec \<Rightarrow>
          (case attrs of
             Ecdh oid \<Rightarrow>
               if oid = CURVE25519 then
                 generate_ed25519 E OpenPgpDec
                   (\<lambda>k b. b\<lparr>vb_dec_key := None, vb_dec_x25519 := Some k\<rparr>) (x25519_public C) b
               else
                 generate_brainpool E OpenPgpDec
                   (\<lambda>k b. b\<lparr>vb_dec_x25519 := None, vb_dec_key := Some k\<rparr>)
                   (bp_scalar_generate C tr)
                   (\<lambda>k. res_bind (map_err (\<lambda>_. Status ExecutionError) (bp_public_key C k))
                      (\<lambda>pk. out512 (public_to_sec1_compressed C pk))) b
           | _ \<Rightarrow> (Inl (Status ConditionsNotSatisfied), b)))"

definition vb_generate_or_read_key ::
  "'w vault_env \<Rightarrow> u8 \<Rightarrow> openpgp_key_slot \<Rightarrow> 'w vault_backend \<Rightarrow>
   bytes backend_result \<times> 'w vault_backend" where
  "vb_generate_or_read_key E par slot b =
     unless_terminated b
       (if par = 0x81 then (read_public_key E slot b, b)
        else if par \<noteq> 0x80 then (Inl (Status WrongParametersP1P2), b)
        else generate_key E slot b)"

definition vb_increment_signature_counter ::
  "'w vault_env \<Rightarrow> 'w vault_backend \<Rightarrow> unit backend_result \<times> 'w vault_backend" where
  "vb_increment_signature_counter E b =
     unless_terminated b
       (let c = sat_add32 (vb_sig_counter b) 1;
            b = b\<lparr>vb_sig_counter := c\<rparr>;
            buf = [ucast (drop_bit 16 c AND 0xFF), ucast (drop_bit 8 c AND 0xFF), ucast (c AND 0xFF)] in
        case do_write (env_do E) (env_do_base E) (vb_world b) 0x93 buf of
          (r, w1) \<Rightarrow> (map_err (\<lambda>_. Status ExecutionError) r, b\<lparr>vb_world := w1\<rparr>))"

definition vb_on_lock_disconnect :: "'w vault_backend \<Rightarrow> 'w vault_backend" where
  "vb_on_lock_disconnect b = b\<lparr>vb_audit := 0\<rparr>"

definition vb_log_event :: "u32 \<Rightarrow> 'w vault_backend \<Rightarrow> 'w vault_backend" where
  "vb_log_event code b = b\<lparr>vb_audit := vb_audit b XOR code\<rparr>"

definition OpenPgpVaultBackend :: "'w vault_env \<Rightarrow> 'w vault_backend openpgp_backend" where
  "OpenPgpVaultBackend E = \<lparr>
     is_termination_state = vb_termination,
     aid_bytes = (\<lambda>b. env_aid E),
     pw_status_bytes = vb_pw_status_bytes E,
     user_pin_retries_remaining = (\<lambda>b. 3),
     admin_pin_retries_remaining = (\<lambda>b. 3),
     verify_pw1_sign = verify_user E,
     verify_pw1_other = verify_user E,
     verify_pw3 = verify_admin E,
     change_pin = vb_change_pin E,
     set_pw1_verifier_admin_only = vb_set_pw1_verifier_admin_only E,
     reset_pw1_retry_counter = vb_reset_pw1_retry_counter E,
     get_do = vb_get_do E,
     put_do = vb_put_do E,
     algorithm_attributes = algorithm_attributes_for_slot E,
     pso_sign_hash = vb_pso_sign_hash E,
     pso_decipher = vb_pso_decipher E,
     ecdh_dec = vb_ecdh_dec E,
     get_challenge = vb_get_challenge E,
     ed25519_sign = vb_ed25519_sign E,
     x25519_ecdh = vb_x25519_ecdh E,
     internal_authenticate = vb_internal_authenticate E,
     generate_or_read_key = vb_generate_or_read_key E,
     increment_signature_counter = vb_increment_signature_counter E,
     on_lock_disconnect = vb_on_lock_disconnect,
     log_event = vb_log_event\<rparr>"

section \<open>PIN verification\<close>

text \<open>
  \<open>verify_user\<close> and \<open>verify_admin\<close> are one procedure on two sets of fields; \<open>pin_verdict\<close> is its
  result as a function of the counter.
\<close>

definition pin_verdict :: "u32 \<Rightarrow> u32 \<Rightarrow> bool \<Rightarrow> unit backend_result" where
  "pin_verdict used limit matches =
     (if limit \<le> used then Inl (Status AuthMethodBlocked)
      else if matches then Inr ()
      else Inl (Status (VerificationFailedRetries (ucast (limit - (used + 1))))))"

lemma verify_terminated:
  "vb_termination b \<Longrightarrow> verify_user E pin b = (Inl (Status TerminationState), b)"
  "vb_termination b \<Longrightarrow> verify_admin E pin b = (Inl (Status TerminationState), b)"
  by (simp_all add: verify_user_def verify_admin_def)

lemma sat_add32_one: "u < 0xFFFFFFFF \<Longrightarrow> sat_add32 u 1 = u + 1"
  by (simp add: sat_add32_def word_less_nat_alt)

lemma succ_le_word: "(u :: u32) < 0xFFFFFFFF \<Longrightarrow> (u + 1 \<le> m) = (u < m)"
  by (simp add: word_le_nat_alt word_less_nat_alt unat_word_ariths Suc_le_eq)

context counter_contract
begin

text \<open>The whole submission on a healthy counter, with the verdict it leads to.\<close>

lemma submit_verdict:
  assumes "mc_ok w" and "pstate m \<noteq> Bricked" and "max_attempts (config m) < 0xFFFFFFFF"
    and "submit_attempt mc z v m w = (r, m', w')"
  shows "case r of
      Inl e \<Rightarrow> False
    | Inr Success \<Rightarrow> mc_val w < max_attempts (config m) \<and> bool_of_choice (v ()) \<and> pstate m' = Unlocked
    | Inr (Failed n) \<Rightarrow> mc_val w < max_attempts (config m) \<and> \<not> bool_of_choice (v ())
        \<and> n = mc_val w + 1 \<and> pstate m' = LockedIdle
    | Inr Breach \<Rightarrow> max_attempts (config m) \<le> mc_val w \<and> pstate m' = Bricked"
  using assms(4)
proof (cases rule: submit_attempt_cases)
  case bricked
  with assms show ?thesis by simp
next
  case (hal e)
  with inc_ok [OF assms(1)] show ?thesis by simp
next
  case (breach c w1)
  with inc_ok [OF assms(1)] have c: "c = sat_add32 (mc_val w) 1" by simp
  have "max_attempts (config m) \<le> mc_val w"
  proof (rule ccontr)
    assume "\<not> ?thesis"
    then have "mc_val w < max_attempts (config m)" by simp
    with c assms(3) have "c \<le> max_attempts (config m)"
      by (simp add: sat_add32_one succ_le_word)
    with breach show False by simp
  qed
  with breach show ?thesis by simp
next
  case (success c w1)
  with inc_ok [OF assms(1)] have c: "c = sat_add32 (mc_val w) 1" by simp
  have "mc_val w < 0xFFFFFFFF"
    using c success assms(3) by (auto simp: word_less_nat_alt word_le_nat_alt unat_sat_add32)
  with c success show ?thesis by (simp add: sat_add32_one succ_le_word)
next
  case (failed c)
  with inc_ok [OF assms(1)] have c: "c = sat_add32 (mc_val w) 1" by simp
  have "mc_val w < 0xFFFFFFFF"
    using c failed assms(3) by (auto simp: word_less_nat_alt word_le_nat_alt unat_sat_add32)
  with c failed show ?thesis by (simp add: sat_add32_one succ_le_word)
qed

end

lemma sat_sub32_le: "b \<le> a \<Longrightarrow> sat_sub32 a b = a - b"
  by (simp add: sat_sub32_def)

lemma verify_user_verdict:
  assumes "counter_contract (env_user_counter E) uval uok" and "uok (vb_world b)"
    and "\<not> vb_termination b" and "pstate (vb_user_machine b) \<noteq> Bricked"
    and "max_attempts (config (vb_user_machine b)) < 0xFFFFFFFF"
  shows "fst (verify_user E pin b) =
      pin_verdict (uval (vb_world b)) (max_attempts (config (vb_user_machine b)))
        (sha256 (env_crypto E) pin = vb_user_verifier b)"
    and "vb_termination (snd (verify_user E pin b)) \<longleftrightarrow>
      max_attempts (config (vb_user_machine b)) \<le> uval (vb_world b)"
proof -
  let ?v = "\<lambda>_ :: unit. pin_compare (sha256 (env_crypto E) pin) (vb_user_verifier b)"
  obtain r m1 w1 where s: "submit_attempt (env_user_counter E) (env_user_zeroise E) ?v
      (vb_user_machine b) (vb_world b) = (r, m1, w1)"
    by (cases "submit_attempt (env_user_counter E) (env_user_zeroise E) ?v (vb_user_machine b) (vb_world b)")
  have cfg: "config m1 = config (vb_user_machine b)"
    using submit_attempt_config [of "env_user_counter E" "env_user_zeroise E" ?v "vb_user_machine b"
        "vb_world b"] s by simp
  note v = counter_contract.submit_verdict [OF assms(1,2,4,5) s]
  have succ: "uval (vb_world b) + 1 \<le> max_attempts (config (vb_user_machine b))"
    if "uval (vb_world b) < max_attempts (config (vb_user_machine b))"
    using that assms(5) by (subst succ_le_word) auto
  show "fst (verify_user E pin b) =
      pin_verdict (uval (vb_world b)) (max_attempts (config (vb_user_machine b)))
        (sha256 (env_crypto E) pin = vb_user_verifier b)"
    using s v cfg assms(3) succ
    by (auto simp: verify_user_def pin_bytes_to_verifier_digest_def pin_verdict_def Let_def
        sat_sub32_le split: sum.splits pin_outcome.splits)
  show "vb_termination (snd (verify_user E pin b)) \<longleftrightarrow>
      max_attempts (config (vb_user_machine b)) \<le> uval (vb_world b)"
    using s v cfg assms(3)
    by (auto simp: verify_user_def pin_bytes_to_verifier_digest_def Let_def
        split: sum.splits pin_outcome.splits)
qed

lemma verify_user_ok:
  assumes "verify_user E pin b = (Inr u, b1)"
  obtains m1 w1 where "submit_attempt (env_user_counter E) (env_user_zeroise E)
      (\<lambda>_. pin_compare (sha256 (env_crypto E) pin) (vb_user_verifier b))
      (vb_user_machine b) (vb_world b) = (Inr Success, m1, w1)"
    "b1 = b\<lparr>vb_user_machine := m1, vb_world := w1\<rparr>" "sha256 (env_crypto E) pin = vb_user_verifier b"
    "config m1 = config (vb_user_machine b)" "\<not> vb_termination b"
proof -
  let ?v = "\<lambda>_ :: unit. pin_compare (sha256 (env_crypto E) pin) (vb_user_verifier b)"
  obtain r m1 w1 where s: "submit_attempt (env_user_counter E) (env_user_zeroise E) ?v
      (vb_user_machine b) (vb_world b) = (r, m1, w1)"
    by (cases "submit_attempt (env_user_counter E) (env_user_zeroise E) ?v (vb_user_machine b) (vb_world b)")
  with assms have r: "r = Inr Success" "b1 = b\<lparr>vb_user_machine := m1, vb_world := w1\<rparr>" "\<not> vb_termination b"
    by (auto simp: verify_user_def pin_bytes_to_verifier_digest_def Let_def
        split: if_splits sum.splits pin_outcome.splits)
  from s r(1) have "fst (submit_attempt (env_user_counter E) (env_user_zeroise E) ?v
      (vb_user_machine b) (vb_world b)) = Inr Success" by simp
  then have "sha256 (env_crypto E) pin = vb_user_verifier b"
    by (auto simp: submit_attempt_def Let_def split: if_splits prod.splits sum.splits)
  moreover have "config m1 = config (vb_user_machine b)"
    using submit_attempt_config [of "env_user_counter E" "env_user_zeroise E" ?v "vb_user_machine b"
        "vb_world b"] s by simp
  ultimately show ?thesis using that s r by blast
qed

lemma verify_admin_ok:
  assumes "verify_admin E pin b = (Inr u, b1)"
  obtains m1 w1 where "submit_attempt (env_admin_counter E) (env_admin_zeroise E)
      (\<lambda>_. pin_compare (sha256 (env_crypto E) pin) (vb_admin_verifier b))
      (vb_admin_machine b) (vb_world b) = (Inr Success, m1, w1)"
    "b1 = b\<lparr>vb_admin_machine := m1, vb_world := w1\<rparr>" "sha256 (env_crypto E) pin = vb_admin_verifier b"
    "config m1 = config (vb_admin_machine b)" "\<not> vb_termination b"
proof -
  let ?v = "\<lambda>_ :: unit. pin_compare (sha256 (env_crypto E) pin) (vb_admin_verifier b)"
  obtain r m1 w1 where s: "submit_attempt (env_admin_counter E) (env_admin_zeroise E) ?v
      (vb_admin_machine b) (vb_world b) = (r, m1, w1)"
    by (cases "submit_attempt (env_admin_counter E) (env_admin_zeroise E) ?v (vb_admin_machine b) (vb_world b)")
  with assms have r: "r = Inr Success" "b1 = b\<lparr>vb_admin_machine := m1, vb_world := w1\<rparr>" "\<not> vb_termination b"
    by (auto simp: verify_admin_def pin_bytes_to_verifier_digest_def Let_def
        split: if_splits sum.splits pin_outcome.splits)
  from s r(1) have "fst (submit_attempt (env_admin_counter E) (env_admin_zeroise E) ?v
      (vb_admin_machine b) (vb_world b)) = Inr Success" by simp
  then have "sha256 (env_crypto E) pin = vb_admin_verifier b"
    by (auto simp: submit_attempt_def Let_def split: if_splits prod.splits sum.splits)
  moreover have "config m1 = config (vb_admin_machine b)"
    using submit_attempt_config [of "env_admin_counter E" "env_admin_zeroise E" ?v "vb_admin_machine b"
        "vb_world b"] s by simp
  ultimately show ?thesis using that s r by blast
qed

end
