(* ===== verification/Card_Env.thy ===== *)
theory Card_Env
  imports Vault_Backend
begin

text \<open>
  What the vault backend relies on of its environment, as the locale \<open>card_env\<close>: every handle keeps
  its trait's contract, and using one handle leaves the memory behind the others as it is. The
  effects of the handles on the world are collected in sets, so that the separation is three
  assumptions. The lemmas about the backend's memory are proved once in the locale and read off for
  the repository's doubles through the interpretation \<open>rig\<close>.
\<close>

section \<open>Effects on the world\<close>

definition storage_effects :: "'w vault_storage \<Rightarrow> ('w \<Rightarrow> 'w) set" where
  "storage_effects vs = {op. \<exists>off d. op = (\<lambda>w. snd (vs_write vs w off d))}"

definition counter_effects :: "'w vault_env \<Rightarrow> ('w \<Rightarrow> 'w) set" where
  "counter_effects E =
     {\<lambda>w. snd (mc_increment (env_user_counter E) w), \<lambda>w. snd (mc_refund (env_user_counter E) w),
      \<lambda>w. snd (mc_increment (env_admin_counter E) w), \<lambda>w. snd (mc_refund (env_admin_counter E) w),
      env_new_user_counter E, env_new_admin_counter E}"

definition trng_effects :: "'w hardware_trng \<Rightarrow> ('w \<Rightarrow> 'w) set" where
  "trng_effects tr =
     {op. \<exists>n. op = (\<lambda>w. snd (tr_fill tr n w)) \<or> op = (\<lambda>w. snd (tr_try_fill tr n w))}"

locale card_env =
  fixes E :: "'w vault_env"
    and do_mem pin_mem key_mem :: "'w \<Rightarrow> bytes"
    and do_ok pin_ok key_ok :: "'w \<Rightarrow> bool"
    and uval aval :: "'w \<Rightarrow> u32"
    and uok aok :: "'w \<Rightarrow> bool"
  assumes do_storage: "vault_contract (env_do E) do_mem do_ok"
    and pin_storage: "vault_contract (env_pin E) pin_mem pin_ok"
    and key_storage: "vault_contract (env_key E) key_mem key_ok"
    and user_counter: "counter_contract (env_user_counter E) uval uok"
    and admin_counter: "counter_contract (env_admin_counter E) aval aok"
    and trng: "trng_contract (env_trng E)"
    and do_frame: "op \<in> storage_effects (env_pin E) \<union> storage_effects (env_key E)
        \<union> counter_effects E \<union> trng_effects (env_trng E) \<Longrightarrow>
      do_mem (op w) = do_mem w \<and> do_ok (op w) = do_ok w"
    and pin_frame: "op \<in> storage_effects (env_do E) \<union> storage_effects (env_key E)
        \<union> counter_effects E \<union> trng_effects (env_trng E) \<Longrightarrow>
      pin_mem (op w) = pin_mem w \<and> pin_ok (op w) = pin_ok w"
    and key_frame: "op \<in> storage_effects (env_do E) \<union> storage_effects (env_pin E)
        \<union> counter_effects E \<union> trng_effects (env_trng E) \<Longrightarrow>
      key_mem (op w) = key_mem w \<and> key_ok (op w) = key_ok w"
    and pins_apart: "env_pin_user_off E + 32 \<le> env_pin_admin_off E
      \<or> env_pin_admin_off E + 32 \<le> env_pin_user_off E"
    and digest_length: "length (sha256 (env_crypto E) m) = 32"
begin

text \<open>A submission that does not breach touches the counter only.\<close>

lemma submit_frame:
  assumes "submit_attempt mc z v m w = (r, m', w')" and "r \<noteq> Inr Breach"
    and "\<And>x. f (snd (mc_increment mc x)) = f x" and "\<And>x. f (snd (mc_refund mc x)) = f x"
  shows "f w' = f w"
  using assms(1)
proof (cases rule: submit_attempt_cases)
  case (hal e)
  with assms(3) [of w] show ?thesis by simp
next
  case (success c w1)
  with assms(3) [of w] assms(4) [of w1] show ?thesis by simp
next
  case (failed c)
  with assms(3) [of w] show ?thesis by simp
qed (use assms(2) in auto)

text \<open>The two verifier digests as they lie in the PIN storage.\<close>

abbreviation pins_fit :: "'w \<Rightarrow> bool" where
  "pins_fit w \<equiv> env_pin_user_off E + 32 \<le> length (pin_mem w) \<and> env_pin_admin_off E + 32 \<le> length (pin_mem w)"

abbreviation pins_stored :: "'w \<Rightarrow> bytes \<Rightarrow> bytes \<Rightarrow> bool" where
  "pins_stored w uv av \<equiv> slice (env_pin_user_off E) 32 (pin_mem w) = uv
     \<and> slice (env_pin_admin_off E) 32 (pin_mem w) = av"

lemma pin_write:
  assumes "pin_ok w" and "off + length d \<le> length (pin_mem w)"
  obtains w1 where "vs_write (env_pin E) w off d = (Inr (), w1)" "pin_ok w1"
    "pin_mem w1 = splice (pin_mem w) off d"
  using vault_contract.write_in [OF pin_storage assms] vault_contract.write_ok [OF pin_storage assms(1), of off d]
    vault_contract.write_mem [OF pin_storage, of w off d]
  by (cases "vs_write (env_pin E) w off d") auto

lemma persist_pins:
  assumes "pin_ok (vb_world b)" and "pins_fit (vb_world b)"
    and "length (vb_user_verifier b) = 32" and "length (vb_admin_verifier b) = 32"
  obtains w1 where "persist_pin_hashes E b = (Inr (), b\<lparr>vb_world := w1\<rparr>)" "pin_ok w1"
    "length (pin_mem w1) = length (pin_mem (vb_world b))"
    "pins_stored w1 (vb_user_verifier b) (vb_admin_verifier b)"
proof -
  obtain w1 where 1: "vs_write (env_pin E) (vb_world b) (env_pin_user_off E) (vb_user_verifier b) = (Inr (), w1)"
    "pin_ok w1" "pin_mem w1 = splice (pin_mem (vb_world b)) (env_pin_user_off E) (vb_user_verifier b)"
    using pin_write [of "vb_world b" "env_pin_user_off E" "vb_user_verifier b"] assms by auto
  have l1: "length (pin_mem w1) = length (pin_mem (vb_world b))" using 1 assms by simp
  obtain w2 where 2: "vs_write (env_pin E) w1 (env_pin_admin_off E) (vb_admin_verifier b) = (Inr (), w2)"
    "pin_ok w2" "pin_mem w2 = splice (pin_mem w1) (env_pin_admin_off E) (vb_admin_verifier b)"
    using pin_write [of w1 "env_pin_admin_off E" "vb_admin_verifier b"] assms 1 l1 by auto
  have l2: "length (pin_mem w2) = length (pin_mem (vb_world b))" using 2 l1 assms by simp
  have "slice (env_pin_user_off E) 32 (pin_mem w2) = slice (env_pin_user_off E) 32 (pin_mem w1)"
    using 2 l1 assms pins_apart by (simp add: slice_splice_disjoint disj_commute)
  also have "\<dots> = vb_user_verifier b" using 1 assms by (simp add: slice_splice_same)
  finally have "pins_stored w2 (vb_user_verifier b) (vb_admin_verifier b)"
    using 2 l1 assms by (simp add: slice_splice_same)
  with 1 2 l2 show ?thesis by (intro that [of w2]) (simp_all add: persist_pin_hashes_def)
qed

lemma load_pins:
  assumes "pin_ok (vb_world c)" and "pins_fit (vb_world c)" and "pins_stored (vb_world c) uv av"
  shows "load_pin_verifiers_from_storage E c =
    (Inr (), c\<lparr>vb_user_verifier := uv, vb_admin_verifier := av\<rparr>)"
  using assms vault_contract.read_in [OF pin_storage assms(1)]
  by (simp add: load_pin_verifiers_from_storage_def)

lemma counter_keeps_pins:
  "pin_mem (snd (mc_increment (env_user_counter E) w)) = pin_mem w"
  "pin_ok (snd (mc_increment (env_user_counter E) w)) = pin_ok w"
  "pin_mem (snd (mc_refund (env_user_counter E) w)) = pin_mem w"
  "pin_ok (snd (mc_refund (env_user_counter E) w)) = pin_ok w"
  "pin_mem (snd (mc_increment (env_admin_counter E) w)) = pin_mem w"
  "pin_ok (snd (mc_increment (env_admin_counter E) w)) = pin_ok w"
  "pin_mem (snd (mc_refund (env_admin_counter E) w)) = pin_mem w"
  "pin_ok (snd (mc_refund (env_admin_counter E) w)) = pin_ok w"
  "pin_mem (env_new_user_counter E w) = pin_mem w" "pin_ok (env_new_user_counter E w) = pin_ok w"
  "pin_mem (env_new_admin_counter E w) = pin_mem w" "pin_ok (env_new_admin_counter E w) = pin_ok w"
  using pin_frame [of _ w] by (auto simp: counter_effects_def)

text \<open>A change of the user PIN that reports success.\<close>

lemma change_user_pin:
  assumes "vb_change_pin E False old new b = (Inr u, b')"
    and "pin_ok (vb_world b)" and "pins_fit (vb_world b)" and "length (vb_admin_verifier b) = 32"
  shows "sha256 (env_crypto E) old = vb_user_verifier b
    \<and> vb_user_verifier b' = sha256 (env_crypto E) new \<and> vb_admin_verifier b' = vb_admin_verifier b
    \<and> vb_user_machine b' = pin_machine_new (config (vb_user_machine b))
    \<and> pin_ok (vb_world b') \<and> pins_fit (vb_world b')
    \<and> pins_stored (vb_world b') (vb_user_verifier b') (vb_admin_verifier b')"
proof -
  let ?n = "sha256 (env_crypto E) new"
  from assms(1) obtain u1 b1 b2 where v: "verify_user E old b = (Inr u1, b1)"
    and p: "persist_pin_hashes E (b1\<lparr>vb_user_verifier := ?n\<rparr>) = (Inr (), b2)"
    and b': "b' = reset_user_machine E b2"
    by (auto simp: vb_change_pin_def unless_terminated_def Let_def pin_bytes_to_verifier_digest_def
        split: if_splits prod.splits sum.splits)
  from v obtain m1 w1 where s: "submit_attempt (env_user_counter E) (env_user_zeroise E)
      (\<lambda>_. pin_compare (sha256 (env_crypto E) old) (vb_user_verifier b))
      (vb_user_machine b) (vb_world b) = (Inr Success, m1, w1)"
    and b1: "b1 = b\<lparr>vb_user_machine := m1, vb_world := w1\<rparr>"
    and old: "sha256 (env_crypto E) old = vb_user_verifier b"
    and cfg: "config m1 = config (vb_user_machine b)" by (rule verify_user_ok)
  have f: "pin_mem w1 = pin_mem (vb_world b)" "pin_ok w1 = pin_ok (vb_world b)"
    using submit_frame [OF s, of pin_mem] submit_frame [OF s, of pin_ok] by (simp_all add: counter_keeps_pins)
  obtain w2 where w2: "persist_pin_hashes E (b1\<lparr>vb_user_verifier := ?n\<rparr>) =
      (Inr (), b1\<lparr>vb_user_verifier := ?n, vb_world := w2\<rparr>)" "pin_ok w2"
    "length (pin_mem w2) = length (pin_mem w1)" "pins_stored w2 ?n (vb_admin_verifier b)"
    using persist_pins [of "b1\<lparr>vb_user_verifier := ?n\<rparr>"] assms f digest_length b1 by auto
  have "b2 = b1\<lparr>vb_user_verifier := ?n, vb_world := w2\<rparr>" using p w2(1) by simp
  with old b1 b' cfg w2 f assms show ?thesis
    by (simp add: reset_user_machine_def counter_keeps_pins)
qed

end

section \<open>The doubles as an environment\<close>

text \<open>
  The environment the repository's own tests build: separate \<open>FakeVaultStorage\<close> memories for data
  objects, PIN digests and sealed keys, separate \<open>FakeMonotonicCounter\<close>s that start from zero again
  after a PIN change, the deterministic generator, and no zeroisation hook.
\<close>

record card_world =
  cw_do :: fake_vault_storage
  cw_pin :: fake_vault_storage
  cw_key :: fake_vault_storage
  cw_user :: fake_monotonic_counter
  cw_admin :: fake_monotonic_counter
  cw_trng :: u64

definition rig_env :: "crypto_lib \<Rightarrow> bytes \<Rightarrow> card_world vault_env" where
  "rig_env C mk = \<lparr>
     env_do = vault_via cw_do (\<lambda>s w. w\<lparr>cw_do := s\<rparr>) FakeVaultStorage, env_do_base = 0,
     env_pin = vault_via cw_pin (\<lambda>s w. w\<lparr>cw_pin := s\<rparr>) FakeVaultStorage,
     env_pin_user_off = 0, env_pin_admin_off = 32,
     env_key = vault_via cw_key (\<lambda>s w. w\<lparr>cw_key := s\<rparr>) FakeVaultStorage,
     env_master_key = mk,
     env_trng = trng_via cw_trng (\<lambda>s w. w\<lparr>cw_trng := s\<rparr>) FakeTrng,
     env_aid = build_aid 0xFFFE [0, 0, 0, 1],
     env_user_counter = counter_via cw_user (\<lambda>s w. w\<lparr>cw_user := s\<rparr>) FakeMonotonicCounter,
     env_admin_counter = counter_via cw_admin (\<lambda>s w. w\<lparr>cw_admin := s\<rparr>) FakeMonotonicCounter,
     env_user_zeroise = id, env_admin_zeroise = id,
     env_new_user_counter = (\<lambda>w. w\<lparr>cw_user := fake_counter_new 0\<rparr>),
     env_new_admin_counter = (\<lambda>w. w\<lparr>cw_admin := fake_counter_new 0\<rparr>),
     env_crypto = C\<rparr>"

definition rig_world :: card_world where
  "rig_world = \<lparr>cw_do = fake_vault_new 8232, cw_pin = fake_vault_new 64, cw_key = fake_vault_new 66200,
     cw_user = fake_counter_new 0, cw_admin = fake_counter_new 0, cw_trng = 1\<rparr>"

lemma rig_effects:
  "op \<in> storage_effects (env_do (rig_env C mk)) \<Longrightarrow> \<exists>f. op = (\<lambda>w. w\<lparr>cw_do := f w\<rparr>)"
  "op \<in> storage_effects (env_pin (rig_env C mk)) \<Longrightarrow> \<exists>f. op = (\<lambda>w. w\<lparr>cw_pin := f w\<rparr>)"
  "op \<in> storage_effects (env_key (rig_env C mk)) \<Longrightarrow> \<exists>f. op = (\<lambda>w. w\<lparr>cw_key := f w\<rparr>)"
  "op \<in> counter_effects (rig_env C mk) \<Longrightarrow> \<exists>f g. op = (\<lambda>w. w\<lparr>cw_user := f w, cw_admin := g w\<rparr>)"
  "op \<in> trng_effects (env_trng (rig_env C mk)) \<Longrightarrow> \<exists>f. op = (\<lambda>w. w\<lparr>cw_trng := f w\<rparr>)"
proof -
  have id: "w = w\<lparr>cw_admin := cw_admin w\<rparr>" "w = w\<lparr>cw_user := cw_user w\<rparr>" for w :: card_world by simp_all
  show "op \<in> storage_effects (env_do (rig_env C mk)) \<Longrightarrow> \<exists>f. op = (\<lambda>w. w\<lparr>cw_do := f w\<rparr>)"
    "op \<in> storage_effects (env_pin (rig_env C mk)) \<Longrightarrow> \<exists>f. op = (\<lambda>w. w\<lparr>cw_pin := f w\<rparr>)"
    "op \<in> storage_effects (env_key (rig_env C mk)) \<Longrightarrow> \<exists>f. op = (\<lambda>w. w\<lparr>cw_key := f w\<rparr>)"
    "op \<in> trng_effects (env_trng (rig_env C mk)) \<Longrightarrow> \<exists>f. op = (\<lambda>w. w\<lparr>cw_trng := f w\<rparr>)"
    by (auto simp: storage_effects_def trng_effects_def rig_env_def)
  have u: "\<exists>g h. (\<lambda>w. w\<lparr>cw_user := f w\<rparr>) = (\<lambda>w. w\<lparr>cw_user := g w, cw_admin := h w\<rparr>)"
    for f :: "card_world \<Rightarrow> fake_monotonic_counter"
    by (rule exI [of _ f], rule exI [of _ cw_admin]) (rule ext, simp)
  have a: "\<exists>g h. (\<lambda>w. w\<lparr>cw_admin := f w\<rparr>) = (\<lambda>w. w\<lparr>cw_user := g w, cw_admin := h w\<rparr>)"
    for f :: "card_world \<Rightarrow> fake_monotonic_counter"
    by (rule exI [of _ cw_user], rule exI [of _ f]) (rule ext, simp)
  show "op \<in> counter_effects (rig_env C mk) \<Longrightarrow>
      \<exists>f g. op = (\<lambda>w. w\<lparr>cw_user := f w, cw_admin := g w\<rparr>)"
    by (simp add: counter_effects_def rig_env_def) (elim disjE; simp add: u a)
qed

lemma rig_card_env:
  assumes "\<And>m. length (sha256 C m) = 32"
  shows "card_env (rig_env C mk) (\<lambda>w. fv_mem (cw_do w)) (\<lambda>w. fv_mem (cw_pin w)) (\<lambda>w. fv_mem (cw_key w))
    (\<lambda>w. \<not> fv_fail_next_write (cw_do w)) (\<lambda>w. \<not> fv_fail_next_write (cw_pin w))
    (\<lambda>w. \<not> fv_fail_next_write (cw_key w)) (\<lambda>w. fc_n (cw_user w)) (\<lambda>w. fc_n (cw_admin w))
    (\<lambda>w. \<not> fc_fail_next (cw_user w)) (\<lambda>w. \<not> fc_fail_next (cw_admin w))"
proof (rule card_env.intro)
  let ?E = "rig_env C mk"
  show "vault_contract (env_do ?E) (\<lambda>w. fv_mem (cw_do w)) (\<lambda>w. \<not> fv_fail_next_write (cw_do w))"
    "vault_contract (env_pin ?E) (\<lambda>w. fv_mem (cw_pin w)) (\<lambda>w. \<not> fv_fail_next_write (cw_pin w))"
    "vault_contract (env_key ?E) (\<lambda>w. fv_mem (cw_key w)) (\<lambda>w. \<not> fv_fail_next_write (cw_key w))"
    by (simp_all add: rig_env_def vault_via_contract [OF fake_vault.vault_contract_axioms])
  show "counter_contract (env_user_counter ?E) (\<lambda>w. fc_n (cw_user w)) (\<lambda>w. \<not> fc_fail_next (cw_user w))"
    "counter_contract (env_admin_counter ?E) (\<lambda>w. fc_n (cw_admin w)) (\<lambda>w. \<not> fc_fail_next (cw_admin w))"
    by (simp_all add: rig_env_def counter_via_contract [OF fake_counter.refunding_counter_axioms,
          THEN refunding_counter.axioms(1)])
  show "trng_contract (env_trng ?E)"
    by (simp add: rig_env_def trng_via_contract [OF fake_trng.trng_contract_axioms])
  show "env_pin_user_off ?E + 32 \<le> env_pin_admin_off ?E \<or> env_pin_admin_off ?E + 32 \<le> env_pin_user_off ?E"
    by (simp add: rig_env_def)
  show "length (sha256 (env_crypto ?E) m) = 32" for m using assms by (simp add: rig_env_def)
qed (auto dest!: rig_effects)

lemma plain_crypto_digest: "length (sha256 plain_crypto m) = 32"
  by (simp add: plain_crypto_def)

interpretation rig: card_env "rig_env plain_crypto mk" "\<lambda>w. fv_mem (cw_do w)" "\<lambda>w. fv_mem (cw_pin w)"
    "\<lambda>w. fv_mem (cw_key w)" "\<lambda>w. \<not> fv_fail_next_write (cw_do w)"
    "\<lambda>w. \<not> fv_fail_next_write (cw_pin w)" "\<lambda>w. \<not> fv_fail_next_write (cw_key w)"
    "\<lambda>w. fc_n (cw_user w)" "\<lambda>w. fc_n (cw_admin w)" "\<lambda>w. \<not> fc_fail_next (cw_user w)"
    "\<lambda>w. \<not> fc_fail_next (cw_admin w)"
  for mk
  by (rule rig_card_env) (rule plain_crypto_digest)

lemma retries_nibble:
  assumes "used < limit" and "limit \<le> (10 :: u32)"
  shows "unat (sw2_of (VerificationFailedRetries (ucast (limit - (used + 1))))) =
    0xC0 + (unat limit - unat used - 1)"
proof -
  have u: "unat used < unat limit" "unat limit \<le> 10"
    using assms by (simp_all add: word_less_nat_alt word_le_nat_alt)
  have "unat (used + 1) = unat used + 1" using u by (simp add: unat_word_ariths)
  then have "unat (limit - (used + 1)) = unat limit - unat used - 1"
    using u by (subst unat_sub) (simp_all add: word_le_nat_alt)
  then have x: "unat (ucast (limit - (used + 1)) :: u8) = unat limit - unat used - 1"
    using u by (simp add: unat_ucast)
  define y :: u8 where "y = ucast (limit - (used + 1))"
  have y: "unat y = unat limit - unat used - 1" using x by (simp add: y_def)
  have "y < 10" using y u by (simp add: word_less_nat_alt)
  then have "y = of_nat (unat y)" "unat y \<in> {0..<10}" by (simp_all add: word_less_nat_alt)
  moreover have "\<forall>i \<in> set [0..<10]. unat (0xC0 OR (of_nat i AND 0x0F) :: u8) = 0xC0 + i"
    by code_simp
  ultimately have "unat (0xC0 OR (y AND 0x0F)) = 0xC0 + unat y" by (metis set_upt)
  with y show ?thesis by (simp add: y_def)
qed

section \<open>Properties\<close>

text \<open>
  (C7) VERIFY PW1 on the vault backend, completely: on a healthy counter, a card that is neither
  terminated nor bricked accepts exactly the PIN whose digest is stored while attempts are left;
  a wrong PIN is answered with the number of attempts that remain in the low nibble of SW2; once the
  provisioned number of attempts is used up the answer is \<open>AuthMethodBlocked\<close>, whatever the PIN, and
  the card terminates, which happens in no other case.
\<close>

theorem verify_pw1_outcome:
  assumes "counter_contract (env_user_counter E) uval uok" and "uok (vb_world b)"
    and "\<not> vb_termination b" and "pstate (vb_user_machine b) \<noteq> Bricked"
    and "max_attempts (config (vb_user_machine b)) = limit" and "limit \<le> MAX_PROVISIONED_PIN_ATTEMPTS"
    and "uval (vb_world b) = used" and "verify_pw1_sign (OpenPgpVaultBackend E) pin b = (r, b')"
  shows "(limit \<le> used \<longrightarrow> r = Inl (Status AuthMethodBlocked))
    \<and> (used < limit \<longrightarrow> sha256 (env_crypto E) pin = vb_user_verifier b \<longrightarrow> r = Inr ())
    \<and> (used < limit \<longrightarrow> sha256 (env_crypto E) pin \<noteq> vb_user_verifier b \<longrightarrow>
        (\<exists>sw. r = Inl (Status sw) \<and> sw1_of sw = 0x63
           \<and> unat (sw2_of sw) = 0xC0 + (unat limit - unat used - 1)))
    \<and> vb_termination b' = (limit \<le> used)"
proof -
  have lim: "max_attempts (config (vb_user_machine b)) < 0xFFFFFFFF" "limit \<le> 10"
    using assms(5,6) by (auto simp: MAX_PROVISIONED_PIN_ATTEMPTS_def word_le_nat_alt word_less_nat_alt)
  have r: "r = fst (verify_user E pin b)" "b' = snd (verify_user E pin b)"
    using assms(8) by (simp_all add: OpenPgpVaultBackend_def)
  show ?thesis
    unfolding r verify_user_verdict [OF assms(1-4) lim(1)] assms(5,7) pin_verdict_def
    using retries_nibble [OF _ lim(2), of used] by (auto simp: not_le)
qed

lemma rig_world_healthy:
  "\<not> fc_fail_next (cw_user rig_world)" "fc_n (cw_user rig_world) = 0"
  "\<not> fv_fail_next_write (cw_pin rig_world)" "length (fv_mem (cw_pin rig_world)) = 64"
  "\<not> fv_fail_next_write (cw_do rig_world)" "fv_mem (cw_do rig_world) = replicate 8232 0"
  by (simp_all add: rig_world_def fake_counter_new_def fake_vault_new_def)

abbreviation rig_backend :: "bytes \<Rightarrow> bytes \<Rightarrow> card_world vault_backend" where
  "rig_backend uv av \<equiv> vault_backend_blank uv av (pin_machine_new pin_policy_config_default)
     (pin_machine_new pin_policy_config_default) rig_world"

theorem verify_pw1_outcome_witness:
  "fst (verify_pw1_sign (OpenPgpVaultBackend (rig_env plain_crypto [])) [1, 2, 3, 4, 5]
      (rig_backend (sha256 plain_crypto [1, 2, 3, 4, 5]) [])) = Inr ()
   \<and> (\<exists>sw. fst (verify_pw1_sign (OpenPgpVaultBackend (rig_env plain_crypto [])) [9]
      (rig_backend (sha256 plain_crypto [1, 2, 3, 4, 5]) [])) = Inl (Status sw)
      \<and> unat (sw2_of sw) = 0xC2)"
proof -
  let ?E = "rig_env plain_crypto []" and ?b = "rig_backend (sha256 plain_crypto [1, 2, 3, 4, 5]) []"
  have ne: "sha256 plain_crypto [9] \<noteq> sha256 plain_crypto [1, 2, 3, 4, 5]"
    by (simp add: plain_crypto_def)
  have hyp: "\<not> fc_fail_next (cw_user (vb_world ?b))" "\<not> vb_termination ?b"
    "pstate (vb_user_machine ?b) \<noteq> Bricked" "max_attempts (config (vb_user_machine ?b)) = 3"
    "3 \<le> MAX_PROVISIONED_PIN_ATTEMPTS" "fc_n (cw_user (vb_world ?b)) = 0"
    "vb_user_verifier ?b = sha256 plain_crypto [1, 2, 3, 4, 5]" "env_crypto ?E = plain_crypto"
    by (simp_all add: vault_backend_blank_def rig_world_healthy pin_machine_new_def
        pin_policy_config_default_def DEFAULT_MAX_PIN_ATTEMPTS_def MAX_PROVISIONED_PIN_ATTEMPTS_def
        rig_env_def)
  note v = verify_pw1_outcome [OF rig.user_counter [of "[]"] hyp(1-6) prod.collapse [symmetric]]
  show ?thesis
    using v [of "[1, 2, 3, 4, 5]"] v [of "[9]"] hyp(7,8) ne by auto
qed

text \<open>
  (C8) A changed user PIN is in force and durable: if CHANGE REFERENCE DATA for PW1 reports success,
  the old PIN was the stored one, the new digest and the untouched admin digest are what the PIN
  storage holds, a backend that starts on that storage loads exactly these two digests, the policy
  machine is fresh, and the new PIN verifies as soon as the counter the environment hands out has
  attempts left.
\<close>

theorem change_user_pin_persists:
  assumes "card_env E do_mem pin_mem key_mem do_ok pin_ok key_ok uval aval uok aok"
    and "change_pin (OpenPgpVaultBackend E) False old new b = (Inr u, b')"
    and "pin_ok (vb_world b)" and "env_pin_user_off E + 32 \<le> length (pin_mem (vb_world b))"
    and "env_pin_admin_off E + 32 \<le> length (pin_mem (vb_world b))"
    and "length (vb_admin_verifier b) = 32"
    and "max_attempts (config (vb_user_machine b)) \<le> MAX_PROVISIONED_PIN_ATTEMPTS"
  shows "sha256 (env_crypto E) old = vb_user_verifier b
    \<and> load_pin_verifiers_from_storage E (c\<lparr>vb_world := vb_world b'\<rparr>) =
        (Inr (), c\<lparr>vb_world := vb_world b', vb_user_verifier := sha256 (env_crypto E) new,
                  vb_admin_verifier := vb_admin_verifier b\<rparr>)
    \<and> (uok (vb_world b') \<longrightarrow> \<not> vb_termination b' \<longrightarrow>
        uval (vb_world b') < max_attempts (config (vb_user_machine b)) \<longrightarrow>
        fst (verify_user E new b') = Inr ())"
proof -
  have ch: "vb_change_pin E False old new b = (Inr u, b')"
    using assms(2) by (simp add: OpenPgpVaultBackend_def)
  note f = card_env.change_user_pin [OF assms(1) ch assms(3) conjI [OF assms(4,5)] assms(6)]
  have lim: "max_attempts (config (vb_user_machine b)) < 0xFFFFFFFF"
    using assms(7) by (auto simp: MAX_PROVISIONED_PIN_ATTEMPTS_def word_le_nat_alt word_less_nat_alt)
  have "load_pin_verifiers_from_storage E (c\<lparr>vb_world := vb_world b'\<rparr>) =
        (Inr (), c\<lparr>vb_world := vb_world b', vb_user_verifier := sha256 (env_crypto E) new,
                  vb_admin_verifier := vb_admin_verifier b\<rparr>)"
    using card_env.load_pins [OF assms(1), of "c\<lparr>vb_world := vb_world b'\<rparr>"] f by simp
  moreover have "fst (verify_user E new b') = Inr ()"
    if "uok (vb_world b')" "\<not> vb_termination b'"
      "uval (vb_world b') < max_attempts (config (vb_user_machine b))"
    using verify_user_verdict(1) [OF card_env.user_counter [OF assms(1)] that(1,2), of new] f lim that(3)
    by (simp add: pin_machine_new_def pin_verdict_def not_le)
  ultimately show ?thesis using f by blast
qed

text \<open>The concrete card after a successful change of the user PIN, evaluated.\<close>

lemma rig_change_pin:
  "\<exists>b'. change_pin (OpenPgpVaultBackend (rig_env plain_crypto [])) False [1, 2] [3, 4]
      (rig_backend (sha256 plain_crypto [1, 2]) (replicate 32 0)) = (Inr (), b')
    \<and> \<not> fc_fail_next (cw_user (vb_world b')) \<and> \<not> vb_termination b' \<and> fc_n (cw_user (vb_world b')) = 0"
proof -
  let ?E = "rig_env plain_crypto []" and ?b = "rig_backend (sha256 plain_crypto [1, 2]) (replicate 32 0)"
  have "vb_do_read ?E ?b 0xC4 = None"
    by (simp add: vb_do_read_def vault_backend_blank_def rig_env_def do_read_def do_probe_def
        fake_vault_defs rig_world_healthy slice_def DO_VERSION_def)
  then have st: "vb_pw_status_bytes ?E ?b = [0, 5, 0, 8, 3, 3, 3]" by (simp add: vb_pw_status_bytes_def)
  show ?thesis
    using st
    by (simp add: OpenPgpVaultBackend_def vb_change_pin_def unless_terminated_def verify_user_def
        vault_backend_blank_def pin_bytes_to_verifier_digest_def submit_attempt_def pin_machine_new_def
        pin_policy_config_default_def DEFAULT_MAX_PIN_ATTEMPTS_def rig_env_def Let_def
        counter_via_def vault_via_def fake_counter_defs fake_vault_defs rig_world_def
        fake_counter_new_def fake_vault_new_def sat_add32_def sat_sub32_def persist_pin_hashes_def
        plain_crypto_def reset_user_machine_def)
qed

theorem change_user_pin_persists_witness:
  "\<exists>b'. change_pin (OpenPgpVaultBackend (rig_env plain_crypto [])) False [1, 2] [3, 4]
      (rig_backend (sha256 plain_crypto [1, 2]) (replicate 32 0)) = (Inr (), b')
    \<and> fst (verify_user (rig_env plain_crypto []) [3, 4] b') = Inr ()"
proof -
  let ?E = "rig_env plain_crypto []" and ?b = "rig_backend (sha256 plain_crypto [1, 2]) (replicate 32 0)"
  obtain b' where b': "change_pin (OpenPgpVaultBackend ?E) False [1, 2] [3, 4] ?b = (Inr (), b')"
    "\<not> fc_fail_next (cw_user (vb_world b'))" "\<not> vb_termination b'" "fc_n (cw_user (vb_world b')) = 0"
    using rig_change_pin by blast
  have hyp: "\<not> fv_fail_next_write (cw_pin (vb_world ?b))"
    "env_pin_user_off ?E + 32 \<le> length (fv_mem (cw_pin (vb_world ?b)))"
    "env_pin_admin_off ?E + 32 \<le> length (fv_mem (cw_pin (vb_world ?b)))"
    "length (vb_admin_verifier ?b) = 32" "max_attempts (config (vb_user_machine ?b)) = 3"
    by (simp_all add: vault_backend_blank_def rig_world_healthy rig_env_def pin_machine_new_def
        pin_policy_config_default_def DEFAULT_MAX_PIN_ATTEMPTS_def)
  have lim: "max_attempts (config (vb_user_machine ?b)) \<le> MAX_PROVISIONED_PIN_ATTEMPTS"
    using hyp(5) by (simp add: MAX_PROVISIONED_PIN_ATTEMPTS_def)
  show ?thesis
    using change_user_pin_persists [OF rig.card_env_axioms b'(1) hyp(1-4) lim] b' hyp(5) by auto
qed

end
