(* ===== verification/Card_Session.thy ===== *)
theory Card_Session
  imports Card_Env
begin

text \<open>
  Security of card sessions: what any sequence of host messages and bus resets can do to the session
  flags, which commands need which flag, how many signatures a verification buys, what a terminated
  card answers, and that every reply is a well-formed CCID frame. The statements hold for every
  backend; their concrete instances run the vault backend of \<open>Vault_Backend\<close> on the environment of
  \<open>Card_Env\<close>.
\<close>

section \<open>Flags along a run\<close>

definition flag_of :: "u8 \<Rightarrow> card_state \<Rightarrow> bool" where
  "flag_of p s = (if p = 0x81 then pw1_verified_sign s
     else if p = 0x82 then pw1_verified_other s else pw3_verified s)"

lemma flag_of_flags: "session_flags s = session_flags s' \<Longrightarrow> flag_of p s = flag_of p s'"
  by (simp add: flag_of_def session_flags_def)

lemma dispatch_event_flag:
  assumes "p \<in> {0x81, 0x82, 0x83}" and "flag_of p (dstate (dispatch_event B e d))"
  shows "\<not> event_resets e \<and> (flag_of p (dstate d) \<or> event_verifies B p d e)"
  using assms dispatch_event_flags [of B e d]
  by (auto simp: flag_of_def session_flags_def split: if_splits)

lemma flag_needs_verify:
  assumes "card_run B d0 evs d" and "p \<in> {0x81, 0x82, 0x83}" and "flag_of p (dstate d)"
    and "\<not> flag_of p (dstate d0)"
  shows "\<exists>evs1 e evs2 d1. evs = evs1 @ e # evs2 \<and> card_run B d0 evs1 d1
    \<and> event_verifies B p d1 e \<and> \<not> event_resets e \<and> (\<forall>x \<in> set evs2. \<not> event_resets x)"
  using assms(1,3)
proof (induction rule: card_run.induct)
  case start
  with assms(4) show ?case by simp
next
  case (step evs d1 e)
  from dispatch_event_flag [OF assms(2) step.prems]
  have e: "\<not> event_resets e" "flag_of p (dstate d1) \<or> event_verifies B p d1 e" by auto
  show ?case
  proof (cases "event_verifies B p d1 e")
    case True
    with e step.hyps show ?thesis by (metis append_Nil2 append_Cons append_Nil empty_iff empty_set)
  next
    case False
    with e step.IH obtain evs1 e' evs2 d2 where
      "evs = evs1 @ e' # evs2" "card_run B d0 evs1 d2" "event_verifies B p d2 e'"
      "\<not> event_resets e'" "\<forall>x \<in> set evs2. \<not> event_resets x" by blast
    with e(1) show ?thesis
      by (intro exI [of _ evs1] exI [of _ e'] exI [of _ "evs2 @ [e]"] exI [of _ d2]) auto
  qed
qed


lemma event_signs_not_resets: "event_signs B d e \<Longrightarrow> \<not> event_resets e"
  by (cases e rule: event_command.cases) (auto simp: event_signs_def)




section \<open>Access control\<close>

text \<open>The access rules of the card: which flag each command needs. No flag is needed elsewhere.\<close>

definition access_ok :: "card_state \<Rightarrow> command_apdu \<Rightarrow> bool" where
  "access_ok s cmd =
     (if ins cmd = INS_PSO \<and> p1 cmd = 0x9E \<and> p2 cmd = 0x9A then pw1_verified_sign s
      else if ins cmd = INS_PSO \<and> p1 cmd = 0x80 \<and> p2 cmd = 0x86 then pw1_verified_other s
      else if ins cmd = INS_INTERNAL_AUTH then pw1_verified_other s
      else if ins cmd = INS_PUT_DATA \<or> ins cmd = INS_PUT_DATA_ODD then
        (if p1 cmd = 0x01 \<and> p2 cmd \<in> {0x01, 0x02, 0x03, 0x04} then pw1_verified_other s
         else pw3_verified s)
      else if ins cmd = INS_GENERATE_KEY \<and> p1 cmd = 0x80 \<and> p2 cmd \<in> {0xB6, 0xB8, 0xA4}
        then pw3_verified s
      else if ins cmd = INS_RESET_RETRY_COUNTER \<and> p1 cmd = 0x00 \<and> p2 cmd = 0x81
        then pw3_verified s
      else True)"

lemma unat_p1p2_tag: "unat (p1p2_tag cmd) = 256 * unat (p1 cmd) + unat (p2 cmd)"
proof -
  have "push_bit 8 (ucast (p1 cmd)) AND ucast (p2 cmd) = (0 :: u16)"
    by (rule bit_word_eqI) (auto simp: bit_simps dest: bit_imp_le_length)
  then have "p1p2_tag cmd = push_bit 8 (ucast (p1 cmd)) + ucast (p2 cmd)"
    by (simp add: p1p2_tag_def disjunctive_add_eq_or)
  moreover have "unat (p1 cmd) < 256" "unat (p2 cmd) < 256"
    using unsigned_less [of "p1 cmd", where ?'a = nat] unsigned_less [of "p2 cmd", where ?'a = nat] by simp_all
  ultimately show ?thesis
    by (simp add: unat_word_ariths push_bit_eq_mult unat_ucast)
qed

lemma private_do_tag:
  "0x0101 \<le> p1p2_tag cmd \<and> p1p2_tag cmd \<le> 0x0104 \<longleftrightarrow> p1 cmd = 0x01 \<and> p2 cmd \<in> {0x01, 0x02, 0x03, 0x04}"
proof -
  have "unat (p2 cmd) < 256" using unsigned_less [of "p2 cmd", where ?'a = nat] by simp
  moreover have "257 \<le> 256 * x + y \<and> 256 * x + y \<le> 260 \<longleftrightarrow> x = 1 \<and> (y = 1 \<or> y = 2 \<or> y = 3 \<or> y = 4)"
    if "y < 256" for x y :: nat
    using that by presburger
  ultimately have "0x0101 \<le> p1p2_tag cmd \<and> p1p2_tag cmd \<le> 0x0104 \<longleftrightarrow>
      unat (p1 cmd) = 1 \<and> unat (p2 cmd) \<in> {1, 2, 3, 4}"
    by (simp add: word_le_nat_alt unat_p1p2_tag)
  then show ?thesis by (simp add: word_unat_eq_iff)
qed

lemma put_allowed_iff:
  "put_allowed s (p1p2_tag cmd) =
    (if p1 cmd = 0x01 \<and> p2 cmd \<in> {0x01, 0x02, 0x03, 0x04} then pw1_verified_other s else pw3_verified s)"
  by (auto simp: put_allowed_def private_do_tag)

lemma access_denied:
  assumes "\<not> is_termination_state B b" and "\<not> access_ok s cmd"
  shows "handle_apdu B cmd s b = (rapdu_error SecurityStatusNotSatisfied, s, b)"
proof -
  from assms(2) consider
      (cds) "ins cmd = INS_PSO" "p1 cmd = 0x9E" "p2 cmd = 0x9A" "\<not> pw1_verified_sign s"
    | (dec) "ins cmd = INS_PSO" "p1 cmd = 0x80" "p2 cmd = 0x86" "\<not> pw1_verified_other s"
    | (aut) "ins cmd = INS_INTERNAL_AUTH" "\<not> pw1_verified_other s"
    | (put) "ins cmd = INS_PUT_DATA \<or> ins cmd = INS_PUT_DATA_ODD" "\<not> put_allowed s (p1p2_tag cmd)"
    | (gen) "ins cmd = INS_GENERATE_KEY" "p1 cmd = 0x80" "p2 cmd \<in> {0xB6, 0xB8, 0xA4}" "\<not> pw3_verified s"
    | (rst) "ins cmd = INS_RESET_RETRY_COUNTER" "p1 cmd = 0x00" "p2 cmd = 0x81" "\<not> pw3_verified s"
    unfolding access_ok_def put_allowed_iff by (auto split: if_splits)
  then show ?thesis
  proof cases
    case cds
    with assms(1) show ?thesis by (simp add: handle_apdu_def ins_defs handle_pso_def)
  next
    case dec
    with assms(1) show ?thesis by (simp add: handle_apdu_def ins_defs handle_pso_def)
  next
    case aut
    with assms(1) show ?thesis by (simp add: handle_apdu_def ins_defs handle_internal_auth_def)
  next
    case put
    with assms(1) show ?thesis by (auto simp: handle_apdu_def ins_defs handle_put_data_def)
  next
    case gen
    with assms(1) show ?thesis
      by (auto simp: handle_apdu_def ins_defs handle_generate_def slot_from_p2_def)
  next
    case rst
    with assms(1) show ?thesis
      by (simp add: handle_apdu_def ins_defs handle_reset_retry_counter_def)
  qed
qed

section \<open>Well-formed replies\<close>

text \<open>
  The result vectors of the backend hold at most 512 bytes (their type in the trait). The dispatcher
  relies on this for its response buffers. \<open>msg_slot\<close> and \<open>msg_seq\<close> are the slot and the sequence
  number of a host message.
\<close>

fun msg_slot :: "pc_to_rdr \<Rightarrow> u8" where
  "msg_slot (IccPowerOn s q x) = s"
| "msg_slot (IccPowerOff s q) = s"
| "msg_slot (GetSlotStatus s q) = s"
| "msg_slot (XfrBlock s q x) = s"
| "msg_slot (Abort s q) = s"

fun msg_seq :: "pc_to_rdr \<Rightarrow> u8" where
  "msg_seq (IccPowerOn s q x) = q"
| "msg_seq (IccPowerOff s q) = q"
| "msg_seq (GetSlotStatus s q) = q"
| "msg_seq (XfrBlock s q x) = q"
| "msg_seq (Abort s q) = q"

locale bounded_backend =
  fixes B :: "'b openpgp_backend"
  assumes get_do_size: "get_do B b t = Inr d \<Longrightarrow> length d \<le> 512"
    and sign_size: "fst (pso_sign_hash B x b) = Inr d \<Longrightarrow> length d \<le> 512"
    and decipher_size: "fst (pso_decipher B x b) = Inr d \<Longrightarrow> length d \<le> 512"
    and auth_size: "fst (internal_authenticate B x b) = Inr d \<Longrightarrow> length d \<le> 512"
    and key_size: "fst (generate_or_read_key B q sl b) = Inr d \<Longrightarrow> length d \<le> 512"
begin

lemma encode_tlv_size: "tlv_step t v out = Inr d \<Longrightarrow> length d \<le> 512"
  by (auto simp: tlv_step_def encode_tlv_def ok_or_def dest!: push_all_bound split: option.splits if_splits)

lemma do_tag_size: "do_tag B t b = Inr d \<Longrightarrow> length d \<le> 512"
  by (auto simp: do_tag_def res_bind_eq_Inr dest: get_do_size encode_tlv_size split: if_splits)

lemma cds_size: "fst (pso_cds_sign B x b) = Inr d \<Longrightarrow> length d \<le> 512"
  using sign_size [of x b]
  by (auto simp: pso_cds_sign_def split: algorithm_attributes.splits if_splits prod.splits sum.splits)

lemma dec_size: "fst (pso_decipher_run B x b) = Inr d \<Longrightarrow> length d \<le> 512"
  using decipher_size [of x "log_event B 0x2A8086 b"]
  by (auto simp: pso_decipher_run_def Let_def
      split: option.splits algorithm_attributes.splits if_splits prod.splits sum.splits)

lemma chunked_size: "length d \<le> 512 \<Longrightarrow> length (rdata (fst (chunked cmd s d b))) \<le> 512"
  using chunk_response_size [of cmd s d]
  by (cases "chunk_response cmd s d") (auto simp: chunked_def)

lemma error_sizes:
  "length (rdata (rapdu_error e)) \<le> 512" "length (rdata (map_backend_err x)) \<le> 512"
  "length (rdata rapdu_ok_empty) \<le> 512"
  by (simp_all add: rapdu_ok_empty_def rapdu_ok_def rapdu_error_def map_backend_err_def)

lemma internal_auth_size: "length (rdata (fst (handle_internal_auth B cmd s b))) \<le> 512"
proof (cases "internal_authenticate B (cdata cmd) b")
  case (Pair r b1)
  with auth_size [of "cdata cmd" b] show ?thesis
    by (cases r) (simp_all add: handle_internal_auth_def chunked_size error_sizes)
qed

lemma generate_size: "length (rdata (fst (handle_generate B cmd s b))) \<le> 512"
proof (cases "slot_from_p2 (p2 cmd)")
  case (Some slot)
  obtain r b1 where g: "generate_or_read_key B (p1 cmd) slot b = (r, b1)" by fastforce
  with Some key_size [of "p1 cmd" slot b] show ?thesis
    by (cases r) (simp_all add: handle_generate_def chunked_size error_sizes)
qed (simp add: handle_generate_def error_sizes)

lemma handler_sizes:
  "length (rdata (fst (handle_get_response B cmd s b))) \<le> 512"
  "length (rdata (fst (handle_select B cmd s b))) \<le> 512"
  "length (rdata (fst (handle_verify B cmd s b))) \<le> 512"
  "length (rdata (fst (handle_get_data B cmd s b))) \<le> 512"
  "length (rdata (fst (handle_put_data B cmd s b))) \<le> 512"
  "length (rdata (fst (handle_change_reference B cmd s b))) \<le> 512"
  "length (rdata (fst (handle_reset_retry_counter B cmd s b))) \<le> 512"
  "length (rdata (fst (handle_get_challenge B cmd s b))) \<le> 512"
  "length (rdata (fst (handle_manage_security_environment cmd s))) \<le> 512"
proof -
  note small = rapdu_ok_def rapdu_ok_empty_def rapdu_error_def map_backend_err_def
  show "length (rdata (fst (handle_get_data B cmd s b))) \<le> 512"
    using do_tag_size [of "p1p2_tag cmd" b]
    by (auto simp: handle_get_data_def chunked_size small split: sum.split)
  show "length (rdata (fst (handle_get_response B cmd s b))) \<le> 512"
    by (auto simp: handle_get_response_def small Let_def split: if_splits option.splits)
  show "length (rdata (fst (handle_get_challenge B cmd s b))) \<le> 512"
    by (auto simp: handle_get_challenge_def small Let_def split: if_splits option.splits prod.split sum.split)
  show "length (rdata (fst (handle_select B cmd s b))) \<le> 512"
    "length (rdata (fst (handle_put_data B cmd s b))) \<le> 512"
    "length (rdata (fst (handle_verify B cmd s b))) \<le> 512"
    "length (rdata (fst (handle_change_reference B cmd s b))) \<le> 512"
    "length (rdata (fst (handle_reset_retry_counter B cmd s b))) \<le> 512"
    "length (rdata (fst (handle_manage_security_environment cmd s))) \<le> 512"
    by (simp_all add: handle_select_def handle_put_data_def handle_verify_def
        handle_change_reference_def handle_reset_retry_counter_def
        handle_manage_security_environment_def small Let_def
        split: option.split prod.split sum.split openpgp_backend_error.split)
qed

lemma pso_early_sizes:
  "pso_cds_sign B x b = (Inl r, b1) \<Longrightarrow> length (rdata r) \<le> 512"
  "pso_decipher_run B x b = (Inl r, b1) \<Longrightarrow> length (rdata r) \<le> 512"
  by (auto simp: pso_cds_sign_def pso_decipher_run_def error_sizes ok_or_def Let_def
      split: algorithm_attributes.splits if_splits prod.splits sum.splits option.splits)

lemma pso_size: "length (rdata (fst (handle_pso B cmd s b))) \<le> 512"
proof -
  obtain r b1 where c: "pso_cds_sign B (cdata cmd) b = (r, b1)" by fastforce
  obtain u b2 where i: "increment_signature_counter B b1 = (u, b2)" by fastforce
  obtain r' b1' where d: "pso_decipher_run B (cdata cmd) b = (r', b1')" by fastforce
  consider "p1 cmd = 0x9E \<and> p2 cmd = 0x9A" | "p1 cmd = 0x80 \<and> p2 cmd = 0x86"
    | "\<not> (p1 cmd = 0x9E \<and> p2 cmd = 0x9A)" "\<not> (p1 cmd = 0x80 \<and> p2 cmd = 0x86)" by blast
  then show ?thesis
  proof cases
    case 1
    with c i cds_size [of "cdata cmd" b] pso_early_sizes(1) [of "cdata cmd" b _ b1] show ?thesis
      by (cases r; cases u) (simp_all add: handle_pso_def chunked_size error_sizes)
  next
    case 2
    with d dec_size [of "cdata cmd" b] pso_early_sizes(2) [of "cdata cmd" b _ b1'] show ?thesis
      by (cases r') (simp_all add: handle_pso_def chunked_size error_sizes)
  next
    case 3
    then show ?thesis by (simp only: handle_pso_def if_False simp_thms error_sizes fst_conv)
  qed
qed

lemma handle_apdu_size: "length (rdata (fst (handle_apdu B cmd s b))) \<le> 512"
  using handler_sizes(9) [of cmd s]
  by (cases "handle_manage_security_environment cmd s")
    (simp add: handle_apdu_def handler_sizes internal_auth_size generate_size pso_size error_sizes)

lemma handle_ccid_frame:
  "\<exists>t a b c p. fst (handle_ccid B m d) = ccid_frame t (msg_slot m) (msg_seq m) a b c p \<and> length p \<le> 514"
proof (cases m)
  case (XfrBlock slot seq apdu)
  show ?thesis
  proof (cases "CommandApdu_parse apdu")
    case (Inl e)
    have "length ([] :: bytes) \<le> 514" by simp
    with XfrBlock Inl show ?thesis by (metis handle_ccid.simps(4) sum.case(1) fst_conv
        rdr_to_pc_slot_status_eq msg_slot.simps(4) msg_seq.simps(4))
  next
    case (Inr cmd)
    obtain r s1 b1 where h: "handle_apdu B cmd (dstate d) (dbackend d) = (r, s1, b1)"
      by (cases "handle_apdu B cmd (dstate d) (dbackend d)")
    then have "length (rdata r) \<le> 512" using handle_apdu_size [of cmd "dstate d" "dbackend d"] by simp
    then have "length (rapdu_to_bytes r) \<le> 514" by (simp add: rapdu_to_bytes_def)
    with XfrBlock Inr h show ?thesis by (simp add: rdr_to_pc_data_block_eq) blast
  qed
qed (force simp: rdr_to_pc_slot_status_eq rdr_to_pc_parameters_eq atr_openpgp_profile_def)+

end

text \<open>The vault backend stays within the bounds.\<close>

lemma out512_size: "out512 x = Inr d \<Longrightarrow> length d \<le> 512"
  by (auto simp: out512_def split: if_splits)

interpretation vault: bounded_backend "OpenPgpVaultBackend E" for E
proof unfold_locales
  fix b :: "'a vault_backend" and t x d q sl
  show "get_do (OpenPgpVaultBackend E) b t = Inr d \<Longrightarrow> length d \<le> 512"
    by (auto simp: OpenPgpVaultBackend_def vb_get_do_def split: if_splits option.splits)
  show "fst (pso_sign_hash (OpenPgpVaultBackend E) x b) = Inr d \<Longrightarrow> length d \<le> 512"
    by (auto simp: OpenPgpVaultBackend_def vb_pso_sign_hash_def unless_terminated_def res_bind_eq_Inr
        dest: out512_size split: if_splits option.splits)
  show "fst (pso_decipher (OpenPgpVaultBackend E) x b) = Inr d \<Longrightarrow> length d \<le> 512"
    by (auto simp: OpenPgpVaultBackend_def vb_pso_decipher_def unless_terminated_def split: if_splits)
  show "fst (internal_authenticate (OpenPgpVaultBackend E) x b) = Inr d \<Longrightarrow> length d \<le> 512"
    by (auto simp: OpenPgpVaultBackend_def vb_internal_authenticate_def unless_terminated_def
        res_bind_eq_Inr dest: out512_size split: if_splits option.splits)
  have rd: "read_public_key E sl b = Inr d \<Longrightarrow> length d \<le> 512"
    by (auto simp: read_public_key_def Let_def res_bind_eq_Inr dest: out512_size
        split: openpgp_key_slot.splits algorithm_attributes.splits if_splits option.splits)
  have ge: "fst (generate_ed25519 E p i f b) = Inr d \<Longrightarrow> length d \<le> 512" for p i f
    by (auto simp: generate_ed25519_def dest: out512_size split: prod.splits sum.splits)
  have gb: "fst (generate_brainpool E p i g (\<lambda>k. out512 (f k)) b) = Inr d \<Longrightarrow> length d \<le> 512"
    "fst (generate_brainpool E p i g (\<lambda>k. res_bind (h k) (\<lambda>pk. out512 (f pk))) b) = Inr d \<Longrightarrow> length d \<le> 512"
    for p i g f and h :: "bytes \<Rightarrow> bytes backend_result"
    by (auto simp: generate_brainpool_def res_bind_eq_Inr dest: out512_size split: prod.splits sum.splits)
  have gk: "fst (generate_key E sl b) = Inr d \<Longrightarrow> length d \<le> 512"
    by (auto simp: generate_key_def Let_def dest: ge gb
        split: openpgp_key_slot.splits algorithm_attributes.splits if_splits)
  show "fst (generate_or_read_key (OpenPgpVaultBackend E) q sl b) = Inr d \<Longrightarrow> length d \<le> 512"
    using rd gk
    by (auto simp: OpenPgpVaultBackend_def vb_generate_or_read_key_def unless_terminated_def split: if_splits)
qed

section \<open>Properties\<close>

text \<open>
  (C4) No privilege without a PIN: whatever sequence of CCID messages and bus resets a card has seen
  since it started, and whatever backend it runs on, if one of the three session flags is set, then
  one of these messages carried a VERIFY command for exactly that flag, which the backend accepted,
  and no power-off, abort or bus reset came after it.
\<close>

theorem session_flag_needs_verify:
  assumes "card_run B (dispatcher_new b0) evs d" and "p \<in> {0x81, 0x82, 0x83}" and "flag_of p (dstate d)"
  shows "\<exists>evs1 e evs2 d1. evs = evs1 @ e # evs2 \<and> card_run B (dispatcher_new b0) evs1 d1
    \<and> event_verifies B p d1 e \<and> \<not> event_resets e \<and> (\<forall>x \<in> set evs2. \<not> event_resets x)"
proof -
  have "\<not> flag_of p (dstate (dispatcher_new b0))"
    by (simp add: dispatcher_new_def flag_of_def card_state_new_def)
  with assms show ?thesis by (rule flag_needs_verify)
qed

text \<open>A VERIFY command for the signing flag as it arrives from the host, and the rig that accepts it.\<close>

definition verify_event :: host_event where
  "verify_event = HostMsg (XfrBlock 0 0 [0x00, 0x20, 0x00, 0x81, 5, 1, 2, 3, 4, 5])"

abbreviation rig_vault :: "card_world vault_backend openpgp_backend" where
  "rig_vault \<equiv> OpenPgpVaultBackend (rig_env plain_crypto [])"

abbreviation rig_card :: "card_world vault_backend dispatcher" where
  "rig_card \<equiv> dispatcher_new (rig_backend (sha256 plain_crypto [1, 2, 3, 4, 5]) (replicate 32 0))"

lemma verify_event_command:
  "event_command verify_event =
     Some \<lparr>cla = 0, ins = 0x20, p1 = 0, p2 = 0x81, cdata = [1, 2, 3, 4, 5], le = None\<rparr>"
  by code_simp

lemma rig_verifies: "event_verifies rig_vault 0x81 rig_card verify_event"
proof -
  let ?b = "rig_backend (sha256 plain_crypto [1, 2, 3, 4, 5]) (replicate 32 0)"
  have hyp: "\<not> fc_fail_next (cw_user (vb_world ?b))" "\<not> vb_termination ?b"
    "pstate (vb_user_machine ?b) \<noteq> Bricked" "max_attempts (config (vb_user_machine ?b)) < 0xFFFFFFFF"
    by (simp_all add: vault_backend_blank_def rig_world_healthy pin_machine_new_def
        pin_policy_config_default_def DEFAULT_MAX_PIN_ATTEMPTS_def)
  have "fst (verify_user (rig_env plain_crypto []) [1, 2, 3, 4, 5] ?b) = Inr ()"
    using verify_user_verdict(1) [OF rig.user_counter [of "[]"] hyp, of "[1, 2, 3, 4, 5]"]
    by (simp add: pin_verdict_def vault_backend_blank_def rig_world_healthy pin_machine_new_def
        pin_policy_config_default_def DEFAULT_MAX_PIN_ATTEMPTS_def rig_env_def)
  then obtain b1 where "verify_user (rig_env plain_crypto []) [1, 2, 3, 4, 5] ?b = (Inr (), b1)"
    by (metis prod.collapse)
  with hyp show ?thesis
    by (simp add: event_verifies_def verify_event_command verify_succeeds_def ins_defs backend_verify_def
        OpenPgpVaultBackend_def dispatcher_new_def)
qed

lemma rig_verified: "pw1_verified_sign (dstate (dispatch_event rig_vault verify_event rig_card))"
proof -
  have "\<not> event_resets verify_event" by (simp add: verify_event_def)
  moreover have "\<not> event_signs rig_vault rig_card verify_event"
    by (simp add: event_signs_def verify_event_command pso_releases_def ins_defs)
  ultimately show ?thesis
    using dispatch_event_flags [of rig_vault verify_event rig_card] rig_verifies
    by (simp add: session_flags_def)
qed

theorem session_flag_needs_verify_witness:
  "\<exists>d. card_run rig_vault rig_card [verify_event] d \<and> flag_of 0x81 (dstate d)
    \<and> (\<exists>d1. event_verifies rig_vault 0x81 d1 verify_event)"
proof -
  let ?d = "dispatch_event rig_vault verify_event rig_card"
  have r: "card_run rig_vault rig_card [verify_event] ?d"
    using card_run.step [OF card_run.start, of rig_vault rig_card verify_event] by simp
  have f: "flag_of 0x81 (dstate ?d)" using rig_verified by (simp add: flag_of_def)
  obtain evs1 e evs2 d1 where "[verify_event] = evs1 @ e # evs2" "event_verifies rig_vault 0x81 d1 e"
    using session_flag_needs_verify [OF r _ f] by blast
  then have "event_verifies rig_vault 0x81 d1 verify_event" by (cases evs1) auto
  with r f show ?thesis by blast
qed


text \<open>
  (C6) Access control: a command whose access rule is not met is refused with 6982 in a CCID data
  block, and neither the session nor the backend (keys, PINs, data objects, counters, random numbers)
  changes. The rules: PSO:CDS needs the signing flag; PSO:DECIPHER, INTERNAL AUTHENTICATE and the
  private data objects 0101 to 0104 the other PW1 flag; every other PUT DATA, key generation and
  RESET RETRY COUNTER the PW3 flag.
\<close>

theorem access_control:
  assumes "\<not> is_termination_state B (dbackend d)" and "CommandApdu_parse apdu = Inr cmd"
    and "\<not> access_ok (dstate d) cmd"
  shows "handle_ccid B (XfrBlock slot seq apdu) d =
    (ccid_frame RDR_TO_PC_DATA_BLOCK slot seq 0 0 0 [0x69, 0x82], d)"
  using assms access_denied [OF assms(1,3)]
  by (simp add: rdr_to_pc_data_block_eq rapdu_to_bytes_def rapdu_error_def ok_active_def)

theorem access_control_witness:
  "handle_ccid rig_vault (XfrBlock 0 7 [0x00, 0x2A, 0x9E, 0x9A, 2, 0xAB, 0xCD]) rig_card =
    (ccid_frame RDR_TO_PC_DATA_BLOCK 0 7 0 0 0 [0x69, 0x82], rig_card)"
proof -
  have p: "CommandApdu_parse [0x00, 0x2A, 0x9E, 0x9A, 2, 0xAB, 0xCD] =
      Inr \<lparr>cla = 0, ins = 0x2A, p1 = 0x9E, p2 = 0x9A, cdata = [0xAB, 0xCD], le = None\<rparr>"
    by code_simp
  show ?thesis
    by (rule access_control [OF _ p])
      (simp_all add: OpenPgpVaultBackend_def dispatcher_new_def vault_backend_blank_def access_ok_def
        ins_defs card_state_new_def)
qed



text \<open>
  (C9) Termination is final: once the vault backend is terminated, no sequence of messages and bus
  resets changes anything in it but the session audit value, and every command is answered with 6983
  (VERIFY) or 6285 (all others).
\<close>

theorem terminated_card_is_final:
  assumes "vb_termination (dbackend d)" and "card_run (OpenPgpVaultBackend E) d evs d'"
  shows "(\<exists>a. dbackend d' = (dbackend d)\<lparr>vb_audit := a\<rparr>)
    \<and> (CommandApdu_parse apdu = Inr cmd \<longrightarrow>
        handle_ccid (OpenPgpVaultBackend E) (XfrBlock slot seq apdu) d' =
          (ccid_frame RDR_TO_PC_DATA_BLOCK slot seq 0 0 0
             (if ins cmd = INS_VERIFY then [0x69, 0x83] else [0x62, 0x85]), d'))"
proof -
  let ?B = "OpenPgpVaultBackend E"
  have is_term: "is_termination_state ?B = vb_termination" by (simp add: OpenPgpVaultBackend_def)
  have audit_only: "\<exists>a. dbackend (dispatch_event ?B e d1) = (dbackend d1)\<lparr>vb_audit := a\<rparr>"
    if "vb_termination (dbackend d1)" for e d1
  proof -
    have same: "\<exists>a. b = b\<lparr>vb_audit := a\<rparr>" for b :: "'a vault_backend"
      by (rule exI [of _ "vb_audit b"]) simp
    show ?thesis
      using that
      by (cases e rule: event_command.cases)
        (auto simp: on_usb_reset_def is_term handle_apdu_def same OpenPgpVaultBackend_def
          vb_on_lock_disconnect_def split: sum.split)
  qed
  from assms(2) have keep: "\<exists>a. dbackend d' = (dbackend d)\<lparr>vb_audit := a\<rparr>"
  proof (induction rule: card_run.induct)
    case start
    show ?case by (rule exI [of _ "vb_audit (dbackend d)"]) simp
  next
    case (step evs d1 e)
    then obtain a where a: "dbackend d1 = (dbackend d)\<lparr>vb_audit := a\<rparr>" by blast
    with assms(1) have "vb_termination (dbackend d1)" by simp
    from audit_only [OF this, of e] a show ?case by auto
  qed
  with assms(1) have "vb_termination (dbackend d')" by auto
  with keep show ?thesis
    by (simp add: is_term handle_apdu_def rdr_to_pc_data_block_eq rapdu_to_bytes_def rapdu_error_def
        ok_active_def)
qed

theorem terminated_card_is_final_witness:
  "handle_ccid rig_vault (XfrBlock 0 3 [0x00, 0xCA, 0x00, 0x4F, 0x00])
     (dispatcher_new ((dbackend rig_card)\<lparr>vb_termination := True\<rparr>)) =
   (ccid_frame RDR_TO_PC_DATA_BLOCK 0 3 0 0 0 [0x62, 0x85],
    dispatcher_new ((dbackend rig_card)\<lparr>vb_termination := True\<rparr>))"
proof -
  let ?d = "dispatcher_new ((dbackend rig_card)\<lparr>vb_termination := True\<rparr>)"
  have t: "vb_termination (dbackend ?d)" by (simp add: dispatcher_new_def)
  have c: "CommandApdu_parse [0x00, 0xCA, 0x00, 0x4F, 0x00] =
      Inr \<lparr>cla = 0, ins = 0xCA, p1 = 0, p2 = 0x4F, cdata = [], le = Some 256\<rparr>" by code_simp
  show ?thesis
    using terminated_card_is_final [OF t card_run.start] c by (simp add: ins_defs)
qed

text \<open>
  (C36) Every reply is a well-formed CCID message: for the vault backend, whatever the message and the
  state, the reply is a ten-byte header that echoes slot and sequence number and announces exactly the
  bytes that follow, at most 514; the payload of the reply to a parsed APDU is the complete response
  of the command handler, nothing being cut off by the fixed-size buffers.
\<close>

theorem ccid_reply_wellformed:
  "(\<exists>t st er ch p. fst (handle_ccid (OpenPgpVaultBackend E) m d) =
      [t] @ u32_le (of_nat (length p)) @ [msg_slot m, msg_seq m, st, er, ch] @ p \<and> length p \<le> 514)
   \<and> (case m of
        XfrBlock slot seq apdu \<Rightarrow>
          (case CommandApdu_parse apdu of
             Inr cmd \<Rightarrow>
               (let r = fst (handle_apdu (OpenPgpVaultBackend E) cmd (dstate d) (dbackend d)) in
                drop 10 (fst (handle_ccid (OpenPgpVaultBackend E) m d)) = rdata r @ [rsw1 r, rsw2 r])
           | Inl _ \<Rightarrow> True)
      | _ \<Rightarrow> True)"
proof -
  let ?B = "OpenPgpVaultBackend E"
  have "drop 10 (fst (handle_ccid ?B (XfrBlock slot seq apdu) d)) = rdata r @ [rsw1 r, rsw2 r]"
    if q: "CommandApdu_parse apdu = Inr cmd" "r = fst (handle_apdu ?B cmd (dstate d) (dbackend d))"
    for slot seq apdu cmd r
  proof -
    have "length (rdata r) \<le> 512"
      using vault.handle_apdu_size [of E cmd "dstate d" "dbackend d"] q(2) by simp
    then have "rapdu_to_bytes r = rdata r @ [rsw1 r, rsw2 r]" by (simp add: rapdu_to_bytes_def)
    moreover from this have "length (rapdu_to_bytes r) \<le> 514" using \<open>length (rdata r) \<le> 512\<close> by simp
    moreover obtain s1 b1 where "handle_apdu ?B cmd (dstate d) (dbackend d) = (r, s1, b1)"
      using q(2) by (metis prod.collapse)
    ultimately show ?thesis
      using q(1) by (simp add: rdr_to_pc_data_block_eq ccid_frame_def u32_le_def)
  qed
  with vault.handle_ccid_frame [of E m d] show ?thesis
    by (auto simp: ccid_frame_def Let_def split: pc_to_rdr.split sum.split)
qed

end
