(* ===== verification/Usb_Ccid.thy ===== *)
theory Usb_Ccid
  imports Card_Session
begin

text \<open>
  The USB CCID class driver of \<open>crates/usb-personality/src/ccid/usb_class.rs\<close>: assembly of host
  messages from 64-byte bulk OUT packets, their dispatch, and the reply sent back in 64-byte bulk
  IN packets.

  The driver is generic in the dispatcher (\<open>OpenPgpDispatch\<close>), here a record of its two
  operations; \<open>OpenPgpCcidDispatcher\<close> is the one of \<open>dispatch.rs\<close>. The \<open>usb_device\<close> crate is not
  modelled: what an endpoint read or write returns is an argument of the step that calls it, so
  every theorem holds for every behaviour of the bus. Of its error type the driver tells only
  \<open>WouldBlock\<close> from the rest.
\<close>

section \<open>Dispatcher interface and driver state\<close>

record 'd openpgp_dispatch =
  dp_handle_ccid :: "pc_to_rdr \<Rightarrow> 'd \<Rightarrow> bytes \<times> 'd"
  dp_on_usb_reset :: "'d \<Rightarrow> 'd"

definition OpenPgpCcidDispatcher :: "'b openpgp_backend \<Rightarrow> 'b dispatcher openpgp_dispatch" where
  "OpenPgpCcidDispatcher B = \<lparr>dp_handle_ccid = handle_ccid B, dp_on_usb_reset = on_usb_reset B\<rparr>"

datatype usb_error = WouldBlock | OtherUsbError

record 'd ccid_protocol_state =
  cp_dispatch :: 'd
  cp_rx_buf :: bytes
  cp_tx_buf :: bytes
  cp_tx_pending :: bool

record 'd ccid_class =
  cc_iface :: u8
  cc_bulk_out :: u8
  cc_protocol :: "'d ccid_protocol_state"

section \<open>Operations\<close>

definition remove_prefix :: "'a list \<Rightarrow> nat \<Rightarrow> 'a list" where
  "remove_prefix v n =
     (let len = length v in
      if n \<ge> len then []
      else take (len - n) (foldl (\<lambda>v i. v[i := v ! (i + n)]) v [0..<len - n]))"

definition ccid_protocol_new :: "'d \<Rightarrow> 'd ccid_protocol_state" where
  "ccid_protocol_new d = \<lparr>cp_dispatch = d, cp_rx_buf = [], cp_tx_buf = [], cp_tx_pending = False\<rparr>"

definition try_dispatch :: "'d openpgp_dispatch \<Rightarrow> 'd ccid_protocol_state \<Rightarrow> 'd ccid_protocol_state" where
  "try_dispatch D p =
     (if length (cp_rx_buf p) < 10 then p
      else
        let total = 10 + unat (rd_u32_le (cp_rx_buf p) 1) in
        if total > CCID_WIRE_BUF_SIZE then
          p\<lparr>cp_rx_buf := [], cp_tx_buf := rdr_to_pc_slot_status 0 0 cmd_not_supported, cp_tx_pending := True\<rparr>
        else if length (cp_rx_buf p) < total then p
        else
          case push_all CCID_WIRE_BUF_SIZE [] (take total (cp_rx_buf p)) of
            None \<Rightarrow> p\<lparr>cp_rx_buf := []\<rparr>
          | Some msg \<Rightarrow>
              let p = p\<lparr>cp_rx_buf := remove_prefix (cp_rx_buf p) total\<rparr> in
              (case parse_pc_to_rdr msg of
                 Inr pc_msg \<Rightarrow>
                   (case dp_handle_ccid D pc_msg (cp_dispatch p) of
                      (reply, d) \<Rightarrow> p\<lparr>cp_dispatch := d, cp_tx_buf := reply, cp_tx_pending := True\<rparr>)
               | Inl _ \<Rightarrow>
                   p\<lparr>cp_tx_buf := rdr_to_pc_slot_status 0 0 cmd_not_supported, cp_tx_pending := True\<rparr>))"

definition push_out_bytes :: "'d openpgp_dispatch \<Rightarrow> bytes \<Rightarrow> 'd ccid_protocol_state \<Rightarrow> 'd ccid_protocol_state" where
  "push_out_bytes D data p =
     (if data = [] then p
      else if length (cp_rx_buf p) + length data > CCID_WIRE_BUF_SIZE then p\<lparr>cp_rx_buf := []\<rparr>
      else try_dispatch D (p\<lparr>cp_rx_buf := cp_rx_buf p @ data\<rparr>))"

text \<open>One poll offers at most one chunk to the endpoint. The first component is what the endpoint
  took of it.\<close>

definition poll_bulk_in_inner ::
  "(bytes \<Rightarrow> usb_error + nat) \<Rightarrow> 'd ccid_protocol_state \<Rightarrow> bytes \<times> 'd ccid_protocol_state" where
  "poll_bulk_in_inner write p =
     (if \<not> cp_tx_pending p \<or> cp_tx_buf p = [] then ([], p)
      else
        let chunk = take (min (length (cp_tx_buf p)) 64) (cp_tx_buf p) in
        case write chunk of
          Inr n \<Rightarrow>
            (take n chunk,
             let p = p\<lparr>cp_tx_buf := remove_prefix (cp_tx_buf p) n\<rparr> in
             if cp_tx_buf p = [] then p\<lparr>cp_tx_pending := False\<rparr> else p)
        | Inl WouldBlock \<Rightarrow> ([], p)
        | Inl OtherUsbError \<Rightarrow> ([], p\<lparr>cp_tx_pending := False, cp_tx_buf := []\<rparr>))"

definition ccid_protocol_reset :: "'d openpgp_dispatch \<Rightarrow> 'd ccid_protocol_state \<Rightarrow> 'd ccid_protocol_state" where
  "ccid_protocol_reset D p =
     p\<lparr>cp_rx_buf := [], cp_tx_buf := [], cp_tx_pending := False,
       cp_dispatch := dp_on_usb_reset D (cp_dispatch p)\<rparr>"

section \<open>The USB class\<close>

definition ccid_class_new :: "u8 \<Rightarrow> u8 \<Rightarrow> 'd \<Rightarrow> 'd ccid_class" where
  "ccid_class_new iface out d =
     \<lparr>cc_iface = iface, cc_bulk_out = out, cc_protocol = ccid_protocol_new d\<rparr>"

definition ccid_class_reset :: "'d openpgp_dispatch \<Rightarrow> 'd ccid_class \<Rightarrow> 'd ccid_class" where
  "ccid_class_reset D c = c\<lparr>cc_protocol := ccid_protocol_reset D (cc_protocol c)\<rparr>"

definition ccid_class_poll :: "(bytes \<Rightarrow> usb_error + nat) \<Rightarrow> 'd ccid_class \<Rightarrow> bytes \<times> 'd ccid_class" where
  "ccid_class_poll write c =
     (case poll_bulk_in_inner write (cc_protocol c) of (sent, p) \<Rightarrow> (sent, c\<lparr>cc_protocol := p\<rparr>))"

text \<open>\<open>rd\<close> is what reading the bulk OUT endpoint into the 64-byte buffer gives: the bytes read.\<close>

definition ccid_class_endpoint_out ::
  "'d openpgp_dispatch \<Rightarrow> u8 \<Rightarrow> usb_error + bytes \<Rightarrow> 'd ccid_class \<Rightarrow> 'd ccid_class" where
  "ccid_class_endpoint_out D addr rd c =
     (if addr \<noteq> cc_bulk_out c then c
      else case rd of
          Inr data \<Rightarrow> c\<lparr>cc_protocol := push_out_bytes D data (cc_protocol c)\<rparr>
        | Inl _ \<Rightarrow> c)"

text \<open>The configuration descriptors, as the calls made on the descriptor writer.\<close>

datatype descriptor_call =
    WriterIad u8 u8 u8 u8 u8
  | WriterInterface u8 u8 u8 u8
  | WriterWrite u8 bytes
  | WriterEndpoint string

definition USB_INTERFACE_CLASS_CCID :: u8 where "USB_INTERFACE_CLASS_CCID = 0x0B"
definition USB_INTERFACE_SUBCLASS_CCID :: u8 where "USB_INTERFACE_SUBCLASS_CCID = 0x00"
definition USB_INTERFACE_PROTOCOL_CCID :: u8 where "USB_INTERFACE_PROTOCOL_CCID = 0x00"

definition ccid_configuration_descriptors :: "'d ccid_class \<Rightarrow> descriptor_call list" where
  "ccid_configuration_descriptors c =
     [WriterInterface (cc_iface c) USB_INTERFACE_CLASS_CCID USB_INTERFACE_SUBCLASS_CCID
        USB_INTERFACE_PROTOCOL_CCID,
      WriterWrite 0x21 (drop 2 ccid_class_descriptor_bytes),
      WriterEndpoint ''bulk_out'', WriterEndpoint ''bulk_in'', WriterEndpoint ''interrupt_in'']"

text \<open>Each call is followed by \<open>?\<close>: the first error ends the sequence.\<close>

fun write_descriptors :: "(descriptor_call \<Rightarrow> 'w \<Rightarrow> 'e + 'w) \<Rightarrow> descriptor_call list \<Rightarrow> 'w \<Rightarrow> 'e + 'w" where
  "write_descriptors wr [] w = Inr w"
| "write_descriptors wr (c # cs) w =
     (case wr c w of Inl e \<Rightarrow> Inl e | Inr w1 \<Rightarrow> write_descriptors wr cs w1)"

section \<open>Runs of the class\<close>

datatype usb_event =
    EndpointOut u8 "usb_error + bytes"
  | Poll "bytes \<Rightarrow> usb_error + nat"
  | BusReset

fun usb_step :: "'d openpgp_dispatch \<Rightarrow> usb_event \<Rightarrow> 'd ccid_class \<Rightarrow> 'd ccid_class" where
  "usb_step D (EndpointOut addr rd) c = ccid_class_endpoint_out D addr rd c"
| "usb_step D (Poll write) c = snd (ccid_class_poll write c)"
| "usb_step D BusReset c = ccid_class_reset D c"

definition usb_run :: "'d openpgp_dispatch \<Rightarrow> usb_event list \<Rightarrow> 'd ccid_class \<Rightarrow> 'd ccid_class" where
  "usb_run D evs c = fold (usb_step D) evs c"

fun out_bytes :: "u8 \<Rightarrow> usb_event \<Rightarrow> bytes" where
  "out_bytes out (EndpointOut addr (Inr data)) = (if addr = out then data else [])"
| "out_bytes out _ = []"

definition received :: "u8 \<Rightarrow> usb_event list \<Rightarrow> bytes" where
  "received out evs = concat (map (out_bytes out) evs)"

fun is_reset :: "usb_event \<Rightarrow> bool" where
  "is_reset BusReset = True"
| "is_reset _ = False"

text \<open>
  The bus events that carry one event of the card: a host message, cut into packets in any way and
  interleaved with polls; or a bus reset, possibly in the middle of a message.
\<close>

fun carries :: "u8 \<Rightarrow> host_event \<Rightarrow> usb_event list \<Rightarrow> bool" where
  "carries out (HostMsg m) evs \<longleftrightarrow>
     (\<forall>e\<in>set evs. \<not> is_reset e) \<and> parse_pc_to_rdr (received out evs) = Inr m"
| "carries out UsbReset evs \<longleftrightarrow>
     (\<exists>es f m k. evs = es @ [BusReset] \<and> (\<forall>e\<in>set es. \<not> is_reset e)
        \<and> parse_pc_to_rdr f = Inr m \<and> k < length f \<and> received out es = take k f)"

text \<open>A sequence of polls, with the bytes the endpoint took.\<close>

fun poll_run ::
  "(bytes \<Rightarrow> usb_error + nat) list \<Rightarrow> 'd ccid_protocol_state \<Rightarrow> bytes list \<times> 'd ccid_protocol_state" where
  "poll_run [] p = ([], p)"
| "poll_run (w # ws) p =
     (case poll_bulk_in_inner w p of (sent, q) \<Rightarrow>
      (case poll_run ws q of (rest, r) \<Rightarrow> (sent # rest, r)))"

text \<open>An endpoint that takes the whole chunk when it is free and blocks otherwise.\<close>

fun paced :: "bool \<Rightarrow> bytes \<Rightarrow> usb_error + nat" where
  "paced free chunk = (if free then Inr (length chunk) else Inl WouldBlock)"

section \<open>Buffer operations\<close>

lemma shift_loop:
  "k + n \<le> length v \<Longrightarrow>
   foldl (\<lambda>v i. v[i := v ! (i + n)]) v [0..<k] = take k (drop n v) @ drop k v"
proof (induction k)
  case (Suc k)
  have "(take k (drop n v) @ drop k v)[k := v ! (k + n)] = take k (drop n v) @ v ! (n + k) # drop (Suc k) v"
    using Suc.prems by (simp add: list_update_append Cons_nth_drop_Suc [of k v, symmetric] add.commute)
  also have "\<dots> = take (Suc k) (drop n v) @ drop (Suc k) v"
    using Suc.prems by (simp add: take_Suc_conv_app_nth)
  finally show ?case
    using Suc by (simp add: nth_append)
qed simp

lemma remove_prefix_drop [simp]: "remove_prefix v n = drop n v"
  by (simp add: remove_prefix_def Let_def shift_loop)

lemma parse_pc_to_rdr_lengths:
  assumes "parse_pc_to_rdr f = Inr m"
  shows "10 \<le> length f" "length f \<le> 522" "unat (rd_u32_le f (Suc 0)) = length f - 10"
  using assms by (auto simp: parse_pc_to_rdr_def Let_def unat_eq_zero split: if_splits option.splits)

lemma rd_u32_le_take: "i + 4 \<le> k \<Longrightarrow> rd_u32_le (take k f) i = rd_u32_le f i"
  by (simp add: rd_u32_le_def)

text \<open>What one packet does, by what is in the buffer after it.\<close>

lemma push_incomplete:
  assumes f: "parse_pc_to_rdr f = Inr m" and k: "k < length f" and rx: "cp_rx_buf p @ data = take k f"
  shows "push_out_bytes D data p = p\<lparr>cp_rx_buf := take k f\<rparr>"
proof (cases "data = []")
  case True
  with rx show ?thesis by (simp add: push_out_bytes_def)
next
  case False
  note len = parse_pc_to_rdr_lengths [OF f]
  have "length (cp_rx_buf p) + length data = k"
    using arg_cong [OF rx, of length] k by simp
  moreover have "unat (rd_u32_le (take k f) (Suc 0)) = length f - 10" if "10 \<le> k"
    using len that by (simp add: rd_u32_le_take)
  ultimately show ?thesis
    using False k len by (simp add: push_out_bytes_def try_dispatch_def Let_def rx)
qed

lemma push_complete_rest:
  assumes f: "parse_pc_to_rdr f = Inr m" and rx: "cp_rx_buf p @ data = f @ rest" and data: "data \<noteq> []"
    and fits: "length (f @ rest) \<le> CCID_WIRE_BUF_SIZE"
  shows "push_out_bytes D data p =
    p\<lparr>cp_rx_buf := rest, cp_dispatch := snd (dp_handle_ccid D m (cp_dispatch p)),
      cp_tx_buf := fst (dp_handle_ccid D m (cp_dispatch p)), cp_tx_pending := True\<rparr>"
proof -
  note len = parse_pc_to_rdr_lengths [OF f]
  have "length (cp_rx_buf p) + length data = length f + length rest"
    using arg_cong [OF rx, of length] by simp
  moreover have "rd_u32_le (f @ rest) (Suc 0) = rd_u32_le f (Suc 0)"
    using len(1) by (simp add: rd_u32_le_def nth_append)
  ultimately show ?thesis
    using data fits len
    by (simp add: push_out_bytes_def try_dispatch_def Let_def rx f push_all_eq split: prod.splits)
qed

lemma push_complete:
  assumes f: "parse_pc_to_rdr f = Inr m" and rx: "cp_rx_buf p @ data = f" and data: "data \<noteq> []"
  shows "push_out_bytes D data p =
    p\<lparr>cp_rx_buf := [], cp_dispatch := snd (dp_handle_ccid D m (cp_dispatch p)),
      cp_tx_buf := fst (dp_handle_ccid D m (cp_dispatch p)), cp_tx_pending := True\<rparr>"
  using push_complete_rest [OF f, of p data "[]"] rx data parse_pc_to_rdr_lengths(2) [OF f] by simp

lemma poll_keeps [simp]:
  "cp_rx_buf (snd (poll_bulk_in_inner w p)) = cp_rx_buf p"
  "cp_dispatch (snd (poll_bulk_in_inner w p)) = cp_dispatch p"
  by (auto simp: poll_bulk_in_inner_def Let_def split: sum.splits usb_error.splits)


section \<open>Assembly of messages\<close>

lemma usb_run_simps [simp]:
  "usb_run D [] c = c" "usb_run D (e # evs) c = usb_run D evs (usb_step D e c)"
  "usb_run D (es @ evs) c = usb_run D evs (usb_run D es c)"
  by (simp_all add: usb_run_def)

lemma received_simps [simp]:
  "received out [] = []" "received out (e # evs) = out_bytes out e @ received out evs"
  by (simp_all add: received_def)

abbreviation rx :: "'d ccid_class \<Rightarrow> bytes" where "rx c \<equiv> cp_rx_buf (cc_protocol c)"
abbreviation dsp :: "'d ccid_class \<Rightarrow> 'd" where "dsp c \<equiv> cp_dispatch (cc_protocol c)"

lemma usb_step_bulk_out [simp]: "cc_bulk_out (usb_step D e c) = cc_bulk_out c"
  by (cases e) (auto simp: ccid_class_endpoint_out_def ccid_class_poll_def ccid_class_reset_def
      split: sum.splits prod.splits)

lemma usb_run_bulk_out [simp]: "cc_bulk_out (usb_run D evs c) = cc_bulk_out c"
  by (induction evs arbitrary: c) simp_all

lemma usb_step_bytes:
  assumes "\<not> is_reset e"
  shows "rx (usb_step D e c) = cp_rx_buf (push_out_bytes D (out_bytes (cc_bulk_out c) e) (cc_protocol c))"
    and "dsp (usb_step D e c) = cp_dispatch (push_out_bytes D (out_bytes (cc_bulk_out c) e) (cc_protocol c))"
  using assms
  by (cases "(cc_bulk_out c, e)" rule: out_bytes.cases;
      simp add: ccid_class_endpoint_out_def ccid_class_poll_def push_out_bytes_def [of D "[]"]
        case_prod_unfold)+

lemma usb_run_incomplete:
  assumes "parse_pc_to_rdr f = Inr m" "k < length f"
    "\<forall>e\<in>set evs. \<not> is_reset e" "rx c @ received (cc_bulk_out c) evs = take k f"
  shows "rx (usb_run D evs c) = take k f \<and> dsp (usb_run D evs c) = dsp c"
  using assms(3,4)
proof (induction evs arbitrary: c)
  case (Cons e evs)
  let ?d = "out_bytes (cc_bulk_out c) e"
  have pre: "rx c @ ?d = take (length (rx c @ ?d)) f" and short: "length (rx c @ ?d) \<le> k"
  proof -
    from Cons.prems(2) have eq: "take k f = (rx c @ ?d) @ received (cc_bulk_out c) evs" by simp
    from arg_cong [OF eq, of length] show short: "length (rx c @ ?d) \<le> k" by simp
    have "rx c @ ?d = take (length (rx c @ ?d)) (take k f)" by (simp add: eq)
    with short show "rx c @ ?d = take (length (rx c @ ?d)) f" by (simp add: min_def)
  qed
  have "push_out_bytes D ?d (cc_protocol c) = (cc_protocol c)\<lparr>cp_rx_buf := rx c @ ?d\<rparr>"
    using push_incomplete [OF assms(1) _ pre] short assms(2) pre by simp
  with Cons.prems Cons.IH [of "usb_step D e c"] show ?case
    by (simp add: usb_step_bytes)
qed simp

lemma usb_run_quiet:
  assumes "\<forall>e\<in>set evs. \<not> is_reset e" "received (cc_bulk_out c) evs = []"
  shows "rx (usb_run D evs c) = rx c \<and> dsp (usb_run D evs c) = dsp c"
  using assms
  by (induction evs arbitrary: c) (simp_all add: usb_step_bytes push_out_bytes_def)

lemma usb_run_complete:
  assumes f: "parse_pc_to_rdr f = Inr m" and "\<forall>e\<in>set evs. \<not> is_reset e"
    "rx c @ received (cc_bulk_out c) evs = f" "rx c \<noteq> f"
  shows "rx (usb_run D evs c) = [] \<and> dsp (usb_run D evs c) = snd (dp_handle_ccid D m (dsp c))"
  using assms(2-)
proof (induction evs arbitrary: c)
  case (Cons e evs)
  let ?d = "out_bytes (cc_bulk_out c) e" and ?r = "received (cc_bulk_out c) evs"
  have eq: "f = (rx c @ ?d) @ ?r" using Cons.prems(2) by simp
  show ?case
  proof (cases "?r = []")
    case True
    with eq Cons.prems(3) have "?d \<noteq> []" "rx c @ ?d = f" by auto
    with f True Cons.prems(1) show ?thesis
      using usb_run_quiet [of evs "usb_step D e c" D] by (simp add: usb_step_bytes push_complete)
  next
    case False
    then have short: "length (rx c @ ?d) < length f" by (subst eq) simp
    have pre: "rx c @ ?d = take (length (rx c @ ?d)) f"
      using eq by (metis append_eq_conv_conj)
    have "push_out_bytes D ?d (cc_protocol c) = (cc_protocol c)\<lparr>cp_rx_buf := rx c @ ?d\<rparr>"
      using push_incomplete [OF f short pre] pre by simp
    with Cons.prems Cons.IH [of "usb_step D e c"] short show ?thesis
      by (auto simp: usb_step_bytes)
  qed
qed auto

section \<open>Refinement of the card's runs\<close>

lemma ccid_class_reset_simps [simp]:
  "rx (ccid_class_reset D c) = []" "dsp (ccid_class_reset D c) = dp_on_usb_reset D (dsp c)"
  by (simp_all add: ccid_class_reset_def ccid_protocol_reset_def)

lemma dispatcher_simps [simp]:
  "dp_handle_ccid (OpenPgpCcidDispatcher B) = handle_ccid B"
  "dp_on_usb_reset (OpenPgpCcidDispatcher B) = on_usb_reset B"
  by (simp_all add: OpenPgpCcidDispatcher_def)

lemma carries_runs:
  assumes "carries (cc_bulk_out c) h evs" "rx c = []"
  shows "rx (usb_run (OpenPgpCcidDispatcher B) evs c) = []
    \<and> dsp (usb_run (OpenPgpCcidDispatcher B) evs c) = dispatch_event B h (dsp c)"
proof (cases h)
  case (HostMsg m)
  with assms have *: "\<forall>e\<in>set evs. \<not> is_reset e"
    "parse_pc_to_rdr (received (cc_bulk_out c) evs) = Inr m" by simp_all
  then have "received (cc_bulk_out c) evs \<noteq> []"
    using parse_pc_to_rdr_lengths(1) by fastforce
  with usb_run_complete [OF *(2,1), of c "OpenPgpCcidDispatcher B"] assms(2) show ?thesis
    by (simp add: HostMsg)
next
  case UsbReset
  with assms obtain es f m k where "evs = es @ [BusReset]" "\<forall>e\<in>set es. \<not> is_reset e"
    "parse_pc_to_rdr f = Inr m" "k < length f" "received (cc_bulk_out c) es = take k f"
    by auto
  with usb_run_incomplete [of f m k es c "OpenPgpCcidDispatcher B"] assms(2) UsbReset show ?thesis
    by simp
qed


section \<open>Replies\<close>

text \<open>What the driver needs of a dispatcher: a reply to every message, which fits the buffer.\<close>

locale ccid_dispatch =
  fixes D :: "'d openpgp_dispatch"
  assumes reply_nonempty: "fst (dp_handle_ccid D m d) \<noteq> []"
    and reply_fits: "length (fst (dp_handle_ccid D m d)) \<le> CCID_WIRE_BUF_SIZE"

definition ccid_inv :: "'d ccid_protocol_state \<Rightarrow> bool" where
  "ccid_inv p \<longleftrightarrow> length (cp_rx_buf p) \<le> CCID_WIRE_BUF_SIZE \<and> length (cp_tx_buf p) \<le> CCID_WIRE_BUF_SIZE
     \<and> (cp_tx_pending p \<longleftrightarrow> cp_tx_buf p \<noteq> [])"

lemma poll_inv: "ccid_inv p \<Longrightarrow> ccid_inv (snd (poll_bulk_in_inner w p))"
  by (auto simp: ccid_inv_def poll_bulk_in_inner_def Let_def split: sum.splits usb_error.splits)

lemma reset_inv: "ccid_inv (ccid_protocol_reset D p)"
  by (simp add: ccid_inv_def ccid_protocol_reset_def)

lemma slot_status_reply: "rdr_to_pc_slot_status s q st \<noteq> []" "length (rdr_to_pc_slot_status s q st) = 10"
  by (simp_all add: rdr_to_pc_slot_status_eq ccid_frame_def)

context ccid_dispatch
begin

lemma push_inv:
  assumes "ccid_inv p"
  shows "ccid_inv (push_out_bytes D data p)"
proof -
  have "ccid_inv (try_dispatch D q)"
    if "length (cp_rx_buf q) \<le> CCID_WIRE_BUF_SIZE" "length (cp_tx_buf q) \<le> CCID_WIRE_BUF_SIZE"
      "cp_tx_pending q \<longleftrightarrow> cp_tx_buf q \<noteq> []" for q
    using that reply_nonempty reply_fits
    by (auto simp: ccid_inv_def try_dispatch_def Let_def slot_status_reply push_all_eq case_prod_unfold
        split: sum.splits)
  with assms show ?thesis
    by (simp add: push_out_bytes_def ccid_inv_def)
qed

lemma step_inv: "ccid_inv (cc_protocol c) \<Longrightarrow> ccid_inv (cc_protocol (usb_step D e c))"
  by (cases e) (auto simp: ccid_class_endpoint_out_def ccid_class_poll_def ccid_class_reset_def push_inv
      poll_inv reset_inv case_prod_unfold split: sum.splits)

lemma run_inv: "ccid_inv (cc_protocol c) \<Longrightarrow> ccid_inv (cc_protocol (usb_run D evs c))"
  by (induction evs arbitrary: c) (simp_all add: step_inv)

end

lemma poll_paced:
  "cp_tx_pending p \<longleftrightarrow> cp_tx_buf p \<noteq> [] \<Longrightarrow>
   poll_bulk_in_inner (paced free) p =
     (if free then (take 64 (cp_tx_buf p),
        p\<lparr>cp_tx_buf := drop 64 (cp_tx_buf p), cp_tx_pending := drop 64 (cp_tx_buf p) \<noteq> []\<rparr>)
      else ([], p))"
  by (auto simp: poll_bulk_in_inner_def Let_def min_def)

declare paced.simps [simp del]

lemma poll_run_drains:
  assumes "cp_tx_pending p \<longleftrightarrow> cp_tx_buf p \<noteq> []" "length (cp_tx_buf p) \<le> 64 * length (filter id frees)"
  shows "\<exists>sent. poll_run (map paced frees) p = (sent, p\<lparr>cp_tx_buf := [], cp_tx_pending := False\<rparr>)
    \<and> concat sent = cp_tx_buf p \<and> (\<forall>chunk\<in>set sent. length chunk \<le> 64)"
  using assms
proof (induction frees arbitrary: p)
  case (Cons free frees)
  define q where "q = snd (poll_bulk_in_inner (paced free) p)"
  have "\<exists>sent. poll_run (map paced frees) q = (sent, q\<lparr>cp_tx_buf := [], cp_tx_pending := False\<rparr>)
      \<and> concat sent = cp_tx_buf q \<and> (\<forall>chunk\<in>set sent. length chunk \<le> 64)"
    using Cons.prems by (intro Cons.IH) (auto simp: q_def poll_paced)
  with Cons.prems(1) show ?case
    by (cases free) (auto simp: q_def poll_paced)
qed simp

lemma last_packet_replies:
  assumes "parse_pc_to_rdr (received (cc_bulk_out c) evs @ data) = Inr m" "data \<noteq> []"
    "\<forall>e\<in>set evs. \<not> is_reset e" "rx c = []"
  shows "rx (usb_run D (evs @ [EndpointOut (cc_bulk_out c) (Inr data)]) c) = []
    \<and> cp_tx_pending (cc_protocol (usb_run D (evs @ [EndpointOut (cc_bulk_out c) (Inr data)]) c))
    \<and> cp_tx_buf (cc_protocol (usb_run D (evs @ [EndpointOut (cc_bulk_out c) (Inr data)]) c))
        = fst (dp_handle_ccid D m (dsp c))
    \<and> dsp (usb_run D (evs @ [EndpointOut (cc_bulk_out c) (Inr data)]) c) = snd (dp_handle_ccid D m (dsp c))"
proof -
  let ?f = "received (cc_bulk_out c) evs @ data"
  have "rx (usb_run D evs c) = received (cc_bulk_out c) evs \<and> dsp (usb_run D evs c) = dsp c"
    using usb_run_incomplete [OF assms(1) _ assms(3), of "length (received (cc_bulk_out c) evs)" c D] assms(2,4)
    by simp
  with push_complete [OF assms(1) _ assms(2), of "cc_protocol (usb_run D evs c)" D] show ?thesis
    by (simp add: ccid_class_endpoint_out_def)
qed

interpretation ccid_card: ccid_dispatch "OpenPgpCcidDispatcher (OpenPgpVaultBackend E)" for E
proof
  fix m d
  obtain t a b c p where "fst (handle_ccid (OpenPgpVaultBackend E) m d) = ccid_frame t (msg_slot m) (msg_seq m) a b c p"
    "length p \<le> 514"
    using vault.handle_ccid_frame [of E m d] by blast
  then show "fst (dp_handle_ccid (OpenPgpCcidDispatcher (OpenPgpVaultBackend E)) m d) \<noteq> []"
    "length (fst (dp_handle_ccid (OpenPgpCcidDispatcher (OpenPgpVaultBackend E)) m d)) \<le> CCID_WIRE_BUF_SIZE"
    by (simp_all add: ccid_frame_def)
qed

section \<open>Properties\<close>

text \<open>
  (C24) The class driver refines the card's runs. Feed it, from an empty receive buffer, the bus events
  of a sequence of host messages and bus resets: each message cut into bulk packets in any way,
  interleaved with polls that succeed, block or fail and with traffic for other endpoints, each reset
  possibly in the middle of a message. Then the dispatcher has processed exactly that sequence, in
  order, each message once.
\<close>

theorem bus_runs_refine_card:
  assumes "list_all2 (carries (cc_bulk_out c)) hs evss" "rx c = []"
  shows "card_run B (dsp c) hs (dsp (usb_run (OpenPgpCcidDispatcher B) (concat evss) c))"
proof -
  let ?run = "\<lambda>evss. usb_run (OpenPgpCcidDispatcher B) (concat evss) c"
  have "rx (?run evss) = [] \<and> card_run B (dsp c) hs (dsp (?run evss))"
    using assms(1)
  proof (induction hs arbitrary: evss rule: rev_induct)
    case Nil
    then show ?case by (simp add: assms(2) card_run.start)
  next
    case (snoc h hs)
    then obtain evss1 evs where "evss = evss1 @ [evs]" and 1: "list_all2 (carries (cc_bulk_out c)) hs evss1"
      and 2: "carries (cc_bulk_out c) h evs"
      by (auto simp: list_all2_append1 list_all2_Cons1)
    with snoc.IH [OF 1] carries_runs [of "?run evss1" h evs B] show ?case
      by (simp add: card_run.step)
  qed
  then show ?thesis ..
qed

theorem bus_runs_refine_card_witness:
  "card_run rig_vault rig_card [HostMsg (GetSlotStatus 0 1), UsbReset]
     (dsp (usb_run (OpenPgpCcidDispatcher rig_vault)
       (concat [[EndpointOut 2 (Inr [0x65, 0, 0]), Poll (\<lambda>_. Inl OtherUsbError),
                 EndpointOut 2 (Inr [0, 0, 0, 1, 0]), EndpointOut 2 (Inr [0, 0])],
                [EndpointOut 2 (Inr [0x62, 0]), BusReset]])
       (ccid_class_new 0 2 rig_card)))"
proof -
  have m: "parse_pc_to_rdr [0x65, 0, 0, 0, 0, 0, 1, 0, 0, 0] = Inr (GetSlotStatus 0 1)"
    and f: "parse_pc_to_rdr [0x62, 0, 0, 0, 0, 0, 1, 0, 0, 0] = Inr (IccPowerOn 0 1 0)"
    by code_simp+
  have "\<exists>es f m k. [EndpointOut 2 (Inr [0x62, 0]), BusReset] = es @ [BusReset] \<and> (\<forall>e\<in>set es. \<not> is_reset e)
      \<and> parse_pc_to_rdr f = Inr m \<and> k < length f \<and> received 2 es = take k f"
    by (intro exI [of _ "[EndpointOut 2 (Inr [0x62, 0])]"]
        exI [of _ "[0x62, 0, 0, 0, 0, 0, 1, 0, 0, 0]"] exI [of _ "IccPowerOn 0 1 0"] exI [of _ 2])
      (simp add: f)
  with m bus_runs_refine_card [of "ccid_class_new 0 2 rig_card" "[HostMsg (GetSlotStatus 0 1), UsbReset]"
      "[[EndpointOut 2 (Inr [0x65, 0, 0]), Poll (\<lambda>_. Inl OtherUsbError),
                 EndpointOut 2 (Inr [0, 0, 0, 1, 0]), EndpointOut 2 (Inr [0, 0])],
                [EndpointOut 2 (Inr [0x62, 0]), BusReset]]" rig_vault]
  show ?thesis
    by (simp add: ccid_class_new_def ccid_protocol_new_def)
qed


text \<open>
  (C26) Every complete host message is answered, and the answer reaches the host whole: once the last
  packet of a message has arrived, nine polls that find the endpoint free send the reply of the card
  in chunks of at most 64 bytes, in order, without loss or repetition, however many polls block in
  between; the driver is then idle again.
\<close>

theorem reply_reaches_host:
  assumes "parse_pc_to_rdr (received (cc_bulk_out c) evs @ data) = Inr m" "data \<noteq> []"
    "\<forall>e\<in>set evs. \<not> is_reset e" "rx c = []" "9 \<le> length (filter id frees)"
  shows "\<exists>sent p. poll_run (map paced frees)
      (cc_protocol (usb_run (OpenPgpCcidDispatcher (OpenPgpVaultBackend E))
        (evs @ [EndpointOut (cc_bulk_out c) (Inr data)]) c)) = (sent, p)
    \<and> concat sent = fst (handle_ccid (OpenPgpVaultBackend E) m (dsp c))
    \<and> (\<forall>chunk\<in>set sent. length chunk \<le> 64) \<and> \<not> cp_tx_pending p \<and> cp_rx_buf p = []
    \<and> cp_dispatch p = snd (handle_ccid (OpenPgpVaultBackend E) m (dsp c))"
proof -
  let ?D = "OpenPgpCcidDispatcher (OpenPgpVaultBackend E)"
  let ?p = "cc_protocol (usb_run ?D (evs @ [EndpointOut (cc_bulk_out c) (Inr data)]) c)"
  note q = last_packet_replies [OF assms(1-4), of ?D]
  have "cp_tx_pending ?p \<longleftrightarrow> cp_tx_buf ?p \<noteq> []" and "length (cp_tx_buf ?p) \<le> 530"
    using q ccid_card.reply_nonempty [of E m "dsp c"] ccid_card.reply_fits [of E m "dsp c"] by simp_all
  with assms(5) obtain sent where "poll_run (map paced frees) ?p = (sent, ?p\<lparr>cp_tx_buf := [], cp_tx_pending := False\<rparr>)"
    "concat sent = cp_tx_buf ?p" "\<forall>chunk\<in>set sent. length chunk \<le> 64"
    using poll_run_drains [of ?p frees] by fastforce
  with q show ?thesis by (auto simp del: usb_run_simps)
qed

theorem reply_reaches_host_witness:
  "\<exists>sent p. poll_run (map paced [True, False, True, True, True, True, True, True, True, True])
      (cc_protocol (usb_run (OpenPgpCcidDispatcher rig_vault)
        ([EndpointOut 2 (Inr [0x65, 0, 0, 0, 0])] @ [EndpointOut 2 (Inr [0, 1, 0, 0, 0])])
        (ccid_class_new 0 2 rig_card))) = (sent, p)
    \<and> concat sent = rdr_to_pc_slot_status 0 1 ok_active"
proof -
  have m: "parse_pc_to_rdr ([0x65, 0, 0, 0, 0] @ [0, 1, 0, 0, 0]) = Inr (GetSlotStatus 0 1)"
    by code_simp
  have c: "cc_bulk_out (ccid_class_new 0 2 rig_card) = 2" "rx (ccid_class_new 0 2 rig_card) = []"
    by (simp_all add: ccid_class_new_def ccid_protocol_new_def)
  show ?thesis
    using reply_reaches_host [of "ccid_class_new 0 2 rig_card" "[EndpointOut 2 (Inr [0x65, 0, 0, 0, 0])]"
        "[0, 1, 0, 0, 0]" "GetSlotStatus 0 1" "[True, False, True, True, True, True, True, True, True, True]"
        "rig_env plain_crypto []"] m c
    by (simp del: usb_run_simps) blast
qed

text \<open>
  The driver takes one message per packet. When a packet holds two complete messages, the second stays
  in the receive buffer, and from then on every packet is answered with the reply to the message before
  it.
\<close>

theorem second_message_waits:
  assumes "parse_pc_to_rdr f1 = Inr m1" "parse_pc_to_rdr f2 = Inr m2" "parse_pc_to_rdr f3 = Inr m3"
    "cp_rx_buf p = []" "length f1 + length f2 \<le> 530" "length f2 + length f3 \<le> 530"
  shows "cp_rx_buf (push_out_bytes D (f1 @ f2) p) = f2
    \<and> cp_tx_buf (push_out_bytes D (f1 @ f2) p) = fst (dp_handle_ccid D m1 (cp_dispatch p))
    \<and> cp_rx_buf (push_out_bytes D f3 (push_out_bytes D (f1 @ f2) p)) = f3
    \<and> cp_tx_buf (push_out_bytes D f3 (push_out_bytes D (f1 @ f2) p)) =
        fst (dp_handle_ccid D m2 (snd (dp_handle_ccid D m1 (cp_dispatch p))))"
proof -
  have ne: "f1 \<noteq> []" "f3 \<noteq> []"
    using parse_pc_to_rdr_lengths(1) [OF assms(1)] parse_pc_to_rdr_lengths(1) [OF assms(3)] by auto
  have "push_out_bytes D (f1 @ f2) p =
      p\<lparr>cp_rx_buf := f2, cp_dispatch := snd (dp_handle_ccid D m1 (cp_dispatch p)),
        cp_tx_buf := fst (dp_handle_ccid D m1 (cp_dispatch p)), cp_tx_pending := True\<rparr>"
    using assms ne by (intro push_complete_rest [OF assms(1)]) simp_all
  moreover from this have "push_out_bytes D f3 (push_out_bytes D (f1 @ f2) p) =
      (push_out_bytes D (f1 @ f2) p)\<lparr>cp_rx_buf := f3,
        cp_dispatch := snd (dp_handle_ccid D m2 (cp_dispatch (push_out_bytes D (f1 @ f2) p))),
        cp_tx_buf := fst (dp_handle_ccid D m2 (cp_dispatch (push_out_bytes D (f1 @ f2) p))),
        cp_tx_pending := True\<rparr>"
    using assms ne by (intro push_complete_rest [OF assms(2)]) simp_all
  ultimately show ?thesis by simp
qed

end
