(* ===== verification/Aead.thy ===== *)
theory Aead
  imports Kdf_Policy Constant_Time
begin

text \<open>
  Authenticated encryption of \<open>crates/vault\<close>: the encrypt-then-MAC constructions of
  \<open>twofish_cipher.rs\<close>, \<open>serpent_cipher.rs\<close> and \<open>camellia_cipher.rs\<close> (the three files have the same
  text but for the cipher's name, so the constructions are written once, over the block cipher) and
  ChaCha20-Poly1305 of \<open>chacha_aead.rs\<close>. A fixed-size array \<open>[u8; N]\<close> is a type of byte lists of
  that length. The block ciphers, HMAC-SHA256, HKDF-SHA256 and the AEAD of the \<open>chacha20poly1305\<close>
  crate are the fields of \<open>cipher_lib\<close>. Zeroisation of dropped buffers is not modelled.
\<close>

section \<open>Fixed-size arrays and big-endian integers\<close>

typedef arr16 = "{b :: bytes. length b = 16}"
  morphisms arr16_bytes Arr16 by (rule exI [of _ "replicate 16 0"]) simp

typedef arr32 = "{b :: bytes. length b = 32}"
  morphisms arr32_bytes Arr32 by (rule exI [of _ "replicate 32 0"]) simp

lemma length_arr_bytes [simp]: "length (arr16_bytes x) = 16" "length (arr32_bytes y) = 32"
  using arr16_bytes [of x] arr32_bytes [of y] by simp_all

lemma arr16_bytes_Arr16 [simp]: "length b = 16 \<Longrightarrow> arr16_bytes (Arr16 b) = b"
  by (simp add: Arr16_inverse)

lemma arr32_bytes_Arr32 [simp]: "length b = 32 \<Longrightarrow> arr32_bytes (Arr32 b) = b"
  by (simp add: Arr32_inverse)

text \<open>\<open>to_be_bytes\<close> and \<open>from_be_bytes\<close> of \<open>u128\<close>.\<close>

fun be_bytes :: "nat \<Rightarrow> 128 word \<Rightarrow> bytes" where
  "be_bytes 0 w = []"
| "be_bytes (Suc n) w = ucast (drop_bit (8 * n) w) # be_bytes n w"

definition of_be_bytes :: "bytes \<Rightarrow> 128 word" where
  "of_be_bytes bs = foldl (\<lambda>acc b. push_bit 8 acc OR ucast b) 0 bs"

lemma length_be_bytes [simp]: "length (be_bytes n w) = n"
  by (induction n) simp_all

lemma foldl_be_bytes:
  "foldl (\<lambda>acc b. push_bit 8 acc OR ucast b) acc (be_bytes n w) =
     push_bit (8 * n) acc OR take_bit (8 * n) w"
proof (induction n arbitrary: acc)
  case (Suc n)
  have "push_bit (8 * n) (push_bit 8 acc OR ucast (ucast (drop_bit (8 * n) w) :: u8)) OR take_bit (8 * n) w
      = push_bit (8 * Suc n) acc OR take_bit (8 * Suc n) w"
    by (rule bit_word_eqI) (auto simp: bit_simps ac_simps)
  with Suc show ?case by simp
qed simp

lemma of_be_bytes_be_bytes [simp]: "of_be_bytes (be_bytes 16 w) = w"
  by (simp add: of_be_bytes_def foldl_be_bytes take_bit_word_eq_self)

lemma foldl_be_acc:
  "foldl (\<lambda>acc b. push_bit 8 acc OR ucast b) acc bs =
     push_bit (8 * length bs) acc OR of_be_bytes bs" for acc :: "128 word"
  unfolding of_be_bytes_def
proof (induction bs arbitrary: acc)
  case (Cons b bs)
  show ?case
    using Cons [of "push_bit 8 acc OR ucast b"] Cons [of "ucast b"] by (simp add: ac_simps)
qed simp

lemma of_be_bytes_Cons: "of_be_bytes (b # bs) = push_bit (8 * length bs) (ucast b) OR of_be_bytes bs"
  using foldl_be_acc [of "ucast b" bs] by (simp add: of_be_bytes_def)

lemma bit_of_be_bytes: "bit (of_be_bytes bs) k \<Longrightarrow> k < 8 * length bs"
proof (induction bs)
  case (Cons b bs)
  then show ?case
    using bit_imp_le_length [of b "k - 8 * length bs"] by (auto simp: of_be_bytes_Cons bit_simps)
qed (simp add: of_be_bytes_def)

lemma be_bytes_cong: "(\<And>k. k < 8 * n \<Longrightarrow> bit v k = bit w k) \<Longrightarrow> be_bytes n v = be_bytes n w"
proof (induction n)
  case (Suc n)
  have "ucast (drop_bit (8 * n) v) = (ucast (drop_bit (8 * n) w) :: u8)"
    by (rule bit_word_eqI) (simp add: bit_simps Suc.prems)
  with Suc show ?case by simp
qed simp

lemma be_bytes_of_be_bytes: "length bs \<le> 16 \<Longrightarrow> be_bytes (length bs) (of_be_bytes bs) = bs"
proof (induction bs)
  case (Cons b bs)
  have "ucast (drop_bit (8 * length bs) (of_be_bytes (b # bs))) = b"
    using Cons.prems bit_of_be_bytes [of bs]
    by (intro bit_word_eqI) (auto simp: of_be_bytes_Cons bit_simps)
  moreover have "be_bytes (length bs) (of_be_bytes (b # bs)) = be_bytes (length bs) (of_be_bytes bs)"
    by (intro be_bytes_cong) (simp add: of_be_bytes_Cons bit_simps)
  ultimately show ?case using Cons by simp
qed simp

definition ascii :: "string \<Rightarrow> bytes" where
  "ascii s = map (\<lambda>c. of_nat (of_char c)) s"

section \<open>Third-party primitives\<close>

text \<open>
  \<open>hkdf256_expand prk info n\<close> is \<open>Hkdf::from_prk\<close> and \<open>expand\<close> into \<open>n\<close> bytes, \<open>None\<close> when either
  fails. \<open>*_new\<close> is \<open>new_from_slice\<close> with the block encryption of the result; \<open>hmac_new\<close> is a keyed
  HMAC-SHA256. \<open>chacha_seal\<close> and \<open>chacha_open\<close> are the detached AEAD calls.
\<close>

record cipher_lib =
  hkdf256_expand :: "bytes \<Rightarrow> bytes \<Rightarrow> nat \<Rightarrow> bytes option"
  twofish_new :: "bytes \<Rightarrow> (arr16 \<Rightarrow> arr16) option"
  serpent_new :: "bytes \<Rightarrow> (arr16 \<Rightarrow> arr16) option"
  camellia_new :: "bytes \<Rightarrow> (arr16 \<Rightarrow> arr16) option"
  hmac_new :: "bytes \<Rightarrow> (bytes \<Rightarrow> arr32) option"
  chacha_seal :: "arr32 \<Rightarrow> bytes \<Rightarrow> bytes \<Rightarrow> bytes \<Rightarrow> (bytes \<times> bytes) option"
  chacha_open :: "arr32 \<Rightarrow> bytes \<Rightarrow> bytes \<Rightarrow> bytes \<Rightarrow> bytes \<Rightarrow> bytes option"

text \<open>
  What the crate \<open>chacha20poly1305\<close> documents: a body and tag open to exactly the plaintext that
  seals to them, the body is as long as the plaintext and the tag has 16 bytes.
\<close>

definition detached_aead ::
  "('k \<Rightarrow> 'n \<Rightarrow> bytes \<Rightarrow> bytes \<Rightarrow> (bytes \<times> bytes) option) \<Rightarrow>
   ('k \<Rightarrow> 'n \<Rightarrow> bytes \<Rightarrow> bytes \<Rightarrow> bytes \<Rightarrow> bytes option) \<Rightarrow> bool" where
  "detached_aead sealf openf \<longleftrightarrow>
     (\<forall>k n a body tag p. openf k n a body tag = Some p \<longleftrightarrow> sealf k n a p = Some (body, tag)) \<and>
     (\<forall>k n a p body tag. sealf k n a p = Some (body, tag) \<longrightarrow>
        length body = length p \<and> length tag = 16)"

section \<open>Encrypt-then-MAC\<close>

datatype etm_error =
    EtmAuthenticationFailed | EtmKeyDerivation | EtmTrngFailure | EtmInvalidLength | EtmCipherError

record etm_key =
  cipher_key :: arr32
  mac_key :: arr32

abbreviation MAX_ETM_PLAINTEXT :: nat where "MAX_ETM_PLAINTEXT \<equiv> 8192"
abbreviation ETM_TAG_LEN :: nat where "ETM_TAG_LEN \<equiv> 32"
abbreviation MAX_ETM_CIPHERTEXT :: nat where "MAX_ETM_CIPHERTEXT \<equiv> 8224"

subsection \<open>Keys and nonces\<close>

definition etm_from_okm64 :: "bytes \<Rightarrow> etm_key" where
  "etm_from_okm64 okm = \<lparr>cipher_key = Arr32 (take 32 okm), mac_key = Arr32 (drop 32 okm)\<rparr>"

definition etm_key_from_label :: "cipher_lib \<Rightarrow> bytes \<Rightarrow> bytes \<Rightarrow> etm_error + etm_key" where
  "etm_key_from_label L prk info =
     res_bind (ok_or EtmKeyDerivation (hkdf256_expand L prk info 64)) (\<lambda>okm. Inr (etm_from_okm64 okm))"

definition etm_key_derive ::
  "cipher_lib \<Rightarrow> bytes \<Rightarrow> key_purpose \<Rightarrow> bytes \<Rightarrow> etm_error + etm_key" where
  "etm_key_derive L prk purpose info =
     res_bind (ok_or EtmKeyDerivation (push_all 256 [] (ascii (purpose_info purpose)))) (\<lambda>inf.
     res_bind (ok_or EtmKeyDerivation (push_all 256 inf info)) (\<lambda>inf.
     res_bind (ok_or EtmKeyDerivation (hkdf256_expand L prk inf 64)) (\<lambda>okm.
     Inr (etm_from_okm64 okm))))"

definition etm_nonce_from_okm32 :: "bytes \<Rightarrow> arr16" where
  "etm_nonce_from_okm32 okm = Arr16 (take 16 okm)"

definition etm_nonce_from_label :: "cipher_lib \<Rightarrow> bytes \<Rightarrow> bytes \<Rightarrow> etm_error + arr16" where
  "etm_nonce_from_label L prk info =
     res_bind (ok_or EtmKeyDerivation (hkdf256_expand L prk info 32)) (\<lambda>okm.
     Inr (etm_nonce_from_okm32 okm))"

definition etm_nonce_generate :: "'w hardware_trng \<Rightarrow> 'w \<Rightarrow> (etm_error + arr16) \<times> 'w" where
  "etm_nonce_generate tr w =
     (case tr_try_fill tr 16 w of
        (Inl _, w1) \<Rightarrow> (Inl EtmTrngFailure, w1)
      | (Inr n, w1) \<Rightarrow> (Inr (Arr16 n), w1))"

definition etm_nonce_from_counter :: "128 word \<Rightarrow> arr16" where
  "etm_nonce_from_counter counter = Arr16 (be_bytes 16 counter)"

text \<open>\<open>from_bytes_fuzz\<close>: a ciphertext vector from raw bytes.\<close>

definition etm_ciphertext_from_bytes :: "bytes \<Rightarrow> etm_error + bytes" where
  "etm_ciphertext_from_bytes buf = ok_or EtmInvalidLength (push_all MAX_ETM_CIPHERTEXT [] buf)"

subsection \<open>Counter mode\<close>

definition increment_ctr :: "arr16 \<Rightarrow> arr16" where
  "increment_ctr ctr = Arr16 (be_bytes 16 (of_be_bytes (arr16_bytes ctr) + 1))"

definition xor_chunk :: "bytes \<Rightarrow> nat \<Rightarrow> nat \<Rightarrow> bytes \<Rightarrow> bytes" where
  "xor_chunk block_out off chunk buf =
     fold (\<lambda>i b. b[off + i := (b ! (off + i)) XOR (block_out ! i)]) [0..<chunk] buf"

lemma length_xor_chunk [simp]: "length (xor_chunk out off chunk buf) = length buf"
  unfolding xor_chunk_def by (induction chunk) simp_all

function ctr_xor_loop :: "(arr16 \<Rightarrow> arr16) \<Rightarrow> arr16 \<Rightarrow> nat \<Rightarrow> bytes \<Rightarrow> bytes" where
  "ctr_xor_loop block ctr off buf =
     (if off < length buf then
        let block_out = arr16_bytes (block ctr);
            chunk = min 16 (length buf - off) in
        ctr_xor_loop block (increment_ctr ctr) (off + chunk) (xor_chunk block_out off chunk buf)
      else buf)"
  by pat_completeness auto

termination
  by (relation "measure (\<lambda>(block, ctr, off, buf). length buf - off)") (auto simp: Let_def)

declare ctr_xor_loop.simps [simp del]

definition ctr_xor :: "(arr16 \<Rightarrow> arr16) \<Rightarrow> arr16 \<Rightarrow> bytes \<Rightarrow> etm_error + bytes" where
  "ctr_xor block nonce buf = Inr (ctr_xor_loop block nonce 0 buf)"

subsection \<open>Encryption and decryption\<close>

definition compute_tag :: "(bytes \<Rightarrow> arr32) \<Rightarrow> bytes \<Rightarrow> arr16 \<Rightarrow> bytes \<Rightarrow> arr32" where
  "compute_tag mac aad nonce body = mac (aad @ arr16_bytes nonce @ body)"

definition etm_encrypt ::
  "(bytes \<Rightarrow> (arr16 \<Rightarrow> arr16) option) \<Rightarrow> (bytes \<Rightarrow> (bytes \<Rightarrow> arr32) option) \<Rightarrow> etm_key \<Rightarrow> arr16 \<Rightarrow>
   bytes \<Rightarrow> bytes \<Rightarrow> etm_error + bytes" where
  "etm_encrypt new_cipher new_mac key nonce aad plaintext =
     (if length plaintext > MAX_ETM_PLAINTEXT then Inl EtmInvalidLength
      else
        res_bind (ok_or EtmCipherError (new_cipher (arr32_bytes (cipher_key key)))) (\<lambda>block.
        res_bind (ok_or EtmCipherError (new_mac (arr32_bytes (mac_key key)))) (\<lambda>mac.
        res_bind (ok_or EtmInvalidLength (push_all MAX_ETM_CIPHERTEXT [] plaintext)) (\<lambda>buf.
        res_bind (ctr_xor block nonce buf) (\<lambda>buf.
        ok_or EtmInvalidLength
          (push_all MAX_ETM_CIPHERTEXT buf (arr32_bytes (compute_tag mac aad nonce buf))))))))"

definition etm_decrypt ::
  "(bytes \<Rightarrow> (arr16 \<Rightarrow> arr16) option) \<Rightarrow> (bytes \<Rightarrow> (bytes \<Rightarrow> arr32) option) \<Rightarrow> etm_key \<Rightarrow> arr16 \<Rightarrow>
   bytes \<Rightarrow> bytes \<Rightarrow> etm_error + bytes" where
  "etm_decrypt new_cipher new_mac key nonce aad ct =
     (if length ct < ETM_TAG_LEN then Inl EtmAuthenticationFailed
      else
        let body = take (length ct - ETM_TAG_LEN) ct; tag = drop (length ct - ETM_TAG_LEN) ct in
        if length body > MAX_ETM_PLAINTEXT then Inl EtmInvalidLength
        else
          res_bind (ok_or EtmCipherError (new_mac (arr32_bytes (mac_key key)))) (\<lambda>mac.
            let expected = arr32_bytes (compute_tag mac aad nonce body) in
            if \<not> (length tag = length expected \<and> bool_of_choice (ct_eq expected tag))
            then Inl EtmAuthenticationFailed
            else
              res_bind (ok_or EtmCipherError (new_cipher (arr32_bytes (cipher_key key)))) (\<lambda>block.
              res_bind (ok_or EtmInvalidLength (push_all MAX_ETM_PLAINTEXT [] body)) (\<lambda>buf.
              ctr_xor block nonce buf))))"

definition etm_ctr_unauthenticated ::
  "(bytes \<Rightarrow> (arr16 \<Rightarrow> arr16) option) \<Rightarrow> etm_key \<Rightarrow> arr16 \<Rightarrow> bytes \<Rightarrow> etm_error + bytes" where
  "etm_ctr_unauthenticated new_cipher key nonce buf =
     res_bind (ok_or EtmCipherError (new_cipher (arr32_bytes (cipher_key key)))) (\<lambda>block.
     ctr_xor block nonce buf)"

subsection \<open>The three ciphers\<close>

definition twofish_encrypt :: "cipher_lib \<Rightarrow> etm_key \<Rightarrow> arr16 \<Rightarrow> bytes \<Rightarrow> bytes \<Rightarrow> etm_error + bytes" where
  "twofish_encrypt L = etm_encrypt (twofish_new L) (hmac_new L)"

definition twofish_decrypt :: "cipher_lib \<Rightarrow> etm_key \<Rightarrow> arr16 \<Rightarrow> bytes \<Rightarrow> bytes \<Rightarrow> etm_error + bytes" where
  "twofish_decrypt L = etm_decrypt (twofish_new L) (hmac_new L)"

definition serpent_encrypt :: "cipher_lib \<Rightarrow> etm_key \<Rightarrow> arr16 \<Rightarrow> bytes \<Rightarrow> bytes \<Rightarrow> etm_error + bytes" where
  "serpent_encrypt L = etm_encrypt (serpent_new L) (hmac_new L)"

definition serpent_decrypt :: "cipher_lib \<Rightarrow> etm_key \<Rightarrow> arr16 \<Rightarrow> bytes \<Rightarrow> bytes \<Rightarrow> etm_error + bytes" where
  "serpent_decrypt L = etm_decrypt (serpent_new L) (hmac_new L)"

definition camellia_encrypt :: "cipher_lib \<Rightarrow> etm_key \<Rightarrow> arr16 \<Rightarrow> bytes \<Rightarrow> bytes \<Rightarrow> etm_error + bytes" where
  "camellia_encrypt L = etm_encrypt (camellia_new L) (hmac_new L)"

definition camellia_decrypt :: "cipher_lib \<Rightarrow> etm_key \<Rightarrow> arr16 \<Rightarrow> bytes \<Rightarrow> bytes \<Rightarrow> etm_error + bytes" where
  "camellia_decrypt L = etm_decrypt (camellia_new L) (hmac_new L)"

section \<open>ChaCha20-Poly1305\<close>

datatype chacha_error = CcAuthenticationFailed | CcKeyDerivation | CcTrngFailure | CcInvalidLength

abbreviation MAX_CHACHA_PLAINTEXT :: nat where "MAX_CHACHA_PLAINTEXT \<equiv> 8192"
abbreviation MAX_CHACHA_CIPHERTEXT :: nat where "MAX_CHACHA_CIPHERTEXT \<equiv> 8208"

definition ChaChaKey_derive_from_prk_label :: "cipher_lib \<Rightarrow> bytes \<Rightarrow> bytes \<Rightarrow> chacha_error + arr32" where
  "ChaChaKey_derive_from_prk_label L prk info =
     res_bind (ok_or CcKeyDerivation (hkdf256_expand L prk info 32)) (\<lambda>okm. Inr (Arr32 okm))"

definition ChaChaKey_derive ::
  "cipher_lib \<Rightarrow> bytes \<Rightarrow> key_purpose \<Rightarrow> bytes \<Rightarrow> chacha_error + arr32" where
  "ChaChaKey_derive L prk purpose info =
     res_bind (ok_or CcKeyDerivation (push_all 256 [] (ascii (purpose_info purpose)))) (\<lambda>inf.
     res_bind (ok_or CcKeyDerivation (push_all 256 inf info)) (\<lambda>inf.
     res_bind (ok_or CcKeyDerivation (hkdf256_expand L prk inf 32)) (\<lambda>okm. Inr (Arr32 okm))))"

definition ChaChaNonce_from_okm32_prefix :: "bytes \<Rightarrow> bytes" where
  "ChaChaNonce_from_okm32_prefix okm = take 12 okm"

definition ChaChaNonce_derive_from_prk_label :: "cipher_lib \<Rightarrow> bytes \<Rightarrow> bytes \<Rightarrow> chacha_error + bytes" where
  "ChaChaNonce_derive_from_prk_label L prk info =
     res_bind (ok_or CcKeyDerivation (hkdf256_expand L prk info 32)) (\<lambda>okm. Inr (take 12 okm))"

definition ChaChaNonce_generate :: "'w hardware_trng \<Rightarrow> 'w \<Rightarrow> (chacha_error + bytes) \<times> 'w" where
  "ChaChaNonce_generate tr w =
     (case tr_try_fill tr 12 w of
        (Inl _, w1) \<Rightarrow> (Inl CcTrngFailure, w1)
      | (Inr n, w1) \<Rightarrow> (Inr n, w1))"

definition ChaChaNonce_from_counter :: "128 word \<Rightarrow> bytes" where
  "ChaChaNonce_from_counter counter = slice 4 12 (be_bytes 16 (counter AND (push_bit 96 1 - 1)))"

definition ChaChaCiphertext_try_from_slice :: "bytes \<Rightarrow> chacha_error + bytes" where
  "ChaChaCiphertext_try_from_slice buf =
     (if length buf > MAX_CHACHA_CIPHERTEXT then Inl CcInvalidLength
      else ok_or CcInvalidLength (push_all MAX_CHACHA_CIPHERTEXT [] buf))"

definition chacha_encrypt :: "cipher_lib \<Rightarrow> arr32 \<Rightarrow> bytes \<Rightarrow> bytes \<Rightarrow> bytes \<Rightarrow> chacha_error + bytes" where
  "chacha_encrypt L key nonce aad plaintext =
     (if length plaintext > MAX_CHACHA_PLAINTEXT then Inl CcInvalidLength
      else
        res_bind (ok_or CcInvalidLength (push_all MAX_CHACHA_CIPHERTEXT [] plaintext)) (\<lambda>buf.
        res_bind (ok_or CcAuthenticationFailed (chacha_seal L key nonce aad buf)) (\<lambda>(buf, tag).
        ok_or CcInvalidLength (push_all MAX_CHACHA_CIPHERTEXT buf tag))))"

definition chacha_decrypt :: "cipher_lib \<Rightarrow> arr32 \<Rightarrow> bytes \<Rightarrow> bytes \<Rightarrow> bytes \<Rightarrow> chacha_error + bytes" where
  "chacha_decrypt L key nonce aad ct =
     (if length ct < 16 then Inl CcAuthenticationFailed
      else
        let body = take (length ct - 16) ct; tag = drop (length ct - 16) ct in
        if length body > MAX_CHACHA_PLAINTEXT then Inl CcInvalidLength
        else
          res_bind (ok_or CcInvalidLength (push_all MAX_CHACHA_PLAINTEXT [] body)) (\<lambda>buf.
          res_bind (if length tag = 16 then Inr tag else Inl CcAuthenticationFailed) (\<lambda>tag.
          ok_or CcAuthenticationFailed (chacha_open L key nonce aad buf tag))))"

section \<open>Counter mode as a key stream\<close>

lemma nth_xor_chunk:
  "off + chunk \<le> length buf \<Longrightarrow> i < length buf \<Longrightarrow>
   xor_chunk out off chunk buf ! i =
     (if off \<le> i \<and> i < off + chunk then buf ! i XOR out ! (i - off) else buf ! i)"
proof (induction chunk)
  case (Suc c)
  have "xor_chunk out off (Suc c) buf =
      (xor_chunk out off c buf)[off + c := xor_chunk out off c buf ! (off + c) XOR out ! c]"
    by (simp add: xor_chunk_def)
  moreover have "i < off + Suc c \<longleftrightarrow> i < off + c \<or> i = off + c" by auto
  ultimately show ?case using Suc by (cases "i = off + c") (auto simp: nth_list_update)
qed (auto simp: xor_chunk_def)

lemma length_ctr_xor_loop [simp]: "length (ctr_xor_loop block ctr off buf) = length buf"
proof (induction block ctr off buf rule: ctr_xor_loop.induct)
  case (1 block ctr off buf)
  then show ?case by (subst ctr_xor_loop.simps) (simp add: Let_def)
qed

lemma nth_ctr_xor_loop:
  "i < length buf \<Longrightarrow> ctr_xor_loop block ctr off buf ! i =
     (if i < off then buf ! i
      else buf ! i XOR arr16_bytes (block ((increment_ctr ^^ ((i - off) div 16)) ctr)) ! ((i - off) mod 16))"
proof (induction block ctr off buf rule: ctr_xor_loop.induct)
  case (1 block ctr off buf)
  show ?case
  proof (cases "off < length buf")
    case True
    define chunk where "chunk = min 16 (length buf - off)"
    define buf1 where "buf1 = xor_chunk (arr16_bytes (block ctr)) off chunk buf"
    have step: "ctr_xor_loop block ctr off buf = ctr_xor_loop block (increment_ctr ctr) (off + chunk) buf1"
      by (subst ctr_xor_loop.simps) (simp add: True Let_def chunk_def buf1_def)
    have IH: "ctr_xor_loop block (increment_ctr ctr) (off + chunk) buf1 ! i =
        (if i < off + chunk then buf1 ! i else buf1 ! i XOR
           arr16_bytes (block ((increment_ctr ^^ ((i - (off + chunk)) div 16)) (increment_ctr ctr)))
             ! ((i - (off + chunk)) mod 16))"
      using "1.IH" [OF True refl refl, folded chunk_def, folded buf1_def] "1.prems" by (simp add: buf1_def)
    have buf1: "buf1 ! i = (if off \<le> i \<and> i < off + chunk then buf ! i XOR arr16_bytes (block ctr) ! (i - off) else buf ! i)"
      unfolding buf1_def using True "1.prems" by (intro nth_xor_chunk) (simp_all add: chunk_def)
    consider "i < off" | "off \<le> i" "i < off + chunk" | "off + chunk \<le> i" by linarith
    then show ?thesis
    proof cases
      case 3
      then have "chunk = 16" using "1.prems" by (simp add: chunk_def)
      with 3 have d: "(i - off) div 16 = Suc ((i - (off + 16)) div 16)"
        and m: "(i - off) mod 16 = (i - (off + 16)) mod 16"
        using le_div_geq [of 16 "i - off"] le_mod_geq [of 16 "i - off"] by simp_all
      from 3 \<open>chunk = 16\<close> show ?thesis
        unfolding step IH by (simp add: buf1 d m funpow_swap1)
    qed (simp_all add: step IH buf1, simp_all add: chunk_def)
  next
    case False
    with "1.prems" show ?thesis by (simp add: ctr_xor_loop.simps)
  qed
qed

text \<open>The counter block after \<open>j\<close> increments: the initial value plus \<open>j\<close>, modulo \<open>2 ^ 128\<close>.\<close>

lemma funpow_increment_ctr:
  "arr16_bytes ((increment_ctr ^^ Suc j) ctr) = be_bytes 16 (of_be_bytes (arr16_bytes ctr) + of_nat (Suc j))"
proof (induction j)
  case (Suc j)
  have "arr16_bytes (increment_ctr x) = be_bytes 16 (of_be_bytes (arr16_bytes x) + 1)" for x
    by (simp add: increment_ctr_def)
  then have "arr16_bytes ((increment_ctr ^^ Suc (Suc j)) ctr) =
      be_bytes 16 (of_be_bytes (arr16_bytes ((increment_ctr ^^ Suc j) ctr)) + 1)" by simp
  also have "\<dots> = be_bytes 16 (of_be_bytes (arr16_bytes ctr) + of_nat (Suc j) + 1)"
    by (simp only: Suc of_be_bytes_be_bytes)
  finally show ?case by (simp add: ac_simps)
qed (simp add: increment_ctr_def)

lemma increment_ctr_funpow:
  "(increment_ctr ^^ j) ctr = Arr16 (be_bytes 16 (of_be_bytes (arr16_bytes ctr) + of_nat j))"
proof (cases j)
  case 0
  then show ?thesis using be_bytes_of_be_bytes [of "arr16_bytes ctr"] by (simp add: arr16_bytes_inverse)
next
  case (Suc i)
  then show ?thesis using funpow_increment_ctr [of i ctr] by (metis arr16_bytes_inverse)
qed

lemma ctr_xor_loop_twice [simp]: "ctr_xor_loop block nonce 0 (ctr_xor_loop block nonce 0 b) = b"
  by (rule nth_equalityI) (simp_all add: nth_ctr_xor_loop xor.assoc)

section \<open>The contract of an authenticated cipher\<close>

locale sealed_box =
  fixes enc :: "bytes \<Rightarrow> bytes \<Rightarrow> 'e + bytes"
    and dec :: "bytes \<Rightarrow> bytes \<Rightarrow> 'e + bytes"
    and overhead :: nat
    and limit :: nat
  assumes opens_exactly: "dec aad c = Inr p \<longleftrightarrow> enc aad p = Inr c"
    and grows: "enc aad p = Inr c \<Longrightarrow> length c = length p + overhead"
    and bounded: "enc aad p = Inr c \<Longrightarrow> length p \<le> limit"
begin

lemma ciphertext_determines_plaintext: "enc aad p = Inr c \<Longrightarrow> enc aad q = Inr c \<Longrightarrow> p = q"
  using opens_exactly by (metis sum.inject(2))

lemma forgery_rejected: "\<forall>p. enc aad p \<noteq> Inr c \<Longrightarrow> \<exists>e. dec aad c = Inl e"
  using opens_exactly by (cases "dec aad c") auto

end

lemma etm_encrypt_eq:
  "etm_encrypt nc nm key nonce aad p =
     (if length p > 8192 then Inl EtmInvalidLength
      else case nc (arr32_bytes (cipher_key key)) of None \<Rightarrow> Inl EtmCipherError
      | Some block \<Rightarrow> case nm (arr32_bytes (mac_key key)) of None \<Rightarrow> Inl EtmCipherError
      | Some mac \<Rightarrow> let body = ctr_xor_loop block nonce 0 p in
          Inr (body @ arr32_bytes (compute_tag mac aad nonce body)))"
  by (simp add: etm_encrypt_def ctr_xor_def push_all_eq Let_def split: option.split)

lemma etm_decrypt_ok:
  "etm_decrypt nc nm key nonce aad ct = Inr p \<longleftrightarrow>
     (\<exists>body block mac. length body \<le> 8192 \<and> nc (arr32_bytes (cipher_key key)) = Some block \<and>
        nm (arr32_bytes (mac_key key)) = Some mac \<and>
        ct = body @ arr32_bytes (compute_tag mac aad nonce body) \<and> ctr_xor block nonce body = Inr p)"
  (is "?l = ?r")
proof
  define body where "body = take (length ct - 32) ct"
  assume ?l
  then have long: "32 \<le> length ct" "length body \<le> 8192"
    by (auto simp: etm_decrypt_def Let_def body_def split: if_splits)
  with \<open>?l\<close> obtain mac where mac: "nm (arr32_bytes (mac_key key)) = Some mac"
    by (cases "nm (arr32_bytes (mac_key key))") (auto simp: etm_decrypt_def Let_def split: if_splits)
  with \<open>?l\<close> long have tag: "arr32_bytes (compute_tag mac aad nonce body) = drop (length ct - 32) ct"
    by (auto simp: etm_decrypt_def Let_def body_def split: if_splits)
  with \<open>?l\<close> long mac obtain block where
    "nc (arr32_bytes (cipher_key key)) = Some block" "ctr_xor block nonce body = Inr p"
    by (cases "nc (arr32_bytes (cipher_key key))") (auto simp: etm_decrypt_def Let_def body_def)
  moreover have "ct = body @ arr32_bytes (compute_tag mac aad nonce body)"
    unfolding tag by (simp add: body_def)
  ultimately show ?r using long mac by blast
qed (auto simp: etm_decrypt_def Let_def)

lemma etm_sealed_box: "sealed_box (etm_encrypt nc nm key nonce) (etm_decrypt nc nm key nonce) 32 8192"
proof
  fix aad c p
  show "etm_decrypt nc nm key nonce aad c = Inr p \<longleftrightarrow> etm_encrypt nc nm key nonce aad p = Inr c"
    unfolding etm_decrypt_ok etm_encrypt_eq
    by (auto simp: Let_def ctr_xor_def split: option.splits if_splits)
  show "etm_encrypt nc nm key nonce aad p = Inr c \<Longrightarrow> length c = length p + 32"
    and "etm_encrypt nc nm key nonce aad p = Inr c \<Longrightarrow> length p \<le> 8192"
    by (auto simp: etm_encrypt_eq Let_def split: option.splits if_splits)
qed

interpretation twofish: sealed_box "twofish_encrypt L key nonce" "twofish_decrypt L key nonce" 32 8192
  for L key nonce unfolding twofish_encrypt_def twofish_decrypt_def by (rule etm_sealed_box)

interpretation serpent: sealed_box "serpent_encrypt L key nonce" "serpent_decrypt L key nonce" 32 8192
  for L key nonce unfolding serpent_encrypt_def serpent_decrypt_def by (rule etm_sealed_box)

interpretation camellia: sealed_box "camellia_encrypt L key nonce" "camellia_decrypt L key nonce" 32 8192
  for L key nonce unfolding camellia_encrypt_def camellia_decrypt_def by (rule etm_sealed_box)

lemma chacha_sealed_box:
  assumes "detached_aead (chacha_seal L) (chacha_open L)"
  shows "sealed_box (chacha_encrypt L key nonce) (chacha_decrypt L key nonce) 16 8192"
proof
  fix aad c p
  have iff: "chacha_open L key nonce aad body tag = Some p \<longleftrightarrow>
      chacha_seal L key nonce aad p = Some (body, tag)"
    and len: "chacha_seal L key nonce aad p = Some (body, tag) \<Longrightarrow> length body = length p \<and> length tag = 16"
    for body tag using assms by (simp_all add: detached_aead_def)
  have enc: "chacha_encrypt L key nonce aad p = Inr c \<longleftrightarrow> length p \<le> 8192 \<and>
      (\<exists>body tag. chacha_seal L key nonce aad p = Some (body, tag) \<and> c = body @ tag)"
    using len by (cases "chacha_seal L key nonce aad p") (auto simp: chacha_encrypt_def push_all_eq)
  have dec: "chacha_decrypt L key nonce aad c = Inr p \<longleftrightarrow> 16 \<le> length c \<and> length c \<le> 8208 \<and>
      chacha_open L key nonce aad (take (length c - 16) c) (drop (length c - 16) c) = Some p"
    by (cases "chacha_open L key nonce aad (take (length c - 16) c) (drop (length c - 16) c)")
      (auto simp: chacha_decrypt_def Let_def)
  show "chacha_decrypt L key nonce aad c = Inr p \<longleftrightarrow> chacha_encrypt L key nonce aad p = Inr c"
    unfolding enc dec iff using len by fastforce
  show "chacha_encrypt L key nonce aad p = Inr c \<Longrightarrow> length c = length p + 16"
    and "chacha_encrypt L key nonce aad p = Inr c \<Longrightarrow> length p \<le> 8192"
    using len by (auto simp: enc)
qed

section \<open>Properties\<close>

text \<open>
  (C38) The hand-written counter mode is what it is meant to be: byte \<open>i\<close> is combined with byte
  \<open>i mod 16\<close> of the encryption of the counter block \<open>nonce + i div 16\<close>, a 128-bit big-endian
  integer that wraps, for every buffer length including a short last block.
\<close>

theorem ctr_xor_is_key_stream:
  "ctr_xor block nonce buf =
     Inr (map (\<lambda>i. buf ! i XOR
       arr16_bytes (block (Arr16 (be_bytes 16 (of_be_bytes (arr16_bytes nonce) + of_nat (i div 16))))) ! (i mod 16))
       [0..<length buf])"
  unfolding ctr_xor_def
  by (auto simp: nth_ctr_xor_loop increment_ctr_funpow intro!: nth_equalityI)

text \<open>
  Authenticated decryption of the three block-cipher constructions is exact: a ciphertext opens
  to \<open>p\<close> under a key, nonce and associated data if and only if encrypting \<open>p\<close> under them gives that
  ciphertext. So what was encrypted decrypts, and nothing else is ever released as plaintext.
\<close>

theorem etm_ciphers_open_exactly:
  "(twofish_decrypt L key nonce aad c = Inr p \<longleftrightarrow> twofish_encrypt L key nonce aad p = Inr c) \<and>
   (serpent_decrypt L key nonce aad c = Inr p \<longleftrightarrow> serpent_encrypt L key nonce aad p = Inr c) \<and>
   (camellia_decrypt L key nonce aad c = Inr p \<longleftrightarrow> camellia_encrypt L key nonce aad p = Inr c)"
  by (simp only: twofish.opens_exactly serpent.opens_exactly camellia.opens_exactly simp_thms)

end
