(* ===== verification/Cess.thy ===== *)
theory Cess
  imports Aead
begin

text \<open>
  The crate \<open>crates/cess\<close>: HMAC-BLAKE3 and HKDF-BLAKE3 (\<open>hkdf_blake3.rs\<close>), the \<open>info\<close> labels of the
  inner cascade (\<open>inner_info.rs\<close>), the registry of suite identifiers (\<open>registry_ids.rs\<close>, \<open>lib.rs\<close>,
  \<open>galdr-core/src/legacy_removed.rs\<close>), the Mode A wire format (\<open>wire.rs\<close>) and the outer AEAD envelope
  (\<open>mode_a.rs\<close>). The BLAKE3 hash and the AEAD are third-party code and parameters here; the hash
  returns a \<open>[u8; 32]\<close>.
\<close>

section \<open>HMAC-BLAKE3 and HKDF-BLAKE3\<close>

abbreviation HMAC_BLOCK :: nat where "HMAC_BLOCK \<equiv> 64"

definition normalize_hmac_key :: "(bytes \<Rightarrow> arr32) \<Rightarrow> bytes \<Rightarrow> bytes" where
  "normalize_hmac_key blake3 key =
     (let out = replicate HMAC_BLOCK 0 in
      if length key > HMAC_BLOCK then splice out 0 (arr32_bytes (blake3 key)) else splice out 0 key)"

definition hmac_blake3 :: "(bytes \<Rightarrow> arr32) \<Rightarrow> bytes \<Rightarrow> bytes \<Rightarrow> arr32" where
  "hmac_blake3 blake3 key data =
     (let k = normalize_hmac_key blake3 key;
          ipad = map (\<lambda>i. k ! i XOR 0x36) [0..<HMAC_BLOCK];
          opad = map (\<lambda>i. k ! i XOR 0x5C) [0..<HMAC_BLOCK];
          inner = blake3 (ipad @ data) in
      blake3 (opad @ arr32_bytes inner))"

function hkdf_blake3_loop ::
  "(bytes \<Rightarrow> arr32) \<Rightarrow> arr32 \<Rightarrow> bytes \<Rightarrow> nat \<Rightarrow> bytes \<Rightarrow> u8 \<Rightarrow> bytes \<Rightarrow> bytes" where
  "hkdf_blake3_loop blake3 prk info len t counter okm =
     (if length okm < len then
        let t = arr32_bytes (hmac_blake3 blake3 (arr32_bytes prk) (t @ info @ [counter])) in
        hkdf_blake3_loop blake3 prk info len t (counter + 1) (okm @ t)
      else okm)"
  by pat_completeness auto

termination
  by (relation "measure (\<lambda>(blake3, prk, info, len, t, counter, okm). len - length okm)")
    (auto simp: Let_def)

declare hkdf_blake3_loop.simps [simp del]

definition hkdf_blake3 :: "(bytes \<Rightarrow> arr32) \<Rightarrow> bytes \<Rightarrow> bytes \<Rightarrow> bytes \<Rightarrow> nat \<Rightarrow> bytes" where
  "hkdf_blake3 blake3 ikm salt info len =
     (let salt = (if salt = [] then replicate 32 0 else salt);
          prk = hmac_blake3 blake3 salt ikm in
      take len (hkdf_blake3_loop blake3 prk info len [] 1 []))"

definition CESS_OUTER_ENVELOPE_INFO :: bytes where
  "CESS_OUTER_ENVELOPE_INFO = ascii ''cess-outer-envelope-v1''"

text \<open>\<open>derive_k_outer\<close>: the conversion to an array panics when the length is not 32, here \<open>None\<close>.\<close>

definition derive_k_outer :: "(bytes \<Rightarrow> arr32) \<Rightarrow> bytes \<Rightarrow> arr32 option" where
  "derive_k_outer blake3 ikm =
     (let v = hkdf_blake3 blake3 ikm [] CESS_OUTER_ENVELOPE_INFO 32 in
      if length v = 32 then Some (Arr32 v) else None)"

section \<open>Labels\<close>

definition HEX :: bytes where "HEX = ascii ''0123456789abcdef''"

definition push_hex_u16_be :: "bytes \<Rightarrow> u16 \<Rightarrow> bytes" where
  "push_hex_u16_be out v =
     fold (\<lambda>shift out. out @ [HEX ! unat (drop_bit (shift * 4) v AND 0xF)]) (rev [0..<4]) out"

definition push_layer_index :: "bytes \<Rightarrow> u8 \<Rightarrow> bytes" where
  "push_layer_index out layer_index =
     (let out = out @ ascii ''-l'' in
      if layer_index < 10 then out @ [0x30 + layer_index]
      else if layer_index < 100 then out @ [0x30 + layer_index div 10] @ [0x30 + layer_index mod 10]
      else out @ [0x30 + layer_index div 100] @ [0x30 + (layer_index div 10) mod 10]
             @ [0x30 + layer_index mod 10])"

definition cess_inner_cascade_layer_key_info :: "u16 \<Rightarrow> u8 \<Rightarrow> bytes" where
  "cess_inner_cascade_layer_key_info suite_id layer_index =
     push_layer_index (push_hex_u16_be (ascii ''cess-inner-'') suite_id) layer_index @ ascii ''-key''"

definition cess_inner_cascade_layer_nonce_info :: "u16 \<Rightarrow> u8 \<Rightarrow> bytes" where
  "cess_inner_cascade_layer_nonce_info suite_id layer_index =
     push_layer_index (push_hex_u16_be (ascii ''cess-inner-'') suite_id) layer_index @ ascii ''-nonce''"

datatype cess_inner_etm64_cipher = EtM64Camellia256 | EtM64Serpent256 | EtM64Twofish256

definition cess_inner_cascade_etm64_info :: "u16 \<Rightarrow> u8 \<Rightarrow> cess_inner_etm64_cipher \<Rightarrow> bytes" where
  "cess_inner_cascade_etm64_info suite_id layer_index cipher =
     push_layer_index (push_hex_u16_be (ascii ''cess-inner-'') suite_id) layer_index @
     (case cipher of
        EtM64Camellia256 \<Rightarrow> ascii ''-camellia256''
      | EtM64Serpent256 \<Rightarrow> ascii ''-serpent256''
      | EtM64Twofish256 \<Rightarrow> ascii ''-twofish256'')"

definition cess_blake3_integrity_info :: "u16 \<Rightarrow> bytes" where
  "cess_blake3_integrity_info suite_id = push_hex_u16_be (ascii ''cess-blake3-integrity-'') suite_id"

definition cess_blake3_integrity_gap_info :: "u16 \<Rightarrow> u8 \<Rightarrow> bytes" where
  "cess_blake3_integrity_gap_info suite_id after_layer_index =
     push_layer_index
       (push_hex_u16_be (ascii ''cess-blake3-integrity-'') suite_id @ ascii ''-gap'') after_layer_index"

section \<open>Suite identifiers\<close>

abbreviation SUITE_ID_RESERVED :: u16 where "SUITE_ID_RESERVED \<equiv> 0"
abbreviation CESS_CORE_DEFAULT_CHACHA :: u16 where "CESS_CORE_DEFAULT_CHACHA \<equiv> 1"
abbreviation CASCADE_CHACHA_INNER_SERPENT_OUTER_P384 :: u16 where
  "CASCADE_CHACHA_INNER_SERPENT_OUTER_P384 \<equiv> 3"

definition is_retired_suite_id :: "u16 \<Rightarrow> bool" where
  "is_retired_suite_id sid \<longleftrightarrow> sid = 0x12"

definition LISTED_SUITE_ID_RANGES :: "(u16 \<times> u16) list" where
  "LISTED_SUITE_ID_RANGES =
     [(0x1, 0x7), (0x8, 0xF), (0x10, 0x30), (0x100, 0x102), (0x110, 0x112), (0x120, 0x122),
      (0x200, 0x207)]"

definition is_listed_suite_id :: "u16 \<Rightarrow> bool" where
  "is_listed_suite_id sid \<longleftrightarrow>
     (if sid = 0 then False
      else list_ex (\<lambda>(low, high). sid \<ge> low \<and> sid \<le> high) LISTED_SUITE_ID_RANGES)"

definition suite_id_for_profile_name :: "bytes \<Rightarrow> u16 option" where
  "suite_id_for_profile_name name =
     (if name = ascii ''standard'' then Some CESS_CORE_DEFAULT_CHACHA
      else if name = ascii ''conservative'' \<or> name = ascii ''conservative-shamir''
      then Some CASCADE_CHACHA_INNER_SERPENT_OUTER_P384
      else None)"

section \<open>Mode A\<close>

datatype cess_wire_error = ReservedSuiteId | RemovedHighAssuranceSuite | UnlistedSuiteId | TooShort

definition SuiteId_new :: "u16 \<Rightarrow> cess_wire_error + u16" where
  "SuiteId_new raw = (if raw = SUITE_ID_RESERVED then Inl ReservedSuiteId else Inr raw)"

definition assemble_mode_a_outer_plaintext :: "u16 \<Rightarrow> bytes \<Rightarrow> cess_wire_error + bytes" where
  "assemble_mode_a_outer_plaintext suite_id inner_blob =
     res_bind (SuiteId_new suite_id) (\<lambda>_.
       if is_retired_suite_id suite_id then Inl RemovedHighAssuranceSuite
       else if \<not> is_listed_suite_id suite_id then Inl UnlistedSuiteId
       else Inr ([ucast (drop_bit 8 suite_id)] @ [ucast suite_id] @ inner_blob))"

definition parse_mode_a_outer_plaintext :: "bytes \<Rightarrow> cess_wire_error + u16 \<times> bytes" where
  "parse_mode_a_outer_plaintext buf =
     (if length buf < 2 then Inl TooShort
      else
        let suite_id = u16_of_be (buf ! 0) (buf ! 1) in
        res_bind (SuiteId_new suite_id) (\<lambda>_.
          if is_retired_suite_id suite_id then Inl RemovedHighAssuranceSuite
          else if \<not> is_listed_suite_id suite_id then Inl UnlistedSuiteId
          else Inr (suite_id, drop 2 buf)))"

datatype cess_crypto_error = AeadEncrypt | AeadDecrypt | WireTooShort

text \<open>
  An AEAD with the tag appended, as the \<open>Aead\<close> trait of the AEAD crates documents it: key, nonce,
  associated data and message. Decryption accepts exactly the encryption of its result.
\<close>

type_synonym aead_fun = "arr32 \<Rightarrow> bytes \<Rightarrow> bytes \<Rightarrow> bytes \<Rightarrow> bytes option"

definition combined_aead :: "aead_fun \<Rightarrow> aead_fun \<Rightarrow> bool" where
  "combined_aead encf decf \<longleftrightarrow>
     (\<forall>k n a c p. decf k n a c = Some p \<longleftrightarrow> encf k n a p = Some c) \<and>
     (\<forall>k n a c p. encf k n a p = Some c \<longrightarrow> length c = length p + 16)"

definition seal_mode_a_outer :: "aead_fun \<Rightarrow> arr32 \<Rightarrow> bytes \<Rightarrow> bytes \<Rightarrow> cess_crypto_error + bytes" where
  "seal_mode_a_outer encf k_outer nonce outer_plaintext =
     res_bind (ok_or AeadEncrypt (encf k_outer nonce [] outer_plaintext)) (\<lambda>ct. Inr (nonce @ ct))"

definition open_mode_a_outer :: "aead_fun \<Rightarrow> arr32 \<Rightarrow> bytes \<Rightarrow> cess_crypto_error + bytes" where
  "open_mode_a_outer decf k_outer wire =
     (if length wire < 12 + 16 then Inl WireTooShort
      else ok_or AeadDecrypt (decf k_outer (take 12 wire) [] (drop 12 wire)))"

section \<open>HKDF-BLAKE3 against RFC 5869\<close>

text \<open>The blocks \<open>T(i)\<close> of the expand step, with the block counter as an octet.\<close>

fun rfc5869_t :: "(bytes \<Rightarrow> bytes) \<Rightarrow> bytes \<Rightarrow> nat \<Rightarrow> bytes" where
  "rfc5869_t prf info 0 = []"
| "rfc5869_t prf info (Suc i) = prf (rfc5869_t prf info i @ info @ [of_nat (Suc i)])"

definition rfc5869_expand :: "(bytes \<Rightarrow> bytes) \<Rightarrow> bytes \<Rightarrow> nat \<Rightarrow> bytes" where
  "rfc5869_expand prf info len =
     take len (concat (map (rfc5869_t prf info) [1..<Suc ((len + 31) div 32)]))"

lemma length_concat_blocks:
  "(\<And>x. length (prf x) = 32) \<Longrightarrow> length (concat (map (rfc5869_t prf info) [1..<Suc n])) = 32 * n"
  by (induction n) simp_all

lemma hkdf_blake3_loop_blocks:
  fixes blake3 prk info
  defines "prf \<equiv> \<lambda>x. arr32_bytes (hmac_blake3 blake3 (arr32_bytes prk) x)"
  assumes "i \<le> (len + 31) div 32"
  shows "hkdf_blake3_loop blake3 prk info len (rfc5869_t prf info i) (of_nat (Suc i))
      (concat (map (rfc5869_t prf info) [1..<Suc i])) =
    concat (map (rfc5869_t prf info) [1..<Suc ((len + 31) div 32)])"
  using assms(2)
proof (induction "(len + 31) div 32 - i" arbitrary: i)
  case 0
  then have i: "i = (len + 31) div 32" by simp
  have "len \<le> 32 * i" unfolding i by simp
  then have "\<not> length (concat (map (rfc5869_t prf info) [1..<Suc i])) < len"
    by (subst length_concat_blocks) (simp_all add: prf_def)
  then show ?case using i by (subst hkdf_blake3_loop.simps) simp
next
  case (Suc d)
  then have lt: "Suc i \<le> (len + 31) div 32" by simp
  then have "32 * i < len" by linarith
  then have less: "length (concat (map (rfc5869_t prf info) [1..<Suc i])) < len"
    by (subst length_concat_blocks) (simp_all add: prf_def)
  have "d = (len + 31) div 32 - Suc i" using Suc.hyps(2) by simp
  from Suc.hyps(1) [OF this lt] less show ?case
    by (subst hkdf_blake3_loop.simps) (simp add: Let_def prf_def)
qed

lemma length_rfc5869_expand: "(\<And>x. length (prf x) = 32) \<Longrightarrow> length (rfc5869_expand prf info len) = len"
  unfolding rfc5869_expand_def by (subst length_take, subst length_concat_blocks) simp_all

lemma hkdf_blake3_expand:
  fixes blake3 ikm salt
  defines "prk \<equiv> hmac_blake3 blake3 (if salt = [] then replicate 32 0 else salt) ikm"
  shows "hkdf_blake3 blake3 ikm salt info len =
    rfc5869_expand (\<lambda>x. arr32_bytes (hmac_blake3 blake3 (arr32_bytes prk) x)) info len"
  using hkdf_blake3_loop_blocks [of 0 len blake3 prk info]
  by (simp add: hkdf_blake3_def rfc5869_expand_def prk_def Let_def)

lemma length_hkdf_blake3 [simp]: "length (hkdf_blake3 blake3 ikm salt info len) = len"
  by (simp add: hkdf_blake3_expand length_rfc5869_expand)

section \<open>Labels are unambiguous\<close>

definition decimal_u8 :: "u8 \<Rightarrow> nat list" where
  "decimal_u8 b = (let n = unat b in
     if n < 10 then [n] else if n < 100 then [n div 10, n mod 10] else [n div 100, n div 10 mod 10, n mod 10])"

lemma decimal_u8_digit: "d \<in> set (decimal_u8 b) \<Longrightarrow> d < 10"
  using unsigned_less [of b, where ?'a = nat] by (auto simp: decimal_u8_def Let_def split: if_splits)

lemma decimal_u8_value: "foldl (\<lambda>a d. 10 * a + d) 0 (decimal_u8 b) = unat b"
proof -
  have "unat b div 100 = unat b div 10 div 10" by (simp add: div_mult2_eq [symmetric])
  then have "10 * (10 * (unat b div 100) + unat b div 10 mod 10) + unat b mod 10 = unat b"
    using div_mult_mod_eq [of "unat b div 10" 10] div_mult_mod_eq [of "unat b" 10]
    by (metis add_mult_distrib2 mult.commute)
  then show ?thesis by (simp add: decimal_u8_def Let_def)
qed

lemma decimal_u8_inject: "decimal_u8 a = decimal_u8 b \<longleftrightarrow> a = b"
  using decimal_u8_value by (metis word_unat_eq_iff)

lemma push_layer_index_decimal:
  "push_layer_index out i = out @ ascii ''-l'' @ map (\<lambda>d. of_nat (0x30 + d)) (decimal_u8 i)"
proof -
  have d: "of_nat (unat j div m) = (j div of_nat m :: u8)" "of_nat (unat j mod m) = (j mod of_nat m :: u8)"
    if "m < 256" for j :: u8 and m
  proof -
    have j: "unat j < 256" using unsigned_less [of j, where ?'a = nat] by simp
    have "unat j div m < 256" "unat j mod m < 256"
      by (rule le_less_trans [OF div_le_dividend j], rule le_less_trans [OF mod_less_eq_dividend j])
    with that show "of_nat (unat j div m) = (j div of_nat m :: u8)" "of_nat (unat j mod m) = (j mod of_nat m :: u8)"
      by (simp_all add: word_unat_eq_iff unat_div unat_mod unat_of_nat_u8)
  qed
  have "of_nat (unat i div 10 mod 10) = (i div 10 mod 10 :: u8)"
    using d(2) [of 10 "i div 10"] by (simp add: unat_div)
  moreover note d(1) [of 10 i] d(1) [of 100 i] d(2) [of 10 i]
  ultimately show ?thesis
    by (simp add: push_layer_index_def decimal_u8_def Let_def word_less_nat_alt)
qed

text \<open>What the labels of one suite and layer are for.\<close>

datatype cess_role = KeyRole | NonceRole | EtmRole cess_inner_etm64_cipher | GapRole

fun cess_label :: "cess_role \<Rightarrow> u16 \<Rightarrow> u8 \<Rightarrow> bytes" where
  "cess_label KeyRole sid i = cess_inner_cascade_layer_key_info sid i"
| "cess_label NonceRole sid i = cess_inner_cascade_layer_nonce_info sid i"
| "cess_label (EtmRole c) sid i = cess_inner_cascade_etm64_info sid i c"
| "cess_label GapRole sid i = cess_blake3_integrity_gap_info sid i"

fun role_prefix :: "cess_role \<Rightarrow> bytes" where
  "role_prefix GapRole = ascii ''cess-blake3-integrity-''"
| "role_prefix _ = ascii ''cess-inner-''"

fun role_middle :: "cess_role \<Rightarrow> bytes" where
  "role_middle GapRole = ascii ''-gap-l''"
| "role_middle _ = ascii ''-l''"

fun role_suffix :: "cess_role \<Rightarrow> bytes" where
  "role_suffix KeyRole = ascii ''-key''"
| "role_suffix NonceRole = ascii ''-nonce''"
| "role_suffix (EtmRole EtM64Camellia256) = ascii ''-camellia256''"
| "role_suffix (EtmRole EtM64Serpent256) = ascii ''-serpent256''"
| "role_suffix (EtmRole EtM64Twofish256) = ascii ''-twofish256''"
| "role_suffix GapRole = []"

definition hex4 :: "u16 \<Rightarrow> bytes" where
  "hex4 v = map (\<lambda>s. HEX ! unat (drop_bit (s * 4) v AND 0xF)) [3, 2, 1, 0]"

lemma push_hex_u16_be_hex4: "push_hex_u16_be out v = out @ hex4 v"
  by (simp add: push_hex_u16_be_def hex4_def upt_rec)

lemma cess_label_parts:
  "cess_label r sid i = role_prefix r @ hex4 sid @ role_middle r @
     map (\<lambda>d. of_nat (0x30 + d)) (decimal_u8 i) @ role_suffix r"
proof (cases r)
  case (EtmRole c)
  then show ?thesis
    by (cases c) (simp_all add: cess_inner_cascade_etm64_info_def push_layer_index_decimal push_hex_u16_be_hex4 ascii_def)
qed (simp_all add: cess_inner_cascade_layer_key_info_def cess_inner_cascade_layer_nonce_info_def
  cess_blake3_integrity_gap_info_def push_layer_index_decimal push_hex_u16_be_hex4 ascii_def)

lemma hex4_inject: "hex4 v = hex4 w \<longleftrightarrow> v = w"
proof
  assume eq: "hex4 v = hex4 w"
  have "distinct HEX" "length HEX = 16" by (simp_all add: HEX_def ascii_def)
  moreover have lt: "unat (x AND 0xF) < 16" for x :: u16
    using word_and_le1 [of x "0xF"] by (simp add: word_le_nat_alt)
  ultimately have idx: "x AND 0xF = y AND 0xF" if "HEX ! unat (x AND 0xF) = HEX ! unat (y AND 0xF)" for x y :: u16
    using that nth_eq_iff_index_eq [of HEX "unat (x AND 0xF)" "unat (y AND 0xF)"]
    by (simp add: word_unat_eq_iff [of "x AND 0xF"])
  have nib: "drop_bit (s * 4) v AND 0xF = drop_bit (s * 4) w AND 0xF" if "s \<in> {0, 1, 2, 3}" for s
    using that eq by (intro idx) (auto simp: hex4_def)
  show "v = w"
  proof (rule bit_word_eqI)
    fix n assume n: "n < LENGTH(16)"
    then have "n div 4 \<in> {0, 1, 2, 3}" by auto
    from nib [OF this] have "bit (drop_bit (n div 4 * 4) v AND 0xF) (n mod 4) = bit (drop_bit (n div 4 * 4) w AND 0xF) (n mod 4)"
      by simp
    moreover have "bit (0xF :: u16) (n mod 4)"
      using bit_mask_iff [where ?'a = "16 word", of 4 "n mod 4"] by (simp add: mask_eq_exp_minus_1)
    moreover have "n div 4 * 4 + n mod 4 = n" by simp
    ultimately show "bit v n = bit w n" by (simp add: bit_and_iff bit_drop_bit_eq)
  qed
qed simp

definition digit_char :: "u8 \<Rightarrow> bool" where
  "digit_char b \<longleftrightarrow> 0x30 \<le> b \<and> b \<le> 0x39"

lemma digit_char_of_nat: "d < 10 \<Longrightarrow> digit_char (of_nat (0x30 + d))"
  by (simp add: digit_char_def word_le_nat_alt unat_of_nat_u8 del: of_nat_add)

lemma digits_then_suffix:
  assumes "map (\<lambda>d. of_nat (0x30 + d)) (decimal_u8 i) @ u = map (\<lambda>d. of_nat (0x30 + d)) (decimal_u8 j) @ v"
    and "u = [] \<or> \<not> digit_char (hd u)" and "v = [] \<or> \<not> digit_char (hd v)"
  shows "i = j \<and> u = v"
proof -
  have tw: "takeWhile digit_char (map (\<lambda>d. of_nat (0x30 + d)) (decimal_u8 l) @ x) =
      map (\<lambda>d. of_nat (0x30 + d)) (decimal_u8 l)" if "x = [] \<or> \<not> digit_char (hd x)" for l x
  proof -
    have "digit_char b" if "b \<in> set (map (\<lambda>d. of_nat (0x30 + d)) (decimal_u8 l))" for b
      using that decimal_u8_digit [of _ l] digit_char_of_nat by (auto simp del: of_nat_add)
    then show ?thesis using that by (cases x) (simp_all add: takeWhile_append2 del: of_nat_add set_map)
  qed
  have eq: "map (\<lambda>d. of_nat (0x30 + d)) (decimal_u8 i) = (map (\<lambda>d. of_nat (0x30 + d)) (decimal_u8 j) :: bytes)"
    using arg_cong [OF assms(1), of "takeWhile digit_char"] by (simp only: tw [OF assms(2)] tw [OF assms(3)])
  have "inj_on (\<lambda>d. of_nat (0x30 + d) :: u8) {..<10}"
  proof (rule inj_onI)
    fix x y assume "x \<in> {..<10}" "y \<in> {..<10}" "(of_nat (0x30 + x) :: u8) = of_nat (0x30 + y)"
    then have "unat (of_nat (0x30 + x) :: u8) = unat (of_nat (0x30 + y) :: u8)" "x < 10" "y < 10" by simp_all
    then show "x = y" by (simp add: unat_of_nat_u8 del: of_nat_add)
  qed
  moreover have "set (decimal_u8 i) \<union> set (decimal_u8 j) \<subseteq> {..<10}"
    using decimal_u8_digit by auto
  ultimately have "inj_on (\<lambda>d. of_nat (0x30 + d) :: u8) (set (decimal_u8 i) \<union> set (decimal_u8 j))"
    by (rule inj_on_subset)
  with eq have "decimal_u8 i = decimal_u8 j" by (rule map_inj_on)
  with assms(1) show ?thesis by (simp add: decimal_u8_inject)
qed

lemma role_suffix_not_digit: "role_suffix r = [] \<or> \<not> digit_char (hd (role_suffix r))"
  by (induction r rule: role_suffix.induct) (simp_all add: ascii_def digit_char_def)

lemma role_suffix_inject: "role_suffix r = role_suffix r' \<longleftrightarrow> r = r'"
  by (induction r rule: role_suffix.induct; induction r' rule: role_suffix.induct) (simp_all add: ascii_def)

lemma length_hex4 [simp]: "length (hex4 v) = 4"
  by (simp add: hex4_def)

lemma role_prefix_differs: "role_prefix GapRole @ x \<noteq> ascii ''cess-inner-'' @ y"
  by (simp add: ascii_def)

lemma cess_label_inject:
  assumes "cess_label r sid i = cess_label r' sid' i'"
  shows "r = r' \<and> sid = sid' \<and> i = i'"
proof -
  note eq = assms [unfolded cess_label_parts]
  have gap: "r = GapRole \<longleftrightarrow> r' = GapRole"
    using eq role_prefix_differs role_prefix_differs [symmetric] by (cases r; cases r') (simp_all del: role_prefix.simps(1))
  then have "role_prefix r = role_prefix r'" "role_middle r = role_middle r'" by (cases r; cases r'; simp)+
  with eq have sid: "hex4 sid = hex4 sid'" and rest:
    "map (\<lambda>d. of_nat (0x30 + d)) (decimal_u8 i) @ role_suffix r =
     map (\<lambda>d. of_nat (0x30 + d)) (decimal_u8 i') @ role_suffix r'" by simp_all
  from digits_then_suffix [OF rest role_suffix_not_digit role_suffix_not_digit]
  show ?thesis using sid by (simp add: hex4_inject role_suffix_inject)
qed

section \<open>Properties\<close>


text \<open>
  Domain separation of the inner cascade: the labels of two different purposes (bulk key, nonce,
  one of the three 64-byte key pairs, inter-layer integrity), suites or layers are different strings.
\<close>

theorem cess_labels_separate:
  "cess_label r sid i = cess_label r' sid' i' \<longleftrightarrow> r = r' \<and> sid = sid' \<and> i = i'"
  using cess_label_inject by blast

text \<open>
  The Mode A envelope is exact: opening a wire message with \<open>K_outer\<close> and parsing it gives suite
  \<open>sid\<close> and \<open>inner\<close> if and only if the message is what assembling and sealing them with some
  12-byte nonce produces; so reserved, retired and unlisted suites never come out of a message.
\<close>

theorem mode_a_exact:
  assumes "combined_aead encf decf"
  shows "(\<exists>pt. open_mode_a_outer decf k wire = Inr pt \<and> parse_mode_a_outer_plaintext pt = Inr (sid, inner)) \<longleftrightarrow>
    (\<exists>nonce pt. length nonce = 12 \<and> assemble_mode_a_outer_plaintext sid inner = Inr pt \<and>
       seal_mode_a_outer encf k nonce pt = Inr wire)"
proof -
  have laws: "decf k n a c = Some p \<longleftrightarrow> encf k n a p = Some c"
    "encf k n a p = Some c \<Longrightarrow> length c = length p + 16" for n a c p
    using assms by (simp_all add: combined_aead_def)
  have wire: "parse_mode_a_outer_plaintext pt = Inr (sid, inner) \<longleftrightarrow>
      assemble_mode_a_outer_plaintext sid inner = Inr pt" for pt
  proof (cases "length pt < 2")
    case False
    then obtain a b r where pt: "pt = a # b # r" by (cases pt; cases "tl pt") auto
    have "\<not> bit b (8 + n)" for n using bit_imp_le_length [of b "8 + n"] by auto
    then have "u16_of_be a b = sid \<longleftrightarrow> a = ucast (drop_bit 8 sid) \<and> b = ucast sid"
      by (auto simp: u16_of_be_def bit_simps intro!: bit_word_eqI)
    moreover have "parse_mode_a_outer_plaintext pt = Inr (sid, inner) \<longleftrightarrow> u16_of_be a b = sid \<and>
        sid \<noteq> 0 \<and> \<not> is_retired_suite_id sid \<and> is_listed_suite_id sid \<and> r = inner"
      by (auto simp: parse_mode_a_outer_plaintext_def pt SuiteId_new_def Let_def)
    moreover have "assemble_mode_a_outer_plaintext sid inner = Inr pt \<longleftrightarrow>
        sid \<noteq> 0 \<and> \<not> is_retired_suite_id sid \<and> is_listed_suite_id sid \<and>
        a = ucast (drop_bit 8 sid) \<and> b = ucast sid \<and> r = inner"
      by (auto simp: assemble_mode_a_outer_plaintext_def pt SuiteId_new_def)
    ultimately show ?thesis by blast
  qed (auto simp: parse_mode_a_outer_plaintext_def assemble_mode_a_outer_plaintext_def SuiteId_new_def)
  have "open_mode_a_outer decf k wire = Inr pt \<longleftrightarrow>
      (\<exists>nonce. length nonce = 12 \<and> seal_mode_a_outer encf k nonce pt = Inr wire)" for pt
  proof
    assume l: "open_mode_a_outer decf k wire = Inr pt"
    then have "28 \<le> length wire" by (simp add: open_mode_a_outer_def split: if_splits)
    moreover from l this have "decf k (take 12 wire) [] (drop 12 wire) = Some pt"
      by (cases "decf k (take 12 wire) [] (drop 12 wire)") (simp_all add: open_mode_a_outer_def)
    ultimately show "\<exists>nonce. length nonce = 12 \<and> seal_mode_a_outer encf k nonce pt = Inr wire"
      by (intro exI [of _ "take 12 wire"]) (simp add: seal_mode_a_outer_def laws)
  next
    assume "\<exists>nonce. length nonce = 12 \<and> seal_mode_a_outer encf k nonce pt = Inr wire"
    then obtain nonce ct where "length nonce = 12" "encf k nonce [] pt = Some ct" "wire = nonce @ ct"
      by (auto simp: seal_mode_a_outer_def res_bind_eq_Inr ok_or_def split: option.splits)
    then show "open_mode_a_outer decf k wire = Inr pt"
      using laws(2) [of nonce "[]" pt ct] by (simp add: open_mode_a_outer_def laws(1) [symmetric])
  qed
  then show ?thesis using wire by blast
qed

definition zero_tag_enc :: aead_fun where
  "zero_tag_enc k n a p = Some (p @ replicate 16 0)"

definition zero_tag_dec :: aead_fun where
  "zero_tag_dec k n a c =
     (if 16 \<le> length c \<and> drop (length c - 16) c = replicate 16 0 then Some (take (length c - 16) c) else None)"

lemma zero_tag_aead: "combined_aead zero_tag_enc zero_tag_dec"
proof -
  have "zero_tag_dec k n a c = Some p \<longleftrightarrow> zero_tag_enc k n a p = Some c" for k n a c p
  proof
    assume "zero_tag_dec k n a c = Some p"
    then have "16 \<le> length c" "drop (length c - 16) c = replicate 16 0" "p = take (length c - 16) c"
      by (auto simp: zero_tag_dec_def split: if_splits)
    then show "zero_tag_enc k n a p = Some c"
      by (metis append_take_drop_id zero_tag_enc_def)
  qed (auto simp: zero_tag_dec_def zero_tag_enc_def)
  then show ?thesis by (auto simp: combined_aead_def zero_tag_enc_def)
qed

theorem mode_a_exact_witness:
  "\<exists>pt. open_mode_a_outer zero_tag_dec (Arr32 (replicate 32 0)) (replicate 12 9 @ [0, 3, 7] @ replicate 16 0) = Inr pt \<and>
     parse_mode_a_outer_plaintext pt = Inr (3, [7])"
proof -
  have "assemble_mode_a_outer_plaintext 3 [7] = Inr [0, 3, 7]"
    by (simp add: assemble_mode_a_outer_plaintext_def SuiteId_new_def is_retired_suite_id_def
        is_listed_suite_id_def LISTED_SUITE_ID_RANGES_def)
  moreover have "seal_mode_a_outer zero_tag_enc (Arr32 (replicate 32 0)) (replicate 12 9) [0, 3, 7] =
      Inr (replicate 12 9 @ [0, 3, 7] @ replicate 16 0)"
    by (simp add: seal_mode_a_outer_def zero_tag_enc_def)
  ultimately show ?thesis
    by (intro mode_a_exact [OF zero_tag_aead, THEN iffD2] exI [of _ "replicate 12 9"] exI [of _ "[0, 3, 7]"]) simp
qed

end
