(* ===== verification/Cipher_Profile.thy ===== *)
theory Cipher_Profile
  imports Cess "HOL-Library.Multiset"
begin

text \<open>
  Cipher profiles of \<open>crates/cipher-profile\<close>: layers (\<open>layer.rs\<close>), Shamir metadata
  (\<open>shamir_cfg.rs\<close>), HKDF labels (\<open>domain.rs\<close>), profiles with their wire format and builder
  (\<open>profile.rs\<close>), the registry (\<open>registry.rs\<close>) and audit records (\<open>audit.rs\<close>); and the session
  curve of \<open>crates/ephemeral-session/src/curve_select.rs\<close>. A Rust \<open>str\<close> is its UTF-8 bytes.
\<close>

section \<open>Strings\<close>

text \<open>Validity of UTF-8 as \<open>core::str::from_utf8\<close> checks it.\<close>

fun utf8_valid :: "bytes \<Rightarrow> bool" where
  "utf8_valid [] = True"
| "utf8_valid (a # bs) =
     (if a < 0x80 then utf8_valid bs
      else case bs of
        [] \<Rightarrow> False
      | b # cs \<Rightarrow>
          if 0xC2 \<le> a \<and> a \<le> 0xDF then 0x80 \<le> b \<and> b \<le> 0xBF \<and> utf8_valid cs
          else case cs of
            [] \<Rightarrow> False
          | c # ds \<Rightarrow>
              if 0xE0 \<le> a \<and> a \<le> 0xEF then
                (if a = 0xE0 then 0xA0 \<le> b \<and> b \<le> 0xBF
                 else if a = 0xED then 0x80 \<le> b \<and> b \<le> 0x9F else 0x80 \<le> b \<and> b \<le> 0xBF) \<and>
                0x80 \<le> c \<and> c \<le> 0xBF \<and> utf8_valid ds
              else case ds of
                [] \<Rightarrow> False
              | d # es \<Rightarrow>
                  0xF0 \<le> a \<and> a \<le> 0xF4 \<and>
                  (if a = 0xF0 then 0x90 \<le> b \<and> b \<le> 0xBF
                   else if a = 0xF4 then 0x80 \<le> b \<and> b \<le> 0x8F else 0x80 \<le> b \<and> b \<le> 0xBF) \<and>
                  0x80 \<le> c \<and> c \<le> 0xBF \<and> 0x80 \<le> d \<and> d \<le> 0xBF \<and> utf8_valid es)"

text \<open>\<open>heapless::String<N>::push_str\<close>: all of the string or nothing.\<close>

definition push_str :: "nat \<Rightarrow> bytes \<Rightarrow> bytes \<Rightarrow> bytes option" where
  "push_str cap s t = (if length s + length t \<le> cap then Some (s @ t) else None)"

definition push_str_lossy :: "nat \<Rightarrow> bytes \<Rightarrow> bytes \<Rightarrow> bytes" where
  "push_str_lossy cap t s = (case push_str cap s t of None \<Rightarrow> s | Some s' \<Rightarrow> s')"

section \<open>Errors, curves, layers and Shamir metadata\<close>

datatype cipher_profile_error =
    NoLayers | TooManyLayers | DuplicateCipher | CpAuthenticationFailed | CipherError u8
  | InvalidProfileName | ProfileLocked | ProfileNotFound | RegistryFull | ProfileMismatch
  | MalformedEncoding | RemovedBrainpoolP512Curve | RemovedHighAssuranceProfile
  | InvalidShamirConfig | CpKeyDerivation | CurveMismatch | PayloadTooLarge | CpVault

datatype session_curve = BrainpoolP256r1 | BrainpoolP384r1

datatype session_curve_wire_error = UnknownCurve | RemovedBrainpoolP512

fun curve_wire_id :: "session_curve \<Rightarrow> u8" where
  "curve_wire_id BrainpoolP256r1 = 0x01"
| "curve_wire_id BrainpoolP384r1 = 0x02"

definition curve_try_from_wire :: "u8 \<Rightarrow> session_curve_wire_error + session_curve" where
  "curve_try_from_wire byte =
     (if byte = 0x01 then Inr BrainpoolP256r1
      else if byte = 0x02 then Inr BrainpoolP384r1
      else if byte = 0x03 then Inl RemovedBrainpoolP512
      else Inl UnknownCurve)"

datatype cipher_layer = Aes256Gcm | ChaCha20Poly1305 | Twofish256 | Serpent256 | Camellia256

fun domain_fragment :: "cipher_layer \<Rightarrow> bytes" where
  "domain_fragment Aes256Gcm = ascii ''aes256gcm''"
| "domain_fragment ChaCha20Poly1305 = ascii ''chacha20poly1305''"
| "domain_fragment Twofish256 = ascii ''twofish256''"
| "domain_fragment Serpent256 = ascii ''serpent256''"
| "domain_fragment Camellia256 = ascii ''camellia256''"

fun layer_wire_id :: "cipher_layer \<Rightarrow> u8" where
  "layer_wire_id Aes256Gcm = 0x01"
| "layer_wire_id ChaCha20Poly1305 = 0x02"
| "layer_wire_id Twofish256 = 0x03"
| "layer_wire_id Serpent256 = 0x04"
| "layer_wire_id Camellia256 = 0x05"

definition layer_from_wire :: "u8 \<Rightarrow> cipher_layer option" where
  "layer_from_wire byte =
     (if byte = 0x01 then Some Aes256Gcm
      else if byte = 0x02 then Some ChaCha20Poly1305
      else if byte = 0x03 then Some Twofish256
      else if byte = 0x04 then Some Serpent256
      else if byte = 0x05 then Some Camellia256
      else None)"

record shamir_config =
  sc_threshold :: u8
  sc_total :: u8

definition ShamirConfig_new :: "u8 \<Rightarrow> u8 \<Rightarrow> cipher_profile_error + shamir_config" where
  "ShamirConfig_new k n =
     (if k = 0 then Inl InvalidShamirConfig
      else if n = 0 then Inl InvalidShamirConfig
      else if k > n then Inl InvalidShamirConfig
      else Inr \<lparr>sc_threshold = k, sc_total = n\<rparr>)"

definition ShamirConfig_none :: shamir_config where
  "ShamirConfig_none = \<lparr>sc_threshold = 1, sc_total = 1\<rparr>"

definition ShamirConfig_is_active :: "shamir_config \<Rightarrow> bool" where
  "ShamirConfig_is_active c \<longleftrightarrow> sc_total c > 1"

section \<open>Labels of the HKDF-SHA256 cascade\<close>

definition MAX_CASCADE_PLAINTEXT :: nat where "MAX_CASCADE_PLAINTEXT = 8192"

definition push_bytes :: "bytes \<Rightarrow> bytes \<Rightarrow> cipher_profile_error + bytes" where
  "push_bytes buf s = ok_or CpKeyDerivation (push_all 128 buf s)"

definition build_layer_info ::
  "bytes \<Rightarrow> cipher_layer \<Rightarrow> u8 \<Rightarrow> bytes \<Rightarrow> cipher_profile_error + bytes" where
  "build_layer_info profile_name cipher layer_index suffix =
     res_bind (push_bytes [] (ascii ''galdralag/profile/'')) (\<lambda>out.
     res_bind (push_bytes out profile_name) (\<lambda>out.
     res_bind (push_bytes out (ascii ''/'')) (\<lambda>out.
     res_bind (push_bytes out (domain_fragment cipher)) (\<lambda>out.
     res_bind (push_bytes out (ascii ''/layer-'')) (\<lambda>out.
     res_bind
       (if layer_index < 10 then ok_or CpKeyDerivation (vpush 128 out (0x30 + layer_index))
        else if layer_index < 100 then
          res_bind (ok_or CpKeyDerivation (vpush 128 out (0x30 + layer_index div 10))) (\<lambda>out.
          ok_or CpKeyDerivation (vpush 128 out (0x30 + layer_index mod 10)))
        else
          res_bind (ok_or CpKeyDerivation (vpush 128 out (0x30 + layer_index div 100))) (\<lambda>out.
          res_bind (ok_or CpKeyDerivation (vpush 128 out (0x30 + (layer_index div 10) mod 10))) (\<lambda>out.
          ok_or CpKeyDerivation (vpush 128 out (0x30 + layer_index mod 10))))) (\<lambda>out.
     push_bytes out suffix))))))"

definition layer_key_info :: "bytes \<Rightarrow> cipher_layer \<Rightarrow> u8 \<Rightarrow> cipher_profile_error + bytes" where
  "layer_key_info profile_name cipher layer_index =
     build_layer_info profile_name cipher layer_index (ascii ''/key/v1'')"

definition layer_nonce_info :: "bytes \<Rightarrow> cipher_layer \<Rightarrow> u8 \<Rightarrow> cipher_profile_error + bytes" where
  "layer_nonce_info profile_name cipher layer_index =
     build_layer_info profile_name cipher layer_index (ascii ''/nonce/v1'')"

section \<open>Profiles\<close>

abbreviation MAX_NAME :: nat where "MAX_NAME \<equiv> 64"
abbreviation MAX_DESC :: nat where "MAX_DESC \<equiv> 128"

record cipher_profile =
  cp_name :: bytes
  cp_description :: bytes
  cp_curve :: session_curve
  cp_layers :: "cipher_layer list"
  cp_shamir :: shamir_config
  cp_ephemeral_ecdh :: bool

definition is_ascii_alphanumeric :: "u8 \<Rightarrow> bool" where
  "is_ascii_alphanumeric b \<longleftrightarrow>
     0x30 \<le> b \<and> b \<le> 0x39 \<or> 0x41 \<le> b \<and> b \<le> 0x5A \<or> 0x61 \<le> b \<and> b \<le> 0x7A"

definition validate_profile_name :: "bytes \<Rightarrow> cipher_profile_error + unit" where
  "validate_profile_name name =
     (if name = [] then Inl InvalidProfileName
      else if length name > MAX_NAME then Inl InvalidProfileName
      else if list_all (\<lambda>c. is_ascii_alphanumeric c \<or> c = 0x2D) name then Inr ()
      else Inl InvalidProfileName)"

definition check_layers :: "cipher_layer list \<Rightarrow> cipher_profile_error + unit" where
  "check_layers layers =
     (if layers = [] then Inl NoLayers
      else if length layers > 4 then Inl TooManyLayers
      else if list_ex (\<lambda>i. list_ex (\<lambda>j. layers ! i = layers ! j) [i + 1..<length layers])
                [0..<length layers] then Inl DuplicateCipher
      else Inr ())"

definition profile_to_bytes :: "cipher_profile \<Rightarrow> bytes" where
  "profile_to_bytes p =
     (let out = push_lossy 256 [] [of_nat (length (cp_name p))];
          out = push_lossy 256 out (cp_name p);
          out = push_lossy 256 out [of_nat (length (cp_description p))];
          out = push_lossy 256 out (cp_description p);
          out = push_lossy 256 out [curve_wire_id (cp_curve p)];
          out = push_lossy 256 out [of_nat (length (cp_layers p))];
          out = push_lossy 256 out (map layer_wire_id (cp_layers p));
          out = push_lossy 256 out [sc_threshold (cp_shamir p)];
          out = push_lossy 256 out [sc_total (cp_shamir p)];
          out = push_lossy 256 out [if cp_ephemeral_ecdh p then 1 else 0] in
      out)"

definition get_byte :: "bytes \<Rightarrow> nat \<Rightarrow> cipher_profile_error + u8" where
  "get_byte bs i = (if i < length bs then Inr (bs ! i) else Inl MalformedEncoding)"

definition get_range :: "bytes \<Rightarrow> nat \<Rightarrow> nat \<Rightarrow> cipher_profile_error + bytes" where
  "get_range bs i n = (if i + n \<le> length bs then Inr (slice i n bs) else Inl MalformedEncoding)"

fun parse_layers ::
  "bytes \<Rightarrow> nat \<Rightarrow> nat \<Rightarrow> cipher_layer list \<Rightarrow> cipher_profile_error + cipher_layer list \<times> nat" where
  "parse_layers bs i 0 layers = Inr (layers, i)"
| "parse_layers bs i (Suc n) layers =
     res_bind (get_byte bs i) (\<lambda>wid.
     res_bind (ok_or MalformedEncoding (layer_from_wire wid)) (\<lambda>layer.
     res_bind (ok_or MalformedEncoding (vpush 4 layers layer)) (\<lambda>layers.
     parse_layers bs (i + 1) n layers)))"

definition profile_from_bytes :: "bytes \<Rightarrow> cipher_profile_error + cipher_profile" where
  "profile_from_bytes bs =
     res_bind (get_byte bs 0) (\<lambda>b. let nl = unat b; i = 1 in
     if nl > MAX_NAME then Inl MalformedEncoding else
     res_bind (get_range bs i nl) (\<lambda>name_slice. let i = i + nl in
     res_bind (get_byte bs i) (\<lambda>b. let dl = unat b; i = i + 1 in
     if dl > MAX_DESC then Inl MalformedEncoding else
     res_bind (get_range bs i dl) (\<lambda>desc_slice. let i = i + dl in
     res_bind (get_byte bs i) (\<lambda>cw. let i = i + 1 in
     res_bind (case curve_try_from_wire cw of
         Inr c \<Rightarrow> Inr c
       | Inl RemovedBrainpoolP512 \<Rightarrow> Inl RemovedBrainpoolP512Curve
       | Inl UnknownCurve \<Rightarrow> Inl MalformedEncoding) (\<lambda>curve.
     res_bind (get_byte bs i) (\<lambda>b. let lc = unat b; i = i + 1 in
     if lc = 0 \<or> lc > 4 then Inl MalformedEncoding else
     res_bind (parse_layers bs i lc []) (\<lambda>(layers, i).
     res_bind (get_byte bs i) (\<lambda>sk. let i = i + 1 in
     res_bind (get_byte bs i) (\<lambda>sn. let i = i + 1 in
     res_bind (if i < length bs
         then (if bs ! i = 0 then Inr (False, i + 1) else if bs ! i = 1 then Inr (True, i + 1)
               else Inl MalformedEncoding)
         else Inr (True, i)) (\<lambda>(ephemeral_ecdh, i).
     if i \<noteq> length bs then Inl MalformedEncoding else
     res_bind (map_err (\<lambda>_. InvalidShamirConfig) (ShamirConfig_new sk sn)) (\<lambda>shamir.
     if \<not> utf8_valid name_slice then Inl MalformedEncoding
     else if \<not> utf8_valid desc_slice then Inl MalformedEncoding else
     res_bind (validate_profile_name name_slice) (\<lambda>_.
     res_bind (ok_or MalformedEncoding (push_str MAX_NAME [] name_slice)) (\<lambda>ns.
     res_bind (ok_or MalformedEncoding (push_str MAX_DESC [] desc_slice)) (\<lambda>ds.
     res_bind (check_layers layers) (\<lambda>_.
     Inr \<lparr>cp_name = ns, cp_description = ds, cp_curve = curve, cp_layers = layers,
          cp_shamir = shamir, cp_ephemeral_ecdh = ephemeral_ecdh\<rparr>))))))))))))))))"

subsection \<open>Builder\<close>

record profile_builder =
  pb_name :: bytes
  pb_description :: bytes
  pb_curve :: "session_curve option"
  pb_layers :: "cipher_layer list"
  pb_shamir :: shamir_config
  pb_ephemeral_ecdh :: bool

definition builder_new :: "bytes \<Rightarrow> cipher_profile_error + profile_builder" where
  "builder_new name =
     res_bind (validate_profile_name name) (\<lambda>_.
     res_bind (ok_or InvalidProfileName (push_str MAX_NAME [] name)) (\<lambda>ns.
     Inr \<lparr>pb_name = ns, pb_description = [], pb_curve = None, pb_layers = [],
          pb_shamir = ShamirConfig_none, pb_ephemeral_ecdh = True\<rparr>))"

definition builder_description :: "bytes \<Rightarrow> profile_builder \<Rightarrow> profile_builder" where
  "builder_description desc b =
     (let b = b\<lparr>pb_description := []\<rparr> in
      if length desc \<le> MAX_DESC
      then b\<lparr>pb_description := push_str_lossy MAX_DESC desc (pb_description b)\<rparr> else b)"

definition builder_curve :: "session_curve \<Rightarrow> profile_builder \<Rightarrow> profile_builder" where
  "builder_curve curve b = b\<lparr>pb_curve := Some curve\<rparr>"

definition builder_layer :: "cipher_layer \<Rightarrow> profile_builder \<Rightarrow> cipher_profile_error + profile_builder" where
  "builder_layer cipher b =
     (if length (pb_layers b) \<ge> 4 then Inl TooManyLayers
      else if list_ex (\<lambda>existing. existing = cipher) (pb_layers b) then Inl DuplicateCipher
      else res_bind (ok_or TooManyLayers (vpush 4 (pb_layers b) cipher)) (\<lambda>ls.
        Inr (b\<lparr>pb_layers := ls\<rparr>)))"

definition builder_shamir :: "shamir_config \<Rightarrow> profile_builder \<Rightarrow> profile_builder" where
  "builder_shamir config b = b\<lparr>pb_shamir := config\<rparr>"

definition builder_ephemeral_ecdh :: "bool \<Rightarrow> profile_builder \<Rightarrow> profile_builder" where
  "builder_ephemeral_ecdh on b = b\<lparr>pb_ephemeral_ecdh := on\<rparr>"

definition builder_build :: "profile_builder \<Rightarrow> cipher_profile_error + cipher_profile" where
  "builder_build b =
     (if pb_layers b = [] then Inl NoLayers
      else
        res_bind (ok_or CurveMismatch (pb_curve b)) (\<lambda>curve.
        res_bind (check_layers (pb_layers b)) (\<lambda>_.
        res_bind (ShamirConfig_new (sc_threshold (pb_shamir b)) (sc_total (pb_shamir b))) (\<lambda>_.
        Inr \<lparr>cp_name = pb_name b, cp_description = pb_description b, cp_curve = curve,
             cp_layers = pb_layers b, cp_shamir = pb_shamir b,
             cp_ephemeral_ecdh = pb_ephemeral_ecdh b\<rparr>))))"

section \<open>Registry\<close>

definition BUILTIN :: "bytes list" where
  "BUILTIN = [ascii ''standard'', ascii ''conservative'', ascii ''conservative-shamir'']"

type_synonym profile_registry = "cipher_profile list"

definition builtin_standard :: "cipher_profile_error + cipher_profile" where
  "builtin_standard =
     res_bind (builder_new (ascii ''standard'')) (\<lambda>b.
     res_bind (builder_layer ChaCha20Poly1305 (builder_curve BrainpoolP256r1
       (builder_description (ascii ''Single ChaCha20-Poly1305; BP256r1 ECDHE'') b))) (\<lambda>b.
     builder_build (builder_shamir ShamirConfig_none b)))"

definition builtin_conservative :: "cipher_profile_error + cipher_profile" where
  "builtin_conservative =
     res_bind (builder_new (ascii ''conservative'')) (\<lambda>b.
     res_bind (builder_layer ChaCha20Poly1305 (builder_curve BrainpoolP256r1
       (builder_description
         (ascii ''ChaCha inner, Serpent outer (CESS suite_id 0x0003); BP256r1'') b))) (\<lambda>b.
     res_bind (builder_layer Serpent256 b) (\<lambda>b.
     builder_build (builder_shamir ShamirConfig_none b))))"

definition builtin_conservative_shamir :: "cipher_profile_error + cipher_profile" where
  "builtin_conservative_shamir =
     res_bind (builder_new (ascii ''conservative-shamir'')) (\<lambda>b.
     res_bind (builder_layer ChaCha20Poly1305 (builder_curve BrainpoolP256r1
       (builder_description (ascii ''Same cascade as conservative; Shamir 3-of-5'') b))) (\<lambda>b.
     res_bind (builder_layer Serpent256 b) (\<lambda>b.
     res_bind (ShamirConfig_new 3 5) (\<lambda>sc.
     builder_build (builder_shamir sc b)))))"

text \<open>\<open>with_builtins\<close> panics when a built-in profile does not build: \<open>None\<close>.\<close>

fun push_builtins ::
  "(cipher_profile_error + cipher_profile) list \<Rightarrow> profile_registry \<Rightarrow> profile_registry option" where
  "push_builtins [] ps = Some ps"
| "push_builtins (Inr p # rs) ps = push_builtins rs (push_lossy 16 ps [p])"
| "push_builtins (Inl e # rs) ps = None"

definition with_builtins :: "profile_registry option" where
  "with_builtins = push_builtins [builtin_standard, builtin_conservative, builtin_conservative_shamir] []"

definition registry_get :: "profile_registry \<Rightarrow> bytes \<Rightarrow> cipher_profile option" where
  "registry_get r name = find (\<lambda>p. cp_name p = name) r"

definition registry_register ::
  "cipher_profile \<Rightarrow> profile_registry \<Rightarrow> (cipher_profile_error + unit) \<times> profile_registry" where
  "registry_register profile r =
     (if length r \<ge> 16 then (Inl RegistryFull, r)
      else if registry_get r (cp_name profile) \<noteq> None then (Inl InvalidProfileName, r)
      else case vpush 16 r profile of
          None \<Rightarrow> (Inl RegistryFull, r)
        | Some r' \<Rightarrow> (Inr (), r'))"

definition registry_list :: "profile_registry \<Rightarrow> bytes list" where
  "registry_list r = push_lossy 16 [] (map cp_name r)"

definition swap_remove :: "nat \<Rightarrow> 'a list \<Rightarrow> 'a list" where
  "swap_remove i xs = butlast (xs[i := last xs])"

function registry_remove_loop ::
  "bytes \<Rightarrow> nat \<Rightarrow> profile_registry \<Rightarrow> (cipher_profile_error + unit) \<times> profile_registry" where
  "registry_remove_loop name i r =
     (if i < length r then
        if cp_name (r ! i) = name then (Inr (), swap_remove i r)
        else registry_remove_loop name (i + 1) r
      else (Inl ProfileNotFound, r))"
  by pat_completeness auto

termination
  by (relation "measure (\<lambda>(name, i, r). length r - i)") auto

declare registry_remove_loop.simps [simp del]

definition registry_remove ::
  "bytes \<Rightarrow> profile_registry \<Rightarrow> (cipher_profile_error + unit) \<times> profile_registry" where
  "registry_remove name r =
     (if name \<in> set BUILTIN then (Inl ProfileLocked, r) else registry_remove_loop name 0 r)"

section \<open>Audit records\<close>

record profile_audit_record =
  pa_profile_name :: bytes
  pa_curve :: bytes
  pa_layers :: "bytes list"
  pa_shamir_k :: u8
  pa_shamir_n :: u8
  pa_timestamp :: u64

fun curve_audit_str :: "session_curve \<Rightarrow> bytes" where
  "curve_audit_str BrainpoolP256r1 = ascii ''bp256''"
| "curve_audit_str BrainpoolP384r1 = ascii ''bp384''"

fun layer_audit_name :: "cipher_layer \<Rightarrow> bytes" where
  "layer_audit_name Aes256Gcm = ascii ''aes256gcm''"
| "layer_audit_name ChaCha20Poly1305 = ascii ''chacha20poly1305''"
| "layer_audit_name Twofish256 = ascii ''twofish256''"
| "layer_audit_name Serpent256 = ascii ''serpent256''"
| "layer_audit_name Camellia256 = ascii ''camellia256''"

definition audit_record :: "cipher_profile \<Rightarrow> u64 \<Rightarrow> profile_audit_record" where
  "audit_record p unix_timestamp =
     \<lparr>pa_profile_name = push_str_lossy 64 (cp_name p) [],
      pa_curve = curve_audit_str (cp_curve p),
      pa_layers = push_lossy 4 [] (map layer_audit_name (cp_layers p)),
      pa_shamir_k = sc_threshold (cp_shamir p),
      pa_shamir_n = sc_total (cp_shamir p),
      pa_timestamp = unix_timestamp\<rparr>"

definition u8_decimal :: "u8 \<Rightarrow> bytes" where
  "u8_decimal n =
     (if n \<ge> 100 then
        push_str_lossy 4 [0x30 + n mod 10] (push_str_lossy 4 [0x30 + (n div 10) mod 10]
          (push_str_lossy 4 [0x30 + n div 100] []))
      else if n \<ge> 10 then push_str_lossy 4 [0x30 + n mod 10] (push_str_lossy 4 [0x30 + n div 10] [])
      else push_str_lossy 4 [0x30 + n] [])"

definition to_audit_string :: "profile_audit_record \<Rightarrow> bytes" where
  "to_audit_string r =
     (let s = push_str_lossy 256 (ascii ''{\"profile\":\"'') [];
          s = push_str_lossy 256 (pa_profile_name r) s;
          s = push_str_lossy 256 (ascii ''\",\"curve\":\"'') s;
          s = push_str_lossy 256 (pa_curve r) s;
          s = push_str_lossy 256 (ascii ''\",\"layers\":['') s;
          s = fold (\<lambda>(i, layer) s.
                let s = (if i > 0 then push_str_lossy 256 (ascii '','') s else s);
                    s = push_str_lossy 256 (ascii ''\"'') s;
                    s = push_str_lossy 256 layer s in
                push_str_lossy 256 (ascii ''\"'') s) (enumerate 0 (pa_layers r)) s;
          s = push_str_lossy 256 (ascii ''],\"shamir\":\"'') s;
          s = push_str_lossy 256 (u8_decimal (pa_shamir_k r)) s;
          s = push_str_lossy 256 (ascii ''/'') s;
          s = push_str_lossy 256 (u8_decimal (pa_shamir_n r)) s in
      push_str_lossy 256 (ascii ''\"}'') s)"

section \<open>Well-formed profiles\<close>

definition wf_profile :: "cipher_profile \<Rightarrow> bool" where
  "wf_profile p \<longleftrightarrow>
     validate_profile_name (cp_name p) = Inr () \<and>
     length (cp_description p) \<le> 128 \<and> utf8_valid (cp_description p) \<and>
     check_layers (cp_layers p) = Inr () \<and>
     ShamirConfig_new (sc_threshold (cp_shamir p)) (sc_total (cp_shamir p)) = Inr (cp_shamir p)"

lemma check_layers_ok:
  "check_layers ls = Inr () \<longleftrightarrow> ls \<noteq> [] \<and> length ls \<le> 4 \<and> distinct ls"
proof -
  define dup where "dup \<longleftrightarrow>
    list_ex (\<lambda>i. list_ex (\<lambda>j. ls ! i = ls ! j) [i + 1..<length ls]) [0..<length ls]"
  have dup: "dup \<longleftrightarrow> (\<exists>i j. i < j \<and> j < length ls \<and> ls ! i = ls ! j)"
    unfolding dup_def list_ex_iff by (auto simp: Bex_def Suc_le_eq) (metis less_trans)
  have "dup \<longleftrightarrow> \<not> distinct ls"
  proof
    show "dup \<Longrightarrow> \<not> distinct ls" by (auto simp: dup nth_eq_iff_index_eq)
    assume "\<not> distinct ls"
    then obtain i j where "i < length ls" "j < length ls" "i \<noteq> j" "ls ! i = ls ! j"
      by (auto simp: distinct_conv_nth)
    then show dup unfolding dup by (cases "i < j") (metis, metis linorder_neqE_nat)
  qed
  then show ?thesis by (auto simp: check_layers_def dup_def)
qed

lemma ShamirConfig_new_ok:
  "ShamirConfig_new k n = Inr c \<longleftrightarrow> k \<noteq> 0 \<and> n \<noteq> 0 \<and> k \<le> n \<and> c = \<lparr>sc_threshold = k, sc_total = n\<rparr>"
  by (auto simp: ShamirConfig_new_def)

lemma validate_profile_name_ok:
  "validate_profile_name n = Inr () \<longleftrightarrow>
     n \<noteq> [] \<and> length n \<le> 64 \<and> list_all (\<lambda>c. is_ascii_alphanumeric c \<or> c = 0x2D) n"
  by (auto simp: validate_profile_name_def)

lemma name_char_ascii: "is_ascii_alphanumeric c \<or> c = 0x2D \<Longrightarrow> c < 0x80"
  by (auto simp: is_ascii_alphanumeric_def intro: le_less_trans)

lemma ascii_utf8_valid: "list_all (\<lambda>c. c < 0x80) s \<Longrightarrow> utf8_valid s"
  by (induction s) simp_all

lemma name_utf8_valid: "validate_profile_name n = Inr () \<Longrightarrow> utf8_valid n"
  unfolding validate_profile_name_ok
  by (intro ascii_utf8_valid) (auto simp: list_all_iff dest!: name_char_ascii bspec)

lemma layer_from_wire_id [simp]: "layer_from_wire (layer_wire_id l) = Some l"
  by (cases l) (simp_all add: layer_from_wire_def)

lemma curve_try_from_wire_id [simp]: "curve_try_from_wire (curve_wire_id c) = Inr c"
  by (cases c) (simp_all add: curve_try_from_wire_def)

lemma profile_to_bytes_eq:
  assumes "wf_profile p"
  shows "profile_to_bytes p =
    [of_nat (length (cp_name p))] @ cp_name p @ [of_nat (length (cp_description p))] @ cp_description p @
    [curve_wire_id (cp_curve p)] @ [of_nat (length (cp_layers p))] @ map layer_wire_id (cp_layers p) @
    [sc_threshold (cp_shamir p)] @ [sc_total (cp_shamir p)] @ [if cp_ephemeral_ecdh p then 1 else 0]"
  using assms by (simp add: profile_to_bytes_def Let_def wf_profile_def validate_profile_name_ok check_layers_ok)

lemma get_byte_append [simp]: "length xs = i \<Longrightarrow> get_byte (xs @ b # ys) i = Inr b"
  by (auto simp: get_byte_def)

lemma get_range_append [simp]:
  "length xs = i \<Longrightarrow> length ys = n \<Longrightarrow> get_range (xs @ ys @ zs) i n = Inr ys"
  by (auto simp: get_range_def slice_def)

lemma parse_layers_append:
  "length xs = i \<Longrightarrow> length acc + length ls \<le> 4 \<Longrightarrow>
   parse_layers (xs @ map layer_wire_id ls @ ys) i (length ls) acc = Inr (acc @ ls, i + length ls)"
proof (induction ls arbitrary: xs i acc)
  case (Cons l ls)
  from Cons.IH [of "xs @ [layer_wire_id l]" "i + 1" "acc @ [l]"] Cons.prems
  show ?case by (simp add: vpush_def)
qed simp

lemma from_bytes_to_bytes:
  assumes "wf_profile p"
  shows "profile_from_bytes (profile_to_bytes p) = Inr p"
proof -
  let ?n = "cp_name p" and ?d = "cp_description p" and ?l = "cp_layers p"
  define A where "A = [of_nat (length ?n) :: u8]"
  define B where "B = A @ ?n"
  define C where "C = B @ [of_nat (length ?d) :: u8]"
  define D where "D = C @ ?d"
  define E where "E = D @ [curve_wire_id (cp_curve p)]"
  define F where "F = E @ [of_nat (length ?l)]"
  define H where "H = F @ map layer_wire_id ?l"
  define J where "J = H @ [sc_threshold (cp_shamir p)]"
  define K where "K = J @ [sc_total (cp_shamir p)]"
  let ?e = "if cp_ephemeral_ecdh p then 1 else 0 :: u8"
  note segs = A_def B_def C_def D_def E_def F_def H_def J_def K_def
  have bs: "profile_to_bytes p = K @ [?e]" using profile_to_bytes_eq [OF assms] by (simp add: segs)
  have wf: "length ?n \<le> 64" "length ?d \<le> 128" "?l \<noteq> []" "length ?l \<le> 4" "utf8_valid ?d"
    "validate_profile_name ?n = Inr ()" "check_layers ?l = Inr ()" "utf8_valid ?n"
    "ShamirConfig_new (sc_threshold (cp_shamir p)) (sc_total (cp_shamir p)) = Inr (cp_shamir p)"
    using assms name_utf8_valid by (auto simp: wf_profile_def validate_profile_name_ok check_layers_ok)
  have lens: "unat (of_nat (length ?n) :: u8) = length ?n" "unat (of_nat (length ?d) :: u8) = length ?d"
    "unat (of_nat (length ?l) :: u8) = length ?l" using wf by (simp_all add: unat_of_nat_u8)
  let ?bs = "K @ [?e]"
  have g: "get_byte ?bs 0 = Inr (of_nat (length ?n))" "get_range ?bs 1 (length ?n) = Inr ?n"
    "get_byte ?bs (length B) = Inr (of_nat (length ?d))" "get_range ?bs (length C) (length ?d) = Inr ?d"
    "get_byte ?bs (length D) = Inr (curve_wire_id (cp_curve p))"
    "get_byte ?bs (length E) = Inr (of_nat (length ?l))"
    "parse_layers ?bs (length F) (length ?l) [] = Inr (?l, length H)"
    "get_byte ?bs (length H) = Inr (sc_threshold (cp_shamir p))"
    "get_byte ?bs (length J) = Inr (sc_total (cp_shamir p))"
    subgoal by (simp add: segs get_byte_def)
    subgoal using get_range_append [of A 1 ?n] by (simp add: segs)
    subgoal using get_byte_append [of B] by (simp add: segs)
    subgoal using get_range_append [of C "length C" ?d] by (simp add: segs)
    subgoal using get_byte_append [of D] by (simp add: segs)
    subgoal using get_byte_append [of E] by (simp add: segs)
    subgoal using parse_layers_append [of F "length F" "[]" ?l] wf(4) by (simp add: segs)
    subgoal using get_byte_append [of H] by (simp add: segs)
    subgoal using get_byte_append [of J] by (simp add: segs)
    done
  have i: "1 + length ?n = length B" "length B + 1 = length C" "length C + length ?d = length D"
    "length D + 1 = length E" "length E + 1 = length F" "length H + 1 = length J" "length J + 1 = length K"
    by (simp_all add: segs)
  have e: "?bs ! length K = ?e" by simp
  show ?thesis
    unfolding bs profile_from_bytes_def
    by (simp only: g i lens Let_def res_bind_simps curve_try_from_wire_id sum.case prod.case)
      (simp add: wf not_less push_str_def)
qed

lemma from_bytes_wf:
  assumes "profile_from_bytes bs = Inr p"
  shows "wf_profile p"
  using assms unfolding profile_from_bytes_def Let_def
  by (auto simp: res_bind_eq_Inr wf_profile_def ok_or_def push_str_def ShamirConfig_new_ok
      split: if_splits prod.splits option.splits)

text \<open>The builders that calls of the builder's methods produce. The argument of \<open>description\<close> is a
  \<open>&str\<close>, valid UTF-8 by its type.\<close>

inductive builder_reach :: "profile_builder \<Rightarrow> bool" where
  start: "builder_new name = Inr b \<Longrightarrow> builder_reach b"
| describe: "builder_reach b \<Longrightarrow> utf8_valid desc \<Longrightarrow> builder_reach (builder_description desc b)"
| set_curve: "builder_reach b \<Longrightarrow> builder_reach (builder_curve c b)"
| add_layer: "builder_reach b \<Longrightarrow> builder_layer l b = Inr b' \<Longrightarrow> builder_reach b'"
| set_shamir: "builder_reach b \<Longrightarrow> builder_reach (builder_shamir sc b)"
| set_ecdh: "builder_reach b \<Longrightarrow> builder_reach (builder_ephemeral_ecdh on b)"

inductive profile_constructed :: "cipher_profile \<Rightarrow> bool" where
  built: "builder_reach b \<Longrightarrow> builder_build b = Inr p \<Longrightarrow> profile_constructed p"
| decoded: "profile_from_bytes bs = Inr p \<Longrightarrow> profile_constructed p"

lemma builder_reach_wf:
  "builder_reach b \<Longrightarrow>
   validate_profile_name (pb_name b) = Inr () \<and> length (pb_description b) \<le> 128 \<and> utf8_valid (pb_description b)"
  by (induction rule: builder_reach.induct)
    (auto simp: builder_new_def builder_description_def builder_curve_def builder_layer_def
      builder_shamir_def builder_ephemeral_ecdh_def push_str_def push_str_lossy_def Let_def
      res_bind_eq_Inr ok_or_def split: if_splits option.splits)

lemma constructed_wf: "profile_constructed p \<Longrightarrow> wf_profile p"
proof (induction rule: profile_constructed.induct)
  case (built b p)
  then show ?case
    using builder_reach_wf [OF built(1)]
    by (auto simp: builder_build_def wf_profile_def res_bind_eq_Inr ShamirConfig_new_ok split: if_splits)
qed (rule from_bytes_wf)

section \<open>The registry as a finite map\<close>

definition reg_names :: "profile_registry \<Rightarrow> bytes list" where
  "reg_names r = map cp_name r"

lemma registry_get_Some:
  "distinct (reg_names r) \<Longrightarrow> registry_get r n = Some p \<longleftrightarrow> p \<in> set r \<and> cp_name p = n"
  unfolding registry_get_def reg_names_def
  by (induction r) (auto simp: image_iff)

lemma registry_get_None: "registry_get r n = None \<longleftrightarrow> n \<notin> set (reg_names r)"
  by (auto simp: registry_get_def reg_names_def find_None_iff)

lemma mset_swap_remove: "i < length xs \<Longrightarrow> add_mset (xs ! i) (mset (swap_remove i xs)) = mset xs"
proof (cases xs rule: rev_cases)
  case (snoc ys z)
  assume "i < length xs"
  then show ?thesis
    by (cases "i = length ys")
      (auto simp: snoc swap_remove_def list_update_append nth_append mset_update butlast_append)
qed simp

lemma swap_remove_facts:
  assumes "i < length r" and "distinct (reg_names r)"
  shows "distinct (reg_names (swap_remove i r))" and "set (swap_remove i r) = set r - {r ! i}"
    and "length (swap_remove i r) = length r - 1"
proof -
  have m: "mset r = mset (r ! i # swap_remove i r)" using mset_swap_remove [OF assms(1)] by simp
  then have "mset (reg_names r) = mset (reg_names (r ! i # swap_remove i r))"
    unfolding reg_names_def mset_map by simp
  then have d: "distinct (reg_names (r ! i # swap_remove i r))"
    using assms(2) mset_eq_imp_distinct_iff by blast
  then show "distinct (reg_names (swap_remove i r))" by (simp add: reg_names_def)
  have "r ! i \<notin> set (swap_remove i r)" using d by (auto simp: reg_names_def)
  then show "set (swap_remove i r) = set r - {r ! i}" using mset_eq_setD [OF m] by auto
  show "length (swap_remove i r) = length r - 1" by (simp add: swap_remove_def)
qed

lemma registry_remove_loop_spec:
  "distinct (reg_names r) \<Longrightarrow> \<forall>j < i. cp_name (r ! j) \<noteq> n \<Longrightarrow> registry_remove_loop n i r =
    (if n \<in> set (reg_names r) then (Inr (), swap_remove (length (takeWhile (\<lambda>p. cp_name p \<noteq> n) r)) r)
     else (Inl ProfileNotFound, r))"
proof (induction n i r rule: registry_remove_loop.induct)
  case (1 n i r)
  show ?case
  proof (cases "i < length r")
    case True
    show ?thesis
    proof (cases "cp_name (r ! i) = n")
      case name: True
      then have "n \<in> set (reg_names r)" using nth_mem [OF True] by (auto simp: reg_names_def)
      moreover have "takeWhile (\<lambda>p. cp_name p \<noteq> n) r = take i r"
        using name "1.prems"(2) by (intro takeWhile_eq_take_P_nth) auto
      ultimately show ?thesis using True name by (subst registry_remove_loop.simps) simp
    next
      case False
      then have "\<forall>j < i + 1. cp_name (r ! j) \<noteq> n" using "1.prems"(2) by (auto simp: less_Suc_eq)
      then show ?thesis
        using "1.IH" [OF True False "1.prems"(1)] True False by (subst registry_remove_loop.simps) simp
    qed
  next
    case False
    then have "cp_name (r ! j) \<noteq> n" if "j < length r" for j using that "1.prems"(2) by simp
    then have "n \<notin> set (reg_names r)" by (metis in_set_conv_nth length_map nth_map reg_names_def)
    then show ?thesis using False by (subst registry_remove_loop.simps) simp
  qed
qed

lemma registry_remove_facts:
  assumes "distinct (reg_names r)"
  shows "fst (registry_remove n r) = Inr () \<longleftrightarrow> n \<notin> set BUILTIN \<and> n \<in> set (reg_names r)"
    and "fst (registry_remove n r) \<noteq> Inr () \<Longrightarrow> snd (registry_remove n r) = r"
    and "fst (registry_remove n r) = Inr () \<Longrightarrow>
      distinct (reg_names (snd (registry_remove n r))) \<and> length (snd (registry_remove n r)) < length r \<and>
      set (snd (registry_remove n r)) = {p \<in> set r. cp_name p \<noteq> n}"
proof -
  have eq: "registry_remove n r =
    (if n \<in> set BUILTIN then (Inl ProfileLocked, r)
     else if n \<in> set (reg_names r) then (Inr (), swap_remove (length (takeWhile (\<lambda>p. cp_name p \<noteq> n) r)) r)
     else (Inl ProfileNotFound, r))"
    using registry_remove_loop_spec [OF assms, of 0 n] by (simp add: registry_remove_def)
  show "fst (registry_remove n r) = Inr () \<longleftrightarrow> n \<notin> set BUILTIN \<and> n \<in> set (reg_names r)"
    and "fst (registry_remove n r) \<noteq> Inr () \<Longrightarrow> snd (registry_remove n r) = r"
    by (simp_all add: eq split: if_splits)
  assume ok: "fst (registry_remove n r) = Inr ()"
  define i where "i = length (takeWhile (\<lambda>p. cp_name p \<noteq> n) r)"
  from ok have n: "n \<in> set (reg_names r)" and snd: "snd (registry_remove n r) = swap_remove i r"
    by (auto simp: eq i_def split: if_splits)
  then have "takeWhile (\<lambda>p. cp_name p \<noteq> n) r \<noteq> r"
    by (auto simp: reg_names_def takeWhile_eq_all_conv)
  then have i: "i < length r" unfolding i_def
    by (metis le_neq_implies_less length_takeWhile_le takeWhile_eq_take take_all)
  with nth_length_takeWhile [of "\<lambda>p. cp_name p \<noteq> n" r] have name: "cp_name (r ! i) = n" by (simp add: i_def)
  have "p = r ! i" if "p \<in> set r" "cp_name p = n" for p
    using assms that i name by (auto simp: reg_names_def distinct_map inj_on_def)
  then show "distinct (reg_names (snd (registry_remove n r))) \<and> length (snd (registry_remove n r)) < length r \<and>
      set (snd (registry_remove n r)) = {p \<in> set r. cp_name p \<noteq> n}"
    using swap_remove_facts [OF i assms] i name by (auto simp: snd)
qed

lemma registry_register_facts:
  "registry_register p r =
     (if length r < 16 \<and> cp_name p \<notin> set (reg_names r) then (Inr (), r @ [p])
      else (Inl (if 16 \<le> length r then RegistryFull else InvalidProfileName), r))"
  using registry_get_None [of r "cp_name p"] by (auto simp: registry_register_def vpush_def)

lemma registry_get_snoc:
  "cp_name p \<notin> set (reg_names r) \<Longrightarrow> registry_get (r @ [p]) = (registry_get r)(cp_name p \<mapsto> p)"
  by (induction r) (auto simp: registry_get_def reg_names_def fun_eq_iff)

subsection \<open>Reachable registries\<close>

inductive registry_reach :: "profile_registry \<Rightarrow> bool" where
  init: "with_builtins = Some r \<Longrightarrow> registry_reach r"
| register: "registry_reach r \<Longrightarrow> profile_constructed p \<Longrightarrow> registry_reach (snd (registry_register p r))"
| remove: "registry_reach r \<Longrightarrow> registry_reach (snd (registry_remove n r))"

lemma with_builtins_ok:
  obtains r where "with_builtins = Some r" and "reg_names r = BUILTIN"
proof -
  have v: "validate_profile_name (ascii ''standard'') = Inr ()"
    "validate_profile_name (ascii ''conservative'') = Inr ()"
    "validate_profile_name (ascii ''conservative-shamir'') = Inr ()"
    by (simp_all add: validate_profile_name_ok ascii_def is_ascii_alphanumeric_def)
  have l: "length (ascii s) = length s" for s by (simp add: ascii_def)
  have c: "check_layers [ChaCha20Poly1305] = Inr ()" "check_layers [ChaCha20Poly1305, Serpent256] = Inr ()"
    by (simp_all add: check_layers_ok)
  note defs = builder_new_def builder_description_def builder_curve_def builder_layer_def
    builder_shamir_def builder_build_def push_str_def push_str_lossy_def vpush_def
    ShamirConfig_none_def ShamirConfig_new_def Let_def v l c
  obtain p where p: "builtin_standard = Inr p" "cp_name p = ascii ''standard''"
    by (simp add: builtin_standard_def defs)
  obtain q where q: "builtin_conservative = Inr q" "cp_name q = ascii ''conservative''"
    by (simp add: builtin_conservative_def defs)
  obtain s where s: "builtin_conservative_shamir = Inr s" "cp_name s = ascii ''conservative-shamir''"
    by (simp add: builtin_conservative_shamir_def defs)
  show thesis
    by (rule that [of "[p, q, s]"]) (simp_all add: with_builtins_def p q s reg_names_def BUILTIN_def)
qed

lemma registry_reach_inv:
  assumes "registry_reach r" and "with_builtins = Some r0"
  shows "distinct (reg_names r) \<and> length r \<le> 16 \<and> {p \<in> set r. cp_name p \<in> set BUILTIN} = set r0"
  using assms(1)
proof (induction rule: registry_reach.induct)
  case (init r)
  obtain r1 where "with_builtins = Some r1" "reg_names r1 = BUILTIN" by (rule with_builtins_ok)
  with init assms(2) have "r = r0" and "reg_names r = BUILTIN" by (metis option.inject)+
  note r = this
  have "distinct BUILTIN" by (simp add: BUILTIN_def ascii_def)
  moreover have "length (reg_names r) = 3" unfolding r(2) by (simp add: BUILTIN_def)
  then have "length r = 3" by (simp add: reg_names_def)
  moreover have "cp_name p \<in> set BUILTIN" if "p \<in> set r" for p
    using that unfolding r(2) [symmetric] by (simp add: reg_names_def)
  ultimately show ?case using r by auto
next
  case (register r p)
  have "set BUILTIN \<subseteq> set (reg_names r)"
  proof -
    obtain r1 where "with_builtins = Some r1" "reg_names r1 = BUILTIN" by (rule with_builtins_ok)
    with assms(2) have "set BUILTIN = cp_name ` set r0" by (metis image_set option.inject reg_names_def)
    then show ?thesis using register.IH by (auto simp: reg_names_def)
  qed
  with register.IH show ?case
    by (auto simp: registry_register_facts reg_names_def)
next
  case (remove r n)
  show ?case
  proof (cases "fst (registry_remove n r) = Inr ()")
    case True
    with remove.IH show ?thesis
      using registry_remove_facts(1,3) [of r n] by auto
  next
    case False
    with remove.IH show ?thesis using registry_remove_facts(2) [of r n] by simp
  qed
qed

section \<open>Properties\<close>

text \<open>
  (C40) Every profile the crate can construct, through the builder or by decoding bytes, satisfies the
  documented constraints (1 to 64 characters of the name alphabet, description of at most 128 bytes,
  1 to 4 different layers, \<open>1 \<le> k \<le> n\<close>) and survives serialisation: its encoding fits the 256-byte
  buffer and decodes to the same profile.
\<close>

theorem constructed_profile_roundtrips:
  assumes "profile_constructed p"
  shows "wf_profile p \<and> profile_from_bytes (profile_to_bytes p) = Inr p"
  using constructed_wf [OF assms] from_bytes_to_bytes by blast

theorem constructed_profile_roundtrips_witness:
  "\<exists>p. profile_from_bytes [1, 0x78, 0, 2, 1, 4, 2, 3] = Inr p \<and>
     profile_from_bytes (profile_to_bytes p) = Inr p"
proof -
  have "\<exists>p. profile_from_bytes [1, 0x78, 0, 2, 1, 4, 2, 3] = Inr p"
    by (simp add: profile_from_bytes_def get_byte_def get_range_def slice_def Let_def curve_try_from_wire_def
        layer_from_wire_def vpush_def ShamirConfig_new_def validate_profile_name_def is_ascii_alphanumeric_def
        push_str_def check_layers_def)
  then obtain p where p: "profile_from_bytes [1, 0x78, 0, 2, 1, 4, 2, 3] = Inr p" by blast
  from constructed_profile_roundtrips [OF decoded [OF p]] p show ?thesis by blast
qed

text \<open>
  The registry refines a finite map from names to profiles: registering succeeds exactly for a
  new name while fewer than 16 profiles are stored and then adds one entry, removing succeeds exactly
  for a stored name that is not built in and then deletes that entry and no other (the vector's
  \<open>swap_remove\<close> moves profiles about), failing calls change nothing, and the list is the domain.
\<close>

theorem registry_refines_map:
  assumes "registry_reach r"
  shows "(fst (registry_register p r) = Inr () \<longleftrightarrow>
       card (dom (registry_get r)) < 16 \<and> registry_get r (cp_name p) = None) \<and>
    registry_get (snd (registry_register p r)) =
      (if fst (registry_register p r) = Inr () then (registry_get r)(cp_name p \<mapsto> p) else registry_get r) \<and>
    (fst (registry_remove n r) = Inr () \<longleftrightarrow> n \<notin> set BUILTIN \<and> registry_get r n \<noteq> None) \<and>
    registry_get (snd (registry_remove n r)) =
      (if fst (registry_remove n r) = Inr () then (registry_get r)(n := None) else registry_get r) \<and>
    set (registry_list r) = dom (registry_get r)"
proof -
  obtain r0 where "with_builtins = Some r0" by (rule with_builtins_ok)
  with assms have inv: "distinct (reg_names r)" "length r \<le> 16" using registry_reach_inv by blast+
  have dom: "dom (registry_get r) = set (reg_names r)" by (auto simp: dom_def registry_get_None)
  then have card: "card (dom (registry_get r)) = length r"
    using distinct_card [OF inv(1)] by (simp add: reg_names_def)
  have "registry_get (snd (registry_register p r)) =
      (if fst (registry_register p r) = Inr () then (registry_get r)(cp_name p \<mapsto> p) else registry_get r)"
    using registry_get_snoc [of p r] by (simp add: registry_register_facts)
  moreover have "fst (registry_register p r) = Inr () \<longleftrightarrow>
      card (dom (registry_get r)) < 16 \<and> registry_get r (cp_name p) = None"
    by (simp add: registry_register_facts card registry_get_None)
  moreover have "registry_get (snd (registry_remove n r)) = (registry_get r)(n := None)"
    if ok: "fst (registry_remove n r) = Inr ()"
  proof (rule ext)
    fix k
    note facts = registry_remove_facts(3) [OF inv(1) ok]
    have "registry_get (snd (registry_remove n r)) k = Some x \<longleftrightarrow> ((registry_get r)(n := None)) k = Some x" for x
      using facts registry_get_Some [of "snd (registry_remove n r)" k x] registry_get_Some [OF inv(1), of k x] by auto
    then show "registry_get (snd (registry_remove n r)) k = ((registry_get r)(n := None)) k"
      by (metis option.exhaust)
  qed
  moreover have "set (registry_list r) = dom (registry_get r)"
    using inv(2) by (simp add: registry_list_def dom reg_names_def)
  ultimately show ?thesis
    using registry_remove_facts(1,2) [OF inv(1), of n] by (simp add: registry_get_None)
qed

theorem registry_refines_map_witness:
  "\<exists>r0. with_builtins = Some r0 \<and> fst (registry_remove (ascii ''standard'') r0) \<noteq> Inr () \<and>
     set (registry_list r0) = dom (registry_get r0)"
proof -
  obtain r0 where r0: "with_builtins = Some r0" by (rule with_builtins_ok)
  from registry_refines_map [OF init [OF r0], of _ "ascii ''standard''"] r0 show ?thesis
    by (auto simp: BUILTIN_def)
qed

text \<open>
  The built-in profiles are permanent: in every registry reachable by registering and removing
  profiles, names are unique, at most 16 profiles are stored, and the profiles stored under the three
  built-in names are exactly the ones the registry was created with.
\<close>

theorem builtin_profiles_locked:
  assumes "registry_reach r" and "with_builtins = Some r0"
  shows "distinct (map cp_name r) \<and> length r \<le> 16 \<and> {p \<in> set r. cp_name p \<in> set BUILTIN} = set r0"
  using registry_reach_inv [OF assms] by (simp add: reg_names_def)

theorem builtin_profiles_locked_witness:
  "\<exists>r0. with_builtins = Some r0 \<and>
     {p \<in> set (snd (registry_remove (ascii ''x'') r0)). cp_name p \<in> set BUILTIN} = set r0"
proof -
  obtain r0 where r0: "with_builtins = Some r0" by (rule with_builtins_ok)
  from builtin_profiles_locked [OF remove [OF init [OF r0]] r0] r0 show ?thesis by blast
qed

end
