(* ===== verification/Provisioning.thy ===== *)
theory Provisioning
  imports Usb_Ccid Cipher_Profile
begin

text \<open>
  The USB provisioning personality of \<open>crates/usb-personality/src/provisioning/mod.rs\<close>: a CDC-ACM
  class with a line protocol by which the operator stages the user and the admin PIN and commits them.

  The \<open>ProvisioningCommit\<close> trait object is the argument \<open>cp\<close> of the operations, over a state \<open>'c\<close>.
  Endpoint results are arguments of the steps, as in \<open>Usb_Ccid\<close>.
\<close>

section \<open>State\<close>

abbreviation PROVISIONING_PIN_MAX :: nat where "PROVISIONING_PIN_MAX \<equiv> 32"
abbreviation LINE_CAP :: nat where "LINE_CAP \<equiv> 96"
abbreviation TX_CAP :: nat where "TX_CAP \<equiv> 64"

definition LINE_CODING :: bytes where "LINE_CODING = [0x00, 0xC2, 0x01, 0x00, 0x00, 0x00, 0x08]"

definition USB_CLASS_CDC :: u8 where "USB_CLASS_CDC = 0x02"
definition USB_CDC_SUBCLASS_ACM :: u8 where "USB_CDC_SUBCLASS_ACM = 0x02"
definition USB_CDC_PROTOCOL_AT :: u8 where "USB_CDC_PROTOCOL_AT = 0x01"
definition USB_CLASS_CDC_DATA :: u8 where "USB_CLASS_CDC_DATA = 0x0A"
definition CS_INTERFACE :: u8 where "CS_INTERFACE = 0x24"

type_synonym 'c commit_pins = "bytes \<Rightarrow> bytes \<Rightarrow> 'c \<Rightarrow> (hal_error + unit) \<times> 'c"

record 'c provisioning_class =
  pv_if_comm :: u8
  pv_if_data :: u8
  pv_ep_data_out :: u8
  pv_rx_line :: bytes
  pv_tx_buf :: bytes
  pv_tx_pending :: bool
  pv_staged_user :: bytes
  pv_staged_user_len :: u8
  pv_staged_admin :: bytes
  pv_staged_admin_len :: u8
  pv_commit_ok :: bool
  pv_commit :: 'c

definition provisioning_new :: "u8 \<Rightarrow> u8 \<Rightarrow> u8 \<Rightarrow> 'c \<Rightarrow> 'c provisioning_class" where
  "provisioning_new if_comm if_data ep_out commit =
     \<lparr>pv_if_comm = if_comm, pv_if_data = if_data, pv_ep_data_out = ep_out,
      pv_rx_line = [], pv_tx_buf = [], pv_tx_pending = False,
      pv_staged_user = replicate PROVISIONING_PIN_MAX 0, pv_staged_user_len = 0,
      pv_staged_admin = replicate PROVISIONING_PIN_MAX 0, pv_staged_admin_len = 0,
      pv_commit_ok = False, pv_commit = commit\<rparr>"

definition commit_succeeded :: "'c provisioning_class \<Rightarrow> bool" where
  "commit_succeeded s = pv_commit_ok s"

section \<open>Operations\<close>

definition queue_response :: "string \<Rightarrow> 'c provisioning_class \<Rightarrow> 'c provisioning_class" where
  "queue_response txt s =
     (let tx = push_lossy TX_CAP [] (ascii txt) in s\<lparr>pv_tx_buf := tx, pv_tx_pending := tx \<noteq> []\<rparr>)"

definition queue_err :: "string \<Rightarrow> 'c provisioning_class \<Rightarrow> 'c provisioning_class" where
  "queue_err reason s =
     (let tx = (case push_all TX_CAP [] (ascii ''ERR:'') of Some v \<Rightarrow> v | None \<Rightarrow> []);
          tx = push_lossy TX_CAP tx (ascii reason);
          tx = push_lossy TX_CAP tx [0x0A]
      in s\<lparr>pv_tx_buf := tx, pv_tx_pending := True\<rparr>)"

definition set_staged_pin :: "bytes \<Rightarrow> bool \<Rightarrow> 'c provisioning_class \<Rightarrow> 'c provisioning_class" where
  "set_staged_pin b user s =
     (if b = [] \<or> length b > PROVISIONING_PIN_MAX then queue_err ''pin length'' s
      else
        let buf = splice (replicate PROVISIONING_PIN_MAX 0) 0 b;
            s = (if user then s\<lparr>pv_staged_user := buf, pv_staged_user_len := of_nat (length b)\<rparr>
                 else s\<lparr>pv_staged_admin := buf, pv_staged_admin_len := of_nat (length b)\<rparr>)
        in queue_response ''OK\<newline>'' s)"

fun strip_prefix :: "bytes \<Rightarrow> bytes \<Rightarrow> bytes option" where
  "strip_prefix [] bs = Some bs"
| "strip_prefix (p # ps) [] = None"
| "strip_prefix (p # ps) (b # bs) = (if p = b then strip_prefix ps bs else None)"

text \<open>\<open>str::trim_end_matches(|c| c == '\r' || c == '\n')\<close>\<close>

definition trim_line_end :: "bytes \<Rightarrow> bytes" where
  "trim_line_end bs = rev (dropWhile (\<lambda>b. b = 0x0D \<or> b = 0x0A) (rev bs))"

definition commit_line :: "'c commit_pins \<Rightarrow> 'c provisioning_class \<Rightarrow> 'c provisioning_class" where
  "commit_line cp s =
     (if pv_staged_user_len s = 0 \<or> pv_staged_admin_len s = 0 then queue_err ''missing pin'' s
      else
        let u = take (unat (pv_staged_user_len s)) (pv_staged_user s);
            a = take (unat (pv_staged_admin_len s)) (pv_staged_admin s) in
        case cp u a (pv_commit s) of
          (Inr _, c) \<Rightarrow>
            queue_response ''OK\<newline>''
              (s\<lparr>pv_commit := c, pv_commit_ok := True,
                 pv_staged_user_len := 0, pv_staged_admin_len := 0,
                 pv_staged_user := replicate PROVISIONING_PIN_MAX 0,
                 pv_staged_admin := replicate PROVISIONING_PIN_MAX 0\<rparr>)
        | (Inl Denied, c) \<Rightarrow> queue_err ''denied'' (s\<lparr>pv_commit := c\<rparr>)
        | (Inl NeedsProvisioning, c) \<Rightarrow> queue_err ''not ready'' (s\<lparr>pv_commit := c\<rparr>)
        | (Inl _, c) \<Rightarrow> queue_err ''commit failed'' (s\<lparr>pv_commit := c\<rparr>))"

definition process_complete_line :: "'c commit_pins \<Rightarrow> 'c provisioning_class \<Rightarrow> 'c provisioning_class" where
  "process_complete_line cp s =
     (if \<not> utf8_valid (pv_rx_line s) then queue_err ''invalid utf-8'' (s\<lparr>pv_rx_line := []\<rparr>)
      else case push_all LINE_CAP [] (trim_line_end (pv_rx_line s)) of
        None \<Rightarrow> queue_err ''line too long'' (s\<lparr>pv_rx_line := []\<rparr>)
      | Some line \<Rightarrow>
          let s = s\<lparr>pv_rx_line := []\<rparr> in
          if line = ascii ''STATUS'' then
            (if pv_commit_ok s then queue_response ''PROVISIONED\<newline>'' s
             else queue_response ''NEEDS_PROVISIONING\<newline>'' s)
          else if line = ascii ''COMMIT'' then commit_line cp s
          else
            (case strip_prefix (ascii ''SET_USER_PIN:'') line of
               Some rest \<Rightarrow> set_staged_pin rest True s
             | None \<Rightarrow>
                 (case strip_prefix (ascii ''SET_ADMIN_PIN:'') line of
                    Some rest \<Rightarrow> set_staged_pin rest False s
                  | None \<Rightarrow> queue_err ''invalid command'' s)))"

definition drain_tx ::
  "(bytes \<Rightarrow> usb_error + nat) \<Rightarrow> 'c provisioning_class \<Rightarrow> bytes \<times> 'c provisioning_class" where
  "drain_tx write s =
     (if \<not> pv_tx_pending s \<or> pv_tx_buf s = [] then ([], s)
      else case write (pv_tx_buf s) of
          Inr n \<Rightarrow>
            (take n (pv_tx_buf s),
             if n = 0 then s
             else
               let total = length (pv_tx_buf s) in
               if n \<ge> total then s\<lparr>pv_tx_buf := [], pv_tx_pending := False\<rparr>
               else s\<lparr>pv_tx_buf :=
                      take (total - n) (foldl (\<lambda>v i. v[i := v ! (i + n)]) (pv_tx_buf s) [0..<total - n])\<rparr>)
        | Inl WouldBlock \<Rightarrow> ([], s)
        | Inl OtherUsbError \<Rightarrow> ([], s\<lparr>pv_tx_pending := False, pv_tx_buf := []\<rparr>))"

section \<open>The USB class\<close>

definition provisioning_configuration_descriptors :: "'c provisioning_class \<Rightarrow> descriptor_call list" where
  "provisioning_configuration_descriptors s =
     [WriterIad (pv_if_comm s) 2 USB_CLASS_CDC USB_CDC_SUBCLASS_ACM USB_CDC_PROTOCOL_AT,
      WriterInterface (pv_if_comm s) USB_CLASS_CDC USB_CDC_SUBCLASS_ACM USB_CDC_PROTOCOL_AT,
      WriterWrite CS_INTERFACE [0x00, 0x10, 0x01],
      WriterWrite CS_INTERFACE [0x02, 0x02],
      WriterWrite CS_INTERFACE [0x06, pv_if_comm s, pv_if_data s],
      WriterWrite CS_INTERFACE [0x01, 0x03, pv_if_data s],
      WriterEndpoint ''ep_comm_in'',
      WriterInterface (pv_if_data s) USB_CLASS_CDC_DATA 0x00 0x00,
      WriterEndpoint ''ep_data_out'', WriterEndpoint ''ep_data_in'']"

definition provisioning_reset :: "'c provisioning_class \<Rightarrow> 'c provisioning_class" where
  "provisioning_reset s = s\<lparr>pv_rx_line := [], pv_tx_buf := [], pv_tx_pending := False\<rparr>"

text \<open>A control request, with the two questions the class asks about its type.\<close>

record control_request =
  rq_class_type :: bool
  rq_interface_recipient :: bool
  rq_index :: u16
  rq_request :: u8

definition provisioning_control_out :: "control_request \<Rightarrow> 'c provisioning_class \<Rightarrow> bool" where
  "provisioning_control_out req s =
     (if \<not> rq_class_type req \<or> \<not> rq_interface_recipient req then False
      else if (ucast (rq_index req) :: u8) \<noteq> pv_if_comm s then False
      else rq_request req = 0x22 \<or> rq_request req = 0x20)"

definition provisioning_control_in :: "control_request \<Rightarrow> 'c provisioning_class \<Rightarrow> bytes option" where
  "provisioning_control_in req s =
     (if \<not> rq_class_type req \<or> \<not> rq_interface_recipient req then None
      else if (ucast (rq_index req) :: u8) \<noteq> pv_if_comm s then None
      else if rq_request req = 0x21 then Some LINE_CODING else None)"

fun feed_bytes :: "'c commit_pins \<Rightarrow> bytes \<Rightarrow> 'c provisioning_class \<Rightarrow> 'c provisioning_class" where
  "feed_bytes cp [] s = s"
| "feed_bytes cp (b # bs) s =
     (case vpush LINE_CAP (pv_rx_line s) b of
        None \<Rightarrow> queue_err ''line too long'' (s\<lparr>pv_rx_line := []\<rparr>)
      | Some l \<Rightarrow>
          if b = 0x0A then process_complete_line cp (s\<lparr>pv_rx_line := l\<rparr>)
          else feed_bytes cp bs (s\<lparr>pv_rx_line := l\<rparr>))"

definition provisioning_endpoint_out ::
  "'c commit_pins \<Rightarrow> u8 \<Rightarrow> usb_error + bytes \<Rightarrow> 'c provisioning_class \<Rightarrow> 'c provisioning_class" where
  "provisioning_endpoint_out cp addr rd s =
     (if addr \<noteq> pv_ep_data_out s then s
      else case rd of Inr data \<Rightarrow> feed_bytes cp data s | Inl _ \<Rightarrow> s)"

definition provisioning_drop :: "'c provisioning_class \<Rightarrow> 'c provisioning_class" where
  "provisioning_drop s =
     s\<lparr>pv_staged_user := replicate PROVISIONING_PIN_MAX 0, pv_staged_admin := replicate PROVISIONING_PIN_MAX 0,
       pv_staged_user_len := 0, pv_staged_admin_len := 0\<rparr>"

fun provisioning_step :: "'c commit_pins \<Rightarrow> usb_event \<Rightarrow> 'c provisioning_class \<Rightarrow> 'c provisioning_class" where
  "provisioning_step cp (EndpointOut addr rd) s = provisioning_endpoint_out cp addr rd s"
| "provisioning_step cp (Poll write) s = snd (drain_tx write s)"
| "provisioning_step cp BusReset s = provisioning_reset s"

definition provisioning_run ::
  "'c commit_pins \<Rightarrow> usb_event list \<Rightarrow> 'c provisioning_class \<Rightarrow> 'c provisioning_class" where
  "provisioning_run cp evs s = fold (provisioning_step cp) evs s"

section \<open>Abstract specification\<close>

text \<open>What the operator's commands do, with the staged PINs as options.\<close>

datatype prov_cmd = ProvStatus | ProvCommit | ProvSetUser bytes | ProvSetAdmin bytes

record 'c prov_spec =
  sp_user :: "bytes option"
  sp_admin :: "bytes option"
  sp_done :: bool
  sp_store :: 'c

fun spec_step :: "'c commit_pins \<Rightarrow> prov_cmd \<Rightarrow> 'c prov_spec \<Rightarrow> 'c prov_spec" where
  "spec_step cp ProvStatus st = st"
| "spec_step cp (ProvSetUser p) st = st\<lparr>sp_user := Some p\<rparr>"
| "spec_step cp (ProvSetAdmin p) st = st\<lparr>sp_admin := Some p\<rparr>"
| "spec_step cp ProvCommit st =
     (case (sp_user st, sp_admin st) of
        (Some u, Some a) \<Rightarrow>
          (case cp u a (sp_store st) of
             (Inr _, c) \<Rightarrow> \<lparr>sp_user = None, sp_admin = None, sp_done = True, sp_store = c\<rparr>
           | (Inl _, c) \<Rightarrow> st\<lparr>sp_store := c\<rparr>)
      | _ \<Rightarrow> st)"

definition prov_abs :: "'c provisioning_class \<Rightarrow> 'c prov_spec" where
  "prov_abs s = \<lparr>
     sp_user = (if pv_staged_user_len s = 0 then None
                else Some (take (unat (pv_staged_user_len s)) (pv_staged_user s))),
     sp_admin = (if pv_staged_admin_len s = 0 then None
                 else Some (take (unat (pv_staged_admin_len s)) (pv_staged_admin s))),
     sp_done = pv_commit_ok s, sp_store = pv_commit s\<rparr>"

fun cmd_line :: "prov_cmd \<Rightarrow> bytes" where
  "cmd_line ProvStatus = ascii ''STATUS''"
| "cmd_line ProvCommit = ascii ''COMMIT''"
| "cmd_line (ProvSetUser p) = ascii ''SET_USER_PIN:'' @ p"
| "cmd_line (ProvSetAdmin p) = ascii ''SET_ADMIN_PIN:'' @ p"

definition line_pin :: "bytes \<Rightarrow> bool" where
  "line_pin p \<longleftrightarrow> p \<noteq> [] \<and> length p \<le> PROVISIONING_PIN_MAX \<and> utf8_valid p \<and> 0x0A \<notin> set p \<and> last p \<noteq> 0x0D"

fun wf_cmd :: "prov_cmd \<Rightarrow> bool" where
  "wf_cmd (ProvSetUser p) = line_pin p"
| "wf_cmd (ProvSetAdmin p) = line_pin p"
| "wf_cmd _ = True"

text \<open>The bus events that carry one command line, its terminator last in its packet.\<close>

definition carries_line :: "u8 \<Rightarrow> prov_cmd \<Rightarrow> usb_event list \<Rightarrow> bool" where
  "carries_line out c evs \<longleftrightarrow>
     wf_cmd c \<and> (\<forall>e\<in>set evs. \<not> is_reset e) \<and> received out evs = cmd_line c @ [0x0A]"

section \<open>Lines\<close>

lemma utf8_valid_ascii_Cons: "a < 0x80 \<Longrightarrow> utf8_valid (a # bs) = utf8_valid bs"
  by simp

lemma utf8_valid_ascii_append: "list_all (\<lambda>c. c < 0x80) as \<Longrightarrow> utf8_valid (as @ bs) = utf8_valid bs"
  by (induction as) (simp_all add: utf8_valid_ascii_Cons del: utf8_valid.simps)

lemma utf8_valid_snoc: "utf8_valid bs \<Longrightarrow> a < 0x80 \<Longrightarrow> utf8_valid (bs @ [a])"
proof (induction bs rule: utf8_valid.induct)
  case (2 x bs)
  note simps = utf8_valid.simps(2) [of x] and prems = "2.prems" and IH = "2.IH"
  show ?case
  proof (cases "x < 0x80")
    case True
    with 2 show ?thesis by (simp add: utf8_valid_ascii_Cons del: utf8_valid.simps)
  next
    case F1: False
    with prems obtain b cs where bs: "bs = b # cs" by (cases bs) simp_all
    show ?thesis
    proof (cases "0xC2 \<le> x \<and> x \<le> 0xDF")
      case True
      with 2 F1 bs show ?thesis by (simp add: simps del: utf8_valid.simps)
    next
      case F2: False
      with prems(1) F1 obtain c ds where cs: "cs = c # ds"
        by (cases cs) (simp_all only: simps bs list.case if_False)
      show ?thesis
      proof (cases "0xE0 \<le> x \<and> x \<le> 0xEF")
        case True
        have eq: "utf8_valid (x # bs @ zs) =
            ((if x = 0xE0 then 0xA0 \<le> b \<and> b \<le> 0xBF
              else if x = 0xED then 0x80 \<le> b \<and> b \<le> 0x9F else 0x80 \<le> b \<and> b \<le> 0xBF)
              \<and> 0x80 \<le> c \<and> c \<le> 0xBF \<and> utf8_valid (ds @ zs))" for zs
          using F1 F2 True by (simp only: simps bs cs list.case if_False if_True append_Cons simp_thms)
        have "utf8_valid ds" using prems(1) eq [of "[]"] by simp
        then have "utf8_valid (ds @ [a])"
          using IH(3) F1 F2 bs cs True prems(2) by blast
        with prems(1) eq [of "[]"] eq [of "[a]"] show ?thesis by simp
      next
        case F3: False
        with prems(1) F1 F2 obtain d es where ds: "ds = d # es"
          by (cases ds) (simp_all only: simps bs cs list.case if_False)
        have eq: "utf8_valid (x # bs @ zs) =
            (0xF0 \<le> x \<and> x \<le> 0xF4
              \<and> (if x = 0xF0 then 0x90 \<le> b \<and> b \<le> 0xBF
                 else if x = 0xF4 then 0x80 \<le> b \<and> b \<le> 0x8F else 0x80 \<le> b \<and> b \<le> 0xBF)
              \<and> 0x80 \<le> c \<and> c \<le> 0xBF \<and> 0x80 \<le> d \<and> d \<le> 0xBF \<and> utf8_valid (es @ zs))" for zs
          using F1 F2 F3 by (simp only: simps bs cs ds list.case if_False append_Cons)
        have "utf8_valid es" using prems(1) eq [of "[]"] by simp
        then have "utf8_valid (es @ [a])"
          using IH(4) F1 F2 F3 bs cs ds prems(2) by blast
        with prems(1) eq [of "[]"] eq [of "[a]"] show ?thesis by simp
      qed
    qed
  qed
qed simp

lemma strip_prefix_append [simp]: "strip_prefix p (p @ r) = Some r"
  by (induction p) simp_all

lemma trim_line_end_snoc:
  "l = [] \<or> last l \<noteq> 0x0D \<and> last l \<noteq> 0x0A \<Longrightarrow> trim_line_end (l @ [0x0A]) = l"
  by (cases l rule: rev_cases) (auto simp: trim_line_end_def)

lemma line_pin_last: "line_pin p \<Longrightarrow> last p \<noteq> 0x0D \<and> last p \<noteq> 0x0A"
  by (auto simp: line_pin_def) (metis last_in_set)

lemma cmd_line_props:
  assumes "wf_cmd c"
  shows "utf8_valid (cmd_line c @ [0x0A])" "trim_line_end (cmd_line c @ [0x0A]) = cmd_line c"
    "length (cmd_line c) \<le> 46" "0x0A \<notin> set (cmd_line c)"
proof -
  have pin: "utf8_valid (p @ [0x0A])" "p \<noteq> []" "length p \<le> 32" "0x0A \<notin> set p" if "line_pin p" for p
    using that utf8_valid_snoc [of p "0x0A"] by (simp_all add: line_pin_def)
  show "utf8_valid (cmd_line c @ [0x0A])"
  proof (cases c)
    case (ProvSetUser p)
    with assms pin(1) [of p] show ?thesis
      by (simp add: ascii_def utf8_valid_ascii_Cons del: utf8_valid.simps)
  next
    case (ProvSetAdmin p)
    with assms pin(1) [of p] show ?thesis
      by (simp add: ascii_def utf8_valid_ascii_Cons del: utf8_valid.simps)
  qed (simp_all add: ascii_def)
  show "length (cmd_line c) \<le> 46" "0x0A \<notin> set (cmd_line c)"
    using assms pin(3,4) by (cases c; force simp: ascii_def)+
  have "last (cmd_line c) \<noteq> 0x0D \<and> last (cmd_line c) \<noteq> 0x0A"
    using assms line_pin_last pin(2) by (cases c) (auto simp: ascii_def)
  then show "trim_line_end (cmd_line c @ [0x0A]) = cmd_line c"
    by (rule trim_line_end_snoc [OF disjI2])
qed

text \<open>Everything of the state but the pending output.\<close>

definition prov_core :: "'c provisioning_class \<Rightarrow> 'c provisioning_class" where
  "prov_core s = s\<lparr>pv_tx_buf := [], pv_tx_pending := False\<rparr>"

lemma prov_core_simps [simp]:
  "prov_core (queue_err r s) = prov_core s" "prov_core (queue_response r s) = prov_core s"
  "prov_core (prov_core s) = prov_core s" "prov_core (snd (drain_tx w s)) = prov_core s"
  "pv_rx_line (prov_core s) = pv_rx_line s" "prov_abs (prov_core s) = prov_abs s"
  "pv_ep_data_out (prov_core s) = pv_ep_data_out s"
  by (auto simp: prov_core_def queue_err_def queue_response_def drain_tx_def Let_def prov_abs_def
      split: sum.splits usb_error.splits)

lemma prov_core_fields:
  "prov_core s = prov_core t \<Longrightarrow> pv_rx_line s = pv_rx_line t \<and> prov_abs s = prov_abs t
     \<and> pv_ep_data_out s = pv_ep_data_out t"
  by (metis prov_core_simps(5-7))

lemma feed_no_newline:
  "0x0A \<notin> set bs \<Longrightarrow> length (pv_rx_line s) + length bs \<le> LINE_CAP \<Longrightarrow>
   feed_bytes cp bs s = s\<lparr>pv_rx_line := pv_rx_line s @ bs\<rparr>"
  by (induction bs arbitrary: s) (simp_all add: vpush_def)

lemma feed_line:
  "0x0A \<notin> set bs \<Longrightarrow> length (pv_rx_line s) + length bs < LINE_CAP \<Longrightarrow>
   feed_bytes cp (bs @ 0x0A # rest) s = process_complete_line cp (s\<lparr>pv_rx_line := pv_rx_line s @ bs @ [0x0A]\<rparr>)"
  by (induction bs arbitrary: s) (simp_all add: vpush_def)

lemma take_unat_splice:
  "p \<noteq> [] \<Longrightarrow> length p \<le> 32 \<Longrightarrow>
   (of_nat (length p) :: u8) \<noteq> 0 \<and> take (unat (of_nat (length p) :: u8)) (splice (replicate 32 0) 0 p) = p"
  by (simp add: unat_of_nat splice_def unat_eq_zero [symmetric])

lemma commit_line_abs: "prov_abs (commit_line cp s) = spec_step cp ProvCommit (prov_abs s)"
  by (auto simp: commit_line_def prov_abs_def Let_def queue_err_def queue_response_def
      split: prod.splits sum.splits hal_error.splits)

lemma process_command:
  assumes "wf_cmd c" "pv_rx_line s = cmd_line c @ [0x0A]"
  shows "prov_abs (process_complete_line cp s) = spec_step cp c (prov_abs s)
    \<and> pv_rx_line (process_complete_line cp s) = []
    \<and> pv_ep_data_out (process_complete_line cp s) = pv_ep_data_out s"
proof -
  note line = cmd_line_props [OF assms(1)]
  have proc: "process_complete_line cp s =
     (let line = cmd_line c; s = s\<lparr>pv_rx_line := []\<rparr> in
          if line = ascii ''STATUS'' then
            (if pv_commit_ok s then queue_response ''PROVISIONED\<newline>'' s
             else queue_response ''NEEDS_PROVISIONING\<newline>'' s)
          else if line = ascii ''COMMIT'' then commit_line cp s
          else
            (case strip_prefix (ascii ''SET_USER_PIN:'') line of
               Some rest \<Rightarrow> set_staged_pin rest True s
             | None \<Rightarrow>
                 (case strip_prefix (ascii ''SET_ADMIN_PIN:'') line of
                    Some rest \<Rightarrow> set_staged_pin rest False s
                  | None \<Rightarrow> queue_err ''invalid command'' s)))"
    using line by (simp add: process_complete_line_def assms(2) push_all_eq Let_def)
  show ?thesis
  proof (cases c)
    case (ProvSetUser p)
    with assms(1) have "p \<noteq> []" "length p \<le> 32" by (simp_all add: line_pin_def)
    with take_unat_splice [of p] show ?thesis
      by (simp add: proc ProvSetUser ascii_def set_staged_pin_def Let_def queue_response_def prov_abs_def)
  next
    case (ProvSetAdmin p)
    with assms(1) have "p \<noteq> []" "length p \<le> 32" by (simp_all add: line_pin_def)
    with take_unat_splice [of p] show ?thesis
      by (simp add: proc ProvSetAdmin ascii_def set_staged_pin_def Let_def queue_response_def prov_abs_def)
  next
    case ProvStatus
    then show ?thesis by (simp add: proc ascii_def Let_def queue_response_def prov_abs_def)
  next
    case ProvCommit
    have "prov_abs (s\<lparr>pv_rx_line := []\<rparr>) = prov_abs s" by (simp add: prov_abs_def)
    moreover have "pv_rx_line (commit_line cp t) = pv_rx_line t \<and> pv_ep_data_out (commit_line cp t) = pv_ep_data_out t" for t
      by (auto simp: commit_line_def Let_def queue_err_def queue_response_def
          split: prod.splits sum.splits hal_error.splits)
    ultimately show ?thesis
      by (simp add: proc ProvCommit ascii_def Let_def commit_line_abs)
  qed
qed

section \<open>Runs\<close>

lemma provisioning_run_simps [simp]:
  "provisioning_run cp [] s = s"
  "provisioning_run cp (e # evs) s = provisioning_run cp evs (provisioning_step cp e s)"
  "provisioning_run cp (es @ evs) s = provisioning_run cp evs (provisioning_run cp es s)"
  by (simp_all add: provisioning_run_def)

lemma provisioning_step_core:
  "\<not> is_reset e \<Longrightarrow>
   prov_core (provisioning_step cp e s) = prov_core (feed_bytes cp (out_bytes (pv_ep_data_out s) e) s)"
  by (cases "(pv_ep_data_out s, e)" rule: out_bytes.cases)
    (simp_all add: provisioning_endpoint_out_def)

lemma provisioning_run_quiet:
  assumes "\<forall>e\<in>set evs. \<not> is_reset e" "received (pv_ep_data_out s) evs = []"
  shows "prov_core (provisioning_run cp evs s) = prov_core s"
  using assms
proof (induction evs arbitrary: s)
  case (Cons e evs)
  then have "prov_core (provisioning_step cp e s) = prov_core s"
    using provisioning_step_core [of e cp s] by simp
  with Cons prov_core_fields [of "provisioning_step cp e s" s] show ?case by simp
qed simp

lemma provisioning_run_line:
  assumes "\<forall>e\<in>set evs. \<not> is_reset e" "pv_rx_line s @ received (pv_ep_data_out s) evs = l @ [0x0A]"
    "0x0A \<notin> set l" "length l < LINE_CAP" "0x0A \<notin> set (pv_rx_line s)"
  shows "\<exists>t. pv_rx_line t = l @ [0x0A] \<and> prov_abs t = prov_abs s \<and> pv_ep_data_out t = pv_ep_data_out s
    \<and> prov_core (provisioning_run cp evs s) = prov_core (process_complete_line cp t)"
  using assms(1,2,5)
proof (induction evs arbitrary: s)
  case Nil
  then have "0x0A \<in> set (pv_rx_line s)" by simp
  with Nil(3) show ?case by simp
next
  case (Cons e evs)
  let ?d = "out_bytes (pv_ep_data_out s) e" and ?r = "received (pv_ep_data_out s) evs"
  have step: "prov_core (provisioning_step cp e s) = prov_core (feed_bytes cp ?d s)"
    using Cons.prems(1) by (simp add: provisioning_step_core)
  show ?case
  proof (cases "?r = []")
    case True
    with Cons.prems(2,3) obtain d' where d: "?d = d' @ [0x0A]" and l: "pv_rx_line s @ d' = l"
      by (cases ?d rule: rev_cases) auto
    let ?t = "s\<lparr>pv_rx_line := l @ [0x0A]\<rparr>"
    have eq: "prov_core (provisioning_step cp e s) = prov_core (process_complete_line cp ?t)"
      using feed_line [of d' s cp "[]"] assms(3,4) l by (simp add: step d) force
    have out: "pv_ep_data_out (process_complete_line cp ?t) = pv_ep_data_out s"
      by (auto simp: process_complete_line_def commit_line_def set_staged_pin_def queue_err_def queue_response_def
          Let_def split: option.splits prod.splits sum.splits hal_error.splits)
    have "prov_core (provisioning_run cp evs (provisioning_step cp e s)) = prov_core (provisioning_step cp e s)"
      using Cons.prems(1) True prov_core_fields [OF eq] out by (intro provisioning_run_quiet) simp_all
    with eq show ?thesis
      by (intro exI [of _ ?t]) (simp add: prov_abs_def)
  next
    case False
    then obtain r' where r: "?r = r' @ [0x0A]" and l: "l = pv_rx_line s @ ?d @ r'"
      using Cons.prems(2) by (cases ?r rule: rev_cases) auto
    have feed: "feed_bytes cp ?d s = s\<lparr>pv_rx_line := pv_rx_line s @ ?d\<rparr>"
      using assms(3,4) l by (intro feed_no_newline) auto
    let ?s = "provisioning_step cp e s"
    have s: "pv_rx_line ?s = pv_rx_line s @ ?d \<and> prov_abs ?s = prov_abs s \<and> pv_ep_data_out ?s = pv_ep_data_out s"
      using prov_core_fields [OF step] by (simp add: feed prov_abs_def)
    then have "\<exists>t. pv_rx_line t = l @ [0x0A] \<and> prov_abs t = prov_abs ?s \<and> pv_ep_data_out t = pv_ep_data_out ?s
      \<and> prov_core (provisioning_run cp evs ?s) = prov_core (process_complete_line cp t)"
      using Cons.prems(1) r l assms(3) by (intro Cons.IH) auto
    with s show ?thesis by simp
  qed
qed

lemma carries_line_runs:
  assumes "carries_line (pv_ep_data_out s) c evs" "pv_rx_line s = []"
  shows "prov_abs (provisioning_run cp evs s) = spec_step cp c (prov_abs s)
    \<and> pv_rx_line (provisioning_run cp evs s) = []
    \<and> pv_ep_data_out (provisioning_run cp evs s) = pv_ep_data_out s"
proof -
  from assms(1) have wf: "wf_cmd c" and evs: "\<forall>e\<in>set evs. \<not> is_reset e"
    "received (pv_ep_data_out s) evs = cmd_line c @ [0x0A]"
    by (simp_all add: carries_line_def)
  obtain t where t: "pv_rx_line t = cmd_line c @ [0x0A]" "prov_abs t = prov_abs s"
    "pv_ep_data_out t = pv_ep_data_out s"
    and run: "prov_core (provisioning_run cp evs s) = prov_core (process_complete_line cp t)"
    using provisioning_run_line [of evs s "cmd_line c" cp] evs cmd_line_props(3,4) [OF wf] assms(2) by auto
  from process_command [OF wf t(1), of cp] prov_core_fields [OF run] t(2,3) show ?thesis by simp
qed

lemma commands_run:
  assumes "list_all2 (carries_line (pv_ep_data_out s)) cmds evss" "pv_rx_line s = []"
  shows "prov_abs (provisioning_run cp (concat evss) s) = fold (spec_step cp) cmds (prov_abs s)"
  using assms
proof (induction cmds arbitrary: evss s)
  case (Cons c cmds)
  then obtain evs evss1 where "evss = evs # evss1" "carries_line (pv_ep_data_out s) c evs"
    "list_all2 (carries_line (pv_ep_data_out s)) cmds evss1"
    by (auto simp: list_all2_Cons1)
  with Cons.IH [of "provisioning_run cp evs s" evss1] carries_line_runs [of s c evs cp] Cons.prems(2)
  show ?case by simp
qed simp

section \<open>Any input\<close>

text \<open>A commit target that keeps a log of its calls.\<close>

definition logged :: "'c commit_pins \<Rightarrow> ('c \<times> (bytes \<times> bytes) list) commit_pins" where
  "logged cp u a cl = (case cp u a (fst cl) of (r, c) \<Rightarrow> (r, (c, snd cl @ [(u, a)])))"

definition pin_fits :: "bytes \<Rightarrow> bool" where
  "pin_fits p \<longleftrightarrow> 1 \<le> length p \<and> length p \<le> PROVISIONING_PIN_MAX"

definition prov_inv :: "('c \<times> (bytes \<times> bytes) list) provisioning_class \<Rightarrow> bool" where
  "prov_inv s \<longleftrightarrow>
     length (pv_rx_line s) \<le> LINE_CAP \<and> length (pv_tx_buf s) \<le> TX_CAP
     \<and> length (pv_staged_user s) = PROVISIONING_PIN_MAX \<and> unat (pv_staged_user_len s) \<le> PROVISIONING_PIN_MAX
     \<and> length (pv_staged_admin s) = PROVISIONING_PIN_MAX \<and> unat (pv_staged_admin_len s) \<le> PROVISIONING_PIN_MAX
     \<and> (\<forall>(u, a)\<in>set (snd (pv_commit s)). pin_fits u \<and> pin_fits a)"

lemma queue_fields [simp]:
  "pv_rx_line (queue_err r s) = pv_rx_line s" "pv_rx_line (queue_response r s) = pv_rx_line s"
  "pv_staged_user (queue_err r s) = pv_staged_user s" "pv_staged_user (queue_response r s) = pv_staged_user s"
  "pv_staged_user_len (queue_err r s) = pv_staged_user_len s"
  "pv_staged_user_len (queue_response r s) = pv_staged_user_len s"
  "pv_staged_admin (queue_err r s) = pv_staged_admin s" "pv_staged_admin (queue_response r s) = pv_staged_admin s"
  "pv_staged_admin_len (queue_err r s) = pv_staged_admin_len s"
  "pv_staged_admin_len (queue_response r s) = pv_staged_admin_len s"
  "pv_commit (queue_err r s) = pv_commit s" "pv_commit (queue_response r s) = pv_commit s"
  "length (pv_tx_buf (queue_err r s)) \<le> TX_CAP" "length (pv_tx_buf (queue_response r s)) \<le> TX_CAP"
  by (auto simp: queue_err_def queue_response_def Let_def push_lossy_eq push_all_eq split: option.splits)

lemma prov_inv_queue [simp]:
  "prov_inv s \<Longrightarrow> prov_inv (queue_err r s)" "prov_inv s \<Longrightarrow> prov_inv (queue_response r s)"
  "prov_inv s \<Longrightarrow> prov_inv (s\<lparr>pv_rx_line := []\<rparr>)"
  by (simp_all add: prov_inv_def)

lemma set_staged_pin_inv:
  assumes "prov_inv s"
  shows "prov_inv (set_staged_pin b user s)"
proof (cases "b = [] \<or> length b > 32")
  case True
  with assms show ?thesis by (simp add: set_staged_pin_def)
next
  case False
  then have "unat (of_nat (length b) :: u8) = length b" by (simp add: unat_of_nat)
  with False assms show ?thesis
    by (simp add: set_staged_pin_def Let_def prov_inv_def)
qed

lemma commit_line_inv:
  assumes "prov_inv s"
  shows "prov_inv (commit_line (logged cp) s)"
proof (cases "pv_staged_user_len s = 0 \<or> pv_staged_admin_len s = 0")
  case True
  with assms show ?thesis by (simp add: commit_line_def)
next
  case False
  let ?u = "take (unat (pv_staged_user_len s)) (pv_staged_user s)"
  let ?a = "take (unat (pv_staged_admin_len s)) (pv_staged_admin s)"
  obtain r c where cp: "cp ?u ?a (fst (pv_commit s)) = (r, c)" by fastforce
  have "1 \<le> unat (pv_staged_user_len s)" "1 \<le> unat (pv_staged_admin_len s)"
    using False by (simp_all add: Suc_le_eq unat_gt_0)
  with assms have inv: "prov_inv (s\<lparr>pv_commit := (c, snd (pv_commit s) @ [(?u, ?a)])\<rparr>)"
    by (auto simp: prov_inv_def pin_fits_def)
  show ?thesis
  proof (cases r)
    case (Inl e)
    with False cp inv show ?thesis by (cases e) (simp_all add: commit_line_def logged_def)
  next
    case (Inr x)
    with inv have "prov_inv (commit_line (logged cp) s) =
      prov_inv (queue_response ''OK\<newline>'' (s\<lparr>pv_commit := (c, snd (pv_commit s) @ [(?u, ?a)]), pv_commit_ok := True,
                 pv_staged_user_len := 0, pv_staged_admin_len := 0,
                 pv_staged_user := replicate PROVISIONING_PIN_MAX 0,
                 pv_staged_admin := replicate PROVISIONING_PIN_MAX 0\<rparr>))"
      using False cp by (simp add: commit_line_def logged_def)
    with inv show ?thesis by (simp add: prov_inv_def)
  qed
qed

lemma process_inv: "prov_inv s \<Longrightarrow> prov_inv (process_complete_line (logged cp) s)"
  by (auto simp: process_complete_line_def Let_def set_staged_pin_inv commit_line_inv split: option.splits)

lemma feed_inv: "prov_inv s \<Longrightarrow> prov_inv (feed_bytes (logged cp) bs s)"
proof (induction bs arbitrary: s)
  case (Cons b bs)
  have "prov_inv (s\<lparr>pv_rx_line := l\<rparr>)" if "vpush LINE_CAP (pv_rx_line s) b = Some l" for l
    using that Cons.prems by (auto simp: vpush_def prov_inv_def split: if_splits)
  with Cons show ?case by (auto simp: process_inv split: option.splits)
qed simp

lemma drain_inv: "prov_inv s \<Longrightarrow> prov_inv (snd (drain_tx w s))"
  by (auto simp: drain_tx_def Let_def prov_inv_def split: sum.splits usb_error.splits)

lemma reset_prov_inv: "prov_inv s \<Longrightarrow> prov_inv (provisioning_reset s)"
  by (simp add: provisioning_reset_def prov_inv_def)

lemma provisioning_step_inv: "prov_inv s \<Longrightarrow> prov_inv (provisioning_step (logged cp) e s)"
  by (cases e) (auto simp: provisioning_endpoint_out_def feed_inv drain_inv reset_prov_inv
      split: sum.splits)

section \<open>Properties\<close>

text \<open>
  (C23) The line protocol refines the operator's view of it. When the bytes of a sequence of commands
  reach the class, each line cut into packets in any way with its terminator at the end of a packet and
  polls in between, the staged PINs, the committed flag and the store are those the commands give when
  executed one after the other; in particular a commit hands over exactly the PINs entered last.
\<close>

theorem provisioning_refines_spec:
  assumes "list_all2 (carries_line (pv_ep_data_out s)) cmds evss" "pv_rx_line s = []"
  shows "prov_abs (provisioning_run cp (concat evss) s) = fold (spec_step cp) cmds (prov_abs s)"
  using assms by (rule commands_run)

abbreviation (input) demo_commit :: "(bytes \<times> bytes) list commit_pins" where
  "demo_commit u a c \<equiv> (Inr (), c @ [(u, a)])"

theorem provisioning_refines_spec_witness:
  "prov_abs (provisioning_run demo_commit
     (concat [[EndpointOut 3 (Inr (ascii ''SET_USER'')), Poll (\<lambda>_. Inl WouldBlock),
               EndpointOut 3 (Inr (ascii ''_PIN:1234\<newline>''))],
              [EndpointOut 3 (Inr (ascii ''SET_ADMIN_PIN:9876\<newline>''))],
              [EndpointOut 3 (Inr (ascii ''COMMIT\<newline>''))]])
     (provisioning_new 0 1 3 [])) =
   \<lparr>sp_user = None, sp_admin = None, sp_done = True, sp_store = [(ascii ''1234'', ascii ''9876'')]\<rparr>"
proof -
  let ?evss = "[[EndpointOut 3 (Inr (ascii ''SET_USER'')), Poll (\<lambda>_. Inl WouldBlock),
               EndpointOut 3 (Inr (ascii ''_PIN:1234\<newline>''))],
              [EndpointOut 3 (Inr (ascii ''SET_ADMIN_PIN:9876\<newline>''))],
              [EndpointOut 3 (Inr (ascii ''COMMIT\<newline>''))]]"
  have "list_all2 (carries_line 3) [ProvSetUser (ascii ''1234''), ProvSetAdmin (ascii ''9876''), ProvCommit] ?evss"
    by (simp add: carries_line_def line_pin_def ascii_def)
  with provisioning_refines_spec [of "provisioning_new 0 1 3 []"
      "[ProvSetUser (ascii ''1234''), ProvSetAdmin (ascii ''9876''), ProvCommit]" ?evss demo_commit]
  show ?thesis by (simp add: provisioning_new_def prov_abs_def)
qed

text \<open>
  Whatever bytes arrive, every pair of PINs handed to the store has both PINs present and between 1
  and 32 bytes long, and the buffers stay within their capacities.
\<close>

theorem provisioning_commits_bounded_pins:
  "prov_inv (provisioning_run (logged cp) evs (provisioning_new if_comm if_data out (c, [])))"
proof -
  have "prov_inv s \<Longrightarrow> prov_inv (provisioning_run (logged cp) evs s)" for s
    by (induction evs arbitrary: s) (simp_all add: provisioning_step_inv)
  moreover have "prov_inv (provisioning_new if_comm if_data out (c, []))"
    by (simp add: prov_inv_def provisioning_new_def)
  ultimately show ?thesis .
qed

lemma prov_abs_keeps [simp]:
  "prov_abs (s\<lparr>pv_rx_line := l\<rparr>) = prov_abs s" "prov_abs (queue_err r s) = prov_abs s"
  by (simp_all add: prov_abs_def queue_err_def Let_def)

lemma feed_overlong:
  "96 < length (pv_rx_line t) + length bs \<Longrightarrow> length (pv_rx_line t) \<le> 96 \<Longrightarrow> 0x0A \<notin> set bs \<Longrightarrow>
   pv_rx_line (feed_bytes cp bs t) = [] \<and> prov_abs (feed_bytes cp bs t) = prov_abs t"
proof (induction bs arbitrary: t)
  case (Cons x xs)
  then show ?case
    using Cons.IH [of "t\<lparr>pv_rx_line := pv_rx_line t @ [x]\<rparr>"] by (auto simp: vpush_def)
qed simp

text \<open>
  The rest of a packet after a line terminator is discarded, so a second command in the same packet is
  lost; a line over 96 bytes is answered with an error, but what follows the packet that overflowed is
  read as a new line.
\<close>

theorem second_command_lost:
  "0x0A \<notin> set l \<Longrightarrow> length l < LINE_CAP \<Longrightarrow> pv_rx_line s = [] \<Longrightarrow>
   feed_bytes cp (l @ 0x0A # rest) s = feed_bytes cp (l @ [0x0A]) s"
  by (simp add: feed_line)

theorem overlong_line_tail_is_command:
  assumes "length a = 64" "length b = 64" "0x0A \<notin> set a" "0x0A \<notin> set b" "pv_rx_line s = []"
  shows "pv_rx_line (feed_bytes cp b (feed_bytes cp a s)) = []
    \<and> prov_abs (feed_bytes cp (ascii ''COMMIT'' @ [0x0A]) (feed_bytes cp b (feed_bytes cp a s)))
        = spec_step cp ProvCommit (prov_abs s)"
proof -
  have a: "feed_bytes cp a s = s\<lparr>pv_rx_line := a\<rparr>"
    using assms by (simp add: feed_no_newline)
  have "96 < length (pv_rx_line (feed_bytes cp a s)) + length b" "length (pv_rx_line (feed_bytes cp a s)) \<le> 96"
    using assms by (simp_all add: a)
  note over = feed_overlong [OF this assms(4), of cp]
  have b: "pv_rx_line (feed_bytes cp b (feed_bytes cp a s)) = []"
    "prov_abs (feed_bytes cp b (feed_bytes cp a s)) = prov_abs s"
    using over by (simp_all add: a)
  have "0x0A \<notin> set (ascii ''COMMIT'')" "length (ascii ''COMMIT'') = 6"
    by (simp_all add: ascii_def)
  with process_command [of ProvCommit "(feed_bytes cp b (feed_bytes cp a s))\<lparr>pv_rx_line := ascii ''COMMIT'' @ [0x0A]\<rparr>" cp]
    feed_line [of "ascii ''COMMIT''" "feed_bytes cp b (feed_bytes cp a s)" cp "[]"] b
  show ?thesis by simp
qed

end
