(* ===== verification/Rram.thy ===== *)
theory Rram
  imports Card_Env
begin

text \<open>
  The non-volatile memory of the Baochip target, \<open>crates/baochip-openpgp/src/xous_impl.rs\<close>: layout,
  storage, attempt counters, zeroisation, PIN provision records, master key and the construction of the
  backend at boot.

  The driver \<open>bao1x_hal::rram::Reram\<close> is outside the repository and is a record of its two operations.
  \<open>ra_array r phys\<close> is the mapped memory from an address to the end of its window; that a window holds
  at least the byte asked for is in its type (a first byte and the rest), since the read loop would not
  advance on an empty window. \<open>BOOT1_START - HW_RERAM_MEM\<close> is the argument \<open>base\<close>. Addresses are natural
  numbers, with the 32-bit range of \<open>usize\<close> on this target checked where the code checks it.

  What the driver promises is the contract \<open>rram_contract\<close>. From it follow, once and for all, the
  contracts \<open>vault_contract\<close> and \<open>refunding_counter\<close> that the vault and the PIN policy rely on.
\<close>

section \<open>Driver and layout\<close>

record 'r reram =
  ra_array :: "'r \<Rightarrow> nat \<Rightarrow> unit + (u8 \<times> bytes)"
  ra_write_slice :: "nat \<Rightarrow> bytes \<Rightarrow> 'r \<Rightarrow> (unit + unit) \<times> 'r"

abbreviation USIZE_MAX :: nat where "USIZE_MAX \<equiv> 0xFFFFFFFF"

definition OPENPGP_ZEROISE_REGION_ID :: u32 where "OPENPGP_ZEROISE_REGION_ID = 0x4F504700"
definition OPENPGP_DO_STORE_LOGICAL :: nat where "OPENPGP_DO_STORE_LOGICAL = 67072"

definition pin_user_logical_off :: nat where
  "pin_user_logical_off = OPENPGP_DO_STORE_LOGICAL + DO_STORE_REGION_BYTES"
definition pin_admin_logical_off :: nat where "pin_admin_logical_off = pin_user_logical_off + 32"
definition user_ctr_logical_off :: nat where "user_ctr_logical_off = pin_admin_logical_off + 32"
definition admin_ctr_logical_off :: nat where "admin_ctr_logical_off = user_ctr_logical_off + 4"
definition master_record_logical_off :: nat where "master_record_logical_off = admin_ctr_logical_off + 4"

definition OPENPGP_MASTER_MAGIC :: bytes where "OPENPGP_MASTER_MAGIC = [0x4F, 0x47, 0x4D, 0x4B]"
definition OPENPGP_MASTER_RECORD_BYTES :: nat where "OPENPGP_MASTER_RECORD_BYTES = 4 + 32"
definition CCID_PIN_PROVISION_PAYLOAD_MAX_BYTES :: nat where "CCID_PIN_PROVISION_PAYLOAD_MAX_BYTES = 32"
definition CCID_PIN_PROVISION_SLOT_BYTES :: nat where
  "CCID_PIN_PROVISION_SLOT_BYTES = 4 + 1 + CCID_PIN_PROVISION_PAYLOAD_MAX_BYTES"
definition CCID_DEFAULT_PIN_DIGITS :: nat where "CCID_DEFAULT_PIN_DIGITS = 8"
definition CCID_PINPROV_USER_MAGIC :: bytes where "CCID_PINPROV_USER_MAGIC = [0x50, 0x4E, 0x55, 0x31]"
definition CCID_PINPROV_ADMIN_MAGIC :: bytes where "CCID_PINPROV_ADMIN_MAGIC = [0x50, 0x4E, 0x41, 0x31]"

definition pin_provision_user_logical_off :: nat where
  "pin_provision_user_logical_off = master_record_logical_off + OPENPGP_MASTER_RECORD_BYTES"
definition pin_provision_admin_logical_off :: nat where
  "pin_provision_admin_logical_off = pin_provision_user_logical_off + CCID_PIN_PROVISION_SLOT_BYTES"
definition openpgp_vault_logical_span_end :: nat where
  "openpgp_vault_logical_span_end = pin_provision_admin_logical_off + CCID_PIN_PROVISION_SLOT_BYTES"

lemmas rram_layout = OPENPGP_DO_STORE_LOGICAL_def pin_user_logical_off_def pin_admin_logical_off_def
  user_ctr_logical_off_def admin_ctr_logical_off_def master_record_logical_off_def
  OPENPGP_MASTER_RECORD_BYTES_def CCID_PIN_PROVISION_PAYLOAD_MAX_BYTES_def CCID_PIN_PROVISION_SLOT_BYTES_def
  pin_provision_user_logical_off_def pin_provision_admin_logical_off_def openpgp_vault_logical_span_end_def

text \<open>The pages that \<open>map_openpgp_rram_windows\<close> maps: first page address and length.\<close>

definition map_openpgp_rram_windows :: "nat \<Rightarrow> nat \<times> nat" where
  "map_openpgp_rram_windows base =
     (let page_end = (base + openpgp_vault_logical_span_end + 0xFFF) div 0x1000 * 0x1000;
          page_base = base div 0x1000 * 0x1000
      in (page_base, page_end - page_base))"

section \<open>Byte access\<close>

fun rram_read_bytes :: "'r reram \<Rightarrow> 'r \<Rightarrow> nat \<Rightarrow> nat \<Rightarrow> hal_error + bytes" where
  "rram_read_bytes R r phys n =
     (if n = 0 then Inr []
      else case ra_array R r phys of
          Inl _ \<Rightarrow> Inl Bus
        | Inr (b, bs) \<Rightarrow>
            let slab = b # bs; m = min n (length slab) in
            (case rram_read_bytes R r (phys + m) (n - m) of
               Inl e \<Rightarrow> Inl e
             | Inr rest \<Rightarrow> Inr (take m slab @ rest)))"

fun zero_rram_window :: "'r reram \<Rightarrow> nat \<Rightarrow> nat \<Rightarrow> 'r \<Rightarrow> (hal_error + unit) \<times> 'r" where
  "zero_rram_window R phys span r =
     (if span = 0 then (Inr (), r)
      else
        let n = min span 256 in
        (case ra_write_slice R phys (replicate n 0) r of
           (Inl _, r1) \<Rightarrow> (Inl Bus, r1)
         | (Inr _, r1) \<Rightarrow> zero_rram_window R (phys + n) (span - n) r1))"

declare rram_read_bytes.simps [simp del] zero_rram_window.simps [simp del]

definition rram_write :: "'r reram \<Rightarrow> nat \<Rightarrow> bytes \<Rightarrow> 'r \<Rightarrow> (hal_error + unit) \<times> 'r" where
  "rram_write R phys data r =
     (case ra_write_slice R phys data r of (Inl _, r1) \<Rightarrow> (Inl Bus, r1) | (Inr _, r1) \<Rightarrow> (Inr (), r1))"

section \<open>Implementations of the traits\<close>

text \<open>The memory and the generator; every handle of the process shares them.\<close>

record ('r, 't) bao_world =
  bw_rram :: 'r
  bw_trng :: 't

definition RramVaultStorage :: "'r reram \<Rightarrow> nat \<Rightarrow> 'r vault_storage" where
  "RramVaultStorage R base = \<lparr>
     vs_read = (\<lambda>r off n.
       if off > USIZE_MAX then Inl Bus
       else if base + off > USIZE_MAX then Inl Bus
       else rram_read_bytes R r (base + off) n),
     vs_write = (\<lambda>r off d.
       if off > USIZE_MAX then (Inl Bus, r)
       else if base + off > USIZE_MAX then (Inl Bus, r)
       else rram_write R (base + off) d r)\<rparr>"

definition rram_counter_read :: "'r reram \<Rightarrow> nat \<Rightarrow> 'r \<Rightarrow> hal_error + u32" where
  "rram_counter_read R phys r =
     (case rram_read_bytes R r phys 4 of Inl e \<Rightarrow> Inl e | Inr b \<Rightarrow> Inr (rd_u32_le b 0))"

definition rram_counter_increment :: "'r reram \<Rightarrow> nat \<Rightarrow> 'r \<Rightarrow> (hal_error + u32) \<times> 'r" where
  "rram_counter_increment R phys r =
     (case rram_counter_read R phys r of
        Inl e \<Rightarrow> (Inl e, r)
      | Inr v0 \<Rightarrow>
          let v = sat_add32 v0 1 in
          (case rram_write R phys (u32_le v) r of (Inl e, r1) \<Rightarrow> (Inl e, r1) | (Inr _, r1) \<Rightarrow> (Inr v, r1)))"

definition rram_counter_refund :: "'r reram \<Rightarrow> nat \<Rightarrow> 'r \<Rightarrow> (hal_error + unit) \<times> 'r" where
  "rram_counter_refund R phys r =
     (case rram_counter_read R phys r of
        Inl e \<Rightarrow> (Inl e, r)
      | Inr v0 \<Rightarrow> rram_write R phys (u32_le (sat_sub32 v0 1)) r)"

definition RramMonotonicCounter :: "'r reram \<Rightarrow> nat \<Rightarrow> 'r monotonic_counter" where
  "RramMonotonicCounter R phys = \<lparr>
     mc_read = rram_counter_read R phys,
     mc_increment = rram_counter_increment R phys,
     mc_refund = rram_counter_refund R phys\<rparr>"

record baochip_vault_zeroise =
  bz_phys_base :: nat
  bz_span :: nat

definition zeroise_region :: "'r reram \<Rightarrow> baochip_vault_zeroise \<Rightarrow> u32 \<Rightarrow> 'r \<Rightarrow> (hal_error + unit) \<times> 'r" where
  "zeroise_region R z region_id r =
     (if region_id \<noteq> OPENPGP_ZEROISE_REGION_ID then (Inl Denied, r)
      else zero_rram_window R (bz_phys_base z) (bz_span z) r)"

section \<open>Statics of the process\<close>

record process_statics =
  st_pin_zeroise :: "baochip_vault_zeroise option"
  st_openpgp_rram :: bool
  st_user_ctr_phys :: nat
  st_admin_ctr_phys :: nat

definition statics_initial :: process_statics where
  "statics_initial = \<lparr>st_pin_zeroise = None, st_openpgp_rram = False, st_user_ctr_phys = 0, st_admin_ctr_phys = 0\<rparr>"

text \<open>\<open>OnceLock::set\<close> fails when the cell is already set.\<close>

definition init_pin_zeroise_singleton ::
  "baochip_vault_zeroise \<Rightarrow> process_statics \<Rightarrow> (unit + unit) \<times> process_statics" where
  "init_pin_zeroise_singleton z st =
     (case st_pin_zeroise st of
        Some _ \<Rightarrow> (Inl (), st)
      | None \<Rightarrow> (Inr (), st\<lparr>st_pin_zeroise := Some z\<rparr>))"

definition install_openpgp_rram :: "nat \<Rightarrow> nat \<Rightarrow> process_statics \<Rightarrow> process_statics" where
  "install_openpgp_rram user_ctr_phys admin_ctr_phys st =
     st\<lparr>st_user_ctr_phys := user_ctr_phys, st_admin_ctr_phys := admin_ctr_phys, st_openpgp_rram := True\<rparr>"

text \<open>A new handle for the counter cell; it reads no memory and writes none.\<close>

definition new_user_counter :: "'r reram \<Rightarrow> process_statics \<Rightarrow> 'r monotonic_counter" where
  "new_user_counter R st = RramMonotonicCounter R (st_user_ctr_phys st)"

definition new_admin_counter :: "'r reram \<Rightarrow> process_statics \<Rightarrow> 'r monotonic_counter" where
  "new_admin_counter R st = RramMonotonicCounter R (st_admin_ctr_phys st)"

definition trigger_zeroisation :: "'r reram \<Rightarrow> process_statics \<Rightarrow> 'r \<Rightarrow> 'r" where
  "trigger_zeroisation R st r =
     (case st_pin_zeroise st of
        None \<Rightarrow> r
      | Some z \<Rightarrow> snd (zeroise_region R z OPENPGP_ZEROISE_REGION_ID r))"

section \<open>Master key\<close>

definition load_or_derive_ccid_master_key ::
  "'r reram \<Rightarrow> 't hardware_trng \<Rightarrow> (bytes \<Rightarrow> bytes \<Rightarrow> string \<Rightarrow> nat \<Rightarrow> bytes option) \<Rightarrow> nat \<Rightarrow> bytes \<Rightarrow>
   ('r, 't) bao_world \<Rightarrow> (hal_error + bytes) \<times> ('r, 't) bao_world" where
  "load_or_derive_ccid_master_key R T hkdf base device_binding w =
     (let phys = base + master_record_logical_off;
          derive = (\<lambda>record. map_err (\<lambda>_. Bus)
            (derive_subkey_sha512 hkdf (drop 4 record @ device_binding) [] OpenPgpCcidMaster 32)) in
      case rram_read_bytes R (bw_rram w) phys OPENPGP_MASTER_RECORD_BYTES of
        Inl e \<Rightarrow> (Inl e, w)
      | Inr record \<Rightarrow>
          if take 4 record \<noteq> OPENPGP_MASTER_MAGIC then
            (case tr_fill T 32 (bw_trng w) of
               (salt, t) \<Rightarrow>
                 let record = splice (splice record 0 OPENPGP_MASTER_MAGIC) 4 salt in
                 (case rram_write R phys record (bw_rram w) of
                    (Inl e, r) \<Rightarrow> (Inl e, w\<lparr>bw_trng := t, bw_rram := r\<rparr>)
                  | (Inr _, r) \<Rightarrow> (derive record, w\<lparr>bw_trng := t, bw_rram := r\<rparr>)))
          else (derive record, w))"

definition hex_nibble :: "u8 \<Rightarrow> unit + u8" where
  "hex_nibble c =
     (if 0x30 \<le> c \<and> c \<le> 0x39 then Inr (c - 0x30)
      else if 0x61 \<le> c \<and> c \<le> 0x66 then Inr (10 + c - 0x61)
      else if 0x41 \<le> c \<and> c \<le> 0x46 then Inr (10 + c - 0x41)
      else Inl ())"

fun hex_pairs :: "bytes \<Rightarrow> nat list \<Rightarrow> bytes \<Rightarrow> unit + bytes" where
  "hex_pairs b [] out = Inr out"
| "hex_pairs b (i # is) out =
     (case hex_nibble (b ! (i * 2)) of
        Inl e \<Rightarrow> Inl e
      | Inr hi_n \<Rightarrow>
          (case hex_nibble (b ! (i * 2 + 1)) of
             Inl e \<Rightarrow> Inl e
           | Inr lo_n \<Rightarrow> hex_pairs b is (out[i := push_bit 4 hi_n OR lo_n])))"

definition master_key_from_hex64 :: "bytes \<Rightarrow> unit + bytes" where
  "master_key_from_hex64 b =
     (if length b \<noteq> 64 then Inl () else hex_pairs b [0..<32] (replicate 32 0))"

section \<open>PIN provision records\<close>

definition pin_record :: "bytes \<Rightarrow> bytes \<Rightarrow> bytes" where
  "pin_record magic pin =
     splice ((splice (replicate CCID_PIN_PROVISION_SLOT_BYTES 0) 0 magic)[4 := of_nat (length pin)]) 5 pin"

definition clear_ccid_pin_provision_slots :: "'r reram \<Rightarrow> nat \<Rightarrow> 'r \<Rightarrow> (hal_error + unit) \<times> 'r" where
  "clear_ccid_pin_provision_slots R base r =
     (case zero_rram_window R (base + pin_provision_user_logical_off) CCID_PIN_PROVISION_SLOT_BYTES r of
        (Inl e, r1) \<Rightarrow> (Inl e, r1)
      | (Inr _, r1) \<Rightarrow> zero_rram_window R (base + pin_provision_admin_logical_off) CCID_PIN_PROVISION_SLOT_BYTES r1)"

definition pin_provision_record_valid :: "'r reram \<Rightarrow> nat \<Rightarrow> bytes \<Rightarrow> nat \<Rightarrow> 'r \<Rightarrow> bool" where
  "pin_provision_record_valid R base magic logical_off r =
     (case rram_read_bytes R r (base + logical_off) CCID_PIN_PROVISION_SLOT_BYTES of
        Inl _ \<Rightarrow> False
      | Inr buf \<Rightarrow>
          if take 4 buf \<noteq> magic then False
          else let n = unat (buf ! 4) in \<not> (n = 0 \<or> n > CCID_PIN_PROVISION_PAYLOAD_MAX_BYTES))"

definition provision_slots_have_valid_pins :: "'r reram \<Rightarrow> nat \<Rightarrow> 'r \<Rightarrow> bool" where
  "provision_slots_have_valid_pins R base r \<longleftrightarrow>
     pin_provision_record_valid R base CCID_PINPROV_USER_MAGIC pin_provision_user_logical_off r
     \<and> pin_provision_record_valid R base CCID_PINPROV_ADMIN_MAGIC pin_provision_admin_logical_off r"

definition write_provisioning_pins ::
  "'r reram \<Rightarrow> nat \<Rightarrow> bytes \<Rightarrow> bytes \<Rightarrow> 'r \<Rightarrow> (hal_error + unit) \<times> 'r" where
  "write_provisioning_pins R base user_pin admin_pin r =
     (if user_pin = [] \<or> length user_pin > CCID_PIN_PROVISION_PAYLOAD_MAX_BYTES then (Inl Denied, r)
      else if admin_pin = [] \<or> length admin_pin > CCID_PIN_PROVISION_PAYLOAD_MAX_BYTES then (Inl Denied, r)
      else
        case rram_write R (base + pin_provision_user_logical_off) (pin_record CCID_PINPROV_USER_MAGIC user_pin) r of
          (Inl e, r1) \<Rightarrow> (Inl e, r1)
        | (Inr _, r1) \<Rightarrow>
            rram_write R (base + pin_provision_admin_logical_off) (pin_record CCID_PINPROV_ADMIN_MAGIC admin_pin) r1)"

text \<open>Build features, and the \<open>next_u32\<close> of the generator for the fallback PIN.\<close>

record build_features =
  bf_dev_provisioning :: bool
  bf_trng_pin_fallback :: bool

fun trng_pin :: "('t \<Rightarrow> u32 \<times> 't) \<Rightarrow> nat \<Rightarrow> 't \<Rightarrow> bytes \<times> 't" where
  "trng_pin next_u32 0 t = ([], t)"
| "trng_pin next_u32 (Suc k) t =
     (case next_u32 t of (v, t1) \<Rightarrow>
      (case trng_pin next_u32 k t1 of (ps, t2) \<Rightarrow> ((0x30 + ucast (v mod 10)) # ps, t2)))"

definition load_or_provision_ccid_pin ::
  "'r reram \<Rightarrow> ('t \<Rightarrow> u32 \<times> 't) \<Rightarrow> build_features \<Rightarrow> nat \<Rightarrow> bytes \<Rightarrow> nat \<Rightarrow>
   ('r, 't) bao_world \<Rightarrow> (hal_error + bytes) \<times> ('r, 't) bao_world" where
  "load_or_provision_ccid_pin R next_u32 bf base magic logical_off w =
     (let phys = base + logical_off in
      case rram_read_bytes R (bw_rram w) phys CCID_PIN_PROVISION_SLOT_BYTES of
        Inl e \<Rightarrow> (Inl e, w)
      | Inr buf \<Rightarrow>
          if take 4 buf = magic then
            (let n = unat (buf ! 4) in
             if n = 0 \<or> n > CCID_PIN_PROVISION_PAYLOAD_MAX_BYTES then (Inl Denied, w)
             else (Inr (slice 5 n buf), w))
          else if bf_trng_pin_fallback bf then
            (case trng_pin next_u32 CCID_DEFAULT_PIN_DIGITS (bw_trng w) of
               (pin, t) \<Rightarrow>
                 (case rram_write R phys (pin_record magic pin) (bw_rram w) of
                    (Inl e, r) \<Rightarrow> (Inl e, w\<lparr>bw_trng := t, bw_rram := r\<rparr>)
                  | (Inr _, r) \<Rightarrow> (Inr pin, w\<lparr>bw_trng := t, bw_rram := r\<rparr>)))
          else (Inl NeedsProvisioning, w))"

definition load_or_provision_ccid_user_pin_bytes ::
  "'r reram \<Rightarrow> ('t \<Rightarrow> u32 \<times> 't) \<Rightarrow> build_features \<Rightarrow> nat \<Rightarrow>
   ('r, 't) bao_world \<Rightarrow> (hal_error + bytes) \<times> ('r, 't) bao_world" where
  "load_or_provision_ccid_user_pin_bytes R next_u32 bf base w =
     load_or_provision_ccid_pin R next_u32 bf base CCID_PINPROV_USER_MAGIC pin_provision_user_logical_off w"

definition load_or_provision_ccid_admin_pin_bytes ::
  "'r reram \<Rightarrow> ('t \<Rightarrow> u32 \<times> 't) \<Rightarrow> build_features \<Rightarrow> nat \<Rightarrow>
   ('r, 't) bao_world \<Rightarrow> (hal_error + bytes) \<times> ('r, 't) bao_world" where
  "load_or_provision_ccid_admin_pin_bytes R next_u32 bf base w =
     load_or_provision_ccid_pin R next_u32 bf base CCID_PINPROV_ADMIN_MAGIC pin_provision_admin_logical_off w"

definition pin_digest_unprovisioned :: "'r reram \<Rightarrow> nat \<Rightarrow> 'r \<Rightarrow> bool" where
  "pin_digest_unprovisioned R phys r =
     (case rram_read_bytes R r phys 32 of Inl _ \<Rightarrow> True | Inr buf \<Rightarrow> list_all (\<lambda>x. x = 0) buf)"

definition ccid_pin_hashes_unprovisioned :: "'r reram \<Rightarrow> nat \<Rightarrow> 'r \<Rightarrow> bool" where
  "ccid_pin_hashes_unprovisioned R base r \<longleftrightarrow>
     pin_digest_unprovisioned R (base + pin_user_logical_off) r
     \<or> pin_digest_unprovisioned R (base + pin_admin_logical_off) r"

definition validate_ccid_pin_env :: "bytes \<Rightarrow> unit + bytes" where
  "validate_ccid_pin_env b =
     (if b = [] \<or> length b > CCID_PIN_PROVISION_PAYLOAD_MAX_BYTES then Inl () else Inr b)"

section \<open>Construction of the backend\<close>

abbreviation rram_via :: "'r vault_storage \<Rightarrow> ('r, 't) bao_world vault_storage" where
  "rram_via \<equiv> vault_via bw_rram (\<lambda>r w. w\<lparr>bw_rram := r\<rparr>)"

abbreviation counter_of :: "'r monotonic_counter \<Rightarrow> ('r, 't) bao_world monotonic_counter" where
  "counter_of \<equiv> counter_via bw_rram (\<lambda>r w. w\<lparr>bw_rram := r\<rparr>)"

text \<open>
  The type arguments of \<open>BaochipVaultBackend\<close>. Assigning the result of \<open>new_user_counter\<close> to the
  backend's counter replaces a handle of the cell by another handle of the same cell: the memory is
  as before.
\<close>

definition baochip_env ::
  "'r reram \<Rightarrow> 't hardware_trng \<Rightarrow> crypto_lib \<Rightarrow> nat \<Rightarrow> process_statics \<Rightarrow> bytes \<Rightarrow> bytes \<Rightarrow>
   ('r, 't) bao_world vault_env" where
  "baochip_env R T C base st master_key aid = \<lparr>
     env_do = rram_via (RramVaultStorage R base), env_do_base = OPENPGP_DO_STORE_LOGICAL,
     env_pin = rram_via (RramVaultStorage R base),
     env_pin_user_off = pin_user_logical_off, env_pin_admin_off = pin_admin_logical_off,
     env_key = rram_via (RramVaultStorage R base),
     env_master_key = master_key,
     env_trng = trng_via bw_trng (\<lambda>t w. w\<lparr>bw_trng := t\<rparr>) T,
     env_aid = aid,
     env_user_counter = counter_of (new_user_counter R st),
     env_admin_counter = counter_of (new_admin_counter R st),
     env_user_zeroise = (\<lambda>w. w\<lparr>bw_rram := trigger_zeroisation R st (bw_rram w)\<rparr>),
     env_admin_zeroise = (\<lambda>w. w\<lparr>bw_rram := trigger_zeroisation R st (bw_rram w)\<rparr>),
     env_new_user_counter = (\<lambda>w. w), env_new_admin_counter = (\<lambda>w. w),
     env_crypto = C\<rparr>"

text \<open>\<open>trng_ok\<close> is whether \<open>Trng::new\<close> reaches the service. The statics outlive a failed call.\<close>

definition open_or_provision_backend ::
  "'r reram \<Rightarrow> 't hardware_trng \<Rightarrow> crypto_lib \<Rightarrow> build_features \<Rightarrow> nat \<Rightarrow> bool \<Rightarrow>
   bytes \<Rightarrow> bytes \<Rightarrow> bytes \<Rightarrow> bytes \<Rightarrow> process_statics \<Rightarrow> ('r, 't) bao_world \<Rightarrow>
   (hal_error + ('r, 't) bao_world vault_backend) \<times> process_statics" where
  "open_or_provision_backend R T C bf base trng_ok master_key aid user_pin admin_pin st w =
     (case init_pin_zeroise_singleton \<lparr>bz_phys_base = base, bz_span = openpgp_vault_logical_span_end\<rparr> st of
        (Inl _, st1) \<Rightarrow> (Inl Bus, st1)
      | (Inr _, st1) \<Rightarrow>
          let user_unprov = pin_digest_unprovisioned R (base + pin_user_logical_off) (bw_rram w);
              admin_unprov = pin_digest_unprovisioned R (base + pin_admin_logical_off) (bw_rram w) in
          if \<not> trng_ok then (Inl Bus, st1)
          else
            let cfg = pin_policy_config_default;
                st2 = install_openpgp_rram (base + user_ctr_logical_off) (base + admin_ctr_logical_off) st1;
                E = baochip_env R T C base st2 master_key aid in
            if user_unprov \<or> admin_unprov then
              (if \<not> bf_dev_provisioning bf \<and> \<not> bf_trng_pin_fallback bf
                  \<and> \<not> provision_slots_have_valid_pins R base (bw_rram w) then (Inl NeedsProvisioning, st2)
               else if length user_pin > CCID_PIN_PROVISION_PAYLOAD_MAX_BYTES
                  \<or> length admin_pin > CCID_PIN_PROVISION_PAYLOAD_MAX_BYTES then (Inl Denied, st2)
               else
                 (case vault_backend_new E user_pin admin_pin (pin_machine_new cfg) (pin_machine_new cfg) w of
                    Inl e \<Rightarrow> (Inl e, st2)
                  | Inr b \<Rightarrow>
                      (case clear_ccid_pin_provision_slots R base (bw_rram (vb_world b)) of
                         (Inl e, _) \<Rightarrow> (Inl e, st2)
                       | (Inr _, r) \<Rightarrow> (Inr (b\<lparr>vb_world := (vb_world b)\<lparr>bw_rram := r\<rparr>\<rparr>), st2))))
            else (vault_backend_open E (pin_machine_new cfg) (pin_machine_new cfg) w, st2))"

section \<open>Contract of the driver\<close>

text \<open>
  \<open>mem r\<close> is the content of the array, \<open>ok r\<close> says that the driver is healthy. What the driver returns
  is the content; a healthy driver answers in range; a write changes exactly its slice or nothing.
\<close>

locale rram_contract =
  fixes R :: "'r reram" and mem :: "'r \<Rightarrow> bytes" and ok :: "'r \<Rightarrow> bool"
  assumes array_ok: "ok r \<Longrightarrow> phys < length (mem r) \<Longrightarrow> \<exists>x. ra_array R r phys = Inr x"
    and array_mem: "ra_array R r phys = Inr (b, bs) \<Longrightarrow>
      phys + Suc (length bs) \<le> length (mem r) \<and> slice phys (Suc (length bs)) (mem r) = b # bs"
    and write_in: "ok r \<Longrightarrow> phys + length d \<le> length (mem r) \<Longrightarrow> fst (ra_write_slice R phys d r) = Inr ()"
    and write_mem: "fst (ra_write_slice R phys d r) = Inr () \<Longrightarrow>
      phys + length d \<le> length (mem r) \<and> mem (snd (ra_write_slice R phys d r)) = splice (mem r) phys d"
    and write_err: "fst (ra_write_slice R phys d r) = Inl () \<Longrightarrow> mem (snd (ra_write_slice R phys d r)) = mem r"
    and write_ok: "ok r \<Longrightarrow> ok (snd (ra_write_slice R phys d r))"

text \<open>With the window of the vault inside an array that \<open>usize\<close> can address.\<close>

locale rram_vault = rram_contract +
  fixes base :: nat
  assumes base_in: "base \<le> length (mem r)"
    and addressable: "length (mem r) \<le> USIZE_MAX"

lemma slice_split: "m \<le> n \<Longrightarrow> slice off n xs = slice off m xs @ slice (off + m) (n - m) xs"
  using take_add [of m "n - m" "drop off xs"] by (simp add: slice_def add.commute)

lemma splice_zeros:
  assumes "off + a + b \<le> length xs"
  shows "splice (splice xs off (replicate a z)) (off + a) (replicate b z) = splice xs off (replicate (a + b) z)"
  by (rule nth_equalityI) (use assms in \<open>auto simp: nth_splice\<close>)

lemma drop_splice: "base \<le> length xs \<Longrightarrow> drop base (splice xs (base + off) d) = splice (drop base xs) off d"
  by (simp add: splice_def drop_take add_ac)

context rram_contract
begin

lemma read_mem:
  "rram_read_bytes R r phys n = Inr bs \<Longrightarrow>
   length bs = n \<and> (0 < n \<longrightarrow> phys + n \<le> length (mem r)) \<and> bs = slice phys n (mem r)"
proof (induction n arbitrary: phys bs rule: less_induct)
  case (less n)
  show ?case
  proof (cases "n = 0")
    case False
    with less.prems obtain b cs rest where arr: "ra_array R r phys = Inr (b, cs)"
      and rest: "rram_read_bytes R r (phys + min n (Suc (length cs))) (n - min n (Suc (length cs))) = Inr rest"
      and bs: "bs = take (min n (Suc (length cs))) (b # cs) @ rest"
      by (subst (asm) rram_read_bytes.simps) (auto simp: Let_def split: sum.splits prod.splits)
    let ?m = "min n (Suc (length cs))"
    have a: "phys + Suc (length cs) \<le> length (mem r)" "slice phys (Suc (length cs)) (mem r) = b # cs"
      using array_mem [OF arr] by simp_all
    have t: "take ?m (b # cs) = slice phys ?m (mem r)"
      by (simp only: a(2) [symmetric]) (simp add: slice_def min_def)
    have r: "length rest = n - ?m \<and> (0 < n - ?m \<longrightarrow> phys + ?m + (n - ?m) \<le> length (mem r))
        \<and> rest = slice (phys + ?m) (n - ?m) (mem r)"
      using False by (intro less.IH rest) simp
    have "phys + n \<le> length (mem r)"
      using a(1) r by (cases "n \<le> Suc (length cs)") simp_all
    moreover have "bs = slice phys n (mem r)"
      using r slice_split [of ?m n phys "mem r"] by (simp only: bs t min.cobounded1)
    ultimately show ?thesis by (simp add: slice_def)
  qed (use less.prems in \<open>simp add: rram_read_bytes.simps\<close>)
qed

lemma read_in:
  "ok r \<Longrightarrow> phys + n \<le> length (mem r) \<Longrightarrow> rram_read_bytes R r phys n = Inr (slice phys n (mem r))"
proof (induction n arbitrary: phys rule: less_induct)
  case (less n)
  show ?case
  proof (cases "n = 0")
    case False
    then obtain b cs where arr: "ra_array R r phys = Inr (b, cs)"
      using array_ok [OF less.prems(1), of phys] less.prems(2) by auto
    let ?m = "min n (Suc (length cs))"
    have "rram_read_bytes R r (phys + ?m) (n - ?m) = Inr (slice (phys + ?m) (n - ?m) (mem r))"
      using False less.prems by (intro less.IH) simp_all
    with False arr have "\<exists>bs. rram_read_bytes R r phys n = Inr bs"
      by (subst rram_read_bytes.simps) (simp add: Let_def)
    then obtain bs where bs: "rram_read_bytes R r phys n = Inr bs" ..
    with read_mem [OF bs] show ?thesis by simp
  qed (simp add: rram_read_bytes.simps)
qed

lemma rram_write_in:
  "ok r \<Longrightarrow> phys + length d \<le> length (mem r) \<Longrightarrow>
   \<exists>r'. rram_write R phys d r = (Inr (), r') \<and> ok r' \<and> mem r' = splice (mem r) phys d"
  using write_in [of r phys d] write_mem [of phys d r] write_ok [of r phys d]
  by (auto simp: rram_write_def split: prod.splits sum.splits)

lemma rram_write_mem:
  "rram_write R phys d r = (Inr (), r') \<Longrightarrow> phys + length d \<le> length (mem r) \<and> mem r' = splice (mem r) phys d"
  "rram_write R phys d r = (Inl e, r') \<Longrightarrow> mem r' = mem r"
  "rram_write R phys d r = (x, r') \<Longrightarrow> ok r \<Longrightarrow> ok r'"
  using write_mem [of phys d r] write_err [of phys d r] write_ok [of r phys d]
  by (auto simp: rram_write_def split: prod.splits sum.splits)

lemma rram_write_length:
  "rram_write R phys d r = (x, r') \<Longrightarrow> length (mem r') = length (mem r)"
  by (cases x) (auto dest: rram_write_mem)

lemma zero_window_mem:
  "zero_rram_window R phys span r = (Inr (), r') \<Longrightarrow>
   (0 < span \<longrightarrow> phys + span \<le> length (mem r)) \<and> mem r' = splice (mem r) phys (replicate span 0)"
proof (induction span arbitrary: phys r rule: less_induct)
  case (less span)
  show ?case
  proof (cases "span = 0")
    case False
    let ?n = "min span 256"
    from False less.prems obtain r1 where w: "ra_write_slice R phys (replicate ?n 0) r = (Inr (), r1)"
      and z: "zero_rram_window R (phys + ?n) (span - ?n) r1 = (Inr (), r')"
      by (subst (asm) zero_rram_window.simps) (auto simp: Let_def split: prod.splits sum.splits)
    have 1: "phys + ?n \<le> length (mem r)" "mem r1 = splice (mem r) phys (replicate ?n 0)"
      using write_mem [of phys "replicate ?n 0" r] w by simp_all
    have 2: "(0 < span - ?n \<longrightarrow> phys + ?n + (span - ?n) \<le> length (mem r1))
        \<and> mem r' = splice (mem r1) (phys + ?n) (replicate (span - ?n) 0)"
      using False by (intro less.IH z) simp
    have in_range: "phys + ?n + (span - ?n) \<le> length (mem r)"
      using 1 2 by (cases "span \<le> 256") simp_all
    then have "mem r' = splice (mem r) phys (replicate (?n + (span - ?n)) 0)"
      using 1 2 splice_zeros [of phys ?n "span - ?n" "mem r" 0] by simp
    with in_range show ?thesis by simp
  qed (use less.prems in \<open>simp add: zero_rram_window.simps\<close>)
qed

lemma zero_window_in:
  "ok r \<Longrightarrow> phys + span \<le> length (mem r) \<Longrightarrow> \<exists>r'. zero_rram_window R phys span r = (Inr (), r') \<and> ok r'"
proof (induction span arbitrary: phys r rule: less_induct)
  case (less span)
  show ?case
  proof (cases "span = 0")
    case False
    let ?n = "min span 256"
    obtain r1 where w: "ra_write_slice R phys (replicate ?n 0) r = (Inr (), r1)" and r1: "ok r1"
        "length (mem r1) = length (mem r)"
      using write_in [of r phys "replicate ?n 0"] write_ok [of r phys "replicate ?n 0"]
        write_mem [of phys "replicate ?n 0" r] less.prems
      by (cases "ra_write_slice R phys (replicate ?n 0) r") auto
    from False r1 less.prems have "\<exists>r'. zero_rram_window R (phys + ?n) (span - ?n) r1 = (Inr (), r') \<and> ok r'"
      by (intro less.IH) simp_all
    with False w show ?thesis by (subst zero_rram_window.simps) (simp add: Let_def)
  qed (use less.prems in \<open>simp add: zero_rram_window.simps\<close>)
qed

end

lemma pin_record_length [simp]:
  "length pin \<le> 32 \<Longrightarrow> length magic = 4 \<Longrightarrow> length (pin_record magic pin) = 37"
  by (simp add: pin_record_def rram_layout)

lemma pin_record_fields:
  assumes "length pin \<le> 32" "length magic = 4"
  shows "take 4 (pin_record magic pin) = magic" "pin_record magic pin ! 4 = of_nat (length pin)"
    "slice 5 (length pin) (pin_record magic pin) = pin"
  using assms by (simp_all add: pin_record_def rram_layout splice_def slice_def nth_append list_update_append
      take_Cons')

context rram_vault
begin

sublocale storage: vault_contract "RramVaultStorage R base" "\<lambda>r. drop base (mem r)" ok
proof
  fix r off d
  have add: "base + off \<le> USIZE_MAX" if "off + n \<le> length (drop base (mem r))" for n
    using that addressable [of r] base_in [of r] by simp
  show "vs_read (RramVaultStorage R base) r off n = Inr (slice off n (drop base (mem r)))"
    if "ok r" "off + n \<le> length (drop base (mem r))" for n
    using that add [of n] base_in [of r] read_in [of r "base + off" n]
    by (simp add: RramVaultStorage_def slice_def add.commute)
  show "fst (vs_write (RramVaultStorage R base) r off d) = Inr ()"
    if "ok r" "off + length d \<le> length (drop base (mem r))"
  proof -
    have "base + off + length d \<le> length (mem r)"
      using that(2) base_in [of r] by simp
    with rram_write_in [OF that(1), of "base + off" d] add [OF that(2)] show ?thesis
      by (auto simp: RramVaultStorage_def)
  qed
  obtain x r' where w: "rram_write R (base + off) d r = (x, r')" by fastforce
  show "off + length d \<le> length (drop base (mem r))
      \<and> drop base (mem (snd (vs_write (RramVaultStorage R base) r off d))) = splice (drop base (mem r)) off d"
    if "fst (vs_write (RramVaultStorage R base) r off d) = Inr ()"
  proof -
    from that have off: "off \<le> USIZE_MAX" "base + off \<le> USIZE_MAX" and x: "x = Inr ()"
      by (auto simp: RramVaultStorage_def w split: if_splits)
    have m: "base + off + length d \<le> length (mem r)" "mem r' = splice (mem r) (base + off) d"
      using rram_write_mem(1) [of "base + off" d r r'] w x by simp_all
    with drop_splice [OF base_in, of r off d] off show ?thesis
      by (simp add: RramVaultStorage_def w)
  qed
  show "drop base (mem (snd (vs_write (RramVaultStorage R base) r off d))) = drop base (mem r)"
    if "fst (vs_write (RramVaultStorage R base) r off d) = Inl e" for e
    using that rram_write_mem(2) [of "base + off" d r e r'] by (auto simp: RramVaultStorage_def w split: if_splits)
  show "ok (snd (vs_write (RramVaultStorage R base) r off d))" if "ok r"
    using that rram_write_mem(3) [OF w] by (simp add: RramVaultStorage_def w)
  show "length bs = n" if "vs_read (RramVaultStorage R base) r off n = Inr bs" for n bs
    using that read_mem by (auto simp: RramVaultStorage_def split: if_splits)
qed

lemmas storage_axioms = storage.vault_contract_axioms

end

context rram_contract
begin

lemma counter_is_refunding:
  assumes "\<And>r. phys + 4 \<le> length (mem r)"
  shows "refunding_counter (RramMonotonicCounter R phys) (\<lambda>r. rd_u32_le (slice phys 4 (mem r)) 0) ok"
proof -
  have rd: "rram_counter_read R phys r = Inr v \<Longrightarrow> v = rd_u32_le (slice phys 4 (mem r)) 0" for r v
    using read_mem [of r phys 4] by (auto simp: rram_counter_read_def split: sum.splits)
  have rd_ok: "ok r \<Longrightarrow> rram_counter_read R phys r = Inr (rd_u32_le (slice phys 4 (mem r)) 0)" for r
    using assms [of r] read_in [of r phys 4] by (simp add: rram_counter_read_def)
  have wr: "rram_write R phys (u32_le v) r = (Inr (), r') \<Longrightarrow> rd_u32_le (slice phys 4 (mem r')) 0 = v" for r r' v
    using rram_write_mem(1) [of phys "u32_le v" r r'] rd_u32_le_u32_le [of v "[]"]
    by (auto simp: slice_splice_same)
  note defs = RramMonotonicCounter_def rram_counter_increment_def rram_counter_refund_def
  show ?thesis
  proof
    fix r :: 'r
    let ?C = "RramMonotonicCounter R phys" and ?val = "\<lambda>r. rd_u32_le (slice phys 4 (mem r)) 0"
    show "fst (mc_increment ?C r) = Inr (sat_add32 (?val r) 1)" if "ok r"
      using rd_ok [OF that] rram_write_in [OF that, of phys "u32_le (sat_add32 (?val r) 1)"] assms [of r]
      by (auto simp: defs Let_def)
    show "c = sat_add32 (?val r) 1 \<and> ?val (snd (mc_increment ?C r)) = c" if "fst (mc_increment ?C r) = Inr c" for c
      using that rd [of r] wr [of c r]
      by (auto simp: defs Let_def split: sum.splits prod.splits)
    show "?val (snd (mc_increment ?C r)) = ?val r" if "fst (mc_increment ?C r) = Inl e" for e
      using that by (auto simp: defs Let_def dest: rram_write_mem(2) split: sum.splits prod.splits)
    show "ok (snd (mc_increment ?C r))" if "ok r"
      using that by (auto simp: defs Let_def dest: rram_write_mem(3) split: sum.splits prod.splits)
    show "?val (snd (mc_refund ?C r)) = ?val r \<or> ?val (snd (mc_refund ?C r)) = sat_sub32 (?val r) 1"
    proof (cases "rram_counter_read R phys r")
      case (Inr v)
      obtain x r' where w: "rram_write R phys (u32_le (sat_sub32 v 1)) r = (x, r')" by fastforce
      with Inr rd [OF Inr] wr [of "sat_sub32 v 1" r r'] rram_write_mem(2) [of phys "u32_le (sat_sub32 v 1)" r _ r']
      show ?thesis by (cases x) (auto simp: defs)
    qed (simp add: defs)
    show "ok (snd (mc_refund ?C r))" if "ok r"
      using that by (auto simp: defs dest: rram_write_mem(3) split: sum.splits prod.splits)
        (metis prod.collapse rram_write_mem(3))
    show "?val (snd (mc_refund ?C r)) = sat_sub32 (?val r) 1" if "ok r"
      using rd_ok [OF that] rram_write_in [OF that, of phys "u32_le (sat_sub32 (?val r) 1)"] assms [of r]
        wr [of "sat_sub32 (?val r) 1" r]
      by (auto simp: defs)
  qed
qed

end

section \<open>Boot\<close>

lemma magic_lengths [simp]:
  "length CCID_PINPROV_USER_MAGIC = 4" "length CCID_PINPROV_ADMIN_MAGIC = 4" "length OPENPGP_MASTER_MAGIC = 4"
  by (simp_all add: CCID_PINPROV_USER_MAGIC_def CCID_PINPROV_ADMIN_MAGIC_def OPENPGP_MASTER_MAGIC_def)

lemma pin_machine_new_pstate: "pstate (pin_machine_new cfg) \<noteq> Bricked" "config (pin_machine_new cfg) = cfg"
  by (simp_all add: pin_machine_new_def)

lemma load_key_fields:
  "vb_user_verifier (load_sig_key E buf b) = vb_user_verifier b"
  "vb_user_verifier (load_dec_key E buf b) = vb_user_verifier b"
  "vb_user_verifier (load_aut_key E buf b) = vb_user_verifier b"
  "vb_admin_verifier (load_sig_key E buf b) = vb_admin_verifier b"
  "vb_admin_verifier (load_dec_key E buf b) = vb_admin_verifier b"
  "vb_admin_verifier (load_aut_key E buf b) = vb_admin_verifier b"
  "vb_user_machine (load_sig_key E buf b) = vb_user_machine b"
  "vb_user_machine (load_dec_key E buf b) = vb_user_machine b"
  "vb_user_machine (load_aut_key E buf b) = vb_user_machine b"
  "vb_termination (load_sig_key E buf b) = vb_termination b"
  "vb_termination (load_dec_key E buf b) = vb_termination b"
  "vb_termination (load_aut_key E buf b) = vb_termination b"
  "vb_world (load_sig_key E buf b) = vb_world b"
  "vb_world (load_dec_key E buf b) = vb_world b"
  "vb_world (load_aut_key E buf b) = vb_world b"
  by (auto simp: load_sig_key_def load_dec_key_def load_aut_key_def
      split: sum.splits algorithm_attributes.splits)

lemma load_private_keys_fields:
  assumes "load_private_keys E b = (Inr u, b')"
  shows "vb_user_verifier b' = vb_user_verifier b" "vb_admin_verifier b' = vb_admin_verifier b"
    "vb_user_machine b' = vb_user_machine b" "vb_termination b' = vb_termination b"
  using assms by (auto simp: load_private_keys_def Let_def load_key_fields split: sum.splits)

lemma vault_backend_new_fields:
  assumes "vault_backend_new E u a mu ma w = Inr b"
  shows "vb_user_verifier b = pin_bytes_to_verifier_digest (sha256 (env_crypto E)) u"
    "vb_admin_verifier b = pin_bytes_to_verifier_digest (sha256 (env_crypto E)) a"
    "vb_user_machine b = mu" "vb_termination b = False"
proof -
  from assms obtain w3 x where "load_private_keys E
      (vault_backend_blank (pin_bytes_to_verifier_digest (sha256 (env_crypto E)) u)
        (pin_bytes_to_verifier_digest (sha256 (env_crypto E)) a) mu ma w3) = (Inr x, b)"
    by (auto simp: vault_backend_new_def Let_def split: sum.splits prod.splits)
  note f = load_private_keys_fields [OF this]
  show "vb_user_verifier b = pin_bytes_to_verifier_digest (sha256 (env_crypto E)) u"
    "vb_admin_verifier b = pin_bytes_to_verifier_digest (sha256 (env_crypto E)) a"
    "vb_user_machine b = mu" "vb_termination b = False"
    by (simp_all add: f vault_backend_blank_def)
qed

lemma open_sets_zeroise:
  "st_pin_zeroise (snd (open_or_provision_backend R T C bf base trng_ok mk aid u a st w)) \<noteq> None"
  by (auto simp: open_or_provision_backend_def init_pin_zeroise_singleton_def install_openpgp_rram_def Let_def
      split: option.splits sum.splits prod.splits)

lemma open_again_fails:
  "st_pin_zeroise st \<noteq> None \<Longrightarrow> fst (open_or_provision_backend R T C bf base trng_ok mk aid u a st w) = Inl Bus"
  by (auto simp: open_or_provision_backend_def init_pin_zeroise_singleton_def)

context rram_contract
begin

lemma write_pins:
  assumes "ok r" "base + openpgp_vault_logical_span_end \<le> length (mem r)"
    and "u \<noteq> []" "length u \<le> 32" "a \<noteq> []" "length a \<le> 32"
  shows "\<exists>r'. write_provisioning_pins R base u a r = (Inr (), r') \<and> ok r'
    \<and> length (mem r') = length (mem r)
    \<and> slice (base + pin_provision_user_logical_off) 37 (mem r') = pin_record CCID_PINPROV_USER_MAGIC u
    \<and> slice (base + pin_provision_admin_logical_off) 37 (mem r') = pin_record CCID_PINPROV_ADMIN_MAGIC a
    \<and> take (base + pin_provision_user_logical_off) (mem r') = take (base + pin_provision_user_logical_off) (mem r)
    \<and> drop (base + openpgp_vault_logical_span_end) (mem r') = drop (base + openpgp_vault_logical_span_end) (mem r)"
proof -
  let ?uo = "base + pin_provision_user_logical_off" and ?ao = "base + pin_provision_admin_logical_off"
  let ?ru = "pin_record CCID_PINPROV_USER_MAGIC u" and ?ra = "pin_record CCID_PINPROV_ADMIN_MAGIC a"
  have off: "?ao = ?uo + 37" "base + openpgp_vault_logical_span_end = ?uo + 74"
    by (simp_all add: rram_layout)
  have len: "length ?ru = 37" "length ?ra = 37" "?uo + 37 \<le> length (mem r)" "?ao + 37 \<le> length (mem r)"
    using assms off by simp_all
  obtain r1 where r1: "rram_write R ?uo ?ru r = (Inr (), r1)" "ok r1" "mem r1 = splice (mem r) ?uo ?ru"
    using rram_write_in [of r ?uo ?ru] assms(1) len by auto
  obtain r2 where r2: "rram_write R ?ao ?ra r1 = (Inr (), r2)" "ok r2" "mem r2 = splice (mem r1) ?ao ?ra"
    using rram_write_in [of r1 ?ao ?ra] r1 len by auto
  have "write_provisioning_pins R base u a r = (Inr (), r2)"
    using assms r1(1) r2(1) by (simp add: write_provisioning_pins_def CCID_PIN_PROVISION_PAYLOAD_MAX_BYTES_def)
  moreover have "slice ?ao 37 (mem r2) = ?ra"
    using len r1(3) by (simp add: r2(3) slice_splice_same)
  moreover have "slice ?uo 37 (mem r2) = ?ru"
    using len off r1(3) by (simp add: r2(3) slice_splice_same slice_splice_disjoint)
  moreover have "take ?uo (mem r2) = take ?uo (mem r)" "drop (?uo + 74) (mem r2) = drop (?uo + 74) (mem r)"
    using len off(1) by (simp_all add: r2(3) r1(3) splice_def min_def add_ac)
  moreover have "length (mem r2) = length (mem r)"
    using r1(1) r2(1) by (simp add: rram_write_length)
  ultimately show ?thesis using r2(2) unfolding off(2) by blast
qed

lemma pin_record_loads:
  assumes "ok r" "base + off + 37 \<le> length (mem r)" "slice (base + off) 37 (mem r) = pin_record magic pin"
    and "pin \<noteq> []" "length pin \<le> 32" "length magic = 4"
  shows "pin_provision_record_valid R base magic off r"
    and "bw_rram w = r \<Longrightarrow> load_or_provision_ccid_pin R next_u32 bf base magic off w = (Inr pin, w)"
proof -
  have rd: "rram_read_bytes R r (base + off) CCID_PIN_PROVISION_SLOT_BYTES = Inr (pin_record magic pin)"
    using read_in [OF assms(1,2)] assms(3) by (simp add: rram_layout)
  have n: "unat (of_nat (length pin) :: u8) = length pin"
    using assms(5) by (simp add: unat_of_nat)
  note f = pin_record_fields [OF assms(5,6)]
  show "pin_provision_record_valid R base magic off r"
    using assms(4,5) by (simp add: pin_provision_record_valid_def rd f n CCID_PIN_PROVISION_PAYLOAD_MAX_BYTES_def)
  show "load_or_provision_ccid_pin R next_u32 bf base magic off w = (Inr pin, w)" if "bw_rram w = r"
    using assms(4,5) that
    by (simp add: load_or_provision_ccid_pin_def rd f n CCID_PIN_PROVISION_PAYLOAD_MAX_BYTES_def)
qed

lemma clear_slots_in:
  assumes "ok r" "\<And>r. base + openpgp_vault_logical_span_end \<le> length (mem r)"
  shows "\<exists>r'. clear_ccid_pin_provision_slots R base r = (Inr (), r') \<and> ok r'"
proof -
  have len: "base + pin_provision_user_logical_off + CCID_PIN_PROVISION_SLOT_BYTES \<le> length (mem x)"
    "base + pin_provision_admin_logical_off + CCID_PIN_PROVISION_SLOT_BYTES \<le> length (mem x)" for x
    using assms(2) [of x] by (simp_all add: rram_layout)
  obtain r1 where "zero_rram_window R (base + pin_provision_user_logical_off) CCID_PIN_PROVISION_SLOT_BYTES r = (Inr (), r1)"
    and ok1: "ok r1"
    using zero_window_in [OF assms(1) len(1)] by blast
  with zero_window_in [OF ok1 len(2)] show ?thesis
    by (auto simp: clear_ccid_pin_provision_slots_def)
qed

lemma clear_slots:
  assumes "clear_ccid_pin_provision_slots R base r = (Inr (), r')"
  shows "mem r' = splice (mem r) (base + pin_provision_user_logical_off) (replicate 74 0)"
    "base + openpgp_vault_logical_span_end \<le> length (mem r)"
proof -
  let ?uo = "base + pin_provision_user_logical_off"
  have off: "base + pin_provision_admin_logical_off = ?uo + 37" "base + openpgp_vault_logical_span_end = ?uo + 74"
    "CCID_PIN_PROVISION_SLOT_BYTES = 37"
    by (simp_all add: rram_layout)
  from assms obtain r1 where 1: "zero_rram_window R ?uo 37 r = (Inr (), r1)"
    and 2: "zero_rram_window R (?uo + 37) 37 r1 = (Inr (), r')"
    by (auto simp: clear_ccid_pin_provision_slots_def off(1,3) split: prod.splits sum.splits)
  from zero_window_mem [OF 1] zero_window_mem [OF 2]
  have *: "?uo + 37 \<le> length (mem r)" "mem r1 = splice (mem r) ?uo (replicate 37 0)"
    "?uo + 37 + 37 \<le> length (mem r1)" "mem r' = splice (mem r1) (?uo + 37) (replicate 37 0)"
    by simp_all
  then have in_range: "?uo + 37 + 37 \<le> length (mem r)" by simp
  with * splice_zeros [OF in_range, of 0] show "mem r' = splice (mem r) ?uo (replicate 74 0)"
    by simp
  from in_range show "base + openpgp_vault_logical_span_end \<le> length (mem r)" by (simp add: off(2))
qed

end

section \<open>First boot\<close>

lemma card_dom_update: "card (dom (m(t \<mapsto> v) :: u16 \<rightharpoonup> 'v)) \<le> Suc (card (dom m))"
  by (simp add: card_insert_le_m1 card_insert_if)

context do_region
begin

lemma write_defaults_in:
  assumes "rinv w" "\<forall>(t, v)\<in>set ps. t \<noteq> 0 \<and> length v \<le> 254"
    "card (dom (do_content base (vs_mem w))) + length ps \<le> SLOT_COUNT"
  shows "\<exists>w'. write_defaults vs base ps w = (Inr (), w') \<and> rinv w'"
  using assms
proof (induction ps arbitrary: w)
  case (Cons p ps)
  obtain t v where p: "p = (t, v)" by (cases p)
  obtain r w1 where d: "do_write vs base w t v = (r, w1)" by fastforce
  from do_write_law [OF Cons.prems(1), of t v] Cons.prems(2,3) p d
  have w1: "r = Inr ()" "rinv w1" "do_content base (vs_mem w1) = (do_content base (vs_mem w))(t \<mapsto> v)"
    by (auto split: if_splits)
  have "card (dom (do_content base (vs_mem w1))) + length ps \<le> SLOT_COUNT"
    using Cons.prems(3) card_dom_update [of "do_content base (vs_mem w)" t v] by (simp only: w1(3)) simp
  with Cons.IH [OF w1(2)] Cons.prems(2) d p w1(1) show ?case by simp
qed simp

lemma seed_fresh:
  assumes "rinv w" "\<not> do_header_ok base (vs_mem w)"
  shows "\<exists>w'. seed_defaults_if_fresh vs base w = (Inr (), w') \<and> rinv w'"
proof -
  have oid: "push_all 16 [] BRAINPOOL_P256R1 = Some BRAINPOOL_P256R1"
    by (simp add: push_all_eq BRAINPOOL_P256R1_def)
  obtain c1 c2 where c: "attributes_to_bytes (Ecdsa BRAINPOOL_P256R1) = Inr c1" "length c1 \<le> 254"
      "attributes_to_bytes (Ecdh BRAINPOOL_P256R1) = Inr c2" "length c2 \<le> 254"
    by (simp add: BRAINPOOL_P256R1_def push_all_eq)
  have "do_content base (vs_mem w) = Map.empty"
    using assms(2) by (simp add: do_content_def fun_eq_iff)
  then have "\<exists>w'. write_defaults vs base
      [(0xC1, c1), (0xC2, c2), (0xC3, c1), (0xC4, DEFAULT_PW_STATUS_BYTES), (0x93, [0x00, 0x00, 0x00])] w
        = (Inr (), w') \<and> rinv w'"
    using assms(1) c by (intro write_defaults_in) (simp_all add: DEFAULT_PW_STATUS_BYTES_def)
  with c oid assms probe_in [OF assms(1)] show ?thesis
    by (simp add: seed_defaults_if_fresh_def init_production_defaults_def)
qed

end

lemma load_private_keys_in:
  assumes "vault_contract (env_key E) vmem vok" "vok (vb_world b)" "SEALED_KEY_REGION_END \<le> length (vmem (vb_world b))"
  shows "\<exists>b'. load_private_keys E b = (Inr (), b') \<and> vb_world b' = vb_world b"
proof -
  have rd: "vs_read (env_key E) (vb_world b) off SEALED_BLOB_BYTES = Inr (slice off SEALED_BLOB_BYTES (vmem (vb_world b)))"
    if "off + SEALED_BLOB_BYTES \<le> SEALED_KEY_REGION_END" for off
    using vault_contract.read_in [OF assms(1,2), of off SEALED_BLOB_BYTES] assms(3) that by simp
  have "SEALED_SIG_OFFSET + SEALED_BLOB_BYTES \<le> SEALED_KEY_REGION_END"
    "SEALED_DEC_OFFSET + SEALED_BLOB_BYTES \<le> SEALED_KEY_REGION_END"
    "SEALED_AUT_OFFSET + SEALED_BLOB_BYTES \<le> SEALED_KEY_REGION_END"
    by (simp_all add: sealed_layout_defs)
  note rds = rd [OF this(1)] rd [OF this(2)] rd [OF this(3)]
  show ?thesis
    by (simp add: load_private_keys_def Let_def load_key_fields rds)
qed

lemma do_header_splice:
  assumes "off + length d \<le> length m" "b + 5 \<le> off"
  shows "do_header_ok b (splice m off d) = do_header_ok b m"
  using assms by (simp add: do_header_ok_def slice_splice_disjoint nth_splice)

lemma vault_backend_new_in:
  assumes vault: "rram_vault R mem ok base" and ok: "ok (bw_rram w)"
    and len: "\<And>r. base + openpgp_vault_logical_span_end \<le> length (mem r)"
    and fresh: "\<not> do_header_ok OPENPGP_DO_STORE_LOGICAL (drop base (mem (bw_rram w)))"
    and sha: "\<And>m. length (sha256 C m) = 32"
  shows "\<exists>b. vault_backend_new (baochip_env R T C base st mk aid) u a mu ma w = Inr b
    \<and> ok (bw_rram (vb_world b))"
proof -
  let ?E = "baochip_env R T C base st mk aid" and ?S = "rram_via (RramVaultStorage R base)"
  let ?m = "\<lambda>w. drop base (mem (bw_rram w))" and ?ok = "\<lambda>w. ok (bw_rram w)"
  have S: "vault_contract ?S ?m ?ok"
    by (rule vault_via_contract [OF rram_vault.storage_axioms [OF vault]]) simp
  have region: "do_region ?S ?m ?ok" using S by (simp add: do_region_def)
  let ?u = "sha256 C u" and ?a = "sha256 C a"
  have off: "pin_user_logical_off + 32 \<le> length (?m w)" "pin_admin_logical_off + 32 \<le> length (?m w)"
    "OPENPGP_DO_STORE_LOGICAL + 5 \<le> pin_user_logical_off" "OPENPGP_DO_STORE_LOGICAL + 5 \<le> pin_admin_logical_off"
    "OPENPGP_DO_STORE_LOGICAL + DO_STORE_REGION_BYTES \<le> length (?m w)" "SEALED_KEY_REGION_END \<le> length (?m w)"
    using len [of "bw_rram w"] by (simp_all add: rram_layout sealed_layout_defs)
  obtain w1 where w1: "vs_write ?S w pin_user_logical_off ?u = (Inr (), w1)" "?ok w1"
      "?m w1 = splice (?m w) pin_user_logical_off ?u"
    using vault_contract.write_in [OF S, of w pin_user_logical_off ?u] vault_contract.write_mem [OF S, of w pin_user_logical_off ?u]
      vault_contract.write_ok [OF S, of w pin_user_logical_off ?u] ok off(1) sha by (cases "vs_write ?S w pin_user_logical_off ?u") auto
  have l1: "length (?m w1) = length (?m w)" using w1(3) off(1) sha by simp
  obtain w2 where w2: "vs_write ?S w1 pin_admin_logical_off ?a = (Inr (), w2)" "?ok w2"
      "?m w2 = splice (?m w1) pin_admin_logical_off ?a"
    using vault_contract.write_in [OF S, of w1 pin_admin_logical_off ?a] vault_contract.write_mem [OF S, of w1 pin_admin_logical_off ?a]
      vault_contract.write_ok [OF S, of w1 pin_admin_logical_off ?a] w1(2) l1 off(2) sha
    by (cases "vs_write ?S w1 pin_admin_logical_off ?a") auto
  have l2: "length (?m w2) = length (?m w)" using w2(3) l1 off(2) sha by simp
  have "\<not> do_header_ok OPENPGP_DO_STORE_LOGICAL (?m w2)"
    using fresh w1(3) w2(3) l1 off(1-4) sha by (simp add: do_header_splice)
  then obtain w3 where w3: "seed_defaults_if_fresh ?S OPENPGP_DO_STORE_LOGICAL w2 = (Inr (), w3)"
      "do_region_inv ?ok ?m OPENPGP_DO_STORE_LOGICAL w3"
    using do_region.seed_fresh [OF region, of OPENPGP_DO_STORE_LOGICAL w2] w2(2) l2 off(5)
    by (auto simp: do_region_inv_def do_inv_def)
  have "SEALED_KEY_REGION_END \<le> length (?m w3)"
    using len [of "bw_rram w3"] by (simp add: rram_layout sealed_layout_defs)
  then obtain b where "load_private_keys ?E (vault_backend_blank ?u ?a mu ma w3) = (Inr (), b)" "vb_world b = w3"
    using load_private_keys_in [of ?E ?m ?ok "vault_backend_blank ?u ?a mu ma w3"] S w3(2)
    by (auto simp: baochip_env_def vault_backend_blank_def do_region_inv_def)
  with w1(1) w2(1) w3 show ?thesis
    by (simp add: vault_backend_new_def baochip_env_def Let_def pin_bytes_to_verifier_digest_def do_region_inv_def)
qed

lemma baochip_user_counter:
  assumes "rram_contract R mem ok" and "\<And>r. base + openpgp_vault_logical_span_end \<le> length (mem r)"
    and "st_user_ctr_phys st = base + user_ctr_logical_off"
  shows "counter_contract (env_user_counter (baochip_env R T C base st mk aid))
      (\<lambda>w. rd_u32_le (slice (base + user_ctr_logical_off) 4 (mem (bw_rram w))) 0) (\<lambda>w. ok (bw_rram w))"
proof -
  have "base + user_ctr_logical_off + 4 \<le> length (mem r)" for r
    using assms(2) [of r] by (simp add: rram_layout)
  moreover have "env_user_counter (baochip_env R T C base st mk aid) =
      counter_of (RramMonotonicCounter R (base + user_ctr_logical_off))"
    by (simp add: baochip_env_def new_user_counter_def assms(3))
  ultimately show ?thesis
    using assms(1)
    by (simp only:) (intro refunding_counter.axioms(1) counter_via_contract rram_contract.counter_is_refunding, simp_all)
qed

lemma first_boot_in:
  assumes "rram_vault R mem ok base" and "\<And>r. base + openpgp_vault_logical_span_end \<le> length (mem r)"
    and "ok (bw_rram w)" and "\<And>m. length (sha256 C m) = 32"
    and "ccid_pin_hashes_unprovisioned R base (bw_rram w)"
    and "provision_slots_have_valid_pins R base (bw_rram w)"
    and "\<not> do_header_ok OPENPGP_DO_STORE_LOGICAL (drop base (mem (bw_rram w)))"
    and "length u \<le> 32" and "length a \<le> 32" and "st_pin_zeroise st = None"
  shows "\<exists>b st'. open_or_provision_backend R T C bf base True mk aid u a st w = (Inr b, st')
    \<and> slice (base + pin_provision_user_logical_off) 74 (mem (bw_rram (vb_world b))) = replicate 74 0
    \<and> vb_user_verifier b = sha256 C u \<and> vb_admin_verifier b = sha256 C a
    \<and> (rd_u32_le (slice (base + user_ctr_logical_off) 4 (mem (bw_rram (vb_world b)))) 0
        < DEFAULT_MAX_PIN_ATTEMPTS \<longrightarrow>
       fst (verify_user (baochip_env R T C base st' mk aid) u b) = Inr ())"
proof -
  have rc: "rram_contract R mem ok" using assms(1) by (rule rram_vault.axioms(1))
  define st' where "st' = install_openpgp_rram (base + user_ctr_logical_off) (base + admin_ctr_logical_off)
    (st\<lparr>st_pin_zeroise := Some \<lparr>bz_phys_base = base, bz_span = openpgp_vault_logical_span_end\<rparr>\<rparr>)"
  let ?E = "baochip_env R T C base st' mk aid" and ?pm = "pin_machine_new pin_policy_config_default"
  obtain b0 where new: "vault_backend_new ?E u a ?pm ?pm w = Inr b0" and ok0: "ok (bw_rram (vb_world b0))"
    using vault_backend_new_in [OF assms(1,3,2,7,4)] by blast
  obtain r' where clear: "clear_ccid_pin_provision_slots R base (bw_rram (vb_world b0)) = (Inr (), r')" and ok': "ok r'"
    using rram_contract.clear_slots_in [OF rc ok0 assms(2)] by blast
  let ?b = "b0\<lparr>vb_world := (vb_world b0)\<lparr>bw_rram := r'\<rparr>\<rparr>"
  have run: "open_or_provision_backend R T C bf base True mk aid u a st w = (Inr ?b, st')"
    using assms(5,6,8,9,10) new clear
    by (simp add: open_or_provision_backend_def init_pin_zeroise_singleton_def st'_def Let_def
        ccid_pin_hashes_unprovisioned_def CCID_PIN_PROVISION_PAYLOAD_MAX_BYTES_def)
  note f = vault_backend_new_fields [OF new]
  have E: "env_crypto ?E = C" "st_user_ctr_phys st' = base + user_ctr_logical_off"
    by (simp_all add: baochip_env_def st'_def install_openpgp_rram_def)
  note v = verify_user_verdict(1) [OF baochip_user_counter [OF rc assms(2) E(2)], of ?b T C mk aid u]
  have "fst (verify_user ?E u ?b) = Inr ()"
    if "rd_u32_le (slice (base + user_ctr_logical_off) 4 (mem r')) 0 < DEFAULT_MAX_PIN_ATTEMPTS"
    using v that ok' f E(1)
    by (simp add: pin_machine_new_pstate pin_policy_config_default_def DEFAULT_MAX_PIN_ATTEMPTS_def
        pin_verdict_def not_le pin_bytes_to_verifier_digest_def)
  moreover have "slice (base + pin_provision_user_logical_off) 74 (mem r') = replicate 74 0"
    using rram_contract.clear_slots [OF rc clear] by (simp add: slice_splice_same rram_layout)
  ultimately show ?thesis
    using run f E(1) by (intro exI [of _ ?b] exI [of _ st']) (simp add: pin_bytes_to_verifier_digest_def)
qed

lemma slice_of_take: "off + n \<le> k \<Longrightarrow> slice off n (take k xs) = slice off n xs"
  by (simp add: slice_def drop_take min_def)

text \<open>Writing the provision records leaves a memory on which the first boot succeeds.\<close>

lemma write_pins_ready:
  assumes "rram_contract R mem ok" and "ok r" and len: "\<And>r. base + openpgp_vault_logical_span_end \<le> length (mem r)"
    and "u \<noteq> []" "length u \<le> 32" "a \<noteq> []" "length a \<le> 32"
  shows "\<exists>r'. write_provisioning_pins R base u a r = (Inr (), r') \<and> ok r'
    \<and> provision_slots_have_valid_pins R base r'
    \<and> ccid_pin_hashes_unprovisioned R base r' = ccid_pin_hashes_unprovisioned R base r
    \<and> do_header_ok OPENPGP_DO_STORE_LOGICAL (drop base (mem r')) = do_header_ok OPENPGP_DO_STORE_LOGICAL (drop base (mem r))"
proof -
  let ?k = "base + pin_provision_user_logical_off"
  obtain r' where r': "write_provisioning_pins R base u a r = (Inr (), r')" "ok r'"
    "slice ?k 37 (mem r') = pin_record CCID_PINPROV_USER_MAGIC u"
    "slice (base + pin_provision_admin_logical_off) 37 (mem r') = pin_record CCID_PINPROV_ADMIN_MAGIC a"
    "take ?k (mem r') = take ?k (mem r)"
    using rram_contract.write_pins [OF assms(1,2) len assms(4-)] by blast
  have same: "slice off n (mem r') = slice off n (mem r)" if "off + n \<le> ?k" for off n
    using slice_of_take [OF that, of "mem r'"] slice_of_take [OF that, of "mem r"] r'(5) by simp
  have in_range: "?k + 37 \<le> length (mem x)" "base + pin_provision_admin_logical_off + 37 \<le> length (mem x)"
    "base + pin_user_logical_off + 32 \<le> length (mem x)" "base + pin_admin_logical_off + 32 \<le> length (mem x)"
    "base + OPENPGP_DO_STORE_LOGICAL + 5 \<le> length (mem x)" for x
    using len [of x] by (simp_all add: rram_layout)
  have "pin_digest_unprovisioned R off r' = pin_digest_unprovisioned R off r"
    if "off + 32 \<le> ?k" "off + 32 \<le> length (mem r)" "off + 32 \<le> length (mem r')" for off
    using rram_contract.read_in [OF assms(1,2) that(2)] rram_contract.read_in [OF assms(1) r'(2) that(3)] same [OF that(1)]
    by (simp add: pin_digest_unprovisioned_def)
  then have "ccid_pin_hashes_unprovisioned R base r' = ccid_pin_hashes_unprovisioned R base r"
    using in_range by (simp add: ccid_pin_hashes_unprovisioned_def) (simp add: rram_layout)
  moreover have "do_header_ok OPENPGP_DO_STORE_LOGICAL (drop base (mem r')) = do_header_ok OPENPGP_DO_STORE_LOGICAL (drop base (mem r))"
  proof -
    have s: "slice OPENPGP_DO_STORE_LOGICAL 5 (drop base (mem r')) = slice OPENPGP_DO_STORE_LOGICAL 5 (drop base (mem r))"
      using same [of "base + OPENPGP_DO_STORE_LOGICAL" 5] by (simp add: slice_def rram_layout add.commute)
    have h: "do_header_ok b m \<longleftrightarrow> take 4 (slice b 5 m) = DO_STORE_MAGIC \<and> slice b 5 m ! 4 = DO_VERSION"
      if "b + 5 \<le> length m" for b and m :: bytes
      using that by (simp add: do_header_ok_def slice_def)
    show ?thesis using in_range(5) [of r] in_range(5) [of r'] s by (simp add: h)
  qed
  moreover have "provision_slots_have_valid_pins R base r'"
    using rram_contract.pin_record_loads(1) [OF assms(1) r'(2) in_range(1) r'(3) assms(4,5) magic_lengths(1)]
      rram_contract.pin_record_loads(1) [OF assms(1) r'(2) in_range(2) r'(4) assms(6,7) magic_lengths(2)]
    by (simp add: provision_slots_have_valid_pins_def)
  ultimately show ?thesis using r'(1,2) by blast
qed

section \<open>A memory that keeps the contract\<close>

text \<open>The driver is outside the repository; a plain 4 MiB array shows that its contract can be met.\<close>

definition flat_mem :: "(nat \<Rightarrow> u8) \<Rightarrow> bytes" where "flat_mem r = map r [0..<4194304]"

definition flat_rram :: "(nat \<Rightarrow> u8) reram" where
  "flat_rram = \<lparr>
     ra_array = (\<lambda>r phys. if phys < 4194304 then Inr (r phys, map r [Suc phys..<4194304]) else Inl ()),
     ra_write_slice = (\<lambda>phys d r.
       if phys + length d \<le> 4194304
       then (Inr (), \<lambda>i. if phys \<le> i \<and> i < phys + length d then d ! (i - phys) else r i)
       else (Inl (), r))\<rparr>"

lemma length_flat_mem [simp]: "length (flat_mem r) = 4194304"
  by (simp add: flat_mem_def)

lemma slice_flat_mem: "off + n \<le> 4194304 \<Longrightarrow> slice off n (flat_mem r) = map r [off..<off + n]"
  by (simp add: flat_mem_def slice_def drop_map take_map drop_upt take_upt)

interpretation flat: rram_vault flat_rram flat_mem "\<lambda>_. True" "0x20000"
proof
  fix r phys d
  show "\<exists>x. ra_array flat_rram r phys = Inr x" if "phys < length (flat_mem r)"
    using that by (simp add: flat_rram_def)
  show "phys + Suc (length bs) \<le> length (flat_mem r) \<and> slice phys (Suc (length bs)) (flat_mem r) = b # bs"
    if "ra_array flat_rram r phys = Inr (b, bs)" for b bs
  proof -
    from that have bs: "phys < 4194304" "b = r phys" "bs = map r [Suc phys..<4194304]"
      by (auto simp: flat_rram_def split: if_splits)
    then have "Suc (length bs) = 4194304 - phys" by simp
    with bs slice_flat_mem [of phys "4194304 - phys" r] upt_conv_Cons [of phys 4194304] show ?thesis by simp
  qed
  show "fst (ra_write_slice flat_rram phys d r) = Inr ()" if "phys + length d \<le> length (flat_mem r)"
    using that by (simp add: flat_rram_def)
  show "phys + length d \<le> length (flat_mem r)
      \<and> flat_mem (snd (ra_write_slice flat_rram phys d r)) = splice (flat_mem r) phys d"
    if "fst (ra_write_slice flat_rram phys d r) = Inr ()"
  proof -
    have le: "phys + length d \<le> 4194304" using that by (auto simp: flat_rram_def split: if_splits)
    moreover have "flat_mem (snd (ra_write_slice flat_rram phys d r)) = splice (flat_mem r) phys d"
      by (rule nth_equalityI) (use le in \<open>auto simp: nth_splice flat_rram_def flat_mem_def\<close>)
    ultimately show ?thesis by simp
  qed
qed (auto simp: flat_rram_def split: if_splits)

lemma flat_zero: "off + n \<le> 4194304 \<Longrightarrow> slice off n (flat_mem (\<lambda>_. 0)) = replicate n 0"
  by (simp add: slice_flat_mem map_replicate_const)

lemma flat_blank:
  "ccid_pin_hashes_unprovisioned flat_rram 0x20000 (\<lambda>_. 0)"
  "\<not> do_header_ok OPENPGP_DO_STORE_LOGICAL (drop 0x20000 (flat_mem (\<lambda>_. 0)))"
proof -
  show "ccid_pin_hashes_unprovisioned flat_rram 0x20000 (\<lambda>_. 0)"
    using flat.read_in [where r = "\<lambda>_. 0" and phys = "0x20000 + pin_user_logical_off" and n = 32]
      flat_zero [of "0x20000 + pin_user_logical_off" 32]
    by (simp add: ccid_pin_hashes_unprovisioned_def pin_digest_unprovisioned_def rram_layout list_all_length)
  have "slice OPENPGP_DO_STORE_LOGICAL 4 (drop 0x20000 (flat_mem (\<lambda>_. 0))) = replicate 4 0"
    using flat_zero [of "0x20000 + OPENPGP_DO_STORE_LOGICAL" 4] by (simp add: slice_def rram_layout)
  moreover have "replicate 4 0 \<noteq> DO_STORE_MAGIC" by code_simp
  ultimately show "\<not> do_header_ok OPENPGP_DO_STORE_LOGICAL (drop 0x20000 (flat_mem (\<lambda>_. 0)))"
    unfolding do_header_ok_def by metis
qed

section \<open>Properties\<close>

text \<open>
  (C21) The storage and the attempt counters of the target keep the contracts that the vault and the PIN
  policy are verified against, for every driver that keeps its own: reads return the memory, writes
  change exactly their slice, an increment stores the saturating successor and a refund takes it back.
\<close>

theorem rram_implements_traits:
  assumes "rram_vault R mem ok base" and "\<And>r. phys + 4 \<le> length (mem r)"
  shows "vault_contract (RramVaultStorage R base) (\<lambda>r. drop base (mem r)) ok
    \<and> refunding_counter (RramMonotonicCounter R phys) (\<lambda>r. rd_u32_le (slice phys 4 (mem r)) 0) ok"
proof
  show "vault_contract (RramVaultStorage R base) (\<lambda>r. drop base (mem r)) ok"
    using assms(1) by (rule rram_vault.storage_axioms)
  show "refunding_counter (RramMonotonicCounter R phys) (\<lambda>r. rd_u32_le (slice phys 4 (mem r)) 0) ok"
    using rram_vault.axioms(1) [OF assms(1)] assms(2) by (rule rram_contract.counter_is_refunding)
qed

theorem rram_implements_traits_witness:
  "vault_contract (RramVaultStorage flat_rram 0x20000) (\<lambda>r. drop 0x20000 (flat_mem r)) (\<lambda>_. True)
   \<and> refunding_counter (RramMonotonicCounter flat_rram (0x20000 + user_ctr_logical_off))
       (\<lambda>r. rd_u32_le (slice (0x20000 + user_ctr_logical_off) 4 (flat_mem r)) 0) (\<lambda>_. True)"
  by (rule rram_implements_traits [OF flat.rram_vault_axioms]) (simp add: rram_layout)

text \<open>
  (C22) Exceeding the PIN limit erases the vault: once the backend has been built, the zeroisation hook
  overwrites the whole OpenPGP window, from the public-key table over sealed keys, data objects, PIN
  digests and attempt counters to the master-key salt and provision records, with zeros. It erases
  exactly this window: what is stored behind it, such as the contact store and the session signing keys,
  is left as it was.
\<close>

theorem zeroisation_erases_window:
  assumes "rram_contract R mem ok" and "ok r" and "base + openpgp_vault_logical_span_end \<le> length (mem r)"
    and "st_pin_zeroise st = Some \<lparr>bz_phys_base = base, bz_span = openpgp_vault_logical_span_end\<rparr>"
  shows "mem (trigger_zeroisation R st r) =
    take base (mem r) @ replicate openpgp_vault_logical_span_end 0
      @ drop (base + openpgp_vault_logical_span_end) (mem r)"
proof -
  obtain r' where "zero_rram_window R base openpgp_vault_logical_span_end r = (Inr (), r')"
    using rram_contract.zero_window_in [OF assms(1-3)] by blast
  with rram_contract.zero_window_mem [OF assms(1) this] assms(4) show ?thesis
    by (simp add: trigger_zeroisation_def zeroise_region_def splice_def)
qed

theorem zeroisation_erases_window_witness:
  "flat_mem (trigger_zeroisation flat_rram
      (statics_initial\<lparr>st_pin_zeroise := Some \<lparr>bz_phys_base = 0, bz_span = openpgp_vault_logical_span_end\<rparr>\<rparr>) (\<lambda>_. 7)) =
    replicate openpgp_vault_logical_span_end 0 @ drop openpgp_vault_logical_span_end (flat_mem (\<lambda>_. 7))"
  using zeroisation_erases_window [OF flat.rram_contract_axioms, where r = "\<lambda>_. 7" and base = 0
      and st = "statics_initial\<lparr>st_pin_zeroise := Some \<lparr>bz_phys_base = 0, bz_span = openpgp_vault_logical_span_end\<rparr>\<rparr>"]
  by (simp add: rram_layout)

text \<open>
  PINs of 1 to 32 bytes written to the provision records are found valid and read back exactly by
  the boot code, and nothing else of the memory changes.
\<close>

theorem provisioned_pins_load_back:
  assumes "rram_contract R mem ok" and "ok (bw_rram w)"
    and "base + openpgp_vault_logical_span_end \<le> length (mem (bw_rram w))"
    and "u \<noteq> []" "length u \<le> 32" "a \<noteq> []" "length a \<le> 32"
  shows "\<exists>r'. write_provisioning_pins R base u a (bw_rram w) = (Inr (), r')
    \<and> provision_slots_have_valid_pins R base r'
    \<and> load_or_provision_ccid_user_pin_bytes R draw bf base (w\<lparr>bw_rram := r'\<rparr>) = (Inr u, w\<lparr>bw_rram := r'\<rparr>)
    \<and> load_or_provision_ccid_admin_pin_bytes R draw bf base (w\<lparr>bw_rram := r'\<rparr>) = (Inr a, w\<lparr>bw_rram := r'\<rparr>)
    \<and> take (base + pin_provision_user_logical_off) (mem r') =
        take (base + pin_provision_user_logical_off) (mem (bw_rram w))
    \<and> drop (base + openpgp_vault_logical_span_end) (mem r') =
        drop (base + openpgp_vault_logical_span_end) (mem (bw_rram w))"
proof -
  obtain r' where r': "write_provisioning_pins R base u a (bw_rram w) = (Inr (), r')" "ok r'"
    "length (mem r') = length (mem (bw_rram w))"
    "slice (base + pin_provision_user_logical_off) 37 (mem r') = pin_record CCID_PINPROV_USER_MAGIC u"
    "slice (base + pin_provision_admin_logical_off) 37 (mem r') = pin_record CCID_PINPROV_ADMIN_MAGIC a"
    "take (base + pin_provision_user_logical_off) (mem r') =
        take (base + pin_provision_user_logical_off) (mem (bw_rram w))"
    "drop (base + openpgp_vault_logical_span_end) (mem r') =
        drop (base + openpgp_vault_logical_span_end) (mem (bw_rram w))"
    using rram_contract.write_pins [OF assms] by blast
  have in_range: "base + pin_provision_user_logical_off + 37 \<le> length (mem r')"
    "base + pin_provision_admin_logical_off + 37 \<le> length (mem r')"
    using assms(3) r'(3) by (simp_all add: rram_layout)
  note user = rram_contract.pin_record_loads [OF assms(1) r'(2) in_range(1) r'(4) assms(4,5) magic_lengths(1)]
  note admin = rram_contract.pin_record_loads [OF assms(1) r'(2) in_range(2) r'(5) assms(6,7) magic_lengths(2)]
  show ?thesis
    using r'(1,6,7) user(1) admin(1) user(2) [of "w\<lparr>bw_rram := r'\<rparr>" draw bf]
      admin(2) [of "w\<lparr>bw_rram := r'\<rparr>" draw bf]
    by (auto simp: provision_slots_have_valid_pins_def load_or_provision_ccid_user_pin_bytes_def
        load_or_provision_ccid_admin_pin_bytes_def)
qed

theorem provisioned_pins_load_back_witness:
  "\<exists>r'. write_provisioning_pins flat_rram 0 [1, 2, 3] [4] (\<lambda>_. 0) = (Inr (), r')
    \<and> load_or_provision_ccid_user_pin_bytes flat_rram (\<lambda>t. (0, t)) \<lparr>bf_dev_provisioning = False, bf_trng_pin_fallback = False\<rparr>
        0 \<lparr>bw_rram = r', bw_trng = ()\<rparr> = (Inr [1, 2, 3], \<lparr>bw_rram = r', bw_trng = ()\<rparr>)"
  using provisioned_pins_load_back [OF flat.rram_contract_axioms, where w = "\<lparr>bw_rram = \<lambda>_. 0, bw_trng = ()\<rparr>"
      and base = 0 and u = "[1, 2, 3]" and a = "[4]" and draw = "\<lambda>t. (0, t)"
      and bf = "\<lparr>bf_dev_provisioning = False, bf_trng_pin_fallback = False\<rparr>"]
  by (auto simp: rram_layout)

text \<open>
  First boot. On a healthy memory with unprovisioned PIN digests, valid provision records and an
  unused data-object store, a fresh process builds the backend: the construction succeeds, the plaintext
  PINs are gone from the provision records, the digests of the given PINs are in force, and the user PIN
  is accepted while attempts are left.
\<close>

theorem first_boot_succeeds:
  assumes "rram_vault R mem ok base" and "\<And>r. base + openpgp_vault_logical_span_end \<le> length (mem r)"
    and "ok (bw_rram w)" and "\<And>m. length (sha256 C m) = 32"
    and "ccid_pin_hashes_unprovisioned R base (bw_rram w)"
    and "provision_slots_have_valid_pins R base (bw_rram w)"
    and "\<not> do_header_ok OPENPGP_DO_STORE_LOGICAL (drop base (mem (bw_rram w)))"
    and "length u \<le> 32" and "length a \<le> 32" and "st_pin_zeroise st = None"
  shows "\<exists>b st'. open_or_provision_backend R T C bf base True mk aid u a st w = (Inr b, st')
    \<and> slice (base + pin_provision_user_logical_off) 74 (mem (bw_rram (vb_world b))) = replicate 74 0
    \<and> vb_user_verifier b = sha256 C u \<and> vb_admin_verifier b = sha256 C a
    \<and> (rd_u32_le (slice (base + user_ctr_logical_off) 4 (mem (bw_rram (vb_world b)))) 0
        < DEFAULT_MAX_PIN_ATTEMPTS \<longrightarrow>
       fst (verify_user (baochip_env R T C base st' mk aid) u b) = Inr ())"
  using assms by (rule first_boot_in)

abbreviation production :: build_features where
  "production \<equiv> \<lparr>bf_dev_provisioning = False, bf_trng_pin_fallback = False\<rparr>"

theorem first_boot_succeeds_witness:
  "\<exists>r b st. write_provisioning_pins flat_rram 0x20000 [1, 2, 3, 4, 5] [8, 7, 6, 5, 4, 3, 2, 1] (\<lambda>_. 0) = (Inr (), r)
    \<and> open_or_provision_backend flat_rram FakeTrng plain_crypto production 0x20000 True [] []
        [1, 2, 3, 4, 5] [8, 7, 6, 5, 4, 3, 2, 1] statics_initial \<lparr>bw_rram = r, bw_trng = 1\<rparr> = (Inr b, st)
    \<and> vb_user_verifier b = sha256 plain_crypto [1, 2, 3, 4, 5]"
proof -
  let ?u = "[1, 2, 3, 4, 5] :: bytes" and ?a = "[8, 7, 6, 5, 4, 3, 2, 1] :: bytes"
  have size: "0x20000 + openpgp_vault_logical_span_end \<le> length (flat_mem x)" for x
    by (simp add: rram_layout)
  obtain r where r: "write_provisioning_pins flat_rram 0x20000 ?u ?a (\<lambda>_. 0) = (Inr (), r)"
    "provision_slots_have_valid_pins flat_rram 0x20000 r" "ccid_pin_hashes_unprovisioned flat_rram 0x20000 r"
    "\<not> do_header_ok OPENPGP_DO_STORE_LOGICAL (drop 0x20000 (flat_mem r))"
    using write_pins_ready [OF flat.rram_contract_axioms TrueI size, of ?u ?a "\<lambda>_. 0"] flat_blank by auto
  with first_boot_succeeds [OF flat.rram_vault_axioms size, where w = "\<lparr>bw_rram = r, bw_trng = 1\<rparr>"
        and C = plain_crypto and u = ?u and a = ?a and st = statics_initial and T = FakeTrng and bf = production
        and mk = "[]" and aid = "[]"] plain_crypto_digest
  show ?thesis by (auto simp: statics_initial_def)
qed

text \<open>
  The backend cannot be built twice in one process: whatever the first call of
  \<open>open_or_provision_backend\<close> returned, an error included, every later call fails with \<open>HalError::Bus\<close>,
  because the zeroisation cell is set before anything else and cannot be set again. The service retries
  the call in a loop, so a failure that would pass, such as a missing provision record or an unreachable
  generator, is permanent until the process restarts.
\<close>

theorem boot_retry_always_fails:
  "fst (open_or_provision_backend R' T' C' bf' base' trng_ok' mk' aid' u' a'
     (snd (open_or_provision_backend R T C bf base trng_ok mk aid u a st w)) w') = Inl Bus"
  by (rule open_again_fails [OF open_sets_zeroise])

text \<open>
  On the target, RESET RETRY COUNTER does not give back attempts. It reports success, but the new
  counter handle reads the same memory cell, so once the user PIN attempts are used up the next
  verification, even with the right PIN, still counts as a breach: it is answered
  \<open>AuthMethodBlocked\<close> and the card terminates.
\<close>

theorem retry_reset_keeps_count:
  assumes "rram_contract R mem ok" and "\<And>r. base + openpgp_vault_logical_span_end \<le> length (mem r)"
    and "st_user_ctr_phys st = base + user_ctr_logical_off" and "ok (bw_rram (vb_world b))"
    and "\<not> vb_termination b" and "config (vb_user_machine b) = pin_policy_config_default"
    and "DEFAULT_MAX_PIN_ATTEMPTS \<le> rd_u32_le (slice (base + user_ctr_logical_off) 4 (mem (bw_rram (vb_world b)))) 0"
    and "reset_pw1_retry_counter (OpenPgpVaultBackend (baochip_env R T C base st mk aid)) b = (x, b1)"
    and "verify_pw1_sign (OpenPgpVaultBackend (baochip_env R T C base st mk aid)) pin b1 = (y, b2)"
  shows "x = Inr () \<and> y = Inl (Status AuthMethodBlocked) \<and> vb_termination b2"
proof -
  let ?E = "baochip_env R T C base st mk aid"
  note c = baochip_user_counter [OF assms(1-3), of T C mk aid]
  have x: "x = Inr ()" and b1: "b1 = b\<lparr>vb_user_machine := pin_machine_new pin_policy_config_default\<rparr>"
    using assms(5,6,8) by (simp_all add: OpenPgpVaultBackend_def vb_reset_pw1_retry_counter_def
        unless_terminated_def reset_user_machine_def baochip_env_def)
  have y: "y = fst (verify_user ?E pin b1)" "b2 = snd (verify_user ?E pin b1)"
    using assms(9) by (simp_all add: OpenPgpVaultBackend_def)
  have "max_attempts pin_policy_config_default = DEFAULT_MAX_PIN_ATTEMPTS" "DEFAULT_MAX_PIN_ATTEMPTS < 0xFFFFFFFF"
    by (simp_all add: pin_policy_config_default_def DEFAULT_MAX_PIN_ATTEMPTS_def)
  with verify_user_verdict [OF c, of b1 pin] assms(4,5,7) show ?thesis
    by (simp add: x y b1 pin_machine_new_pstate pin_verdict_def)
qed

lemma flat_counter_full: "rd_u32_le (slice (0 + user_ctr_logical_off) 4 (flat_mem (\<lambda>_. 1))) 0 = 0x01010101"
  using slice_flat_mem [of user_ctr_logical_off 4 "\<lambda>_. 1"]
  by (simp add: rram_layout rd_u32_le_def u32_of_le_def upt_rec)

theorem retry_reset_keeps_count_witness:
  "\<exists>x b1 y b2. reset_pw1_retry_counter (OpenPgpVaultBackend (baochip_env flat_rram FakeTrng plain_crypto 0
        (statics_initial\<lparr>st_user_ctr_phys := user_ctr_logical_off\<rparr>) [] []))
        (vault_backend_blank [] [] (pin_machine_new pin_policy_config_default)
          (pin_machine_new pin_policy_config_default) \<lparr>bw_rram = \<lambda>_. 1, bw_trng = 0\<rparr>) = (x, b1)
    \<and> verify_pw1_sign (OpenPgpVaultBackend (baochip_env flat_rram FakeTrng plain_crypto 0
        (statics_initial\<lparr>st_user_ctr_phys := user_ctr_logical_off\<rparr>) [] [])) [1, 2, 3, 4, 5] b1 = (y, b2)
    \<and> x = Inr () \<and> y = Inl (Status AuthMethodBlocked)"
proof -
  let ?st = "statics_initial\<lparr>st_user_ctr_phys := user_ctr_logical_off\<rparr>"
  let ?B = "OpenPgpVaultBackend (baochip_env flat_rram FakeTrng plain_crypto 0 ?st [] [])"
  let ?b = "vault_backend_blank [] [] (pin_machine_new pin_policy_config_default)
          (pin_machine_new pin_policy_config_default) \<lparr>bw_rram = \<lambda>_. 1, bw_trng = 0\<rparr>"
  obtain x b1 where r: "reset_pw1_retry_counter ?B ?b = (x, b1)" by fastforce
  obtain y b2 where v: "verify_pw1_sign ?B [1, 2, 3, 4, 5] b1 = (y, b2)" by fastforce
  have "DEFAULT_MAX_PIN_ATTEMPTS \<le> rd_u32_le (slice (0 + user_ctr_logical_off) 4 (flat_mem (\<lambda>_. 1))) 0"
    unfolding flat_counter_full by (simp add: DEFAULT_MAX_PIN_ATTEMPTS_def)
  with retry_reset_keeps_count [OF flat.rram_contract_axioms _ _ _ _ _ _ r v]
  show ?thesis
    using r v by (simp add: vault_backend_blank_def pin_machine_new_pstate rram_layout)
qed

text \<open>
  The master key is stable: if \<open>load_or_derive_ccid_master_key\<close> succeeds, the next call, after a
  restart with any state of the generator, returns the same key and changes neither memory nor
  generator.
\<close>

theorem master_key_stable:
  assumes "rram_contract R mem ok" and "\<And>r. base + openpgp_vault_logical_span_end \<le> length (mem r)"
    and "trng_contract T" and "ok (bw_rram w)"
    and "load_or_derive_ccid_master_key R T hkdf base binding w = (Inr key, w1)"
  shows "load_or_derive_ccid_master_key R T hkdf base binding (w1\<lparr>bw_trng := t\<rparr>) = (Inr key, w1\<lparr>bw_trng := t\<rparr>)"
proof -
  let ?p = "base + master_record_logical_off"
  have in_range: "?p + 36 \<le> length (mem r)" for r using assms(2) [of r] by (simp add: rram_layout)
  have rd: "rram_read_bytes R r ?p OPENPGP_MASTER_RECORD_BYTES = Inr (slice ?p 36 (mem r))" if "ok r" for r
    using rram_contract.read_in [OF assms(1) that in_range] by (simp add: OPENPGP_MASTER_RECORD_BYTES_def)
  let ?rec = "slice ?p 36 (mem (bw_rram w))"
  show ?thesis
  proof (cases "take 4 ?rec = OPENPGP_MASTER_MAGIC")
    case True
    with assms(4,5) rd show ?thesis
      by (auto simp: load_or_derive_ccid_master_key_def Let_def)
  next
    case False
    obtain salt t1 where t1: "tr_fill T 32 (bw_trng w) = (salt, t1)" by fastforce
    with trng_contract.fill_length [OF assms(3), of 32 "bw_trng w"] have salt: "length salt = 32" by simp
    let ?new = "splice (splice ?rec 0 OPENPGP_MASTER_MAGIC) 4 salt"
    have rec: "length ?rec = 36" using in_range [of "bw_rram w"] by simp
    then have new: "length ?new = 36" "take 4 ?new = OPENPGP_MASTER_MAGIC"
      using salt by (simp_all add: splice_def)
    obtain r1 where w: "rram_write R ?p ?new (bw_rram w) = (Inr (), r1)" "ok r1" "mem r1 = splice (mem (bw_rram w)) ?p ?new"
      using rram_contract.rram_write_in [OF assms(1,4), of ?p ?new] new(1) in_range by auto
    have mem1: "slice ?p 36 (mem r1) = ?new"
      using w(3) new(1) in_range by (simp add: slice_splice_same)
    from False assms(4,5) rd t1 w(1) have w1: "w1 = w\<lparr>bw_trng := t1, bw_rram := r1\<rparr>"
      and key: "map_err (\<lambda>_. Bus) (derive_subkey_sha512 hkdf (drop 4 ?new @ binding) [] OpenPgpCcidMaster 32) = Inr key"
      by (simp_all add: load_or_derive_ccid_master_key_def Let_def)
    show ?thesis
      using rd [OF w(2)] mem1 new(2) key
      by (simp add: load_or_derive_ccid_master_key_def Let_def w1)
  qed
qed

theorem master_key_stable_witness:
  "\<exists>key w1. load_or_derive_ccid_master_key flat_rram FakeTrng (\<lambda>s i l n. Some (take n i)) 0 [7] \<lparr>bw_rram = \<lambda>_. 0, bw_trng = 5\<rparr>
      = (Inr key, w1)
    \<and> load_or_derive_ccid_master_key flat_rram FakeTrng (\<lambda>s i l n. Some (take n i)) 0 [7] (w1\<lparr>bw_trng := 99\<rparr>)
      = (Inr key, w1\<lparr>bw_trng := 99\<rparr>)"
proof -
  let ?w = "\<lparr>bw_rram = \<lambda>_. 0, bw_trng = 5 :: u64\<rparr>" and ?h = "\<lambda>s i l n. Some (take n i)"
  have size: "0 + openpgp_vault_logical_span_end \<le> length (flat_mem x)" for x by (simp add: rram_layout)
  let ?p = "0 + master_record_logical_off"
  have p: "?p + 36 \<le> 4194304" by (simp add: rram_layout)
  then have rd: "rram_read_bytes flat_rram (\<lambda>_. 0) ?p OPENPGP_MASTER_RECORD_BYTES = Inr (slice ?p 36 (flat_mem (\<lambda>_. 0)))"
    using flat.read_in [where r = "\<lambda>_. 0" and phys = ?p and n = 36]
    by (simp only: OPENPGP_MASTER_RECORD_BYTES_def length_flat_mem) simp
  have "take 4 (slice ?p 36 (flat_mem (\<lambda>_. 0))) = replicate 4 0"
    using slice_flat_mem [of ?p 36 "\<lambda>_. 0"] p by (simp add: map_replicate_const)
  moreover have "replicate 4 0 \<noteq> OPENPGP_MASTER_MAGIC" by code_simp
  ultimately have ne: "take 4 (slice ?p 36 (flat_mem (\<lambda>_. 0))) \<noteq> OPENPGP_MASTER_MAGIC" by metis
  obtain salt t1 where t1: "tr_fill FakeTrng 32 5 = (salt, t1)" by fastforce
  with fake_trng.fill_length [of 32 5] have salt: "length salt = 32" by simp
  have "length (splice (splice (slice ?p 36 (flat_mem (\<lambda>_. 0))) 0 OPENPGP_MASTER_MAGIC) 4 salt) = 36"
    using salt p by (simp add: splice_def)
  then obtain r1 where "rram_write flat_rram ?p
      (splice (splice (slice ?p 36 (flat_mem (\<lambda>_. 0))) 0 OPENPGP_MASTER_MAGIC) 4 salt) (\<lambda>_. 0) = (Inr (), r1)"
    using flat.rram_write_in [where r = "\<lambda>_. 0" and phys = ?p
        and d = "splice (splice (slice ?p 36 (flat_mem (\<lambda>_. 0))) 0 OPENPGP_MASTER_MAGIC) 4 salt"] p by auto
  with rd ne t1 have "\<exists>key w1. load_or_derive_ccid_master_key flat_rram FakeTrng ?h 0 [7] ?w = (Inr key, w1)"
    by (simp add: load_or_derive_ccid_master_key_def Let_def derive_subkey_sha512_def)
  then obtain key w1 where k: "load_or_derive_ccid_master_key flat_rram FakeTrng ?h 0 [7] ?w = (Inr key, w1)" by blast
  with master_key_stable [OF flat.rram_contract_axioms size fake_trng.trng_contract_axioms _ k] show ?thesis by blast
qed

end
