(* ===== verification/Card_Keys.thy ===== *)
theory Card_Keys
  imports Card_Env
begin

text \<open>
  Keys of the vault backend across a restart: what key generation leaves in the sealed-key cells and
  in the loaded key fields, what \<open>load_private_keys\<close> makes of the cells, and that the two agree. Also
  what the constructors leave of the signature counter.
\<close>

section \<open>Reads and draws seen from outside\<close>

lemma do_read_loop_cong:
  assumes "\<And>i. i \<in> set is \<Longrightarrow> do_read_slot vs base w i = do_read_slot vs base w' i"
  shows "do_read_loop vs base w t is = do_read_loop vs base w' t is"
  using assms by (induction "is") (simp_all split: sum.split)

lemma do_read_cong:
  assumes "\<And>off n. base \<le> off \<Longrightarrow> off + n \<le> base + DO_STORE_REGION_BYTES \<Longrightarrow>
      vs_read vs w off n = vs_read vs w' off n"
  shows "do_read vs base w t = do_read vs base w' t"
proof -
  have "do_probe vs base w = do_probe vs base w'" by (simp add: do_probe_def assms)
  moreover have "do_read_slot vs base w i = do_read_slot vs base w' i" if "i \<in> set [0..<SLOT_COUNT]" for i
    using that by (auto simp: do_read_slot_def intro!: arg_cong [where f = "map_err Io"] assms)
  ultimately show ?thesis
    using do_read_loop_cong [of "[0..<SLOT_COUNT]" vs base w w' t]
    by (simp add: do_read_def split: sum.split)
qed

lemma seal_frame:
  assumes "seal C tr mk p s w = (r, w1)" and "\<And>n x. f (snd (tr_try_fill tr n x)) = f x"
  shows "f w1 = f w"
  using assms(1) assms(2) [of 12 w]
  by (auto simp: seal_def split: if_splits sum.splits prod.splits)

lemma bp_sample_frame:
  assumes "\<And>n x. f (snd (tr_try_fill tr n x)) = f x"
  shows "bp_sample C tr k w = (r, w1) \<Longrightarrow> f w1 = f w"
proof (induction k arbitrary: w)
  case (Suc k)
  obtain x w2 where t: "tr_try_fill tr 32 w = (x, w2)" by fastforce
  with assms [of 32 w] have "f w2 = f w" by simp
  with Suc t show ?case by (auto split: sum.splits option.splits)
qed simp

section \<open>Key fields of a slot\<close>

fun slot_keys :: "openpgp_key_slot \<Rightarrow> 'w vault_backend \<Rightarrow> bytes option \<times> bytes option" where
  "slot_keys Sig b = (vb_sig_key b, vb_sig_ed25519 b)"
| "slot_keys Dec b = (vb_dec_key b, vb_dec_x25519 b)"
| "slot_keys Aut b = (vb_aut_key b, vb_aut_ed25519 b)"

fun slot_purpose :: "openpgp_key_slot \<Rightarrow> key_purpose" where
  "slot_purpose Sig = OpenPgpSig"
| "slot_purpose Dec = OpenPgpDec"
| "slot_purpose Aut = OpenPgpAut"

fun slot_cell :: "openpgp_key_slot \<Rightarrow> nat" where
  "slot_cell Sig = SEALED_SIG_OFFSET"
| "slot_cell Dec = SEALED_DEC_OFFSET"
| "slot_cell Aut = SEALED_AUT_OFFSET"

text \<open>The attributes that key generation accepts for a slot, and the kind of key they ask for.\<close>

fun attrs_fit :: "openpgp_key_slot \<Rightarrow> algorithm_attributes \<Rightarrow> bool" where
  "attrs_fit Dec (Ecdh oid) = True"
| "attrs_fit Dec _ = False"
| "attrs_fit slot (EdDsa oid) = (oid = ED25519)"
| "attrs_fit slot (Ecdsa oid) = True"
| "attrs_fit slot _ = False"

fun attrs_25519 :: "algorithm_attributes \<Rightarrow> bool" where
  "attrs_25519 (EdDsa oid) = (oid = ED25519)"
| "attrs_25519 (Ecdh oid) = (oid = CURVE25519)"
| "attrs_25519 _ = False"

definition key_fields :: "algorithm_attributes \<Rightarrow> bytes \<Rightarrow> bytes option \<times> bytes option" where
  "key_fields attrs s = (if attrs_25519 attrs then (None, Some s) else (Some s, None))"

text \<open>A private scalar is re-encoded to itself: what the curve library promises of its byte form.\<close>

definition scalar_canonical :: "crypto_lib \<Rightarrow> bool" where
  "scalar_canonical C \<longleftrightarrow>
     (\<forall>raw sk. bp_from_slice C raw = Some sk \<longrightarrow> length sk = 32 \<and> bp_from_slice C sk = Some sk)"

lemma read_public_key_cong:
  assumes "slot_keys slot b = slot_keys slot c"
    and "algorithm_attributes_for_slot E b slot = algorithm_attributes_for_slot E c slot"
  shows "read_public_key E slot b = read_public_key E slot c"
  using assms
  by (cases slot; cases "algorithm_attributes_for_slot E c slot") (simp_all add: read_public_key_def Let_def)

lemma attributes_world:
  "vb_world b = vb_world c \<Longrightarrow>
   algorithm_attributes_for_slot E b slot = algorithm_attributes_for_slot E c slot"
  by (simp add: algorithm_attributes_for_slot_def vb_do_read_def)

lemma slot_cells_apart:
  "slot \<noteq> sl \<Longrightarrow> slot_cell sl + SEALED_BLOB_BYTES \<le> slot_cell slot
     \<or> slot_cell slot + SEALED_BLOB_BYTES \<le> slot_cell sl"
  "slot_cell slot + SEALED_BLOB_BYTES \<le> SEALED_KEY_REGION_END"
  by (cases slot; cases sl; simp add: sealed_layout_defs)+

section \<open>Generation\<close>

lemma key_written:
  assumes "persist_private_key E p s b = (Inr u, b1)"
  obtains blob w1 slot where "seal (env_crypto E) (env_trng E) (env_master_key E) p s (vb_world b) = (Inr blob, w1)"
    "p = slot_purpose slot" "vs_write (env_key E) w1 (slot_cell slot) (storage_cell blob) = (Inr (), vb_world b1)"
    "b1 = b\<lparr>vb_world := vb_world b1\<rparr>" "length blob \<le> SEALED_BLOB_BYTES"
proof -
  obtain r w1 where s: "seal (env_crypto E) (env_trng E) (env_master_key E) p s (vb_world b) = (r, w1)"
    by fastforce
  with assms obtain blob where r: "r = Inr blob" by (cases r) (auto simp: persist_private_key_def)
  with assms s have "p \<in> {slot_purpose Sig, slot_purpose Dec, slot_purpose Aut}"
    by (cases p) (simp_all add: persist_private_key_def)
  then obtain slot where sl: "p = slot_purpose slot" by blast
  obtain r2 w2 where w: "vs_write (env_key E) w1 (slot_cell slot) (storage_cell blob) = (r2, w2)" by fastforce
  have "persist_private_key E p s b =
      (if length blob > SEALED_BLOB_BYTES then (Inl (Status MemoryFailure), b\<lparr>vb_world := w1\<rparr>)
       else (map_err (\<lambda>_. Status MemoryFailure) r2, b\<lparr>vb_world := w2\<rparr>))"
    using w s unfolding r sl by (cases slot) (simp_all add: persist_private_key_def)
  with assms have "length blob \<le> SEALED_BLOB_BYTES" "b1 = b\<lparr>vb_world := w2\<rparr>" "r2 = Inr ()"
    by (cases r2; simp split: if_splits)+
  with s r sl w that show ?thesis by simp
qed

lemma generate_25519_ok:
  assumes "generate_ed25519 E p install pub b = (Inr pk, b')"
  obtains s w0 b1 where "tr_fill (env_trng E) 32 (vb_world b) = (s, w0)"
    "persist_private_key E p s (b\<lparr>vb_world := w0\<rparr>) = (Inr (), b1)" "b' = install s b1"
    "out512 (pub s) = Inr pk"
  using assms by (auto simp: generate_ed25519_def split: prod.splits sum.splits)

lemma generate_brainpool_ok:
  assumes "generate_brainpool E p install gen pub b = (Inr pk, b')"
  obtains s w0 b1 where "gen (vb_world b) = (Inr s, w0)"
    "persist_private_key E p s (b\<lparr>vb_world := w0\<rparr>) = (Inr (), b1)" "b' = install s b1"
    "pub s = Inr pk"
  using assms by (auto simp: generate_brainpool_def split: prod.splits sum.splits)

text \<open>
  A generation that reports success has drawn a secret that fits the attributes, written it sealed
  into the cell of its slot, and loaded it; the answer is the public key of the loaded key.
\<close>

definition generated ::
  "'w vault_env \<Rightarrow> openpgp_key_slot \<Rightarrow> 'w vault_backend \<Rightarrow> bytes \<Rightarrow> 'w \<Rightarrow> 'w vault_backend \<Rightarrow> bool" where
  "generated E slot b s w0 b' \<longleftrightarrow>
     (\<exists>b1. persist_private_key E (slot_purpose slot) s (b\<lparr>vb_world := w0\<rparr>) = (Inr (), b1)
        \<and> vb_world b' = vb_world b1)
     \<and> attrs_fit slot (algorithm_attributes_for_slot E b slot)
     \<and> slot_keys slot b' = key_fields (algorithm_attributes_for_slot E b slot) s
     \<and> length s = 32
     \<and> (\<not> attrs_25519 (algorithm_attributes_for_slot E b slot) \<longrightarrow> bp_from_slice (env_crypto E) s = Some s)"

lemma generate_key_25519:
  assumes "generate_key E slot b = (Inr pk, b')" and "trng_contract (env_trng E)"
    and "attrs_25519 (algorithm_attributes_for_slot E b slot)"
  obtains s where "generated E slot b s (snd (tr_fill (env_trng E) 32 (vb_world b))) b'"
proof -
  let ?a = "algorithm_attributes_for_slot E b slot"
  have "\<exists>p i f. p = slot_purpose slot \<and> generate_ed25519 E p i f b = (Inr pk, b')
      \<and> (\<forall>k c. vb_world (i k c) = vb_world c \<and> slot_keys slot (i k c) = (None, Some k)) \<and> attrs_fit slot ?a"
    using assms(1,3)
    by (cases slot; cases ?a) (auto simp: generate_key_def Let_def split: if_splits)
  then obtain i f where g: "generate_ed25519 E (slot_purpose slot) i f b = (Inr pk, b')"
    and i: "\<And>k c. vb_world (i k c) = vb_world c \<and> slot_keys slot (i k c) = (None, Some k)"
    and a: "attrs_fit slot ?a" by blast
  from g obtain s w0 b1 where s: "tr_fill (env_trng E) 32 (vb_world b) = (s, w0)"
    "persist_private_key E (slot_purpose slot) s (b\<lparr>vb_world := w0\<rparr>) = (Inr (), b1)" "b' = i s b1"
    by (rule generate_25519_ok)
  have "length s = 32" using trng_contract.fill_length [OF assms(2), of 32 "vb_world b"] s(1) by simp
  with s i a assms(3) that [of s] show ?thesis by (simp add: generated_def key_fields_def)
qed

lemma generate_key_brainpool:
  assumes "generate_key E slot b = (Inr pk, b')" and "scalar_canonical (env_crypto E)"
    and "\<not> attrs_25519 (algorithm_attributes_for_slot E b slot)"
  obtains s w0 where "generated E slot b s w0 b'"
    "bp_sample (env_crypto E) (env_trng E) SCALAR_SAMPLE_TRIES (vb_world b) = (Inr s, w0)"
proof -
  let ?a = "algorithm_attributes_for_slot E b slot"
  have "\<exists>p i f. p = slot_purpose slot
      \<and> generate_brainpool E p i (bp_sample (env_crypto E) (env_trng E) SCALAR_SAMPLE_TRIES) f b = (Inr pk, b')
      \<and> (\<forall>k c. vb_world (i k c) = vb_world c \<and> slot_keys slot (i k c) = (Some k, None)) \<and> attrs_fit slot ?a"
    using assms(1,3)
    by (cases slot; cases ?a)
      (auto simp: generate_key_def Let_def bp_signing_key_generate_def [abs_def]
        bp_scalar_generate_def [abs_def] split: if_splits)
  then obtain i f where g: "generate_brainpool E (slot_purpose slot) i
        (bp_sample (env_crypto E) (env_trng E) SCALAR_SAMPLE_TRIES) f b = (Inr pk, b')"
    and i: "\<And>k c. vb_world (i k c) = vb_world c \<and> slot_keys slot (i k c) = (Some k, None)"
    and a: "attrs_fit slot ?a" by blast
  from g obtain s w0 b1 where s: "bp_sample (env_crypto E) (env_trng E) SCALAR_SAMPLE_TRIES (vb_world b) = (Inr s, w0)"
    "persist_private_key E (slot_purpose slot) s (b\<lparr>vb_world := w0\<rparr>) = (Inr (), b1)" "b' = i s b1"
    by (rule generate_brainpool_ok)
  have "length s = 32" "bp_from_slice (env_crypto E) s = Some s"
    using bp_sample_accepted [OF s(1)] assms(2) by (auto simp: scalar_canonical_def)
  with s i a assms(3) that [of s w0] show ?thesis by (simp add: generated_def key_fields_def)
qed

lemma generate_key_answer:
  assumes "generate_key E slot b = (Inr pk, b')"
    and "algorithm_attributes_for_slot E b' slot = algorithm_attributes_for_slot E b slot"
  shows "read_public_key E slot b' = Inr pk"
  using assms
  by (cases slot; cases "algorithm_attributes_for_slot E b slot")
    (auto simp: generate_key_def read_public_key_def Let_def res_bind_eq_Inr split: if_splits sum.splits
      elim!: generate_25519_ok generate_brainpool_ok)

section \<open>Loading\<close>

lemma load_keys_world:
  "vb_world (load_sig_key E buf b) = vb_world b" "vb_world (load_dec_key E buf b) = vb_world b"
  "vb_world (load_aut_key E buf b) = vb_world b"
  by (simp_all add: load_sig_key_def load_dec_key_def load_aut_key_def
      split: sum.split algorithm_attributes.split)

lemma load_keys_other:
  "slot_keys Dec (load_sig_key E buf b) = slot_keys Dec b"
  "slot_keys Aut (load_sig_key E buf b) = slot_keys Aut b"
  "slot_keys Sig (load_dec_key E buf b) = slot_keys Sig b"
  "slot_keys Aut (load_dec_key E buf b) = slot_keys Aut b"
  "slot_keys Sig (load_aut_key E buf b) = slot_keys Sig b"
  "slot_keys Dec (load_aut_key E buf b) = slot_keys Dec b"
  by (simp_all add: load_sig_key_def load_dec_key_def load_aut_key_def
      split: sum.split algorithm_attributes.split)

lemma load_keys_rest:
  "vb_termination (load_sig_key E buf b) = vb_termination b"
  "vb_termination (load_dec_key E buf b) = vb_termination b"
  "vb_termination (load_aut_key E buf b) = vb_termination b"
  "vb_sig_counter (load_sig_key E buf b) = vb_sig_counter b"
  "vb_sig_counter (load_dec_key E buf b) = vb_sig_counter b"
  "vb_sig_counter (load_aut_key E buf b) = vb_sig_counter b"
  by (simp_all add: load_sig_key_def load_dec_key_def load_aut_key_def
      split: sum.split algorithm_attributes.split)

lemma load_private_keys_rest:
  assumes "load_private_keys E b = (r, b')"
  shows "vb_termination b' = vb_termination b" "vb_sig_counter b' = vb_sig_counter b"
  using assms by (auto simp: load_private_keys_def Let_def load_keys_rest split: sum.splits)

text \<open>Loading a slot from a cell that unseals to a fitting secret, with no key loaded yet.\<close>

lemma load_slot:
  assumes "unseal_from_storage_cell (env_crypto E) buf (env_master_key E) (slot_purpose slot) = Inr s"
    and "length s = 32" and "attrs_fit slot (algorithm_attributes_for_slot E b slot)"
    and "\<not> attrs_25519 (algorithm_attributes_for_slot E b slot) \<longrightarrow> bp_from_slice (env_crypto E) s = Some s"
    and "slot_keys slot b = (None, None)"
  shows "slot = Sig \<Longrightarrow> slot_keys Sig (load_sig_key E buf b) = key_fields (algorithm_attributes_for_slot E b slot) s"
    and "slot = Dec \<Longrightarrow> slot_keys Dec (load_dec_key E buf b) = key_fields (algorithm_attributes_for_slot E b slot) s"
    and "slot = Aut \<Longrightarrow> slot_keys Aut (load_aut_key E buf b) = key_fields (algorithm_attributes_for_slot E b slot) s"
  using assms
  by (cases "algorithm_attributes_for_slot E b slot";
      simp add: load_sig_key_def load_dec_key_def load_aut_key_def key_fields_def
        bp_signing_key_from_scalar_def bp_scalar_from_secret_def)+

text \<open>The whole procedure, when the three cells can be read.\<close>

lemma load_private_keys_slot:
  assumes "\<And>sl. vs_read (env_key E) (vb_world c) (slot_cell sl) SEALED_BLOB_BYTES = Inr (cell sl)"
    and "unseal_from_storage_cell (env_crypto E) (cell slot) (env_master_key E) (slot_purpose slot) = Inr s"
    and "length s = 32" and "attrs_fit slot (algorithm_attributes_for_slot E c slot)"
    and "\<not> attrs_25519 (algorithm_attributes_for_slot E c slot) \<longrightarrow> bp_from_slice (env_crypto E) s = Some s"
  obtains c' where "load_private_keys E c = (Inr (), c')" "vb_world c' = vb_world c"
    "slot_keys slot c' = key_fields (algorithm_attributes_for_slot E c slot) s"
proof -
  define c0 where "c0 = c\<lparr>vb_sig_key := None, vb_sig_ed25519 := None, vb_aut_key := None,
     vb_aut_ed25519 := None, vb_dec_key := None, vb_dec_x25519 := None\<rparr>"
  define c1 where "c1 = load_sig_key E (cell Sig) c0"
  define c2 where "c2 = load_dec_key E (cell Dec) c1"
  define c3 where "c3 = load_aut_key E (cell Aut) c2"
  have w: "vb_world c0 = vb_world c" "vb_world c1 = vb_world c" "vb_world c2 = vb_world c" "vb_world c3 = vb_world c"
    by (simp_all add: c3_def c2_def c1_def load_keys_world c0_def)
  have l: "load_private_keys E c = (Inr (), c3)"
    using assms(1) [of Sig] assms(1) [of Dec] assms(1) [of Aut] w
    by (simp add: load_private_keys_def c0_def [symmetric] c1_def [symmetric] c2_def [symmetric]
        c3_def [symmetric])
  note a = attributes_world [of _ c E slot, OF w(1)] attributes_world [of _ c E slot, OF w(2)]
    attributes_world [of _ c E slot, OF w(3)]
  have e: "slot_keys sl c0 = (None, None)" for sl by (cases sl) (simp_all add: c0_def)
  have "slot_keys slot c3 = key_fields (algorithm_attributes_for_slot E c slot) s"
  proof (cases slot)
    case Sig
    have "slot_keys slot c1 = key_fields (algorithm_attributes_for_slot E c slot) s"
      using load_slot(1) [OF assms(2,3), of c0] assms(4,5) a e Sig
      by (simp add: c1_def del: slot_keys.simps)
    with Sig show ?thesis by (simp only: c3_def c2_def load_keys_other)
  next
    case Dec
    then have "slot_keys slot c1 = (None, None)" using e [of Dec] by (simp only: c1_def load_keys_other)
    then have "slot_keys slot c2 = key_fields (algorithm_attributes_for_slot E c slot) s"
      using load_slot(2) [OF assms(2,3), of c1] assms(4,5) a Dec
      by (simp add: c2_def del: slot_keys.simps)
    with Dec show ?thesis by (simp only: c3_def load_keys_other)
  next
    case Aut
    then have "slot_keys slot c2 = (None, None)" using e [of Aut] by (simp only: c2_def c1_def load_keys_other)
    then show ?thesis
      using load_slot(3) [OF assms(2,3), of c2] assms(4,5) a Aut
      by (simp add: c3_def del: slot_keys.simps)
  qed
  with l w(4) that show ?thesis by blast
qed

section \<open>Generation and restart\<close>

context card_env
begin

lemma trng_keeps:
  "do_mem (snd (tr_fill (env_trng E) n w)) = do_mem w" "do_ok (snd (tr_fill (env_trng E) n w)) = do_ok w"
  "pin_mem (snd (tr_fill (env_trng E) n w)) = pin_mem w" "pin_ok (snd (tr_fill (env_trng E) n w)) = pin_ok w"
  "key_mem (snd (tr_fill (env_trng E) n w)) = key_mem w" "key_ok (snd (tr_fill (env_trng E) n w)) = key_ok w"
  "do_mem (snd (tr_try_fill (env_trng E) n w)) = do_mem w" "do_ok (snd (tr_try_fill (env_trng E) n w)) = do_ok w"
  "pin_mem (snd (tr_try_fill (env_trng E) n w)) = pin_mem w" "pin_ok (snd (tr_try_fill (env_trng E) n w)) = pin_ok w"
  "key_mem (snd (tr_try_fill (env_trng E) n w)) = key_mem w" "key_ok (snd (tr_try_fill (env_trng E) n w)) = key_ok w"
proof -
  have "(\<lambda>w. snd (tr_fill (env_trng E) n w)) \<in> trng_effects (env_trng E)"
    "(\<lambda>w. snd (tr_try_fill (env_trng E) n w)) \<in> trng_effects (env_trng E)"
    by (auto simp: trng_effects_def)
  note e = this
  show "do_mem (snd (tr_fill (env_trng E) n w)) = do_mem w" "do_ok (snd (tr_fill (env_trng E) n w)) = do_ok w"
    "pin_mem (snd (tr_fill (env_trng E) n w)) = pin_mem w" "pin_ok (snd (tr_fill (env_trng E) n w)) = pin_ok w"
    "key_mem (snd (tr_fill (env_trng E) n w)) = key_mem w" "key_ok (snd (tr_fill (env_trng E) n w)) = key_ok w"
    using do_frame [OF UnI2 [OF e(1)], of w] pin_frame [OF UnI2 [OF e(1)], of w]
      key_frame [OF UnI2 [OF e(1)], of w] by simp_all
  show "do_mem (snd (tr_try_fill (env_trng E) n w)) = do_mem w" "do_ok (snd (tr_try_fill (env_trng E) n w)) = do_ok w"
    "pin_mem (snd (tr_try_fill (env_trng E) n w)) = pin_mem w" "pin_ok (snd (tr_try_fill (env_trng E) n w)) = pin_ok w"
    "key_mem (snd (tr_try_fill (env_trng E) n w)) = key_mem w" "key_ok (snd (tr_try_fill (env_trng E) n w)) = key_ok w"
    using do_frame [OF UnI2 [OF e(2)], of w] pin_frame [OF UnI2 [OF e(2)], of w]
      key_frame [OF UnI2 [OF e(2)], of w] by simp_all
qed

lemma key_write_keeps:
  assumes "vs_write (env_key E) w off d = (r, w1)"
  shows "do_mem w1 = do_mem w" "do_ok w1 = do_ok w" "pin_mem w1 = pin_mem w" "pin_ok w1 = pin_ok w"
proof -
  have "(\<lambda>w. snd (vs_write (env_key E) w off d)) \<in> storage_effects (env_key E)"
    by (auto simp: storage_effects_def)
  then show "do_mem w1 = do_mem w" "do_ok w1 = do_ok w" "pin_mem w1 = pin_mem w" "pin_ok w1 = pin_ok w"
    using do_frame [of "\<lambda>w. snd (vs_write (env_key E) w off d)" w]
      pin_frame [of "\<lambda>w. snd (vs_write (env_key E) w off d)" w] assms by auto
qed

text \<open>A world as the data-object and PIN memories see it.\<close>

abbreviation outside_keys :: "'w \<Rightarrow> bytes \<times> bool \<times> bytes \<times> bool" where
  "outside_keys w \<equiv> (do_mem w, do_ok w, pin_mem w, pin_ok w)"

lemma persisted_key:
  assumes "persist_private_key E (slot_purpose slot) s b = (Inr u, b1)"
    and "aead_correct (env_crypto E)" and "aead_rejects_padding (env_crypto E)" and "key_ok (vb_world b)"
  obtains cell where "key_mem (vb_world b1) = splice (key_mem (vb_world b)) (slot_cell slot) cell"
    "length cell = SEALED_BLOB_BYTES" "key_ok (vb_world b1)"
    "slot_cell slot + SEALED_BLOB_BYTES \<le> length (key_mem (vb_world b))"
    "unseal_from_storage_cell (env_crypto E) cell (env_master_key E) (slot_purpose slot) = Inr s"
    "outside_keys (vb_world b1) = outside_keys (vb_world b)"
proof -
  from assms(1) obtain blob w1 slot' where k: "seal (env_crypto E) (env_trng E) (env_master_key E)
        (slot_purpose slot) s (vb_world b) = (Inr blob, w1)" "slot_purpose slot = slot_purpose slot'"
    "vs_write (env_key E) w1 (slot_cell slot') (storage_cell blob) = (Inr (), vb_world b1)"
    "length blob \<le> SEALED_BLOB_BYTES" by (rule key_written)
  have sl: "slot' = slot" using k(2) by (cases slot; cases slot') simp_all
  have f: "key_mem w1 = key_mem (vb_world b)" "key_ok w1 = key_ok (vb_world b)"
    "outside_keys w1 = outside_keys (vb_world b)"
    using seal_frame [OF k(1), of key_mem] seal_frame [OF k(1), of key_ok]
      seal_frame [OF k(1), of outside_keys] by (simp_all add: trng_keeps)
  have len: "length (storage_cell blob) = SEALED_BLOB_BYTES" using k(4) by (simp add: storage_cell_eq)
  show ?thesis
  proof (rule that)
    show "key_mem (vb_world b1) = splice (key_mem (vb_world b)) (slot_cell slot) (storage_cell blob)"
      "slot_cell slot + SEALED_BLOB_BYTES \<le> length (key_mem (vb_world b))"
      using vault_contract.write_mem [OF key_storage, of w1 "slot_cell slot" "storage_cell blob"] k(3) sl f len
      by simp_all
    show "key_ok (vb_world b1)"
      using vault_contract.write_ok [OF key_storage, of w1 "slot_cell slot" "storage_cell blob"] k(3) sl f assms(4)
      by simp
    show "outside_keys (vb_world b1) = outside_keys (vb_world b)"
      using key_write_keeps [OF k(3)] f(3) by simp
  qed (use sealed_cell_unseals(1) [OF assms(2,3) trng k(1)] len in simp_all)
qed

lemma attributes_kept:
  assumes "do_ok (vb_world b)" and "env_do_base E + DO_STORE_REGION_BYTES \<le> length (do_mem (vb_world b))"
    and "do_mem (vb_world c) = do_mem (vb_world b)" and "do_ok (vb_world c) = do_ok (vb_world b)"
  shows "algorithm_attributes_for_slot E c slot = algorithm_attributes_for_slot E b slot"
proof -
  have "do_read (env_do E) (env_do_base E) (vb_world c) t = do_read (env_do E) (env_do_base E) (vb_world b) t" for t
    using assms by (intro do_read_cong) (simp add: vault_contract.read_in [OF do_storage])
  then show ?thesis by (simp add: algorithm_attributes_for_slot_def vb_do_read_def)
qed

lemma generated_key_reloads:
  assumes "generate_key E slot b = (Inr pk, b')" and "vb_world c = vb_world b'"
    and "aead_correct (env_crypto E)" and "aead_rejects_padding (env_crypto E)"
    and "scalar_canonical (env_crypto E)"
    and "key_ok (vb_world b)" and "SEALED_KEY_REGION_END \<le> length (key_mem (vb_world b))"
    and "do_ok (vb_world b)" and "env_do_base E + DO_STORE_REGION_BYTES \<le> length (do_mem (vb_world b))"
  obtains c' where "load_private_keys E c = (Inr (), c')" "vb_world c' = vb_world c"
    "slot_keys slot c' = slot_keys slot b'" "read_public_key E slot c' = Inr pk"
    "outside_keys (vb_world b') = outside_keys (vb_world b)"
    "\<And>sl. sl \<noteq> slot \<Longrightarrow> slice (slot_cell sl) SEALED_BLOB_BYTES (key_mem (vb_world b')) =
      slice (slot_cell sl) SEALED_BLOB_BYTES (key_mem (vb_world b))"
proof -
  let ?a = "algorithm_attributes_for_slot E b slot"
  have "\<exists>s w0. generated E slot b s w0 b' \<and> outside_keys w0 = outside_keys (vb_world b)
      \<and> key_mem w0 = key_mem (vb_world b) \<and> key_ok w0 = key_ok (vb_world b)"
  proof (cases "attrs_25519 ?a")
    case True
    with generate_key_25519 [OF assms(1) trng] obtain s
      where g: "generated E slot b s (snd (tr_fill (env_trng E) 32 (vb_world b))) b'" by blast
    show ?thesis by (rule exI, rule exI, rule conjI, rule g) (simp add: trng_keeps)
  next
    case False
    with generate_key_brainpool [OF assms(1,5)] obtain s w0 where "generated E slot b s w0 b'"
      and bp: "bp_sample (env_crypto E) (env_trng E) SCALAR_SAMPLE_TRIES (vb_world b) = (Inr s, w0)" by blast
    with bp_sample_frame [OF _ bp, of outside_keys] bp_sample_frame [OF _ bp, of key_mem]
      bp_sample_frame [OF _ bp, of key_ok] show ?thesis by (auto simp: trng_keeps)
  qed
  then obtain s w0 b1 where g: "persist_private_key E (slot_purpose slot) s (b\<lparr>vb_world := w0\<rparr>) = (Inr (), b1)"
    "vb_world b' = vb_world b1" "attrs_fit slot ?a" "slot_keys slot b' = key_fields ?a s" "length s = 32"
    "\<not> attrs_25519 ?a \<longrightarrow> bp_from_slice (env_crypto E) s = Some s"
    and w0: "outside_keys w0 = outside_keys (vb_world b)" "key_mem w0 = key_mem (vb_world b)"
      "key_ok w0 = key_ok (vb_world b)"
    unfolding generated_def by blast
  obtain cell where k: "key_mem (vb_world b1) = splice (key_mem w0) (slot_cell slot) cell"
    "length cell = SEALED_BLOB_BYTES" "key_ok (vb_world b1)"
    "slot_cell slot + SEALED_BLOB_BYTES \<le> length (key_mem w0)"
    "unseal_from_storage_cell (env_crypto E) cell (env_master_key E) (slot_purpose slot) = Inr s"
    "outside_keys (vb_world b1) = outside_keys w0"
    using persisted_key [OF g(1) assms(3,4)] assms(6) w0(3) by auto
  have len: "length (key_mem (vb_world b1)) = length (key_mem (vb_world b))" using k w0 by simp
  have out: "outside_keys (vb_world b') = outside_keys (vb_world b)" using k(6) w0(1) g(2) by simp
  have att: "algorithm_attributes_for_slot E x slot = ?a" if x: "vb_world x = vb_world b'" for x
    using attributes_kept [OF assms(8,9), of x slot] out x by simp
  have rd: "vs_read (env_key E) (vb_world c) (slot_cell sl) SEALED_BLOB_BYTES =
      Inr (slice (slot_cell sl) SEALED_BLOB_BYTES (key_mem (vb_world b1)))" for sl
    using vault_contract.read_in [OF key_storage k(3), of "slot_cell sl" SEALED_BLOB_BYTES]
      slot_cells_apart(2) [of sl] assms(2,7) g(2) len by simp
  have mine: "slice (slot_cell slot) SEALED_BLOB_BYTES (key_mem (vb_world b1)) = cell"
    using k by (simp add: slice_splice_same)
  obtain c' where c': "load_private_keys E c = (Inr (), c')" "vb_world c' = vb_world c"
    "slot_keys slot c' = key_fields ?a s"
    using load_private_keys_slot [OF rd, of slot s] mine k(5) g(3,5,6) att [of c] assms(2) by auto
  have "read_public_key E slot c' = Inr pk"
    using read_public_key_cong [of slot c' b' E] generate_key_answer [OF assms(1)] att [of c'] att [of b']
      c' g(4) assms(2) by simp
  moreover have "slice (slot_cell sl) SEALED_BLOB_BYTES (key_mem (vb_world b')) =
      slice (slot_cell sl) SEALED_BLOB_BYTES (key_mem (vb_world b))" if "sl \<noteq> slot" for sl
    using k(1,2,4) w0(2) g(2) that slot_cells_apart(1) [of sl slot] slot_cells_apart(2) [of sl] assms(7)
    by (auto simp: slice_splice_disjoint)
  ultimately show ?thesis using that c' g(4) out by simp
qed

text \<open>Starting on a formatted store and readable PIN digests is loading the keys.\<close>

lemma open_formatted:
  assumes "pin_ok w" and "pins_fit w" and "do_probe (env_do E) (env_do_base E) w = Inr True"
  obtains c where "vb_world c = w" "\<not> vb_termination c"
    "\<And>c'. load_private_keys E c = (Inr (), c') \<Longrightarrow> vault_backend_open E um am w = Inr c'"
proof -
  let ?b = "vault_backend_blank (replicate 32 0) (replicate 32 0) um am w"
  let ?uv = "slice (env_pin_user_off E) 32 (pin_mem w)" and ?av = "slice (env_pin_admin_off E) 32 (pin_mem w)"
  let ?c = "?b\<lparr>vb_user_verifier := ?uv, vb_admin_verifier := ?av\<rparr>"
  have "load_pin_verifiers_from_storage E ?b = (Inr (), ?c)"
    using load_pins [of ?b ?uv ?av] assms by (simp add: vault_backend_blank_def)
  then have "vault_backend_open E um am w = Inr c'" if "load_private_keys E ?c = (Inr (), c')" for c'
    using assms(3) that by (simp add: vault_backend_open_def seed_defaults_if_fresh_def)
  then show ?thesis by (intro that [of ?c]) (simp_all add: vault_backend_blank_def)
qed

end

section \<open>Data objects of the backend\<close>

lemma increment_stored:
  assumes "do_region (env_do E) mem ok" and "do_region_inv ok mem (env_do_base E) (vb_world b)"
    and "vb_increment_signature_counter E b = (Inr u, b')"
  shows "vb_sig_counter b' = sat_add32 (vb_sig_counter b) 1"
    and "vb_do_read E b' 0x93 = Some [ucast (drop_bit 16 (vb_sig_counter b')),
      ucast (drop_bit 8 (vb_sig_counter b')), ucast (vb_sig_counter b')]"
    and "t \<noteq> 0 \<Longrightarrow> t \<noteq> 0x93 \<Longrightarrow> vb_do_read E b' t = vb_do_read E b t"
    and "\<not> vb_termination b'"
proof -
  let ?c = "sat_add32 (vb_sig_counter b) 1"
  let ?buf = "[ucast (drop_bit 16 ?c AND 0xFF), ucast (drop_bit 8 ?c AND 0xFF), ucast (?c AND 0xFF)] :: bytes"
  obtain r w1 where d: "do_write (env_do E) (env_do_base E) (vb_world b) 0x93 ?buf = (r, w1)" by fastforce
  with assms(3) have i: "r = Inr ()" "b' = b\<lparr>vb_sig_counter := ?c, vb_world := w1\<rparr>" "\<not> vb_termination b"
    by (cases r; simp add: vb_increment_signature_counter_def unless_terminated_def Let_def split: if_splits)+
  have low: "ucast (x AND 0xFF) = (ucast x :: u8)" for x :: u32
  proof -
    have "x AND 0xFF = take_bit 8 x" by (simp add: take_bit_eq_mask mask_eq_exp_minus_1)
    then show ?thesis by (simp only:) (rule bit_word_eqI, auto simp: bit_simps)
  qed
  note m = do_region.region_is_map [OF assms(1,2), of "0x93" _ ?buf]
  show "vb_sig_counter b' = ?c" "\<not> vb_termination b'" using i by simp_all
  show "vb_do_read E b' 0x93 = Some [ucast (drop_bit 16 (vb_sig_counter b')),
      ucast (drop_bit 8 (vb_sig_counter b')), ucast (vb_sig_counter b')]"
    using m [of "0x93"] d i by (simp add: vb_do_read_def low)
  show "vb_do_read E b' t = vb_do_read E b t" if "t \<noteq> 0" "t \<noteq> 0x93"
    using m [of t] d i that by (simp add: vb_do_read_def)
qed

lemma open_counter_zero:
  assumes "vault_backend_open E um am w = Inr c"
  shows "vb_sig_counter c = 0"
proof -
  obtain w1 b where b: "load_pin_verifiers_from_storage E
      (vault_backend_blank (replicate 32 0) (replicate 32 0) um am w1) = (Inr (), b)"
    and l: "load_private_keys E b = (Inr (), c)"
    using assms by (auto simp: vault_backend_open_def split: prod.splits sum.splits)
  from b have "vb_sig_counter b = 0"
    by (auto simp: load_pin_verifiers_from_storage_def vault_backend_blank_def split: sum.splits)
  with load_private_keys_rest(2) [OF l] show ?thesis by simp
qed

lemma default_curve_kept:
  "\<not> uses_removed_curve (case slot of Dec \<Rightarrow> Ecdh BRAINPOOL_P256R1 | _ \<Rightarrow> Ecdsa BRAINPOOL_P256R1)"
proof -
  have "\<not> uses_removed_curve (Ecdh BRAINPOOL_P256R1)" "\<not> uses_removed_curve (Ecdsa BRAINPOOL_P256R1)"
    by code_simp+
  then show ?thesis by (cases slot) simp_all
qed

lemma do_write_frame:
  assumes "\<And>off d x. f (snd (vs_write vs x off d)) = f x"
  shows "f (snd (do_write vs base w t v)) = f w"
proof -
  have slot: "f (snd (do_write_slot vs base x i bs)) = f x" for x i bs
    using assms [of x "base + HEADER_LEN + i * SLOT_BYTES" bs]
    by (auto simp: do_write_slot_def split: prod.split)
  obtain r w1 where i: "do_init_if_needed vs base w = (r, w1)" by fastforce
  then have "f w1 = f w"
    using assms [of w] by (auto simp: do_init_if_needed_def Let_def split: sum.splits bool.splits prod.splits)
      (metis snd_conv)
  with i slot [of w1] show ?thesis
    by (simp add: do_write_def split: sum.split prod.split option.split)
qed

lemma load_private_keys_starts:
  assumes "\<And>sl. vs_read (env_key E) (vb_world c) (slot_cell sl) SEALED_BLOB_BYTES = Inr (cell sl)"
  obtains c' where "load_private_keys E c = (Inr (), c')" "vb_world c' = vb_world c"
  using assms [of Sig] assms [of Dec] assms [of Aut] that
  by (simp add: load_private_keys_def load_keys_world Let_def)

lemma put_do_reads:
  assumes "do_region (env_do E) mem ok" and "do_region_inv ok mem (env_do_base E) (vb_world b)"
    and "vb_put_do E tag v b = (r, b')" and "tag \<noteq> 0" and "t \<noteq> 0"
  shows "vb_do_read E b' t = (if r = Inr () \<and> t = tag then Some v else vb_do_read E b t)"
proof (cases "vb_termination b \<or> tag \<in> {0xC1, 0xC2, 0xC3}
    \<and> (case attributes_parse v of Inr attrs \<Rightarrow> uses_removed_curve attrs | Inl _ \<Rightarrow> False)")
  case True
  with assms(3) have "b' = b" "r \<noteq> Inr ()" by (auto simp: vb_put_do_def unless_terminated_def split: if_splits)
  then show ?thesis by simp
next
  case False
  obtain x w1 where d: "do_write (env_do E) (env_do_base E) (vb_world b) tag v = (x, w1)" by fastforce
  with False assms(3) have "r = map_err (\<lambda>_. Status ExecutionError) x" "b' = b\<lparr>vb_world := w1\<rparr>"
    by (auto simp: vb_put_do_def unless_terminated_def)
  moreover have "(map_err (\<lambda>_. Status ExecutionError) x = Inr ()) = (x = Inr ())" by (cases x) auto
  ultimately show ?thesis
    using do_region.region_is_map [OF assms(1,2,4,5), of v] d by (simp add: vb_do_read_def)
qed

section \<open>Properties\<close>

text \<open>
  (C10) A generated key survives a restart: if GENERATE ASYMMETRIC KEY PAIR answers with a public key,
  then a backend opened later on the same storages starts, reads back the same public key for that
  slot and holds the very secret that was generated; the sealed keys of the other two slots are
  untouched. This holds for every slot and every algorithm the attributes may select, for an AEAD that
  inverts and rejects extended ciphertexts and a curve library whose scalars re-encode to themselves.
\<close>

theorem generated_key_survives_restart:
  assumes "card_env E do_mem pin_mem key_mem do_ok pin_ok key_ok uval aval uok aok"
    and "aead_correct (env_crypto E)" and "aead_rejects_padding (env_crypto E)"
    and "scalar_canonical (env_crypto E)"
    and "generate_or_read_key (OpenPgpVaultBackend E) 0x80 slot b = (Inr pk, b')"
    and "key_ok (vb_world b)" and "SEALED_KEY_REGION_END \<le> length (key_mem (vb_world b))"
    and "do_ok (vb_world b)" and "env_do_base E + DO_STORE_REGION_BYTES \<le> length (do_mem (vb_world b))"
    and "do_probe (env_do E) (env_do_base E) (vb_world b) = Inr True"
    and "pin_ok (vb_world b)" and "env_pin_user_off E + 32 \<le> length (pin_mem (vb_world b))"
    and "env_pin_admin_off E + 32 \<le> length (pin_mem (vb_world b))"
  shows "\<exists>c. vault_backend_open E um am (vb_world b') = Inr c
    \<and> generate_or_read_key (OpenPgpVaultBackend E) 0x81 slot c = (Inr pk, c)
    \<and> slot_keys slot c = slot_keys slot b'
    \<and> (\<forall>sl. sl \<noteq> slot \<longrightarrow> slice (slot_cell sl) SEALED_BLOB_BYTES (key_mem (vb_world b')) =
         slice (slot_cell sl) SEALED_BLOB_BYTES (key_mem (vb_world b)))"
proof -
  have g: "generate_key E slot b = (Inr pk, b')"
    using assms(5) by (simp add: OpenPgpVaultBackend_def vb_generate_or_read_key_def unless_terminated_def
        split: if_splits)
  have fr: "pin_mem (vb_world b') = pin_mem (vb_world b) \<and> pin_ok (vb_world b')
      \<and> do_mem (vb_world b') = do_mem (vb_world b) \<and> do_ok (vb_world b')"
    using card_env.generated_key_reloads [OF assms(1) g refl assms(2-4,6-9)] assms(8,11) by (metis prod.inject)
  have "vs_read (env_do E) (vb_world b') (env_do_base E) HEADER_LEN =
      vs_read (env_do E) (vb_world b) (env_do_base E) HEADER_LEN"
    using fr assms(8,9) by (simp add: vault_contract.read_in [OF card_env.do_storage [OF assms(1)]])
  then have probe: "do_probe (env_do E) (env_do_base E) (vb_world b') = Inr True"
    using assms(10) by (simp add: do_probe_def)
  obtain c where c: "vb_world c = vb_world b'" "\<not> vb_termination c"
    "\<And>c'. load_private_keys E c = (Inr (), c') \<Longrightarrow> vault_backend_open E um am (vb_world b') = Inr c'"
    using card_env.open_formatted [OF assms(1) _ _ probe] fr assms(12,13) by auto
  obtain c' where c': "load_private_keys E c = (Inr (), c')" "slot_keys slot c' = slot_keys slot b'"
    "read_public_key E slot c' = Inr pk"
    and o: "\<And>sl. sl \<noteq> slot \<Longrightarrow> slice (slot_cell sl) SEALED_BLOB_BYTES (key_mem (vb_world b')) =
      slice (slot_cell sl) SEALED_BLOB_BYTES (key_mem (vb_world b))"
    using card_env.generated_key_reloads [OF assms(1) g c(1) assms(2-4,6-9)] by metis
  have "\<not> vb_termination c'" using load_private_keys_rest [OF c'(1)] c(2) by simp
  with c' c(3) o show ?thesis
    by (simp add: OpenPgpVaultBackend_def vb_generate_or_read_key_def unless_terminated_def)
qed

text \<open>The rig with a formatted, empty data-object store.\<close>

definition formatted_backend :: "card_world vault_backend" where
  "formatted_backend = vault_backend_blank (replicate 32 0) (replicate 32 0)
     (pin_machine_new pin_policy_config_default) (pin_machine_new pin_policy_config_default)
     (rig_world\<lparr>cw_do := \<lparr>fv_mem = do_blank, fv_fail_next_write = False\<rparr>\<rparr>)"

lemma do_blank_region:
  "do_header_ok 0 do_blank" "do_slots 0 do_blank = replicate SLOT_COUNT (replicate SLOT_BYTES 0)"
proof -
  have "splice (replicate DO_STORE_REGION_BYTES 0) 0 do_blank = do_blank"
    using length_do_blank by (simp add: splice_def)
  then show "do_header_ok 0 do_blank" "do_slots 0 do_blank = replicate SLOT_COUNT (replicate SLOT_BYTES 0)"
    using do_init_splice [of 0 "replicate DO_STORE_REGION_BYTES 0" do_blank] by simp_all
qed

lemma formatted_world:
  "fv_mem (cw_do (vb_world formatted_backend)) = do_blank"
  "\<not> fv_fail_next_write (cw_do (vb_world formatted_backend))"
  "cw_key (vb_world formatted_backend) = fake_vault_new 66200"
  "cw_pin (vb_world formatted_backend) = fake_vault_new 64"
  "\<not> vb_termination formatted_backend"
  by (simp_all add: formatted_backend_def vault_backend_blank_def rig_world_def)

lemma formatted_do:
  "do_region_inv (\<lambda>w. \<not> fv_fail_next_write (cw_do w)) (\<lambda>w. fv_mem (cw_do w)) 0 (vb_world formatted_backend)"
  "do_content 0 (fv_mem (cw_do (vb_world formatted_backend))) = Map.empty"
  using length_do_blank
  by (simp_all only: do_region_inv_def do_inv_def formatted_world do_blank_region blank_slots do_content_def
      if_True simp_thms add_0 order_refl)

lemma rig_do: "do_region (env_do (rig_env C mk)) (\<lambda>w. fv_mem (cw_do w)) (\<lambda>w. \<not> fv_fail_next_write (cw_do w))"
  by (simp add: do_region_def rig_env_def vault_via_contract [OF fake_vault.vault_contract_axioms])

lemma formatted_reads:
  "do_probe (env_do (rig_env C mk)) 0 (vb_world formatted_backend) = Inr True"
  "t \<noteq> 0 \<Longrightarrow> do_read (env_do (rig_env C mk)) 0 (vb_world formatted_backend) t = None"
  using do_region.probe_in [OF rig_do formatted_do(1), of C mk]
    do_region.do_read_law [OF rig_do formatted_do(1), of t C mk] formatted_do(2)
  by (simp_all add: formatted_world(1) do_blank_region del: list_update.simps)

lemma formatted_generates:
  "\<exists>pk b'. generate_or_read_key (OpenPgpVaultBackend (rig_env plain_crypto [])) 0x80 Sig formatted_backend
     = (Inr pk, b')"
proof -
  let ?E = "rig_env plain_crypto []" and ?b = formatted_backend
  have a: "algorithm_attributes_for_slot ?E ?b Sig = Ecdsa BRAINPOOL_P256R1"
    using formatted_reads(2) [of "0xC1" plain_crypto "[]"]
    by (simp add: algorithm_attributes_for_slot_def vb_do_read_def rig_env_def)
  obtain raw st1 where r: "fake_trng_fill 32 (cw_trng (vb_world ?b)) = (raw, st1)" by fastforce
  obtain nonce st2 where n: "fake_trng_fill 12 st1 = (nonce, st2)" by fastforce
  have l: "length raw = 32" "length nonce = 12"
    using fake_trng_fill_length [of 32 "cw_trng (vb_world ?b)"] fake_trng_fill_length [of 12 st1] r n by simp_all
  have g: "bp_signing_key_generate plain_crypto (env_trng ?E) (vb_world ?b) = (Inr raw, (vb_world ?b)\<lparr>cw_trng := st1\<rparr>)"
  proof -
    have "SCALAR_SAMPLE_TRIES = Suc 127" by simp
    moreover have "bp_from_slice plain_crypto raw = Some raw" using l by (simp add: plain_crypto_def)
    moreover have "tr_try_fill (env_trng ?E) 32 (vb_world ?b) = (Inr raw, (vb_world ?b)\<lparr>cw_trng := st1\<rparr>)"
      using r by (simp add: rig_env_def FakeTrng_def trng_via_def)
    ultimately show ?thesis unfolding bp_signing_key_generate_def by (simp only: bp_sample.simps) simp
  qed
  have s: "seal plain_crypto (env_trng ?E) [] OpenPgpSig raw ((vb_world ?b)\<lparr>cw_trng := st1\<rparr>) =
      (Inr (1 # nonce @ raw @ replicate 16 1), (vb_world ?b)\<lparr>cw_trng := st2\<rparr>)"
    using n l by (auto simp: seal_def rig_env_def FakeTrng_def trng_via_def plain_crypto_def build_aad_def
        derive_wrapping_key_def)
  show ?thesis
    using g s a l formatted_world
    by (simp add: OpenPgpVaultBackend_def vb_generate_or_read_key_def unless_terminated_def generate_key_def
        generate_brainpool_def persist_private_key_def rig_env_def vault_via_def fake_vault_defs fake_vault_new_def
        storage_cell_eq sealed_layout_defs out512_def bp_verifying_key_sec1_def plain_crypto_def)
qed

theorem generated_key_survives_restart_witness:
  "\<exists>pk b' c. generate_or_read_key (OpenPgpVaultBackend (rig_env plain_crypto [])) 0x80 Sig formatted_backend
      = (Inr pk, b')
    \<and> vault_backend_open (rig_env plain_crypto []) (pin_machine_new pin_policy_config_default)
        (pin_machine_new pin_policy_config_default) (vb_world b') = Inr c
    \<and> generate_or_read_key (OpenPgpVaultBackend (rig_env plain_crypto [])) 0x81 Sig c = (Inr pk, c)"
proof -
  obtain pk b' where g: "generate_or_read_key (OpenPgpVaultBackend (rig_env plain_crypto [])) 0x80 Sig
      formatted_backend = (Inr pk, b')" using formatted_generates by blast
  have c: "scalar_canonical (env_crypto (rig_env plain_crypto []))"
    by (simp add: scalar_canonical_def rig_env_def plain_crypto_def)
  have x: "env_crypto (rig_env plain_crypto []) = plain_crypto" "env_do_base (rig_env plain_crypto []) = 0"
    "env_pin_user_off (rig_env plain_crypto []) = 0" "env_pin_admin_off (rig_env plain_crypto []) = 32"
    by (simp_all add: rig_env_def)
  have len: "DO_STORE_REGION_BYTES \<le> length (fv_mem (cw_do (vb_world formatted_backend)))"
    unfolding formatted_world(1) length_do_blank by simp
  show ?thesis
    using generated_key_survives_restart [OF rig.card_env_axioms _ _ c g, of
        "pin_machine_new pin_policy_config_default" "pin_machine_new pin_policy_config_default"]
      formatted_world formatted_reads(1) [of plain_crypto "[]"] plain_crypto_aead g len
    by (auto simp: x fake_vault_new_def sealed_layout_defs)
qed

text \<open>
  The removed curve cannot come in: if no key slot's attributes name BrainpoolP512r1, then after
  any PUT DATA, whatever its tag and value and whether it succeeds or not, none does.
\<close>

theorem removed_curve_stays_out:
  assumes "vault_contract (env_do E) mem ok" and "do_region_inv ok mem (env_do_base E) (vb_world b)"
    and "\<forall>slot. \<not> uses_removed_curve (algorithm_attributes (OpenPgpVaultBackend E) b slot)"
    and "tag \<noteq> 0" and "put_do (OpenPgpVaultBackend E) tag v b = (r, b')"
  shows "\<not> uses_removed_curve (algorithm_attributes (OpenPgpVaultBackend E) b' slot)"
proof -
  have p: "vb_put_do E tag v b = (r, b')" using assms(5) by (simp add: OpenPgpVaultBackend_def)
  have reg: "do_region (env_do E) mem ok" using assms(1) by (simp add: do_region_def)
  define t :: u16 where "t = (case slot of Sig \<Rightarrow> 0xC1 | Dec \<Rightarrow> 0xC2 | Aut \<Rightarrow> 0xC3)"
  have t: "t \<noteq> 0" "t \<in> {0xC1, 0xC2, 0xC3}" by (cases slot; simp add: t_def)+
  have a: "algorithm_attributes_for_slot E x slot =
      (let d = (case slot of Dec \<Rightarrow> Ecdh BRAINPOOL_P256R1 | _ \<Rightarrow> Ecdsa BRAINPOOL_P256R1) in
       case vb_do_read E x t of Some v \<Rightarrow> (case attributes_parse v of Inr a \<Rightarrow> a | Inl _ \<Rightarrow> d) | None \<Rightarrow> d)" for x
    by (simp add: algorithm_attributes_for_slot_def t_def Let_def)
  have "\<not> uses_removed_curve (algorithm_attributes_for_slot E b' slot)"
  proof (cases "r = Inr () \<and> t = tag")
    case True
    then have "\<not> (case attributes_parse v of Inr attrs \<Rightarrow> uses_removed_curve attrs | Inl _ \<Rightarrow> False)"
      using p t by (auto simp: vb_put_do_def unless_terminated_def split: if_splits)
    then show ?thesis
      using True put_do_reads [OF reg assms(2) p assms(4) t(1)] default_curve_kept [of slot]
      by (simp add: a Let_def split: sum.splits del: uses_removed_curve.simps)
  next
    case False
    then have "algorithm_attributes_for_slot E b' slot = algorithm_attributes_for_slot E b slot"
      by (simp only: a put_do_reads [OF reg assms(2) p assms(4) t(1)] if_False)
    then show ?thesis using assms(3) by (simp add: OpenPgpVaultBackend_def)
  qed
  then show ?thesis by (simp add: OpenPgpVaultBackend_def)
qed

theorem removed_curve_stays_out_witness:
  "\<not> uses_removed_curve (algorithm_attributes (OpenPgpVaultBackend (rig_env plain_crypto []))
      (snd (put_do (OpenPgpVaultBackend (rig_env plain_crypto [])) 0xC1
        (0x13 # BRAINPOOL_P512R1_OID) formatted_backend)) Sig)"
proof -
  let ?E = "rig_env plain_crypto []"
  have a: "\<forall>slot. \<not> uses_removed_curve (algorithm_attributes (OpenPgpVaultBackend ?E) formatted_backend slot)"
  proof
    fix slot
    have "algorithm_attributes (OpenPgpVaultBackend ?E) formatted_backend slot =
        (case slot of Dec \<Rightarrow> Ecdh BRAINPOOL_P256R1 | _ \<Rightarrow> Ecdsa BRAINPOOL_P256R1)"
      using formatted_reads(2) [of _ plain_crypto "[]"]
      by (cases slot) (simp_all add: OpenPgpVaultBackend_def algorithm_attributes_for_slot_def
          vb_do_read_def rig_env_def)
    then show "\<not> uses_removed_curve (algorithm_attributes (OpenPgpVaultBackend ?E) formatted_backend slot)"
      using default_curve_kept [of slot] by simp
  qed
  have "env_do_base ?E = 0" by (simp add: rig_env_def)
  with formatted_do(1)
  have i: "do_region_inv (\<lambda>w. \<not> fv_fail_next_write (cw_do w)) (\<lambda>w. fv_mem (cw_do w)) (env_do_base ?E)
      (vb_world formatted_backend)" by simp
  show ?thesis
    by (rule removed_curve_stays_out [OF rig.do_storage [of "[]"] i a _ prod.collapse [symmetric]]) simp
qed

text \<open>
  The signature counter starts over at every start: whatever count the storage holds, a backend
  that has just been opened counts from zero, so that after its first signature the counter data object
  reads 000001. Within one run the object follows the count, modulo the three bytes it has.
\<close>

theorem signature_counter_restarts:
  assumes "vault_contract (env_do E) mem ok" and "vault_backend_open E um am w = Inr c"
    and "do_region_inv ok mem (env_do_base E) (vb_world c)"
    and "increment_signature_counter (OpenPgpVaultBackend E) c = (Inr u, c')"
  shows "get_do (OpenPgpVaultBackend E) c' 0x93 = Inr [0, 0, 1]"
proof -
  have reg: "do_region (env_do E) mem ok" using assms(1) by (simp add: do_region_def)
  have i: "vb_increment_signature_counter E c = (Inr u, c')" using assms(4) by (simp add: OpenPgpVaultBackend_def)
  note s = increment_stored [OF reg assms(3) i]
  have "vb_sig_counter c' = 1" using s(1) open_counter_zero [OF assms(2)] by (simp add: sat_add32_def)
  with s(2) have "vb_do_read E c' 0x93 = Some [0, 0, 1]" by simp
  with s(4) show ?thesis by (simp add: OpenPgpVaultBackend_def vb_get_do_def)
qed

text \<open>A card whose storage says that five signatures were made.\<close>

definition counted_world :: card_world where
  "counted_world = snd (do_write (env_do (rig_env plain_crypto [])) 0 (vb_world formatted_backend) 0x93 [0, 0, 5])"

lemma counted_world_props:
  "do_region_inv (\<lambda>w. \<not> fv_fail_next_write (cw_do w)) (\<lambda>w. fv_mem (cw_do w)) 0 counted_world"
  "do_read (env_do (rig_env plain_crypto [])) 0 counted_world 0x93 = Some [0, 0, 5]"
  "do_probe (env_do (rig_env plain_crypto [])) 0 counted_world = Inr True"
  "cw_pin counted_world = fake_vault_new 64" "cw_key counted_world = fake_vault_new 66200"
proof -
  note law = do_region.do_write_law [OF rig_do formatted_do(1), of "0x93" plain_crypto "[]" "[0, 0, 5]"]
  show i: "do_region_inv (\<lambda>w. \<not> fv_fail_next_write (cw_do w)) (\<lambda>w. fv_mem (cw_do w)) 0 counted_world"
    using law by (simp add: counted_world_def)
  have c: "do_content 0 (fv_mem (cw_do counted_world)) 0x93 = Some [0, 0, 5]"
    using law by (simp add: counted_world_def formatted_do(2))
  then show "do_read (env_do (rig_env plain_crypto [])) 0 counted_world 0x93 = Some [0, 0, 5]"
    using do_region.do_read_law [OF rig_do i] by simp
  have "do_header_ok 0 (fv_mem (cw_do counted_world))"
    using c by (simp add: do_content_def split: if_splits)
  then show "do_probe (env_do (rig_env plain_crypto [])) 0 counted_world = Inr True"
    using do_region.probe_in [OF rig_do i] by simp
  have f: "cw_pin (snd (vs_write (env_do (rig_env plain_crypto [])) x off d)) = cw_pin x"
    "cw_key (snd (vs_write (env_do (rig_env plain_crypto [])) x off d)) = cw_key x" for x off d
    by (simp_all add: rig_env_def)
  show "cw_pin counted_world = fake_vault_new 64" "cw_key counted_world = fake_vault_new 66200"
    unfolding counted_world_def
    using do_write_frame [of cw_pin, OF f(1)] do_write_frame [of cw_key, OF f(2)] formatted_world by metis+
qed

theorem signature_counter_restarts_witness:
  "\<exists>c c'. do_read (env_do (rig_env plain_crypto [])) 0 counted_world 0x93 = Some [0, 0, 5]
    \<and> vault_backend_open (rig_env plain_crypto []) (pin_machine_new pin_policy_config_default)
        (pin_machine_new pin_policy_config_default) counted_world = Inr c
    \<and> increment_signature_counter (OpenPgpVaultBackend (rig_env plain_crypto [])) c = (Inr (), c')
    \<and> get_do (OpenPgpVaultBackend (rig_env plain_crypto [])) c' 0x93 = Inr [0, 0, 1]"
proof -
  let ?E = "rig_env plain_crypto []" and ?m = "pin_machine_new pin_policy_config_default"
  note w = counted_world_props
  have base: "env_do_base ?E = 0" "env_pin_user_off ?E = 0" "env_pin_admin_off ?E = 32" by (simp_all add: rig_env_def)
  obtain c where c: "vb_world c = counted_world" "\<not> vb_termination c"
    "\<And>c'. load_private_keys ?E c = (Inr (), c') \<Longrightarrow> vault_backend_open ?E ?m ?m counted_world = Inr c'"
    using rig.open_formatted [of counted_world "[]" ?m ?m] w by (auto simp: base fake_vault_new_def)
  have rd: "vs_read (env_key ?E) (vb_world c) (slot_cell sl) SEALED_BLOB_BYTES =
      Inr (slice (slot_cell sl) SEALED_BLOB_BYTES (fv_mem (cw_key counted_world)))" for sl
    using w(5) slot_cells_apart(2) [of sl]
    by (simp add: c rig_env_def fake_vault_defs fake_vault_new_def sealed_layout_defs)
  obtain c1 where l: "load_private_keys ?E c = (Inr (), c1)" "vb_world c1 = counted_world"
    using load_private_keys_starts [OF rd] c(1) by auto
  then have o: "vault_backend_open ?E ?m ?m counted_world = Inr c1" "\<not> vb_termination c1"
    using c load_private_keys_rest [OF l(1)] by simp_all
  have ok: "fst (do_write (env_do ?E) 0 counted_world 0x93 [x, y, z]) = Inr ()" for x y z
    using do_region.region_write_result [OF rig_do w(1), of "0x93" plain_crypto "[]" "[x, y, z]"] w(2) by simp
  have "fst (increment_signature_counter (OpenPgpVaultBackend ?E) c1) = Inr ()"
    using o l by (simp add: OpenPgpVaultBackend_def vb_increment_signature_counter_def unless_terminated_def
        base Let_def ok split: prod.split) (metis ok fst_conv map_err_simps(2))
  then obtain c' where i: "increment_signature_counter (OpenPgpVaultBackend ?E) c1 = (Inr (), c')"
    by (metis prod.collapse)
  have r: "do_region_inv (\<lambda>w. \<not> fv_fail_next_write (cw_do w)) (\<lambda>w. fv_mem (cw_do w)) (env_do_base ?E) (vb_world c1)"
    using w(1) l base by simp
  show ?thesis
    using signature_counter_restarts [OF rig.do_storage o(1) r i] w(2) o(1) i by blast
qed

end
