(* ===== verification/Gf256.thy ===== *)
theory Gf256
  imports Prelude
begin

text \<open>
  The field with 256 elements in its byte representation, as a type of class \<open>field\<close>: addition is
  exclusive or, multiplication is that of polynomials over two elements modulo
  \<open>x^8 + x^4 + x^3 + x + 1\<close>. The secret-sharing code takes its field from the crate \<open>vsss_rs\<close>; this
  type is the instance on which its interface is interpreted.
\<close>

section \<open>Multiplication of bytes\<close>

definition xtime :: "u8 \<Rightarrow> u8" where
  "xtime a = push_bit 1 a XOR (if bit a 7 then 0x1B else 0)"

fun xtimes :: "nat \<Rightarrow> u8 \<Rightarrow> u8" where
  "xtimes 0 a = a"
| "xtimes (Suc i) a = xtime (xtimes i a)"

definition byte_mul :: "u8 \<Rightarrow> u8 \<Rightarrow> u8" where
  "byte_mul a b = foldr (\<lambda>i acc. (if bit b i then xtimes i a else 0) XOR acc) [0..<8] 0"

fun byte_pow :: "u8 \<Rightarrow> nat \<Rightarrow> u8" where
  "byte_pow a 0 = 1"
| "byte_pow a (Suc n) = byte_mul a (byte_pow a n)"

definition byte_inv :: "u8 \<Rightarrow> u8" where
  "byte_inv a = byte_pow a 254"

subsection \<open>Linear functions on bytes\<close>

definition xor_linear :: "(u8 \<Rightarrow> u8) \<Rightarrow> bool" where
  "xor_linear f \<longleftrightarrow> (\<forall>a b. f (a XOR b) = f a XOR f b)"

lemma xor_linear_zero: "xor_linear f \<Longrightarrow> f 0 = 0"
  unfolding xor_linear_def by (metis bit.xor_self)

lemma xor_linear_comp: "xor_linear f \<Longrightarrow> xor_linear g \<Longrightarrow> xor_linear (\<lambda>a. f (g a))"
  by (simp add: xor_linear_def)

lemma xor_linear_xor: "xor_linear f \<Longrightarrow> xor_linear g \<Longrightarrow> xor_linear (\<lambda>a. f a XOR g a)"
  by (simp add: xor_linear_def ac_simps)

lemma bit_foldr_basis:
  "distinct is \<Longrightarrow> n < 8 \<Longrightarrow> set is \<subseteq> {..<8} \<Longrightarrow>
   bit (foldr (\<lambda>i acc. (if P i then 2 ^ i else 0) XOR acc) is (0 :: u8)) n \<longleftrightarrow> n \<in> set is \<and> P n"
  by (induction "is") (auto simp: bit_simps)

lemma byte_basis: "(a :: u8) = foldr (\<lambda>i acc. (if bit a i then 2 ^ i else 0) XOR acc) [0..<8] 0"
proof (rule bit_word_eqI)
  fix n assume "n < LENGTH(8)"
  then show "bit a n = bit (foldr (\<lambda>i acc. (if bit a i then 2 ^ i else 0) XOR acc) [0..<8] (0 :: u8)) n"
    by (subst bit_foldr_basis) auto
qed

lemma xor_linear_foldr:
  "xor_linear f \<Longrightarrow> f (foldr (\<lambda>i acc. (if P i then e i else 0) XOR acc) is 0) =
     foldr (\<lambda>i acc. (if P i then f (e i) else 0) XOR acc) is 0"
  by (induction "is") (auto simp: xor_linear_zero xor_linear_def)

lemma xor_linear_eqI:
  assumes "xor_linear f" and "xor_linear g" and "\<And>i. i < 8 \<Longrightarrow> f (2 ^ i) = g (2 ^ i)"
  shows "f a = g a"
proof -
  have "foldr (\<lambda>i acc. (if bit a i then f (2 ^ i) else 0) XOR acc) is 0 =
      foldr (\<lambda>i acc. (if bit a i then g (2 ^ i) else 0) XOR acc) is 0"
    if "set is \<subseteq> {..<8}" for "is"
    using that assms(3) by (induction "is") auto
  from this [of "[0..<8]"]
  have "f (foldr (\<lambda>i acc. (if bit a i then 2 ^ i else 0) XOR acc) [0..<8] 0) =
      g (foldr (\<lambda>i acc. (if bit a i then 2 ^ i else 0) XOR acc) [0..<8] 0)"
    by (simp only: xor_linear_foldr [OF assms(1)] xor_linear_foldr [OF assms(2)] set_upt) force
  then show ?thesis by (simp only: byte_basis [of a, symmetric])
qed

lemma xtime_linear: "xor_linear xtime"
  unfolding xor_linear_def
proof (intro allI)
  fix a b :: u8
  show "xtime (a XOR b) = xtime a XOR xtime b"
    by (rule bit_word_eqI) (auto simp: xtime_def bit_simps)
qed

lemma xtimes_linear: "xor_linear (xtimes i)"
proof (induction i)
  case 0
  then show ?case by (simp add: xor_linear_def)
next
  case (Suc i)
  from xor_linear_comp [OF xtime_linear Suc] show ?case by simp
qed

lemma xtimes_add: "xtimes i (xtimes j a) = xtimes (i + j) a"
  by (induction i) simp_all

lemma byte_mul_linear_right: "xor_linear (byte_mul a)"
proof -
  have "foldr (\<lambda>i acc. (if bit (b XOR c) i then xtimes i a else 0) XOR acc) is 0 =
      foldr (\<lambda>i acc. (if bit b i then xtimes i a else 0) XOR acc) is 0 XOR
      foldr (\<lambda>i acc. (if bit c i then xtimes i a else 0) XOR acc) is 0" for b c :: u8 and "is"
    by (induction "is") (auto simp: bit_simps xor.assoc xor.left_commute)
  then show ?thesis by (simp add: xor_linear_def byte_mul_def)
qed

lemma byte_mul_linear_left: "xor_linear (\<lambda>a. byte_mul a b)"
proof -
  have "xor_linear (\<lambda>a. foldr (\<lambda>i acc. (if bit b i then xtimes i a else 0) XOR acc) is 0)" for "is"
  proof (induction "is")
    case Nil
    then show ?case by (simp add: xor_linear_def)
  next
    case (Cons i "is")
    from xor_linear_xor [OF xtimes_linear [of i] Cons] Cons show ?case by (simp add: xor_linear_def)
  qed
  from this [of "[0..<8]"] show ?thesis by (simp add: byte_mul_def)
qed

lemma byte_mul_power: "i < 8 \<Longrightarrow> byte_mul a (2 ^ i) = xtimes i a"
proof -
  assume "i < 8"
  then have "i \<in> {0, 1, 2, 3, 4, 5, 6, 7}" by auto
  then show ?thesis by (auto simp: byte_mul_def upt_rec bit_simps)
qed

lemma xtimes_one: "i < 8 \<Longrightarrow> xtimes i 1 = 2 ^ i"
proof -
  have "\<forall>i \<in> set [0..<8]. xtimes i 1 = 2 ^ i" by code_simp
  then show "i < 8 \<Longrightarrow> xtimes i 1 = 2 ^ i" by simp
qed

subsection \<open>Ring laws\<close>

lemma byte_mul_commute: "byte_mul a b = byte_mul b a"
proof (rule xor_linear_eqI [where f = "byte_mul a" and g = "\<lambda>b. byte_mul b a"])
  fix i :: nat assume i: "i < 8"
  show "byte_mul a (2 ^ i) = byte_mul (2 ^ i) a"
  proof (rule xor_linear_eqI [where f = "\<lambda>a. byte_mul a (2 ^ i)"])
    fix j :: nat assume "j < 8"
    with i show "byte_mul (2 ^ j) (2 ^ i) = byte_mul (2 ^ i) (2 ^ j)"
      using xtimes_add [of i j 1] xtimes_add [of j i 1]
      by (simp add: byte_mul_power xtimes_one add.commute)
  qed (rule byte_mul_linear_left byte_mul_linear_right)+
qed (rule byte_mul_linear_left byte_mul_linear_right)+

text \<open>Multiplying by \<open>x\<close> can be moved to either factor; the eighth power folds back.\<close>

lemma xtimes_8: "xtimes 8 a = byte_mul a 0x1B"
proof (rule xor_linear_eqI [where f = "xtimes 8"])
  have "xtimes 8 1 = 0x1B" by code_simp
  then have "xtimes 8 (2 ^ j) = xtimes j 0x1B" if "j < 8" for j
    using that xtimes_add [of 8 j 1] xtimes_add [of j 8 1] by (simp add: xtimes_one add.commute)
  then show "xtimes 8 (2 ^ j) = byte_mul (2 ^ j) 0x1B" if "j < 8" for j
    using that byte_mul_power [of j "0x1B"] by (simp add: byte_mul_commute)
qed (rule xtimes_linear byte_mul_linear_left)+

lemma xtime_byte_mul: "xtime (byte_mul a b) = byte_mul a (xtime b)"
proof (rule xor_linear_eqI [where f = "\<lambda>b. xtime (byte_mul a b)"])
  show "xor_linear (\<lambda>b. xtime (byte_mul a b))"
    by (rule xor_linear_comp [OF xtime_linear byte_mul_linear_right])
  show "xor_linear (\<lambda>b. byte_mul a (xtime b))"
    by (rule xor_linear_comp [OF byte_mul_linear_right xtime_linear])
  have double: "\<forall>i \<in> set [0..<7]. xtime (2 ^ i) = 2 ^ Suc i" "xtime (2 ^ 7) = 0x1B" by code_simp+
  fix i :: nat assume i: "i < 8"
  show "xtime (byte_mul a (2 ^ i)) = byte_mul a (xtime (2 ^ i))"
  proof (cases "i < 7")
    case True
    then have "xtime (2 ^ i) = 2 ^ Suc i" using double(1) by simp
    then show ?thesis
      using True i byte_mul_power [of i a] byte_mul_power [of "Suc i" a] by (simp only: xtimes.simps)
  next
    case False
    with i have "i = 7" by simp
    then show ?thesis
      using byte_mul_power [of 7 a] xtimes_8 [of a] double(2) by (simp add: numeral_eq_Suc)
  qed
qed

lemma xtimes_byte_mul: "xtimes i (byte_mul a b) = byte_mul a (xtimes i b)"
  by (induction i) (simp_all add: xtime_byte_mul)

lemma byte_mul_assoc: "byte_mul (byte_mul a b) c = byte_mul a (byte_mul b c)"
proof (rule xor_linear_eqI [where f = "\<lambda>c. byte_mul (byte_mul a b) c"])
  show "xor_linear (\<lambda>c. byte_mul a (byte_mul b c))"
    by (rule xor_linear_comp [OF byte_mul_linear_right byte_mul_linear_right])
  show "byte_mul (byte_mul a b) (2 ^ i) = byte_mul a (byte_mul b (2 ^ i))" if "i < 8" for i
    using that by (simp add: byte_mul_power xtimes_byte_mul)
qed (rule byte_mul_linear_right)

lemma byte_mul_one: "byte_mul 1 a = a"
  using byte_mul_power [of 0 a] by (simp add: byte_mul_commute)

lemma byte_mul_xor: "byte_mul (a XOR b) c = byte_mul a c XOR byte_mul b c"
  using byte_mul_linear_left [of c] by (simp add: xor_linear_def)

lemma byte_pow_add: "byte_pow a (m + n) = byte_mul (byte_pow a m) (byte_pow a n)"
  by (induction m) (simp_all add: byte_mul_one byte_mul_assoc)

lemma byte_pow_one [simp]: "byte_pow 1 n = 1"
  by (induction n) (simp_all add: byte_mul_one)

lemma byte_pow_mult: "byte_pow a (m * n) = byte_pow (byte_pow a m) n"
  by (induction n) (simp_all add: byte_pow_add)

lemma byte_pow_small:
  "byte_pow a 3 = byte_mul a (byte_mul a a)"
  "byte_pow a 5 = byte_mul a (byte_mul a (byte_mul a (byte_mul a a)))"
  using byte_mul_one byte_mul_commute [of _ 1] by (simp_all add: numeral_eq_Suc)

lemma byte_mul_zero: "byte_mul 0 b = 0"
  using xor_linear_zero [OF byte_mul_linear_left, of b] .

subsection \<open>Inverses\<close>

text \<open>
  The element 3 has order 255, so that its powers are all the other bytes. Its power 255 is 1 and the
  powers 85, 51 and 15 are not.
\<close>

lemma powers_of_three:
  "byte_pow 3 15 = 0x35" "byte_pow 3 17 = 0xE1" "byte_pow 3 51 = 0x0C" "byte_pow 3 85 = 0xBD" "byte_pow 3 255 = 1"
proof -
  have steps: "byte_mul 3 3 = 5" "byte_mul 3 5 = 0x0F" "byte_mul 3 0x0F = 0x11" "byte_mul 3 0x11 = 0x33"
    "byte_mul 0x33 0x33 = 0x72" "byte_mul 0x33 0x72 = 0x35" "byte_mul 3 0x35 = 0x5F"
    "byte_mul 3 0x5F = 0xE1" "byte_mul 0xE1 0xE1 = 0x5C" "byte_mul 0xE1 0x5C = 0x0C"
    "byte_mul 0xE1 0x0C = 0xE0" "byte_mul 0xE1 0xE0 = 0xBD"
    "byte_mul 0xBD 0xBD = 0xBC" "byte_mul 0xBD 0xBC = 1" by code_simp+
  have "(15 :: nat) = 5 * 3" "(17 :: nat) = Suc (Suc 15)" by simp_all
  then show p15: "byte_pow 3 15 = 0x35" and p17: "byte_pow 3 17 = 0xE1"
    by (simp_all only: byte_pow.simps byte_pow_mult byte_pow_small steps)
  have "(51 :: nat) = 17 * 3" "(85 :: nat) = 17 * 5" "(255 :: nat) = 85 * 3" by simp_all
  then show "byte_pow 3 51 = 0x0C" and "byte_pow 3 85 = 0xBD" and "byte_pow 3 255 = 1"
    using p17 by (simp_all only: byte_pow_mult byte_pow_small steps)
qed

lemma order_of_three:
  assumes "0 < d" and "d < 255"
  shows "byte_pow 3 d \<noteq> 1"
proof
  assume d: "byte_pow 3 d = 1"
  define m where "m = gcd d 255"
  obtain x y where "d * x = 255 * y + m"
    using bezout_nat [of d 255] assms(1) unfolding m_def by auto
  then have "byte_mul (byte_pow (byte_pow 3 255) y) (byte_pow 3 m) = byte_pow (byte_pow 3 d) x"
    by (simp only: byte_pow_mult [symmetric] byte_pow_add [symmetric])
  then have m: "byte_pow 3 m = 1" by (simp only: powers_of_three d byte_pow_one byte_mul_one)
  have all: "\<forall>m \<in> set [0..<255]. m dvd 255 \<longrightarrow> m dvd 85 \<or> m dvd 51 \<or> m dvd (15 :: nat)" by code_simp
  have "m dvd 255" "m < 255" using assms gcd_le1_nat [of d 255] unfolding m_def by (simp, linarith)
  with all have "m dvd 85 \<or> m dvd 51 \<or> m dvd 15" by auto
  moreover have "byte_pow 3 n = 1" if "m dvd n" for n
    using that m byte_pow_mult [of 3 m] by (auto elim!: dvdE)
  ultimately have "byte_pow 3 85 = 1 \<or> byte_pow 3 51 = 1 \<or> byte_pow 3 15 = 1" by blast
  then show False by (simp only: powers_of_three) simp
qed

lemma three_generates:
  assumes "a \<noteq> 0"
  obtains i where "a = byte_pow 3 i"
proof -
  have split: "byte_mul (byte_pow 3 i) (byte_pow 3 (255 - i)) = 1" if "i < 255" for i
    using that byte_pow_add [of 3 i "255 - i"] powers_of_three by simp
  have neq: "byte_pow 3 i \<noteq> byte_pow 3 j" if "i < j" "j < 255" for i j
  proof
    assume "byte_pow 3 i = byte_pow 3 j"
    then have "byte_pow 3 (j + (255 - i)) = 1"
      using split [of i] that by (simp only: byte_pow_add)
    moreover have "j + (255 - i) = 255 + (j - i)" using that by simp
    ultimately have "byte_pow 3 (j - i) = 1"
      using byte_pow_add [of 3 255 "j - i"] by (simp only: powers_of_three byte_mul_one)
    moreover have "0 < j - i" "j - i < 255" using that by auto
    ultimately show False using order_of_three [of "j - i"] by (simp only:)
  qed
  have inj: "inj_on (byte_pow 3) {..<255}"
  proof (rule inj_onI)
    fix i j assume "i \<in> {..<255}" "j \<in> {..<255}" "byte_pow 3 i = byte_pow 3 j"
    then have "i < 255" "j < 255" "\<not> byte_pow 3 i \<noteq> byte_pow 3 j" by (simp_all only: lessThan_iff)
    with neq [of i j] neq [of j i] show "i = j" by (cases rule: linorder_cases [of i j]) simp_all
  qed
  have "byte_pow 3 i \<noteq> 0" if "i < 255" for i
  proof
    assume "byte_pow 3 i = 0"
    with split [OF that] show False by (simp only: byte_mul_zero) simp
  qed
  then have sub: "byte_pow 3 ` {..<255} \<subseteq> UNIV - {0}"
    by (intro image_subsetI) (simp only: lessThan_iff DiffI UNIV_I singleton_iff not_False_eq_True)
  have "card (UNIV - {0 :: u8}) = 255"
    using card_Diff_singleton [of "0 :: u8" UNIV] card_word [where 'a = 8] by simp
  then have eq: "card (byte_pow 3 ` {..<255}) = card (UNIV - {0 :: u8})" by (simp only: card_image [OF inj] card_lessThan)
  have "byte_pow 3 ` {..<255} = UNIV - {0}" by (rule card_subset_eq [OF finite sub eq])
  moreover have "a \<in> UNIV - {0}" using assms by simp
  ultimately have "a \<in> byte_pow 3 ` {..<255}" by (simp only:)
  then show ?thesis using that by (rule imageE)
qed

lemma byte_inv_left:
  assumes "a \<noteq> 0"
  shows "byte_mul (byte_inv a) a = 1"
proof -
  obtain i where a: "a = byte_pow 3 i" using three_generates [OF assms] .
  have "byte_mul (byte_inv a) a = byte_pow a 255"
    using byte_pow_add [of a 254 1] by (simp add: byte_inv_def byte_mul_commute byte_mul_one)
  also have "\<dots> = byte_pow (byte_pow 3 255) i"
    unfolding a by (simp only: byte_pow_mult [symmetric] mult.commute)
  finally show ?thesis by (simp only: powers_of_three byte_pow_one)
qed

lemma byte_inv_zero: "byte_inv 0 = 0"
proof -
  have "(254 :: nat) = Suc 253" by simp
  then show ?thesis unfolding byte_inv_def by (simp only: byte_pow.simps byte_mul_zero)
qed

section \<open>The field\<close>

typedef gf256 = "UNIV :: u8 set"
  morphisms gf_byte Gf256 by simp

setup_lifting type_definition_gf256

instantiation gf256 :: field
begin

lift_definition zero_gf256 :: gf256 is 0 .
lift_definition one_gf256 :: gf256 is 1 .
lift_definition plus_gf256 :: "gf256 \<Rightarrow> gf256 \<Rightarrow> gf256" is "\<lambda>a b. a XOR b" .
lift_definition minus_gf256 :: "gf256 \<Rightarrow> gf256 \<Rightarrow> gf256" is "\<lambda>a b. a XOR b" .
lift_definition uminus_gf256 :: "gf256 \<Rightarrow> gf256" is "\<lambda>a. a" .
lift_definition times_gf256 :: "gf256 \<Rightarrow> gf256 \<Rightarrow> gf256" is byte_mul .
lift_definition inverse_gf256 :: "gf256 \<Rightarrow> gf256" is byte_inv .
lift_definition divide_gf256 :: "gf256 \<Rightarrow> gf256 \<Rightarrow> gf256" is "\<lambda>a b. byte_mul a (byte_inv b)" .

instance
proof
  fix a b c :: gf256
  show "a * b * c = a * (b * c)" by transfer (rule byte_mul_assoc)
  show "a * b = b * a" by transfer (rule byte_mul_commute)
  show "1 * a = a" by transfer (rule byte_mul_one)
  show "a + b + c = a + (b + c)" by transfer (rule xor.assoc)
  show "a + b = b + a" by transfer (rule xor.commute)
  show "0 + a = a" by transfer simp
  show "- a + a = 0" by transfer simp
  show "a - b = a + - b" by transfer simp
  show "(a + b) * c = a * c + b * c" by transfer (rule byte_mul_xor)
  show "(0 :: gf256) \<noteq> 1" by transfer simp
  show "a \<noteq> 0 \<Longrightarrow> inverse a * a = 1" by transfer (rule byte_inv_left)
  show "a div b = a * inverse b" by transfer simp
  show "inverse (0 :: gf256) = 0" by transfer (rule byte_inv_zero)
qed

end

lemma gf256_char2: "(a :: gf256) + a = 0"
  by transfer simp

lemma gf256_bytes [simp]: "gf_byte (Gf256 b) = b" "Gf256 (gf_byte x) = x" "Gf256 0 = 0"
  by (simp_all add: Gf256_inverse gf_byte_inverse zero_gf256_def)

end
