(* ===== verification/Shamir.thy ===== *)
theory Shamir
  imports Gf256 Hal "HOL-Library.Multiset"
begin

text \<open>
  Shamir secret sharing of \<open>crates/vault/src/shamir.rs\<close>.

  The field arithmetic comes from the crate \<open>vsss_rs\<close>: its element type is a type variable \<open>'f\<close> of
  class \<open>field\<close>, and the constructor \<open>Gf256(b)\<close> and the projection \<open>.0\<close> are the fields of a record.
  The locale \<open>gf_bytes\<close> states what the code relies on: the two are inverse to each other, byte 0 is
  the zero of the field, and addition is its own inverse. It is interpreted on the type \<open>gf256\<close>.
\<close>

section \<open>Model\<close>

datatype shamir_error =
    InsufficientShares | InvalidShare u8 | DuplicateIndex u8 | InvalidParameters | TrngFailure
  | SecretTooShort | SecretTooLong

record shamir_share =
  sh_index :: u8
  sh_value :: bytes

text \<open>The library field: \<open>Gf256(b)\<close>, \<open>x.0\<close>; \<open>invert\<close> fails on zero only.\<close>

record 'f gf_rep =
  of_byte :: "u8 \<Rightarrow> 'f"
  to_byte :: "'f \<Rightarrow> u8"

definition gf_invert :: "'f :: field \<Rightarrow> 'f option" where
  "gf_invert x = (if x = 0 then None else Some (inverse x))"

definition try_from_index_value :: "u8 \<Rightarrow> bytes \<Rightarrow> shamir_error + shamir_share" where
  "try_from_index_value index value =
     (if index = 0 then Inl (InvalidShare index)
      else if \<not> (16 \<le> length value \<and> length value \<le> 64) then Inl (InvalidShare index)
      else res_bind (ok_or InvalidParameters (push_all 64 [] value))
        (\<lambda>buf. Inr \<lparr>sh_index = index, sh_value = buf\<rparr>))"

definition validate_split_params :: "bytes \<Rightarrow> u8 \<Rightarrow> u8 \<Rightarrow> shamir_error + unit" where
  "validate_split_params secret k n =
     (if length secret < 16 then Inl SecretTooShort
      else if length secret > 64 then Inl SecretTooLong
      else if k = 0 \<or> n = 0 then Inl InvalidParameters
      else if k > n then Inl InvalidParameters
      else if unat n > 255 then Inl InvalidParameters
      else Inr ())"

definition gf_x_for_index :: "'f gf_rep \<Rightarrow> u8 \<Rightarrow> shamir_error + 'f" where
  "gf_x_for_index G index = (if index = 0 then Inl (InvalidShare 0) else Inr (of_byte G index))"

fun eval_poly_loop :: "'f :: field list \<Rightarrow> 'f \<Rightarrow> 'f \<Rightarrow> 'f \<Rightarrow> 'f" where
  "eval_poly_loop [] x acc xp = acc"
| "eval_poly_loop (c # cs) x acc xp = eval_poly_loop cs x (acc + c * xp) (xp * x)"

definition eval_poly :: "'f :: field list \<Rightarrow> 'f \<Rightarrow> 'f" where
  "eval_poly coeffs x = eval_poly_loop coeffs x 0 1"

text \<open>The loop over \<open>j\<close>: numerator and denominator of the basis polynomial of \<open>i\<close> at zero.\<close>

fun lagrange_basis :: "'f :: field list \<Rightarrow> nat \<Rightarrow> nat list \<Rightarrow> 'f \<Rightarrow> 'f \<Rightarrow> 'f \<times> 'f" where
  "lagrange_basis xs i [] num den = (num, den)"
| "lagrange_basis xs i (j # js) num den =
     (if i = j then lagrange_basis xs i js num den
      else lagrange_basis xs i js (num * xs ! j) (den * (xs ! i + xs ! j)))"

fun lagrange_loop :: "'f :: field list \<Rightarrow> 'f list \<Rightarrow> nat list \<Rightarrow> 'f \<Rightarrow> 'f option" where
  "lagrange_loop xs ys [] acc = Some acc"
| "lagrange_loop xs ys (i # is) acc =
     (case lagrange_basis xs i [0..<length xs] 1 1 of
        (num, den) \<Rightarrow>
          (case gf_invert den of
             None \<Rightarrow> None
           | Some iv \<Rightarrow> lagrange_loop xs ys is (acc + ys ! i * (num * iv))))"

definition lagrange_at_zero :: "'f :: field list \<Rightarrow> 'f list \<Rightarrow> 'f option" where
  "lagrange_at_zero xs ys =
     (if length xs \<noteq> length ys \<or> xs = [] then None
      else lagrange_loop xs ys [0..<length xs] 0)"

text \<open>One comparison of the sort, its inner loop and the whole sort.\<close>

definition sort_step :: "nat \<Rightarrow> shamir_share list \<Rightarrow> shamir_share list" where
  "sort_step j shares =
     (if sh_index (shares ! j) > sh_index (shares ! Suc j)
      then shares[j := shares ! Suc j, Suc j := shares ! j] else shares)"

definition sort_pass :: "nat \<Rightarrow> shamir_share list \<Rightarrow> shamir_share list" where
  "sort_pass i shares = fold sort_step [0..<length shares - 1 - i] shares"

definition sort_shares_by_index :: "shamir_share list \<Rightarrow> shamir_share list" where
  "sort_shares_by_index shares = fold sort_pass [0..<length shares] shares"

subsection \<open>Splitting\<close>

text \<open>The coefficients of one byte: the secret byte, then \<open>k - 1\<close> random ones, in a vector of 64.\<close>

fun draw_coeffs ::
  "'f gf_rep \<Rightarrow> 'w hardware_trng \<Rightarrow> nat \<Rightarrow> 'f list \<Rightarrow> 'w \<Rightarrow> (shamir_error + 'f list) \<times> 'w" where
  "draw_coeffs G tr 0 coeffs w = (Inr coeffs, w)"
| "draw_coeffs G tr (Suc m) coeffs w =
     (case tr_try_fill tr 1 w of
        (Inl _, w1) \<Rightarrow> (Inl TrngFailure, w1)
      | (Inr b, w1) \<Rightarrow>
          if length coeffs < 64 then draw_coeffs G tr m (coeffs @ [of_byte G (b ! 0)]) w1
          else (Inl InvalidParameters, w1))"

text \<open>The loop over the shares: writes one byte of each value.\<close>

fun split_row ::
  "('f :: field) gf_rep \<Rightarrow> 'f list \<Rightarrow> nat \<Rightarrow> nat list \<Rightarrow> shamir_share list \<Rightarrow>
   shamir_error + shamir_share list" where
  "split_row G coeffs byte_pos [] shares = Inr shares"
| "split_row G coeffs byte_pos (share_idx # is) shares =
     res_bind (gf_x_for_index G (of_nat share_idx)) (\<lambda>x.
       let y = eval_poly coeffs x in
       if share_idx - 1 < length shares then
         split_row G coeffs byte_pos is
           (shares[share_idx - 1 := (shares ! (share_idx - 1))
              \<lparr>sh_value := (sh_value (shares ! (share_idx - 1)))[byte_pos := to_byte G y]\<rparr>])
       else Inl InvalidParameters)"

fun split_bytes ::
  "('f :: field) gf_rep \<Rightarrow> 'w hardware_trng \<Rightarrow> u8 \<Rightarrow> u8 \<Rightarrow> nat \<Rightarrow> bytes \<Rightarrow> shamir_share list \<Rightarrow> 'w \<Rightarrow>
   (shamir_error + shamir_share list) \<times> 'w" where
  "split_bytes G tr k n byte_pos [] shares w = (Inr shares, w)"
| "split_bytes G tr k n byte_pos (sb # secret) shares w =
     (case draw_coeffs G tr (unat k - 1) [of_byte G sb] w of
        (Inl e, w1) \<Rightarrow> (Inl e, w1)
      | (Inr coeffs, w1) \<Rightarrow>
          (case split_row G coeffs byte_pos [1..<unat n + 1] shares of
             Inl e \<Rightarrow> (Inl e, w1)
           | Inr shares1 \<Rightarrow> split_bytes G tr k n (byte_pos + 1) secret shares1 w1))"

text \<open>The zeroed shares have room: at most 64 bytes each and at most 255 of them.\<close>

definition shamir_split ::
  "('f :: field) gf_rep \<Rightarrow> 'w hardware_trng \<Rightarrow> bytes \<Rightarrow> u8 \<Rightarrow> u8 \<Rightarrow> 'w \<Rightarrow>
   (shamir_error + shamir_share list) \<times> 'w" where
  "shamir_split G tr secret k n w =
     (case validate_split_params secret k n of
        Inl e \<Rightarrow> (Inl e, w)
      | Inr _ \<Rightarrow>
          let len = length secret in
          if len > 64 \<or> unat n > 255 then (Inl InvalidParameters, w)
          else split_bytes G tr k n 0 secret
            (map (\<lambda>idx. \<lparr>sh_index = of_nat idx, sh_value = replicate len 0\<rparr>) [1..<unat n + 1]) w)"

subsection \<open>Recovery\<close>

fun check_indices :: "(u8 \<Rightarrow> bool) \<Rightarrow> shamir_share list \<Rightarrow> shamir_error + unit" where
  "check_indices seen [] = Inr ()"
| "check_indices seen (s # ss) =
     (if sh_index s = 0 then Inl (InvalidShare (sh_index s))
      else if seen (sh_index s) then Inl (DuplicateIndex (sh_index s))
      else check_indices (seen(sh_index s := True)) ss)"

fun check_lengths :: "nat \<Rightarrow> shamir_share list \<Rightarrow> shamir_error + unit" where
  "check_lengths len [] = Inr ()"
| "check_lengths len (s # ss) =
     (if length (sh_value s) \<noteq> len then Inl (InvalidShare (sh_index s)) else check_lengths len ss)"

fun points_at ::
  "'f gf_rep \<Rightarrow> nat \<Rightarrow> shamir_share list \<Rightarrow> 'f list \<Rightarrow> 'f list \<Rightarrow> shamir_error + 'f list \<times> 'f list" where
  "points_at G byte_pos [] xs ys = Inr (xs, ys)"
| "points_at G byte_pos (sh # shs) xs ys =
     res_bind (gf_x_for_index G (sh_index sh)) (\<lambda>x.
       let y = of_byte G (sh_value sh ! byte_pos) in
       if length xs < 64 \<and> length ys < 64 then points_at G byte_pos shs (xs @ [x]) (ys @ [y])
       else Inl InvalidParameters)"

fun recover_bytes ::
  "('f :: field) gf_rep \<Rightarrow> shamir_share list \<Rightarrow> nat list \<Rightarrow> bytes \<Rightarrow> shamir_error + bytes" where
  "recover_bytes G chosen [] out = Inr out"
| "recover_bytes G chosen (byte_pos # ps) out =
     res_bind (points_at G byte_pos chosen [] []) (\<lambda>(xs, ys).
     res_bind (ok_or (InvalidShare 0) (lagrange_at_zero xs ys)) (\<lambda>s.
     recover_bytes G chosen ps (out[byte_pos := to_byte G s])))"

definition shamir_recover ::
  "('f :: field) gf_rep \<Rightarrow> shamir_share list \<Rightarrow> u8 \<Rightarrow> shamir_error + bytes" where
  "shamir_recover G shares k =
     (if k = 0 then Inl InvalidParameters
      else if length shares < unat k then Inl InsufficientShares
      else res_bind (check_indices (\<lambda>_. False) shares) (\<lambda>_.
        case shares of
          [] \<Rightarrow> Inl InsufficientShares
        | first # _ \<Rightarrow>
            let len = length (sh_value first) in
            if \<not> (16 \<le> len \<and> len \<le> 64) then Inl (InvalidShare (sh_index first))
            else res_bind (check_lengths len shares) (\<lambda>_.
              if length shares > 255 then Inl InvalidParameters
              else
                let chosen = take (unat k) (sort_shares_by_index shares) in
                if length chosen < unat k then Inl InsufficientShares
                else recover_bytes G chosen [0..<len] (replicate len 0))))"

section \<open>Polynomials over a field\<close>

text \<open>Polynomials by their coefficients, lowest first, with Horner evaluation.\<close>

fun horner :: "'f :: field list \<Rightarrow> 'f \<Rightarrow> 'f" where
  "horner [] x = 0"
| "horner (c # cs) x = c + x * horner cs x"

lemma eval_poly_loop_horner: "eval_poly_loop cs x acc xp = acc + xp * horner cs x"
  by (induction cs arbitrary: acc xp) (simp_all add: algebra_simps)

lemma eval_poly_horner: "eval_poly cs x = horner cs x"
  by (simp add: eval_poly_def eval_poly_loop_horner)

lemma horner_zero: "horner cs 0 = (case cs of [] \<Rightarrow> 0 | c # _ \<Rightarrow> c)"
  by (cases cs) simp_all

subsection \<open>Division by a linear factor\<close>

fun linear_quotient :: "'f :: field \<Rightarrow> 'f list \<Rightarrow> 'f list" where
  "linear_quotient a [] = []"
| "linear_quotient a [c] = []"
| "linear_quotient a (c # d # cs) = horner (d # cs) a # linear_quotient a (d # cs)"

lemma length_linear_quotient: "length (linear_quotient a cs) = length cs - 1"
  by (induction a cs rule: linear_quotient.induct) simp_all

lemma horner_factor: "horner cs z = horner cs a + (z - a) * horner (linear_quotient a cs) z"
proof (induction a cs rule: linear_quotient.induct)
  case (3 a c d cs)
  have "horner (c # d # cs) z = c + z * horner (d # cs) z" by simp
  also have "\<dots> = c + z * (horner (d # cs) a + (z - a) * horner (linear_quotient a (d # cs)) z)"
    by (simp only: 3 [symmetric])
  finally show ?case by (simp add: algebra_simps)
qed (simp_all add: algebra_simps)

lemma linear_quotient_zero:
  "\<forall>c \<in> set (linear_quotient a cs). c = 0 \<Longrightarrow> \<forall>c \<in> set (tl cs). c = 0"
proof (induction a cs rule: linear_quotient.induct)
  case (3 a c d cs)
  then have "\<forall>e \<in> set cs. e = 0" "horner (d # cs) a = 0" by simp_all
  moreover have "horner cs a = 0" using \<open>\<forall>e \<in> set cs. e = 0\<close> by (induction cs) simp_all
  ultimately show ?case by simp
qed simp_all

lemma roots_zero:
  "finite X \<Longrightarrow> length cs \<le> card X \<Longrightarrow> \<forall>x \<in> X. horner cs x = 0 \<Longrightarrow> \<forall>c \<in> set cs. c = 0"
proof (induction "length cs" arbitrary: cs X)
  case (Suc n)
  then obtain c cs' where cs: "cs = c # cs'" by (cases cs) auto
  from Suc obtain a where a: "a \<in> X" by fastforce
  have "horner (linear_quotient a cs) z = 0" if "z \<in> X - {a}" for z
    using horner_factor [of cs z a] Suc.prems(3) a that by auto
  then have "\<forall>c \<in> set (linear_quotient a cs). c = 0"
    using Suc.hyps(2) Suc.prems a
    by (intro Suc.hyps(1) [of _ "X - {a}"]) (simp_all add: length_linear_quotient card_Diff_singleton)
  then have t: "\<forall>e \<in> set cs'. e = 0" using linear_quotient_zero [of a cs] cs by simp
  moreover have "horner cs' a = 0" using t by (induction cs') simp_all
  ultimately show ?case using Suc.prems(3) a cs by auto
qed simp

subsection \<open>Polynomial functions\<close>

definition polyfun :: "nat \<Rightarrow> ('f :: field \<Rightarrow> 'f) \<Rightarrow> bool" where
  "polyfun n f \<longleftrightarrow> (\<exists>cs. length cs = n \<and> (\<forall>z. f z = horner cs z))"

lemma horner_map2_add:
  "length cs = length ds \<Longrightarrow> horner (map2 (+) cs ds) z = horner cs z + horner ds z"
  by (induction cs ds rule: list_induct2) (simp_all add: algebra_simps)

lemma horner_scale: "horner (map ((*) a) cs) z = a * horner cs z"
  by (induction cs) (simp_all add: algebra_simps)

lemma horner_append_zero: "horner (cs @ [0]) z = horner cs z"
  by (induction cs) simp_all

lemma polyfun_add: "polyfun n f \<Longrightarrow> polyfun n g \<Longrightarrow> polyfun n (\<lambda>z. f z + g z)"
  unfolding polyfun_def
proof (elim exE conjE)
  fix cs ds :: "'a list" assume "length cs = n" "\<forall>z. f z = horner cs z" "length ds = n" "\<forall>z. g z = horner ds z"
  then show "\<exists>es. length es = n \<and> (\<forall>z. f z + g z = horner es z)"
    by (intro exI [of _ "map2 (+) cs ds"]) (simp add: horner_map2_add)
qed

lemma polyfun_scale: "polyfun n f \<Longrightarrow> polyfun n (\<lambda>z. a * f z)"
  unfolding polyfun_def
proof (elim exE conjE)
  fix cs :: "'a list" assume "length cs = n" "\<forall>z. f z = horner cs z"
  then show "\<exists>es. length es = n \<and> (\<forall>z. a * f z = horner es z)"
    by (intro exI [of _ "map ((*) a) cs"]) (simp add: horner_scale)
qed

lemma polyfun_linear: "polyfun n f \<Longrightarrow> polyfun (Suc n) (\<lambda>z. (z - a) * f z)"
proof -
  assume "polyfun n f"
  then obtain cs where cs: "length cs = n" "\<And>z. f z = horner cs z" by (auto simp: polyfun_def)
  have "polyfun (Suc n) (\<lambda>z. z * f z)" unfolding polyfun_def
    by (rule exI [of _ "0 # cs"]) (simp add: cs)
  moreover have "polyfun (Suc n) (\<lambda>z. (- a) * f z)" unfolding polyfun_def
    by (rule exI [of _ "map ((*) (- a)) cs @ [0]"]) (simp only: horner_append_zero horner_scale, simp add: cs)
  ultimately have "polyfun (Suc n) (\<lambda>z. z * f z + (- a) * f z)" by (rule polyfun_add)
  moreover have "(\<lambda>z. z * f z + (- a) * f z) = (\<lambda>z. (z - a) * f z)" by (simp add: algebra_simps)
  ultimately show ?thesis by simp
qed

lemma polyfun_prod: "finite J \<Longrightarrow> polyfun (Suc (card J)) (\<lambda>z. \<Prod>j \<in> J. z - h j)"
proof (induction rule: finite_induct)
  case empty
  have "horner [1] z = 1" for z :: 'b by simp
  then show ?case unfolding polyfun_def by (intro exI [of _ "[1]"]) simp
next
  case (insert x J)
  then show ?case using polyfun_linear [of "Suc (card J)" "\<lambda>z. \<Prod>j \<in> J. z - h j" "h x"] by simp
qed

lemma polyfun_zero: "polyfun n (\<lambda>z. 0)"
proof -
  have "horner (replicate n 0) z = 0" for z :: 'a by (induction n) simp_all
  then show ?thesis unfolding polyfun_def by (intro exI [of _ "replicate n 0"]) simp
qed

lemma polyfun_sum:
  "finite I \<Longrightarrow> (\<And>i. i \<in> I \<Longrightarrow> polyfun n (f i)) \<Longrightarrow> polyfun n (\<lambda>z. \<Sum>i \<in> I. f i z)"
  by (induction rule: finite_induct) (simp_all add: polyfun_zero polyfun_add)

lemma polyfun_determined:
  assumes "polyfun n f" and "polyfun n g" and "finite X" and "n \<le> card X" and "\<And>x. x \<in> X \<Longrightarrow> f x = g x"
  shows "f z = g z"
proof -
  have "polyfun n (\<lambda>z. f z + (- 1) * g z)" using assms(1,2) by (intro polyfun_add polyfun_scale)
  then obtain cs where cs: "length cs = n" "\<And>z. f z + (- 1) * g z = horner cs z"
    unfolding polyfun_def by blast
  have "\<forall>c \<in> set cs. c = 0" using assms cs by (intro roots_zero [of X]) (auto simp: cs(2) [symmetric])
  then have "horner cs z = 0" by (induction cs) simp_all
  with cs(2) [of z] show ?thesis by simp
qed

text \<open>Interpolation through as many points as the polynomial has coefficients gives it back.\<close>

lemma lagrange_interpolation:
  fixes x :: "nat \<Rightarrow> 'f :: field"
  assumes "polyfun k f" and "inj_on x {..<k}"
  shows "f z = (\<Sum>i<k. f (x i) * (\<Prod>j \<in> {..<k} - {i}. (z - x j) / (x i - x j)))"
proof -
  define b where "b i z = (\<Prod>j \<in> {..<k} - {i}. (z - x j) / (x i - x j))" for i z
  have "polyfun k (b i)" if "i < k" for i
  proof -
    have "b i = (\<lambda>z. inverse (\<Prod>j \<in> {..<k} - {i}. x i - x j) * (\<Prod>j \<in> {..<k} - {i}. z - x j))"
      by (rule ext) (simp add: b_def divide_inverse prod.distrib prod_inversef [symmetric] mult.commute)
    moreover have "Suc (card ({..<k} - {i})) = k" using that by (simp add: card_Diff_singleton)
    ultimately show ?thesis
      using polyfun_scale [OF polyfun_prod [of "{..<k} - {i}" x]] by (metis finite_Diff finite_lessThan)
  qed
  then have "polyfun k (\<lambda>z. \<Sum>i<k. f (x i) * b i z)" by (intro polyfun_sum polyfun_scale) simp_all
  moreover have "f y = (\<Sum>i<k. f (x i) * b i y)" if y: "y \<in> x ` {..<k}" for y
  proof -
    from y obtain l where l: "l < k" "y = x l" by auto
    have "b i (x l) = (if i = l then 1 else 0)" if "i < k" for i
    proof (cases "i = l")
      case True
      have "x i - x j \<noteq> 0" if "j \<in> {..<k} - {i}" for j
        using that \<open>i < k\<close> inj_onD [OF assms(2), of i j] by auto
      with True show ?thesis by (simp add: b_def)
    next
      case False
      with l have "l \<in> {..<k} - {i}" by simp
      then show ?thesis using False by (auto simp: b_def intro!: prod_zero)
    qed
    then have "(\<Sum>i<k. f (x i) * b i y) = (\<Sum>i<k. if i = l then f (x i) else 0)"
      using l by (intro sum.cong) auto
    also have "\<dots> = f y" using l by simp
    finally show ?thesis by simp
  qed
  moreover have "k \<le> card (x ` {..<k})" using card_image [OF assms(2)] by simp
  ultimately show ?thesis
    using polyfun_determined [OF assms(1), of _ "x ` {..<k}" z] by (simp add: b_def)
qed

section \<open>The bytes of the field\<close>

locale gf_bytes =
  fixes G :: "('f :: field) gf_rep"
  assumes to_of [simp]: "to_byte G (of_byte G b) = b"
    and of_to [simp]: "of_byte G (to_byte G x) = x"
    and of_zero: "of_byte G 0 = 0"
    and double_zero: "x + x = (0 :: 'f)"
begin

lemma minus_plus: "x - y = x + (y :: 'f)"
proof -
  have "x - y = x - y + (y + y)" by (simp add: double_zero)
  then show ?thesis by (simp only: diff_add_eq add_diff_cancel_right' add.assoc [symmetric])
qed

lemma of_byte_inject: "of_byte G a = of_byte G b \<longleftrightarrow> a = b"
  using to_of by metis

lemma to_byte_inject: "to_byte G x = to_byte G y \<longleftrightarrow> x = y"
  using of_to by metis

lemma of_byte_nonzero: "of_byte G a = 0 \<longleftrightarrow> a = 0"
  using of_byte_inject of_zero by metis

lemma lagrange_basis_prods:
  "lagrange_basis (xs :: 'f list) i js num den =
     (num * prod_list (map ((!) xs) (filter (\<lambda>j. j \<noteq> i) js)),
      den * prod_list (map (\<lambda>j. xs ! i + xs ! j) (filter (\<lambda>j. j \<noteq> i) js)))"
  by (induction js arbitrary: num den) (auto simp: mult.assoc)

lemma lagrange_basis_upto:
  "lagrange_basis (xs :: 'f list) i [0..<n] 1 1 =
     (\<Prod>j \<in> {..<n} - {i}. xs ! j, \<Prod>j \<in> {..<n} - {i}. xs ! i + xs ! j)"
proof -
  have "set (filter (\<lambda>j. j \<noteq> i) [0..<n]) = {..<n} - {i}" by auto
  then show ?thesis
    using prod.distinct_set_conv_list [of "filter (\<lambda>j. j \<noteq> i) [0..<n]" "(!) xs"]
      prod.distinct_set_conv_list [of "filter (\<lambda>j. j \<noteq> i) [0..<n]" "\<lambda>j. xs ! i + xs ! j"]
    by (simp add: lagrange_basis_prods)
qed

lemma lagrange_loop_sum:
  assumes "distinct (xs :: 'f list)" and "set is \<subseteq> {..<length xs}"
  shows "lagrange_loop xs ys is acc =
    Some (acc + (\<Sum>i \<leftarrow> is. ys ! i * (\<Prod>j \<in> {..<length xs} - {i}. (0 - xs ! j) / (xs ! i - xs ! j))))"
  using assms
proof (induction "is" arbitrary: acc)
  case (Cons i "is")
  let ?J = "{..<length xs} - {i}"
  have "xs ! i + xs ! j \<noteq> 0" if "j \<in> ?J" for j
  proof -
    have "xs ! i - xs ! j \<noteq> 0" using that Cons.prems by (simp add: nth_eq_iff_index_eq)
    then show ?thesis by (simp add: minus_plus)
  qed
  then have "(\<Prod>j \<in> ?J. xs ! i + xs ! j) \<noteq> 0" by simp
  moreover have "(\<Prod>j \<in> ?J. xs ! j) * inverse (\<Prod>j \<in> ?J. xs ! i + xs ! j) =
    (\<Prod>j \<in> ?J. (0 - xs ! j) / (xs ! i - xs ! j))"
    by (simp only: minus_plus add_0 divide_inverse prod.distrib prod_inversef [symmetric] comp_def)
  ultimately show ?case
    using Cons by (simp add: lagrange_basis_upto gf_invert_def add.assoc)
qed simp

text \<open>Recovery of one byte: the value at zero of the polynomial through the given points.\<close>

lemma lagrange_at_zero_polyfun:
  assumes "distinct (xs :: 'f list)" and "xs \<noteq> []" and "polyfun (length xs) f"
  shows "lagrange_at_zero xs (map f xs) = Some (f 0)"
proof -
  have "inj_on ((!) xs) {..<length xs}" using assms(1) by (simp add: inj_on_nth)
  from lagrange_interpolation [OF assms(3) this, of 0]
  have "f 0 = (\<Sum>i \<leftarrow> [0..<length xs].
      f (xs ! i) * (\<Prod>j \<in> {..<length xs} - {i}. (0 - xs ! j) / (xs ! i - xs ! j)))"
    by (simp add: sum.distinct_set_conv_list [symmetric] atLeast0LessThan)
  also have "\<dots> = (\<Sum>i \<leftarrow> [0..<length xs].
      map f xs ! i * (\<Prod>j \<in> {..<length xs} - {i}. (0 - xs ! j) / (xs ! i - xs ! j)))"
    by (intro arg_cong [of _ _ sum_list] map_cong) simp_all
  finally have "lagrange_loop xs (map f xs) [0..<length xs] 0 = Some (f 0)"
    using lagrange_loop_sum [OF assms(1), of "[0..<length xs]" "map f xs" 0]
    by (simp only: set_upt atLeast0LessThan order_refl add_0 simp_thms if_True HOL.True_implies_equals)
  then show ?thesis using assms(2) by (simp add: lagrange_at_zero_def)
qed

end

section \<open>Sorting\<close>

lemma sort_step_facts:
  assumes "Suc j < length xs"
  shows "length (sort_step j xs) = length xs" and "mset (sort_step j xs) = mset xs"
    and "filter (\<lambda>s. k = sh_index s) (sort_step j xs) = filter (\<lambda>s. k = sh_index s) xs"
proof -
  define a b where "a = xs ! j" and "b = xs ! Suc j"
  have xs: "xs = take j xs @ a # b # drop (Suc (Suc j)) xs"
    using assms by (simp add: a_def b_def Cons_nth_drop_Suc)
  have sw: "xs[j := b, Suc j := a] = take j xs @ b # a # drop (Suc (Suc j)) xs"
    using assms by (subst (1) xs) (simp add: list_update_append)
  have st: "sort_step j xs = (if sh_index a > sh_index b then xs[j := b, Suc j := a] else xs)"
    by (simp add: sort_step_def a_def b_def)
  show "length (sort_step j xs) = length xs" by (simp add: sort_step_def)
  show "mset (sort_step j xs) = mset xs"
    using arg_cong [OF xs, of mset] by (simp add: st sw)
  show "filter (\<lambda>s. k = sh_index s) (sort_step j xs) = filter (\<lambda>s. k = sh_index s) xs"
    using arg_cong [OF xs, of "filter (\<lambda>s. k = sh_index s)"] by (auto simp: st sw)
qed

text \<open>The last \<open>i\<close> places hold their final shares.\<close>

definition settled :: "nat \<Rightarrow> shamir_share list \<Rightarrow> bool" where
  "settled i xs \<longleftrightarrow>
     (\<forall>p q. p < q \<longrightarrow> q < length xs \<longrightarrow> length xs - i \<le> q \<longrightarrow> sh_index (xs ! p) \<le> sh_index (xs ! q))"

definition bubbled :: "nat \<Rightarrow> shamir_share list \<Rightarrow> bool" where
  "bubbled m xs \<longleftrightarrow> (\<forall>p \<le> m. sh_index (xs ! p) \<le> sh_index (xs ! m))"

lemma sort_step_bubbled:
  assumes "m < length xs - 1 - i" and "settled i xs" and "bubbled m xs"
  shows "settled i (sort_step m xs)" and "bubbled (Suc m) (sort_step m xs)"
proof -
  have m: "Suc m < length xs" "Suc m < length xs - i" using assms(1) by simp_all
  show "bubbled (Suc m) (sort_step m xs)"
    using m assms(3) by (auto simp: bubbled_def sort_step_def nth_list_update le_Suc_eq)
  have "sh_index (sort_step m xs ! p) \<le> sh_index (sort_step m xs ! q)"
    if "p < q" "q < length xs" "length xs - i \<le> q" for p q
  proof -
    have "sort_step m xs ! q = xs ! q" using that m by (auto simp: sort_step_def nth_list_update)
    moreover define p' where "p' =
      (if sh_index (xs ! m) > sh_index (xs ! Suc m)
       then if p = m then Suc m else if p = Suc m then m else p else p)"
    moreover have "sort_step m xs ! p = xs ! p'"
      using m that by (auto simp: sort_step_def nth_list_update p'_def)
    moreover have "p' < q" using m that by (auto simp: p'_def)
    ultimately show ?thesis using assms(2) that by (auto simp: settled_def)
  qed
  then show "settled i (sort_step m xs)" by (simp add: settled_def sort_step_facts(1) [OF m(1)])
qed

lemma sort_steps:
  assumes "settled i xs" and "m \<le> length xs - 1 - i" and "\<And>k. P k = (\<lambda>s. k = sh_index s)"
  shows "let ys = fold sort_step [0..<m] xs in
    length ys = length xs \<and> mset ys = mset xs \<and> (\<forall>k. filter (P k) ys = filter (P k) xs) \<and>
    settled i ys \<and> bubbled m ys"
  using assms(2)
proof (induction m)
  case 0
  then show ?case using assms(1) by (simp add: bubbled_def)
next
  case (Suc m)
  define ys where "ys = fold sort_step [0..<m] xs"
  from Suc have "length ys = length xs" "mset ys = mset xs" "\<And>k. filter (P k) ys = filter (P k) xs"
    "settled i ys" "bubbled m ys" by (simp_all add: Let_def ys_def)
  moreover have "fold sort_step [0..<Suc m] xs = sort_step m ys" by (simp add: ys_def)
  ultimately show ?case
    using Suc.prems sort_step_facts [of m ys] sort_step_bubbled [of m ys i] by (simp add: Let_def assms(3))
qed

lemma sort_pass_settles:
  assumes "settled i xs" and "i < length xs"
  shows "length (sort_pass i xs) = length xs" and "mset (sort_pass i xs) = mset xs"
    and "filter (\<lambda>s. k = sh_index s) (sort_pass i xs) = filter (\<lambda>s. k = sh_index s) xs"
    and "settled (Suc i) (sort_pass i xs)"
proof -
  define ys where "ys = sort_pass i xs"
  have ys: "length ys = length xs" "mset ys = mset xs" "settled i ys" "bubbled (length xs - 1 - i) ys"
    "filter (\<lambda>s. k = sh_index s) ys = filter (\<lambda>s. k = sh_index s) xs"
    using sort_steps [OF assms(1) order_refl refl] by (simp_all add: ys_def sort_pass_def Let_def)
  show "length (sort_pass i xs) = length xs" "mset (sort_pass i xs) = mset xs"
    "filter (\<lambda>s. k = sh_index s) (sort_pass i xs) = filter (\<lambda>s. k = sh_index s) xs"
    using ys by (simp_all add: ys_def)
  have "sh_index (ys ! p) \<le> sh_index (ys ! q)"
    if "p < q" "q < length xs" "length xs - Suc i \<le> q" for p q
  proof (cases "q = length xs - 1 - i")
    case True
    then show ?thesis using that ys(4) by (simp add: bubbled_def)
  next
    case False
    then show ?thesis using that ys(1,3) by (simp add: settled_def)
  qed
  then show "settled (Suc i) (sort_pass i xs)" by (simp add: settled_def ys ys_def [symmetric])
qed

lemma sort_passes:
  assumes "m \<le> length xs"
  shows "length (fold sort_pass [0..<m] xs) = length xs \<and> mset (fold sort_pass [0..<m] xs) = mset xs \<and>
    (\<forall>k. filter (\<lambda>s. k = sh_index s) (fold sort_pass [0..<m] xs) = filter (\<lambda>s. k = sh_index s) xs) \<and>
    settled m (fold sort_pass [0..<m] xs)"
  using assms
proof (induction m)
  case 0
  then show ?case by (auto simp: settled_def)
next
  case (Suc m)
  then show ?case using sort_pass_settles [of m "fold sort_pass [0..<m] xs"] by simp
qed

lemma sort_shares_sort_key: "sort_shares_by_index xs = sort_key sh_index xs"
proof -
  define ys where "ys = sort_shares_by_index xs"
  have ys: "mset ys = mset xs" "\<And>k. filter (\<lambda>s. k = sh_index s) ys = filter (\<lambda>s. k = sh_index s) xs"
    "settled (length xs) ys" "length ys = length xs"
    using sort_passes [of "length xs" xs] by (simp_all add: ys_def sort_shares_by_index_def)
  have "sorted (map sh_index ys)"
    using ys(3,4) by (auto simp: sorted_iff_nth_mono_less settled_def)
  then show ?thesis
    using ys unfolding ys_def [symmetric] by (intro sym [OF properties_for_sort_key]) simp_all
qed

section \<open>What splitting produces\<close>

text \<open>The shares \<open>1..n\<close> with given values.\<close>

definition sharing :: "nat \<Rightarrow> (nat \<Rightarrow> bytes) \<Rightarrow> shamir_share list" where
  "sharing n vals = map (\<lambda>idx. \<lparr>sh_index = of_nat idx, sh_value = vals idx\<rparr>) [1..<n + 1]"

lemma sharing_simps [simp]:
  "length (sharing n vals) = n"
  "i < n \<Longrightarrow> sharing n vals ! i = \<lparr>sh_index = of_nat (Suc i), sh_value = vals (Suc i)\<rparr>"
  by (simp_all add: sharing_def del: upt_Suc)

lemma of_nat_u8_nonzero: "0 < i \<Longrightarrow> i < 256 \<Longrightarrow> (of_nat i :: u8) \<noteq> 0"
  by (simp add: word_of_nat_eq_0_iff nat_dvd_not_less)

lemma sharing_update:
  assumes "0 < i" and "i \<le> n"
  shows "(sharing n vals)[i - 1 := (sharing n vals ! (i - 1))\<lparr>sh_value := v\<rparr>] = sharing n (vals(i := v))"
  by (rule nth_equalityI) (use assms in \<open>auto simp: nth_list_update\<close>)

lemma split_row_sharing:
  assumes "distinct is" and "set is \<subseteq> {1..n}" and "n < 256"
  shows "split_row G coeffs bp is (sharing n vals) = Inr (sharing n (\<lambda>i.
    if i \<in> set is then (vals i)[bp := to_byte G (horner coeffs (of_byte G (of_nat i)))] else vals i))"
  using assms
proof (induction "is" arbitrary: vals)
  case (Cons i "is")
  let ?v = "(vals i)[bp := to_byte G (horner coeffs (of_byte G (of_nat i)))]"
  from Cons.prems have i: "0 < i" "i \<le> n" "i - 1 < n" "(of_nat i :: u8) \<noteq> 0" "Suc (i - 1) = i"
    using of_nat_u8_nonzero [of i] by auto
  then have "split_row G coeffs bp (i # is) (sharing n vals) = split_row G coeffs bp is (sharing n (vals(i := ?v)))"
    using sharing_update [of i n vals ?v] by (simp add: gf_x_for_index_def eval_poly_horner del: One_nat_def)
  also have "\<dots> = Inr (sharing n (\<lambda>l. if l \<in> set (i # is) then
      (vals l)[bp := to_byte G (horner coeffs (of_byte G (of_nat l)))] else vals l))"
    using Cons.prems by (subst Cons.IH) (auto simp: fun_eq_iff intro!: arg_cong [of _ _ "sharing n"])
  finally show ?case .
qed simp

text \<open>The coefficients drawn for one byte.\<close>

definition coeffs_for :: "'f gf_rep \<Rightarrow> u8 \<Rightarrow> u8 \<Rightarrow> 'f list \<Rightarrow> bool" where
  "coeffs_for G k sb cs \<longleftrightarrow> length cs = unat k \<and> length cs \<le> 64 \<and> hd cs = of_byte G sb \<and> cs \<noteq> []"

lemma draw_coeffs_shape:
  "draw_coeffs G tr m cs w = (Inr ds, w') \<Longrightarrow> length cs \<le> 64 \<Longrightarrow> cs \<noteq> [] \<Longrightarrow>
   length ds = length cs + m \<and> length ds \<le> 64 \<and> hd ds = hd cs"
proof (induction m arbitrary: cs w)
  case (Suc m)
  obtain r w1 where r: "tr_try_fill tr 1 w = (r, w1)" by (cases "tr_try_fill tr 1 w")
  with Suc.prems(1) obtain b where b: "r = Inr b" by (cases r) simp_all
  with Suc.prems(1) r have "length cs < 64" by (simp split: if_splits)
  with Suc r b show ?case by (fastforce split: if_splits)
qed simp

text \<open>The value of share \<open>i\<close>, from the coefficients of every byte.\<close>

definition share_value :: "('f :: field) gf_rep \<Rightarrow> 'f list list \<Rightarrow> nat \<Rightarrow> bytes" where
  "share_value G C i = map (\<lambda>cs. to_byte G (horner cs (of_byte G (of_nat i)))) C"

text \<open>All coefficients of a secret, in the order they are drawn.\<close>

fun draw_all ::
  "'f gf_rep \<Rightarrow> 'w hardware_trng \<Rightarrow> u8 \<Rightarrow> bytes \<Rightarrow> 'w \<Rightarrow> (shamir_error + 'f list list) \<times> 'w" where
  "draw_all G tr k [] w = (Inr [], w)"
| "draw_all G tr k (sb # secret) w =
     (case draw_coeffs G tr (unat k - 1) [of_byte G sb] w of
        (Inl e, w1) \<Rightarrow> (Inl e, w1)
      | (Inr cs, w1) \<Rightarrow>
          (case draw_all G tr k secret w1 of
             (Inl e, w2) \<Rightarrow> (Inl e, w2)
           | (Inr C, w2) \<Rightarrow> (Inr (cs # C), w2)))"

lemma draw_all_shape:
  "draw_all G tr k secret w = (Inr C, w') \<Longrightarrow> k \<noteq> 0 \<Longrightarrow> list_all2 (coeffs_for G k) secret C"
proof (induction secret arbitrary: w C)
  case (Cons sb secret)
  obtain r w1 where r: "draw_coeffs G tr (unat k - 1) [of_byte G sb] w = (r, w1)"
    by (cases "draw_coeffs G tr (unat k - 1) [of_byte G sb] w")
  with Cons.prems(1) obtain cs where cs: "r = Inr cs" by (cases r) simp_all
  have "unat k \<noteq> 0" using Cons.prems(2) by (simp add: unat_eq_0)
  then have "coeffs_for G k sb cs"
    using draw_coeffs_shape [OF r [unfolded cs]] by (auto simp: coeffs_for_def)
  then show ?case
    using Cons r cs by (auto split: prod.splits sum.splits)
qed simp

lemma split_bytes_draw_all:
  assumes "\<And>i. i \<in> {1..unat n} \<Longrightarrow> length (vals i) = bp + length secret"
  shows "split_bytes G tr k n bp secret (sharing (unat n) vals) w =
    (case draw_all G tr k secret w of
       (Inl e, w1) \<Rightarrow> (Inl e, w1)
     | (Inr C, w1) \<Rightarrow> (Inr (sharing (unat n) (\<lambda>i. take bp (vals i) @ share_value G C i)), w1))"
  using assms
proof (induction secret arbitrary: bp vals w)
  case Nil
  then show ?case by (auto simp: sharing_def share_value_def simp del: upt_Suc)
next
  case (Cons sb secret)
  obtain r w1 where r: "draw_coeffs G tr (unat k - 1) [of_byte G sb] w = (r, w1)"
    by (cases "draw_coeffs G tr (unat k - 1) [of_byte G sb] w")
  show ?case
  proof (cases r)
    case (Inl e)
    with r show ?thesis by simp
  next
    case (Inr cs)
    define vals1 where "vals1 = (\<lambda>i. if i \<in> set [1..<unat n + 1]
      then (vals i)[bp := to_byte G (horner cs (of_byte G (of_nat i)))] else vals i)"
    have "unat n < 256" using unsigned_less [of n] by simp
    then have row: "split_row G cs bp [1..<unat n + 1] (sharing (unat n) vals) = Inr (sharing (unat n) vals1)"
      unfolding vals1_def by (intro split_row_sharing) (auto simp del: upt_Suc)
    have len: "length (vals1 i) = bp + 1 + length secret" if "i \<in> {1..unat n}" for i
      using Cons.prems [OF that] by (simp add: vals1_def)
    have "take (bp + 1) (vals1 i) = take bp (vals i) @ [to_byte G (horner cs (of_byte G (of_nat i)))]"
      if "i \<in> {1..unat n}" for i
      using that Cons.prems [OF that] by (auto simp: vals1_def take_Suc_conv_app_nth)
    then have "sharing (unat n) (\<lambda>i. take (bp + 1) (vals1 i) @ share_value G C i) =
        sharing (unat n) (\<lambda>i. take bp (vals i) @ share_value G (cs # C) i)" for C
      by (auto simp: sharing_def share_value_def simp del: upt_Suc)
    moreover have "split_bytes G tr k n bp (sb # secret) (sharing (unat n) vals) w =
        split_bytes G tr k n (bp + 1) secret (sharing (unat n) vals1) w1"
      using r Inr row by (simp del: upt_Suc)
    ultimately show ?thesis
      using Cons.IH [of vals1 "bp + 1" w1] len r Inr by (simp split: prod.split sum.split)
  qed
qed

text \<open>Splitting as a whole: the checks, all the coefficients, then all the values.\<close>

lemma shamir_split_draw_all:
  "shamir_split G tr secret k n w =
    (case validate_split_params secret k n of
       Inl e \<Rightarrow> (Inl e, w)
     | Inr _ \<Rightarrow>
        (case draw_all G tr k secret w of
           (Inl e, w1) \<Rightarrow> (Inl e, w1)
         | (Inr C, w1) \<Rightarrow> (Inr (sharing (unat n) (share_value G C)), w1)))"
proof (cases "validate_split_params secret k n")
  case (Inr u)
  then have "\<not> length secret > 64" by (auto simp: validate_split_params_def split: if_splits)
  moreover have "\<not> unat n > 255" using unsigned_less [of n, where ?'a = nat] by simp
  ultimately show ?thesis
    using Inr split_bytes_draw_all [of n "\<lambda>_. replicate (length secret) 0" 0 secret G tr k w]
    by (simp add: shamir_split_def sharing_def del: upt_Suc split: prod.split sum.split)
qed (simp add: shamir_split_def)

lemma shamir_split_sharing:
  assumes "shamir_split G tr secret k n w = (Inr shares, w')"
  obtains C where "list_all2 (coeffs_for G k) secret C"
    and "shares = sharing (unat n) (share_value G C)"
    and "16 \<le> length secret" and "length secret \<le> 64" and "k \<noteq> 0" and "k \<le> n"
proof -
  have v: "validate_split_params secret k n = Inr ()"
    using assms by (cases "validate_split_params secret k n") (simp_all add: shamir_split_def)
  then have "\<not> length secret < 16" "\<not> length secret > 64" "k \<noteq> 0" "\<not> k > n"
    by (auto simp: validate_split_params_def split: if_splits)
  moreover obtain r w1 where r: "draw_all G tr k secret w = (r, w1)" by (cases "draw_all G tr k secret w")
  moreover from r v assms obtain C where "r = Inr C" "shares = sharing (unat n) (share_value G C)"
    by (cases r) (auto simp: shamir_split_draw_all)
  ultimately show thesis using that [of C] draw_all_shape [of G tr k secret w C w1] by simp
qed

section \<open>What recovery reads\<close>

lemma check_indices_ok:
  "check_indices seen ss = Inr () \<longleftrightarrow>
   distinct (map sh_index ss) \<and> (\<forall>s \<in> set ss. sh_index s \<noteq> 0 \<and> \<not> seen (sh_index s))"
  by (induction ss arbitrary: seen) (auto simp: image_iff)

lemma check_lengths_ok: "check_lengths len ss = Inr () \<longleftrightarrow> (\<forall>s \<in> set ss. length (sh_value s) = len)"
  by (induction ss) simp_all

lemma points_at_ok:
  "\<forall>s \<in> set shs. sh_index s \<noteq> 0 \<Longrightarrow> length xs = length ys \<Longrightarrow> length xs + length shs \<le> 64 \<Longrightarrow>
   points_at G bp shs xs ys =
     Inr (xs @ map (\<lambda>s. of_byte G (sh_index s)) shs, ys @ map (\<lambda>s. of_byte G (sh_value s ! bp)) shs)"
  by (induction shs arbitrary: xs ys) (simp_all add: gf_x_for_index_def Let_def)

lemma recover_bytes_fill:
  assumes "\<And>p. p < length secret \<Longrightarrow> \<exists>xs ys y. points_at G p chosen [] [] = Inr (xs, ys) \<and>
      lagrange_at_zero xs ys = Some y \<and> to_byte G y = secret ! p"
    and "length out = length secret" and "take m out = take m secret" and "m \<le> length secret"
  shows "recover_bytes G chosen [m..<length secret] out = Inr secret"
  using assms(2-)
proof (induction "length secret - m" arbitrary: m out)
  case 0
  then show ?case by simp
next
  case (Suc d)
  then have m: "m < length secret" by simp
  with assms(1) obtain xs ys y where y: "points_at G m chosen [] [] = Inr (xs, ys)"
    "lagrange_at_zero xs ys = Some y" "to_byte G y = secret ! m" by blast
  have "take (Suc m) (out[m := secret ! m]) = take (Suc m) secret"
    using m Suc.prems by (simp add: take_Suc_conv_app_nth)
  then have "recover_bytes G chosen [Suc m..<length secret] (out[m := secret ! m]) = Inr secret"
    using Suc.hyps(2) Suc.prems m by (intro Suc.hyps(1)) simp_all
  then show ?case using m y by (simp add: upt_conv_Cons)
qed

lemma shamir_recover_ok:
  assumes "k \<noteq> 0" and "unat k \<le> length picked" and "length picked \<le> 255"
    and "distinct (map sh_index picked)"
    and "\<And>s. s \<in> set picked \<Longrightarrow> sh_index s \<noteq> 0 \<and> length (sh_value s) = len" and "16 \<le> len" and "len \<le> 64"
  shows "shamir_recover G picked k =
    recover_bytes G (take (unat k) (sort_key sh_index picked)) [0..<len] (replicate len 0)"
proof -
  have "unat k \<noteq> 0" using assms(1) by (simp add: unat_eq_0)
  with assms(2) obtain first rest where p: "picked = first # rest" by (cases picked) simp_all
  have "check_indices (\<lambda>_. False) picked = Inr ()" using assms by (simp add: check_indices_ok)
  moreover have "check_lengths len picked = Inr ()" using assms by (simp add: check_lengths_ok)
  moreover have "length (sh_value first) = len" using assms(5) p by simp
  ultimately show ?thesis
    using assms p by (simp add: shamir_recover_def sort_shares_sort_key Let_def del: check_indices.simps check_lengths.simps)
qed

context gf_bytes
begin

lemma recover_of_split:
  assumes split: "shamir_split G tr secret k n w = (Inr shares, w')"
    and picked: "distinct picked" "set picked \<subseteq> set shares" "unat k \<le> length picked"
  shows "shamir_recover G picked k = Inr secret"
proof -
  from split obtain C where C: "list_all2 (coeffs_for G k) secret C"
    "shares = sharing (unat n) (share_value G C)" "16 \<le> length secret" "length secret \<le> 64" "k \<noteq> 0"
    by (elim shamir_split_sharing)
  have n: "unat n < 256" using unsigned_less [of n] by simp
  have len: "length C = length secret" using list_all2_lengthD [OF C(1)] by simp
  have shape: "\<exists>i. 0 < i \<and> i \<le> unat n \<and> s = \<lparr>sh_index = of_nat i, sh_value = share_value G C i\<rparr>"
    if "s \<in> set shares" for s
    using that by (auto simp: C(2) sharing_def less_Suc_eq_le Suc_le_eq simp del: upt_Suc)
  have inj: "s = t" if "s \<in> set shares" "t \<in> set shares" "sh_index s = sh_index t" for s t
  proof -
    from shape that obtain i j where "i \<le> unat n" "j \<le> unat n" "s = \<lparr>sh_index = of_nat i, sh_value = share_value G C i\<rparr>"
      "t = \<lparr>sh_index = of_nat j, sh_value = share_value G C j\<rparr>" by meson
    moreover from this have "unat (of_nat i :: u8) = unat (of_nat j :: u8)" using that(3) by simp
    ultimately show ?thesis using n unat_of_nat_u8 [of i] unat_of_nat_u8 [of j] by simp
  qed
  have val: "sh_index s \<noteq> 0 \<and> sh_value s = map (\<lambda>cs. to_byte G (horner cs (of_byte G (sh_index s)))) C"
    if "s \<in> set shares" for s
    using shape [OF that] n of_nat_u8_nonzero by (fastforce simp: share_value_def)
  have di: "distinct (map sh_index picked)"
    using picked(1,2) inj by (auto simp: distinct_map inj_on_def)
  have "card (set picked) \<le> card (set shares)" using picked(2) by (intro card_mono) simp_all
  also have "\<dots> \<le> unat n" using card_length [of shares] by (simp add: C(2))
  finally have le: "length picked \<le> 255" using n distinct_card [OF picked(1)] by simp
  define chosen where "chosen = take (unat k) (sort_key sh_index picked)"
  have ch: "set chosen \<subseteq> set shares" "length chosen = unat k"
    using set_take_subset [of "unat k" "sort_key sh_index picked"] picked by (auto simp: chosen_def)
  have dc: "distinct (map (\<lambda>s. of_byte G (sh_index s)) chosen)"
  proof -
    have "distinct (map sh_index (sort_key sh_index picked))"
      using di by (metis distinct_sort mset_map mset_sort mset_eq_imp_distinct_iff)
    then have "distinct (map sh_index chosen)" by (simp add: chosen_def take_map [symmetric])
    then show ?thesis by (auto simp: distinct_map inj_on_def of_byte_inject)
  qed
  have "recover_bytes G chosen [0..<length secret] (replicate (length secret) 0) = Inr secret"
  proof (rule recover_bytes_fill)
    fix p assume p: "p < length secret"
    with C(1) len have cf: "coeffs_for G k (secret ! p) (C ! p)" by (simp add: list_all2_conv_all_nth)
    let ?xs = "map (\<lambda>s. of_byte G (sh_index s)) chosen"
    have "map (\<lambda>s. of_byte G (sh_value s ! p)) chosen = map (horner (C ! p)) ?xs"
      using val ch(1) p len by auto
    then have "points_at G p chosen [] [] = Inr (?xs, map (horner (C ! p)) ?xs)"
      using val ch cf by (subst points_at_ok) (auto simp: coeffs_for_def)
    moreover have "lagrange_at_zero ?xs (map (horner (C ! p)) ?xs) = Some (horner (C ! p) 0)"
      using dc ch(2) cf
      by (intro lagrange_at_zero_polyfun) (auto simp: coeffs_for_def polyfun_def)
    moreover have "to_byte G (horner (C ! p) 0) = secret ! p"
      using cf by (auto simp: horner_zero coeffs_for_def split: list.splits)
    ultimately show "\<exists>xs ys y. points_at G p chosen [] [] = Inr (xs, ys) \<and>
        lagrange_at_zero xs ys = Some y \<and> to_byte G y = secret ! p" by blast
  qed simp_all
  moreover have "sh_index s \<noteq> 0 \<and> length (sh_value s) = length secret" if "s \<in> set picked" for s
    using val [of s] picked(2) that len by auto
  ultimately show ?thesis
    using shamir_recover_ok [of k picked "length secret" G] C picked(3) le di by (simp add: chosen_def)
qed

end

section \<open>Fewer shares than the threshold\<close>

text \<open>A random generator that reads a tape, so that a run is determined by the tape.\<close>

definition tape_trng :: "bytes hardware_trng" where
  "tape_trng = \<lparr>
     tr_fill = (\<lambda>n t. (take n t, drop n t)),
     tr_try_fill = (\<lambda>n t. if n \<le> length t then (Inr (take n t), drop n t) else (Inl (), t))\<rparr>"

fun tape_coeffs :: "'f gf_rep \<Rightarrow> nat \<Rightarrow> bytes \<Rightarrow> bytes \<Rightarrow> 'f list list" where
  "tape_coeffs G m [] t = []"
| "tape_coeffs G m (sb # secret) t =
     (of_byte G sb # map (of_byte G) (take m t)) # tape_coeffs G m secret (drop m t)"

lemma draw_coeffs_tape:
  "length cs + m \<le> 64 \<Longrightarrow> m \<le> length t \<Longrightarrow>
   draw_coeffs G tape_trng m cs t = (Inr (cs @ map (of_byte G) (take m t)), drop m t)"
proof (induction m arbitrary: cs t)
  case (Suc m)
  then obtain b t' where "t = b # t'" by (cases t) simp_all
  with Suc show ?case by (simp add: tape_trng_def)
qed simp

lemma draw_all_tape:
  "k \<noteq> 0 \<Longrightarrow> unat k \<le> 64 \<Longrightarrow> length secret * (unat k - 1) \<le> length t \<Longrightarrow>
   \<exists>w'. draw_all G tape_trng k secret t = (Inr (tape_coeffs G (unat k - 1) secret t), w')"
proof (induction secret arbitrary: t)
  case (Cons sb secret)
  have "unat k \<noteq> 0" using Cons.prems(1) by (simp add: unat_eq_0)
  then have "draw_coeffs G tape_trng (unat k - 1) [of_byte G sb] t =
      (Inr (of_byte G sb # map (of_byte G) (take (unat k - 1) t)), drop (unat k - 1) t)"
    using Cons.prems by (subst draw_coeffs_tape) simp_all
  moreover have "length secret * (unat k - 1) \<le> length (drop (unat k - 1) t)"
    using Cons.prems(3) by simp
  then obtain w' where "draw_all G tape_trng k secret (drop (unat k - 1) t) =
      (Inr (tape_coeffs G (unat k - 1) secret (drop (unat k - 1) t)), w')"
    using Cons.IH [OF Cons.prems(1,2)] by blast
  ultimately show ?case by simp
qed simp

lemma shamir_split_tape:
  assumes "16 \<le> length secret" and "length secret \<le> 64" and "k \<noteq> 0" and "k \<le> n" and "unat k \<le> 64"
    and "length secret * (unat k - 1) \<le> length t"
  shows "fst (shamir_split G tape_trng secret k n t) =
    Inr (sharing (unat n) (share_value G (tape_coeffs G (unat k - 1) secret t)))"
proof -
  have "n \<noteq> 0" using assms(3,4) by auto
  moreover have "\<not> unat n > 255" using unsigned_less [of n, where ?'a = nat] by simp
  ultimately have "validate_split_params secret k n = Inr ()"
    using assms by (simp add: validate_split_params_def)
  moreover obtain w' where
    "draw_all G tape_trng k secret t = (Inr (tape_coeffs G (unat k - 1) secret t), w')"
    using draw_all_tape [OF assms(3,5,6)] by blast
  ultimately show ?thesis by (simp add: shamir_split_draw_all)
qed

context gf_bytes
begin

lemma tape_byte_inj:
  assumes "distinct xs" and "0 \<notin> set xs" and "length s = length xs" and "length t = length xs"
    and same: "\<And>x. x \<in> set xs \<Longrightarrow>
      horner (c # map (of_byte G) s) x = horner (c # map (of_byte G) t) x"
  shows "s = t"
proof -
  let ?d = "map2 (+) (map (of_byte G) s) (map (of_byte G) t)"
  have "horner ?d x = 0" if "x \<in> set xs" for x
  proof -
    have "x * horner (map (of_byte G) s) x = x * horner (map (of_byte G) t) x"
      using same [OF that] by simp
    moreover have "x \<noteq> 0" using that assms(2) by auto
    ultimately show ?thesis using assms(3,4) by (simp add: horner_map2_add double_zero)
  qed
  then have "\<forall>c \<in> set ?d. c = 0"
    using assms by (intro roots_zero [of "set xs"]) (simp_all add: distinct_card)
  then have "?d ! i = 0" if "i < length s" for i using that assms(3,4) by (metis length_map length_zip map_fst_zip min.idem nth_mem)
  then have "of_byte G (s ! i) = of_byte G (t ! i)" if "i < length s" for i
    using that assms(3,4) minus_plus [of "of_byte G (s ! i)" "of_byte G (t ! i)"] by fastforce
  then show ?thesis using assms(3,4) by (intro nth_equalityI) (simp_all add: of_byte_inject)
qed

lemma tape_byte_unique:
  assumes "distinct xs" and "0 \<notin> set xs"
  shows "\<exists>!t. length t = length xs \<and> (\<forall>x \<in> set xs. horner (c # map (of_byte G) t) x = v x)"
proof -
  define S where "S = {t :: bytes. length t = length xs}"
  define f where "f t = map (\<lambda>x. to_byte G (horner (c # map (of_byte G) t) x)) xs" for t
  have "finite S" using finite_lists_length_eq [of "UNIV :: u8 set" "length xs"] by (simp add: S_def)
  moreover have "f ` S \<subseteq> S" by (auto simp: S_def f_def)
  moreover have inj: "inj_on f S"
  proof (rule inj_onI)
    fix s t assume "s \<in> S" "t \<in> S" "f s = f t"
    then show "s = t"
      by (intro tape_byte_inj [OF assms, of s t c]) (simp_all add: S_def f_def to_byte_inject)
  qed
  ultimately have "f ` S = S" by (rule endo_inj_surj)
  moreover have "map (\<lambda>x. to_byte G (v x)) xs \<in> S" by (simp add: S_def)
  ultimately obtain t where t: "t \<in> S" "f t = map (\<lambda>x. to_byte G (v x)) xs" by (metis imageE)
  have iff: "f s = map (\<lambda>x. to_byte G (v x)) xs \<longleftrightarrow>
      (\<forall>x \<in> set xs. horner (c # map (of_byte G) s) x = v x)" for s
    by (simp add: f_def to_byte_inject)
  show ?thesis
  proof (rule ex1I [of _ t])
    show "length t = length xs \<and> (\<forall>x \<in> set xs. horner (c # map (of_byte G) t) x = v x)"
      using t iff [of t] by (simp add: S_def)
    fix s assume "length s = length xs \<and> (\<forall>x \<in> set xs. horner (c # map (of_byte G) s) x = v x)"
    then show "s = t" using t inj iff [of s] by (auto simp: S_def inj_on_def)
  qed
qed

lemma tape_unique:
  assumes "distinct is" and "set is \<subseteq> {1..255}" and "\<And>i. i \<in> set is \<Longrightarrow> length (vals i) = length secret"
  shows "\<exists>!t. length t = length secret * length is \<and>
    (\<forall>i \<in> set is. share_value G (tape_coeffs G (length is) secret t) i = vals i)"
  using assms(3)
proof (induction secret arbitrary: vals)
  case Nil
  then show ?case by (auto simp: share_value_def)
next
  case (Cons sb secret)
  define pt where "pt i = of_byte G (of_nat i)" for i :: nat
  have inj: "inj_on pt {1..255}"
  proof (rule inj_onI)
    fix i j assume "i \<in> {1..255}" "j \<in> {1..255}" "pt i = pt j"
    then have "(of_nat i :: u8) = of_nat j" "i < 256" "j < 256" by (simp_all add: pt_def of_byte_inject)
    then show "i = j" by (metis unat_of_nat_u8)
  qed
  have "pt i \<noteq> 0" if "i \<in> set is" for i
    using that assms(2) of_nat_u8_nonzero [of i] by (auto simp: pt_def of_byte_nonzero subset_iff)
  then have "0 \<notin> set (map pt is)" by (auto simp: image_iff)
  moreover have "distinct (map pt is)"
    using assms(1) inj_on_subset [OF inj assms(2)] by (simp add: distinct_map)
  ultimately have "\<exists>!t. length t = length (map pt is) \<and> (\<forall>x \<in> set (map pt is).
      horner (of_byte G sb # map (of_byte G) t) x = of_byte G (hd (vals (inv_into {1..255} pt x))))"
    by (intro tape_byte_unique)
  moreover have "inv_into {1..255} pt (pt i) = i" if "i \<in> set is" for i
    using that assms(2) by (intro inv_into_f_f inj) auto
  ultimately have "\<exists>!t. length t = length is \<and>
      (\<forall>i \<in> set is. horner (of_byte G sb # map (of_byte G) t) (pt i) = of_byte G (hd (vals i)))"
    by simp
  then obtain t1 where t1: "length t1 = length is"
    "\<forall>i \<in> set is. horner (of_byte G sb # map (of_byte G) t1) (pt i) = of_byte G (hd (vals i))"
    "\<And>t. length t = length is \<Longrightarrow>
      \<forall>i \<in> set is. horner (of_byte G sb # map (of_byte G) t) (pt i) = of_byte G (hd (vals i)) \<Longrightarrow> t = t1"
    by (elim ex1E) blast
  have "\<exists>!t. length t = length secret * length is \<and>
      (\<forall>i \<in> set is. share_value G (tape_coeffs G (length is) secret t) i = tl (vals i))"
    using Cons.prems by (intro Cons.IH) simp
  then obtain t2 where t2: "length t2 = length secret * length is"
    "\<forall>i \<in> set is. share_value G (tape_coeffs G (length is) secret t2) i = tl (vals i)"
    "\<And>t. length t = length secret * length is \<Longrightarrow>
      \<forall>i \<in> set is. share_value G (tape_coeffs G (length is) secret t) i = tl (vals i) \<Longrightarrow> t = t2"
    by (elim ex1E) blast
  have split: "share_value G (tape_coeffs G (length is) (sb # secret) t) i = vals i \<longleftrightarrow>
      horner (of_byte G sb # map (of_byte G) (take (length is) t)) (pt i) = of_byte G (hd (vals i)) \<and>
      share_value G (tape_coeffs G (length is) secret (drop (length is) t)) i = tl (vals i)"
    if "i \<in> set is" for t i
  proof -
    have "length (vals i) = Suc (length secret)" using Cons.prems [OF that] by simp
    then obtain v vs where "vals i = v # vs" by (cases "vals i") simp_all
    moreover have "to_byte G y = v \<longleftrightarrow> y = of_byte G v" for y by auto
    ultimately show ?thesis by (auto simp: share_value_def pt_def)
  qed
  show ?case
  proof (rule ex1I [of _ "t1 @ t2"])
    show "length (t1 @ t2) = length (sb # secret) * length is \<and>
      (\<forall>i \<in> set is. share_value G (tape_coeffs G (length is) (sb # secret) (t1 @ t2)) i = vals i)"
      using t1(1,2) t2(1,2) split [of _ "t1 @ t2"] by simp
    fix t assume t: "length t = length (sb # secret) * length is \<and>
      (\<forall>i \<in> set is. share_value G (tape_coeffs G (length is) (sb # secret) t) i = vals i)"
    then have "take (length is) t = t1" using split [of _ t] by (intro t1(3)) simp_all
    moreover have "drop (length is) t = t2" using t split [of _ t] by (intro t2(3)) simp_all
    ultimately show "t = t1 @ t2" by (metis append_take_drop_id)
  qed
qed

lemma few_shares_hide_secret:
  assumes "16 \<le> length s" and "length s \<le> 64" and "length s' = length s"
    and "k \<noteq> 0" and "k \<le> n" and "unat k \<le> 64"
    and "length t = length s * (unat k - 1)"
    and "distinct is" and "set is \<subseteq> {1..unat n}" and "length is = unat k - 1"
  shows "\<exists>!t'. length t' = length t \<and>
    (\<exists>shares shares'. fst (shamir_split G tape_trng s k n t) = Inr shares \<and>
       fst (shamir_split G tape_trng s' k n t') = Inr shares' \<and>
       (\<forall>i \<in> set is. shares' ! (i - 1) = shares ! (i - 1)))"
proof -
  define vals where "vals = share_value G (tape_coeffs G (unat k - 1) s t)"
  have n: "unat n \<le> 255" using unsigned_less [of n, where ?'a = nat] by simp
  have run: "fst (shamir_split G tape_trng s k n t) = Inr (sharing (unat n) vals)"
    unfolding vals_def using assms by (intro shamir_split_tape) simp_all
  have run': "fst (shamir_split G tape_trng s' k n t') =
      Inr (sharing (unat n) (share_value G (tape_coeffs G (unat k - 1) s' t')))"
    if "length t' = length t" for t' using assms that by (intro shamir_split_tape) simp_all
  have "length (tape_coeffs G m u r) = length u" for m u r
    by (induction G m u r rule: tape_coeffs.induct) simp_all
  then have "\<exists>!t'. length t' = length s' * length is \<and>
      (\<forall>i \<in> set is. share_value G (tape_coeffs G (length is) s' t') i = vals i)"
    using assms n by (intro tape_unique) (auto simp: vals_def share_value_def)
  moreover have "sharing (unat n) v ! (i - 1) = \<lparr>sh_index = of_nat i, sh_value = v i\<rparr>" if "i \<in> set is" for i v
    using that assms(9) sharing_simps(2) [of "i - 1" "unat n" v] by (auto simp: subset_iff)
  then have "(\<forall>i \<in> set is. sharing (unat n) v ! (i - 1) = sharing (unat n) vals ! (i - 1)) \<longleftrightarrow>
      (\<forall>i \<in> set is. v i = vals i)" for v by simp
  ultimately show ?thesis
    using assms(3,7,10) run run' by (simp cong: conj_cong)
qed

end

section \<open>The field of bytes\<close>

abbreviation "gf256_rep \<equiv> \<lparr>of_byte = Gf256, to_byte = gf_byte\<rparr>"

interpretation gf256: gf_bytes gf256_rep
  by unfold_locales (simp_all add: gf256_char2)

section \<open>Properties\<close>

text \<open>
  (C11) Threshold recovery. Whatever the random bytes were, any \<open>k\<close> or more different shares of a
  successful split, in any order, recover exactly the secret that was split.
\<close>

theorem shamir_recovers_secret:
  assumes "shamir_split gf256_rep tr secret k n w = (Inr shares, w')"
    and "distinct picked" and "set picked \<subseteq> set shares" and "unat k \<le> length picked"
  shows "shamir_recover gf256_rep picked k = Inr secret"
  using assms by (rule gf256.recover_of_split)

theorem shamir_recovers_secret_witness:
  "\<exists>shares w'. shamir_split gf256_rep tape_trng (replicate 16 1) 2 3 (replicate 16 7) = (Inr shares, w') \<and>
     shamir_recover gf256_rep [shares ! 2, shares ! 0] 2 = Inr (replicate 16 1)"
proof -
  obtain r w' where r: "shamir_split gf256_rep tape_trng (replicate 16 1) 2 3 (replicate 16 7) = (r, w')"
    by (cases "shamir_split gf256_rep tape_trng (replicate 16 1) 2 3 (replicate 16 7)")
  have "fst (shamir_split gf256_rep tape_trng (replicate 16 1) 2 3 (replicate 16 7)) = Inr (sharing (unat (3 :: u8))
      (share_value gf256_rep (tape_coeffs gf256_rep (unat (2 :: u8) - 1) (replicate 16 1) (replicate 16 7))))"
    by (rule shamir_split_tape) simp_all
  with r obtain vals where v: "r = Inr (sharing 3 vals)" by simp
  have "shamir_recover gf256_rep [sharing 3 vals ! 2, sharing 3 vals ! 0] 2 = Inr (replicate 16 1)"
    using r unfolding v by (rule shamir_recovers_secret) (simp_all del: sharing_simps(2), simp)
  with r v show ?thesis by blast
qed

text \<open>
  (C12) Perfect secrecy below the threshold. Fix the \<open>k - 1\<close> shares with given indices that a split
  of \<open>s\<close> hands out with random tape \<open>t\<close>. For every other secret \<open>s'\<close> of the same length there is
  exactly one random tape with which the code hands out the very same \<open>k - 1\<close> shares: with uniform
  random bytes those shares have the same distribution for all secrets.
\<close>

theorem shamir_below_threshold_hides:
  assumes "16 \<le> length s" and "length s \<le> 64" and "length s' = length s"
    and "k \<noteq> 0" and "k \<le> n" and "unat k \<le> 64"
    and "length t = length s * (unat k - 1)"
    and "distinct is" and "set is \<subseteq> {1..unat n}" and "length is = unat k - 1"
  shows "\<exists>!t'. length t' = length t \<and>
    (\<exists>shares shares'. fst (shamir_split gf256_rep tape_trng s k n t) = Inr shares \<and>
       fst (shamir_split gf256_rep tape_trng s' k n t') = Inr shares' \<and>
       (\<forall>i \<in> set is. shares' ! (i - 1) = shares ! (i - 1)))"
  using assms by (rule gf256.few_shares_hide_secret)

theorem shamir_below_threshold_hides_witness:
  "\<exists>!t'. length t' = length (replicate 16 (7 :: u8)) \<and>
    (\<exists>shares shares'.
       fst (shamir_split gf256_rep tape_trng (replicate 16 1) 2 3 (replicate 16 7)) = Inr shares \<and>
       fst (shamir_split gf256_rep tape_trng (replicate 16 9) 2 3 t') = Inr shares' \<and>
       (\<forall>i \<in> set [3]. shares' ! (i - 1) = shares ! (i - 1)))"
  by (rule shamir_below_threshold_hides) simp_all

text \<open>
  The hand-written exchange sort of the shares is the stable sort by index of the library.
\<close>

theorem sort_shares_is_sort_key: "sort_shares_by_index shares = sort_key sh_index shares"
  by (rule sort_shares_sort_key)

text \<open>
  The documented range of the threshold is not reached: with \<open>k > 64\<close> a split that passes
  every parameter check still fails, because the coefficient vector holds 64 elements.
\<close>

lemma shamir_threshold_over_64:
  assumes "64 < k" and "16 \<le> length secret"
  shows "\<exists>e w'. shamir_split gf256_rep tr secret k n w = (Inl e, w')"
proof -
  obtain r w' where r: "shamir_split gf256_rep tr secret k n w = (r, w')"
    by (cases "shamir_split gf256_rep tr secret k n w")
  show ?thesis
  proof (cases r)
    case (Inr shares)
    with r obtain C where C: "list_all2 (coeffs_for gf256_rep k) secret C"
      by (auto elim: shamir_split_sharing)
    with assms(2) obtain b where "coeffs_for gf256_rep k b (hd C)" by (cases secret; cases C) auto
    then have "unat k \<le> 64" by (simp add: coeffs_for_def)
    with assms(1) show ?thesis by (simp add: word_less_nat_alt)
  qed (simp add: r)
qed

end
