(* ===== verification/Cascade.thy ===== *)
theory Cascade
  imports Cipher_Profile
begin

text \<open>
  The cipher cascade of \<open>crates/cipher-profile/src/cascade.rs\<close>: every layer of a profile encrypts the
  output of the layer before it. Profiles with a CESS suite identifier derive keys and nonces with
  HKDF-BLAKE3 and append an HMAC-BLAKE3 between layers; the others use HKDF-SHA256 over a 32-byte
  pseudo-random key. The third-party code is collected in \<open>cascade_lib\<close>: the primitives of the vault
  ciphers, BLAKE3 and AES-256-GCM with the tag appended.
\<close>

section \<open>Model\<close>

record cascade_lib =
  cl_vault :: cipher_lib
  cl_blake3 :: "bytes \<Rightarrow> arr32"
  cl_gcm_encrypt :: aead_fun
  cl_gcm_decrypt :: aead_fun

abbreviation MAX_CT :: nat where "MAX_CT \<equiv> 65536"
abbreviation INTER_LAYER_MAC_LEN :: nat where "INTER_LAYER_MAC_LEN \<equiv> 32"

record cascade_ciphertext =
  cc_profile_name :: bytes
  cc_ciphertext :: bytes

definition hkdf_blake3_okm32 :: "cascade_lib \<Rightarrow> bytes \<Rightarrow> bytes \<Rightarrow> cipher_profile_error + arr32" where
  "hkdf_blake3_okm32 X ikm info =
     (let v = hkdf_blake3 (cl_blake3 X) ikm [] info 32 in
      if length v = 32 then Inr (Arr32 v) else Inl CpKeyDerivation)"

definition hkdf_blake3_okm64 :: "cascade_lib \<Rightarrow> bytes \<Rightarrow> bytes \<Rightarrow> cipher_profile_error + bytes" where
  "hkdf_blake3_okm64 X ikm info =
     (let v = hkdf_blake3 (cl_blake3 X) ikm [] info 64 in
      if length v = 64 then Inr v else Inl CpKeyDerivation)"

text \<open>\<open>copy_ct_*\<close> and \<open>copy_pt_*\<close> are the same loop for each of the four vault ciphers.\<close>

definition copy_ct :: "bytes \<Rightarrow> cipher_profile_error + bytes" where
  "copy_ct ct = ok_or PayloadTooLarge (push_all MAX_CT [] ct)"

definition copy_pt :: "bytes \<Rightarrow> cipher_profile_error + bytes" where
  "copy_pt pt = ok_or CpAuthenticationFailed (push_all MAX_CT [] pt)"

definition map_cipher_encrypt_err :: "u8 \<Rightarrow> 'e \<Rightarrow> cipher_profile_error" where
  "map_cipher_encrypt_err layer e = CipherError layer"

definition map_decrypt_err :: "cipher_profile_error + 'a \<Rightarrow> cipher_profile_error + 'a" where
  "map_decrypt_err r = map_err (\<lambda>_. CpAuthenticationFailed) r"

definition legacy_prk32 :: "bytes \<Rightarrow> cipher_profile_error + bytes" where
  "legacy_prk32 ikm = (if length ikm = 32 then Inr ikm else Inl CpKeyDerivation)"

subsection \<open>Integrity between layers\<close>

definition cess_inter_layer_mac_key :: "cascade_lib \<Rightarrow> bytes \<Rightarrow> u16 \<Rightarrow> u8 \<Rightarrow> cipher_profile_error + arr32" where
  "cess_inter_layer_mac_key X ikm suite_id after_layer =
     hkdf_blake3_okm32 X ikm (cess_blake3_integrity_gap_info suite_id after_layer)"

definition cess_inter_layer_hmac_message :: "u16 \<Rightarrow> bytes \<Rightarrow> cipher_profile_error + bytes" where
  "cess_inter_layer_hmac_message suite_id body =
     res_bind (ok_or PayloadTooLarge (push_all MAX_CT [] (cess_blake3_integrity_info suite_id))) (\<lambda>out.
     ok_or PayloadTooLarge (push_all MAX_CT out body))"

definition cess_append_inter_layer_mac ::
  "cascade_lib \<Rightarrow> bytes \<Rightarrow> u16 \<Rightarrow> u8 \<Rightarrow> bytes \<Rightarrow> cipher_profile_error + bytes" where
  "cess_append_inter_layer_mac X ikm suite_id after_layer body =
     res_bind (cess_inter_layer_mac_key X ikm suite_id after_layer) (\<lambda>key.
     res_bind (cess_inter_layer_hmac_message suite_id body) (\<lambda>msg.
     let mac = hmac_blake3 (cl_blake3 X) (arr32_bytes key) msg in
     ok_or PayloadTooLarge (push_all MAX_CT body (arr32_bytes mac))))"

definition cess_verify_and_strip_inter_layer_mac ::
  "cascade_lib \<Rightarrow> bytes \<Rightarrow> u16 \<Rightarrow> u8 \<Rightarrow> bytes \<Rightarrow> cipher_profile_error + bytes" where
  "cess_verify_and_strip_inter_layer_mac X ikm suite_id after_layer buf =
     (if length buf < INTER_LAYER_MAC_LEN then Inl CpAuthenticationFailed
      else
        let split = length buf - INTER_LAYER_MAC_LEN;
            body = take split buf;
            mac_bytes = drop split buf in
        res_bind (cess_inter_layer_mac_key X ikm suite_id after_layer) (\<lambda>key.
        res_bind (cess_inter_layer_hmac_message suite_id body) (\<lambda>msg.
        let expect = hmac_blake3 (cl_blake3 X) (arr32_bytes key) msg in
        if length mac_bytes \<noteq> INTER_LAYER_MAC_LEN then Inl CpAuthenticationFailed
        else if \<not> bool_of_choice (ct_eq (arr32_bytes expect) mac_bytes) then Inl CpAuthenticationFailed
        else ok_or CpAuthenticationFailed (push_all MAX_CT [] body))))"

subsection \<open>AES layers\<close>

definition aes_encrypt :: "cascade_lib \<Rightarrow> bytes \<Rightarrow> bytes \<Rightarrow> bytes \<Rightarrow> bytes \<Rightarrow> bytes \<Rightarrow> cipher_profile_error + bytes" where
  "aes_encrypt X prk aad pt key_info nonce_info =
     res_bind (ok_or CpKeyDerivation (hkdf256_expand (cl_vault X) prk key_info 32)) (\<lambda>key.
     res_bind (ok_or CpKeyDerivation (hkdf256_expand (cl_vault X) prk nonce_info 12)) (\<lambda>nb.
     res_bind (ok_or (CipherError 0) (cl_gcm_encrypt X (Arr32 key) nb aad pt)) (\<lambda>ct.
     ok_or PayloadTooLarge (push_all MAX_CT [] ct))))"

definition aes_decrypt :: "cascade_lib \<Rightarrow> bytes \<Rightarrow> bytes \<Rightarrow> bytes \<Rightarrow> bytes \<Rightarrow> bytes \<Rightarrow> cipher_profile_error + bytes" where
  "aes_decrypt X prk aad ct key_info nonce_info =
     res_bind (ok_or CpAuthenticationFailed (hkdf256_expand (cl_vault X) prk key_info 32)) (\<lambda>key.
     res_bind (ok_or CpAuthenticationFailed (hkdf256_expand (cl_vault X) prk nonce_info 12)) (\<lambda>nb.
     res_bind (ok_or CpAuthenticationFailed (cl_gcm_decrypt X (Arr32 key) nb aad ct)) (\<lambda>pt.
     ok_or CpAuthenticationFailed (push_all MAX_CT [] pt))))"

subsection \<open>One layer\<close>

text \<open>The three arms for the encrypt-then-MAC ciphers differ in the cipher called only.\<close>

definition encrypt_etm_cess ::
  "cascade_lib \<Rightarrow> (etm_key \<Rightarrow> arr16 \<Rightarrow> bytes \<Rightarrow> bytes \<Rightarrow> etm_error + bytes) \<Rightarrow> cess_inner_etm64_cipher \<Rightarrow>
   bytes \<Rightarrow> u16 \<Rightarrow> bytes \<Rightarrow> bytes \<Rightarrow> u8 \<Rightarrow> cipher_profile_error + bytes" where
  "encrypt_etm_cess X encf cipher ikm sid aad data layer_idx =
     res_bind (hkdf_blake3_okm64 X ikm (cess_inner_cascade_etm64_info sid layer_idx cipher)) (\<lambda>okm.
     res_bind (hkdf_blake3_okm32 X ikm (cess_inner_cascade_layer_nonce_info sid layer_idx)) (\<lambda>n_okm.
     res_bind (map_err (map_cipher_encrypt_err layer_idx)
       (encf (etm_from_okm64 okm) (etm_nonce_from_okm32 (arr32_bytes n_okm)) aad data)) copy_ct))"

definition encrypt_layer_cess ::
  "cascade_lib \<Rightarrow> bytes \<Rightarrow> u16 \<Rightarrow> cipher_layer \<Rightarrow> bytes \<Rightarrow> bytes \<Rightarrow> u8 \<Rightarrow> cipher_profile_error + bytes" where
  "encrypt_layer_cess X ikm sid layer aad data layer_idx =
     (let ik = cess_inner_cascade_layer_key_info sid layer_idx;
          ink = cess_inner_cascade_layer_nonce_info sid layer_idx in
      case layer of
        Aes256Gcm \<Rightarrow>
          res_bind (hkdf_blake3_okm32 X ikm ik) (\<lambda>key.
          let nb = hkdf_blake3 (cl_blake3 X) ikm [] ink 12 in
          res_bind (if length nb = 12 then Inr nb else Inl CpKeyDerivation) (\<lambda>nb12.
          res_bind (ok_or (CipherError layer_idx) (cl_gcm_encrypt X key nb12 aad data)) (\<lambda>ct.
          ok_or PayloadTooLarge (push_all MAX_CT [] ct))))
      | ChaCha20Poly1305 \<Rightarrow>
          res_bind (hkdf_blake3_okm32 X ikm ik) (\<lambda>key.
          res_bind (hkdf_blake3_okm32 X ikm ink) (\<lambda>n_b.
          res_bind (map_err (map_cipher_encrypt_err layer_idx)
            (chacha_encrypt (cl_vault X) key (ChaChaNonce_from_okm32_prefix (arr32_bytes n_b)) aad data)) copy_ct))
      | Twofish256 \<Rightarrow> encrypt_etm_cess X (twofish_encrypt (cl_vault X)) EtM64Twofish256 ikm sid aad data layer_idx
      | Serpent256 \<Rightarrow> encrypt_etm_cess X (serpent_encrypt (cl_vault X)) EtM64Serpent256 ikm sid aad data layer_idx
      | Camellia256 \<Rightarrow> encrypt_etm_cess X (camellia_encrypt (cl_vault X)) EtM64Camellia256 ikm sid aad data layer_idx)"

definition encrypt_etm ::
  "cascade_lib \<Rightarrow> (etm_key \<Rightarrow> arr16 \<Rightarrow> bytes \<Rightarrow> bytes \<Rightarrow> etm_error + bytes) \<Rightarrow> bytes \<Rightarrow> bytes \<Rightarrow> bytes \<Rightarrow>
   bytes \<Rightarrow> bytes \<Rightarrow> u8 \<Rightarrow> cipher_profile_error + bytes" where
  "encrypt_etm X encf prk aad data key_info nonce_info layer_idx =
     res_bind (map_err (\<lambda>_. CpKeyDerivation) (etm_key_from_label (cl_vault X) prk key_info)) (\<lambda>key.
     res_bind (map_err (\<lambda>_. CpKeyDerivation) (etm_nonce_from_label (cl_vault X) prk nonce_info)) (\<lambda>nonce.
     res_bind (map_err (map_cipher_encrypt_err layer_idx) (encf key nonce aad data)) copy_ct))"

definition encrypt_layer ::
  "cascade_lib \<Rightarrow> bytes \<Rightarrow> u16 option \<Rightarrow> cipher_layer \<Rightarrow> bytes \<Rightarrow> bytes \<Rightarrow> bytes \<Rightarrow> bytes \<Rightarrow> u8 \<Rightarrow>
   cipher_profile_error + bytes" where
  "encrypt_layer X ikm cess_suite_id layer aad data key_info nonce_info layer_idx =
     (case cess_suite_id of
        Some sid \<Rightarrow> encrypt_layer_cess X ikm sid layer aad data layer_idx
      | None \<Rightarrow>
          res_bind (legacy_prk32 ikm) (\<lambda>prk.
          case layer of
            Aes256Gcm \<Rightarrow> aes_encrypt X prk aad data key_info nonce_info
          | ChaCha20Poly1305 \<Rightarrow>
              res_bind (map_err (\<lambda>_. CpKeyDerivation) (ChaChaKey_derive_from_prk_label (cl_vault X) prk key_info)) (\<lambda>key.
              res_bind (map_err (\<lambda>_. CpKeyDerivation) (ChaChaNonce_derive_from_prk_label (cl_vault X) prk nonce_info)) (\<lambda>nonce.
              res_bind (map_err (map_cipher_encrypt_err layer_idx)
                (chacha_encrypt (cl_vault X) key nonce aad data)) copy_ct))
          | Twofish256 \<Rightarrow> encrypt_etm X (twofish_encrypt (cl_vault X)) prk aad data key_info nonce_info layer_idx
          | Serpent256 \<Rightarrow> encrypt_etm X (serpent_encrypt (cl_vault X)) prk aad data key_info nonce_info layer_idx
          | Camellia256 \<Rightarrow> encrypt_etm X (camellia_encrypt (cl_vault X)) prk aad data key_info nonce_info layer_idx))"

definition auth_failed :: "'e + 'a \<Rightarrow> cipher_profile_error + 'a" where
  "auth_failed r = map_err (\<lambda>_. CpAuthenticationFailed) r"

definition decrypt_etm_cess ::
  "cascade_lib \<Rightarrow> (etm_key \<Rightarrow> arr16 \<Rightarrow> bytes \<Rightarrow> bytes \<Rightarrow> etm_error + bytes) \<Rightarrow> cess_inner_etm64_cipher \<Rightarrow>
   bytes \<Rightarrow> u16 \<Rightarrow> bytes \<Rightarrow> bytes \<Rightarrow> u8 \<Rightarrow> cipher_profile_error + bytes" where
  "decrypt_etm_cess X decf cipher ikm sid aad data layer_idx =
     res_bind (auth_failed (hkdf_blake3_okm64 X ikm (cess_inner_cascade_etm64_info sid layer_idx cipher))) (\<lambda>okm.
     res_bind (auth_failed (hkdf_blake3_okm32 X ikm (cess_inner_cascade_layer_nonce_info sid layer_idx))) (\<lambda>n_okm.
     res_bind (auth_failed (etm_ciphertext_from_bytes data)) (\<lambda>ct.
     res_bind (auth_failed
       (decf (etm_from_okm64 okm) (etm_nonce_from_okm32 (arr32_bytes n_okm)) aad ct)) copy_pt)))"

definition decrypt_layer_cess ::
  "cascade_lib \<Rightarrow> bytes \<Rightarrow> u16 \<Rightarrow> cipher_layer \<Rightarrow> bytes \<Rightarrow> bytes \<Rightarrow> u8 \<Rightarrow> cipher_profile_error + bytes" where
  "decrypt_layer_cess X ikm sid layer aad data layer_idx =
     (let ik = cess_inner_cascade_layer_key_info sid layer_idx;
          ink = cess_inner_cascade_layer_nonce_info sid layer_idx in
      case layer of
        Aes256Gcm \<Rightarrow>
          res_bind (auth_failed (hkdf_blake3_okm32 X ikm ik)) (\<lambda>key.
          let nb = hkdf_blake3 (cl_blake3 X) ikm [] ink 12 in
          res_bind (if length nb = 12 then Inr nb else Inl CpAuthenticationFailed) (\<lambda>nb12.
          res_bind (ok_or CpAuthenticationFailed (cl_gcm_decrypt X key nb12 aad data)) (\<lambda>pt.
          ok_or CpAuthenticationFailed (push_all MAX_CT [] pt))))
      | ChaCha20Poly1305 \<Rightarrow>
          res_bind (auth_failed (hkdf_blake3_okm32 X ikm ik)) (\<lambda>key.
          res_bind (auth_failed (hkdf_blake3_okm32 X ikm ink)) (\<lambda>n_b.
          res_bind (auth_failed (ChaChaCiphertext_try_from_slice data)) (\<lambda>ct.
          res_bind (auth_failed
            (chacha_decrypt (cl_vault X) key (ChaChaNonce_from_okm32_prefix (arr32_bytes n_b)) aad ct)) copy_pt)))
      | Twofish256 \<Rightarrow> decrypt_etm_cess X (twofish_decrypt (cl_vault X)) EtM64Twofish256 ikm sid aad data layer_idx
      | Serpent256 \<Rightarrow> decrypt_etm_cess X (serpent_decrypt (cl_vault X)) EtM64Serpent256 ikm sid aad data layer_idx
      | Camellia256 \<Rightarrow> decrypt_etm_cess X (camellia_decrypt (cl_vault X)) EtM64Camellia256 ikm sid aad data layer_idx)"

definition decrypt_etm ::
  "cascade_lib \<Rightarrow> (etm_key \<Rightarrow> arr16 \<Rightarrow> bytes \<Rightarrow> bytes \<Rightarrow> etm_error + bytes) \<Rightarrow> bytes \<Rightarrow> bytes \<Rightarrow> bytes \<Rightarrow>
   bytes \<Rightarrow> bytes \<Rightarrow> cipher_profile_error + bytes" where
  "decrypt_etm X decf prk aad data key_info nonce_info =
     res_bind (auth_failed (etm_key_from_label (cl_vault X) prk key_info)) (\<lambda>key.
     res_bind (auth_failed (etm_nonce_from_label (cl_vault X) prk nonce_info)) (\<lambda>nonce.
     res_bind (auth_failed (etm_ciphertext_from_bytes data)) (\<lambda>ct.
     res_bind (auth_failed (decf key nonce aad ct)) copy_pt)))"

definition decrypt_layer ::
  "cascade_lib \<Rightarrow> bytes \<Rightarrow> u16 option \<Rightarrow> cipher_layer \<Rightarrow> bytes \<Rightarrow> bytes \<Rightarrow> bytes \<Rightarrow> bytes \<Rightarrow> u8 \<Rightarrow>
   cipher_profile_error + bytes" where
  "decrypt_layer X ikm cess_suite_id layer aad data key_info nonce_info layer_idx =
     (case cess_suite_id of
        Some sid \<Rightarrow> decrypt_layer_cess X ikm sid layer aad data layer_idx
      | None \<Rightarrow>
          res_bind (auth_failed (legacy_prk32 ikm)) (\<lambda>prk.
          case layer of
            Aes256Gcm \<Rightarrow> aes_decrypt X prk aad data key_info nonce_info
          | ChaCha20Poly1305 \<Rightarrow>
              res_bind (auth_failed (ChaChaKey_derive_from_prk_label (cl_vault X) prk key_info)) (\<lambda>key.
              res_bind (auth_failed (ChaChaNonce_derive_from_prk_label (cl_vault X) prk nonce_info)) (\<lambda>nonce.
              res_bind (auth_failed (ChaChaCiphertext_try_from_slice data)) (\<lambda>ct.
              res_bind (auth_failed (chacha_decrypt (cl_vault X) key nonce aad ct)) copy_pt)))
          | Twofish256 \<Rightarrow> decrypt_etm X (twofish_decrypt (cl_vault X)) prk aad data key_info nonce_info
          | Serpent256 \<Rightarrow> decrypt_etm X (serpent_decrypt (cl_vault X)) prk aad data key_info nonce_info
          | Camellia256 \<Rightarrow> decrypt_etm X (camellia_decrypt (cl_vault X)) prk aad data key_info nonce_info))"

subsection \<open>The cascade\<close>

text \<open>The bodies of the loops of \<open>cascade_forward_encrypt\<close> and \<open>cascade_decrypt\<close>.\<close>

fun forward_loop ::
  "cascade_lib \<Rightarrow> bytes \<Rightarrow> cipher_layer list \<Rightarrow> u16 option \<Rightarrow> bytes \<Rightarrow> bytes \<Rightarrow> nat list \<Rightarrow> bytes \<Rightarrow>
   cipher_profile_error + bytes" where
  "forward_loop X name layers cess_sid ikm aad [] current = Inr current"
| "forward_loop X name layers cess_sid ikm aad (i # is) current =
     (let n = length layers; layer = layers ! i; layer_aad = (if i + 1 = n then aad else []) in
      res_bind (layer_key_info name layer (of_nat i)) (\<lambda>kinfo.
      res_bind (layer_nonce_info name layer (of_nat i)) (\<lambda>ninfo.
      res_bind (encrypt_layer X ikm cess_sid layer layer_aad current kinfo ninfo (of_nat i)) (\<lambda>current.
      res_bind (case cess_sid of
          Some sid \<Rightarrow> if i + 1 < n then cess_append_inter_layer_mac X ikm sid (of_nat i) current else Inr current
        | None \<Rightarrow> Inr current) (\<lambda>current.
      forward_loop X name layers cess_sid ikm aad is current)))))"

fun backward_loop ::
  "cascade_lib \<Rightarrow> bytes \<Rightarrow> cipher_layer list \<Rightarrow> u16 option \<Rightarrow> bytes \<Rightarrow> bytes \<Rightarrow> nat list \<Rightarrow> bytes \<Rightarrow>
   cipher_profile_error + bytes" where
  "backward_loop X name layers cess_sid ikm aad [] buf = Inr buf"
| "backward_loop X name layers cess_sid ikm aad (idx # is) buf =
     (let n = length layers; layer = layers ! idx; layer_aad = (if idx + 1 = n then aad else []) in
      res_bind (map_decrypt_err (layer_key_info name layer (of_nat idx))) (\<lambda>kinfo.
      res_bind (map_decrypt_err (layer_nonce_info name layer (of_nat idx))) (\<lambda>ninfo.
      res_bind (decrypt_layer X ikm cess_sid layer layer_aad buf kinfo ninfo (of_nat idx)) (\<lambda>buf.
      res_bind (case cess_sid of
          Some sid \<Rightarrow> if idx > 0 then cess_verify_and_strip_inter_layer_mac X ikm sid (of_nat (idx - 1)) buf else Inr buf
        | None \<Rightarrow> Inr buf) (\<lambda>buf.
      backward_loop X name layers cess_sid ikm aad is buf)))))"

definition cascade_forward_encrypt ::
  "cascade_lib \<Rightarrow> cipher_profile \<Rightarrow> bytes \<Rightarrow> bytes \<Rightarrow> bytes \<Rightarrow> nat \<Rightarrow> cipher_profile_error + bytes" where
  "cascade_forward_encrypt X profile ikm aad plaintext last_layer_exclusive =
     (if length plaintext > MAX_CASCADE_PLAINTEXT then Inl PayloadTooLarge
      else
        let cess_sid = suite_id_for_profile_name (cp_name profile) in
        if cess_sid = None \<and> length ikm \<noteq> 32 then Inl CpKeyDerivation
        else if last_layer_exclusive > length (cp_layers profile) then Inl (CipherError 0)
        else
          res_bind (ok_or PayloadTooLarge (push_all MAX_CT [] plaintext)) (\<lambda>current.
          forward_loop X (cp_name profile) (cp_layers profile) cess_sid ikm aad
            [0..<last_layer_exclusive] current))"

definition cascade_blob_before_outermost_encrypt ::
  "cascade_lib \<Rightarrow> cipher_profile \<Rightarrow> bytes \<Rightarrow> bytes \<Rightarrow> bytes \<Rightarrow> cipher_profile_error + bytes" where
  "cascade_blob_before_outermost_encrypt X profile ikm aad plaintext =
     (let n = length (cp_layers profile) in
      if n < 2 then Inl (CipherError 0)
      else cascade_forward_encrypt X profile ikm aad plaintext (n - 1))"

definition cascade_encrypt ::
  "cascade_lib \<Rightarrow> cipher_profile \<Rightarrow> bytes \<Rightarrow> bytes \<Rightarrow> bytes \<Rightarrow> cipher_profile_error + cascade_ciphertext" where
  "cascade_encrypt X profile ikm aad plaintext =
     res_bind (cascade_forward_encrypt X profile ikm aad plaintext (length (cp_layers profile))) (\<lambda>current.
     res_bind (ok_or InvalidProfileName (push_str 64 [] (cp_name profile))) (\<lambda>pname.
     Inr \<lparr>cc_profile_name = pname, cc_ciphertext = current\<rparr>))"

definition cascade_decrypt ::
  "cascade_lib \<Rightarrow> cipher_profile \<Rightarrow> bytes \<Rightarrow> bytes \<Rightarrow> cascade_ciphertext \<Rightarrow> cipher_profile_error + bytes" where
  "cascade_decrypt X profile ikm aad ct =
     (if cc_profile_name ct \<noteq> cp_name profile then Inl ProfileMismatch
      else
        let cess_sid = suite_id_for_profile_name (cp_name profile) in
        if cess_sid = None \<and> length ikm \<noteq> 32 then Inl CpAuthenticationFailed
        else
          res_bind (ok_or CpAuthenticationFailed (push_all MAX_CT [] (cc_ciphertext ct))) (\<lambda>buf.
          backward_loop X (cp_name profile) (cp_layers profile) cess_sid ikm aad
            (rev [0..<length (cp_layers profile)]) buf))"

section \<open>Layers open what they seal\<close>

lemma okm_ok [simp]:
  "hkdf_blake3_okm32 X ikm info = Inr (Arr32 (hkdf_blake3 (cl_blake3 X) ikm [] info 32))"
  "hkdf_blake3_okm64 X ikm info = Inr (hkdf_blake3 (cl_blake3 X) ikm [] info 64)"
  by (simp_all add: hkdf_blake3_okm32_def hkdf_blake3_okm64_def)

lemma auth_failed_simps [simp]:
  "auth_failed (Inr x) = Inr x" "auth_failed (Inl e) = Inl CpAuthenticationFailed"
  by (simp_all add: auth_failed_def)

lemma auth_failed_eq_Inr [simp]: "auth_failed r = Inr x \<longleftrightarrow> r = Inr x"
  by (simp add: auth_failed_def)

lemma copy_eq_Inr [simp]:
  "copy_ct x = Inr y \<longleftrightarrow> y = x \<and> length x \<le> 65536" "copy_pt x = Inr y \<longleftrightarrow> y = x \<and> length x \<le> 65536"
  by (auto simp: copy_ct_def copy_pt_def)

declare ok_or_eq_Inr [simp]

lemma push_all_eq_Some: "push_all cap [] x = Some y \<longleftrightarrow> y = x \<and> length x \<le> cap"
  by auto

definition libraries_ok :: "cascade_lib \<Rightarrow> bool" where
  "libraries_ok X \<longleftrightarrow>
     detached_aead (chacha_seal (cl_vault X)) (chacha_open (cl_vault X)) \<and>
     combined_aead (cl_gcm_encrypt X) (cl_gcm_decrypt X)"

context sealed_box
begin

text \<open>A sealed box wrapped in the cascade's copies and length checks is still one.\<close>

lemma wrapped_exact:
  assumes "overhead + limit \<le> cap" and "cap \<le> 65536"
    and "\<And>ct x. res ct = Inr x \<longleftrightarrow> x = ct \<and> length ct \<le> cap"
  shows "res_bind (auth_failed (res c)) (\<lambda>ct. res_bind (auth_failed (dec aad ct)) copy_pt) = Inr p \<longleftrightarrow>
    res_bind (map_err f (enc aad p)) copy_ct = Inr c"
proof -
  have "enc aad p = Inr c \<Longrightarrow> length c \<le> cap \<and> length p \<le> 65536 \<and> length c \<le> 65536"
    using grows [of aad p c] bounded [of aad p c] assms(1,2) by linarith
  then show ?thesis by (auto simp: res_bind_eq_Inr assms(3) opens_exactly)
qed

end

lemma etm_ciphertext_from_bytes_ok: "etm_ciphertext_from_bytes ct = Inr x \<longleftrightarrow> x = ct \<and> length ct \<le> 8224"
  by (auto simp: etm_ciphertext_from_bytes_def)

lemma ChaChaCiphertext_try_from_slice_ok:
  "ChaChaCiphertext_try_from_slice ct = Inr x \<longleftrightarrow> x = ct \<and> length ct \<le> 8208"
  by (auto simp: ChaChaCiphertext_try_from_slice_def)

lemma chacha_layer_exact:
  assumes "libraries_ok X"
  shows "res_bind (auth_failed (ChaChaCiphertext_try_from_slice c)) (\<lambda>ct.
      res_bind (auth_failed (chacha_decrypt (cl_vault X) key nonce aad ct)) copy_pt) = Inr p \<longleftrightarrow>
    res_bind (map_err f (chacha_encrypt (cl_vault X) key nonce aad p)) copy_ct = Inr c"
  using assms
  by (intro sealed_box.wrapped_exact [OF chacha_sealed_box, where cap = 8208])
    (auto simp: libraries_ok_def ChaChaCiphertext_try_from_slice_ok)

lemma etm_layer_exact:
  assumes "\<And>key nonce. sealed_box (encf key nonce) (decf key nonce) 32 8192"
  shows "decrypt_etm_cess X decf cipher ikm sid aad c idx = Inr p \<longleftrightarrow>
      encrypt_etm_cess X encf cipher ikm sid aad p idx = Inr c"
    and "decrypt_etm X decf prk aad c ki ni = Inr p \<longleftrightarrow> encrypt_etm X encf prk aad p ki ni idx = Inr c"
proof -
  have w: "res_bind (auth_failed (etm_ciphertext_from_bytes c)) (\<lambda>ct.
      res_bind (auth_failed (decf key nonce aad ct)) copy_pt) = Inr p \<longleftrightarrow>
    res_bind (map_err f (encf key nonce aad p)) copy_ct = Inr c" for key nonce f
    by (intro sealed_box.wrapped_exact [OF assms, where cap = 8224]) (auto simp: etm_ciphertext_from_bytes_ok)
  show "decrypt_etm_cess X decf cipher ikm sid aad c idx = Inr p \<longleftrightarrow>
      encrypt_etm_cess X encf cipher ikm sid aad p idx = Inr c"
    by (simp add: decrypt_etm_cess_def encrypt_etm_cess_def w)
  show "decrypt_etm X decf prk aad c ki ni = Inr p \<longleftrightarrow> encrypt_etm X encf prk aad p ki ni idx = Inr c"
    unfolding decrypt_etm_def encrypt_etm_def
    by (cases "etm_key_from_label (cl_vault X) prk ki"; cases "etm_nonce_from_label (cl_vault X) prk ni")
      (simp_all add: w)
qed

lemmas vault_layer_exact =
  etm_layer_exact [OF twofish.sealed_box_axioms] etm_layer_exact [OF serpent.sealed_box_axioms]
  etm_layer_exact [OF camellia.sealed_box_axioms]

lemma gcm_exact:
  assumes "libraries_ok X" and "length c \<le> 65536"
  shows "res_bind (ok_or e1 (cl_gcm_decrypt X key nb aad c)) (\<lambda>pt. ok_or e2 (push_all MAX_CT [] pt)) = Inr p \<longleftrightarrow>
    res_bind (ok_or e3 (cl_gcm_encrypt X key nb aad p)) (\<lambda>ct. ok_or e4 (push_all MAX_CT [] ct)) = Inr c"
proof -
  have laws: "cl_gcm_decrypt X key nb aad c = Some q \<longleftrightarrow> cl_gcm_encrypt X key nb aad q = Some c"
    "cl_gcm_encrypt X key nb aad q = Some d \<Longrightarrow> length d = length q + 16" for q d
    using assms(1) by (simp_all add: libraries_ok_def combined_aead_def)
  show ?thesis
    unfolding res_bind_eq_Inr ok_or_eq_Inr push_all_eq_Some laws(1) using assms(2) laws(2) by fastforce
qed

lemma layer_exact:
  assumes "libraries_ok X" and "length c \<le> 65536"
  shows "decrypt_layer X ikm sid layer aad c ki ni idx = Inr p \<longleftrightarrow>
    encrypt_layer X ikm sid layer aad p ki ni idx = Inr c"
proof (cases sid)
  case None
  show ?thesis
  proof (cases "length ikm = 32")
    case True
    show ?thesis
    proof (cases layer)
      case Aes256Gcm
      then show ?thesis
        using gcm_exact [OF assms] True None
        by (cases "hkdf256_expand (cl_vault X) ikm ki 32"; cases "hkdf256_expand (cl_vault X) ikm ni 12")
          (simp_all add: decrypt_layer_def encrypt_layer_def aes_encrypt_def aes_decrypt_def legacy_prk32_def
            del: push_all_Nil)
    next
      case ChaCha20Poly1305
      then show ?thesis
        using True None
        by (cases "ChaChaKey_derive_from_prk_label (cl_vault X) ikm ki";
            cases "ChaChaNonce_derive_from_prk_label (cl_vault X) ikm ni")
          (simp_all add: decrypt_layer_def encrypt_layer_def legacy_prk32_def chacha_layer_exact [OF assms(1)])
    qed (use True None in \<open>simp_all add: decrypt_layer_def encrypt_layer_def legacy_prk32_def vault_layer_exact\<close>)
  qed (simp add: None decrypt_layer_def encrypt_layer_def legacy_prk32_def)
next
  case (Some s)
  show ?thesis
    unfolding decrypt_layer_def encrypt_layer_def Some option.case decrypt_layer_cess_def encrypt_layer_cess_def Let_def
    by (cases layer) (simp_all add: gcm_exact [OF assms] chacha_layer_exact [OF assms(1)] vault_layer_exact
        del: push_all_Nil)
qed

lemma gcm_grows:
  assumes "libraries_ok X"
    and "res_bind (ok_or e3 (cl_gcm_encrypt X key nb aad p)) (\<lambda>ct. ok_or e4 (push_all MAX_CT [] ct)) = Inr c"
  shows "length p + 16 = length c \<and> length c \<le> 65536"
  using assms unfolding res_bind_eq_Inr ok_or_eq_Inr push_all_eq_Some libraries_ok_def combined_aead_def by auto

lemma etm_grows:
  assumes "\<And>key nonce. sealed_box (encf key nonce) (decf key nonce) 32 8192"
  shows "encrypt_etm_cess X encf cipher ikm sid aad p idx = Inr c \<Longrightarrow> length p + 16 \<le> length c \<and> length c \<le> 65536"
    and "encrypt_etm X encf prk aad p ki ni idx = Inr c \<Longrightarrow> length p + 16 \<le> length c \<and> length c \<le> 65536"
  using sealed_box.grows [OF assms]
  by (fastforce simp: encrypt_etm_cess_def encrypt_etm_def res_bind_eq_Inr)+

lemmas vault_layer_grows =
  etm_grows [OF twofish.sealed_box_axioms] etm_grows [OF serpent.sealed_box_axioms]
  etm_grows [OF camellia.sealed_box_axioms]

lemma layer_grows:
  assumes lib: "libraries_ok X" and enc: "encrypt_layer X ikm sid layer aad p ki ni idx = Inr c"
  shows "length p + 16 \<le> length c \<and> length c \<le> 65536"
proof -
  have cc: "chacha_encrypt (cl_vault X) key nonce aad p = Inr c \<Longrightarrow> length c = length p + 16" for key nonce
    using sealed_box.grows [OF chacha_sealed_box] lib by (auto simp: libraries_ok_def)
  show ?thesis
  proof (cases sid)
    case None
    with enc have ikm: "length ikm = 32" by (auto simp: encrypt_layer_def legacy_prk32_def split: if_splits)
    show ?thesis
    proof (cases layer)
      case Aes256Gcm
      with enc None ikm obtain key nb where
        "res_bind (ok_or (CipherError 0) (cl_gcm_encrypt X key nb aad p)) (\<lambda>ct. ok_or PayloadTooLarge (push_all MAX_CT [] ct)) = Inr c"
        by (auto simp: encrypt_layer_def legacy_prk32_def aes_encrypt_def res_bind_eq_Inr simp del: push_all_Nil)
      from gcm_grows [OF lib this] show ?thesis by simp
    next
      case ChaCha20Poly1305
      with enc None ikm show ?thesis
        using cc by (fastforce simp: encrypt_layer_def legacy_prk32_def res_bind_eq_Inr)
    qed (use enc None ikm vault_layer_grows in \<open>auto simp: encrypt_layer_def legacy_prk32_def\<close>)
  next
    case (Some s)
    note enc' = enc [unfolded Some encrypt_layer_def option.case encrypt_layer_cess_def Let_def]
    show ?thesis
    proof (cases layer)
      case Aes256Gcm
      with enc' obtain key nb where
        "res_bind (ok_or (CipherError idx) (cl_gcm_encrypt X key nb aad p)) (\<lambda>ct. ok_or PayloadTooLarge (push_all MAX_CT [] ct)) = Inr c"
        by (auto simp: res_bind_eq_Inr simp del: push_all_Nil)
      from gcm_grows [OF lib this] show ?thesis by simp
    next
      case ChaCha20Poly1305
      with enc' show ?thesis using cc by (fastforce simp: res_bind_eq_Inr)
    qed (use enc' vault_layer_grows in auto)
  qed
qed

section \<open>Integrity values\<close>

lemma length_integrity_info [simp]: "length (cess_blake3_integrity_info sid) = 26"
  by (simp add: cess_blake3_integrity_info_def push_hex_u16_be_hex4 ascii_def)

definition gap_mac :: "cascade_lib \<Rightarrow> bytes \<Rightarrow> u16 \<Rightarrow> u8 \<Rightarrow> bytes \<Rightarrow> bytes" where
  "gap_mac X ikm sid i body = arr32_bytes (hmac_blake3 (cl_blake3 X)
     (hkdf_blake3 (cl_blake3 X) ikm [] (cess_blake3_integrity_gap_info sid i) 32)
     (cess_blake3_integrity_info sid @ body))"

lemma append_mac_ok:
  "cess_append_inter_layer_mac X ikm sid i body =
     (if length body + 32 \<le> 65536 then Inr (body @ gap_mac X ikm sid i body) else Inl PayloadTooLarge)"
  by (simp add: cess_append_inter_layer_mac_def cess_inter_layer_mac_key_def cess_inter_layer_hmac_message_def
      push_all_eq gap_mac_def Let_def)

lemma strip_mac_ok:
  assumes "length buf \<le> 65536"
  shows "cess_verify_and_strip_inter_layer_mac X ikm sid i buf = Inr body \<longleftrightarrow>
    cess_append_inter_layer_mac X ikm sid i body = Inr buf"
proof -
  let ?n = "length buf - 32"
  have "cess_verify_and_strip_inter_layer_mac X ikm sid i buf = Inr body \<longleftrightarrow>
      32 \<le> length buf \<and> body = take ?n buf \<and> gap_mac X ikm sid i (take ?n buf) = drop ?n buf"
    using assms
    by (auto simp: cess_verify_and_strip_inter_layer_mac_def cess_inter_layer_mac_key_def
        cess_inter_layer_hmac_message_def push_all_eq gap_mac_def Let_def)
  also have "\<dots> \<longleftrightarrow> buf = body @ gap_mac X ikm sid i body"
    by (auto simp: gap_mac_def)
  also have "\<dots> \<longleftrightarrow> cess_append_inter_layer_mac X ikm sid i body = Inr buf"
    using assms by (auto simp: append_mac_ok gap_mac_def)
  finally show ?thesis .
qed

section \<open>The loops are inverse to each other\<close>

lemma forward_loop_append:
  "forward_loop X name layers sid ikm aad (is @ js) p =
     res_bind (forward_loop X name layers sid ikm aad is p) (forward_loop X name layers sid ikm aad js)"
proof (induction "is" arbitrary: p)
  case (Cons i "is")
  have assoc: "res_bind (res_bind r f) g = res_bind r (\<lambda>x. res_bind (f x) g)" for r f and g :: "bytes \<Rightarrow> cipher_profile_error + bytes"
    by (cases r) simp_all
  have "forward_loop X name layers sid ikm aad (is @ js) =
      (\<lambda>p. res_bind (forward_loop X name layers sid ikm aad is p) (forward_loop X name layers sid ikm aad js))"
    by (rule ext) (rule Cons)
  then show ?case by (simp add: Let_def assoc)
qed simp

text \<open>What is undone before the layer below is opened.\<close>

definition strip_gap :: "cascade_lib \<Rightarrow> u16 option \<Rightarrow> bytes \<Rightarrow> nat \<Rightarrow> nat \<Rightarrow> bytes \<Rightarrow> cipher_profile_error + bytes" where
  "strip_gap X sid ikm n m buf =
     (case sid of
        Some s \<Rightarrow> if 0 < m \<and> m < n then cess_verify_and_strip_inter_layer_mac X ikm s (of_nat (m - 1)) buf else Inr buf
      | None \<Rightarrow> Inr buf)"

lemma strip_gap_exact:
  assumes "length y \<le> 65536"
  shows "strip_gap X sid ikm n (Suc m) y = Inr c \<longleftrightarrow>
    (case sid of
       Some s \<Rightarrow> if m + 1 < n then cess_append_inter_layer_mac X ikm s (of_nat m) c else Inr c
     | None \<Rightarrow> Inr c) = Inr y"
  using strip_mac_ok [OF assms] by (cases sid) (auto simp: strip_gap_def)

lemma strip_gap_shrinks: "length y \<le> 65536 \<Longrightarrow> strip_gap X sid ikm n m y = Inr c \<Longrightarrow> length c \<le> length y"
  by (auto simp: strip_gap_def strip_mac_ok append_mac_ok split: option.splits if_splits)

lemma loops_inverse:
  assumes "libraries_ok X" and "m \<le> length layers" and "length y \<le> 65536"
  shows "res_bind (strip_gap X sid ikm (length layers) m y)
      (backward_loop X name layers sid ikm aad (rev [0..<m])) = Inr p \<longleftrightarrow>
    forward_loop X name layers sid ikm aad [0..<m] p = Inr y"
  using assms(2,3)
proof (induction m arbitrary: y)
  case 0
  then show ?case by (auto simp: strip_gap_def split: option.split)
next
  case (Suc m)
  let ?n = "length layers" and ?l = "layers ! m" and ?i = "of_nat m :: u8"
  let ?a = "if m + 1 = ?n then aad else []"
  let ?fwd = "forward_loop X name layers sid ikm aad" and ?bwd = "backward_loop X name layers sid ikm aad"
  have gap: "(case sid of
      Some s \<Rightarrow> if m > 0 then cess_verify_and_strip_inter_layer_mac X ikm s (of_nat (m - 1)) z else Inr z
    | None \<Rightarrow> Inr z) = strip_gap X sid ikm ?n m z" for z
    using Suc.prems by (auto simp: strip_gap_def split: option.split)
  have bwd: "?bwd (rev [0..<Suc m]) c = Inr p \<longleftrightarrow> (\<exists>k nn z. layer_key_info name ?l ?i = Inr k \<and>
      layer_nonce_info name ?l ?i = Inr nn \<and> decrypt_layer X ikm sid ?l ?a c k nn ?i = Inr z \<and>
      res_bind (strip_gap X sid ikm ?n m z) (?bwd (rev [0..<m])) = Inr p)" for c
    by (auto simp: Let_def gap res_bind_eq_Inr map_decrypt_err_def)
  have fwd: "?fwd [0..<Suc m] p = Inr y \<longleftrightarrow> (\<exists>z k nn c. ?fwd [0..<m] p = Inr z \<and>
      layer_key_info name ?l ?i = Inr k \<and> layer_nonce_info name ?l ?i = Inr nn \<and>
      encrypt_layer X ikm sid ?l ?a z k nn ?i = Inr c \<and> strip_gap X sid ikm ?n (Suc m) y = Inr c)"
    by (auto simp: forward_loop_append Let_def res_bind_eq_Inr strip_gap_exact [OF Suc.prems(2)])
  have step: "decrypt_layer X ikm sid ?l ?a c k nn ?i = Inr z \<and>
      res_bind (strip_gap X sid ikm ?n m z) (?bwd (rev [0..<m])) = Inr p \<longleftrightarrow>
      encrypt_layer X ikm sid ?l ?a z k nn ?i = Inr c \<and> ?fwd [0..<m] p = Inr z"
    if "strip_gap X sid ikm ?n (Suc m) y = Inr c" for c k nn z
  proof -
    have c: "length c \<le> 65536" using strip_gap_shrinks [OF Suc.prems(2) that] Suc.prems(2) by simp
    have "length z \<le> 65536" if "encrypt_layer X ikm sid ?l ?a z k nn ?i = Inr c"
      using layer_grows [OF assms(1) that] by simp
    then show ?thesis
      using Suc.IH [of z] Suc.prems(1) by (auto simp: layer_exact [OF assms(1) c])
  qed
  have "res_bind (strip_gap X sid ikm ?n (Suc m) y) (?bwd (rev [0..<Suc m])) = Inr p \<longleftrightarrow>
      (\<exists>c. strip_gap X sid ikm ?n (Suc m) y = Inr c \<and> ?bwd (rev [0..<Suc m]) c = Inr p)"
    by (simp add: res_bind_eq_Inr)
  also have "\<dots> \<longleftrightarrow> ?fwd [0..<Suc m] p = Inr y" unfolding bwd fwd using step by blast
  finally show ?case .
qed

section \<open>Decryption inverts encryption\<close>

lemma cascade_inverse:
  assumes "libraries_ok X" and "profile_constructed profile" and "length (cc_ciphertext ct) \<le> 65536"
  shows "cascade_decrypt X profile ikm aad ct = Inr p \<and> length p \<le> 8192 \<longleftrightarrow>
    cascade_encrypt X profile ikm aad p = Inr ct"
proof -
  have name: "length (cp_name profile) \<le> 64"
    using constructed_wf [OF assms(2)] by (simp add: wf_profile_def validate_profile_name_ok)
  define sid where "sid = suite_id_for_profile_name (cp_name profile)"
  define n where "n = length (cp_layers profile)"
  have "strip_gap X sid ikm n n y = Inr y" for y by (simp add: strip_gap_def split: option.split)
  then have inv: "backward_loop X (cp_name profile) (cp_layers profile) sid ikm aad (rev [0..<n]) (cc_ciphertext ct) = Inr p \<longleftrightarrow>
      forward_loop X (cp_name profile) (cp_layers profile) sid ikm aad [0..<n] p = Inr (cc_ciphertext ct)"
    using loops_inverse [OF assms(1) order_refl assms(3), where layers = "cp_layers profile" and sid = sid
        and ikm = ikm and name = "cp_name profile" and aad = aad and p = p]
    by (simp add: n_def)
  show ?thesis
    unfolding cascade_decrypt_def cascade_encrypt_def cascade_forward_encrypt_def
      sid_def [symmetric] n_def [symmetric] Let_def MAX_CASCADE_PLAINTEXT_def
    using inv assms(3) name by (cases ct) (auto simp: res_bind_eq_Inr push_str_def split: if_splits)
qed

section \<open>Errors of decryption\<close>

lemma res_bind_eq_Inl: "res_bind r f = Inl e \<longleftrightarrow> r = Inl e \<or> (\<exists>x. r = Inr x \<and> f x = Inl e)"
  by (cases r) auto

lemma auth_failed_eq_Inl [simp]: "auth_failed r = Inl e \<longleftrightarrow> e = CpAuthenticationFailed \<and> (\<exists>e'. r = Inl e')"
  by (cases r) auto

lemma ok_or_eq_Inl [simp]: "ok_or e r = Inl e' \<longleftrightarrow> r = None \<and> e' = e"
  by (cases r) auto

lemma copy_pt_eq_Inl: "copy_pt x = Inl e \<Longrightarrow> e = CpAuthenticationFailed"
  by (simp add: copy_pt_def)

lemma decrypt_layer_errors:
  assumes "decrypt_layer X ikm sid layer aad c ki ni idx = Inl e"
  shows "e = CpAuthenticationFailed"
proof (cases sid)
  case None
  show ?thesis
    using assms unfolding None decrypt_layer_def option.case
    by (cases layer) (auto simp: res_bind_eq_Inl aes_decrypt_def decrypt_etm_def dest: copy_pt_eq_Inl split: if_splits)
next
  case (Some s)
  show ?thesis
    using assms unfolding Some decrypt_layer_def option.case decrypt_layer_cess_def Let_def
    by (cases layer) (auto simp: res_bind_eq_Inl decrypt_etm_cess_def dest: copy_pt_eq_Inl split: if_splits)
qed

lemma decrypt_layer_shrinks:
  assumes "libraries_ok X" and "length c \<le> 65536" and "decrypt_layer X ikm sid layer aad c ki ni idx = Inr z"
  shows "length z + 16 \<le> length c"
  using layer_grows [OF assms(1)] assms(3) layer_exact [OF assms(1,2)] by blast

lemma strip_errors:
  assumes "length buf \<le> 65520" and "cess_verify_and_strip_inter_layer_mac X ikm s i buf = Inl e"
  shows "e = CpAuthenticationFailed"
  using assms
  by (auto simp: cess_verify_and_strip_inter_layer_mac_def cess_inter_layer_mac_key_def
      cess_inter_layer_hmac_message_def push_all_eq Let_def split: if_splits)

lemma backward_loop_errors:
  assumes "libraries_ok X"
  shows "length buf \<le> 65536 \<Longrightarrow> backward_loop X name layers sid ikm aad is buf = Inl e \<Longrightarrow> e = CpAuthenticationFailed"
proof (induction "is" arbitrary: buf)
  case (Cons i "is")
  let ?a = "if i + 1 = length layers then aad else []" and ?l = "layers ! i" and ?i = "of_nat i :: u8"
  let ?strip = "\<lambda>z. case sid of
      Some s \<Rightarrow> if i > 0 then cess_verify_and_strip_inter_layer_mac X ikm s (of_nat (i - 1)) z else Inr z
    | None \<Rightarrow> Inr z"
  from Cons.prems(2) consider "e = CpAuthenticationFailed"
    | k nn where "decrypt_layer X ikm sid ?l ?a buf k nn ?i = Inl e"
    | k nn z where "decrypt_layer X ikm sid ?l ?a buf k nn ?i = Inr z" "?strip z = Inl e"
    | k nn z w where "decrypt_layer X ikm sid ?l ?a buf k nn ?i = Inr z" "?strip z = Inr w"
        "backward_loop X name layers sid ikm aad is w = Inl e"
    unfolding backward_loop.simps Let_def res_bind_eq_Inl map_decrypt_err_def map_err_eq_Inl by blast
  then show ?case
  proof cases
    case (3 k nn z)
    then show ?thesis
      using decrypt_layer_shrinks [OF assms Cons.prems(1) 3(1)] Cons.prems(1) strip_errors [of z]
      by (auto split: option.splits if_splits)
  next
    case (4 k nn z w)
    have z: "length z \<le> 65536" using decrypt_layer_shrinks [OF assms Cons.prems(1) 4(1)] Cons.prems(1) by simp
    have "length w \<le> length z"
      using 4(2) z by (auto simp: strip_mac_ok append_mac_ok split: option.splits if_splits)
    with z 4(3) Cons.IH [of w] show ?thesis by simp
  qed (auto dest: decrypt_layer_errors)
qed simp

section \<open>Built-in profiles and a concrete library\<close>

lemma layer_info_total:
  assumes "length name \<le> 64" and "length suffix \<le> 9"
  shows "\<exists>x. build_layer_info name c i suffix = Inr x"
proof -
  have "length (domain_fragment c) \<le> 16" by (cases c) (simp_all add: ascii_def)
  with assms show ?thesis
    by (simp add: build_layer_info_def push_bytes_def push_all_eq vpush_def ascii_def)
qed

lemma builtins_constructed:
  "builtin_standard = Inr p \<Longrightarrow> profile_constructed p"
  "builtin_conservative = Inr p \<Longrightarrow> profile_constructed p"
proof -
  have u: "utf8_valid (ascii ''Single ChaCha20-Poly1305; BP256r1 ECDHE'')"
    "utf8_valid (ascii ''ChaCha inner, Serpent outer (CESS suite_id 0x0003); BP256r1'')"
    by (rule ascii_utf8_valid, simp add: ascii_def)+
  show "builtin_standard = Inr p \<Longrightarrow> profile_constructed p"
    unfolding builtin_standard_def res_bind_eq_Inr
    by (elim exE conjE, rule built [OF set_shamir [OF add_layer [OF set_curve [OF describe [OF start u(1)]]]]])
  show "builtin_conservative = Inr p \<Longrightarrow> profile_constructed p"
    unfolding builtin_conservative_def res_bind_eq_Inr
    by (elim exE conjE,
        rule built [OF set_shamir [OF add_layer [OF add_layer [OF set_curve [OF describe [OF start u(2)]]]]]])
qed

lemma builtin_fields:
  "builtin_standard = Inr p \<Longrightarrow> cp_name p = ascii ''standard'' \<and> cp_layers p = [ChaCha20Poly1305]"
  "builtin_conservative = Inr p \<Longrightarrow>
    cp_name p = ascii ''conservative'' \<and> cp_layers p = [ChaCha20Poly1305, Serpent256]"
  by (auto simp: builtin_standard_def builtin_conservative_def res_bind_eq_Inr builder_new_def builder_build_def
      builder_layer_def builder_curve_def builder_description_def builder_shamir_def push_str_def Let_def vpush_def
      split: if_splits option.splits)

definition demo_vault :: cipher_lib where
  "demo_vault = \<lparr>
     hkdf256_expand = (\<lambda>prk info n. Some (replicate n 0)),
     twofish_new = (\<lambda>k. Some (\<lambda>b. b)), serpent_new = (\<lambda>k. Some (\<lambda>b. b)), camellia_new = (\<lambda>k. Some (\<lambda>b. b)),
     hmac_new = (\<lambda>k. Some (\<lambda>m. Arr32 (replicate 32 0))),
     chacha_seal = (\<lambda>k n a p. Some (p, replicate 16 0)),
     chacha_open = (\<lambda>k n a b t. if t = replicate 16 0 then Some b else None)\<rparr>"

definition demo_lib :: cascade_lib where
  "demo_lib = \<lparr>cl_vault = demo_vault, cl_blake3 = (\<lambda>m. Arr32 (replicate 32 0)),
     cl_gcm_encrypt = zero_tag_enc, cl_gcm_decrypt = zero_tag_dec\<rparr>"

lemma demo_lib_ok: "libraries_ok demo_lib"
  using zero_tag_aead by (auto simp: libraries_ok_def demo_lib_def demo_vault_def detached_aead_def)

lemma builtin_standard_exists: "\<exists>p. builtin_standard = Inr p"
proof (cases builtin_standard)
  case (Inl e)
  obtain r where "with_builtins = Some r" by (rule with_builtins_ok)
  then have "push_builtins (Inl e # [builtin_conservative, builtin_conservative_shamir]) [] = Some r"
    unfolding with_builtins_def Inl .
  then show ?thesis by simp
qed blast

lemma demo_encrypt:
  assumes "builtin_standard = Inr p" and "length pt \<le> 8192"
  shows "cascade_encrypt demo_lib p ikm aad pt =
    Inr \<lparr>cc_profile_name = ascii ''standard'', cc_ciphertext = pt @ replicate 16 0\<rparr>"
proof -
  have n: "length (ascii ''standard'') \<le> 64" by (simp add: ascii_def)
  obtain k nn where "layer_key_info (ascii ''standard'') ChaCha20Poly1305 0 = Inr k"
    "layer_nonce_info (ascii ''standard'') ChaCha20Poly1305 0 = Inr nn"
    using layer_info_total [OF n, of "ascii ''/key/v1''" ChaCha20Poly1305 0]
      layer_info_total [OF n, of "ascii ''/nonce/v1''" ChaCha20Poly1305 0]
    by (auto simp: layer_key_info_def layer_nonce_info_def ascii_def)
  moreover have "suite_id_for_profile_name (ascii ''standard'') = Some 1"
    by (simp add: suite_id_for_profile_name_def)
  moreover have "chacha_encrypt demo_vault key nonce aad pt = Inr (pt @ replicate 16 0)" for key nonce
    using assms(2) by (simp add: chacha_encrypt_def demo_vault_def push_all_eq)
  ultimately show ?thesis
    using assms(2) builtin_fields(1) [OF assms(1)] n
    by (simp add: cascade_encrypt_def cascade_forward_encrypt_def MAX_CASCADE_PLAINTEXT_def encrypt_layer_def
        encrypt_layer_cess_def copy_ct_def push_str_def Let_def demo_lib_def)
qed

section \<open>Properties\<close>

text \<open>
  (C18) The cascade is exact. For every profile the crate can construct, any key material and associated
  data, a ciphertext decrypts to a plaintext of at most 8192 bytes if and only if encrypting that
  plaintext gives that ciphertext, on the CESS path with its inter-layer integrity values and on the
  HKDF-SHA256 path alike. The library assumption is that the AEADs accept exactly what they produce.
\<close>

theorem cascade_exact:
  assumes "libraries_ok X" and "profile_constructed profile" and "length (cc_ciphertext ct) \<le> 65536"
  shows "cascade_decrypt X profile ikm aad ct = Inr p \<and> length p \<le> 8192 \<longleftrightarrow>
    cascade_encrypt X profile ikm aad p = Inr ct"
  using assms by (rule cascade_inverse)

theorem cascade_exact_witness:
  "\<exists>p ct. builtin_standard = Inr p \<and> cascade_encrypt demo_lib p [1] [2] [3, 4] = Inr ct \<and>
     cascade_decrypt demo_lib p [1] [2] ct = Inr [3, 4]"
proof -
  obtain p where p: "builtin_standard = Inr p" using builtin_standard_exists by blast
  let ?ct = "\<lparr>cc_profile_name = ascii ''standard'', cc_ciphertext = [3, 4] @ replicate 16 0\<rparr>"
  have enc: "cascade_encrypt demo_lib p [1] [2] [3, 4] = Inr ?ct" by (rule demo_encrypt [OF p]) simp
  then have "cascade_decrypt demo_lib p [1] [2] ?ct = Inr [3, 4] \<and> length [3, 4 :: u8] \<le> 8192"
    by (intro cascade_exact [OF demo_lib_ok builtins_constructed(1) [OF p], THEN iffD2]) simp_all
  with p enc show ?thesis by blast
qed

text \<open>
  (C19) Decryption does not say which layer failed: whatever the ciphertext, the only errors are a
  mismatch of the profile name and the one authentication failure.
\<close>

theorem cascade_decrypt_uniform_error:
  assumes "libraries_ok X" and "cascade_decrypt X profile ikm aad ct = Inl e"
  shows "e = ProfileMismatch \<and> cc_profile_name ct \<noteq> cp_name profile \<or> e = CpAuthenticationFailed"
  using assms backward_loop_errors [OF assms(1)]
  by (auto simp: cascade_decrypt_def Let_def res_bind_eq_Inl split: if_splits)

theorem cascade_decrypt_uniform_error_witness:
  "\<exists>p e. builtin_standard = Inr p \<and>
     cascade_decrypt demo_lib p [1] [2] \<lparr>cc_profile_name = cp_name p, cc_ciphertext = []\<rparr> = Inl e \<and>
     e = CpAuthenticationFailed"
proof -
  obtain p where p: "builtin_standard = Inr p" using builtin_standard_exists by blast
  let ?ct = "\<lparr>cc_profile_name = cp_name p, cc_ciphertext = []\<rparr>"
  have "cascade_decrypt demo_lib p [1] [2] ?ct \<noteq> Inr q" for q
  proof
    assume dec: "cascade_decrypt demo_lib p [1] [2] ?ct = Inr q"
    have inv: "forward_loop demo_lib (cp_name p) (cp_layers p) (Some 1) [1] [2] [0..<1] q = Inr []"
      using loops_inverse [OF demo_lib_ok, of 1 "cp_layers p" "[]" "Some 1" "[1]" "cp_name p" "[2]" q] dec
        builtin_fields(1) [OF p]
      by (simp add: cascade_decrypt_def Let_def suite_id_for_profile_name_def strip_gap_def)
    then show False
      using layer_grows [OF demo_lib_ok] builtin_fields(1) [OF p]
      by (fastforce simp: Let_def res_bind_eq_Inr)
  qed
  then obtain e where e: "cascade_decrypt demo_lib p [1] [2] ?ct = Inl e"
    by (cases "cascade_decrypt demo_lib p [1] [2] ?ct") auto
  from cascade_decrypt_uniform_error [OF demo_lib_ok e] p e show ?thesis by auto
qed

text \<open>
  The limit of 8192 bytes that \<open>domain.rs\<close> documents is not reached by the built-in two-layer
  profile: the inner tag and the integrity value count against the outer layer's own limit.
\<close>

lemma conservative_plaintext_limit:
  assumes "libraries_ok X" and "builtin_conservative = Inr profile" and "8144 < length p"
  shows "\<exists>e. cascade_encrypt X profile ikm aad p = Inl e"
proof (rule ccontr)
  assume "\<not> ?thesis"
  then obtain ct where "cascade_encrypt X profile ikm aad p = Inr ct"
    by (cases "cascade_encrypt X profile ikm aad p") auto
  then have "\<exists>c. forward_loop X (cp_name profile) (cp_layers profile) (Some 3) ikm aad [0, 1] p = Inr c"
    using builtin_fields(2) [OF assms(2)]
    by (auto simp: cascade_encrypt_def cascade_forward_encrypt_def res_bind_eq_Inr suite_id_for_profile_name_def
        ascii_def Let_def upt_rec split: if_splits)
  then obtain a b d where c0: "encrypt_layer_cess X ikm 3 ChaCha20Poly1305 [] p 0 = Inr a"
    and mac: "cess_append_inter_layer_mac X ikm 3 0 a = Inr b"
    and c1: "encrypt_layer_cess X ikm 3 Serpent256 aad b 1 = Inr d"
    using builtin_fields(2) [OF assms(2)] by (auto simp: res_bind_eq_Inr Let_def encrypt_layer_def)
  have "length a = length p + 16"
    using c0 sealed_box.grows [OF chacha_sealed_box] assms(1)
    by (fastforce simp: encrypt_layer_cess_def Let_def res_bind_eq_Inr libraries_ok_def)
  moreover have "length b = length a + 32"
    using mac by (auto simp: append_mac_ok gap_mac_def split: if_splits)
  moreover have "length b \<le> 8192"
    using c1 serpent.bounded by (fastforce simp: encrypt_layer_cess_def encrypt_etm_cess_def Let_def res_bind_eq_Inr)
  ultimately show False using assms(3) by simp
qed

end
