(* ===== verification/Contact_Record.thy ===== *)
theory Contact_Record
  imports Hal Constant_Time
begin

text \<open>
  Contact records of \<open>crates/contact-store\<close>: the errors (\<open>error.rs\<close>), the region offsets
  (\<open>layout.rs\<close>), the checksum helpers (\<open>crc.rs\<close>) and the 256-byte record with its wire format
  (\<open>record.rs\<close>). The checksum itself is computed by the \<open>crc32fast\<close> crate and is the parameter
  \<open>crc\<close>. A fixed-size array is a byte list; \<open>record_ok\<close> states the lengths the Rust types enforce.

  Shown here: encoding and decoding are inverse to each other, and a record whose checksum was
  recomputed is accepted by the checking decoder exactly when its algorithm byte is a live one.
\<close>

section \<open>Errors\<close>

datatype contact_store_error =
    StorageRead | StorageWrite | CorruptRecord | CorruptLogEntry | SlotNotFound
  | RecipientSlotsFull | HeapFull | PinRequired | PinFailed | IntegrityMismatch | NotInitialised
  | InvalidSlot | KeyTooLarge | StringTooLong | InvalidAlgo | RemovedBrainpoolP512 | CounterError
  | Crypto | InvalidRecord | AlreadyProvisioned | NotProvisioned

section \<open>Layout\<close>

abbreviation CONTACT_STORE_BASE :: nat where "CONTACT_STORE_BASE \<equiv> 76800"
abbreviation CONTACT_RECORD_BYTES :: nat where "CONTACT_RECORD_BYTES \<equiv> 256"
abbreviation CONTACT_SLOT_COUNT :: nat where "CONTACT_SLOT_COUNT \<equiv> 54"
abbreviation RECIPIENT_SLOT_START :: nat where "RECIPIENT_SLOT_START \<equiv> 4"
abbreviation RECIPIENT_SLOT_COUNT :: nat where "RECIPIENT_SLOT_COUNT \<equiv> 50"
abbreviation STRING_HEAP_BYTES :: nat where "STRING_HEAP_BYTES \<equiv> 65536"
abbreviation KEY_REGION_BYTES :: nat where "KEY_REGION_BYTES \<equiv> 65536"
abbreviation TIMING_LOG_BYTES :: nat where "TIMING_LOG_BYTES \<equiv> 16384"
abbreviation MAX_PUBLIC_KEY_BYTES :: nat where "MAX_PUBLIC_KEY_BYTES \<equiv> 768"
abbreviation MAX_STRING_FIELD_BYTES :: nat where "MAX_STRING_FIELD_BYTES \<equiv> 240"

definition CONTACT_RECORD_ARRAY_BYTES :: nat where
  "CONTACT_RECORD_ARRAY_BYTES = CONTACT_RECORD_BYTES * CONTACT_SLOT_COUNT"
definition CONTACT_RECORD_ARRAY_OFFSET :: nat where
  "CONTACT_RECORD_ARRAY_OFFSET = CONTACT_STORE_BASE"
definition STRING_HEAP_OFFSET :: nat where
  "STRING_HEAP_OFFSET = CONTACT_STORE_BASE + CONTACT_RECORD_ARRAY_BYTES"
definition KEY_REGION_OFFSET :: nat where
  "KEY_REGION_OFFSET = STRING_HEAP_OFFSET + STRING_HEAP_BYTES"
definition TIMING_LOG_OFFSET :: nat where
  "TIMING_LOG_OFFSET = KEY_REGION_OFFSET + KEY_REGION_BYTES"
definition CONTACT_STORE_RRAM_END :: nat where
  "CONTACT_STORE_RRAM_END = TIMING_LOG_OFFSET + TIMING_LOG_BYTES"
definition CONTACT_STORE_PROVISION_MARKER_OFFSET :: nat where
  "CONTACT_STORE_PROVISION_MARKER_OFFSET = CONTACT_STORE_RRAM_END"
definition CONTACT_STORE_INTEGRITY_OFFSET :: nat where
  "CONTACT_STORE_INTEGRITY_OFFSET = CONTACT_STORE_PROVISION_MARKER_OFFSET + 4"
definition CONTACT_STORE_END :: nat where
  "CONTACT_STORE_END = CONTACT_STORE_INTEGRITY_OFFSET + 32"
definition CONTACT_RECORD_MAGIC :: u32 where "CONTACT_RECORD_MAGIC = 0x43414354"

lemmas contact_layout = CONTACT_RECORD_ARRAY_BYTES_def CONTACT_RECORD_ARRAY_OFFSET_def
  STRING_HEAP_OFFSET_def KEY_REGION_OFFSET_def TIMING_LOG_OFFSET_def CONTACT_STORE_RRAM_END_def
  CONTACT_STORE_PROVISION_MARKER_OFFSET_def CONTACT_STORE_INTEGRITY_OFFSET_def CONTACT_STORE_END_def

section \<open>Flags, algorithms and provenance\<close>

text \<open>\<open>ContactFlags::from_bits_truncate\<close> keeps the four defined bits.\<close>

definition ACTIVE :: u8 where "ACTIVE = 1"
definition REVOKED :: u8 where "REVOKED = 2"
definition STALE :: u8 where "STALE = 4"
definition SELF_KEY :: u8 where "SELF_KEY = 8"

definition flags_truncate :: "u8 \<Rightarrow> u8" where
  "flags_truncate f = f AND (ACTIVE OR REVOKED OR STALE OR SELF_KEY)"

definition flags_contains :: "u8 \<Rightarrow> u8 \<Rightarrow> bool" where
  "flags_contains f g \<longleftrightarrow> f AND g = g"

datatype key_algo =
    Ed25519 | X25519 | BrainpoolP256r1 | BrainpoolP384r1 | NistP256 | NistP384
  | Rsa2048 | Rsa3072 | Rsa4096

definition KEY_ALGO_WIRE_BRAINPOOL_P512 :: u8 where "KEY_ALGO_WIRE_BRAINPOOL_P512 = 5"

definition key_algo_from_wire :: "u8 \<Rightarrow> contact_store_error + key_algo" where
  "key_algo_from_wire b =
     (if b = 1 then Inr Ed25519 else if b = 2 then Inr X25519 else if b = 3 then Inr BrainpoolP256r1
      else if b = 4 then Inr BrainpoolP384r1
      else if b = KEY_ALGO_WIRE_BRAINPOOL_P512 then Inl RemovedBrainpoolP512
      else if b = 6 then Inr NistP256 else if b = 7 then Inr NistP384 else if b = 8 then Inr Rsa2048
      else if b = 9 then Inr Rsa3072 else if b = 10 then Inr Rsa4096 else Inl InvalidAlgo)"

fun key_algo_to_wire :: "key_algo \<Rightarrow> u8" where
  "key_algo_to_wire Ed25519 = 1" | "key_algo_to_wire X25519 = 2"
| "key_algo_to_wire BrainpoolP256r1 = 3" | "key_algo_to_wire BrainpoolP384r1 = 4"
| "key_algo_to_wire NistP256 = 6" | "key_algo_to_wire NistP384 = 7"
| "key_algo_to_wire Rsa2048 = 8" | "key_algo_to_wire Rsa3072 = 9" | "key_algo_to_wire Rsa4096 = 10"

lemma key_algo_wire_roundtrip [simp]: "key_algo_from_wire (key_algo_to_wire a) = Inr a"
  by (cases a) (simp_all add: key_algo_from_wire_def KEY_ALGO_WIRE_BRAINPOOL_P512_def)

datatype field_source = SelfAttested | HostVerified | RegistrySync | OobVerified

definition field_source_from_bits :: "u64 \<Rightarrow> field_source" where
  "field_source_from_bits b =
     (let b = b AND 3 in if b = 1 then HostVerified else if b = 2 then RegistrySync
      else if b = 3 then OobVerified else SelfAttested)"

fun field_source_to_bits :: "field_source \<Rightarrow> u64" where
  "field_source_to_bits SelfAttested = 0" | "field_source_to_bits HostVerified = 1"
| "field_source_to_bits RegistrySync = 2" | "field_source_to_bits OobVerified = 3"

definition FIELD_EMAIL :: u8 where "FIELD_EMAIL = 2"

text \<open>
  The field ids of \<open>mod field\<close> are below 32, so the shifts stay below 64; for other ids the shift
  distance is taken modulo 64, as the compiled shift does without overflow checks.
\<close>

definition field_source_get :: "u64 \<Rightarrow> u8 \<Rightarrow> field_source" where
  "field_source_get smap field_id =
     (let shift = (unat field_id * 2) mod 64 in field_source_from_bits (drop_bit shift smap AND 3))"

definition field_source_set :: "u64 \<Rightarrow> u8 \<Rightarrow> field_source \<Rightarrow> u64" where
  "field_source_set smap field_id source =
     (let shift = (unat field_id * 2) mod 64;
          mask = NOT (push_bit shift 3) in
      (smap AND mask) OR push_bit shift (field_source_to_bits source))"

section \<open>Records\<close>

record string_ref =
  sr_offset :: u32
  sr_len :: u16

definition string_ref_default :: string_ref where
  "string_ref_default = \<lparr>sr_offset = 0, sr_len = 0\<rparr>"

definition string_ref_is_empty :: "string_ref \<Rightarrow> bool" where
  "string_ref_is_empty r \<longleftrightarrow> sr_offset r = 0 \<and> sr_len r = 0"

definition string_ref_write_to :: "string_ref \<Rightarrow> bytes \<Rightarrow> bytes" where
  "string_ref_write_to r out = splice (splice out 0 (u32_le (sr_offset r))) 4 (u16_le (sr_len r))"

definition string_ref_read_from :: "bytes \<Rightarrow> string_ref" where
  "string_ref_read_from inp = \<lparr>sr_offset = rd_u32_le inp 0, sr_len = rd_u16_le inp 4\<rparr>"

record contact_record =
  cr_magic :: u32
  cr_flags :: u8
  cr_key_algo :: u8
  cr_pin_protected :: u8
  cr_reserved0 :: u8
  cr_fingerprint :: bytes
  cr_callsign :: bytes
  cr_dmr_id :: u32
  cr_key_offset :: u32
  cr_key_len :: u16
  cr_reserved1 :: u16
  cr_pin_nonce :: bytes
  cr_pin_tag :: bytes
  cr_last_fetched :: u32
  cr_source_map :: u64
  cr_pin_verifier :: bytes
  cr_email :: string_ref
  cr_display_name :: string_ref
  cr_badge_number :: string_ref
  cr_organisation :: string_ref
  cr_department :: string_ref
  cr_role :: string_ref
  cr_note :: string_ref
  cr_radio_affiliation :: string_ref
  cr_street :: string_ref
  cr_country :: string_ref
  cr_postal_code :: string_ref
  cr_region :: string_ref
  cr_fluxer_id :: string_ref
  cr_discord_id :: string_ref
  cr_irc_id :: string_ref
  cr_reserved2 :: bytes
  cr_crc32c :: u32

definition record_ok :: "contact_record \<Rightarrow> bool" where
  "record_ok r \<longleftrightarrow> length (cr_fingerprint r) = 32 \<and> length (cr_callsign r) = 12 \<and>
     length (cr_pin_nonce r) = 12 \<and> length (cr_pin_tag r) = 16 \<and> length (cr_pin_verifier r) = 32 \<and>
     length (cr_reserved2 r) = 26"

definition contact_record_default :: contact_record where
  "contact_record_default = \<lparr>cr_magic = 0, cr_flags = 0, cr_key_algo = 0, cr_pin_protected = 0,
     cr_reserved0 = 0, cr_fingerprint = replicate 32 0, cr_callsign = replicate 12 0, cr_dmr_id = 0,
     cr_key_offset = 0, cr_key_len = 0, cr_reserved1 = 0, cr_pin_nonce = replicate 12 0,
     cr_pin_tag = replicate 16 0, cr_last_fetched = 0, cr_source_map = 0,
     cr_pin_verifier = replicate 32 0, cr_email = string_ref_default,
     cr_display_name = string_ref_default, cr_badge_number = string_ref_default,
     cr_organisation = string_ref_default, cr_department = string_ref_default,
     cr_role = string_ref_default, cr_note = string_ref_default,
     cr_radio_affiliation = string_ref_default, cr_street = string_ref_default,
     cr_country = string_ref_default, cr_postal_code = string_ref_default,
     cr_region = string_ref_default, cr_fluxer_id = string_ref_default,
     cr_discord_id = string_ref_default, cr_irc_id = string_ref_default,
     cr_reserved2 = replicate 26 0, cr_crc32c = 0\<rparr>"

definition is_active :: "contact_record \<Rightarrow> bool" where
  "is_active r \<longleftrightarrow> cr_magic r = CONTACT_RECORD_MAGIC \<and> flags_contains (flags_truncate (cr_flags r)) ACTIVE"

definition contact_flags :: "contact_record \<Rightarrow> u8" where
  "contact_flags r = flags_truncate (cr_flags r)"

definition set_contact_flags :: "u8 \<Rightarrow> contact_record \<Rightarrow> contact_record" where
  "set_contact_flags f r = r\<lparr>cr_flags := f\<rparr>"

definition validate_string_ref :: "string_ref \<Rightarrow> contact_store_error + unit" where
  "validate_string_ref r =
     (if unat (sr_len r) > MAX_STRING_FIELD_BYTES then Inl StringTooLong else Inr ())"

text \<open>The string references in the order in which every loop of the crate visits them.\<close>

definition string_refs :: "contact_record \<Rightarrow> string_ref list" where
  "string_refs r = [cr_email r, cr_display_name r, cr_badge_number r, cr_organisation r,
     cr_department r, cr_role r, cr_note r, cr_radio_affiliation r, cr_street r, cr_country r,
     cr_postal_code r, cr_region r, cr_fluxer_id r, cr_discord_id r, cr_irc_id r]"

section \<open>Wire format\<close>

text \<open>
  \<open>as_bytes\<close> fills a zeroed buffer field by field with a running offset. \<open>put_field\<close> is one such
  step, \<open>record_fields\<close> the sequence of the fields' bytes.
\<close>

definition put_field :: "bytes \<times> nat \<Rightarrow> bytes \<Rightarrow> bytes \<times> nat" where
  "put_field p d = (case p of (out, pos) \<Rightarrow> (splice out pos d, pos + length d))"

definition record_fields :: "contact_record \<Rightarrow> bytes list" where
  "record_fields r = [u32_le (cr_magic r), [cr_flags r], [cr_key_algo r], [cr_pin_protected r],
     [cr_reserved0 r], cr_fingerprint r, cr_callsign r, u32_le (cr_dmr_id r),
     u32_le (cr_key_offset r), u16_le (cr_key_len r), u16_le (cr_reserved1 r), cr_pin_nonce r,
     cr_pin_tag r, u32_le (cr_last_fetched r), u64_le (cr_source_map r), cr_pin_verifier r] @
     map (\<lambda>s. string_ref_write_to s (replicate 6 0)) (string_refs r) @
     [cr_reserved2 r, u32_le (cr_crc32c r)]"

definition as_bytes :: "contact_record \<Rightarrow> bytes" where
  "as_bytes r = fst (foldl put_field (replicate CONTACT_RECORD_BYTES 0, 0) (record_fields r))"

definition read_u32 :: "bytes \<Rightarrow> nat \<Rightarrow> u32 \<times> nat" where
  "read_u32 bs pos = (rd_u32_le bs pos, pos + 4)"

definition read_u16 :: "bytes \<Rightarrow> nat \<Rightarrow> u16 \<times> nat" where
  "read_u16 bs pos = (rd_u16_le bs pos, pos + 2)"

definition read_u64 :: "bytes \<Rightarrow> nat \<Rightarrow> u64 \<times> nat" where
  "read_u64 bs pos = (rd_u64_le bs pos, pos + 8)"

definition read_string_ref :: "bytes \<Rightarrow> nat \<Rightarrow> string_ref \<times> nat" where
  "read_string_ref bs pos = (string_ref_read_from (slice pos 6 bs), pos + 6)"

definition from_bytes_unchecked :: "bytes \<Rightarrow> contact_record" where
  "from_bytes_unchecked bs =
     (let (magic, pos) = read_u32 bs 0;
          flags = bs ! pos; pos = pos + 1;
          key_algo = bs ! pos; pos = pos + 1;
          pin_protected = bs ! pos; pos = pos + 1;
          reserved0 = bs ! pos; pos = pos + 1;
          fingerprint = slice pos 32 bs; pos = pos + 32;
          callsign = slice pos 12 bs; pos = pos + 12;
          (dmr_id, pos) = read_u32 bs pos;
          (key_offset, pos) = read_u32 bs pos;
          (key_len, pos) = read_u16 bs pos;
          (reserved1, pos) = read_u16 bs pos;
          pin_nonce = slice pos 12 bs; pos = pos + 12;
          pin_tag = slice pos 16 bs; pos = pos + 16;
          (last_fetched, pos) = read_u32 bs pos;
          (source_map, pos) = read_u64 bs pos;
          pin_verifier = slice pos 32 bs; pos = pos + 32;
          (email, pos) = read_string_ref bs pos;
          (display_name, pos) = read_string_ref bs pos;
          (badge_number, pos) = read_string_ref bs pos;
          (organisation, pos) = read_string_ref bs pos;
          (department, pos) = read_string_ref bs pos;
          (role, pos) = read_string_ref bs pos;
          (note, pos) = read_string_ref bs pos;
          (radio_affiliation, pos) = read_string_ref bs pos;
          (street, pos) = read_string_ref bs pos;
          (country, pos) = read_string_ref bs pos;
          (postal_code, pos) = read_string_ref bs pos;
          (region, pos) = read_string_ref bs pos;
          (fluxer_id, pos) = read_string_ref bs pos;
          (discord_id, pos) = read_string_ref bs pos;
          (irc_id, pos) = read_string_ref bs pos;
          reserved2 = slice pos 26 bs; pos = pos + 26;
          (crc, pos) = read_u32 bs pos in
      \<lparr>cr_magic = magic, cr_flags = flags, cr_key_algo = key_algo, cr_pin_protected = pin_protected,
       cr_reserved0 = reserved0, cr_fingerprint = fingerprint, cr_callsign = callsign,
       cr_dmr_id = dmr_id, cr_key_offset = key_offset, cr_key_len = key_len,
       cr_reserved1 = reserved1, cr_pin_nonce = pin_nonce, cr_pin_tag = pin_tag,
       cr_last_fetched = last_fetched, cr_source_map = source_map, cr_pin_verifier = pin_verifier,
       cr_email = email, cr_display_name = display_name, cr_badge_number = badge_number,
       cr_organisation = organisation, cr_department = department, cr_role = role, cr_note = note,
       cr_radio_affiliation = radio_affiliation, cr_street = street, cr_country = country,
       cr_postal_code = postal_code, cr_region = region, cr_fluxer_id = fluxer_id,
       cr_discord_id = discord_id, cr_irc_id = irc_id, cr_reserved2 = reserved2,
       cr_crc32c = crc\<rparr>)"

definition record_crc_ok :: "(bytes \<Rightarrow> u32) \<Rightarrow> bytes \<Rightarrow> bool" where
  "record_crc_ok crc bs =
     (if length bs < 4 then False
      else crc (take (length bs - 4) bs) = rd_u32_le bs (length bs - 4))"

definition from_bytes_verified :: "(bytes \<Rightarrow> u32) \<Rightarrow> bytes \<Rightarrow> contact_store_error + contact_record" where
  "from_bytes_verified crc bs =
     (if \<not> record_crc_ok crc bs then Inl CorruptRecord
      else
        let rec = from_bytes_unchecked bs in
        if cr_magic rec = CONTACT_RECORD_MAGIC \<and> is_active rec
        then res_bind (key_algo_from_wire (cr_key_algo rec)) (\<lambda>_. Inr rec)
        else Inr rec)"

definition recompute_crc :: "(bytes \<Rightarrow> u32) \<Rightarrow> contact_record \<Rightarrow> contact_record" where
  "recompute_crc crc r = r\<lparr>cr_crc32c := crc (take (CONTACT_RECORD_BYTES - 4) (as_bytes r))\<rparr>"

section \<open>Key blobs and PIN buffers\<close>

record public_key_blob =
  pkb_buf :: bytes
  pkb_len :: nat

definition public_key_blob_from_slice :: "bytes \<Rightarrow> contact_store_error + public_key_blob" where
  "public_key_blob_from_slice bs =
     (if length bs > MAX_PUBLIC_KEY_BYTES then Inl KeyTooLarge
      else Inr \<lparr>pkb_buf = splice (replicate MAX_PUBLIC_KEY_BYTES 0) 0 bs, pkb_len = length bs\<rparr>)"

definition public_key_blob_as_slice :: "public_key_blob \<Rightarrow> bytes" where
  "public_key_blob_as_slice b = take (pkb_len b) (pkb_buf b)"

record pin_buffer =
  pb_bytes :: bytes
  pb_len :: u8

definition pin_buffer_from_utf8 :: "bytes \<Rightarrow> contact_store_error + pin_buffer" where
  "pin_buffer_from_utf8 pin =
     (if pin = [] \<or> length pin > 32 then Inl PinFailed
      else Inr \<lparr>pb_bytes = splice (replicate 32 0) 0 pin, pb_len = of_nat (length pin)\<rparr>)"

definition pin_buffer_as_slice :: "pin_buffer \<Rightarrow> bytes" where
  "pin_buffer_as_slice b = take (unat (pb_len b)) (pb_bytes b)"

section \<open>Encoding and decoding are inverse\<close>

lemma public_key_blob_roundtrip:
  "public_key_blob_from_slice bs = Inr b \<Longrightarrow> public_key_blob_as_slice b = bs"
  by (auto simp: public_key_blob_from_slice_def public_key_blob_as_slice_def splice_def
      split: if_splits)

lemma pin_buffer_roundtrip: "pin_buffer_from_utf8 pin = Inr b \<Longrightarrow> pin_buffer_as_slice b = pin"
  by (auto simp: pin_buffer_from_utf8_def pin_buffer_as_slice_def splice_def unat_of_nat_u8
      split: if_splits)

lemma foldl_put_field:
  "pos + length (concat ds) \<le> length out \<Longrightarrow>
   foldl put_field (out, pos) ds = (splice out pos (concat ds), pos + length (concat ds))"
proof (induction ds arbitrary: out pos)
  case (Cons d ds)
  then have "splice (splice out pos d) (pos + length d) (concat ds) = splice out pos (d @ concat ds)"
    by (simp add: splice_def ac_simps)
  with Cons show ?case by (simp add: put_field_def)
qed simp

lemma string_ref_write_to_eq: "string_ref_write_to s (replicate 6 0) = u32_le (sr_offset s) @ u16_le (sr_len s)"
  by (simp add: string_ref_write_to_def splice_def)

lemma length_record_fields: "record_ok r \<Longrightarrow> length (concat (record_fields r)) = 256"
  by (simp add: record_fields_def string_refs_def string_ref_write_to_eq record_ok_def)

lemma as_bytes_concat: "record_ok r \<Longrightarrow> as_bytes r = concat (record_fields r)"
  using length_record_fields [of r] by (simp add: as_bytes_def foldl_put_field splice_def)

lemma length_as_bytes [simp]: "record_ok r \<Longrightarrow> length (as_bytes r) = 256"
  by (simp add: as_bytes_concat length_record_fields)

lemma read_from_write_to:
  "string_ref_read_from (u32_le (sr_offset s) @ u16_le (sr_len s)) = s"
  by (simp add: string_ref_read_from_def rd_append)

lemma string_ref_read_from_slice [simp]: "string_ref_read_from (u32_le a @ u16_le b) = \<lparr>sr_offset = a, sr_len = b\<rparr>"
  by (simp add: string_ref_read_from_def rd_append)

lemma slice_Cons: "0 < off \<Longrightarrow> slice off n (x # xs) = slice (off - 1) n xs"
  by (cases off) (simp_all add: slice_def)

lemma slice_append_here: "length xs = n \<Longrightarrow> slice 0 n (xs @ ys) = xs"
  by (simp add: slice_def)

lemma slice_ref_here: "slice 0 6 (u32_le a @ u16_le b @ ys) = u32_le a @ u16_le b"
  by (simp add: slice_def)

lemma from_bytes_as_bytes:
  assumes "record_ok r"
  shows "from_bytes_unchecked (as_bytes r) = r"
proof -
  have len: "length (cr_fingerprint r) = 32" "length (cr_callsign r) = 12"
    "length (cr_pin_nonce r) = 12" "length (cr_pin_tag r) = 16" "length (cr_pin_verifier r) = 32"
    "length (cr_reserved2 r) = 26"
    using assms by (simp_all add: record_ok_def)
  show ?thesis
    unfolding from_bytes_unchecked_def as_bytes_concat [OF assms] record_fields_def string_refs_def
    by (cases r)
      (use len in \<open>simp add: Let_def read_u32_def read_u16_def read_u64_def read_string_ref_def
        string_ref_write_to_eq rd_append rd_Cons rd_u64_le_u64_le slice_append_here slice_ref_here slice_append_right slice_Cons nth_append\<close>)
qed

lemma record_ok_from_bytes [simp]:
  "length bs = 256 \<Longrightarrow> record_ok (from_bytes_unchecked bs)"
  by (simp add: from_bytes_unchecked_def record_ok_def Let_def read_u32_def read_u16_def read_u64_def
      read_string_ref_def)

lemma write_to_of_read_from:
  "pos + 6 \<le> length bs \<Longrightarrow>
   string_ref_write_to (string_ref_read_from (slice pos 6 bs)) (replicate 6 0) = slice pos 6 bs"
  using slice_join [of pos 4 bs 2]
  by (simp add: string_ref_write_to_eq string_ref_read_from_def le_of_rd slice_slice)

text \<open>A sequence of slices that starts where the previous one ended.\<close>

fun slices_at :: "nat \<Rightarrow> nat list \<Rightarrow> 'a list \<Rightarrow> 'a list list" where
  "slices_at pos [] bs = []"
| "slices_at pos (n # ns) bs = slice pos n bs # slices_at (pos + n) ns bs"

lemma concat_slices_at: "concat (slices_at pos ns bs) = slice pos (sum_list ns) bs"
  by (induction ns arbitrary: pos) (simp_all add: slice_join)

lemma record_fields_from_bytes:
  assumes "length bs = 256"
  shows "record_fields (from_bytes_unchecked bs) =
    slices_at 0 [4, 1, 1, 1, 1, 32, 12, 4, 4, 2, 2, 12, 16, 4, 8, 32,
      6, 6, 6, 6, 6, 6, 6, 6, 6, 6, 6, 6, 6, 6, 6, 26, 4] bs"
  using assms
  by (simp add: record_fields_def string_refs_def from_bytes_unchecked_def Let_def read_u32_def
      read_u16_def read_u64_def read_string_ref_def le_of_rd u64_le_of_rd write_to_of_read_from
      slice_list1)

lemma as_bytes_from_bytes:
  assumes "length bs = 256"
  shows "as_bytes (from_bytes_unchecked bs) = bs"
proof -
  have "as_bytes (from_bytes_unchecked bs) = concat (record_fields (from_bytes_unchecked bs))"
    using assms by (simp add: as_bytes_concat)
  also have "\<dots> = slice 0 256 bs"
    unfolding record_fields_from_bytes [OF assms] concat_slices_at by simp
  finally have "as_bytes (from_bytes_unchecked bs) = slice 0 256 bs" .
  with assms show ?thesis by (simp add: slice_def)
qed

section \<open>Checked records\<close>

definition record_body :: "contact_record \<Rightarrow> bytes" where
  "record_body r = concat (butlast (record_fields r))"

lemma as_bytes_body: "record_ok r \<Longrightarrow> as_bytes r = record_body r @ u32_le (cr_crc32c r)"
  by (simp add: as_bytes_concat record_body_def record_fields_def butlast_append)

lemma length_record_body: "record_ok r \<Longrightarrow> length (record_body r) = 252"
  using arg_cong [OF as_bytes_body, of r length] by simp

lemma record_ok_upd [simp]: "record_ok (r\<lparr>cr_crc32c := c\<rparr>) = record_ok r"
  by (simp add: record_ok_def)

lemma record_body_crc [simp]: "record_body (r\<lparr>cr_crc32c := c\<rparr>) = record_body r"
  by (simp add: record_body_def record_fields_def string_refs_def)

lemma recompute_crc_eq: "record_ok r \<Longrightarrow> recompute_crc crc r = r\<lparr>cr_crc32c := crc (record_body r)\<rparr>"
  by (simp add: recompute_crc_def as_bytes_body length_record_body)

lemma record_crc_ok_as_bytes:
  "record_ok r \<Longrightarrow> record_crc_ok crc (as_bytes r) \<longleftrightarrow> crc (record_body r) = cr_crc32c r"
  by (simp add: record_crc_ok_def as_bytes_body length_record_body rd_append)

lemma take_magic: "record_ok r \<Longrightarrow> take 4 (as_bytes r) = u32_le (cr_magic r)"
  by (simp add: as_bytes_concat record_fields_def)

lemma from_bytes_verified_as_bytes:
  assumes "record_ok r" and "cr_crc32c r = crc (record_body r)"
  shows "from_bytes_verified crc (as_bytes r) =
    (if is_active r then res_bind (key_algo_from_wire (cr_key_algo r)) (\<lambda>_. Inr r) else Inr r)"
  using assms
  by (simp add: from_bytes_verified_def record_crc_ok_as_bytes from_bytes_as_bytes is_active_def)

lemma from_bytes_verified_Inr:
  assumes "from_bytes_verified crc bs = Inr r" and "length bs = 256"
  shows "as_bytes r = bs \<and> record_ok r \<and> record_crc_ok crc bs"
proof -
  from assms(1) have "r = from_bytes_unchecked bs" and "record_crc_ok crc bs"
    by (auto simp: from_bytes_verified_def Let_def res_bind_eq_Inr split: if_splits)
  with assms(2) show ?thesis by (simp add: as_bytes_from_bytes)
qed

end
