(* ===== verification/Contact_Index.thy ===== *)
theory Contact_Index
  imports Contact_Record "HOL-Library.List_Lexorder" "HOL-Library.Multiset"
begin

text \<open>
  The sorted fingerprint-prefix index of \<open>crates/contact-store/src/index.rs\<close>: a fixed array of 54
  entries of which the first \<open>len\<close> are live. The insertion shifts entries up one by one, the removal
  compacts in place, the lookup is a binary search. Byte arrays are compared lexicographically.

  The lemmas read each loop as an operation on the list of live entries (\<open>live\<close>): insertion at a
  sorted position, a filter, and a membership test.
\<close>

section \<open>Model\<close>

record index_entry =
  ie_prefix :: bytes
  ie_slot :: u8
  ie_flags :: u8

definition index_entry_default :: index_entry where
  "index_entry_default = \<lparr>ie_prefix = replicate 16 0, ie_slot = 0, ie_flags = 0\<rparr>"

record contact_index =
  ci_entries :: "index_entry list"
  ci_len :: u8

definition index_new :: contact_index where
  "index_new = \<lparr>ci_entries = replicate 54 index_entry_default, ci_len = 0\<rparr>"

definition index_iter :: "contact_index \<Rightarrow> index_entry list" where
  "index_iter ix = take (unat (ci_len ix)) (ci_entries ix)"

text \<open>\<open>iter().position(|e| e.fingerprint_prefix > prefix).unwrap_or(n)\<close>.\<close>

fun index_position :: "bytes \<Rightarrow> index_entry list \<Rightarrow> nat" where
  "index_position prefix [] = 0"
| "index_position prefix (e # es) =
     (if prefix < ie_prefix e then 0 else Suc (index_position prefix es))"

text \<open>The descending loop that moves the entries from \<open>pos\<close> on up by one.\<close>

definition shift_up :: "nat \<Rightarrow> nat \<Rightarrow> index_entry list \<Rightarrow> index_entry list" where
  "shift_up pos n es = foldl (\<lambda>es i. es[i + 1 := es ! i]) es (rev [pos..<n])"

definition index_insert ::
  "contact_index \<Rightarrow> bytes \<Rightarrow> u8 \<Rightarrow> u8 \<Rightarrow> (contact_store_error + unit) \<times> contact_index" where
  "index_insert ix fp slot flags =
     (let prefix = take 16 fp;
          new_e = \<lparr>ie_prefix = prefix, ie_slot = slot, ie_flags = flags\<rparr>;
          n = unat (ci_len ix);
          pos = index_position prefix (take n (ci_entries ix)) in
      if pos < n \<and> ie_prefix (ci_entries ix ! pos) = prefix
      then (Inr (), ix\<lparr>ci_entries := (ci_entries ix)[pos := new_e]\<rparr>)
      else if n \<ge> 54 then (Inl RecipientSlotsFull, ix)
      else (Inr (), ix\<lparr>ci_entries := (shift_up pos n (ci_entries ix))[pos := new_e],
                       ci_len := ci_len ix + 1\<rparr>))"

definition remove_step :: "u8 \<Rightarrow> index_entry list \<times> nat \<Rightarrow> nat \<Rightarrow> index_entry list \<times> nat" where
  "remove_step slot p i =
     (case p of (es, k) \<Rightarrow>
        if ie_slot (es ! i) \<noteq> slot
        then (if k \<noteq> i then es[k := es ! i] else es, k + 1)
        else (es, k))"

definition index_remove :: "contact_index \<Rightarrow> u8 \<Rightarrow> contact_index" where
  "index_remove ix slot =
     (case foldl (remove_step slot) (ci_entries ix, 0) [0..<unat (ci_len ix)] of
        (es, k) \<Rightarrow> ix\<lparr>ci_entries := es, ci_len := of_nat k\<rparr>)"

function lookup_prefix_loop :: "index_entry list \<Rightarrow> bytes \<Rightarrow> nat \<Rightarrow> nat \<Rightarrow> u8 option" where
  "lookup_prefix_loop es prefix lo hi =
     (if lo < hi then
        let mid = lo + (hi - lo) div 2;
            p = ie_prefix (es ! mid) in
        if p < prefix then lookup_prefix_loop es prefix (mid + 1) hi
        else if prefix < p then lookup_prefix_loop es prefix lo mid
        else Some (ie_slot (es ! mid))
      else None)"
  by pat_completeness auto

termination
  by (relation "measure (\<lambda>(es, p, lo, hi). hi - lo)") (auto simp: Let_def)

declare lookup_prefix_loop.simps [simp del]

definition lookup_prefix :: "contact_index \<Rightarrow> bytes \<Rightarrow> u8 option" where
  "lookup_prefix ix prefix = lookup_prefix_loop (ci_entries ix) prefix 0 (unat (ci_len ix))"

definition index_update_flags :: "contact_index \<Rightarrow> u8 \<Rightarrow> u8 \<Rightarrow> contact_index" where
  "index_update_flags ix slot flags =
     (let n = unat (ci_len ix) in
      ix\<lparr>ci_entries := map (\<lambda>e. if ie_slot e = slot then e\<lparr>ie_flags := flags\<rparr> else e)
             (take n (ci_entries ix)) @ drop n (ci_entries ix)\<rparr>)"

fun rebuild_loop :: "contact_index \<Rightarrow> (nat \<times> contact_record) list \<Rightarrow> contact_index" where
  "rebuild_loop ix [] = ix"
| "rebuild_loop ix ((slot, rec) # rs) =
     (if \<not> is_active rec then rebuild_loop ix rs
      else rebuild_loop (snd (index_insert ix (cr_fingerprint rec) (of_nat slot) (contact_flags rec))) rs)"

definition rebuild_from_records :: "contact_index \<Rightarrow> contact_record list \<Rightarrow> contact_index" where
  "rebuild_from_records ix recs = rebuild_loop (ix\<lparr>ci_len := 0\<rparr>) (enumerate 0 recs)"

section \<open>Live entries\<close>

abbreviation live :: "contact_index \<Rightarrow> index_entry list" where
  "live ix \<equiv> index_iter ix"

definition index_ok :: "contact_index \<Rightarrow> bool" where
  "index_ok ix \<longleftrightarrow> length (ci_entries ix) = 54 \<and> unat (ci_len ix) \<le> 54 \<and> sorted (map ie_prefix (live ix))"

lemma live_new [simp]: "live index_new = []"
  by (simp add: index_iter_def index_new_def)

lemma index_ok_new [simp]: "index_ok index_new"
  by (simp add: index_ok_def index_new_def index_iter_def)

lemma length_live: "index_ok ix \<Longrightarrow> length (live ix) = unat (ci_len ix)"
  by (simp add: index_ok_def index_iter_def)

lemma index_position_le: "index_position p es \<le> length es"
  by (induction es) auto

lemma index_position_before: "i < index_position p es \<Longrightarrow> ie_prefix (es ! i) \<le> p"
  by (induction es arbitrary: i) (auto simp: less_Suc_eq_0_disj not_less split: if_splits)

lemma index_position_at: "index_position p es < length es \<Longrightarrow> p < ie_prefix (es ! index_position p es)"
  by (induction es) auto

lemma sorted_insert_at_position:
  assumes "sorted (map ie_prefix es)"
  shows "sorted (map ie_prefix (take (index_position (ie_prefix e) es) es @ e #
    drop (index_position (ie_prefix e) es) es))"
  using assms
proof (induction es)
  case (Cons a es)
  then show ?case
    by (auto simp: not_less dest: in_set_takeD in_set_dropD)
qed simp

lemma length_shift_up [simp]: "length (shift_up pos n es) = length es"
proof -
  have "length (foldl (\<lambda>es i. es[i + 1 := es ! i]) es is) = length es" for es :: "index_entry list" and "is"
    by (induction "is" arbitrary: es) auto
  then show ?thesis by (simp add: shift_up_def)
qed

lemma nth_shift_up:
  "pos \<le> n \<Longrightarrow> n < length es \<Longrightarrow> j < length es \<Longrightarrow>
   shift_up pos n es ! j = (if pos < j \<and> j \<le> n then es ! (j - 1) else es ! j)"
proof (induction n arbitrary: es)
  case (Suc n)
  show ?case
  proof (cases "pos \<le> n")
    case True
    then have "shift_up pos (Suc n) es = shift_up pos n (es[n + 1 := es ! n])"
      by (simp add: shift_up_def)
    with Suc True show ?thesis by (auto simp: nth_list_update le_Suc_eq)
  next
    case False
    with Suc.prems have "pos = Suc n" by simp
    then show ?thesis by (auto simp: shift_up_def)
  qed
qed (simp add: shift_up_def)

lemma shift_up_insert:
  assumes "pos \<le> n" and "n < length es"
  shows "take (Suc n) ((shift_up pos n es)[pos := e]) = take pos (take n es) @ e # drop pos (take n es)"
  by (rule nth_equalityI) (use assms in \<open>auto simp: nth_append nth_shift_up nth_list_update nth_Cons'\<close>)

text \<open>
  The position is the first entry with a strictly larger prefix, so the comparison with the entry
  found there never detects an equal prefix: an insertion always adds an entry.
\<close>

lemma index_insert_eq:
  assumes "index_ok ix"
  shows "index_insert ix fp slot flags =
    (if unat (ci_len ix) \<ge> 54 then (Inl RecipientSlotsFull, ix)
     else (Inr (), ix\<lparr>ci_entries := (shift_up (index_position (take 16 fp) (live ix)) (unat (ci_len ix))
               (ci_entries ix))[index_position (take 16 fp) (live ix) :=
                  \<lparr>ie_prefix = take 16 fp, ie_slot = slot, ie_flags = flags\<rparr>],
             ci_len := ci_len ix + 1\<rparr>))"
proof -
  let ?p = "index_position (take 16 fp) (live ix)"
  have "\<not> (?p < unat (ci_len ix) \<and> ie_prefix (ci_entries ix ! ?p) = take 16 fp)"
    using assms index_position_at [of "take 16 fp" "live ix"] length_live [OF assms]
    by (auto simp: index_iter_def index_ok_def)
  then show ?thesis by (auto simp: index_insert_def Let_def index_iter_def)
qed

lemma index_insert_live:
  assumes "index_ok ix" and "length (live ix) < 54"
    and "e = \<lparr>ie_prefix = take 16 fp, ie_slot = slot, ie_flags = flags\<rparr>"
  obtains ix' where "index_insert ix fp slot flags = (Inr (), ix')" and "index_ok ix'"
    and "live ix' = take (index_position (take 16 fp) (live ix)) (live ix) @ e #
      drop (index_position (take 16 fp) (live ix)) (live ix)"
proof
  let ?p = "index_position (take 16 fp) (live ix)" and ?n = "unat (ci_len ix)"
  let ?ix = "ix\<lparr>ci_entries := (shift_up ?p ?n (ci_entries ix))[?p := e], ci_len := ci_len ix + 1\<rparr>"
  from assms have n: "?n < 54" by (simp add: length_live)
  then have sz: "unat (ci_len ix + 1) = Suc ?n" by (simp add: unat_word_ariths)
  have p: "?p \<le> ?n" using index_position_le [of "take 16 fp" "live ix"] assms by (simp add: length_live)
  from n assms show "index_insert ix fp slot flags = (Inr (), ?ix)" by (simp add: index_insert_eq)
  show l: "live ?ix = take ?p (live ix) @ e # drop ?p (live ix)"
    using p n assms by (simp add: index_iter_def sz shift_up_insert index_ok_def)
  show "index_ok ?ix"
    using sorted_insert_at_position [of "live ix" e] n assms unfolding index_ok_def l
    by (simp add: sz index_ok_def)
qed

lemma mset_insert_at: "mset (take n xs @ x # drop n xs) = add_mset x (mset xs)"
  by (metis append_take_drop_id mset_append mset.simps(2) union_mset_add_mset_right)

lemma index_insert_mset:
  assumes "index_ok ix" and "length (live ix) < 54"
  obtains ix' where "index_insert ix fp slot flags = (Inr (), ix')" and "index_ok ix'"
    and "mset (live ix') = add_mset \<lparr>ie_prefix = take 16 fp, ie_slot = slot, ie_flags = flags\<rparr> (mset (live ix))"
  using index_insert_live [OF assms refl] mset_insert_at by metis

section \<open>Removal and flags\<close>

lemma remove_loop:
  assumes "i \<le> length es" and "foldl (remove_step slot) (es, 0) [0..<i] = (es', k)"
  shows "length es' = length es \<and> k \<le> i \<and> take k es' = filter (\<lambda>e. ie_slot e \<noteq> slot) (take i es) \<and>
    (\<forall>j. i \<le> j \<longrightarrow> j < length es \<longrightarrow> es' ! j = es ! j)"
  using assms
proof (induction i arbitrary: es' k)
  case (Suc i)
  obtain es1 k1 where s: "foldl (remove_step slot) (es, 0) [0..<i] = (es1, k1)" by fastforce
  with Suc have IH: "length es1 = length es" "k1 \<le> i"
    "take k1 es1 = filter (\<lambda>e. ie_slot e \<noteq> slot) (take i es)"
    "\<forall>j. i \<le> j \<longrightarrow> j < length es \<longrightarrow> es1 ! j = es ! j" by simp_all
  from Suc.prems s have r: "remove_step slot (es1, k1) i = (es', k)" by simp
  have i: "es1 ! i = es ! i" using IH Suc.prems by simp
  show ?case
  proof (cases "ie_slot (es ! i) = slot")
    case True
    with r i IH Suc.prems show ?thesis by (auto simp: remove_step_def take_Suc_conv_app_nth)
  next
    case False
    with r i list_update_id [of es1 i] have "es' = es1[k1 := es ! i]" and "k = Suc k1"
      by (auto simp: remove_step_def split: if_splits)
    with False IH Suc.prems show ?thesis
      by (auto simp: take_Suc_conv_app_nth nth_list_update)
  qed
qed auto

lemma index_remove_live:
  assumes "index_ok ix"
  shows "live (index_remove ix slot) = filter (\<lambda>e. ie_slot e \<noteq> slot) (live ix)"
    and "index_ok (index_remove ix slot)"
proof -
  obtain es k where s: "foldl (remove_step slot) (ci_entries ix, 0) [0..<unat (ci_len ix)] = (es, k)"
    by fastforce
  have len: "unat (ci_len ix) \<le> length (ci_entries ix)" "unat (ci_len ix) \<le> 54" "length (ci_entries ix) = 54"
    using assms by (simp_all add: index_ok_def)
  from remove_loop [OF len(1) s] len have k: "k \<le> 54" "length es = 54"
    and l: "take k es = filter (\<lambda>e. ie_slot e \<noteq> slot) (live ix)"
    by (simp_all add: index_iter_def)
  from k have "unat (of_nat k :: u8) = k" by (simp add: unat_of_nat_u8)
  with s l show *: "live (index_remove ix slot) = filter (\<lambda>e. ie_slot e \<noteq> slot) (live ix)"
    by (simp add: index_remove_def index_iter_def)
  have "sorted (map ie_prefix (filter (\<lambda>e. ie_slot e \<noteq> slot) (live ix)))"
    using assms by (simp add: index_ok_def sorted_filter)
  with * s k \<open>unat (of_nat k :: u8) = k\<close> show "index_ok (index_remove ix slot)"
    by (simp add: index_ok_def) (simp add: index_remove_def)
qed

lemma index_update_flags_live:
  assumes "index_ok ix"
  shows "live (index_update_flags ix slot flags) =
      map (\<lambda>e. if ie_slot e = slot then e\<lparr>ie_flags := flags\<rparr> else e) (live ix)"
    and "index_ok (index_update_flags ix slot flags)"
proof -
  have n: "unat (ci_len ix) \<le> length (ci_entries ix)" using assms by (simp add: index_ok_def)
  then show l: "live (index_update_flags ix slot flags) =
      map (\<lambda>e. if ie_slot e = slot then e\<lparr>ie_flags := flags\<rparr> else e) (live ix)"
    by (simp add: index_update_flags_def index_iter_def Let_def)
  have c: "ie_prefix \<circ> (\<lambda>e. if ie_slot e = slot then e\<lparr>ie_flags := flags\<rparr> else e) = ie_prefix"
    by (rule ext) simp
  from n assms show "index_ok (index_update_flags ix slot flags)"
    unfolding index_ok_def l map_map c by (simp add: index_update_flags_def Let_def)
qed

section \<open>Binary search\<close>

lemma lookup_prefix_loop_Some:
  "lookup_prefix_loop es p lo hi = Some s \<Longrightarrow>
   \<exists>i. lo \<le> i \<and> i < hi \<and> ie_prefix (es ! i) = p \<and> ie_slot (es ! i) = s"
proof (induction es p lo hi rule: lookup_prefix_loop.induct)
  case (1 es p lo hi)
  let ?mid = "lo + (hi - lo) div 2"
  note res = 1(3)
  then have lt: "lo < hi" by (subst (asm) lookup_prefix_loop.simps) (simp split: if_splits)
  then have mid: "lo \<le> ?mid" "?mid < hi" by auto
  note step = res [unfolded lookup_prefix_loop.simps [of es p lo hi]]
  consider (left) "ie_prefix (es ! ?mid) < p" | (right) "p < ie_prefix (es ! ?mid)"
    | (found) "ie_prefix (es ! ?mid) = p" by fastforce
  then show ?case
  proof cases
    case left
    with step lt have "lookup_prefix_loop es p (?mid + 1) hi = Some s" by (simp add: Let_def)
    from 1(1) [OF lt refl refl left this] obtain i where "?mid + 1 \<le> i" "i < hi"
      "ie_prefix (es ! i) = p" "ie_slot (es ! i) = s" by blast
    with mid show ?thesis by (intro exI [of _ i]) linarith
  next
    case right
    then have "\<not> ie_prefix (es ! ?mid) < p" by (rule less_not_sym)
    with right step lt have "lookup_prefix_loop es p lo ?mid = Some s" by (simp add: Let_def)
    from 1(2) [OF lt refl refl \<open>\<not> ie_prefix (es ! ?mid) < p\<close> right this] obtain i where
      "lo \<le> i" "i < ?mid" "ie_prefix (es ! i) = p" "ie_slot (es ! i) = s" by blast
    with mid show ?thesis by (intro exI [of _ i]) linarith
  next
    case found
    with step lt have "ie_slot (es ! ?mid) = s" by (simp add: Let_def)
    with found mid show ?thesis by (intro exI [of _ ?mid]) simp
  qed
qed

lemma lookup_prefix_loop_None:
  assumes "lookup_prefix_loop es p lo hi = None" and "sorted (map ie_prefix (take n es))"
    and "hi \<le> n" and "n \<le> length es" and "lo \<le> i" and "i < hi"
  shows "ie_prefix (es ! i) \<noteq> p"
  using assms
proof (induction es p lo hi arbitrary: i rule: lookup_prefix_loop.induct)
  case (1 es p lo hi)
  let ?mid = "lo + (hi - lo) div 2"
  have lt: "lo < hi" using 1(7,8) by simp
  then have mid: "lo \<le> ?mid" "?mid < hi" by auto
  note step = 1(3) [unfolded lookup_prefix_loop.simps [of es p lo hi]]
  have le: "ie_prefix (es ! a) \<le> ie_prefix (es ! b)" if "a \<le> b" and "b < hi" for a b
    using sorted_nth_mono [OF 1(4), of a b] that 1(5,6) by simp
  consider (left) "ie_prefix (es ! ?mid) < p" | (right) "p < ie_prefix (es ! ?mid)"
    | (found) "ie_prefix (es ! ?mid) = p" by fastforce
  then show ?case
  proof cases
    case left
    with step lt have r: "lookup_prefix_loop es p (?mid + 1) hi = None" by (simp add: Let_def)
    show ?thesis
    proof (cases "i \<le> ?mid")
      case True
      with le [of i ?mid] mid left show ?thesis by auto
    next
      case False
      with 1(1) [OF lt refl refl left r 1(4-6), of i] 1(8) show ?thesis by simp
    qed
  next
    case right
    then have ns: "\<not> ie_prefix (es ! ?mid) < p" by (rule less_not_sym)
    with right step lt have r: "lookup_prefix_loop es p lo ?mid = None" by (simp add: Let_def)
    show ?thesis
    proof (cases "?mid \<le> i")
      case True
      with le [of ?mid i] 1(8) right show ?thesis by auto
    next
      case False
      have "?mid \<le> n" using mid 1(5) by simp
      with 1(2) [OF lt refl refl ns right r 1(4) _ 1(6), of i] 1(7) False show ?thesis by simp
    qed
  next
    case found
    with step lt show ?thesis by (simp add: Let_def)
  qed
qed

text \<open>
  The binary search decides whether a live entry has the prefix, and the slot it returns is one of
  such an entry.
\<close>

lemma lookup_prefix_live:
  assumes "index_ok ix"
  shows "lookup_prefix ix p = None \<longleftrightarrow> (\<forall>e \<in> set (live ix). ie_prefix e \<noteq> p)"
    and "lookup_prefix ix p = Some s \<Longrightarrow> \<exists>e \<in> set (live ix). ie_prefix e = p \<and> ie_slot e = s"
proof -
  let ?n = "unat (ci_len ix)"
  have n: "?n \<le> length (ci_entries ix)" and sorted: "sorted (map ie_prefix (take ?n (ci_entries ix)))"
    using assms by (simp_all add: index_ok_def index_iter_def)
  have mem: "ci_entries ix ! i \<in> set (live ix)" if "i < ?n" for i
    using that n by (auto simp: index_iter_def in_set_conv_nth intro!: exI [of _ i])
  show found: "\<exists>e \<in> set (live ix). ie_prefix e = p \<and> ie_slot e = s"
    if "lookup_prefix ix p = Some s" for s
    using lookup_prefix_loop_Some [OF that [unfolded lookup_prefix_def]] mem by blast
  show "lookup_prefix ix p = None \<longleftrightarrow> (\<forall>e \<in> set (live ix). ie_prefix e \<noteq> p)"
  proof
    assume none: "lookup_prefix ix p = None"
    show "\<forall>e \<in> set (live ix). ie_prefix e \<noteq> p"
    proof
      fix e assume "e \<in> set (live ix)"
      then obtain i where "i < ?n" "e = ci_entries ix ! i"
        using n by (auto simp: index_iter_def in_set_conv_nth)
      with lookup_prefix_loop_None [OF none [unfolded lookup_prefix_def] sorted order.refl n, of i]
      show "ie_prefix e \<noteq> p" by simp
    qed
  next
    assume "\<forall>e \<in> set (live ix). ie_prefix e \<noteq> p"
    with found show "lookup_prefix ix p = None" by (cases "lookup_prefix ix p") auto
  qed
qed

section \<open>Rebuilding\<close>

definition entry_of :: "nat \<Rightarrow> contact_record \<Rightarrow> index_entry" where
  "entry_of slot rec =
     \<lparr>ie_prefix = take 16 (cr_fingerprint rec), ie_slot = of_nat slot, ie_flags = contact_flags rec\<rparr>"

definition active_entries :: "(nat \<times> contact_record) list \<Rightarrow> index_entry list" where
  "active_entries rs = map (\<lambda>(slot, rec). entry_of slot rec) (filter (\<lambda>(slot, rec). is_active rec) rs)"

lemma active_entries_simps [simp]:
  "active_entries [] = []"
  "active_entries ((slot, rec) # rs) =
     (if is_active rec then entry_of slot rec # active_entries rs else active_entries rs)"
  "active_entries (rs @ rs') = active_entries rs @ active_entries rs'"
  by (simp_all add: active_entries_def)

lemma length_active_entries: "length (active_entries rs) \<le> length rs"
  by (simp add: active_entries_def)

lemma rebuild_loop_mset:
  "index_ok ix \<Longrightarrow> length (live ix) + length rs \<le> 54 \<Longrightarrow>
   index_ok (rebuild_loop ix rs) \<and> mset (live (rebuild_loop ix rs)) = mset (live ix) + mset (active_entries rs)"
proof (induction ix rs rule: rebuild_loop.induct)
  case (2 ix slot rec rs)
  show ?case
  proof (cases "is_active rec")
    case True
    from 2(4) have "length (live ix) < 54" by simp
    with 2(3) obtain ix' where ix': "index_insert ix (cr_fingerprint rec) (of_nat slot) (contact_flags rec) = (Inr (), ix')"
      "index_ok ix'" "mset (live ix') = add_mset (entry_of slot rec) (mset (live ix))"
      unfolding entry_of_def by (rule index_insert_mset)
    from arg_cong [OF ix'(3), of size] 2(4) have "length (live ix') + length rs \<le> 54" by simp
    with 2(2) True ix' show ?thesis by simp
  next
    case False
    with 2 show ?thesis by simp
  qed
qed simp

lemma rebuild_from_records_mset:
  assumes "length (ci_entries ix) = 54" and "length recs = 54"
  shows "index_ok (rebuild_from_records ix recs)"
    and "mset (live (rebuild_from_records ix recs)) = mset (active_entries (enumerate 0 recs))"
proof -
  have "index_ok (ix\<lparr>ci_len := 0\<rparr>)" and "live (ix\<lparr>ci_len := 0\<rparr>) = []"
    using assms by (simp_all add: index_ok_def index_iter_def)
  with rebuild_loop_mset [of "ix\<lparr>ci_len := 0\<rparr>" "enumerate 0 recs"] assms
  show "index_ok (rebuild_from_records ix recs)"
    and "mset (live (rebuild_from_records ix recs)) = mset (active_entries (enumerate 0 recs))"
    by (simp_all add: rebuild_from_records_def)
qed

end
