(* ===== verification/Contact_Regions.thy ===== *)
theory Contact_Regions
  imports Contact_Record
begin

text \<open>
  The three regions of \<open>crates/contact-store\<close> behind the record array: the string heap (\<open>heap.rs\<close>),
  the key-material region (\<open>key_region.rs\<close>), both bump allocators over \<open>VaultStorage\<close>, and the
  append-only timing log (\<open>timing_log.rs\<close>).

  A method with \<open>&mut self\<close> and further mutable borrows returns all of them; on an early return the
  borrows keep what was changed before.
\<close>

section \<open>Sequencing\<close>

text \<open>The \<open>?\<close> operator on a result paired with the state reached.\<close>

definition st_bind :: "('e + 'a) \<times> 's \<Rightarrow> ('a \<Rightarrow> 's \<Rightarrow> ('e + 'b) \<times> 's) \<Rightarrow> ('e + 'b) \<times> 's" where
  "st_bind p f = (case p of (Inl e, s) \<Rightarrow> (Inl e, s) | (Inr x, s) \<Rightarrow> f x s)"

lemma st_bind_simps [simp]: "st_bind (Inl e, s) f = (Inl e, s)" "st_bind (Inr x, s) f = f x s"
  by (simp_all add: st_bind_def)

lemma st_bind_eq_Inr:
  "st_bind p f = (Inr y, s') \<longleftrightarrow> (\<exists>x s. p = (Inr x, s) \<and> f x s = (Inr y, s'))"
  by (cases p; cases "fst p") auto

definition storage_write ::
  "'w vault_storage \<Rightarrow> nat \<Rightarrow> bytes \<Rightarrow> 'w \<Rightarrow> (contact_store_error + unit) \<times> 'w" where
  "storage_write vs off d w =
     (case vs_write vs w off d of (r, w') \<Rightarrow> (map_err (\<lambda>_. StorageWrite) r, w'))"

definition storage_read :: "'w vault_storage \<Rightarrow> nat \<Rightarrow> nat \<Rightarrow> 'w \<Rightarrow> contact_store_error + bytes" where
  "storage_read vs off n w = map_err (\<lambda>_. StorageRead) (vs_read vs w off n)"

section \<open>String heap\<close>

record string_heap =
  sh_bump :: u32

definition string_heap_new :: string_heap where
  "string_heap_new = \<lparr>sh_bump = 0\<rparr>"

definition heap_set_bump :: "u32 \<Rightarrow> string_heap \<Rightarrow> string_heap" where
  "heap_set_bump b h = h\<lparr>sh_bump := min b (of_nat STRING_HEAP_BYTES)\<rparr>"

definition heap_free_space :: "string_heap \<Rightarrow> u32" where
  "heap_free_space h = sat_sub32 (of_nat STRING_HEAP_BYTES) (sh_bump h)"

text \<open>The length is cast to \<open>u16\<close> before the space check, the write uses the whole slice.\<close>

definition heap_alloc ::
  "'w vault_storage \<Rightarrow> bytes \<Rightarrow> string_heap \<Rightarrow> 'w \<Rightarrow>
   (contact_store_error + string_ref) \<times> string_heap \<times> 'w" where
  "heap_alloc vs bs h w =
     (if length bs > 0xFFFFFFFF then (Inl StringTooLong, h, w)
      else
        let len = of_nat (length bs) :: u16;
            need = unat (sh_bump h) + unat len in
        if need > STRING_HEAP_BYTES then (Inl HeapFull, h, w)
        else case storage_write vs (STRING_HEAP_OFFSET + unat (sh_bump h)) bs w of
            (Inl e, w1) \<Rightarrow> (Inl e, h, w1)
          | (Inr _, w1) \<Rightarrow>
              (Inr \<lparr>sr_offset = sh_bump h, sr_len = len\<rparr>,
               h\<lparr>sh_bump := sat_add32 (sh_bump h) (ucast len)\<rparr>, w1))"

definition heap_read ::
  "'w vault_storage \<Rightarrow> string_ref \<Rightarrow> bytes \<Rightarrow> 'w \<Rightarrow> contact_store_error + bytes" where
  "heap_read vs r buf w =
     (if string_ref_is_empty r then Inr buf
      else if length buf < unat (sr_len r) then Inl StringTooLong
      else if unat (sr_offset r) + unat (sr_len r) > STRING_HEAP_BYTES then Inl CorruptRecord
      else res_bind (storage_read vs (STRING_HEAP_OFFSET + unat (sr_offset r)) (unat (sr_len r)) w)
             (\<lambda>d. Inr (splice buf 0 d)))"

text \<open>
  \<open>compact\<close>: the inner loop over the string references of one record, then the loop over the
  records. \<open>new_bump\<close> is a local variable; the bump pointer of the heap is set at the end only.
\<close>

fun compact_refs ::
  "'w vault_storage \<Rightarrow> string_ref list \<Rightarrow> u32 \<Rightarrow> 'w \<Rightarrow>
   (contact_store_error + unit) \<times> string_ref list \<times> u32 \<times> 'w" where
  "compact_refs vs [] nb w = (Inr (), [], nb, w)"
| "compact_refs vs (sr # srs) nb w =
     (if string_ref_is_empty sr then
        (case compact_refs vs srs nb w of (r, srs', nb', w') \<Rightarrow> (r, sr # srs', nb', w'))
      else if unat (sr_len sr) > 54 * 256 then (Inl HeapFull, sr # srs, nb, w)
      else case storage_read vs (STRING_HEAP_OFFSET + unat (sr_offset sr)) (unat (sr_len sr)) w of
          Inl e \<Rightarrow> (Inl e, sr # srs, nb, w)
        | Inr d \<Rightarrow>
            if unat nb + unat (sr_len sr) > STRING_HEAP_BYTES then (Inl HeapFull, sr # srs, nb, w)
            else case storage_write vs (STRING_HEAP_OFFSET + unat nb) d w of
                (Inl e, w1) \<Rightarrow> (Inl e, sr # srs, nb, w1)
              | (Inr _, w1) \<Rightarrow>
                  (case compact_refs vs srs (sat_add32 nb (ucast (sr_len sr))) w1 of
                     (r, srs', nb', w') \<Rightarrow> (r, sr\<lparr>sr_offset := nb\<rparr> # srs', nb', w')))"

definition set_string_refs :: "string_ref list \<Rightarrow> contact_record \<Rightarrow> contact_record" where
  "set_string_refs s r = r\<lparr>cr_email := s ! 0, cr_display_name := s ! 1, cr_badge_number := s ! 2,
     cr_organisation := s ! 3, cr_department := s ! 4, cr_role := s ! 5, cr_note := s ! 6,
     cr_radio_affiliation := s ! 7, cr_street := s ! 8, cr_country := s ! 9,
     cr_postal_code := s ! 10, cr_region := s ! 11, cr_fluxer_id := s ! 12,
     cr_discord_id := s ! 13, cr_irc_id := s ! 14\<rparr>"

fun heap_compact_loop ::
  "'w vault_storage \<Rightarrow> contact_record list \<Rightarrow> u32 \<Rightarrow> 'w \<Rightarrow>
   (contact_store_error + u32) \<times> contact_record list \<times> 'w" where
  "heap_compact_loop vs [] nb w = (Inr nb, [], w)"
| "heap_compact_loop vs (rec # recs) nb w =
     (if \<not> is_active rec then
        (case heap_compact_loop vs recs nb w of (r, recs', w') \<Rightarrow> (r, rec # recs', w'))
      else case compact_refs vs (string_refs rec) nb w of
          (Inl e, srs, _, w1) \<Rightarrow> (Inl e, set_string_refs srs rec # recs, w1)
        | (Inr _, srs, nb1, w1) \<Rightarrow>
            (case heap_compact_loop vs recs nb1 w1 of
               (r, recs', w') \<Rightarrow> (r, set_string_refs srs rec # recs', w')))"

definition heap_compact ::
  "'w vault_storage \<Rightarrow> string_heap \<Rightarrow> contact_record list \<Rightarrow> 'w \<Rightarrow>
   (contact_store_error + unit) \<times> string_heap \<times> contact_record list \<times> 'w" where
  "heap_compact vs h recs w =
     (case heap_compact_loop vs recs 0 w of
        (Inl e, recs', w') \<Rightarrow> (Inl e, h, recs', w')
      | (Inr nb, recs', w') \<Rightarrow> (Inr (), h\<lparr>sh_bump := nb\<rparr>, recs', w'))"

section \<open>Key-material region\<close>

record key_material_region =
  kr_bump :: u32

definition key_region_new :: key_material_region where
  "key_region_new = \<lparr>kr_bump = 0\<rparr>"

definition key_set_bump :: "u32 \<Rightarrow> key_material_region \<Rightarrow> key_material_region" where
  "key_set_bump b k = k\<lparr>kr_bump := min b (of_nat KEY_REGION_BYTES)\<rparr>"

definition key_free_space :: "key_material_region \<Rightarrow> u32" where
  "key_free_space k = sat_sub32 (of_nat KEY_REGION_BYTES) (kr_bump k)"

definition key_alloc ::
  "'w vault_storage \<Rightarrow> bytes \<Rightarrow> key_material_region \<Rightarrow> 'w \<Rightarrow>
   (contact_store_error + u32 \<times> u16) \<times> key_material_region \<times> 'w" where
  "key_alloc vs bs k w =
     (if length bs > MAX_PUBLIC_KEY_BYTES then (Inl KeyTooLarge, k, w)
      else
        let len = of_nat (length bs) :: u16;
            need = unat (kr_bump k) + unat len in
        if need > KEY_REGION_BYTES then (Inl HeapFull, k, w)
        else case storage_write vs (KEY_REGION_OFFSET + unat (kr_bump k)) bs w of
            (Inl e, w1) \<Rightarrow> (Inl e, k, w1)
          | (Inr _, w1) \<Rightarrow>
              (Inr (kr_bump k, len), k\<lparr>kr_bump := sat_add32 (kr_bump k) (ucast len)\<rparr>, w1))"

definition key_read ::
  "'w vault_storage \<Rightarrow> u32 \<Rightarrow> u16 \<Rightarrow> bytes \<Rightarrow> 'w \<Rightarrow> contact_store_error + bytes" where
  "key_read vs offset len buf w =
     (if len = 0 then Inr buf
      else if length buf < unat len then Inl KeyTooLarge
      else if unat offset + unat len > KEY_REGION_BYTES then Inl CorruptRecord
      else res_bind (storage_read vs (KEY_REGION_OFFSET + unat offset) (unat len) w)
             (\<lambda>d. Inr (splice buf 0 d)))"

fun key_compact_loop ::
  "'w vault_storage \<Rightarrow> contact_record list \<Rightarrow> u32 \<Rightarrow> 'w \<Rightarrow>
   (contact_store_error + u32) \<times> contact_record list \<times> 'w" where
  "key_compact_loop vs [] nb w = (Inr nb, [], w)"
| "key_compact_loop vs (rec # recs) nb w =
     (if \<not> is_active rec \<or> cr_key_len rec = 0 then
        (case key_compact_loop vs recs nb w of (r, recs', w') \<Rightarrow> (r, rec # recs', w'))
      else if unat (cr_key_len rec) > MAX_PUBLIC_KEY_BYTES then (Inl KeyTooLarge, rec # recs, w)
      else case key_read vs (cr_key_offset rec) (cr_key_len rec) (replicate (unat (cr_key_len rec)) 0) w of
          Inl e \<Rightarrow> (Inl e, rec # recs, w)
        | Inr d \<Rightarrow>
            if unat nb + unat (cr_key_len rec) > KEY_REGION_BYTES then (Inl HeapFull, rec # recs, w)
            else case storage_write vs (KEY_REGION_OFFSET + unat nb) d w of
                (Inl e, w1) \<Rightarrow> (Inl e, rec # recs, w1)
              | (Inr _, w1) \<Rightarrow>
                  (case key_compact_loop vs recs (sat_add32 nb (ucast (cr_key_len rec))) w1 of
                     (r, recs', w') \<Rightarrow> (r, rec\<lparr>cr_key_offset := nb\<rparr> # recs', w')))"

definition key_compact ::
  "'w vault_storage \<Rightarrow> key_material_region \<Rightarrow> contact_record list \<Rightarrow> 'w \<Rightarrow>
   (contact_store_error + unit) \<times> key_material_region \<times> contact_record list \<times> 'w" where
  "key_compact vs k recs w =
     (case key_compact_loop vs recs 0 w of
        (Inl e, recs', w') \<Rightarrow> (Inl e, k, recs', w')
      | (Inr nb, recs', w') \<Rightarrow> (Inr (), k\<lparr>kr_bump := nb\<rparr>, recs', w'))"

section \<open>Timing log\<close>

record timing_log_entry =
  te_slot :: u8
  te_pad0 :: bytes
  te_last_fetched :: u32
  te_seq :: u32
  te_entry_crc :: u32

abbreviation ENTRY_BYTES :: nat where "ENTRY_BYTES \<equiv> 16"
abbreviation MAX_ENTRIES :: nat where "MAX_ENTRIES \<equiv> 1024"

definition entry_as_bytes :: "timing_log_entry \<Rightarrow> bytes" where
  "entry_as_bytes e =
     splice (splice (splice ((replicate ENTRY_BYTES 0)[0 := te_slot e])
       4 (u32_le (te_last_fetched e))) 8 (u32_le (te_seq e))) 12 (u32_le (te_entry_crc e))"

definition entry_body_for_crc :: "timing_log_entry \<Rightarrow> bytes" where
  "entry_body_for_crc e =
     splice (splice ((replicate 12 0)[0 := te_slot e])
       4 (u32_le (te_last_fetched e))) 8 (u32_le (te_seq e))"

definition entry_recompute_crc :: "(bytes \<Rightarrow> u32) \<Rightarrow> timing_log_entry \<Rightarrow> timing_log_entry" where
  "entry_recompute_crc crc e = e\<lparr>te_entry_crc := crc (entry_body_for_crc e)\<rparr>"

definition entry_from_bytes :: "(bytes \<Rightarrow> u32) \<Rightarrow> bytes \<Rightarrow> contact_store_error + timing_log_entry" where
  "entry_from_bytes crc bs =
     (if list_all (\<lambda>b. b = 0) bs then Inl CorruptLogEntry
      else
        let e = \<lparr>te_slot = bs ! 0, te_pad0 = [0, 0, 0], te_last_fetched = rd_u32_le bs 4,
                 te_seq = rd_u32_le bs 8, te_entry_crc = rd_u32_le bs 12\<rparr> in
        if crc (entry_body_for_crc e) \<noteq> te_entry_crc e then Inl CorruptLogEntry else Inr e)"

record timing_log =
  tl_count :: nat

definition timing_log_new :: timing_log where
  "timing_log_new = \<lparr>tl_count = 0\<rparr>"

definition entry_offset :: "nat \<Rightarrow> nat" where
  "entry_offset i = TIMING_LOG_OFFSET + i * ENTRY_BYTES"

definition log_read_entry ::
  "(bytes \<Rightarrow> u32) \<Rightarrow> 'w vault_storage \<Rightarrow> nat \<Rightarrow> 'w \<Rightarrow> contact_store_error + timing_log_entry" where
  "log_read_entry crc vs i w =
     res_bind (storage_read vs (entry_offset i) ENTRY_BYTES w) (entry_from_bytes crc)"

definition log_write_entry ::
  "'w vault_storage \<Rightarrow> nat \<Rightarrow> timing_log_entry \<Rightarrow> 'w \<Rightarrow> (contact_store_error + unit) \<times> 'w" where
  "log_write_entry vs i e w = storage_write vs (entry_offset i) (entry_as_bytes e) w"

fun log_clear_loop ::
  "'w vault_storage \<Rightarrow> nat list \<Rightarrow> 'w \<Rightarrow> (contact_store_error + unit) \<times> 'w" where
  "log_clear_loop vs [] w = (Inr (), w)"
| "log_clear_loop vs (i # is) w =
     st_bind (storage_write vs (entry_offset i) (replicate ENTRY_BYTES 0) w)
       (\<lambda>_. log_clear_loop vs is)"

definition log_clear ::
  "'w vault_storage \<Rightarrow> timing_log \<Rightarrow> 'w \<Rightarrow> (contact_store_error + unit) \<times> timing_log \<times> 'w" where
  "log_clear vs l w =
     (case log_clear_loop vs [0..<MAX_ENTRIES] w of
        (Inl e, w1) \<Rightarrow> (Inl e, l, w1)
      | (Inr _, w1) \<Rightarrow> (Inr (), l\<lparr>tl_count := 0\<rparr>, w1))"

text \<open>\<open>best\<close> holds, per slot, the highest sequence number seen and its time stamp.\<close>

fun merge_best ::
  "(bytes \<Rightarrow> u32) \<Rightarrow> 'w vault_storage \<Rightarrow> nat list \<Rightarrow> (u32 \<times> u32) list \<Rightarrow> 'w \<Rightarrow>
   contact_store_error + (u32 \<times> u32) list" where
  "merge_best crc vs [] best w = Inr best"
| "merge_best crc vs (i # is) best w =
     res_bind (log_read_entry crc vs i w) (\<lambda>e.
       let slot = unat (te_slot e) in
       if slot \<ge> 54 then merge_best crc vs is best w
       else if te_seq e \<ge> fst (best ! slot)
         then merge_best crc vs is (best[slot := (te_seq e, te_last_fetched e)]) w
         else merge_best crc vs is best w)"

definition merge_records :: "(u32 \<times> u32) list \<Rightarrow> contact_record list \<Rightarrow> contact_record list" where
  "merge_records best recs =
     map2 (\<lambda>(seq, ts) rec. if seq = 0 then rec
        else if is_active rec then rec\<lparr>cr_last_fetched := ts\<rparr> else rec) best recs"

definition log_merge ::
  "(bytes \<Rightarrow> u32) \<Rightarrow> 'w vault_storage \<Rightarrow> timing_log \<Rightarrow> contact_record list \<Rightarrow> 'w \<Rightarrow>
   (contact_store_error + unit) \<times> timing_log \<times> contact_record list \<times> 'w" where
  "log_merge crc vs l recs w =
     (case merge_best crc vs [0..<tl_count l] (replicate 54 (0, 0)) w of
        Inl e \<Rightarrow> (Inl e, l, recs, w)
      | Inr best \<Rightarrow>
          (case log_clear vs l w of
             (r, l', w') \<Rightarrow> (r, l', merge_records best recs, w')))"

definition log_append ::
  "(bytes \<Rightarrow> u32) \<Rightarrow> 'w vault_storage \<Rightarrow> 'w monotonic_counter \<Rightarrow> timing_log \<Rightarrow> u8 \<Rightarrow> u32 \<Rightarrow>
   contact_record list \<Rightarrow> 'w \<Rightarrow>
   (contact_store_error + unit) \<times> timing_log \<times> contact_record list \<times> 'w" where
  "log_append crc vs mc l slot last_fetched recs w =
     (case mc_increment mc w of
        (Inl _, w1) \<Rightarrow> (Inl CounterError, l, recs, w1)
      | (Inr seq, w1) \<Rightarrow>
          (case (if tl_count l \<ge> MAX_ENTRIES then log_merge crc vs l recs w1
                 else (Inr (), l, recs, w1)) of
             (Inl e, l2, recs2, w2) \<Rightarrow> (Inl e, l2, recs2, w2)
           | (Inr _, l2, recs2, w2) \<Rightarrow>
               let e = entry_recompute_crc crc \<lparr>te_slot = slot, te_pad0 = [0, 0, 0],
                         te_last_fetched = last_fetched, te_seq = seq, te_entry_crc = 0\<rparr> in
               case log_write_entry vs (tl_count l2) e w2 of
                 (Inl er, w3) \<Rightarrow> (Inl er, l2, recs2, w3)
               | (Inr _, w3) \<Rightarrow> (Inr (), l2\<lparr>tl_count := tl_count l2 + 1\<rparr>, recs2, w3)))"

section \<open>Reads and writes of a healthy storage\<close>

text \<open>The bytes a string reference names.\<close>

definition ref_bytes :: "bytes \<Rightarrow> string_ref \<Rightarrow> bytes" where
  "ref_bytes m r = slice (STRING_HEAP_OFFSET + unat (sr_offset r)) (unat (sr_len r)) m"


text \<open>Advancing a bump pointer by a length that fits never saturates.\<close>

lemma sat_add_len:
  "n < 65536 \<Longrightarrow> unat b + n \<le> 65536 \<Longrightarrow> sat_add32 b (ucast (of_nat n :: u16)) = b + of_nat n"
  by (simp add: sat_add32_def unat_ucast unat_of_nat_u16 ucast_eq take_bit_nat_eq_self unsigned_of_nat)

lemma unat_add_len: "unat (b :: u32) + n \<le> 65536 \<Longrightarrow> unat (b + of_nat n) = unat b + n"
  by (simp add: unat_word_ariths unat_of_nat)

context vault_contract
begin

lemma storage_read_in:
  "vs_ok w \<Longrightarrow> off + n \<le> length (vs_mem w) \<Longrightarrow> storage_read vs off n w = Inr (slice off n (vs_mem w))"
  by (simp add: storage_read_def read_in)

lemma storage_write_in:
  assumes "vs_ok w" and "off + length d \<le> length (vs_mem w)"
  obtains w' where "storage_write vs off d w = (Inr (), w')" and "vs_ok w'"
    and "vs_mem w' = splice (vs_mem w) off d"
proof
  obtain r w' where rw: "vs_write vs w off d = (r, w')" by fastforce
  with write_in [OF assms] have "r = Inr ()" by simp
  with rw show "storage_write vs off d w = (Inr (), snd (vs_write vs w off d))"
    by (simp add: storage_write_def)
  show "vs_ok (snd (vs_write vs w off d))" using assms by (simp add: write_ok)
  show "vs_mem (snd (vs_write vs w off d)) = splice (vs_mem w) off d"
    using write_mem [OF write_in [OF assms]] by simp
qed

text \<open>An allocated string is read back, and nothing outside its bytes has changed.\<close>

lemma heap_alloc_read:
  assumes "vs_ok w" and "CONTACT_STORE_END \<le> length (vs_mem w)" and "length bs < 65536"
    and "unat (sh_bump h) + length bs \<le> STRING_HEAP_BYTES"
  obtains w' where "heap_alloc vs bs h w = (Inr \<lparr>sr_offset = sh_bump h, sr_len = of_nat (length bs)\<rparr>,
      h\<lparr>sh_bump := sh_bump h + of_nat (length bs)\<rparr>, w')"
    and "vs_ok w'" and "vs_mem w' = splice (vs_mem w) (STRING_HEAP_OFFSET + unat (sh_bump h)) bs"
proof -
  have "STRING_HEAP_OFFSET + unat (sh_bump h) + length bs \<le> length (vs_mem w)"
    using assms by (simp add: contact_layout)
  from storage_write_in [OF assms(1) this] obtain w' where
    "storage_write vs (STRING_HEAP_OFFSET + unat (sh_bump h)) bs w = (Inr (), w')" "vs_ok w'"
    "vs_mem w' = splice (vs_mem w) (STRING_HEAP_OFFSET + unat (sh_bump h)) bs" .
  moreover have "unat (of_nat (length bs) :: u16) = length bs"
    using assms by (simp add: unat_of_nat_u16)
  ultimately show ?thesis using assms that by (simp add: heap_alloc_def Let_def sat_add_len)
qed

lemma key_alloc_read:
  assumes "vs_ok w" and "CONTACT_STORE_END \<le> length (vs_mem w)" and "length bs \<le> MAX_PUBLIC_KEY_BYTES"
    and "unat (kr_bump k) + length bs \<le> KEY_REGION_BYTES"
  obtains w' where "key_alloc vs bs k w = (Inr (kr_bump k, of_nat (length bs)),
      k\<lparr>kr_bump := kr_bump k + of_nat (length bs)\<rparr>, w')"
    and "vs_ok w'" and "vs_mem w' = splice (vs_mem w) (KEY_REGION_OFFSET + unat (kr_bump k)) bs"
proof -
  have "KEY_REGION_OFFSET + unat (kr_bump k) + length bs \<le> length (vs_mem w)"
    using assms by (simp add: contact_layout)
  from storage_write_in [OF assms(1) this] obtain w' where
    "storage_write vs (KEY_REGION_OFFSET + unat (kr_bump k)) bs w = (Inr (), w')" "vs_ok w'"
    "vs_mem w' = splice (vs_mem w) (KEY_REGION_OFFSET + unat (kr_bump k)) bs" .
  then show ?thesis using assms that by (simp add: key_alloc_def Let_def unat_of_nat_u16 sat_add_len)
qed

text \<open>
  The length is cast to sixteen bits before the space check and the write is not: a slice of
  \<open>65536 + k\<close> bytes is accepted as one of \<open>k\<close> bytes and written over what follows the heap.
\<close>

lemma heap_alloc_truncates:
  assumes "vs_ok w" and "length bs = 65536 + k" and "k < 65536" and "unat (sh_bump h) + k \<le> STRING_HEAP_BYTES"
    and "STRING_HEAP_OFFSET + unat (sh_bump h) + length bs \<le> length (vs_mem w)"
  shows "\<exists>h' w'. heap_alloc vs bs h w = (Inr \<lparr>sr_offset = sh_bump h, sr_len = of_nat k\<rparr>, h', w') \<and>
    vs_mem w' = splice (vs_mem w) (STRING_HEAP_OFFSET + unat (sh_bump h)) bs"
proof -
  from storage_write_in [OF assms(1,5)] obtain w' where
    "storage_write vs (STRING_HEAP_OFFSET + unat (sh_bump h)) bs w = (Inr (), w')"
    "vs_mem w' = splice (vs_mem w) (STRING_HEAP_OFFSET + unat (sh_bump h)) bs" .
  moreover have "(of_nat (length bs) :: u16) = of_nat k"
    unfolding assms(2) by (simp only: word_unat_eq_iff unat_of_nat) simp
  moreover have "unat (of_nat k :: u16) = k" "length bs \<le> 0xFFFFFFFF"
    using assms(2,3) by (simp_all add: unat_of_nat_u16)
  ultimately show ?thesis using assms(4) by (simp add: heap_alloc_def Let_def)
qed

text \<open>
  Compaction moves the strings in the order of the references. References whose strings lie in
  ascending order keep their contents; the two strings of \<open>compact_refs_swapped\<close> do not: the first move
  overwrites the second string before it is read.
\<close>

fun refs_ascend :: "nat \<Rightarrow> string_ref list \<Rightarrow> bool" where
  "refs_ascend lo [] = True"
| "refs_ascend lo (r # rs) =
     (if string_ref_is_empty r then refs_ascend lo rs
      else lo \<le> unat (sr_offset r) \<and> unat (sr_len r) \<le> 54 * 256 \<and>
        unat (sr_offset r) + unat (sr_len r) \<le> STRING_HEAP_BYTES \<and>
        refs_ascend (unat (sr_offset r) + unat (sr_len r)) rs)"

lemma refs_ascend_mono: "refs_ascend lo rs \<Longrightarrow> lo' \<le> lo \<Longrightarrow> refs_ascend lo' rs"
  by (induction rs arbitrary: lo lo') auto

lemma refs_ascend_ref:
  "refs_ascend lo rs \<Longrightarrow> r \<in> set rs \<Longrightarrow>
   string_ref_is_empty r \<or> lo \<le> unat (sr_offset r) \<and> unat (sr_offset r) + unat (sr_len r) \<le> STRING_HEAP_BYTES"
proof (induction rs arbitrary: lo)
  case (Cons x rs)
  then show ?case by (auto split: if_splits) (meson le_add1 order.trans)+
qed simp

lemma ref_bytes_empty [simp]: "string_ref_is_empty r \<Longrightarrow> ref_bytes m r = []"
  by (simp add: ref_bytes_def string_ref_is_empty_def)

lemma compact_refs_ascending:
  assumes "vs_ok w" and "CONTACT_STORE_END \<le> length (vs_mem w)" and "refs_ascend lo rs" and "unat nb \<le> lo"
  shows "\<exists>rs' nb' w'. compact_refs vs rs nb w = (Inr (), rs', nb', w') \<and>
    map (ref_bytes (vs_mem w')) rs' = map (ref_bytes (vs_mem w)) rs \<and>
    (\<forall>off n. off + n \<le> STRING_HEAP_OFFSET + unat nb \<longrightarrow> slice off n (vs_mem w') = slice off n (vs_mem w))"
  using assms
proof (induction rs arbitrary: w nb lo)
  case (Cons r rs)
  show ?case
  proof (cases "string_ref_is_empty r")
    case True
    from Cons.prems True have "refs_ascend lo rs" by simp
    from Cons.IH [OF Cons.prems(1,2) this Cons.prems(4)] True show ?thesis by auto
  next
    case False
    let ?o = "unat (sr_offset r)" and ?n = "unat (sr_len r)"
    from Cons.prems False have b: "lo \<le> ?o" "?n \<le> 54 * 256" "?o + ?n \<le> 65536" "refs_ascend (?o + ?n) rs" by simp_all
    let ?d = "ref_bytes (vs_mem w) r"
    have read: "storage_read vs (STRING_HEAP_OFFSET + ?o) ?n w = Inr ?d"
      using Cons.prems(1,2) b unfolding ref_bytes_def by (intro storage_read_in) (simp_all add: contact_layout)
    have d: "length ?d = ?n" using Cons.prems(2) b by (simp add: ref_bytes_def contact_layout)
    have "STRING_HEAP_OFFSET + unat nb + length ?d \<le> length (vs_mem w)"
      using Cons.prems(2,4) b d by (simp add: contact_layout)
    from storage_write_in [OF Cons.prems(1) this] obtain w1 where
      w1: "storage_write vs (STRING_HEAP_OFFSET + unat nb) ?d w = (Inr (), w1)" "vs_ok w1"
      and m: "vs_mem w1 = splice (vs_mem w) (STRING_HEAP_OFFSET + unat nb) ?d" .
    have nb: "unat (sat_add32 nb (ucast (sr_len r))) = unat nb + ?n"
      using Cons.prems(4) b by (simp add: unat_sat_add32 unat_ucast)
    have len: "CONTACT_STORE_END \<le> length (vs_mem w1)" using Cons.prems(2,4) b d by (simp add: m contact_layout)
    from Cons.IH [OF w1(2) len b(4), of "sat_add32 nb (ucast (sr_len r))"] nb Cons.prems(4) b(1) obtain rs' nb' w' where
      ih: "compact_refs vs rs (sat_add32 nb (ucast (sr_len r))) w1 = (Inr (), rs', nb', w')"
      "map (ref_bytes (vs_mem w')) rs' = map (ref_bytes (vs_mem w1)) rs"
      "\<forall>off n. off + n \<le> STRING_HEAP_OFFSET + (unat nb + ?n) \<longrightarrow> slice off n (vs_mem w') = slice off n (vs_mem w1)"
      by auto
    have later: "ref_bytes (vs_mem w1) x = ref_bytes (vs_mem w) x" if "x \<in> set rs" for x
      using refs_ascend_ref [OF b(4) that]
    proof
      assume "?o + ?n \<le> unat (sr_offset x) \<and> unat (sr_offset x) + unat (sr_len x) \<le> 65536"
      then show ?thesis using Cons.prems(2,4) b d unfolding ref_bytes_def m
        by (intro slice_splice_disjoint) (auto simp: contact_layout ref_bytes_def)
    qed simp
    have here: "slice (STRING_HEAP_OFFSET + unat nb) ?n (vs_mem w') = ?d"
    proof -
      have "slice (STRING_HEAP_OFFSET + unat nb) ?n (vs_mem w') = slice (STRING_HEAP_OFFSET + unat nb) ?n (vs_mem w1)"
        using ih(3) by simp
      also have "\<dots> = ?d" using Cons.prems(2,4) b d unfolding m by (intro slice_splice_same) (simp_all add: contact_layout)
      finally show ?thesis .
    qed
    have below: "slice off n (vs_mem w') = slice off n (vs_mem w)" if "off + n \<le> STRING_HEAP_OFFSET + unat nb" for off n
    proof -
      have "slice off n (vs_mem w') = slice off n (vs_mem w1)" using ih(3) that by simp
      also have "\<dots> = slice off n (vs_mem w)"
        using that Cons.prems(2,4) b d unfolding m by (intro slice_splice_disjoint) (simp_all add: contact_layout)
      finally show ?thesis .
    qed
    have "compact_refs vs (r # rs) nb w = (Inr (), r\<lparr>sr_offset := nb\<rparr> # rs', nb', w')"
      using False b Cons.prems(4) read w1(1) ih(1) by simp
    moreover have "map (ref_bytes (vs_mem w')) (r\<lparr>sr_offset := nb\<rparr> # rs') = map (ref_bytes (vs_mem w)) (r # rs)"
      using here ih(2) later by (simp add: ref_bytes_def)
    ultimately show ?thesis using below by blast
  qed
qed simp

lemma compact_refs_swapped:
  assumes "vs_ok w" and "CONTACT_STORE_END \<le> length (vs_mem w)"
    and "rs = [\<lparr>sr_offset = 4, sr_len = 4\<rparr>, \<lparr>sr_offset = 0, sr_len = 4\<rparr>]"
  shows "\<exists>rs' nb' w'. compact_refs vs rs 0 w = (Inr (), rs', nb', w') \<and>
    map (ref_bytes (vs_mem w')) rs' = [ref_bytes (vs_mem w) (rs ! 0), ref_bytes (vs_mem w) (rs ! 0)]"
proof -
  let ?H = STRING_HEAP_OFFSET and ?d = "slice (STRING_HEAP_OFFSET + 4) 4 (vs_mem w)"
  have h: "?H + 8 \<le> length (vs_mem w)" using assms(2) by (simp add: contact_layout)
  then have d: "length ?d = 4" by simp
  from h d have "?H + length ?d \<le> length (vs_mem w)" by simp
  from storage_write_in [OF assms(1) this] obtain w1 where
    w1: "storage_write vs ?H ?d w = (Inr (), w1)" "vs_ok w1" "vs_mem w1 = splice (vs_mem w) ?H ?d" .
  from h d w1(3) have r2: "slice ?H 4 (vs_mem w1) = ?d" by (simp add: slice_splice_same)
  have l1: "?H + 4 + length ?d \<le> length (vs_mem w1)" using h d by (simp add: w1(3))
  from storage_write_in [OF w1(2) l1] obtain w2 where
    w2: "storage_write vs (?H + 4) ?d w1 = (Inr (), w2)" "vs_ok w2" "vs_mem w2 = splice (vs_mem w1) (?H + 4) ?d" .
  have "slice ?H 4 (vs_mem w2) = ?d" using h d r2 w1(3) unfolding w2(3) by (simp add: slice_splice_disjoint)
  moreover have "slice (?H + 4) 4 (vs_mem w2) = ?d" using h d w1(3) unfolding w2(3) by (simp add: slice_splice_same)
  moreover have "sat_add32 0 (ucast (4 :: u16)) = 4" by (simp add: sat_add32_def)
  ultimately show ?thesis
    using storage_read_in [OF assms(1), of "?H + 4" 4] storage_read_in [OF w1(2), of ?H 4] h d r2 w1 w2(1)
    by (simp add: assms(3) string_ref_is_empty_def ref_bytes_def)
qed

end

end
