(* ===== verification/Contact_Store.thy ===== *)
theory Contact_Store
  imports Contact_Index Contact_Regions Pin_Policy Kdf_Policy
begin

text \<open>
  The contact directory of \<open>crates/contact-store/src/store.rs\<close>: provisioning, the boot-time integrity
  gate, insertion, update, deletion, the lookups and the PIN-gated key. The fields of
  \<open>ContactStore<S, C>\<close> that methods change are \<open>contact_store\<close>; its storage and counter act on a world
  \<open>'w\<close>, and \<open>contact_env\<close> holds them together with the third-party functions (CRC, HKDF, keyed
  BLAKE3, AES-GCM). A hasher that is updated piece by piece is the keyed hash of the concatenation.
\<close>

section \<open>State\<close>

record 'w contact_env =
  ce_storage :: "'w vault_storage"
  ce_counter :: "'w monotonic_counter"
  ce_crc :: "bytes \<Rightarrow> u32"
  ce_hkdf :: "bytes \<Rightarrow> bytes \<Rightarrow> string \<Rightarrow> nat \<Rightarrow> bytes option"
  ce_keyed_hash :: "bytes \<Rightarrow> bytes \<Rightarrow> bytes"
  ce_gcm_decrypt :: "bytes \<Rightarrow> bytes \<Rightarrow> bytes \<Rightarrow> bytes option"

record contact_store =
  cs_index :: contact_index
  cs_integrity_gate :: bool
  cs_integrity_register :: bytes
  cs_master_key :: bytes
  cs_string_heap :: string_heap
  cs_key_region :: key_material_region
  cs_timing_log :: timing_log

record new_contact =
  nc_fingerprint :: bytes
  nc_callsign :: bytes
  nc_dmr_id :: u32
  nc_key_algo :: key_algo
  nc_public_key :: bytes
  nc_email :: bytes
  nc_display_name :: "bytes option"
  nc_own_identity :: bool
  nc_pin_protected :: bool
  nc_pin_verifier :: "bytes option"
  nc_pin_nonce :: "bytes option"
  nc_pin_tag :: "bytes option"

record contact_update =
  cu_callsign :: "bytes option"
  cu_dmr_id :: "u32 option"
  cu_email :: "bytes option"
  cu_display_name :: "bytes option"
  cu_last_fetched :: "u32 option"
  cu_stale :: "bool option"

type_synonym ('w, 'a) store_result = "(contact_store_error + 'a) \<times> contact_store \<times> 'w"

definition contact_store_new :: "bytes \<Rightarrow> contact_store" where
  "contact_store_new master_key = \<lparr>cs_index = index_new, cs_integrity_gate = False,
     cs_integrity_register = replicate 32 0, cs_master_key = master_key,
     cs_string_heap = string_heap_new, cs_key_region = key_region_new,
     cs_timing_log = timing_log_new\<rparr>"

definition slot_index_from_u8 :: "u8 \<Rightarrow> contact_store_error + u8" where
  "slot_index_from_u8 v = (if unat v \<ge> CONTACT_SLOT_COUNT then Inl InvalidSlot else Inr v)"

text \<open>A storage operation inside a method of the store.\<close>

definition on_world ::
  "('w \<Rightarrow> (contact_store_error + 'a) \<times> 'w) \<Rightarrow> contact_store \<times> 'w \<Rightarrow> ('w, 'a) store_result" where
  "on_world f s = (case s of (st, w) \<Rightarrow> (case f w of (r, w') \<Rightarrow> (r, st, w')))"

text \<open>Collecting results in order; the first error ends the collection.\<close>

fun those_results :: "('e + 'a) list \<Rightarrow> 'e + 'a list" where
  "those_results [] = Inr []"
| "those_results (r # rs) = res_bind r (\<lambda>x. res_bind (those_results rs) (\<lambda>xs. Inr (x # xs)))"

section \<open>Markers, records and regions\<close>

definition read_provision_marker :: "'w contact_env \<Rightarrow> 'w \<Rightarrow> contact_store_error + u32" where
  "read_provision_marker E w =
     res_bind (storage_read (ce_storage E) CONTACT_STORE_PROVISION_MARKER_OFFSET 4 w)
       (\<lambda>b. Inr (rd_u32_le b 0))"

definition write_provision_marker :: "'w contact_env \<Rightarrow> u32 \<Rightarrow> 'w \<Rightarrow> (contact_store_error + unit) \<times> 'w" where
  "write_provision_marker E v w =
     storage_write (ce_storage E) CONTACT_STORE_PROVISION_MARKER_OFFSET (u32_le v) w"

definition load_integrity_register :: "'w contact_env \<Rightarrow> contact_store \<times> 'w \<Rightarrow> ('w, unit) store_result" where
  "load_integrity_register E s =
     (case s of (st, w) \<Rightarrow>
        (case storage_read (ce_storage E) CONTACT_STORE_INTEGRITY_OFFSET 32 w of
           Inl e \<Rightarrow> (Inl e, st, w)
         | Inr b \<Rightarrow> (Inr (), st\<lparr>cs_integrity_register := b\<rparr>, w)))"

definition persist_integrity_register :: "'w contact_env \<Rightarrow> contact_store \<times> 'w \<Rightarrow> ('w, unit) store_result" where
  "persist_integrity_register E s =
     on_world (storage_write (ce_storage E) CONTACT_STORE_INTEGRITY_OFFSET
       (cs_integrity_register (fst s))) s"

fun zero_region :: "'w contact_env \<Rightarrow> nat \<Rightarrow> nat \<Rightarrow> 'w \<Rightarrow> (contact_store_error + unit) \<times> 'w" where
  "zero_region E pos remaining w =
     (if remaining > 0 then
        let chunk = min remaining 256 in
        case storage_write (ce_storage E) pos (replicate chunk 0) w of
          (Inl e, w1) \<Rightarrow> (Inl e, w1)
        | (Inr _, w1) \<Rightarrow> zero_region E (pos + chunk) (remaining - chunk) w1
      else (Inr (), w))"

declare zero_region.simps [simp del]

definition gate :: "contact_store \<Rightarrow> contact_store_error + unit" where
  "gate st = (if \<not> cs_integrity_gate st then Inl NotInitialised else Inr ())"

definition record_offset :: "u8 \<Rightarrow> nat" where
  "record_offset slot = CONTACT_RECORD_ARRAY_OFFSET + unat slot * CONTACT_RECORD_BYTES"

definition read_record :: "'w contact_env \<Rightarrow> u8 \<Rightarrow> 'w \<Rightarrow> contact_store_error + contact_record" where
  "read_record E slot w =
     res_bind (storage_read (ce_storage E) (record_offset slot) CONTACT_RECORD_BYTES w) (\<lambda>buf.
       if take 4 buf \<noteq> u32_le CONTACT_RECORD_MAGIC then Inr contact_record_default
       else from_bytes_verified (ce_crc E) buf)"

definition write_record ::
  "'w contact_env \<Rightarrow> u8 \<Rightarrow> contact_record \<Rightarrow> 'w \<Rightarrow> (contact_store_error + unit) \<times> 'w" where
  "write_record E slot rec w = storage_write (ce_storage E) (record_offset slot) (as_bytes rec) w"

fun write_defaults_to :: "'w contact_env \<Rightarrow> nat list \<Rightarrow> 'w \<Rightarrow> (contact_store_error + unit) \<times> 'w" where
  "write_defaults_to E [] w = (Inr (), w)"
| "write_defaults_to E (slot # slots) w =
     st_bind (write_record E (of_nat slot) contact_record_default w) (\<lambda>_. write_defaults_to E slots)"

section \<open>Integrity digest\<close>

fun digest_records :: "'w contact_env \<Rightarrow> nat list \<Rightarrow> bytes \<Rightarrow> 'w \<Rightarrow> contact_store_error + bytes" where
  "digest_records E [] acc w = Inr acc"
| "digest_records E (slot # slots) acc w =
     res_bind (storage_read (ce_storage E) (record_offset (of_nat slot)) CONTACT_RECORD_BYTES w) (\<lambda>buf.
       if take 4 buf = u32_le CONTACT_RECORD_MAGIC
       then (if \<not> record_crc_ok (ce_crc E) buf then Inl CorruptRecord
             else digest_records E slots (acc @ buf) w)
       else digest_records E slots acc w)"

function digest_log :: "'w contact_env \<Rightarrow> nat \<Rightarrow> nat \<Rightarrow> bytes \<Rightarrow> 'w \<Rightarrow> contact_store_error + bytes" where
  "digest_log E pos fin acc w =
     (if pos < fin then
        (if pos + 256 > fin then Inr acc
         else case storage_read (ce_storage E) pos 256 w of
             Inl e \<Rightarrow> Inl e
           | Inr buf \<Rightarrow> digest_log E (pos + 256) fin (acc @ buf) w)
      else Inr acc)"
  by pat_completeness auto

termination
  by (relation "measure (\<lambda>(E, pos, fin, acc, w). fin - pos)") auto

declare digest_log.simps [simp del]

definition compute_integrity_digest :: "'w contact_env \<Rightarrow> contact_store \<Rightarrow> 'w \<Rightarrow> contact_store_error + bytes" where
  "compute_integrity_digest E st w =
     res_bind (map_err (\<lambda>_. Crypto)
       (derive_subkey_sha512 (ce_hkdf E) (cs_master_key st) [] ContactStoreIntegrity 32)) (\<lambda>key.
     res_bind (digest_records E [0..<CONTACT_SLOT_COUNT] [] w) (\<lambda>acc.
     res_bind (digest_log E TIMING_LOG_OFFSET (TIMING_LOG_OFFSET + TIMING_LOG_BYTES) acc w) (\<lambda>acc.
     Inr (ce_keyed_hash E key acc))))"

definition update_integrity :: "'w contact_env \<Rightarrow> contact_store \<times> 'w \<Rightarrow> ('w, unit) store_result" where
  "update_integrity E s =
     (case s of (st, w) \<Rightarrow>
        (case compute_integrity_digest E st w of
           Inl e \<Rightarrow> (Inl e, st, w)
         | Inr d \<Rightarrow> persist_integrity_register E (st\<lparr>cs_integrity_register := d\<rparr>, w)))"

definition verify_integrity :: "'w contact_env \<Rightarrow> contact_store \<times> 'w \<Rightarrow> ('w, unit) store_result" where
  "verify_integrity E s =
     (case s of (st, w) \<Rightarrow>
        (case read_provision_marker E w of
           Inl e \<Rightarrow> (Inl e, st, w)
         | Inr marker \<Rightarrow>
             if marker = 0 then (Inl NotProvisioned, st\<lparr>cs_integrity_gate := False\<rparr>, w)
             else st_bind (load_integrity_register E (st, w)) (\<lambda>_ (st, w).
               case compute_integrity_digest E st w of
                 Inl e \<Rightarrow> (Inl e, st, w)
               | Inr digest \<Rightarrow>
                   if \<not> bool_of_choice (ct_eq digest (cs_integrity_register st))
                   then (Inl IntegrityMismatch, st\<lparr>cs_integrity_gate := False\<rparr>, w)
                   else (Inr (), st\<lparr>cs_integrity_gate := True\<rparr>, w))))"

section \<open>Provisioning and boot\<close>

definition provision_fresh ::
  "'w contact_env \<Rightarrow> 'w monotonic_counter \<Rightarrow> contact_store \<times> 'w \<Rightarrow> ('w, unit) store_result" where
  "provision_fresh E counter s =
     st_bind (load_integrity_register E s) (\<lambda>_ (st, w).
     if \<not> list_all (\<lambda>b. b = 0) (cs_integrity_register st) then (Inl AlreadyProvisioned, st, w)
     else case read_provision_marker E w of
         Inl e \<Rightarrow> (Inl e, st, w)
       | Inr marker \<Rightarrow>
           if marker \<noteq> 0 then (Inl AlreadyProvisioned, st, w)
           else
             st_bind (on_world (write_defaults_to E [0..<CONTACT_SLOT_COUNT]) (st, w)) (\<lambda>_ s.
             st_bind (on_world (zero_region E STRING_HEAP_OFFSET STRING_HEAP_BYTES) s) (\<lambda>_ s.
             st_bind (on_world (zero_region E KEY_REGION_OFFSET KEY_REGION_BYTES) s) (\<lambda>_ s.
             st_bind (on_world (zero_region E TIMING_LOG_OFFSET TIMING_LOG_BYTES) s) (\<lambda>_ (st, w).
             let st = st\<lparr>cs_string_heap := string_heap_new, cs_key_region := key_region_new,
                         cs_timing_log := timing_log_new, cs_index := index_new\<rparr> in
             case compute_integrity_digest E st w of
               Inl e \<Rightarrow> (Inl e, st, w)
             | Inr d \<Rightarrow>
                 st_bind (persist_integrity_register E (st\<lparr>cs_integrity_register := d\<rparr>, w)) (\<lambda>_ s.
                 st_bind (on_world (\<lambda>w. case mc_increment counter w of
                            (r, w') \<Rightarrow> (map_err (\<lambda>_. CounterError) r, w')) s) (\<lambda>_ s.
                 st_bind (on_world (write_provision_marker E 1) s) (\<lambda>_ (st, w).
                 (Inr (), st\<lparr>cs_integrity_gate := True\<rparr>, w)))))))))"

definition max_ref_end :: "u32 \<Rightarrow> string_ref \<Rightarrow> u32" where
  "max_ref_end b r =
     (if \<not> string_ref_is_empty r then max b (sat_add32 (sr_offset r) (ucast (sr_len r))) else b)"

definition scan_bump_step :: "u32 \<times> u32 \<Rightarrow> contact_record \<Rightarrow> u32 \<times> u32" where
  "scan_bump_step p rec =
     (case p of (heap_bump, key_bump) \<Rightarrow>
        if \<not> is_active rec then (heap_bump, key_bump)
        else (foldl max_ref_end heap_bump (string_refs rec),
              if cr_key_len rec > 0
              then max key_bump (sat_add32 (cr_key_offset rec) (ucast (cr_key_len rec)))
              else key_bump))"

definition scan_bumps :: "contact_record list \<Rightarrow> u32 \<times> u32" where
  "scan_bumps recs = foldl scan_bump_step (0, 0) recs"

fun boot_records :: "'w contact_env \<Rightarrow> nat list \<Rightarrow> 'w \<Rightarrow> contact_store_error + contact_record list" where
  "boot_records E [] w = Inr []"
| "boot_records E (slot # slots) w =
     res_bind (storage_read (ce_storage E) (record_offset (of_nat slot)) CONTACT_RECORD_BYTES w) (\<lambda>buf.
     res_bind (if take 4 buf = u32_le CONTACT_RECORD_MAGIC then from_bytes_verified (ce_crc E) buf
               else Inr contact_record_default) (\<lambda>rec.
     res_bind (boot_records E slots w) (\<lambda>recs. Inr (rec # recs))))"

definition init_on_boot :: "'w contact_env \<Rightarrow> contact_store \<times> 'w \<Rightarrow> ('w, unit) store_result" where
  "init_on_boot E s =
     (case s of (st, w) \<Rightarrow>
        (case boot_records E [0..<54] w of
           Inl e \<Rightarrow> (Inl e, st, w)
         | Inr records \<Rightarrow>
             (case scan_bumps records of (hb, kb) \<Rightarrow>
                verify_integrity E
                  (st\<lparr>cs_string_heap := heap_set_bump hb (cs_string_heap st),
                      cs_key_region := key_set_bump kb (cs_key_region st),
                      cs_index := rebuild_from_records (cs_index st) records\<rparr>, w))))"

section \<open>Mutations\<close>

definition alloc_string :: "'w contact_env \<Rightarrow> bytes \<Rightarrow> contact_store \<times> 'w \<Rightarrow> ('w, string_ref) store_result" where
  "alloc_string E bs s =
     (case s of (st, w) \<Rightarrow>
        if length bs > MAX_STRING_FIELD_BYTES then (Inl StringTooLong, st, w)
        else case heap_alloc (ce_storage E) bs (cs_string_heap st) w of
          (r, h, w') \<Rightarrow> (r, st\<lparr>cs_string_heap := h\<rparr>, w'))"

definition alloc_key :: "'w contact_env \<Rightarrow> bytes \<Rightarrow> contact_store \<times> 'w \<Rightarrow> ('w, u32 \<times> u16) store_result" where
  "alloc_key E bs s =
     (case s of (st, w) \<Rightarrow>
        (case key_alloc (ce_storage E) bs (cs_key_region st) w of
           (r, k, w') \<Rightarrow> (r, st\<lparr>cs_key_region := k\<rparr>, w')))"

fun find_empty_slot :: "'w contact_env \<Rightarrow> nat list \<Rightarrow> 'w \<Rightarrow> contact_store_error + u8" where
  "find_empty_slot E [] w = Inl RecipientSlotsFull"
| "find_empty_slot E (slot # slots) w =
     res_bind (storage_read (ce_storage E) (record_offset (of_nat slot)) 4 w) (\<lambda>buf.
       if rd_u32_le buf 0 \<noteq> CONTACT_RECORD_MAGIC then Inr (of_nat slot) else find_empty_slot E slots w)"

definition find_empty_recipient_slot :: "'w contact_env \<Rightarrow> 'w \<Rightarrow> contact_store_error + u8" where
  "find_empty_recipient_slot E w =
     find_empty_slot E [RECIPIENT_SLOT_START..<RECIPIENT_SLOT_START + RECIPIENT_SLOT_COUNT] w"

definition find_empty_own_slot :: "'w contact_env \<Rightarrow> 'w \<Rightarrow> contact_store_error + u8" where
  "find_empty_own_slot E w = find_empty_slot E [0..<4] w"

definition pin_fields :: "new_contact \<Rightarrow> contact_store_error + bytes \<times> bytes \<times> bytes" where
  "pin_fields n =
     (if nc_pin_protected n
      then res_bind (ok_or PinFailed (nc_pin_verifier n)) (\<lambda>pv.
        Inr (pv, (case nc_pin_nonce n of Some x \<Rightarrow> x | None \<Rightarrow> replicate 12 0),
                 (case nc_pin_tag n of Some x \<Rightarrow> x | None \<Rightarrow> replicate 16 0)))
      else Inr (replicate 32 0, replicate 12 0, replicate 16 0))"

definition new_record ::
  "new_contact \<Rightarrow> u32 \<Rightarrow> u16 \<Rightarrow> bytes \<Rightarrow> bytes \<Rightarrow> bytes \<Rightarrow> string_ref \<Rightarrow> string_ref \<Rightarrow> contact_record" where
  "new_record n key_off key_len pin_verifier pin_nonce pin_tag email display_name =
     contact_record_default\<lparr>cr_magic := CONTACT_RECORD_MAGIC,
       cr_flags := (if nc_own_identity n then ACTIVE OR SELF_KEY else ACTIVE),
       cr_key_algo := key_algo_to_wire (nc_key_algo n),
       cr_pin_protected := (if nc_pin_protected n then 1 else 0),
       cr_fingerprint := nc_fingerprint n, cr_callsign := nc_callsign n, cr_dmr_id := nc_dmr_id n,
       cr_key_offset := key_off, cr_key_len := key_len, cr_pin_nonce := pin_nonce,
       cr_pin_tag := pin_tag, cr_source_map := field_source_set 0 FIELD_EMAIL HostVerified,
       cr_pin_verifier := pin_verifier, cr_email := email, cr_display_name := display_name\<rparr>"

definition store_insert :: "'w contact_env \<Rightarrow> new_contact \<Rightarrow> contact_store \<times> 'w \<Rightarrow> ('w, u8) store_result" where
  "store_insert E n s =
     (case s of (st, w) \<Rightarrow>
        (case res_bind (gate st) (\<lambda>_.
                if nc_own_identity n then find_empty_own_slot E w else find_empty_recipient_slot E w) of
           Inl e \<Rightarrow> (Inl e, st, w)
         | Inr slot \<Rightarrow>
             st_bind (alloc_key E (nc_public_key n) (st, w)) (\<lambda>(key_off, key_len) (st, w).
             case pin_fields n of
               Inl e \<Rightarrow> (Inl e, st, w)
             | Inr (pin_verifier, pin_nonce, pin_tag) \<Rightarrow>
                 st_bind (alloc_string E (nc_email n) (st, w)) (\<lambda>email s.
                 st_bind (case nc_display_name n of
                            Some name \<Rightarrow> alloc_string E name s
                          | None \<Rightarrow> (Inr string_ref_default, s)) (\<lambda>display_name s.
                 let rec = recompute_crc (ce_crc E)
                       (new_record n key_off key_len pin_verifier pin_nonce pin_tag email display_name) in
                 st_bind (on_world (write_record E slot rec) s) (\<lambda>_ (st, w).
                 case index_insert (cs_index st) (cr_fingerprint rec) slot (contact_flags rec) of
                   (Inl e, ix) \<Rightarrow> (Inl e, st\<lparr>cs_index := ix\<rparr>, w)
                 | (Inr _, ix) \<Rightarrow>
                     st_bind (update_integrity E (st\<lparr>cs_index := ix\<rparr>, w)) (\<lambda>_ s. (Inr slot, s))))))))"

definition opt_alloc ::
  "'w contact_env \<Rightarrow> bytes option \<Rightarrow> string_ref \<Rightarrow> contact_store \<times> 'w \<Rightarrow> ('w, string_ref) store_result" where
  "opt_alloc E x old s = (case x of None \<Rightarrow> (Inr old, s) | Some bs \<Rightarrow> alloc_string E bs s)"

definition opt_or :: "'a option \<Rightarrow> 'a \<Rightarrow> 'a" where
  "opt_or x d = (case x of None \<Rightarrow> d | Some y \<Rightarrow> y)"

text \<open>The STALE flag of an update; \<open>f -= STALE\<close> clears the bit.\<close>

definition stale_flags :: "bool \<Rightarrow> u8 \<Rightarrow> u8" where
  "stale_flags stale f = (if stale then f OR STALE else f AND NOT STALE)"

definition store_update ::
  "'w contact_env \<Rightarrow> u8 \<Rightarrow> contact_update \<Rightarrow> contact_store \<times> 'w \<Rightarrow> ('w, unit) store_result" where
  "store_update E slot u s =
     (case s of (st, w) \<Rightarrow>
        (case res_bind (gate st) (\<lambda>_. read_record E slot w) of
           Inl e \<Rightarrow> (Inl e, st, w)
         | Inr rec \<Rightarrow>
             if \<not> is_active rec then (Inl InvalidSlot, st, w)
             else
               let rec = rec\<lparr>cr_callsign := opt_or (cu_callsign u) (cr_callsign rec),
                             cr_dmr_id := opt_or (cu_dmr_id u) (cr_dmr_id rec)\<rparr> in
               st_bind (opt_alloc E (cu_email u) (cr_email rec) (st, w)) (\<lambda>email s.
               st_bind (opt_alloc E (cu_display_name u) (cr_display_name rec) s) (\<lambda>name (st, w).
               let rec = rec\<lparr>cr_email := email, cr_display_name := name,
                             cr_last_fetched := opt_or (cu_last_fetched u) (cr_last_fetched rec)\<rparr>;
                   (rec, st) = (case cu_stale u of
                       None \<Rightarrow> (rec, st)
                     | Some stale \<Rightarrow>
                         let f = stale_flags stale (contact_flags rec) in
                         (set_contact_flags f rec,
                          st\<lparr>cs_index := index_update_flags (cs_index st) slot f\<rparr>));
                   rec = recompute_crc (ce_crc E) rec in
               st_bind (on_world (write_record E slot rec) (st, w)) (\<lambda>_ s. update_integrity E s)))))"

definition store_delete :: "'w contact_env \<Rightarrow> u8 \<Rightarrow> contact_store \<times> 'w \<Rightarrow> ('w, unit) store_result" where
  "store_delete E slot s =
     (case s of (st, w) \<Rightarrow>
        (case gate st of
           Inl e \<Rightarrow> (Inl e, st, w)
         | Inr _ \<Rightarrow>
             st_bind (on_world (write_record E slot contact_record_default) (st, w)) (\<lambda>_ (st, w).
               update_integrity E (st\<lparr>cs_index := index_remove (cs_index st) slot\<rparr>, w))))"

definition timing_log_append ::
  "'w contact_env \<Rightarrow> u8 \<Rightarrow> u32 \<Rightarrow> contact_store \<times> 'w \<Rightarrow> ('w, unit) store_result" where
  "timing_log_append E slot last_fetched s =
     (case s of (st, w) \<Rightarrow>
        (case res_bind (gate st) (\<lambda>_. those_results (map (\<lambda>i. read_record E (of_nat i) w) [0..<CONTACT_SLOT_COUNT])) of
           Inl e \<Rightarrow> (Inl e, st, w)
         | Inr records \<Rightarrow>
             (case log_append (ce_crc E) (ce_storage E) (ce_counter E) (cs_timing_log st) slot
                     last_fetched records w of
                (r, l, _, w') \<Rightarrow> (r, st\<lparr>cs_timing_log := l\<rparr>, w'))))"

definition timing_log_read_entry ::
  "'w contact_env \<Rightarrow> nat \<Rightarrow> contact_store \<times> 'w \<Rightarrow> contact_store_error + timing_log_entry" where
  "timing_log_read_entry E i s =
     res_bind (gate (fst s)) (\<lambda>_. log_read_entry (ce_crc E) (ce_storage E) i (snd s))"

section \<open>Lookups\<close>

definition lookup_slot_by_fp :: "'w contact_env \<Rightarrow> bytes \<Rightarrow> contact_store \<times> 'w \<Rightarrow> contact_store_error + u8" where
  "lookup_slot_by_fp E fp s =
     (case s of (st, w) \<Rightarrow>
        res_bind (gate st) (\<lambda>_.
        res_bind (ok_or SlotNotFound (lookup_prefix (cs_index st) (take 16 fp))) (\<lambda>slot.
        res_bind (read_record E slot w) (\<lambda>rec.
          if \<not> bool_of_choice (ct_eq (cr_fingerprint rec) fp) then Inl SlotNotFound else Inr slot))))"

definition lookup_by_fingerprint ::
  "'w contact_env \<Rightarrow> bytes \<Rightarrow> contact_store \<times> 'w \<Rightarrow> contact_store_error + contact_record" where
  "lookup_by_fingerprint E fp s =
     res_bind (lookup_slot_by_fp E fp s) (\<lambda>slot. read_record E slot (snd s))"

fun lookup_loop ::
  "'w contact_env \<Rightarrow> (contact_record \<Rightarrow> contact_store_error + bool) \<Rightarrow> nat list \<Rightarrow> 'w \<Rightarrow>
   contact_store_error + contact_record" where
  "lookup_loop E hit [] w = Inl SlotNotFound"
| "lookup_loop E hit (slot # slots) w =
     res_bind (read_record E (of_nat slot) w) (\<lambda>rec.
     res_bind (hit rec) (\<lambda>b. if b then Inr rec else lookup_loop E hit slots w))"

definition lookup_by_callsign ::
  "'w contact_env \<Rightarrow> bytes \<Rightarrow> contact_store \<times> 'w \<Rightarrow> contact_store_error + contact_record" where
  "lookup_by_callsign E callsign s =
     res_bind (gate (fst s)) (\<lambda>_.
       lookup_loop E (\<lambda>rec. Inr (is_active rec \<and> bool_of_choice (ct_eq (cr_callsign rec) callsign)))
         [0..<CONTACT_SLOT_COUNT] (snd s))"

definition lookup_by_dmr_id ::
  "'w contact_env \<Rightarrow> u32 \<Rightarrow> contact_store \<times> 'w \<Rightarrow> contact_store_error + contact_record" where
  "lookup_by_dmr_id E dmr_id s =
     res_bind (gate (fst s)) (\<lambda>_.
       if dmr_id = 0 then Inl SlotNotFound
       else lookup_loop E (\<lambda>rec. Inr (is_active rec \<and> cr_dmr_id rec = dmr_id))
         [0..<CONTACT_SLOT_COUNT] (snd s))"

definition email_hit :: "'w contact_env \<Rightarrow> bytes \<Rightarrow> 'w \<Rightarrow> contact_record \<Rightarrow> contact_store_error + bool" where
  "email_hit E target w rec =
     (if \<not> is_active rec \<or> string_ref_is_empty (cr_email rec) then Inr False
      else if unat (sr_len (cr_email rec)) > 256 then Inr False
      else res_bind (heap_read (ce_storage E) (cr_email rec)
                       (replicate (unat (sr_len (cr_email rec))) 0) w)
             (\<lambda>buf. Inr (buf = target)))"

definition lookup_by_email ::
  "'w contact_env \<Rightarrow> bytes \<Rightarrow> contact_store \<times> 'w \<Rightarrow> contact_store_error + contact_record" where
  "lookup_by_email E email s =
     res_bind (gate (fst s)) (\<lambda>_.
       lookup_loop E (email_hit E email (snd s)) [0..<CONTACT_SLOT_COUNT] (snd s))"

record contact_list_iter =
  li_items :: "(u8 \<times> bytes) list"
  li_len :: u8
  li_pos :: u8

fun list_items :: "'w contact_env \<Rightarrow> index_entry list \<Rightarrow> 'w \<Rightarrow> contact_store_error + (u8 \<times> bytes) list" where
  "list_items E [] w = Inr []"
| "list_items E (e # es) w =
     res_bind (read_record E (ie_slot e) w) (\<lambda>rec.
     res_bind (list_items E es w) (\<lambda>xs. Inr ((ie_slot e, cr_fingerprint rec) # xs)))"

definition store_list :: "'w contact_env \<Rightarrow> contact_store \<times> 'w \<Rightarrow> contact_store_error + contact_list_iter" where
  "store_list E s =
     res_bind (gate (fst s)) (\<lambda>_.
     res_bind (list_items E (index_iter (cs_index (fst s))) (snd s)) (\<lambda>xs.
       Inr \<lparr>li_items = splice (replicate 54 (0, replicate 32 0)) 0 xs,
            li_len = of_nat (length xs), li_pos = 0\<rparr>))"

definition list_next ::
  "contact_list_iter \<Rightarrow> (contact_store_error + u8 \<times> bytes) option \<times> contact_list_iter" where
  "list_next it =
     (let n = unat (li_pos it) in
      if n \<ge> unat (li_len it) then (None, it)
      else (case li_items it ! n of (slot, fp) \<Rightarrow>
        (Some (res_bind (slot_index_from_u8 slot) (\<lambda>s. Inr (s, fp))), it\<lparr>li_pos := li_pos it + 1\<rparr>)))"

section \<open>Key material\<close>

definition store_read_public_key ::
  "'w contact_env \<Rightarrow> u8 \<Rightarrow> contact_store \<times> 'w \<Rightarrow> contact_store_error + public_key_blob" where
  "store_read_public_key E slot s =
     (case s of (st, w) \<Rightarrow>
        res_bind (gate st) (\<lambda>_.
        res_bind (read_record E slot w) (\<lambda>rec.
          if cr_pin_protected rec \<noteq> 0 then Inl PinRequired
          else res_bind (key_read (ce_storage E) (cr_key_offset rec) (cr_key_len rec)
                           (replicate MAX_PUBLIC_KEY_BYTES 0) w) (\<lambda>buf.
               public_key_blob_from_slice (take (unat (cr_key_len rec)) buf)))))"

definition aes_gcm_decrypt ::
  "'w contact_env \<Rightarrow> bytes \<Rightarrow> bytes \<Rightarrow> bytes \<Rightarrow> bytes \<Rightarrow> nat \<Rightarrow> contact_store_error + bytes" where
  "aes_gcm_decrypt E key nonce tag ciphertext out_len =
     (if length ciphertext + 16 > out_len then Inl Crypto
      else res_bind (ok_or Crypto (ce_gcm_decrypt E key nonce (ciphertext @ tag))) (\<lambda>plain.
        if length plain > out_len then Inl Crypto else Inr plain))"

definition unlock_pin_protected ::
  "'w contact_env \<Rightarrow> ('w \<Rightarrow> 'w) \<Rightarrow> u8 \<Rightarrow> pin_buffer \<Rightarrow> pin_policy_machine \<Rightarrow> contact_store \<times> 'w \<Rightarrow>
   (contact_store_error + public_key_blob) \<times> pin_policy_machine \<times> contact_store \<times> 'w" where
  "unlock_pin_protected E zeroise slot pin machine s =
     (case s of (st, w) \<Rightarrow>
        (case res_bind (gate st) (\<lambda>_. read_record E slot w) of
           Inl e \<Rightarrow> (Inl e, machine, st, w)
         | Inr rec \<Rightarrow>
             if cr_pin_protected rec = 0 then (store_read_public_key E slot (st, w), machine, st, w)
             else case submit_attempt (ce_counter E) zeroise
                         (\<lambda>_. pin_compare (pin_buffer_as_slice pin) (cr_pin_verifier rec)) machine w of
                 (Inl _, m, w1) \<Rightarrow> (Inl CounterError, m, st, w1)
               | (Inr outcome, m, w1) \<Rightarrow>
                   if outcome \<noteq> Success then (Inl PinFailed, m, st, w1)
                   else
                     (res_bind (map_err (\<lambda>_. Crypto) (derive_subkey_sha512 (ce_hkdf E)
                        (cs_master_key st) [] ContactKeyWrap 32)) (\<lambda>wrap_key.
                      res_bind (key_read (ce_storage E) (cr_key_offset rec) (cr_key_len rec)
                        (replicate MAX_PUBLIC_KEY_BYTES 0) w1) (\<lambda>ct.
                      res_bind (aes_gcm_decrypt E wrap_key (cr_pin_nonce rec) (cr_pin_tag rec)
                        (take (unat (cr_key_len rec)) ct) MAX_PUBLIC_KEY_BYTES)
                        public_key_blob_from_slice)), m, st, w1)))"

end
