(* ===== verification/Contact_Directory.thy ===== *)
theory Contact_Directory
  imports Contact_Store
begin

text \<open>
  The memory of the contact store read as a partial map from slots to contacts, with the strings and
  keys the records point to (\<open>directory\<close>), and what a write to one region leaves alone. The effect of
  each mutation on the map is stated here (\<open>contact_from\<close>, \<open>apply_update\<close>, \<open>insert_spec\<close>,
  \<open>update_spec\<close>); the theory \<open>Contact_Invariant\<close> shows that the code has it.
\<close>

section \<open>The memory as a directory\<close>

definition slot_bytes :: "bytes \<Rightarrow> nat \<Rightarrow> bytes" where
  "slot_bytes m s = slice (CONTACT_RECORD_ARRAY_OFFSET + s * CONTACT_RECORD_BYTES) CONTACT_RECORD_BYTES m"

definition stored :: "(bytes \<Rightarrow> u32) \<Rightarrow> bytes \<Rightarrow> contact_store_error + contact_record" where
  "stored crc bs = (if take 4 bs \<noteq> u32_le CONTACT_RECORD_MAGIC then Inr contact_record_default
     else from_bytes_verified crc bs)"

definition slot_record :: "(bytes \<Rightarrow> u32) \<Rightarrow> bytes \<Rightarrow> nat \<Rightarrow> contact_record" where
  "slot_record crc m s =
     (case stored crc (slot_bytes m s) of Inr r \<Rightarrow> r | Inl _ \<Rightarrow> contact_record_default)"

definition slot_records :: "(bytes \<Rightarrow> u32) \<Rightarrow> bytes \<Rightarrow> (nat \<times> contact_record) list" where
  "slot_records crc m = map (\<lambda>s. (s, slot_record crc m s)) [0..<54]"

definition digest_input :: "bytes \<Rightarrow> bytes" where
  "digest_input m =
     concat (map (\<lambda>s. if take 4 (slot_bytes m s) = u32_le CONTACT_RECORD_MAGIC then slot_bytes m s else [])
       [0..<54]) @ slice TIMING_LOG_OFFSET TIMING_LOG_BYTES m"

definition key_bytes :: "bytes \<Rightarrow> contact_record \<Rightarrow> bytes" where
  "key_bytes m r = slice (KEY_REGION_OFFSET + unat (cr_key_offset r)) (unat (cr_key_len r)) m"

record contact =
  c_flags :: u8
  c_key_algo :: u8
  c_pin_protected :: bool
  c_fingerprint :: bytes
  c_callsign :: bytes
  c_dmr_id :: u32
  c_pin :: "bytes \<times> bytes \<times> bytes"
  c_last_fetched :: u32
  c_source_map :: u64
  c_strings :: "bytes list"
  c_key :: bytes

definition contact_of :: "bytes \<Rightarrow> contact_record \<Rightarrow> contact" where
  "contact_of m r = \<lparr>c_flags = contact_flags r, c_key_algo = cr_key_algo r,
     c_pin_protected = (cr_pin_protected r \<noteq> 0), c_fingerprint = cr_fingerprint r,
     c_callsign = cr_callsign r, c_dmr_id = cr_dmr_id r,
     c_pin = (cr_pin_verifier r, cr_pin_nonce r, cr_pin_tag r), c_last_fetched = cr_last_fetched r,
     c_source_map = cr_source_map r, c_strings = map (ref_bytes m) (string_refs r),
     c_key = key_bytes m r\<rparr>"

definition directory :: "(bytes \<Rightarrow> u32) \<Rightarrow> bytes \<Rightarrow> nat \<Rightarrow> contact option" where
  "directory crc m s =
     (if s < 54 \<and> is_active (slot_record crc m s) then Some (contact_of m (slot_record crc m s)) else None)"

definition records_readable :: "(bytes \<Rightarrow> u32) \<Rightarrow> bytes \<Rightarrow> bool" where
  "records_readable crc m \<longleftrightarrow> (\<forall>s < 54. \<exists>r. stored crc (slot_bytes m s) = Inr r)"

text \<open>A slot without an active record does not carry the magic number, so an insertion may take it.\<close>

definition free_unmarked :: "(bytes \<Rightarrow> u32) \<Rightarrow> bytes \<Rightarrow> bool" where
  "free_unmarked crc m \<longleftrightarrow> (\<forall>s < 54. \<not> is_active (slot_record crc m s) \<longrightarrow>
     take 4 (slot_bytes m s) \<noteq> u32_le CONTACT_RECORD_MAGIC)"

definition refs_below :: "string_heap \<Rightarrow> key_material_region \<Rightarrow> contact_record \<Rightarrow> bool" where
  "refs_below h k r \<longleftrightarrow>
     (\<forall>s \<in> set (string_refs r). sr_len s \<noteq> 0 \<longrightarrow> unat (sr_offset s) + unat (sr_len s) \<le> unat (sh_bump h)) \<and>
     (cr_key_len r \<noteq> 0 \<longrightarrow> unat (cr_key_offset r) + unat (cr_key_len r) \<le> unat (kr_bump k))"

section \<open>Bytes that a write leaves alone\<close>

text \<open>\<open>same_dir m m'\<close>: the record array, the log and the marker are the same.\<close>

definition same_dir :: "bytes \<Rightarrow> bytes \<Rightarrow> bool" where
  "same_dir m m' \<longleftrightarrow> length m' = length m \<and> (\<forall>s < 54. slot_bytes m' s = slot_bytes m s) \<and>
     slice TIMING_LOG_OFFSET TIMING_LOG_BYTES m' = slice TIMING_LOG_OFFSET TIMING_LOG_BYTES m \<and>
     slice CONTACT_STORE_PROVISION_MARKER_OFFSET 4 m' = slice CONTACT_STORE_PROVISION_MARKER_OFFSET 4 m"

lemma same_dir_refl [simp]: "same_dir m m"
  by (simp add: same_dir_def)

lemma same_dir_splice:
  assumes "CONTACT_STORE_END \<le> length m" and "STRING_HEAP_OFFSET \<le> off"
    and "off + length d \<le> TIMING_LOG_OFFSET \<or>
      CONTACT_STORE_INTEGRITY_OFFSET \<le> off \<and> off + length d \<le> length m"
  shows "same_dir m (splice m off d)"
  using assms by (auto simp: same_dir_def slot_bytes_def contact_layout intro!: slice_splice_disjoint)

lemma slots_same:
  assumes b: "\<And>s. s < 54 \<Longrightarrow> slot_bytes m' s = slot_bytes m s"
  shows "records_readable crc m' = records_readable crc m \<and> free_unmarked crc m' = free_unmarked crc m"
    and "s < 54 \<Longrightarrow> slot_record crc m' s = slot_record crc m s"
    and "slot_records crc m' = slot_records crc m"
    and "slice TIMING_LOG_OFFSET TIMING_LOG_BYTES m' = slice TIMING_LOG_OFFSET TIMING_LOG_BYTES m \<Longrightarrow>
      digest_input m' = digest_input m"
proof -
  show "records_readable crc m' = records_readable crc m \<and> free_unmarked crc m' = free_unmarked crc m"
    by (simp add: records_readable_def free_unmarked_def slot_record_def b)
  show "slot_record crc m' s = slot_record crc m s" if "s < 54" for s
    using b [OF that] by (simp add: slot_record_def)
  then show "slot_records crc m' = slot_records crc m" by (simp add: slot_records_def)
  have c: "map (\<lambda>s. if take 4 (slot_bytes m' s) = u32_le CONTACT_RECORD_MAGIC then slot_bytes m' s else []) [0..<54] =
    map (\<lambda>s. if take 4 (slot_bytes m s) = u32_le CONTACT_RECORD_MAGIC then slot_bytes m s else []) [0..<54]"
    by (rule map_cong) (simp_all add: b)
  show "digest_input m' = digest_input m"
    if "slice TIMING_LOG_OFFSET TIMING_LOG_BYTES m' = slice TIMING_LOG_OFFSET TIMING_LOG_BYTES m"
    unfolding digest_input_def c using that by simp
qed

lemma same_dir_records:
  assumes "same_dir m m'"
  shows "digest_input m' = digest_input m"
    and "records_readable crc m' = records_readable crc m \<and> free_unmarked crc m' = free_unmarked crc m"
    and "s < 54 \<Longrightarrow> slot_record crc m' s = slot_record crc m s"
    and "slot_records crc m' = slot_records crc m"
  using assms slots_same [of m' m] by (simp_all add: same_dir_def)

lemma length_slot_bytes: "CONTACT_STORE_END \<le> length m \<Longrightarrow> s < 54 \<Longrightarrow> length (slot_bytes m s) = 256"
  by (simp add: slot_bytes_def contact_layout)

lemma slot_bytes_write:
  assumes "CONTACT_STORE_END \<le> length m" and "s < 54" and "t < 54" and "length d = 256"
  shows "slot_bytes (splice m (CONTACT_RECORD_ARRAY_OFFSET + s * 256) d) t = (if t = s then d else slot_bytes m t)"
proof (cases "t = s")
  case True
  with assms show ?thesis by (simp add: slot_bytes_def contact_layout slice_splice_same)
next
  case False
  then have "t * 256 + 256 \<le> s * 256 \<or> s * 256 + 256 \<le> t * 256" by linarith
  with False assms show ?thesis
    by (auto simp: slot_bytes_def contact_layout intro!: slice_splice_disjoint)
qed

lemma region_slices_write:
  assumes "CONTACT_STORE_END \<le> length m" and "s < 54" and "length d = 256"
    and "STRING_HEAP_OFFSET \<le> off" and "off + n \<le> CONTACT_STORE_END"
  shows "slice off n (splice m (CONTACT_RECORD_ARRAY_OFFSET + s * 256) d) = slice off n m"
  using assms by (intro slice_splice_disjoint) (auto simp: contact_layout)

lemma active_magic: "is_active r \<Longrightarrow> cr_magic r = CONTACT_RECORD_MAGIC"
  by (simp add: is_active_def)

lemma default_inactive [simp]: "\<not> is_active contact_record_default"
  by (simp add: is_active_def contact_record_default_def CONTACT_RECORD_MAGIC_def)

lemma record_ok_default [simp]: "record_ok contact_record_default"
  by (simp add: record_ok_def contact_record_default_def)

lemma u32_le_inject: "u32_le a = u32_le b \<longleftrightarrow> a = b"
  by (metis rd_u32_le_self)

lemma default_magic: "cr_magic contact_record_default \<noteq> CONTACT_RECORD_MAGIC"
  by (simp add: contact_record_default_def CONTACT_RECORD_MAGIC_def)

lemma default_unmarked: "take 4 (as_bytes contact_record_default) \<noteq> u32_le CONTACT_RECORD_MAGIC"
  by (simp add: take_magic u32_le_inject default_magic)

text \<open>What reading a slot gives after the record \<open>r\<close> was written to it.\<close>

definition storable :: "(bytes \<Rightarrow> u32) \<Rightarrow> contact_record \<Rightarrow> bool" where
  "storable crc r \<longleftrightarrow> record_ok r \<and> (cr_magic r = CONTACT_RECORD_MAGIC \<longrightarrow> cr_crc32c r = crc (record_body r)) \<and>
     (is_active r \<longrightarrow> (\<exists>a. key_algo_from_wire (cr_key_algo r) = Inr a)) \<and>
     (cr_magic r \<noteq> CONTACT_RECORD_MAGIC \<longrightarrow> r = contact_record_default)"

lemma stored_as_bytes:
  assumes "storable crc r"
  shows "stored crc (as_bytes r) = Inr r"
proof (cases "cr_magic r = CONTACT_RECORD_MAGIC")
  case True
  with assms have "stored crc (as_bytes r) = from_bytes_verified crc (as_bytes r)"
    by (simp add: stored_def take_magic storable_def)
  also have "\<dots> = Inr r"
    using assms True by (auto simp: from_bytes_verified_as_bytes storable_def)
  finally show ?thesis .
next
  case False
  with assms have "r = contact_record_default" by (simp add: storable_def)
  with False show ?thesis by (simp add: stored_def take_magic u32_le_inject)
qed

lemma storable_default: "storable crc contact_record_default"
  by (simp add: storable_def default_magic)

lemma stored_Inr_storable:
  assumes "stored crc bs = Inr r" and "length bs = 256"
  shows "storable crc r"
proof (cases "take 4 bs = u32_le CONTACT_RECORD_MAGIC")
  case False
  with assms show ?thesis by (simp add: stored_def storable_default)
next
  case True
  with assms have v: "from_bytes_verified crc bs = Inr r" by (simp add: stored_def)
  from from_bytes_verified_Inr [OF v assms(2)] have r: "as_bytes r = bs" "record_ok r" "record_crc_ok crc bs"
    by simp_all
  from r True have m: "cr_magic r = CONTACT_RECORD_MAGIC" using take_magic [of r] by (simp add: u32_le_inject)
  from r have "cr_crc32c r = crc (record_body r)" using record_crc_ok_as_bytes [of r crc] by simp
  moreover from v have "is_active r \<longrightarrow> (\<exists>a. key_algo_from_wire (cr_key_algo r) = Inr a)"
    by (auto simp: from_bytes_verified_def Let_def res_bind_eq_Inr active_magic split: if_splits)
  ultimately show ?thesis using r m by (simp add: storable_def)
qed

section \<open>New contacts\<close>

definition new_contact_ok :: "new_contact \<Rightarrow> bool" where
  "new_contact_ok n \<longleftrightarrow> length (nc_fingerprint n) = 32 \<and> length (nc_callsign n) = 12 \<and>
     (\<forall>x. nc_pin_verifier n = Some x \<longrightarrow> length x = 32) \<and> (\<forall>x. nc_pin_nonce n = Some x \<longrightarrow> length x = 12) \<and>
     (\<forall>x. nc_pin_tag n = Some x \<longrightarrow> length x = 16)"

definition contact_from :: "new_contact \<Rightarrow> contact" where
  "contact_from n = \<lparr>c_flags = (if nc_own_identity n then ACTIVE OR SELF_KEY else ACTIVE),
     c_key_algo = key_algo_to_wire (nc_key_algo n), c_pin_protected = nc_pin_protected n,
     c_fingerprint = nc_fingerprint n, c_callsign = nc_callsign n, c_dmr_id = nc_dmr_id n,
     c_pin = (case pin_fields n of Inr p \<Rightarrow> p | Inl _ \<Rightarrow> ([], [], [])), c_last_fetched = 0,
     c_source_map = field_source_set 0 FIELD_EMAIL HostVerified,
     c_strings = [nc_email n, opt_or (nc_display_name n) []] @ replicate 13 [], c_key = nc_public_key n\<rparr>"

text \<open>The slot found by an insertion.\<close>

definition slot_range :: "bool \<Rightarrow> nat set" where
  "slot_range own = (if own then {0..<4} else {4..<54})"

text \<open>The input is within the limits and the regions have room for it.\<close>

definition insert_fits :: "new_contact \<Rightarrow> contact_store \<Rightarrow> bool" where
  "insert_fits n st \<longleftrightarrow>
     length (nc_public_key n) \<le> MAX_PUBLIC_KEY_BYTES \<and>
     unat (kr_bump (cs_key_region st)) + length (nc_public_key n) \<le> KEY_REGION_BYTES \<and>
     (nc_pin_protected n \<longrightarrow> nc_pin_verifier n \<noteq> None) \<and>
     length (nc_email n) \<le> MAX_STRING_FIELD_BYTES \<and> length (opt_or (nc_display_name n) []) \<le> MAX_STRING_FIELD_BYTES \<and>
     unat (sh_bump (cs_string_heap st)) + length (nc_email n) + length (opt_or (nc_display_name n) []) \<le> STRING_HEAP_BYTES"

definition insert_spec :: "new_contact \<Rightarrow> contact_store_error + u8 \<Rightarrow> (nat \<rightharpoonup> contact) \<Rightarrow> (nat \<rightharpoonup> contact) \<Rightarrow> bool" where
  "insert_spec n r D D' \<longleftrightarrow> (case r of Inl e \<Rightarrow> D' = D
     | Inr slot \<Rightarrow> unat slot \<in> slot_range (nc_own_identity n) \<and> D (unat slot) = None \<and>
         D' = D(unat slot \<mapsto> contact_from n))"

lemma flag_values:
  "flags_truncate (if own then ACTIVE OR SELF_KEY else ACTIVE) = (if own then ACTIVE OR SELF_KEY else ACTIVE)"
  "flags_contains (if own then ACTIVE OR SELF_KEY else ACTIVE) ACTIVE"
  by (simp_all add: flags_truncate_def flags_contains_def ACTIVE_def SELF_KEY_def REVOKED_def STALE_def)

lemma new_record_props:
  fixes n key_off key_len pv pn pt email name crc
  defines "rec \<equiv> recompute_crc crc (new_record n key_off key_len pv pn pt email name)"
  assumes "new_contact_ok n" and "pin_fields n = Inr (pv, pn, pt)"
  shows "storable crc rec" and "is_active rec" and "cr_fingerprint rec = nc_fingerprint n"
    and "string_refs rec = [email, name] @ replicate 13 string_ref_default"
    and "cr_key_offset rec = key_off" and "cr_key_len rec = key_len"
    and "ref_bytes m email = nc_email n \<Longrightarrow> ref_bytes m name = opt_or (nc_display_name n) [] \<Longrightarrow>
      slice (KEY_REGION_OFFSET + unat key_off) (unat key_len) m = nc_public_key n \<Longrightarrow>
      contact_of m rec = contact_from n"
proof -
  let ?r = "new_record n key_off key_len pv pn pt email name"
  have ok: "record_ok ?r"
    using assms by (auto simp: record_ok_def new_record_def contact_record_default_def new_contact_ok_def
        pin_fields_def res_bind_eq_Inr ok_or_def split: if_splits option.splits)
  then have rec: "rec = ?r\<lparr>cr_crc32c := crc (record_body ?r)\<rparr>" unfolding rec_def by (rule recompute_crc_eq)
  show active: "is_active rec"
    by (simp add: rec is_active_def new_record_def flag_values)
  show "storable crc rec"
    using ok active by (simp add: storable_def rec) (simp add: new_record_def)
  show "cr_fingerprint rec = nc_fingerprint n" "cr_key_offset rec = key_off" "cr_key_len rec = key_len"
    by (simp_all add: rec new_record_def)
  show refs: "string_refs rec = [email, name] @ replicate 13 string_ref_default"
    by (simp add: rec new_record_def string_refs_def contact_record_default_def eval_nat_numeral)
  show "contact_of m rec = contact_from n" if "ref_bytes m email = nc_email n"
    "ref_bytes m name = opt_or (nc_display_name n) []"
    "slice (KEY_REGION_OFFSET + unat key_off) (unat key_len) m = nc_public_key n"
    using that assms(3) unfolding contact_of_def refs
    by (simp add: rec contact_from_def key_bytes_def ref_bytes_def string_ref_default_def new_record_def
        contact_flags_def flag_values contact_record_default_def)
qed

section \<open>Updates\<close>

definition update_ok :: "contact_update \<Rightarrow> bool" where
  "update_ok u \<longleftrightarrow> (\<forall>x. cu_callsign u = Some x \<longrightarrow> length x = 12)"

definition apply_update :: "contact_update \<Rightarrow> contact \<Rightarrow> contact" where
  "apply_update u c = c\<lparr>c_callsign := opt_or (cu_callsign u) (c_callsign c),
     c_dmr_id := opt_or (cu_dmr_id u) (c_dmr_id c),
     c_strings := [opt_or (cu_email u) (c_strings c ! 0), opt_or (cu_display_name u) (c_strings c ! 1)] @ drop 2 (c_strings c),
     c_last_fetched := opt_or (cu_last_fetched u) (c_last_fetched c),
     c_flags := (case cu_stale u of None \<Rightarrow> c_flags c | Some b \<Rightarrow> stale_flags b (c_flags c))\<rparr>"

definition update_spec :: "nat \<Rightarrow> contact_update \<Rightarrow> contact_store_error + unit \<Rightarrow> (nat \<rightharpoonup> contact) \<Rightarrow> (nat \<rightharpoonup> contact) \<Rightarrow> bool" where
  "update_spec s u r D D' \<longleftrightarrow> (case r of Inl e \<Rightarrow> D' = D
     | Inr _ \<Rightarrow> \<exists>c. D s = Some c \<and> D' = D(s \<mapsto> apply_update u c))"

text \<open>The record an update writes, before its checksum.\<close>

definition updated_record :: "contact_update \<Rightarrow> string_ref \<Rightarrow> string_ref \<Rightarrow> contact_record \<Rightarrow> contact_record" where
  "updated_record u email name r =
     (let r = r\<lparr>cr_callsign := opt_or (cu_callsign u) (cr_callsign r), cr_dmr_id := opt_or (cu_dmr_id u) (cr_dmr_id r),
                cr_email := email, cr_display_name := name,
                cr_last_fetched := opt_or (cu_last_fetched u) (cr_last_fetched r)\<rparr> in
      case cu_stale u of None \<Rightarrow> r | Some b \<Rightarrow> set_contact_flags (stale_flags b (contact_flags r)) r)"

lemma store_update_eq:
  assumes "gate st = Inr ()" and "read_record E slot w = Inr rec" and "is_active rec"
  shows "store_update E slot u (st, w) =
    st_bind (opt_alloc E (cu_email u) (cr_email rec) (st, w)) (\<lambda>email s.
    st_bind (opt_alloc E (cu_display_name u) (cr_display_name rec) s) (\<lambda>name (st, w).
    st_bind (on_world (write_record E slot (recompute_crc (ce_crc E) (updated_record u email name rec)))
      (case cu_stale u of None \<Rightarrow> st | Some b \<Rightarrow>
         st\<lparr>cs_index := index_update_flags (cs_index st) slot (stale_flags b (contact_flags rec))\<rparr>, w))
      (\<lambda>_ s. update_integrity E s)))"
  using assms by (cases "cu_stale u")
    (simp_all add: store_update_def updated_record_def Let_def contact_flags_def)

lemma stale_flags_truncated: "flags_truncate (stale_flags b (flags_truncate f)) = stale_flags b (flags_truncate f)"
  unfolding flags_truncate_def stale_flags_def
  by (cases b) (simp_all add: ACTIVE_def SELF_KEY_def REVOKED_def STALE_def and.assoc bit.conj_disj_distrib2)

lemma stale_flags_active: "flags_contains (stale_flags b f) ACTIVE = flags_contains f ACTIVE"
  unfolding flags_contains_def stale_flags_def
  by (cases b) (simp_all add: ACTIVE_def STALE_def and.assoc bit.conj_disj_distrib2)

lemma updated_record_props:
  fixes u email name r crc
  defines "rec \<equiv> recompute_crc crc (updated_record u email name r)"
  assumes "storable crc r" and "is_active r" and "update_ok u"
  shows "storable crc rec" and "is_active rec" and "cr_fingerprint rec = cr_fingerprint r"
    and "string_refs rec = [email, name] @ drop 2 (string_refs r)"
    and "cr_key_offset rec = cr_key_offset r" and "cr_key_len rec = cr_key_len r"
    and "contact_flags rec = (case cu_stale u of None \<Rightarrow> contact_flags r | Some b \<Rightarrow> stale_flags b (contact_flags r))"
    and "ref_bytes m email = opt_or (cu_email u) (ref_bytes m (cr_email r)) \<Longrightarrow>
      ref_bytes m name = opt_or (cu_display_name u) (ref_bytes m (cr_display_name r)) \<Longrightarrow>
      contact_of m rec = apply_update u (contact_of m r)"
proof -
  let ?r = "updated_record u email name r"
  note defs = updated_record_def Let_def set_contact_flags_def
  have ok: "record_ok ?r"
    using assms by (auto simp: record_ok_def storable_def defs update_ok_def opt_or_def split: option.splits)
  then have rec: "rec = ?r\<lparr>cr_crc32c := crc (record_body ?r)\<rparr>" unfolding rec_def by (rule recompute_crc_eq)
  show flags: "contact_flags rec = (case cu_stale u of None \<Rightarrow> contact_flags r | Some b \<Rightarrow> stale_flags b (contact_flags r))"
    by (simp add: rec defs contact_flags_def stale_flags_truncated split: option.splits)
  have magic: "cr_magic rec = CONTACT_RECORD_MAGIC" "cr_key_algo rec = cr_key_algo r"
    using active_magic [OF assms(3)] by (simp_all add: rec defs split: option.splits)
  show active: "is_active rec"
    using assms(3) flags by (simp add: is_active_def magic contact_flags_def stale_flags_active split: option.splits)
  show "storable crc rec"
    using ok magic assms(2,3) by (simp add: storable_def) (simp add: rec)
  show "cr_fingerprint rec = cr_fingerprint r" "cr_key_offset rec = cr_key_offset r" "cr_key_len rec = cr_key_len r"
    by (simp_all add: rec defs split: option.splits)
  show refs: "string_refs rec = [email, name] @ drop 2 (string_refs r)"
    by (simp add: rec defs string_refs_def split: option.splits)
  show "contact_of m rec = apply_update u (contact_of m r)"
    if "ref_bytes m email = opt_or (cu_email u) (ref_bytes m (cr_email r))"
      "ref_bytes m name = opt_or (cu_display_name u) (ref_bytes m (cr_display_name r))"
    using that unfolding contact_of_def refs flags
    by (simp add: apply_update_def key_bytes_def string_refs_def)
      (simp add: rec defs split: option.splits)
qed

section \<open>The index entries of the active records\<close>

definition entries_of :: "(nat \<Rightarrow> contact_record) \<Rightarrow> nat list \<Rightarrow> index_entry list" where
  "entries_of R ss = active_entries (map (\<lambda>s. (s, R s)) ss)"

lemma entries_of_split:
  assumes "s < 54"
  shows "entries_of R [0..<54] = entries_of R [0..<s] @
    (if is_active (R s) then [entry_of s (R s)] else []) @ entries_of R [Suc s..<54]"
proof -
  have "[0..<54] = [0..<s] @ s # [Suc s..<54]"
    using assms upt_conv_Cons [of s 54] upt_add_eq_append [of 0 s "54 - s"] by simp
  then show ?thesis by (simp add: entries_of_def)
qed

lemma entries_of_upd: "s \<notin> set ss \<Longrightarrow> entries_of (R(s := r)) ss = entries_of R ss"
  unfolding entries_of_def by (rule arg_cong [of _ _ active_entries], rule map_cong) auto

lemma entries_of_slot:
  assumes "e \<in> set (entries_of R ss)" and "unat slot \<notin> set ss" and "\<forall>s \<in> set ss. s < 54"
  shows "ie_slot e \<noteq> slot"
proof
  assume slot: "ie_slot e = slot"
  from assms(1) obtain s where s: "s \<in> set ss" "ie_slot e = of_nat s"
    by (auto simp: entries_of_def active_entries_def entry_of_def)
  with assms(3) have "unat (ie_slot e) = s" by (auto simp: unat_of_nat_u8)
  with slot s assms(2) show False by simp
qed

lemma entries_after_insert:
  assumes "unat slot < 54" and "\<not> is_active (R (unat slot))" and "is_active r"
  shows "mset (entries_of (R(unat slot := r)) [0..<54]) =
    add_mset (entry_of (unat slot) r) (mset (entries_of R [0..<54]))"
  using assms by (simp add: entries_of_split [of "unat slot"] entries_of_upd)

lemma filter_other_slots:
  assumes "unat slot \<notin> set ss" and "\<forall>s \<in> set ss. s < 54"
  shows "filter (\<lambda>e. ie_slot e \<noteq> slot) (entries_of R ss) = entries_of R ss"
    and "map (\<lambda>e. if ie_slot e = slot then f e else e) (entries_of R ss) = entries_of R ss"
  using entries_of_slot [OF _ assms] by (auto intro: filter_True map_idI)

lemma entries_after_delete:
  assumes "unat slot < 54" and "\<not> is_active r"
  shows "entries_of (R(unat slot := r)) [0..<54] = filter (\<lambda>e. ie_slot e \<noteq> slot) (entries_of R [0..<54])"
  using assms by (simp add: entries_of_split [of "unat slot"] entries_of_upd filter_other_slots entry_of_def)

lemma entries_after_update:
  assumes "unat slot < 54" and "is_active (R (unat slot))" and "is_active r"
    and "cr_fingerprint r = cr_fingerprint (R (unat slot))"
  shows "entries_of (R(unat slot := r)) [0..<54] =
    map (\<lambda>e. if ie_slot e = slot then e\<lparr>ie_flags := contact_flags r\<rparr> else e) (entries_of R [0..<54])"
  using assms by (simp add: entries_of_split [of "unat slot"] entries_of_upd filter_other_slots entry_of_def)

lemma active_slot_records: "active_entries (slot_records crc m) = entries_of (slot_record crc m) [0..<54]"
  by (simp add: entries_of_def slot_records_def)

end
