(* ===== verification/Contact_Invariant.thy ===== *)
theory Contact_Invariant
  imports Contact_Directory
begin

text \<open>
  The invariant of the contact store. \<open>store_good\<close> says that every record is readable, that the stored
  digest is the one a reboot computes, that the index lists exactly the active records, and that no
  live string or key reaches beyond the bump pointers. In the locale \<open>contact_contract\<close>, over every
  storage that keeps its contract: provisioning establishes the invariant, every mutation keeps it and
  acts on the directory as specified, a reboot from such a memory opens the gate, and lookups read the
  directory. An append to the timing log changes the bytes under the digest without renewing it.
\<close>

section \<open>Bump pointers after a scan\<close>

lemma unat_max_word: "unat (max a b) = max (unat a) (unat (b :: u32))"
  by (simp add: max_def word_le_nat_alt)

lemma unat_sat_len: "unat a + unat (l :: u16) \<le> 65536 \<Longrightarrow> unat (sat_add32 a (ucast l)) = unat a + unat l"
  by (simp add: unat_sat_add32 unat_ucast)

lemma max_ref_end_ge: "unat b \<le> unat (max_ref_end b x)"
  by (simp add: max_ref_end_def unat_max_word)

lemma foldl_max_ref_end_ge: "unat b \<le> unat (foldl max_ref_end b rs)"
proof (induction rs arbitrary: b)
  case (Cons x rs)
  show ?case using max_ref_end_ge [of b x] Cons [of "max_ref_end b x"] by simp
qed simp

lemma foldl_max_ref_end:
  "r \<in> set rs \<Longrightarrow> sr_len r \<noteq> 0 \<Longrightarrow> unat (sr_offset r) + unat (sr_len r) \<le> 65536 \<Longrightarrow>
   unat (sr_offset r) + unat (sr_len r) \<le> unat (foldl max_ref_end b rs)"
proof (induction rs arbitrary: b)
  case (Cons x rs)
  show ?case
  proof (cases "r = x")
    case True
    with Cons.prems have "unat (sr_offset r) + unat (sr_len r) \<le> unat (max_ref_end b x)"
      by (simp add: max_ref_end_def string_ref_is_empty_def unat_max_word unat_sat_len)
    with foldl_max_ref_end_ge [of "max_ref_end b x" rs] show ?thesis by simp
  next
    case False
    with Cons.prems Cons.IH [of "max_ref_end b x"] show ?thesis by simp
  qed
qed simp

definition refs_fit :: "contact_record \<Rightarrow> bool" where
  "refs_fit r \<longleftrightarrow> refs_below \<lparr>sh_bump = 65536\<rparr> \<lparr>kr_bump = 65536\<rparr> r"

lemma scan_bump_step_below:
  assumes "scan_bump_step (h, k) r = (h', k')"
  shows "unat h \<le> unat h' \<and> unat k \<le> unat k' \<and>
    (is_active r \<longrightarrow> refs_fit r \<longrightarrow> refs_below \<lparr>sh_bump = h'\<rparr> \<lparr>kr_bump = k'\<rparr> r)"
  using assms foldl_max_ref_end_ge [of h "string_refs r"] foldl_max_ref_end [of _ "string_refs r" h]
  by (auto simp: scan_bump_step_def refs_fit_def refs_below_def unat_max_word unat_sat_len word_neq_0_conv
      split: if_splits)

lemma refs_below_mono:
  "refs_below \<lparr>sh_bump = h\<rparr> \<lparr>kr_bump = k\<rparr> r \<Longrightarrow> unat h \<le> unat h' \<Longrightarrow> unat k \<le> unat k' \<Longrightarrow>
   refs_below \<lparr>sh_bump = h'\<rparr> \<lparr>kr_bump = k'\<rparr> r"
  by (fastforce simp: refs_below_def)

lemma scan_bumps_below:
  assumes "foldl scan_bump_step (h, k) rs = (h', k')"
  shows "unat h \<le> unat h' \<and> unat k \<le> unat k' \<and>
    (\<forall>r \<in> set rs. is_active r \<longrightarrow> refs_fit r \<longrightarrow> refs_below \<lparr>sh_bump = h'\<rparr> \<lparr>kr_bump = k'\<rparr> r)"
  using assms
proof (induction rs arbitrary: h k)
  case (Cons r rs)
  obtain h1 k1 where s: "scan_bump_step (h, k) r = (h1, k1)" by fastforce
  note first = scan_bump_step_below [OF s]
  from Cons s have "unat h1 \<le> unat h' \<and> unat k1 \<le> unat k' \<and>
      (\<forall>r \<in> set rs. is_active r \<longrightarrow> refs_fit r \<longrightarrow> refs_below \<lparr>sh_bump = h'\<rparr> \<lparr>kr_bump = k'\<rparr> r)" by simp
  with first refs_below_mono [of h1 k1 r h' k'] show ?case by auto
qed simp

lemma refs_below_clamp:
  assumes "refs_below \<lparr>sh_bump = h\<rparr> \<lparr>kr_bump = k\<rparr> r" and "refs_fit r"
  shows "refs_below (heap_set_bump h sh) (key_set_bump k kr) r"
proof -
  have "unat (min h 65536) = min (unat h) 65536" "unat (min k 65536) = min (unat k) 65536"
    by (simp_all add: min_def word_le_nat_alt)
  with assms show ?thesis
    by (auto simp: refs_fit_def refs_below_def heap_set_bump_def key_set_bump_def)
qed

section \<open>The invariant\<close>

definition base_good ::
  "'w contact_env \<Rightarrow> ('w \<Rightarrow> bytes) \<Rightarrow> ('w \<Rightarrow> bool) \<Rightarrow> bytes \<Rightarrow> contact_store \<Rightarrow> 'w \<Rightarrow> bool" where
  "base_good E mem ok mk st w \<longleftrightarrow>
     ok w \<and> CONTACT_STORE_END \<le> length (mem w) \<and> cs_integrity_gate st \<and> cs_master_key st = mk \<and>
     records_readable (ce_crc E) (mem w) \<and> free_unmarked (ce_crc E) (mem w) \<and>
     unat (sh_bump (cs_string_heap st)) \<le> STRING_HEAP_BYTES \<and> unat (kr_bump (cs_key_region st)) \<le> KEY_REGION_BYTES \<and>
     (\<forall>s < 54. is_active (slot_record (ce_crc E) (mem w) s) \<longrightarrow>
        refs_below (cs_string_heap st) (cs_key_region st) (slot_record (ce_crc E) (mem w) s)) \<and>
     rd_u32_le (slice CONTACT_STORE_PROVISION_MARKER_OFFSET 4 (mem w)) 0 \<noteq> 0"

definition index_lists :: "contact_index \<Rightarrow> (nat \<times> contact_record) list \<Rightarrow> bool" where
  "index_lists ix rs \<longleftrightarrow> index_ok ix \<and> mset (live ix) = mset (active_entries rs)"

definition store_good ::
  "'w contact_env \<Rightarrow> ('w \<Rightarrow> bytes) \<Rightarrow> ('w \<Rightarrow> bool) \<Rightarrow> bytes \<Rightarrow> bytes \<Rightarrow> contact_store \<Rightarrow> 'w \<Rightarrow> bool" where
  "store_good E mem ok mk key st w \<longleftrightarrow>
     base_good E mem ok mk st w \<and> index_lists (cs_index st) (slot_records (ce_crc E) (mem w)) \<and>
     slice CONTACT_STORE_INTEGRITY_OFFSET 32 (mem w) = ce_keyed_hash E key (digest_input (mem w))"

lemma base_good_same_dir:
  assumes "base_good E mem ok mk st w" and "ok w'" and "same_dir (mem w) (mem w')"
    and "cs_integrity_gate st' = cs_integrity_gate st" "cs_master_key st' = cs_master_key st"
    and "unat (sh_bump (cs_string_heap st)) \<le> unat (sh_bump (cs_string_heap st'))"
    and "unat (kr_bump (cs_key_region st)) \<le> unat (kr_bump (cs_key_region st'))"
    and "unat (sh_bump (cs_string_heap st')) \<le> STRING_HEAP_BYTES" "unat (kr_bump (cs_key_region st')) \<le> KEY_REGION_BYTES"
  shows "base_good E mem ok mk st' w'"
  using assms same_dir_records(2,3) [OF assms(3)]
  by (fastforce simp: base_good_def same_dir_def refs_below_def)

text \<open>
  Between two points of a method that only allocates: the directory is the same and everything below
  the bump pointers is kept.
\<close>

definition frame :: "contact_store \<Rightarrow> bytes \<Rightarrow> contact_store \<Rightarrow> bytes \<Rightarrow> bool" where
  "frame st m st' m' \<longleftrightarrow> same_dir m m' \<and> cs_index st' = cs_index st \<and>
     cs_integrity_gate st' = cs_integrity_gate st \<and> cs_master_key st' = cs_master_key st \<and>
     unat (sh_bump (cs_string_heap st)) \<le> unat (sh_bump (cs_string_heap st')) \<and>
     unat (kr_bump (cs_key_region st)) \<le> unat (kr_bump (cs_key_region st')) \<and>
     (\<forall>off n. off + n \<le> unat (sh_bump (cs_string_heap st)) \<longrightarrow>
        slice (STRING_HEAP_OFFSET + off) n m' = slice (STRING_HEAP_OFFSET + off) n m) \<and>
     (\<forall>off n. off + n \<le> unat (kr_bump (cs_key_region st)) \<longrightarrow>
        slice (KEY_REGION_OFFSET + off) n m' = slice (KEY_REGION_OFFSET + off) n m)"

lemma frame_refl [simp]: "frame st m st m"
  by (simp add: frame_def)

lemma frame_trans: "frame st m st1 m1 \<Longrightarrow> frame st1 m1 st2 m2 \<Longrightarrow> frame st m st2 m2"
  by (clarsimp simp: frame_def same_dir_def)

lemma contact_of_slices:
  assumes "\<And>off n. STRING_HEAP_OFFSET \<le> off \<Longrightarrow> off + n \<le> CONTACT_STORE_INTEGRITY_OFFSET \<Longrightarrow> slice off n m' = slice off n m"
    and "refs_below h k r" and "unat (sh_bump h) \<le> STRING_HEAP_BYTES" and "unat (kr_bump k) \<le> KEY_REGION_BYTES"
  shows "contact_of m' r = contact_of m r"
proof -
  have "ref_bytes m' s = ref_bytes m s" if "s \<in> set (string_refs r)" for s
    using that assms(2-4) by (cases "sr_len s = 0")
      (auto simp: ref_bytes_def refs_below_def contact_layout intro!: assms(1) [unfolded contact_layout])
  moreover have "key_bytes m' r = key_bytes m r"
    using assms(2-4) by (cases "cr_key_len r = 0")
      (auto simp: key_bytes_def refs_below_def contact_layout intro!: assms(1) [unfolded contact_layout])
  ultimately show ?thesis by (simp add: contact_of_def)
qed

lemma frame_contact_of:
  assumes "frame st m st' m'" and "refs_below (cs_string_heap st) (cs_key_region st) r"
  shows "contact_of m' r = contact_of m r"
proof -
  have "ref_bytes m' s = ref_bytes m s" if "s \<in> set (string_refs r)" for s
    using that assms by (cases "sr_len s = 0") (auto simp: ref_bytes_def frame_def refs_below_def)
  moreover have "key_bytes m' r = key_bytes m r"
    using assms by (cases "cr_key_len r = 0") (auto simp: key_bytes_def frame_def refs_below_def)
  ultimately show ?thesis by (simp add: contact_of_def)
qed

lemma frame_refs_below:
  "frame st m st' m' \<Longrightarrow> refs_below (cs_string_heap st) (cs_key_region st) r \<Longrightarrow>
   refs_below (cs_string_heap st') (cs_key_region st') r"
  by (fastforce simp: frame_def refs_below_def)

lemma frame_directory:
  assumes "frame st (mem w) st' (mem w')" and "base_good E mem ok mk st w"
  shows "directory (ce_crc E) (mem w') = directory (ce_crc E) (mem w)"
proof
  fix s
  have "slot_record (ce_crc E) (mem w') s = slot_record (ce_crc E) (mem w) s" if "s < 54"
    using assms(1) that by (intro same_dir_records(3)) (simp add: frame_def)
  moreover have "contact_of (mem w') (slot_record (ce_crc E) (mem w) s) = contact_of (mem w) (slot_record (ce_crc E) (mem w) s)"
    if "s < 54" "is_active (slot_record (ce_crc E) (mem w) s)"
    using that assms(2) by (intro frame_contact_of [OF assms(1)]) (simp add: base_good_def)
  ultimately show "directory (ce_crc E) (mem w') s = directory (ce_crc E) (mem w) s"
    by (auto simp: directory_def)
qed

lemma good_directory:
  "store_good E mem ok mk key st w \<Longrightarrow> frame st (mem w) st' (mem w') \<Longrightarrow>
   directory (ce_crc E) (mem w') = directory (ce_crc E) (mem w)"
  unfolding store_good_def by (elim conjE) (rule frame_directory [where mem = mem])

lemma store_good_frame:
  assumes "store_good E mem ok mk key st w" and "ok w'" and "frame st (mem w) st' (mem w')"
    and "slice CONTACT_STORE_INTEGRITY_OFFSET 32 (mem w') = slice CONTACT_STORE_INTEGRITY_OFFSET 32 (mem w)"
    and "unat (sh_bump (cs_string_heap st')) \<le> STRING_HEAP_BYTES" "unat (kr_bump (cs_key_region st')) \<le> KEY_REGION_BYTES"
  shows "store_good E mem ok mk key st' w'"
proof -
  have dir: "same_dir (mem w) (mem w')" using assms(3) by (simp add: frame_def)
  have "base_good E mem ok mk st' w'"
    using assms by (intro base_good_same_dir [where mem = mem and w = w and w' = w' and st = st]) (simp_all add: store_good_def frame_def)
  with assms same_dir_records [OF dir] show ?thesis by (simp add: store_good_def frame_def)
qed

text \<open>
  What the store relies on: a storage that keeps the contract, a key derivation that gives the
  integrity key, and digests of 32 bytes.
\<close>

locale contact_contract = vault_contract "ce_storage E" mem ok
  for E :: "'w contact_env" and mem :: "'w \<Rightarrow> bytes" and ok :: "'w \<Rightarrow> bool" +
  fixes mk :: bytes and key :: bytes
  assumes hkdf: "ce_hkdf E [] mk (purpose_info ContactStoreIntegrity) 32 = Some key"
    and hash_length: "length (ce_keyed_hash E k d) = 32"
begin

lemma record_offset_in:
  "unat s < 54 \<Longrightarrow> CONTACT_STORE_END \<le> length m \<Longrightarrow> record_offset s + 256 \<le> length m"
  by (simp add: record_offset_def contact_layout)

lemma read_slot:
  "ok w \<Longrightarrow> CONTACT_STORE_END \<le> length (mem w) \<Longrightarrow> unat s < 54 \<Longrightarrow>
   storage_read (ce_storage E) (record_offset s) 256 w = Inr (slot_bytes (mem w) (unat s))"
  using storage_read_in [of w "record_offset s" 256] record_offset_in [of s "mem w"]
  by (simp add: slot_bytes_def record_offset_def)

lemma read_record_eq:
  "ok w \<Longrightarrow> CONTACT_STORE_END \<le> length (mem w) \<Longrightarrow> unat s < 54 \<Longrightarrow>
   read_record E s w = stored (ce_crc E) (slot_bytes (mem w) (unat s))"
  by (simp add: read_record_def read_slot stored_def)

lemma read_record_good:
  assumes "base_good E mem ok mk st w" and "unat s < 54"
  shows "read_record E s w = Inr (slot_record (ce_crc E) (mem w) (unat s))"
  using assms by (auto simp: base_good_def read_record_eq records_readable_def slot_record_def
      dest!: spec [of _ "unat s"])

lemma unat_slot: "s < 54 \<Longrightarrow> unat (of_nat s :: u8) = s"
  by (simp add: unat_of_nat_u8)

lemma digest_records_eq:
  assumes "ok w" and "CONTACT_STORE_END \<le> length (mem w)" and "records_readable (ce_crc E) (mem w)"
  shows "\<forall>s \<in> set slots. s < 54 \<Longrightarrow> digest_records E slots acc w = Inr (acc @ concat (map
    (\<lambda>s. if take 4 (slot_bytes (mem w) s) = u32_le CONTACT_RECORD_MAGIC then slot_bytes (mem w) s else []) slots))"
proof (induction slots arbitrary: acc)
  case (Cons s slots)
  then have s: "s < 54" by simp
  from assms(3) s obtain r where "stored (ce_crc E) (slot_bytes (mem w) s) = Inr r"
    by (auto simp: records_readable_def)
  then have "take 4 (slot_bytes (mem w) s) = u32_le CONTACT_RECORD_MAGIC \<Longrightarrow>
      record_crc_ok (ce_crc E) (slot_bytes (mem w) s)"
    by (auto simp: stored_def from_bytes_verified_def split: if_splits)
  with Cons s assms show ?case by (simp add: read_slot unat_slot)
qed simp

lemma digest_log_eq:
  assumes "ok w" and "fin \<le> length (mem w)"
  shows "pos + 256 * n = fin \<Longrightarrow> digest_log E pos fin acc w = Inr (acc @ slice pos (256 * n) (mem w))"
proof (induction n arbitrary: pos acc)
  case (Suc n)
  then have "storage_read (ce_storage E) pos 256 w = Inr (slice pos 256 (mem w))"
    using assms by (intro storage_read_in) simp_all
  moreover have "slice pos 256 (mem w) @ slice (pos + 256) (256 * n) (mem w) = slice pos (256 * Suc n) (mem w)"
    by (simp add: slice_join)
  ultimately show ?case using Suc by (subst digest_log.simps) simp
qed (simp add: digest_log.simps)

lemma compute_digest_eq:
  assumes "ok w" and "CONTACT_STORE_END \<le> length (mem w)" and "records_readable (ce_crc E) (mem w)"
    and "cs_master_key st = mk"
  shows "compute_integrity_digest E st w = Inr (ce_keyed_hash E key (digest_input (mem w)))"
  using assms hkdf digest_log_eq [of w "TIMING_LOG_OFFSET + 16384" TIMING_LOG_OFFSET 64]
  by (simp add: compute_integrity_digest_def derive_subkey_sha512_def digest_records_eq digest_input_def
      contact_layout)

lemma update_integrity_good:
  assumes "base_good E mem ok mk st w" and "index_lists (cs_index st) (slot_records (ce_crc E) (mem w))"
  obtains st' w' where "update_integrity E (st, w) = (Inr (), st', w')" and "store_good E mem ok mk key st' w'"
    and "\<forall>off n. off + n \<le> CONTACT_STORE_INTEGRITY_OFFSET \<longrightarrow> slice off n (mem w') = slice off n (mem w)"
proof -
  let ?d = "ce_keyed_hash E key (digest_input (mem w))" and ?st = "st\<lparr>cs_integrity_register := ce_keyed_hash E key (digest_input (mem w))\<rparr>"
  have good: "ok w" "CONTACT_STORE_END \<le> length (mem w)" "records_readable (ce_crc E) (mem w)" "cs_master_key st = mk"
    using assms(1) by (simp_all add: base_good_def)
  have "CONTACT_STORE_INTEGRITY_OFFSET + length ?d \<le> length (mem w)"
    using good by (simp add: hash_length contact_layout)
  from storage_write_in [OF good(1) this] obtain w' where
    w: "storage_write (ce_storage E) CONTACT_STORE_INTEGRITY_OFFSET ?d w = (Inr (), w')" and "ok w'"
    and m: "mem w' = splice (mem w) CONTACT_STORE_INTEGRITY_OFFSET ?d" .
  have u: "update_integrity E (st, w) = (Inr (), ?st, w')"
    by (simp add: update_integrity_def compute_digest_eq [OF good] persist_integrity_register_def on_world_def w)
  have same: "slice off n (mem w') = slice off n (mem w)" if "off + n \<le> CONTACT_STORE_INTEGRITY_OFFSET" for off n
    using that good unfolding m by (intro slice_splice_disjoint) (simp_all add: hash_length contact_layout)
  have dir: "same_dir (mem w) (mem w')"
    using good unfolding m by (intro same_dir_splice) (simp_all add: hash_length contact_layout)
  have i: "slice CONTACT_STORE_INTEGRITY_OFFSET 32 (mem w') = ?d"
    using good unfolding m by (intro slice_splice_same) (simp_all add: hash_length contact_layout)
  have "store_good E mem ok mk key ?st w'"
    using base_good_same_dir [OF assms(1) \<open>ok w'\<close> dir, of ?st] assms i same_dir_records [OF dir]
    by (simp add: store_good_def base_good_def)
  with u same that show ?thesis by simp
qed

lemma alloc_string_frame:
  assumes "store_good E mem ok mk key st w" and "alloc_string E bs (st, w) = (r, st', w')"
  shows "store_good E mem ok mk key st' w' \<and> frame st (mem w) st' (mem w') \<and>
    (\<forall>ref. r = Inr ref \<longrightarrow> ref_bytes (mem w') ref = bs \<and>
       unat (sr_offset ref) + unat (sr_len ref) \<le> unat (sh_bump (cs_string_heap st'))) \<and>
    (\<forall>e. r = Inl e \<longrightarrow> \<not> (length bs \<le> 240 \<and> unat (sh_bump (cs_string_heap st)) + length bs \<le> 65536)) \<and>
    unat (sh_bump (cs_string_heap st')) \<le> unat (sh_bump (cs_string_heap st)) + length bs"
proof (cases "length bs \<le> 240 \<and> unat (sh_bump (cs_string_heap st)) + length bs \<le> 65536")
  case False
  then have "\<exists>e. r = Inl e \<and> st' = st \<and> w' = w"
    using assms(2) by (auto simp: alloc_string_def heap_alloc_def Let_def unat_of_nat_u16 split: if_splits)
  with False assms(1) show ?thesis by auto
next
  case True
  let ?h = "cs_string_heap st"
  have good: "ok w" "CONTACT_STORE_END \<le> length (mem w)" "base_good E mem ok mk st w"
    using assms(1) by (simp_all add: store_good_def base_good_def)
  from True have "length bs < 65536" "unat (sh_bump ?h) + length bs \<le> 65536" by simp_all
  from heap_alloc_read [OF good(1,2) this] obtain w1 where
    a: "heap_alloc (ce_storage E) bs ?h w = (Inr \<lparr>sr_offset = sh_bump ?h, sr_len = of_nat (length bs)\<rparr>,
       ?h\<lparr>sh_bump := sh_bump ?h + of_nat (length bs)\<rparr>, w1)" and "ok w1"
    and m: "mem w1 = splice (mem w) (STRING_HEAP_OFFSET + unat (sh_bump ?h)) bs" .
  from assms(2) True a have res: "r = Inr \<lparr>sr_offset = sh_bump ?h, sr_len = of_nat (length bs)\<rparr>"
    "st' = st\<lparr>cs_string_heap := ?h\<lparr>sh_bump := sh_bump ?h + of_nat (length bs)\<rparr>\<rparr>" "w' = w1"
    by (simp_all add: alloc_string_def)
  have bump: "unat (sh_bump (cs_string_heap st')) = unat (sh_bump ?h) + length bs"
    using True by (simp add: res unat_add_len)
  have dir: "same_dir (mem w) (mem w')"
    using good True unfolding res m by (intro same_dir_splice) (auto simp: contact_layout)
  have outside: "slice off n (mem w') = slice off n (mem w)"
    if "off + n \<le> STRING_HEAP_OFFSET + unat (sh_bump ?h) \<or> KEY_REGION_OFFSET \<le> off" and "off + n \<le> CONTACT_STORE_END" for off n
    using that good True unfolding res m by (intro slice_splice_disjoint) (auto simp: contact_layout)
  have "\<forall>off n. off + n \<le> unat (sh_bump (cs_string_heap st)) \<longrightarrow>
      slice (STRING_HEAP_OFFSET + off) n (mem w') = slice (STRING_HEAP_OFFSET + off) n (mem w)"
    "\<forall>off n. off + n \<le> unat (kr_bump (cs_key_region st)) \<longrightarrow>
      slice (KEY_REGION_OFFSET + off) n (mem w') = slice (KEY_REGION_OFFSET + off) n (mem w)"
    using True good(3) by (intro allI impI outside; simp add: contact_layout base_good_def)+
  then have "frame st (mem w) st' (mem w')" using dir bump by (simp add: frame_def res)
  moreover have "store_good E mem ok mk key st' w'"
    using store_good_frame [OF assms(1) _ calculation] \<open>ok w1\<close> bump True outside [of CONTACT_STORE_INTEGRITY_OFFSET 32] good
    by (simp add: res contact_layout base_good_def)
  moreover have "ref_bytes (mem w') \<lparr>sr_offset = sh_bump ?h, sr_len = of_nat (length bs)\<rparr> = bs"
    using good True unfolding res m ref_bytes_def
    by (simp add: unat_of_nat_u16) (intro slice_splice_same, simp_all add: contact_layout)
  ultimately show ?thesis using bump True by (simp add: res unat_of_nat_u16)
qed

lemma alloc_key_frame:
  assumes "store_good E mem ok mk key st w" and "alloc_key E bs (st, w) = (r, st', w')"
  shows "store_good E mem ok mk key st' w' \<and> frame st (mem w) st' (mem w') \<and>
    (\<forall>off len. r = Inr (off, len) \<longrightarrow> slice (KEY_REGION_OFFSET + unat off) (unat len) (mem w') = bs \<and>
       unat off + unat len \<le> unat (kr_bump (cs_key_region st'))) \<and>
    (\<forall>e. r = Inl e \<longrightarrow> \<not> (length bs \<le> 768 \<and> unat (kr_bump (cs_key_region st)) + length bs \<le> 65536)) \<and>
    cs_string_heap st' = cs_string_heap st"
proof (cases "length bs \<le> 768 \<and> unat (kr_bump (cs_key_region st)) + length bs \<le> 65536")
  case False
  then have "\<exists>e. r = Inl e \<and> st' = st \<and> w' = w"
    using assms(2) by (auto simp: alloc_key_def key_alloc_def Let_def unat_of_nat_u16 split: if_splits)
  with False assms(1) show ?thesis by auto
next
  case True
  let ?k = "cs_key_region st"
  have good: "ok w" "CONTACT_STORE_END \<le> length (mem w)" "base_good E mem ok mk st w"
    using assms(1) by (simp_all add: store_good_def base_good_def)
  from True have "length bs \<le> 768" "unat (kr_bump ?k) + length bs \<le> 65536" by simp_all
  from key_alloc_read [OF good(1,2) this] obtain w1 where
    a: "key_alloc (ce_storage E) bs ?k w = (Inr (kr_bump ?k, of_nat (length bs)),
       ?k\<lparr>kr_bump := kr_bump ?k + of_nat (length bs)\<rparr>, w1)" and "ok w1"
    and m: "mem w1 = splice (mem w) (KEY_REGION_OFFSET + unat (kr_bump ?k)) bs" .
  from assms(2) a have res: "r = Inr (kr_bump ?k, of_nat (length bs))"
    "st' = st\<lparr>cs_key_region := ?k\<lparr>kr_bump := kr_bump ?k + of_nat (length bs)\<rparr>\<rparr>" "w' = w1"
    by (simp_all add: alloc_key_def)
  have bump: "unat (kr_bump (cs_key_region st')) = unat (kr_bump ?k) + length bs"
    using True by (simp add: res unat_add_len)
  have dir: "same_dir (mem w) (mem w')"
    using good True unfolding res m by (intro same_dir_splice) (auto simp: contact_layout)
  have outside: "slice off n (mem w') = slice off n (mem w)"
    if "off + n \<le> KEY_REGION_OFFSET + unat (kr_bump ?k) \<or> TIMING_LOG_OFFSET \<le> off" and "off + n \<le> CONTACT_STORE_END" for off n
    using that good True unfolding res m by (intro slice_splice_disjoint) (auto simp: contact_layout)
  have "\<forall>off n. off + n \<le> unat (sh_bump (cs_string_heap st)) \<longrightarrow>
      slice (STRING_HEAP_OFFSET + off) n (mem w') = slice (STRING_HEAP_OFFSET + off) n (mem w)"
    "\<forall>off n. off + n \<le> unat (kr_bump (cs_key_region st)) \<longrightarrow>
      slice (KEY_REGION_OFFSET + off) n (mem w') = slice (KEY_REGION_OFFSET + off) n (mem w)"
    using True good(3) by (intro allI impI outside; simp add: contact_layout base_good_def)+
  then have "frame st (mem w) st' (mem w')" using dir bump by (simp add: frame_def res)
  moreover have "store_good E mem ok mk key st' w'"
    using store_good_frame [OF assms(1) _ calculation] \<open>ok w1\<close> bump True outside [of CONTACT_STORE_INTEGRITY_OFFSET 32] good
    by (simp add: res contact_layout base_good_def)
  moreover have "slice (KEY_REGION_OFFSET + unat (kr_bump ?k)) (length bs) (mem w') = bs"
    using good True unfolding res m by (intro slice_splice_same) (simp_all add: contact_layout)
  ultimately show ?thesis using bump True by (simp add: res unat_of_nat_u16)
qed

text \<open>Writing a record and the new digest: the step shared by insertion, update and deletion.\<close>

lemma commit_record:
  assumes good: "base_good E mem ok mk st w" and slot: "unat slot < 54" and rec: "storable (ce_crc E) rec"
    and below: "is_active rec \<Longrightarrow> refs_below (cs_string_heap st) (cs_key_region st) rec"
    and mark: "is_active rec \<or> cr_magic rec \<noteq> CONTACT_RECORD_MAGIC"
    and ix: "index_ok ix" "mset (live ix) = mset (entries_of ((slot_record (ce_crc E) (mem w))(unat slot := rec)) [0..<54])"
  obtains w1 st' w' where "write_record E slot rec w = (Inr (), w1)"
    and "update_integrity E (st\<lparr>cs_index := ix\<rparr>, w1) = (Inr (), st', w')"
    and "store_good E mem ok mk key st' w'"
    and "directory (ce_crc E) (mem w') = (directory (ce_crc E) (mem w))
      (unat slot := if is_active rec then Some (contact_of (mem w) rec) else None)"
proof -
  let ?s = "unat slot" and ?st = "st\<lparr>cs_index := ix\<rparr>"
  from good have h: "ok w" "CONTACT_STORE_END \<le> length (mem w)" by (simp_all add: base_good_def)
  have len: "length (as_bytes rec) = 256" using rec by (simp add: storable_def)
  have "record_offset slot + length (as_bytes rec) \<le> length (mem w)"
    using record_offset_in [OF slot h(2)] len by simp
  from storage_write_in [OF h(1) this] obtain w1 where
    w1: "write_record E slot rec w = (Inr (), w1)" "ok w1"
    and m1: "mem w1 = splice (mem w) (CONTACT_RECORD_ARRAY_OFFSET + ?s * 256) (as_bytes rec)"
    unfolding write_record_def record_offset_def .
  have bytes: "slot_bytes (mem w1) t = (if t = ?s then as_bytes rec else slot_bytes (mem w) t)" if "t < 54" for t
    unfolding m1 using h slot that len by (intro slot_bytes_write)
  have recs: "slot_record (ce_crc E) (mem w1) t = ((slot_record (ce_crc E) (mem w))(?s := rec)) t" if "t < 54" for t
    using bytes [OF that] stored_as_bytes [OF rec] by (simp add: slot_record_def)
  have region: "slice off n (mem w1) = slice off n (mem w)"
    if "STRING_HEAP_OFFSET \<le> off" "off + n \<le> CONTACT_STORE_END" for off n
    unfolding m1 using h slot len that by (intro region_slices_write)
  have "length (mem w1) = length (mem w)"
    using h slot len unfolding m1 by (intro length_splice) (simp add: contact_layout)
  moreover have "free_unmarked (ce_crc E) (mem w1)"
    using good mark rec recs bytes by (auto simp: free_unmarked_def base_good_def take_magic storable_def u32_le_inject)
  ultimately have base: "base_good E mem ok mk ?st w1"
    using good w1(2) recs bytes below region [of CONTACT_STORE_PROVISION_MARKER_OFFSET 4] stored_as_bytes [OF rec]
    by (auto simp: base_good_def records_readable_def contact_layout)
  have "entries_of (slot_record (ce_crc E) (mem w1)) [0..<54] =
      entries_of ((slot_record (ce_crc E) (mem w))(?s := rec)) [0..<54]"
    unfolding entries_of_def by (rule arg_cong [of _ _ active_entries], rule map_cong) (auto simp: recs)
  then have lists: "index_lists (cs_index ?st) (slot_records (ce_crc E) (mem w1))"
    using ix by (simp add: index_lists_def active_slot_records)
  from update_integrity_good [OF base lists] obtain st' w' where
    u: "update_integrity E (?st, w1) = (Inr (), st', w')" "store_good E mem ok mk key st' w'"
    and kept: "\<forall>off n. off + n \<le> CONTACT_STORE_INTEGRITY_OFFSET \<longrightarrow> slice off n (mem w') = slice off n (mem w1)" .
  note same = kept [rule_format]
  have recs': "slot_record (ce_crc E) (mem w') t = ((slot_record (ce_crc E) (mem w))(?s := rec)) t" if "t < 54" for t
  proof -
    have "slot_bytes (mem w') t = slot_bytes (mem w1) t"
      using that unfolding slot_bytes_def by (intro same) (simp add: contact_layout)
    with recs [OF that] show ?thesis by (simp add: slot_record_def)
  qed
  have slices: "slice off n (mem w') = slice off n (mem w)"
    if "STRING_HEAP_OFFSET \<le> off" "off + n \<le> CONTACT_STORE_INTEGRITY_OFFSET" for off n
    using same [OF that(2)] region [of off n] that by (simp add: contact_layout)
  have contact: "contact_of (mem w') r = contact_of (mem w) r"
    if "refs_below (cs_string_heap st) (cs_key_region st) r" for r
    using that good by (intro contact_of_slices slices) (auto simp: base_good_def)
  have "directory (ce_crc E) (mem w') t = ((directory (ce_crc E) (mem w))
      (?s := if is_active rec then Some (contact_of (mem w) rec) else None)) t" for t
    using recs' [of t] contact below slot good by (auto simp: directory_def base_good_def)
  with that [OF w1(1) u] show ?thesis by blast
qed

lemma delete_good:
  assumes "store_good E mem ok mk key st w" and "unat slot < 54"
  obtains st' w' where "store_delete E slot (st, w) = (Inr (), st', w')" and "store_good E mem ok mk key st' w'"
    and "directory (ce_crc E) (mem w') = (directory (ce_crc E) (mem w))(unat slot := None)"
proof -
  from assms(1) have base: "base_good E mem ok mk st w" and ix: "index_ok (cs_index st)"
    "mset (live (cs_index st)) = mset (entries_of (slot_record (ce_crc E) (mem w)) [0..<54])"
    by (simp_all add: store_good_def index_lists_def active_slot_records)
  have ix': "index_ok (index_remove (cs_index st) slot)" "mset (live (index_remove (cs_index st) slot)) =
      mset (entries_of ((slot_record (ce_crc E) (mem w))(unat slot := contact_record_default)) [0..<54])"
    using ix assms(2) by (simp_all add: index_remove_live entries_after_delete)
  from commit_record [OF base assms(2) storable_default _ disjI2 [OF default_magic] ix'] obtain w1 st' w' where
    "write_record E slot contact_record_default w = (Inr (), w1)"
    "update_integrity E (st\<lparr>cs_index := index_remove (cs_index st) slot\<rparr>, w1) = (Inr (), st', w')"
    "store_good E mem ok mk key st' w'"
    "directory (ce_crc E) (mem w') = (directory (ce_crc E) (mem w))(unat slot := None)"
    by auto
  with base show ?thesis
    by (intro that) (auto simp: store_delete_def gate_def base_good_def on_world_def)
qed

lemma find_empty_slot_Inr:
  assumes "ok w" and "CONTACT_STORE_END \<le> length (mem w)"
  shows "\<forall>s \<in> set slots. s < 54 \<Longrightarrow> find_empty_slot E slots w =
    (case find (\<lambda>s. take 4 (slot_bytes (mem w) s) \<noteq> u32_le CONTACT_RECORD_MAGIC) slots of
       None \<Rightarrow> Inl RecipientSlotsFull | Some s \<Rightarrow> Inr (of_nat s))"
proof (induction slots)
  case (Cons s slots)
  then have s: "s < 54" by simp
  have off: "record_offset (of_nat s) + 4 \<le> length (mem w)"
    using s assms by (simp add: record_offset_def contact_layout unat_slot)
  have t: "slice (record_offset (of_nat s)) 4 (mem w) = take 4 (slot_bytes (mem w) s)"
    using s by (simp add: record_offset_def slot_bytes_def unat_slot slice_def)
  have "length (take 4 (slot_bytes (mem w) s)) = 4" using s assms by (simp add: length_slot_bytes)
  then have "u32_le (rd_u32_le (take 4 (slot_bytes (mem w) s)) 0) = take 4 (slot_bytes (mem w) s)"
    by (simp add: le_of_rd slice_def)
  then have "rd_u32_le (take 4 (slot_bytes (mem w) s)) 0 = CONTACT_RECORD_MAGIC \<longleftrightarrow>
      take 4 (slot_bytes (mem w) s) = u32_le CONTACT_RECORD_MAGIC"
    using u32_le_inject by metis
  with Cons storage_read_in [OF assms(1) off] t show ?case by simp
qed simp

lemma insert_commit:
  assumes good: "store_good E mem ok mk key st w" and slot: "unat slot < 54"
    and free: "\<not> is_active (slot_record (ce_crc E) (mem w) (unat slot))"
    and rec: "storable (ce_crc E) rec" "is_active rec"
    and below: "refs_below (cs_string_heap st) (cs_key_region st) rec"
  obtains w1 ix st' w' where "write_record E slot rec w = (Inr (), w1)"
    and "index_insert (cs_index st) (cr_fingerprint rec) slot (contact_flags rec) = (Inr (), ix)"
    and "update_integrity E (st\<lparr>cs_index := ix\<rparr>, w1) = (Inr (), st', w')"
    and "store_good E mem ok mk key st' w'"
    and "directory (ce_crc E) (mem w') = (directory (ce_crc E) (mem w))(unat slot \<mapsto> contact_of (mem w) rec)"
proof -
  let ?R = "slot_record (ce_crc E) (mem w)"
  from good have base: "base_good E mem ok mk st w" and ix: "index_ok (cs_index st)"
    "mset (live (cs_index st)) = mset (entries_of ?R [0..<54])"
    by (simp_all add: store_good_def index_lists_def active_slot_records)
  have after: "mset (entries_of (?R(unat slot := rec)) [0..<54]) =
      add_mset (entry_of (unat slot) rec) (mset (entries_of ?R [0..<54]))"
    using slot free rec(2) by (intro entries_after_insert)
  have "length (entries_of (?R(unat slot := rec)) [0..<54]) \<le> 54"
    unfolding entries_of_def using length_active_entries [of "map (\<lambda>s. (s, (?R(unat slot := rec)) s)) [0..<54]"] by simp
  with arg_cong [OF after, of size] arg_cong [OF ix(2), of size] have "length (live (cs_index st)) < 54" by simp
  from index_insert_mset [OF ix(1) this] obtain ix' where
    i: "index_insert (cs_index st) (cr_fingerprint rec) slot (contact_flags rec) = (Inr (), ix')" "index_ok ix'"
    and m: "mset (live ix') = add_mset \<lparr>ie_prefix = take 16 (cr_fingerprint rec), ie_slot = slot, ie_flags = contact_flags rec\<rparr>
      (mset (live (cs_index st)))" .
  from m have "mset (live ix') = mset (entries_of (?R(unat slot := rec)) [0..<54])"
    by (simp add: after ix(2) entry_of_def)
  from commit_record [OF base slot rec(1) below disjI1 [OF rec(2)] i(2) this] obtain w1 st' w' where
    "write_record E slot rec w = (Inr (), w1)" "update_integrity E (st\<lparr>cs_index := ix'\<rparr>, w1) = (Inr (), st', w')"
    "store_good E mem ok mk key st' w'"
    "directory (ce_crc E) (mem w') = (directory (ce_crc E) (mem w))
      (unat slot := if is_active rec then Some (contact_of (mem w) rec) else None)" .
  with i(1) rec(2) show ?thesis by (intro that) simp_all
qed

lemma find_slot_free:
  assumes good: "base_good E mem ok mk st w" and "find_empty_slot E slots w = Inr slot" and "\<forall>s \<in> set slots. s < 54"
  shows "unat slot \<in> set slots \<and> \<not> is_active (slot_record (ce_crc E) (mem w) (unat slot))"
proof -
  have "ok w" "CONTACT_STORE_END \<le> length (mem w)" using good by (simp_all add: base_good_def)
  from find_empty_slot_Inr [OF this assms(3)] assms(2) obtain s where
    s: "find (\<lambda>s. take 4 (slot_bytes (mem w) s) \<noteq> u32_le CONTACT_RECORD_MAGIC) slots = Some s" "slot = of_nat s"
    by (auto split: option.splits)
  then have "s \<in> set slots" "take 4 (slot_bytes (mem w) s) \<noteq> u32_le CONTACT_RECORD_MAGIC"
    by (auto simp: find_Some_iff)
  with s(2) assms(3) show ?thesis by (simp add: unat_slot slot_record_def stored_def)
qed

lemma insert_slot:
  assumes "base_good E mem ok mk st w"
    and "(if own then find_empty_own_slot E w else find_empty_recipient_slot E w) = Inr slot"
  shows "unat slot \<in> slot_range own \<and> unat slot < 54 \<and> \<not> is_active (slot_record (ce_crc E) (mem w) (unat slot))"
  using find_slot_free [OF assms(1), of "if own then [0..<4] else [4..<54]" slot] assms(2)
  by (auto simp: slot_range_def find_empty_own_slot_def find_empty_recipient_slot_def split: if_splits)

lemma insert_slot_full:
  assumes "base_good E mem ok mk st w"
    and "(if own then find_empty_own_slot E w else find_empty_recipient_slot E w) = Inl e"
  shows "\<forall>s \<in> slot_range own. directory (ce_crc E) (mem w) s \<noteq> None"
proof
  fix s assume s: "s \<in> slot_range own"
  let ?slots = "if own then [0..<4] else [4..<54]"
  have "set ?slots = slot_range own" by (auto simp: slot_range_def simp del: upt_rec_numeral)
  moreover have "\<forall>s \<in> slot_range own. s < 54" by (simp add: slot_range_def)
  ultimately have "\<forall>s \<in> set ?slots. s < 54" "s \<in> set ?slots" "s < 54" using s by simp_all
  moreover have "find_empty_slot E ?slots w = Inl e"
    using assms(2) by (auto simp: find_empty_own_slot_def find_empty_recipient_slot_def split: if_splits)
  ultimately have "take 4 (slot_bytes (mem w) s) = u32_le CONTACT_RECORD_MAGIC"
    using find_empty_slot_Inr [of w ?slots] assms(1)
    by (auto simp: base_good_def find_None_iff split: option.splits if_splits)
  with assms(1) \<open>s < 54\<close> show "directory (ce_crc E) (mem w) s \<noteq> None"
    by (auto simp: base_good_def free_unmarked_def directory_def)
qed

lemma insert_strings:
  assumes good: "store_good E mem ok mk key st w" and n: "new_contact_ok n"
    and slot: "unat slot < 54" "\<not> is_active (slot_record (ce_crc E) (mem w) (unat slot))"
    and pin: "pin_fields n = Inr (pv, pn, pt)"
    and k: "slice (KEY_REGION_OFFSET + unat key_off) (unat key_len) (mem w) = nc_public_key n"
      "unat key_off + unat key_len \<le> unat (kr_bump (cs_key_region st))"
    and run: "st_bind (alloc_string E (nc_email n) (st, w)) (\<lambda>email s.
       st_bind (case nc_display_name n of Some name \<Rightarrow> alloc_string E name s | None \<Rightarrow> (Inr string_ref_default, s))
         (\<lambda>display_name s.
         let rec = recompute_crc (ce_crc E) (new_record n key_off key_len pv pn pt email display_name) in
         st_bind (on_world (write_record E slot rec) s) (\<lambda>_ (st, w).
         case index_insert (cs_index st) (cr_fingerprint rec) slot (contact_flags rec) of
           (Inl e, ix) \<Rightarrow> (Inl e, st\<lparr>cs_index := ix\<rparr>, w)
         | (Inr _, ix) \<Rightarrow>
             st_bind (update_integrity E (st\<lparr>cs_index := ix\<rparr>, w)) (\<lambda>_ s. (Inr slot, s))))) = (r, st', w')"
  shows "store_good E mem ok mk key st' w' \<and> (case r of Inl e \<Rightarrow> directory (ce_crc E) (mem w') = directory (ce_crc E) (mem w)
     | Inr s \<Rightarrow> s = slot \<and> directory (ce_crc E) (mem w') = (directory (ce_crc E) (mem w))(unat slot \<mapsto> contact_from n)) \<and>
    (\<forall>e. r = Inl e \<longrightarrow> \<not> (length (nc_email n) \<le> 240 \<and> length (opt_or (nc_display_name n) []) \<le> 240 \<and>
       unat (sh_bump (cs_string_heap st)) + length (nc_email n) + length (opt_or (nc_display_name n) []) \<le> 65536))"
proof -
  let ?D = "\<lambda>w. directory (ce_crc E) (mem w)"
  obtain r1 st1 w1 where a1: "alloc_string E (nc_email n) (st, w) = (r1, st1, w1)" by (metis prod_cases3)
  note f1 = alloc_string_frame [OF good a1]
  have D1: "?D w1 = ?D w" using good_directory [OF good] f1 by blast
  show ?thesis
  proof (cases r1)
    case (Inl e)
    with run a1 f1 D1 show ?thesis by auto
  next
    case (Inr email)
    define name_step where "name_step = (case nc_display_name n of Some name \<Rightarrow> alloc_string E name (st1, w1)
      | None \<Rightarrow> (Inr string_ref_default, st1, w1))"
    obtain r2 st2 w2 where a2: "name_step = (r2, st2, w2)" by (metis prod_cases3)
    have f2: "store_good E mem ok mk key st2 w2 \<and> frame st1 (mem w1) st2 (mem w2) \<and>
       (\<forall>ref. r2 = Inr ref \<longrightarrow> ref_bytes (mem w2) ref = opt_or (nc_display_name n) [] \<and>
         unat (sr_offset ref) + unat (sr_len ref) \<le> unat (sh_bump (cs_string_heap st2))) \<and>
       (\<forall>e. r2 = Inl e \<longrightarrow> \<not> (length (opt_or (nc_display_name n) []) \<le> 240 \<and>
         unat (sh_bump (cs_string_heap st1)) + length (opt_or (nc_display_name n) []) \<le> 65536))"
      using a2 f1 alloc_string_frame [of st1 w1 _ r2 st2 w2]
      by (auto simp: name_step_def opt_or_def ref_bytes_def string_ref_default_def split: option.splits)
    then have D2: "?D w2 = ?D w1" using f1 good_directory [of E mem ok mk key st1 w1] by blast
    show ?thesis
    proof (cases r2)
      case (Inl e)
      moreover have "unat (sh_bump (cs_string_heap st1)) \<le> unat (sh_bump (cs_string_heap st)) + length (nc_email n)"
        using f1 by simp
      ultimately show ?thesis using run a1 Inr a2 f2 D1 D2 by (auto simp: name_step_def)
    next
      case r2: (Inr name)
      define rec where "rec = recompute_crc (ce_crc E) (new_record n key_off key_len pv pn pt email name)"
      note p = new_record_props [OF n pin, where crc = "ce_crc E" and key_off = key_off and key_len = key_len
        and email = email and name = name, folded rec_def]
      have fr: "frame st (mem w) st2 (mem w2)" using f1 f2 frame_trans by blast
      have email: "ref_bytes (mem w2) email = nc_email n"
        "unat (sr_offset email) + unat (sr_len email) \<le> unat (sh_bump (cs_string_heap st2))"
        using f1 f2 Inr by (auto simp: ref_bytes_def frame_def)
      have "slice (KEY_REGION_OFFSET + unat key_off) (unat key_len) (mem w2) = nc_public_key n"
        using fr k by (simp add: frame_def)
      then have c: "contact_of (mem w2) rec = contact_from n" using p(7) email f2 r2 by blast
      have below: "refs_below (cs_string_heap st2) (cs_key_region st2) rec"
        using email f2 r2 fr k by (auto simp: refs_below_def p(4-6) frame_def string_ref_default_def)
      have "slot_record (ce_crc E) (mem w2) (unat slot) = slot_record (ce_crc E) (mem w) (unat slot)"
        using fr slot by (intro same_dir_records(3)) (simp_all add: frame_def)
      with slot have "\<not> is_active (slot_record (ce_crc E) (mem w2) (unat slot))" by simp
      from f2 have "store_good E mem ok mk key st2 w2" by simp
      from insert_commit [OF this slot(1) \<open>\<not> is_active (slot_record (ce_crc E) (mem w2) (unat slot))\<close> p(1,2) below]
      obtain w3 ix st3 w4 where "write_record E slot rec w2 = (Inr (), w3)"
        "index_insert (cs_index st2) (cr_fingerprint rec) slot (contact_flags rec) = (Inr (), ix)"
        "update_integrity E (st2\<lparr>cs_index := ix\<rparr>, w3) = (Inr (), st3, w4)"
        "store_good E mem ok mk key st3 w4" "?D w4 = (?D w2)(unat slot \<mapsto> contact_of (mem w2) rec)" .
      with run a1 Inr a2 r2 D1 D2 c show ?thesis
        by (auto simp: name_step_def [symmetric] rec_def [symmetric] Let_def on_world_def)
    qed
  qed
qed

lemma insert_good:
  assumes good: "store_good E mem ok mk key st w" and n: "new_contact_ok n"
    and run: "store_insert E n (st, w) = (r, st', w')"
  shows "store_good E mem ok mk key st' w' \<and>
    insert_spec n r (directory (ce_crc E) (mem w)) (directory (ce_crc E) (mem w')) \<and>
    (\<forall>e. r = Inl e \<longrightarrow> \<not> (insert_fits n st \<and>
       (\<exists>s \<in> slot_range (nc_own_identity n). directory (ce_crc E) (mem w) s = None)))"
proof -
  have base: "base_good E mem ok mk st w" and g: "gate st = Inr ()"
    using good by (simp_all add: store_good_def base_good_def gate_def)
  define found where "found = (if nc_own_identity n then find_empty_own_slot E w else find_empty_recipient_slot E w)"
  show ?thesis
  proof (cases found)
    case (Inl e)
    with run [unfolded store_insert_def prod.case g res_bind_simps found_def [symmetric] Inl sum.case] good
      insert_slot_full [OF base Inl [unfolded found_def]]
    show ?thesis by (auto simp: insert_spec_def)
  next
    case (Inr slot)
    from insert_slot [OF base Inr [unfolded found_def]] have slot: "unat slot \<in> slot_range (nc_own_identity n)"
      "unat slot < 54" "\<not> is_active (slot_record (ce_crc E) (mem w) (unat slot))" by simp_all
    obtain r1 st1 w1 where a: "alloc_key E (nc_public_key n) (st, w) = (r1, st1, w1)" by (metis prod_cases3)
    note f = alloc_key_frame [OF good a]
    have D1: "directory (ce_crc E) (mem w1) = directory (ce_crc E) (mem w)" using good_directory [OF good] f by blast
    note unf = run [unfolded store_insert_def prod.case g res_bind_simps found_def [symmetric] Inr a sum.case]
    show ?thesis
    proof (cases r1)
      case (Inl e)
      then have "\<not> insert_fits n st" using f unfolding insert_fits_def by blast
      with Inl unf f D1 show ?thesis by (auto simp: insert_spec_def)
    next
      case r1: (Inr kl)
      obtain off len where kl: "kl = (off, len)" by (cases kl)
      show ?thesis
      proof (cases "pin_fields n")
        case (Inl e)
        then have "\<not> insert_fits n st" by (auto simp: pin_fields_def insert_fits_def split: if_splits)
        with Inl unf r1 kl f D1 show ?thesis by (auto simp: insert_spec_def)
      next
        case pin: (Inr p)
        obtain pv pn pt where p: "p = (pv, pn, pt)" by (metis prod_cases3)
        have free: "\<not> is_active (slot_record (ce_crc E) (mem w1) (unat slot))"
          using f slot same_dir_records(3) [of "mem w" "mem w1" "unat slot"] by (simp add: frame_def)
        have none: "directory (ce_crc E) (mem w) (unat slot) = None" using slot by (simp add: directory_def)
        from f r1 kl have k: "store_good E mem ok mk key st1 w1"
          "slice (KEY_REGION_OFFSET + unat off) (unat len) (mem w1) = nc_public_key n"
          "unat off + unat len \<le> unat (kr_bump (cs_key_region st1))" by simp_all
        from insert_strings [OF k(1) n slot(2) free pin [unfolded p] k(2,3)] unf
        have "store_good E mem ok mk key st' w' \<and> (case r of
            Inl e \<Rightarrow> directory (ce_crc E) (mem w') = directory (ce_crc E) (mem w1)
          | Inr s \<Rightarrow> s = slot \<and> directory (ce_crc E) (mem w') = (directory (ce_crc E) (mem w1))(unat slot \<mapsto> contact_from n)) \<and>
          (\<forall>e. r = Inl e \<longrightarrow> \<not> (length (nc_email n) \<le> 240 \<and> length (opt_or (nc_display_name n) []) \<le> 240 \<and>
            unat (sh_bump (cs_string_heap st1)) + length (nc_email n) + length (opt_or (nc_display_name n) []) \<le> 65536))"
          by (simp add: r1 kl pin p)
        with D1 slot none f show ?thesis by (auto simp: insert_spec_def insert_fits_def split: sum.splits)
      qed
    qed
  qed
qed

lemma opt_alloc_frame:
  assumes good: "store_good E mem ok mk key st w" and run: "opt_alloc E x old (st, w) = (r, st', w')"
    and below: "sr_len old \<noteq> 0 \<longrightarrow> unat (sr_offset old) + unat (sr_len old) \<le> unat (sh_bump (cs_string_heap st))"
  shows "store_good E mem ok mk key st' w' \<and> frame st (mem w) st' (mem w') \<and>
    (\<forall>ref. r = Inr ref \<longrightarrow> ref_bytes (mem w') ref = opt_or x (ref_bytes (mem w) old) \<and>
       (sr_len ref \<noteq> 0 \<longrightarrow> unat (sr_offset ref) + unat (sr_len ref) \<le> unat (sh_bump (cs_string_heap st'))))"
proof (cases x)
  case None
  with run good below show ?thesis by (auto simp: opt_alloc_def opt_or_def)
next
  case (Some bs)
  with alloc_string_frame [OF good, of bs r st' w'] run show ?thesis by (auto simp: opt_alloc_def opt_or_def)
qed

lemma frame_ref_bytes:
  assumes "frame st m st' m'" and "sr_len r \<noteq> 0 \<longrightarrow> unat (sr_offset r) + unat (sr_len r) \<le> unat (sh_bump (cs_string_heap st))"
  shows "ref_bytes m' r = ref_bytes m r"
  using assms by (cases "sr_len r = 0") (auto simp: ref_bytes_def frame_def)

lemma slot_record_storable:
  "base_good E mem ok mk st w \<Longrightarrow> s < 54 \<Longrightarrow> storable (ce_crc E) (slot_record (ce_crc E) (mem w) s)"
  using stored_Inr_storable length_slot_bytes
  by (fastforce simp: base_good_def records_readable_def slot_record_def split: sum.splits)

lemma update_commit:
  assumes good: "store_good E mem ok mk key st w" and slot: "unat slot < 54"
    and act: "is_active (slot_record (ce_crc E) (mem w) (unat slot))" and u: "update_ok u"
    and rec: "rec = recompute_crc (ce_crc E) (updated_record u email name (slot_record (ce_crc E) (mem w) (unat slot)))"
    and below: "refs_below (cs_string_heap st) (cs_key_region st) rec"
  obtains w1 st' w' where "write_record E slot rec w = (Inr (), w1)"
    and "update_integrity E (case cu_stale u of None \<Rightarrow> st | Some b \<Rightarrow>
      st\<lparr>cs_index := index_update_flags (cs_index st) slot (contact_flags rec)\<rparr>, w1) = (Inr (), st', w')"
    and "store_good E mem ok mk key st' w'"
    and "directory (ce_crc E) (mem w') = (directory (ce_crc E) (mem w))(unat slot \<mapsto> contact_of (mem w) rec)"
proof -
  let ?R = "slot_record (ce_crc E) (mem w)" and ?old = "slot_record (ce_crc E) (mem w) (unat slot)"
  from good have base: "base_good E mem ok mk st w" and ix: "index_ok (cs_index st)"
    "mset (live (cs_index st)) = mset (entries_of ?R [0..<54])"
    by (simp_all add: store_good_def index_lists_def active_slot_records)
  have old: "storable (ce_crc E) ?old" using base slot by (rule slot_record_storable)
  note p = updated_record_props [OF old act u, where email = email and name = name, folded rec]
  have ent: "entries_of (?R(unat slot := rec)) [0..<54] =
      map (\<lambda>e. if ie_slot e = slot then e\<lparr>ie_flags := contact_flags rec\<rparr> else e) (entries_of ?R [0..<54])"
    using slot act p by (intro entries_after_update) simp_all
  define ix' where "ix' = (case cu_stale u of None \<Rightarrow> cs_index st
    | Some b \<Rightarrow> index_update_flags (cs_index st) slot (contact_flags rec))"
  have "index_ok ix' \<and> mset (live ix') = mset (entries_of (?R(unat slot := rec)) [0..<54])"
  proof (cases "cu_stale u")
    case None
    then have "entries_of (?R(unat slot := rec)) [0..<54] = entries_of ?R [0..<54]"
      using slot act p by (simp add: entries_of_split [of "unat slot"] entries_of_upd entry_of_def)
    with None ix show ?thesis by (simp add: ix'_def)
  next
    case (Some b)
    have "mset (live ix') = image_mset (\<lambda>e. if ie_slot e = slot then e\<lparr>ie_flags := contact_flags rec\<rparr> else e)
        (mset (live (cs_index st)))"
      using Some ix(1) by (simp add: ix'_def index_update_flags_live)
    with Some ix show ?thesis by (simp add: ent ix'_def index_update_flags_live)
  qed
  then have ix': "index_ok ix'" "mset (live ix') = mset (entries_of (?R(unat slot := rec)) [0..<54])" by simp_all
  from commit_record [OF base slot p(1) below disjI1 [OF p(2)] ix'] obtain w1 st' w' where
    "write_record E slot rec w = (Inr (), w1)" "update_integrity E (st\<lparr>cs_index := ix'\<rparr>, w1) = (Inr (), st', w')"
    "store_good E mem ok mk key st' w'"
    "directory (ce_crc E) (mem w') = (directory (ce_crc E) (mem w))
      (unat slot := if is_active rec then Some (contact_of (mem w) rec) else None)" .
  then show ?thesis using p(2) by (intro that) (auto simp: ix'_def split: option.splits)
qed

lemma update_written:
  assumes good: "store_good E mem ok mk key st w" and slot: "unat slot < 54"
    and act: "is_active (slot_record (ce_crc E) (mem w) (unat slot))" and u: "update_ok u"
    and f1: "store_good E mem ok mk key st1 w1" "frame st (mem w) st1 (mem w1)"
      "\<forall>ref. r1 = Inr ref \<longrightarrow> ref_bytes (mem w1) ref = opt_or (cu_email u) (ref_bytes (mem w) (cr_email (slot_record (ce_crc E) (mem w) (unat slot)))) \<and>
       (sr_len ref \<noteq> 0 \<longrightarrow> unat (sr_offset ref) + unat (sr_len ref) \<le> unat (sh_bump (cs_string_heap st1)))"
    and f2: "store_good E mem ok mk key st2 w2" "frame st1 (mem w1) st2 (mem w2)"
      "\<forall>ref. r2 = Inr ref \<longrightarrow> ref_bytes (mem w2) ref = opt_or (cu_display_name u) (ref_bytes (mem w1) (cr_display_name (slot_record (ce_crc E) (mem w) (unat slot)))) \<and>
       (sr_len ref \<noteq> 0 \<longrightarrow> unat (sr_offset ref) + unat (sr_len ref) \<le> unat (sh_bump (cs_string_heap st2)))"
    and refs: "r1 = Inr email" "r2 = Inr name"
  obtains w3 st3 w4 where
    "write_record E slot (recompute_crc (ce_crc E) (updated_record u email name (slot_record (ce_crc E) (mem w) (unat slot)))) w2 = (Inr (), w3)"
    and "update_integrity E (case cu_stale u of None \<Rightarrow> st2 | Some b \<Rightarrow>
       st2\<lparr>cs_index := index_update_flags (cs_index st2) slot
         (stale_flags b (contact_flags (slot_record (ce_crc E) (mem w) (unat slot))))\<rparr>, w3) = (Inr (), st3, w4)"
    and "store_good E mem ok mk key st3 w4"
    and "directory (ce_crc E) (mem w4) = (directory (ce_crc E) (mem w))
      (unat slot \<mapsto> apply_update u (contact_of (mem w) (slot_record (ce_crc E) (mem w) (unat slot))))"
proof -
  let ?old = "slot_record (ce_crc E) (mem w) (unat slot)"
  define rec where "rec = recompute_crc (ce_crc E) (updated_record u email name ?old)"
  have fr: "frame st (mem w) st2 (mem w2)" using f1(2) f2(2) by (rule frame_trans)
  have base: "base_good E mem ok mk st w" using good by (simp add: store_good_def)
  have below: "refs_below (cs_string_heap st) (cs_key_region st) ?old" using base slot act by (simp add: base_good_def)
  have old: "storable (ce_crc E) ?old" using base slot by (rule slot_record_storable)
  note p = updated_record_props [OF old act u, where email = email and name = name, folded rec_def]
  have same: "slot_record (ce_crc E) (mem w2) (unat slot) = ?old"
    using fr slot by (intro same_dir_records(3)) (simp_all add: frame_def)
  have oe: "sr_len (cr_email ?old) \<noteq> 0 \<longrightarrow> unat (sr_offset (cr_email ?old)) + unat (sr_len (cr_email ?old)) \<le> unat (sh_bump (cs_string_heap st))"
    using below by (simp add: refs_below_def string_refs_def)
  have e1: "ref_bytes (mem w1) email = opt_or (cu_email u) (ref_bytes (mem w) (cr_email ?old))"
    "sr_len email \<noteq> 0 \<longrightarrow> unat (sr_offset email) + unat (sr_len email) \<le> unat (sh_bump (cs_string_heap st1))"
    using f1(3) refs(1) by simp_all
  have mono: "unat (sh_bump (cs_string_heap st1)) \<le> unat (sh_bump (cs_string_heap st2))"
    using f2(2) by (simp add: frame_def)
  have email: "ref_bytes (mem w2) email = opt_or (cu_email u) (ref_bytes (mem w2) (cr_email ?old))"
    "sr_len email \<noteq> 0 \<longrightarrow> unat (sr_offset email) + unat (sr_len email) \<le> unat (sh_bump (cs_string_heap st2))"
    using frame_ref_bytes [OF f2(2) e1(2)] frame_ref_bytes [OF fr oe] e1 mono by auto
  have name: "ref_bytes (mem w2) name = opt_or (cu_display_name u) (ref_bytes (mem w2) (cr_display_name ?old))"
    using frame_ref_bytes [OF f2(2), of "cr_display_name ?old"] frame_refs_below [OF f1(2) below] f2(3) refs
    by (simp add: refs_below_def string_refs_def)
  have contact: "contact_of (mem w2) rec = apply_update u (contact_of (mem w) ?old)"
    using p(8) [OF email(1) name] frame_contact_of [OF fr below] by simp
  have refs_new: "refs_below (cs_string_heap st2) (cs_key_region st2) rec"
    using frame_refs_below [OF fr below] email(2) f2(3) refs
    by (auto simp: refs_below_def p(4-6) dest: in_set_dropD)
  have "is_active (slot_record (ce_crc E) (mem w2) (unat slot))" by (simp add: same act)
  from update_commit [OF f2(1) slot this u rec_def [folded same] refs_new] obtain w3 st3 w4 where
    c: "write_record E slot rec w2 = (Inr (), w3)"
    "update_integrity E (case cu_stale u of None \<Rightarrow> st2 | Some b \<Rightarrow>
      st2\<lparr>cs_index := index_update_flags (cs_index st2) slot (contact_flags rec)\<rparr>, w3) = (Inr (), st3, w4)"
    "store_good E mem ok mk key st3 w4"
    "directory (ce_crc E) (mem w4) = (directory (ce_crc E) (mem w2))(unat slot \<mapsto> contact_of (mem w2) rec)" .
  have "directory (ce_crc E) (mem w2) = directory (ce_crc E) (mem w)"
    using good fr by (rule good_directory)
  with c contact show ?thesis
    by (intro that [of w3 st3 w4]) (auto simp: rec_def [symmetric] p(7) split: option.splits)
qed

lemma update_good:
  assumes good: "store_good E mem ok mk key st w" and u: "update_ok u" and slot: "unat slot < 54"
    and run: "store_update E slot u (st, w) = (r, st', w')"
  shows "store_good E mem ok mk key st' w' \<and>
    update_spec (unat slot) u r (directory (ce_crc E) (mem w)) (directory (ce_crc E) (mem w'))"
proof -
  let ?D = "\<lambda>w. directory (ce_crc E) (mem w)" and ?old = "slot_record (ce_crc E) (mem w) (unat slot)"
  have base: "base_good E mem ok mk st w" and g: "gate st = Inr ()"
    using good by (simp_all add: store_good_def base_good_def gate_def)
  have read: "read_record E slot w = Inr ?old" using base slot by (rule read_record_good)
  show ?thesis
  proof (cases "is_active ?old")
    case False
    with run g read good show ?thesis by (auto simp: store_update_def update_spec_def)
  next
    case act: True
    note run' = run [unfolded store_update_eq [OF g read act]]
    have below: "refs_below (cs_string_heap st) (cs_key_region st) ?old"
      using base slot act by (simp add: base_good_def)
    obtain r1 st1 w1 where a1: "opt_alloc E (cu_email u) (cr_email ?old) (st, w) = (r1, st1, w1)" by (metis prod_cases3)
    note f1 = opt_alloc_frame [OF good a1]
    have f1: "store_good E mem ok mk key st1 w1" "frame st (mem w) st1 (mem w1)"
      "\<forall>ref. r1 = Inr ref \<longrightarrow> ref_bytes (mem w1) ref = opt_or (cu_email u) (ref_bytes (mem w) (cr_email ?old)) \<and>
       (sr_len ref \<noteq> 0 \<longrightarrow> unat (sr_offset ref) + unat (sr_len ref) \<le> unat (sh_bump (cs_string_heap st1)))"
      using f1 below by (simp_all add: refs_below_def string_refs_def)
    have below1: "refs_below (cs_string_heap st1) (cs_key_region st1) ?old" using frame_refs_below f1(2) below by blast
    obtain r2 st2 w2 where a2: "opt_alloc E (cu_display_name u) (cr_display_name ?old) (st1, w1) = (r2, st2, w2)"
      by (metis prod_cases3)
    note f2 = opt_alloc_frame [OF f1(1) a2]
    have f2: "store_good E mem ok mk key st2 w2" "frame st1 (mem w1) st2 (mem w2)"
      "\<forall>ref. r2 = Inr ref \<longrightarrow> ref_bytes (mem w2) ref = opt_or (cu_display_name u) (ref_bytes (mem w1) (cr_display_name ?old)) \<and>
       (sr_len ref \<noteq> 0 \<longrightarrow> unat (sr_offset ref) + unat (sr_len ref) \<le> unat (sh_bump (cs_string_heap st2)))"
      using f2 below1 by (simp_all add: refs_below_def string_refs_def)
    have D: "?D w1 = ?D w" "?D w2 = ?D w1" using good_directory [OF good f1(2)] good_directory [OF f1(1) f2(2)] by simp_all
    consider (e1) e where "r1 = Inl e" | (e2) email e where "r1 = Inr email" "r2 = Inl e"
      | (both) email name where "r1 = Inr email" "r2 = Inr name" by (cases r1; cases r2) auto
    then show ?thesis
    proof cases
      case e1
      with run' a1 f1 D show ?thesis by (auto simp: update_spec_def)
    next
      case e2
      with run' a1 a2 f2 D show ?thesis by (auto simp: update_spec_def)
    next
      case both
      from update_written [OF good slot act u f1 f2 both] obtain w3 st3 w4 where
        "write_record E slot (recompute_crc (ce_crc E) (updated_record u email name ?old)) w2 = (Inr (), w3)"
        "update_integrity E (case cu_stale u of None \<Rightarrow> st2 | Some b \<Rightarrow>
           st2\<lparr>cs_index := index_update_flags (cs_index st2) slot (stale_flags b (contact_flags ?old))\<rparr>, w3) = (Inr (), st3, w4)"
        "store_good E mem ok mk key st3 w4" "?D w4 = (?D w)(unat slot \<mapsto> apply_update u (contact_of (mem w) ?old))" .
      moreover have "?D w (unat slot) = Some (contact_of (mem w) ?old)" using slot act by (simp add: directory_def)
      ultimately show ?thesis using run' a1 a2 both by (auto simp: update_spec_def on_world_def)
    qed
  qed
qed

section \<open>Boot\<close>

lemma boot_records_eq:
  assumes "base_good E mem ok mk st w"
  shows "\<forall>s \<in> set slots. s < 54 \<Longrightarrow> boot_records E slots w = Inr (map (slot_record (ce_crc E) (mem w)) slots)"
proof (induction slots)
  case (Cons s slots)
  then have s: "s < 54" by simp
  have "read_record E (of_nat s) w = Inr (slot_record (ce_crc E) (mem w) s)"
    using read_record_good [OF assms, of "of_nat s"] s by (simp add: unat_slot)
  with Cons show ?case by (auto simp: read_record_def res_bind_eq_Inr split: if_splits)
qed simp

lemma verify_integrity_good:
  assumes "base_good E mem ok mk (st\<lparr>cs_integrity_gate := True\<rparr>) w"
    and "index_lists (cs_index st) (slot_records (ce_crc E) (mem w))"
    and dig: "slice CONTACT_STORE_INTEGRITY_OFFSET 32 (mem w) = ce_keyed_hash E key (digest_input (mem w))"
  obtains st' where "verify_integrity E (st, w) = (Inr (), st', w)" and "store_good E mem ok mk key st' w"
proof -
  let ?d = "ce_keyed_hash E key (digest_input (mem w))"
  let ?st = "st\<lparr>cs_integrity_register := ?d, cs_integrity_gate := True\<rparr>"
  from assms(1) have h: "ok w" "CONTACT_STORE_END \<le> length (mem w)" "records_readable (ce_crc E) (mem w)"
    "cs_master_key (st\<lparr>cs_integrity_register := ?d\<rparr>) = mk" by (simp_all add: base_good_def)
  have marker: "storage_read (ce_storage E) CONTACT_STORE_PROVISION_MARKER_OFFSET 4 w =
      Inr (slice CONTACT_STORE_PROVISION_MARKER_OFFSET 4 (mem w))"
    using h by (intro storage_read_in) (simp_all add: contact_layout)
  have reg: "storage_read (ce_storage E) CONTACT_STORE_INTEGRITY_OFFSET 32 w = Inr ?d"
    unfolding dig [symmetric] using h by (intro storage_read_in) (simp_all add: contact_layout)
  have "verify_integrity E (st, w) = (Inr (), ?st, w)"
    using assms(1) by (simp add: verify_integrity_def read_provision_marker_def marker load_integrity_register_def
        reg compute_digest_eq [OF h] base_good_def)
  moreover have "store_good E mem ok mk key ?st w"
    using assms by (simp add: store_good_def base_good_def)
  ultimately show ?thesis using that by simp
qed

text \<open>
  A reboot from the memory of a good store: a fresh store value boots, opens its gate and lists the
  same active records.
\<close>

lemma boot_good:
  assumes good: "store_good E mem ok mk key st w"
  obtains st' where "init_on_boot E (contact_store_new mk, w) = (Inr (), st', w)"
    and "store_good E mem ok mk key st' w"
proof -
  let ?R = "slot_record (ce_crc E) (mem w)" and ?new = "contact_store_new mk"
  let ?recs = "map ?R [0..<54]"
  have base: "base_good E mem ok mk st w" using good by (simp add: store_good_def)
  obtain hb kb where sc: "scan_bumps ?recs = (hb, kb)" by fastforce
  define st1 where "st1 = ?new\<lparr>cs_string_heap := heap_set_bump hb (cs_string_heap ?new),
      cs_key_region := key_set_bump kb (cs_key_region ?new), cs_index := rebuild_from_records (cs_index ?new) ?recs\<rparr>"
  have fit: "refs_fit (?R s)" if "s < 54" "is_active (?R s)" for s
    using base that by (fastforce simp: refs_fit_def refs_below_def base_good_def)
  have below: "refs_below (cs_string_heap st1) (cs_key_region st1) (?R s)" if "s < 54" "is_active (?R s)" for s
    using scan_bumps_below [OF sc [unfolded scan_bumps_def]] that fit [OF that]
    by (auto simp: st1_def intro!: refs_below_clamp)
  have bumps: "unat (sh_bump (cs_string_heap st1)) \<le> 65536" "unat (kr_bump (cs_key_region st1)) \<le> 65536"
    by (simp_all add: st1_def heap_set_bump_def key_set_bump_def min_def word_le_nat_alt)
  have base1: "base_good E mem ok mk (st1\<lparr>cs_integrity_gate := True\<rparr>) w"
    using base below bumps by (simp add: base_good_def st1_def contact_store_new_def)
  have lists: "index_lists (cs_index st1) (slot_records (ce_crc E) (mem w))"
    using rebuild_from_records_mset [of index_new ?recs]
    by (simp add: index_lists_def st1_def contact_store_new_def index_new_def slot_records_def enumerate_map_upt)
  have dig: "slice CONTACT_STORE_INTEGRITY_OFFSET 32 (mem w) = ce_keyed_hash E key (digest_input (mem w))"
    using good by (simp add: store_good_def)
  from verify_integrity_good [OF base1 lists dig] obtain st' where
    v: "verify_integrity E (st1, w) = (Inr (), st', w)" "store_good E mem ok mk key st' w" .
  have "init_on_boot E (?new, w) = verify_integrity E (st1, w)"
    by (simp add: init_on_boot_def boot_records_eq [OF base] sc st1_def)
  with v that show ?thesis by simp
qed

section \<open>Provisioning\<close>

lemma write_record_slot:
  assumes "ok w" and "CONTACT_STORE_END \<le> length (mem w)" and "s < 54" and "record_ok r"
  obtains w' where "write_record E (of_nat s) r w = (Inr (), w')" and "ok w'"
    and "length (mem w') = length (mem w)"
    and "\<forall>t < 54. slot_bytes (mem w') t = (if t = s then as_bytes r else slot_bytes (mem w) t)"
proof -
  have off: "record_offset (of_nat s) = CONTACT_RECORD_ARRAY_OFFSET + s * 256"
    using assms(3) by (simp add: record_offset_def unat_slot)
  have "CONTACT_RECORD_ARRAY_OFFSET + s * 256 + length (as_bytes r) \<le> length (mem w)"
    using assms by (simp add: contact_layout)
  from storage_write_in [OF assms(1) this] obtain w' where
    "write_record E (of_nat s) r w = (Inr (), w')" "ok w'"
    "mem w' = splice (mem w) (CONTACT_RECORD_ARRAY_OFFSET + s * 256) (as_bytes r)"
    unfolding write_record_def off .
  moreover from this have "length (mem w') = length (mem w)"
    using assms by (simp add: contact_layout)
  moreover have "\<forall>t < 54. slot_bytes (mem w') t = (if t = s then as_bytes r else slot_bytes (mem w) t)"
    using assms calculation(3) slot_bytes_write [of "mem w" s _ "as_bytes r"] by simp
  ultimately show ?thesis by (intro that [of w'])
qed

lemma write_defaults_to_eq:
  assumes "ok w" and "CONTACT_STORE_END \<le> length (mem w)" and "\<forall>s \<in> set slots. s < 54"
  shows "\<exists>w'. write_defaults_to E slots w = (Inr (), w') \<and> ok w' \<and> length (mem w') = length (mem w) \<and>
    (\<forall>t < 54. slot_bytes (mem w') t =
       (if t \<in> set slots then as_bytes contact_record_default else slot_bytes (mem w) t))"
  using assms
proof (induction slots arbitrary: w)
  case (Cons s slots)
  then have "s < 54" by simp
  from write_record_slot [OF Cons.prems(1,2) this record_ok_default] obtain w1 where
    w1: "write_record E (of_nat s) contact_record_default w = (Inr (), w1)" "ok w1"
    "length (mem w1) = length (mem w)"
    "\<forall>t < 54. slot_bytes (mem w1) t = (if t = s then as_bytes contact_record_default else slot_bytes (mem w) t)" .
  with Cons.IH [of w1] Cons.prems show ?case by fastforce
qed simp

lemma zero_region_eq:
  assumes "ok w" and "CONTACT_STORE_END \<le> length (mem w)" and "STRING_HEAP_OFFSET \<le> pos" and "pos + n \<le> CONTACT_STORE_END"
  shows "\<exists>w'. zero_region E pos n w = (Inr (), w') \<and> ok w' \<and> length (mem w') = length (mem w) \<and>
    (\<forall>t < 54. slot_bytes (mem w') t = slot_bytes (mem w) t)"
  using assms
proof (induction n arbitrary: pos w rule: less_induct)
  case (less n)
  show ?case
  proof (cases "n > 0")
    case True
    let ?chunk = "min n 256"
    have off: "pos + length (replicate ?chunk (0 :: u8)) \<le> length (mem w)" using less.prems by simp
    from storage_write_in [OF less.prems(1) off] obtain w1 where
      w1: "storage_write (ce_storage E) pos (replicate ?chunk 0) w = (Inr (), w1)" "ok w1"
      "mem w1 = splice (mem w) pos (replicate ?chunk 0)" .
    have slots: "slot_bytes (mem w1) t = slot_bytes (mem w) t" if "t < 54" for t
      using that off less.prems unfolding w1(3) slot_bytes_def
      by (intro slice_splice_disjoint) (simp_all add: contact_layout)
    have len: "length (mem w1) = length (mem w)" using off by (simp add: w1(3))
    from less.IH [of "n - ?chunk" w1 "pos + ?chunk"] True w1(2) len less.prems obtain w' where
      "zero_region E (pos + ?chunk) (n - ?chunk) w1 = (Inr (), w')" "ok w'" "length (mem w') = length (mem w1)"
      "\<forall>t < 54. slot_bytes (mem w') t = slot_bytes (mem w1) t" by fastforce
    with w1 True slots len show ?thesis by (subst zero_region.simps) (simp add: Let_def)
  qed (use less.prems in \<open>simp add: zero_region.simps\<close>)
qed

text \<open>Writes to the digest and the marker leave the records and the log alone.\<close>

lemma write_after_log:
  assumes "ok w" and "CONTACT_STORE_RRAM_END \<le> off" and "off + length d \<le> length (mem w)"
  obtains w' where "storage_write (ce_storage E) off d w = (Inr (), w')" and "ok w'"
    and "mem w' = splice (mem w) off d" and "length (mem w') = length (mem w)"
    and "\<forall>t < 54. slot_bytes (mem w') t = slot_bytes (mem w) t"
    and "slice TIMING_LOG_OFFSET TIMING_LOG_BYTES (mem w') = slice TIMING_LOG_OFFSET TIMING_LOG_BYTES (mem w)"
proof -
  from storage_write_in [OF assms(1,3)] obtain w' where
    w': "storage_write (ce_storage E) off d w = (Inr (), w')" "ok w'" "mem w' = splice (mem w) off d" .
  moreover have "slot_bytes (mem w') t = slot_bytes (mem w) t" if "t < 54" for t
    using that assms unfolding w'(3) slot_bytes_def by (intro slice_splice_disjoint) (simp_all add: contact_layout)
  moreover have "slice TIMING_LOG_OFFSET TIMING_LOG_BYTES (mem w') = slice TIMING_LOG_OFFSET TIMING_LOG_BYTES (mem w)"
    using assms unfolding w'(3) by (intro slice_splice_disjoint) (simp_all add: contact_layout)
  ultimately show ?thesis using assms(3) by (intro that [of w']) simp_all
qed

lemma provision_tail:
  assumes w: "ok w" "CONTACT_STORE_END \<le> length (mem w)"
    and slots: "\<forall>t < 54. slot_bytes (mem w) t = as_bytes contact_record_default"
    and st: "cs_master_key st = mk" "cs_index st = index_new" "cs_string_heap st = string_heap_new" "cs_key_region st = key_region_new"
    and counter: "\<And>w. ok w \<Longrightarrow> \<exists>c w'. mc_increment counter w = (Inr c, w') \<and> ok w' \<and> mem w' = mem w"
  obtains d st' w' where "compute_integrity_digest E st w = Inr d"
    and "st_bind (persist_integrity_register E (st\<lparr>cs_integrity_register := d\<rparr>, w)) (\<lambda>_ s.
       st_bind (on_world (\<lambda>w. case mc_increment counter w of (r, w') \<Rightarrow> (map_err (\<lambda>_. CounterError) r, w')) s) (\<lambda>_ s.
       st_bind (on_world (write_provision_marker E 1) s) (\<lambda>_ (st, w).
       (Inr (), st\<lparr>cs_integrity_gate := True\<rparr>, w)))) = (Inr (), st', w')"
    and "store_good E mem ok mk key st' w'" and "directory (ce_crc E) (mem w') = (\<lambda>_. None)"
    and "cs_key_region st' = key_region_new \<and> cs_string_heap st' = string_heap_new \<and> cs_timing_log st' = cs_timing_log st"
proof -
  have rec: "slot_record (ce_crc E) m t = contact_record_default"
    if "\<forall>t < 54. slot_bytes m t = as_bytes contact_record_default" "t < 54" for m t
    using that stored_as_bytes [OF storable_default, of "ce_crc E"] by (simp add: slot_record_def)
  have readable: "records_readable (ce_crc E) m" "free_unmarked (ce_crc E) m" if "\<forall>t < 54. slot_bytes m t = as_bytes contact_record_default" for m
    using that stored_as_bytes [OF storable_default, of "ce_crc E"] default_unmarked
    by (simp_all add: records_readable_def free_unmarked_def)
  let ?d = "ce_keyed_hash E key (digest_input (mem w))"
  have d: "compute_integrity_digest E st w = Inr ?d" using w readable(1) [OF slots] st(1) by (rule compute_digest_eq)
  have "CONTACT_STORE_RRAM_END \<le> CONTACT_STORE_INTEGRITY_OFFSET" "CONTACT_STORE_INTEGRITY_OFFSET + length ?d \<le> length (mem w)"
    using w by (simp_all add: hash_length contact_layout)
  from write_after_log [OF w(1) this] obtain w1 where
    w1: "storage_write (ce_storage E) CONTACT_STORE_INTEGRITY_OFFSET ?d w = (Inr (), w1)" "ok w1"
    "mem w1 = splice (mem w) CONTACT_STORE_INTEGRITY_OFFSET ?d" "length (mem w1) = length (mem w)"
    "\<forall>t < 54. slot_bytes (mem w1) t = slot_bytes (mem w) t"
    "slice TIMING_LOG_OFFSET TIMING_LOG_BYTES (mem w1) = slice TIMING_LOG_OFFSET TIMING_LOG_BYTES (mem w)" .
  from counter [OF w1(2)] obtain c w2 where w2: "mc_increment counter w1 = (Inr c, w2)" "ok w2" "mem w2 = mem w1" by blast
  have "CONTACT_STORE_RRAM_END \<le> CONTACT_STORE_PROVISION_MARKER_OFFSET"
    "CONTACT_STORE_PROVISION_MARKER_OFFSET + length (u32_le 1) \<le> length (mem w2)"
    using w w1(4) w2(3) by (simp_all add: contact_layout)
  from write_after_log [OF w2(2) this] obtain w3 where
    w3: "storage_write (ce_storage E) CONTACT_STORE_PROVISION_MARKER_OFFSET (u32_le 1) w2 = (Inr (), w3)" "ok w3"
    "mem w3 = splice (mem w2) CONTACT_STORE_PROVISION_MARKER_OFFSET (u32_le 1)" "length (mem w3) = length (mem w2)"
    "\<forall>t < 54. slot_bytes (mem w3) t = slot_bytes (mem w2) t"
    "slice TIMING_LOG_OFFSET TIMING_LOG_BYTES (mem w3) = slice TIMING_LOG_OFFSET TIMING_LOG_BYTES (mem w2)" .
  let ?st = "st\<lparr>cs_integrity_register := ?d, cs_integrity_gate := True\<rparr>"
  have slots3: "\<forall>t < 54. slot_bytes (mem w3) t = as_bytes contact_record_default"
    using slots w1(5) w2(3) w3(5) by simp
  have dig: "digest_input (mem w3) = digest_input (mem w)"
    using w1(5,6) w2(3) w3(5,6) by (intro slots_same(4)) simp_all
  have reg: "slice CONTACT_STORE_INTEGRITY_OFFSET 32 (mem w3) = ?d"
  proof -
    have "slice CONTACT_STORE_INTEGRITY_OFFSET 32 (mem w3) = slice CONTACT_STORE_INTEGRITY_OFFSET 32 (mem w1)"
      using w w1(4) unfolding w3(3) w2(3) by (intro slice_splice_disjoint) (simp_all add: contact_layout)
    also have "\<dots> = ?d" using w unfolding w1(3) by (intro slice_splice_same) (simp_all add: hash_length contact_layout)
    finally show ?thesis .
  qed
  have marker: "slice CONTACT_STORE_PROVISION_MARKER_OFFSET 4 (mem w3) = u32_le 1"
    using w w1(4) unfolding w3(3) w2(3) by (intro slice_splice_same) (simp_all add: contact_layout)
  have base: "base_good E mem ok mk ?st w3"
    using w w1(4) w2(3) w3(2,4) st readable [OF slots3] rec [OF slots3]
    by (simp add: base_good_def marker string_heap_new_def key_region_new_def)
  have "entries_of (slot_record (ce_crc E) (mem w3)) [0..<54] = []"
    using rec [OF slots3] by (auto simp: entries_of_def active_entries_def filter_empty_conv)
  with base st reg dig have "store_good E mem ok mk key ?st w3"
    by (simp add: store_good_def index_lists_def active_slot_records)
  moreover have "directory (ce_crc E) (mem w3) = (\<lambda>_. None)"
    using rec [OF slots3] by (auto simp: directory_def fun_eq_iff)
  ultimately show ?thesis using d w1(1) w2(1) w3(1) st
    by (intro that [OF d, of ?st w3]) (simp_all add: persist_integrity_register_def on_world_def write_provision_marker_def)
qed

lemma provision_good:
  assumes w: "ok w" "CONTACT_STORE_END \<le> length (mem w)"
    and blank: "list_all (\<lambda>b. b = 0) (slice CONTACT_STORE_INTEGRITY_OFFSET 32 (mem w))"
      "rd_u32_le (slice CONTACT_STORE_PROVISION_MARKER_OFFSET 4 (mem w)) 0 = 0"
    and counter: "\<And>w. ok w \<Longrightarrow> \<exists>c w'. mc_increment counter w = (Inr c, w') \<and> ok w' \<and> mem w' = mem w"
  obtains st' w' where "provision_fresh E counter (contact_store_new mk, w) = (Inr (), st', w')"
    and "store_good E mem ok mk key st' w'" and "directory (ce_crc E) (mem w') = (\<lambda>_. None)"
    and "cs_key_region st' = key_region_new \<and> cs_string_heap st' = string_heap_new \<and> cs_timing_log st' = timing_log_new"
proof -
  have reads: "storage_read (ce_storage E) CONTACT_STORE_INTEGRITY_OFFSET 32 w = Inr (slice CONTACT_STORE_INTEGRITY_OFFSET 32 (mem w))"
    "storage_read (ce_storage E) CONTACT_STORE_PROVISION_MARKER_OFFSET 4 w = Inr (slice CONTACT_STORE_PROVISION_MARKER_OFFSET 4 (mem w))"
    using w by (simp_all add: storage_read_in contact_layout)
  let ?st = "(contact_store_new mk)\<lparr>cs_integrity_register := slice CONTACT_STORE_INTEGRITY_OFFSET 32 (mem w)\<rparr>"
  obtain w1 where w1: "write_defaults_to E [0..<54] w = (Inr (), w1)" "ok w1" "length (mem w1) = length (mem w)"
    "\<forall>t < 54. slot_bytes (mem w1) t = as_bytes contact_record_default"
    using write_defaults_to_eq [OF w, of "[0..<54]"] by auto
  obtain w2 where w2: "zero_region E STRING_HEAP_OFFSET 65536 w1 = (Inr (), w2)" "ok w2" "length (mem w2) = length (mem w1)"
    "\<forall>t < 54. slot_bytes (mem w2) t = slot_bytes (mem w1) t"
    using zero_region_eq [of w1 STRING_HEAP_OFFSET 65536] w1 w by (auto simp: contact_layout)
  obtain w3 where w3: "zero_region E KEY_REGION_OFFSET 65536 w2 = (Inr (), w3)" "ok w3" "length (mem w3) = length (mem w2)"
    "\<forall>t < 54. slot_bytes (mem w3) t = slot_bytes (mem w2) t"
    using zero_region_eq [of w2 KEY_REGION_OFFSET 65536] w2 w1 w by (auto simp: contact_layout)
  obtain w4 where w4: "zero_region E TIMING_LOG_OFFSET 16384 w3 = (Inr (), w4)" "ok w4" "length (mem w4) = length (mem w3)"
    "\<forall>t < 54. slot_bytes (mem w4) t = slot_bytes (mem w3) t"
    using zero_region_eq [of w3 TIMING_LOG_OFFSET 16384] w3 w2 w1 w by (auto simp: contact_layout)
  let ?st4 = "?st\<lparr>cs_string_heap := string_heap_new, cs_key_region := key_region_new,
    cs_timing_log := timing_log_new, cs_index := index_new\<rparr>"
  have "CONTACT_STORE_END \<le> length (mem w4)" "\<forall>t < 54. slot_bytes (mem w4) t = as_bytes contact_record_default"
    using w w1 w2 w3 w4 by simp_all
  from provision_tail [OF w4(2) this, of ?st4 counter] counter obtain d st' w' where
    t: "compute_integrity_digest E ?st4 w4 = Inr d"
    "st_bind (persist_integrity_register E (?st4\<lparr>cs_integrity_register := d\<rparr>, w4)) (\<lambda>_ s.
       st_bind (on_world (\<lambda>w. case mc_increment counter w of (r, w') \<Rightarrow> (map_err (\<lambda>_. CounterError) r, w')) s) (\<lambda>_ s.
       st_bind (on_world (write_provision_marker E 1) s) (\<lambda>_ (st, w).
       (Inr (), st\<lparr>cs_integrity_gate := True\<rparr>, w)))) = (Inr (), st', w')"
    "store_good E mem ok mk key st' w'" "directory (ce_crc E) (mem w') = (\<lambda>_. None)"
    "cs_key_region st' = key_region_new \<and> cs_string_heap st' = string_heap_new \<and> cs_timing_log st' = timing_log_new"
    by (auto simp: contact_store_new_def)
  have "provision_fresh E counter (contact_store_new mk, w) = (Inr (), st', w')"
    using t(1,2) by (simp add: provision_fresh_def load_integrity_register_def reads blank
        read_provision_marker_def on_world_def w1(1) w2(1) w3(1) w4(1))
  with t(3-5) that show ?thesis by blast
qed

section \<open>Lookups\<close>

lemma lookup_good:
  assumes good: "store_good E mem ok mk key st w" and fp: "length fp = 32"
  shows "lookup_by_fingerprint E fp (st, w) = Inr rec \<Longrightarrow>
      \<exists>s < 54. rec = slot_record (ce_crc E) (mem w) s \<and> is_active rec \<and> cr_fingerprint rec = fp"
    and "s < 54 \<Longrightarrow> is_active (slot_record (ce_crc E) (mem w) s) \<Longrightarrow> cr_fingerprint (slot_record (ce_crc E) (mem w) s) = fp \<Longrightarrow>
      (\<forall>t < 54. is_active (slot_record (ce_crc E) (mem w) t) \<longrightarrow>
         take 16 (cr_fingerprint (slot_record (ce_crc E) (mem w) t)) = take 16 fp \<longrightarrow> t = s) \<Longrightarrow>
      lookup_by_fingerprint E fp (st, w) = Inr (slot_record (ce_crc E) (mem w) s)"
proof -
  let ?R = "slot_record (ce_crc E) (mem w)"
  have base: "base_good E mem ok mk st w" and g: "gate st = Inr ()" and ix: "index_ok (cs_index st)"
    and ms: "mset (live (cs_index st)) = mset (entries_of ?R [0..<54])"
    using good by (simp_all add: store_good_def base_good_def gate_def index_lists_def active_slot_records)
  have entries: "set (live (cs_index st)) = {entry_of t (?R t) | t. t < 54 \<and> is_active (?R t)}"
    using arg_cong [OF ms, of set_mset] by (auto simp: entries_of_def active_entries_def)
  have found: "\<exists>t < 54. slot = of_nat t \<and> is_active (?R t) \<and> take 16 (cr_fingerprint (?R t)) = take 16 fp"
    if "lookup_prefix (cs_index st) (take 16 fp) = Some slot" for slot
    using lookup_prefix_live(2) [OF ix that] entries by (auto simp: entry_of_def)
  have read: "read_record E (of_nat t) w = Inr (?R t)" if "t < 54" for t
    using read_record_good [OF base, of "of_nat t"] that by (simp add: unat_slot)
  show "\<exists>s < 54. rec = ?R s \<and> is_active rec \<and> cr_fingerprint rec = fp"
    if "lookup_by_fingerprint E fp (st, w) = Inr rec" for rec
    using that found read
    by (fastforce simp: lookup_by_fingerprint_def lookup_slot_by_fp_def g res_bind_eq_Inr ok_or_def
        split: option.splits if_splits)
  show "lookup_by_fingerprint E fp (st, w) = Inr (?R s)"
    if s: "s < 54" "is_active (?R s)" "cr_fingerprint (?R s) = fp"
      and unique: "\<forall>t < 54. is_active (?R t) \<longrightarrow> take 16 (cr_fingerprint (?R t)) = take 16 fp \<longrightarrow> t = s" for s
  proof -
    have "entry_of s (?R s) \<in> set (live (cs_index st))" using s entries by blast
    then have "lookup_prefix (cs_index st) (take 16 fp) \<noteq> None"
      using lookup_prefix_live(1) [OF ix, of "take 16 fp"] s by (auto simp: entry_of_def)
    then obtain slot where l: "lookup_prefix (cs_index st) (take 16 fp) = Some slot" by blast
    with found unique have "slot = of_nat s" by blast
    with l read [OF s(1)] s show ?thesis by (simp add: lookup_by_fingerprint_def lookup_slot_by_fp_def g)
  qed
qed

text \<open>A missing fingerprint is reported as such.\<close>

lemma lookup_missing:
  assumes good: "store_good E mem ok mk key st w" and fp: "length fp = 32"
    and none: "\<forall>s < 54. is_active (slot_record (ce_crc E) (mem w) s) \<longrightarrow> cr_fingerprint (slot_record (ce_crc E) (mem w) s) \<noteq> fp"
  shows "lookup_by_fingerprint E fp (st, w) = Inl SlotNotFound"
proof (cases "lookup_by_fingerprint E fp (st, w)")
  case (Inr rec)
  with lookup_good(1) [OF good fp] none show ?thesis by blast
next
  case (Inl e)
  have base: "base_good E mem ok mk st w" and g: "gate st = Inr ()" and ix: "index_ok (cs_index st)"
    and ms: "mset (live (cs_index st)) = mset (entries_of (slot_record (ce_crc E) (mem w)) [0..<54])"
    using good by (simp_all add: store_good_def base_good_def gate_def index_lists_def active_slot_records)
  have "read_record E slot w = Inr (slot_record (ce_crc E) (mem w) (unat slot))"
    if "lookup_prefix (cs_index st) (take 16 fp) = Some slot" for slot
  proof -
    from lookup_prefix_live(2) [OF ix that] obtain e where "e \<in> set (live (cs_index st))" "ie_slot e = slot" by blast
    with arg_cong [OF ms, of set_mset] have "unat slot < 54"
      by (auto simp: entries_of_def active_entries_def entry_of_def unat_slot)
    with base show ?thesis by (rule read_record_good)
  qed
  with Inl g show ?thesis
    by (auto simp: lookup_by_fingerprint_def lookup_slot_by_fp_def ok_or_def split: option.splits if_splits)
qed

section \<open>The timing log and the digest\<close>

lemma those_read_records:
  assumes "base_good E mem ok mk st w"
  shows "\<forall>s \<in> set slots. s < 54 \<Longrightarrow> those_results (map (\<lambda>i. read_record E (of_nat i) w) slots) =
    Inr (map (slot_record (ce_crc E) (mem w)) slots)"
  by (induction slots) (simp_all add: read_record_good [OF assms] unat_slot)

lemma entry_as_bytes_length [simp]: "length (entry_as_bytes e) = 16"
  by (simp add: entry_as_bytes_def)

lemma append_good:
  assumes good: "store_good E mem ok mk key st w" and room: "tl_count (cs_timing_log st) < 1024"
    and counter: "mc_increment (ce_counter E) w = (Inr seq, w1)" "ok w1" "mem w1 = mem w"
  obtains st' w' where "timing_log_append E slot ts (st, w) = (Inr (), st', w')"
    and "base_good E mem ok mk st' w'" and "index_lists (cs_index st') (slot_records (ce_crc E) (mem w'))"
    and "slice CONTACT_STORE_INTEGRITY_OFFSET 32 (mem w') = slice CONTACT_STORE_INTEGRITY_OFFSET 32 (mem w)"
proof -
  let ?i = "tl_count (cs_timing_log st)"
  let ?e = "entry_recompute_crc (ce_crc E) \<lparr>te_slot = slot, te_pad0 = [0, 0, 0], te_last_fetched = ts, te_seq = seq, te_entry_crc = 0\<rparr>"
  have base: "base_good E mem ok mk st w" and g: "gate st = Inr ()"
    using good by (simp_all add: store_good_def base_good_def gate_def)
  have off: "entry_offset ?i + length (entry_as_bytes ?e) \<le> length (mem w1)"
    using base room counter(3) by (simp add: entry_offset_def contact_layout base_good_def)
  from storage_write_in [OF counter(2) off] obtain w2 where
    w2: "storage_write (ce_storage E) (entry_offset ?i) (entry_as_bytes ?e) w1 = (Inr (), w2)" "ok w2"
    and m: "mem w2 = splice (mem w) (entry_offset ?i) (entry_as_bytes ?e)" unfolding counter(3) .
  let ?st = "st\<lparr>cs_timing_log := cs_timing_log st\<lparr>tl_count := ?i + 1\<rparr>\<rparr>"
  have same: "slice o2 n (mem w2) = slice o2 n (mem w)"
    if "o2 + n \<le> TIMING_LOG_OFFSET \<or> CONTACT_STORE_RRAM_END \<le> o2" "o2 + n \<le> CONTACT_STORE_END" for o2 n
    using that off base room counter(3) unfolding m
    by (intro slice_splice_disjoint) (auto simp: entry_offset_def contact_layout base_good_def)
  have slots: "slot_bytes (mem w2) s = slot_bytes (mem w) s" if "s < 54" for s
    using that unfolding slot_bytes_def by (intro same) (simp_all add: contact_layout)
  have "length (mem w2) = length (mem w)" using off counter(3) by (simp add: m)
  then have "base_good E mem ok mk ?st w2"
    using base w2(2) slots_same(1,2) [of "mem w2" "mem w"] slots same [of CONTACT_STORE_PROVISION_MARKER_OFFSET 4]
    by (simp add: base_good_def contact_layout)
  moreover have "index_lists (cs_index ?st) (slot_records (ce_crc E) (mem w2))"
    using good slots_same(3) [of "mem w2" "mem w"] slots by (simp add: store_good_def)
  moreover have "timing_log_append E slot ts (st, w) = (Inr (), ?st, w2)"
    using room counter(1) w2(1) those_read_records [OF base, of "[0..<54]"]
    by (simp add: timing_log_append_def g log_append_def Let_def log_write_entry_def)
  moreover have "slice CONTACT_STORE_INTEGRITY_OFFSET 32 (mem w2) = slice CONTACT_STORE_INTEGRITY_OFFSET 32 (mem w)"
    by (intro same) (simp_all add: contact_layout)
  ultimately show ?thesis by (intro that)
qed

lemma boot_mismatch:
  assumes base: "base_good E mem ok mk st w"
    and ne: "slice CONTACT_STORE_INTEGRITY_OFFSET 32 (mem w) \<noteq> ce_keyed_hash E key (digest_input (mem w))"
  shows "fst (init_on_boot E (contact_store_new mk, w)) = Inl IntegrityMismatch"
proof -
  from base have h: "ok w" "CONTACT_STORE_END \<le> length (mem w)" "records_readable (ce_crc E) (mem w)"
    by (simp_all add: base_good_def)
  have reads: "storage_read (ce_storage E) CONTACT_STORE_INTEGRITY_OFFSET 32 w = Inr (slice CONTACT_STORE_INTEGRITY_OFFSET 32 (mem w))"
    "storage_read (ce_storage E) CONTACT_STORE_PROVISION_MARKER_OFFSET 4 w = Inr (slice CONTACT_STORE_PROVISION_MARKER_OFFSET 4 (mem w))"
    using h by (simp_all add: storage_read_in contact_layout)
  obtain hb kb where "scan_bumps (map (slot_record (ce_crc E) (mem w)) [0..<54]) = (hb, kb)" by fastforce
  with base ne show ?thesis
    by (simp add: init_on_boot_def boot_records_eq [OF base] verify_integrity_def read_provision_marker_def reads
        load_integrity_register_def compute_digest_eq [OF h] contact_store_new_def base_good_def)
qed

end

end
