(* ===== verification/Contact_Runs.thy ===== *)
theory Contact_Runs
  imports Contact_Invariant
begin

text \<open>
  Sessions of the contact store: provisioning followed by any sequence of insertions, updates,
  deletions and reboots. The abstract directory is a partial map from slots to contacts; \<open>dir_step\<close> is
  what each operation may do to it.
\<close>

section \<open>Operations and their specification\<close>

datatype contact_op = OpInsert new_contact | OpUpdate u8 contact_update | OpDelete u8 | OpReboot

fun op_ok :: "contact_op \<Rightarrow> bool" where
  "op_ok (OpInsert n) = new_contact_ok n"
| "op_ok (OpUpdate slot u) = (unat slot < 54 \<and> update_ok u)"
| "op_ok (OpDelete slot) = (unat slot < 54)"
| "op_ok OpReboot = True"

definition accepted :: "('w, 'a) store_result \<Rightarrow> bool \<times> contact_store \<times> 'w" where
  "accepted p = (case p of (r, s) \<Rightarrow> (\<not> isl r, s))"

fun run_op :: "'w contact_env \<Rightarrow> contact_op \<Rightarrow> contact_store \<times> 'w \<Rightarrow> bool \<times> contact_store \<times> 'w" where
  "run_op E (OpInsert n) s = accepted (store_insert E n s)"
| "run_op E (OpUpdate slot u) s = accepted (store_update E slot u s)"
| "run_op E (OpDelete slot) s = accepted (store_delete E slot s)"
| "run_op E OpReboot s = accepted (init_on_boot E (contact_store_new (cs_master_key (fst s)), snd s))"

fun run_ops :: "'w contact_env \<Rightarrow> contact_op list \<Rightarrow> contact_store \<times> 'w \<Rightarrow> bool list \<times> contact_store \<times> 'w" where
  "run_ops E [] s = ([], s)"
| "run_ops E (op # ops) s =
     (case run_op E op s of (b, s1) \<Rightarrow> (case run_ops E ops s1 of (bs, s2) \<Rightarrow> (b # bs, s2)))"

definition contact_session ::
  "'w contact_env \<Rightarrow> 'w monotonic_counter \<Rightarrow> bytes \<Rightarrow> contact_op list \<Rightarrow> 'w \<Rightarrow> bool list \<times> contact_store \<times> 'w" where
  "contact_session E counter mk ops w =
     (case accepted (provision_fresh E counter (contact_store_new mk, w)) of
        (b, s) \<Rightarrow> (case run_ops E ops s of (bs, s') \<Rightarrow> (b # bs, s')))"

inductive dir_step :: "(nat \<rightharpoonup> contact) \<Rightarrow> contact_op \<Rightarrow> bool \<Rightarrow> (nat \<rightharpoonup> contact) \<Rightarrow> bool" where
  insert_done: "D s = None \<Longrightarrow> s \<in> slot_range (nc_own_identity n) \<Longrightarrow>
    dir_step D (OpInsert n) True (D(s \<mapsto> contact_from n))"
| insert_refused: "dir_step D (OpInsert n) False D"
| update_done: "D (unat slot) = Some c \<Longrightarrow> dir_step D (OpUpdate slot u) True (D(unat slot \<mapsto> apply_update u c))"
| update_refused: "dir_step D (OpUpdate slot u) False D"
| delete_done: "dir_step D (OpDelete slot) True (D(unat slot := None))"
| reboot_done: "dir_step D OpReboot True D"

fun dir_run :: "(nat \<rightharpoonup> contact) \<Rightarrow> contact_op list \<Rightarrow> bool list \<Rightarrow> (nat \<rightharpoonup> contact) \<Rightarrow> bool" where
  "dir_run D [] [] D' = (D' = D)"
| "dir_run D (op # ops) (b # bs) D' = (\<exists>D1. dir_step D op b D1 \<and> dir_run D1 ops bs D')"
| "dir_run D _ _ D' = False"

inductive_cases dir_step_insertE: "dir_step D (OpInsert n) b D'"
inductive_cases dir_step_rebootE: "dir_step D OpReboot b D'"

definition unprovisioned :: "bytes \<Rightarrow> bool" where
  "unprovisioned m \<longleftrightarrow> CONTACT_STORE_END \<le> length m \<and>
     list_all (\<lambda>b. b = 0) (slice CONTACT_STORE_INTEGRITY_OFFSET 32 m) \<and>
     rd_u32_le (slice CONTACT_STORE_PROVISION_MARKER_OFFSET 4 m) 0 = 0"

text \<open>A counter that works and is kept outside the storage.\<close>

definition counter_apart :: "'w monotonic_counter \<Rightarrow> ('w \<Rightarrow> bytes) \<Rightarrow> ('w \<Rightarrow> bool) \<Rightarrow> bool" where
  "counter_apart counter mem ok \<longleftrightarrow>
     (\<forall>w. ok w \<longrightarrow> (\<exists>c w'. mc_increment counter w = (Inr c, w') \<and> ok w' \<and> mem w' = mem w))"

section \<open>Every run follows the specification\<close>

context contact_contract
begin

lemma run_op_good:
  assumes good: "store_good E mem ok mk key st w" and op: "op_ok op" and run: "run_op E op (st, w) = (b, st', w')"
  shows "store_good E mem ok mk key st' w' \<and>
    dir_step (directory (ce_crc E) (mem w)) op b (directory (ce_crc E) (mem w'))"
proof (cases op)
  case (OpInsert n)
  obtain r st1 w1 where i: "store_insert E n (st, w) = (r, st1, w1)" by (metis prod_cases3)
  from insert_good [OF good _ i] op OpInsert run i show ?thesis
    by (cases r) (auto simp: accepted_def insert_spec_def intro: dir_step.intros)
next
  case (OpUpdate slot u)
  obtain r st1 w1 where i: "store_update E slot u (st, w) = (r, st1, w1)" by (metis prod_cases3)
  from update_good [OF good _ _ i] op OpUpdate run i show ?thesis
    by (cases r) (auto simp: accepted_def update_spec_def intro: dir_step.intros)
next
  case (OpDelete slot)
  with op have "unat slot < 54" by simp
  from delete_good [OF good this] obtain st1 w1 where
    "store_delete E slot (st, w) = (Inr (), st1, w1)" "store_good E mem ok mk key st1 w1"
    "directory (ce_crc E) (mem w1) = (directory (ce_crc E) (mem w))(unat slot := None)" .
  with OpDelete run show ?thesis by (auto simp: accepted_def intro: dir_step.intros)
next
  case OpReboot
  from boot_good [OF good] obtain st1 where
    "init_on_boot E (contact_store_new mk, w) = (Inr (), st1, w)" "store_good E mem ok mk key st1 w" .
  moreover have "cs_master_key st = mk" using good by (simp add: store_good_def base_good_def)
  ultimately show ?thesis using OpReboot run by (auto simp: accepted_def intro: dir_step.intros)
qed

lemma run_ops_good:
  "store_good E mem ok mk key st w \<Longrightarrow> list_all op_ok ops \<Longrightarrow> run_ops E ops (st, w) = (bs, st', w') \<Longrightarrow>
   store_good E mem ok mk key st' w' \<and>
   dir_run (directory (ce_crc E) (mem w)) ops bs (directory (ce_crc E) (mem w'))"
proof (induction ops arbitrary: st w bs)
  case (Cons op ops)
  obtain b st1 w1 where o1: "run_op E op (st, w) = (b, st1, w1)" by (metis prod_cases3)
  obtain bs1 st2 w2 where o2: "run_ops E ops (st1, w1) = (bs1, st2, w2)" by (metis prod_cases3)
  from Cons.prems have "op_ok op" by simp
  from run_op_good [OF Cons.prems(1) this o1] Cons.IH [of st1 w1 bs1] Cons.prems o1 o2 show ?case by auto
qed simp

lemma session_good:
  assumes "ok w" and "unprovisioned (mem w)" and "counter_apart counter mem ok" and "list_all op_ok ops"
    and run: "contact_session E counter mk ops w = (bs, st, w')"
  shows "\<exists>bs'. bs = True # bs' \<and> store_good E mem ok mk key st w' \<and>
    dir_run (\<lambda>_. None) ops bs' (directory (ce_crc E) (mem w'))"
proof -
  from assms(1-3) obtain st1 w1 where "provision_fresh E counter (contact_store_new mk, w) = (Inr (), st1, w1)"
    "store_good E mem ok mk key st1 w1" "directory (ce_crc E) (mem w1) = (\<lambda>_. None)"
    by (auto simp: unprovisioned_def counter_apart_def intro: provision_good [of w counter])
  moreover obtain bs1 st2 w2 where "run_ops E ops (st1, w1) = (bs1, st2, w2)" by (metis prod_cases3)
  ultimately show ?thesis using run run_ops_good [of st1 w1 ops bs1 st2 w2] assms(4)
    by (auto simp: contact_session_def accepted_def)
qed

end

text \<open>Right after provisioning the regions are empty.\<close>

context contact_contract
begin

lemma provision_blank:
  assumes "ok w" and "unprovisioned (mem w)" and "counter_apart counter mem ok"
  obtains st w' where "contact_session E counter mk [] w = ([True], st, w')"
    and "cs_key_region st = key_region_new" and "cs_string_heap st = string_heap_new"
    and "cs_timing_log st = timing_log_new" and "directory (ce_crc E) (mem w') = (\<lambda>_. None)"
proof -
  from assms obtain st1 w1 where "provision_fresh E counter (contact_store_new mk, w) = (Inr (), st1, w1)"
    "directory (ce_crc E) (mem w1) = (\<lambda>_. None)"
    "cs_key_region st1 = key_region_new \<and> cs_string_heap st1 = string_heap_new \<and> cs_timing_log st1 = timing_log_new"
    by (auto simp: unprovisioned_def counter_apart_def intro: provision_good [of w counter])
  then show ?thesis by (intro that [of st1 w1]) (simp_all add: contact_session_def accepted_def)
qed

end

section \<open>The repository's storage and counter\<close>

type_synonym fake_contact_world = "fake_vault_storage \<times> fake_monotonic_counter"

definition fake_contact_ok :: "fake_contact_world \<Rightarrow> bool" where
  "fake_contact_ok w \<longleftrightarrow> \<not> fv_fail_next_write (fst w) \<and> \<not> fc_fail_next (snd w)"

text \<open>The store on the in-memory doubles, as in the crate's integration tests, with stand-ins for the libraries.\<close>

definition fake_contact_env :: "fake_contact_world contact_env" where
  "fake_contact_env = \<lparr>
     ce_storage = vault_via fst (\<lambda>s w. (s, snd w)) FakeVaultStorage,
     ce_counter = counter_via snd (\<lambda>c w. (fst w, c)) FakeMonotonicCounter,
     ce_crc = (\<lambda>bs. of_nat (length bs)),
     ce_hkdf = (\<lambda>salt ikm info n. Some (take n ikm)),
     ce_keyed_hash = (\<lambda>k d. replicate 32 (of_nat (length d))),
     ce_gcm_decrypt = (\<lambda>k n c. Some (take (length c - 16) c))\<rparr>"

interpretation fake_contact: contact_contract fake_contact_env "\<lambda>w. fv_mem (fst w)" fake_contact_ok
  "replicate 32 0x42" "replicate 32 0x42"
proof unfold_locales
  note defs = fake_contact_env_def fake_contact_ok_def fake_vault_defs
  fix w :: fake_contact_world and off n :: nat and d bs :: bytes and e
  show "fake_contact_ok w \<Longrightarrow> off + n \<le> length (fv_mem (fst w)) \<Longrightarrow>
      vs_read (ce_storage fake_contact_env) w off n = Inr (slice off n (fv_mem (fst w)))"
    by (simp add: defs)
  show "fake_contact_ok w \<Longrightarrow> off + length d \<le> length (fv_mem (fst w)) \<Longrightarrow>
      fst (vs_write (ce_storage fake_contact_env) w off d) = Inr ()"
    by (simp add: defs)
  show "fst (vs_write (ce_storage fake_contact_env) w off d) = Inr () \<Longrightarrow>
      off + length d \<le> length (fv_mem (fst w)) \<and>
      fv_mem (fst (snd (vs_write (ce_storage fake_contact_env) w off d))) = splice (fv_mem (fst w)) off d"
    by (simp add: defs split: if_splits)
  show "fst (vs_write (ce_storage fake_contact_env) w off d) = Inl e \<Longrightarrow>
      fv_mem (fst (snd (vs_write (ce_storage fake_contact_env) w off d))) = fv_mem (fst w)"
    by (simp add: defs split: if_splits)
  show "fake_contact_ok w \<Longrightarrow> fake_contact_ok (snd (vs_write (ce_storage fake_contact_env) w off d))"
    by (simp add: defs)
  show "vs_read (ce_storage fake_contact_env) w off n = Inr bs \<Longrightarrow> length bs = n"
    by (auto simp: defs split: if_splits)
qed (simp_all add: fake_contact_env_def)

lemma fake_counter_apart: "counter_apart (ce_counter fake_contact_env) (\<lambda>w. fv_mem (fst w)) fake_contact_ok"
  by (auto simp: counter_apart_def fake_contact_env_def counter_via_def fake_counter_defs fake_contact_ok_def Let_def)

definition sample_contact :: new_contact where
  "sample_contact = \<lparr>nc_fingerprint = 7 # replicate 31 0, nc_callsign = replicate 12 0, nc_dmr_id = 0,
     nc_key_algo = Ed25519, nc_public_key = replicate 32 0xAA, nc_email = [0x61, 0x40, 0x62],
     nc_display_name = None, nc_own_identity = False, nc_pin_protected = False, nc_pin_verifier = None,
     nc_pin_nonce = None, nc_pin_tag = None\<rparr>"

lemma sample_contact_ok: "new_contact_ok sample_contact"
  by (simp add: new_contact_ok_def sample_contact_def)

abbreviation fresh_world :: fake_contact_world where
  "fresh_world \<equiv> (fake_vault_new 240000, fake_counter_new 0)"

lemma fresh_world_ok: "fake_contact_ok fresh_world" "unprovisioned (fv_mem (fst fresh_world))"
  by (simp_all add: fake_contact_ok_def fake_vault_new_def fake_counter_new_def unprovisioned_def
      slice_def contact_layout list_all_iff rd_u32_le_def u32_of_le_def)

lemmas fresh_world_hyps = fake_contact.contact_contract_axioms fresh_world_ok fake_counter_apart

section \<open>Properties\<close>

text \<open>
  (C13) The contact store refines a directory. After provisioning a blank storage, every sequence of
  insertions, updates, deletions and reboots acts on the directory in memory, with the strings and keys
  of every contact, as on a partial map: an accepted insertion fills a free slot of its range with the
  given contact, an accepted update changes the named fields of one contact, a deletion empties its
  slot and always succeeds, a refused operation changes nothing, and a reboot always succeeds and
  changes nothing.
\<close>

theorem contact_store_refines_directory:
  assumes "contact_contract E mem ok mk key" and "ok w" and "unprovisioned (mem w)"
    and "counter_apart counter mem ok" and "list_all op_ok ops"
    and "contact_session E counter mk ops w = (bs, st, w')"
  shows "\<exists>bs'. bs = True # bs' \<and> dir_run (\<lambda>_. None) ops bs' (directory (ce_crc E) (mem w'))"
  using contact_contract.session_good [OF assms] by blast

theorem contact_store_refines_directory_witness:
  "\<exists>bs st w'. contact_session fake_contact_env (ce_counter fake_contact_env) (replicate 32 0x42)
       [OpInsert sample_contact, OpReboot, OpDelete 4, OpReboot] fresh_world = (bs, st, w') \<and>
     (\<exists>bs'. bs = True # bs' \<and> dir_run (\<lambda>_. None) [OpInsert sample_contact, OpReboot, OpDelete 4, OpReboot] bs'
        (directory (ce_crc fake_contact_env) (fv_mem (fst w'))))"
proof -
  let ?ops = "[OpInsert sample_contact, OpReboot, OpDelete 4, OpReboot]"
  obtain bs st w' where r: "contact_session fake_contact_env (ce_counter fake_contact_env) (replicate 32 0x42)
    ?ops fresh_world = (bs, st, w')" by (metis prod_cases3)
  have "list_all op_ok ?ops" by (simp add: sample_contact_ok)
  from contact_store_refines_directory [OF fresh_world_hyps this r] r show ?thesis by blast
qed

text \<open>
  (C14) Lookup by fingerprint reads that directory. A record it returns is an active one with exactly
  that fingerprint; a contact whose 16-byte prefix no other active contact shares is found; a
  fingerprint no active contact has is answered \<open>SlotNotFound\<close>.
\<close>

theorem contact_lookup_reads_directory:
  assumes "contact_contract E mem ok mk key" and "ok w" and "unprovisioned (mem w)"
    and "counter_apart counter mem ok" and "list_all op_ok ops"
    and "contact_session E counter mk ops w = (bs, st, w')" and "length fp = 32"
    and "D = directory (ce_crc E) (mem w')"
  shows "(\<forall>rec. lookup_by_fingerprint E fp (st, w') = Inr rec \<longrightarrow>
        (\<exists>s. D s = Some (contact_of (mem w') rec) \<and> cr_fingerprint rec = fp)) \<and>
    (\<forall>s c. D s = Some c \<and> c_fingerprint c = fp \<and>
        (\<forall>t c'. D t = Some c' \<longrightarrow> take 16 (c_fingerprint c') = take 16 fp \<longrightarrow> t = s) \<longrightarrow>
        (\<exists>rec. lookup_by_fingerprint E fp (st, w') = Inr rec \<and> contact_of (mem w') rec = c)) \<and>
    ((\<forall>s c. D s = Some c \<longrightarrow> c_fingerprint c \<noteq> fp) \<longrightarrow> lookup_by_fingerprint E fp (st, w') = Inl SlotNotFound)"
proof (intro conjI allI impI)
  let ?R = "slot_record (ce_crc E) (mem w')"
  from contact_contract.session_good [OF assms(1-6)] have good: "store_good E mem ok mk key st w'" by blast
  note contr = assms(1)
  have D: "D s = Some c \<longleftrightarrow> s < 54 \<and> is_active (?R s) \<and> c = contact_of (mem w') (?R s)" for s c
    by (auto simp: assms(8) directory_def)
  have fp: "c_fingerprint (contact_of m r) = cr_fingerprint r" for m r by (simp add: contact_of_def)
  show "\<exists>s. D s = Some (contact_of (mem w') rec) \<and> cr_fingerprint rec = fp"
    if "lookup_by_fingerprint E fp (st, w') = Inr rec" for rec
    using contact_contract.lookup_good(1) [OF contr good assms(7) that] by (auto simp: D)
  show "\<exists>rec. lookup_by_fingerprint E fp (st, w') = Inr rec \<and> contact_of (mem w') rec = c"
    if c: "D s = Some c \<and> c_fingerprint c = fp \<and>
        (\<forall>t c'. D t = Some c' \<longrightarrow> take 16 (c_fingerprint c') = take 16 fp \<longrightarrow> t = s)" for s c
  proof -
    from c have s: "s < 54" "is_active (?R s)" "cr_fingerprint (?R s) = fp" "c = contact_of (mem w') (?R s)"
      by (auto simp: D fp)
    have "t = s" if "t < 54" "is_active (?R t)" "take 16 (cr_fingerprint (?R t)) = take 16 fp" for t
      using c that D [of t "contact_of (mem w') (?R t)"] fp [of "mem w'" "?R t"] by metis
    with contact_contract.lookup_good(2) [OF contr good assms(7) s(1-3)] s(4) show ?thesis by blast
  qed
  show "lookup_by_fingerprint E fp (st, w') = Inl SlotNotFound" if "\<forall>s c. D s = Some c \<longrightarrow> c_fingerprint c \<noteq> fp"
    using contact_contract.lookup_missing [OF contr good assms(7)] that D fp by metis
qed

theorem contact_lookup_reads_directory_witness:
  "\<exists>bs st w' D. contact_session fake_contact_env (ce_counter fake_contact_env) (replicate 32 0x42)
       [OpInsert sample_contact, OpReboot] fresh_world = (bs, st, w') \<and>
     D = directory (ce_crc fake_contact_env) (fv_mem (fst w')) \<and>
     (\<forall>rec. lookup_by_fingerprint fake_contact_env (replicate 32 9) (st, w') = Inr rec \<longrightarrow>
        (\<exists>s. D s = Some (contact_of (fv_mem (fst w')) rec) \<and> cr_fingerprint rec = replicate 32 9))"
proof -
  let ?ops = "[OpInsert sample_contact, OpReboot]"
  obtain bs st w' where r: "contact_session fake_contact_env (ce_counter fake_contact_env) (replicate 32 0x42)
    ?ops fresh_world = (bs, st, w')" by (metis prod_cases3)
  have "list_all op_ok ?ops" "length (replicate 32 (9 :: u8)) = 32" by (simp_all add: sample_contact_ok)
  from contact_lookup_reads_directory [OF fresh_world_hyps this(1) r this(2) refl] r show ?thesis by blast
qed

text \<open>
  (C15) Progress of insertion. In every state of a session, an insertion whose sizes are within the
  limits, which brings its PIN verifier if it is PIN protected and for which the key region and the
  string heap have room, succeeds as long as one slot of its range is free, and the new contact is
  then found in that directory at the slot returned.
\<close>

theorem contact_insert_succeeds:
  assumes "contact_contract E mem ok mk key" and "ok w" and "unprovisioned (mem w)"
    and "counter_apart counter mem ok" and "list_all op_ok ops"
    and "contact_session E counter mk ops w = (bs, st, w')"
    and "new_contact_ok n" and "insert_fits n st"
    and "\<exists>s \<in> slot_range (nc_own_identity n). directory (ce_crc E) (mem w') s = None"
  shows "\<exists>slot st2 w2. store_insert E n (st, w') = (Inr slot, st2, w2) \<and>
    directory (ce_crc E) (mem w') (unat slot) = None \<and>
    directory (ce_crc E) (mem w2) (unat slot) = Some (contact_from n)"
proof -
  from contact_contract.session_good [OF assms(1-6)] have good: "store_good E mem ok mk key st w'" by blast
  obtain r st2 w2 where i: "store_insert E n (st, w') = (r, st2, w2)" by (metis prod_cases3)
  from contact_contract.insert_good [OF assms(1) good assms(7) i] assms(8,9) i show ?thesis
    by (cases r) (auto simp: insert_spec_def)
qed

theorem contact_insert_succeeds_witness:
  "\<exists>bs st w'. contact_session fake_contact_env (ce_counter fake_contact_env) (replicate 32 0x42) [] fresh_world = (bs, st, w') \<and>
     (\<exists>slot st2 w2. store_insert fake_contact_env sample_contact (st, w') = (Inr slot, st2, w2) \<and>
       directory (ce_crc fake_contact_env) (fv_mem (fst w')) (unat slot) = None \<and>
       directory (ce_crc fake_contact_env) (fv_mem (fst w2)) (unat slot) = Some (contact_from sample_contact))"
proof -
  from fake_contact.provision_blank [OF fresh_world_ok fake_counter_apart] obtain st w' where
    p: "contact_session fake_contact_env (ce_counter fake_contact_env) (replicate 32 0x42) [] fresh_world = ([True], st, w')"
    "cs_key_region st = key_region_new" "cs_string_heap st = string_heap_new"
    "directory (ce_crc fake_contact_env) (fv_mem (fst w')) = (\<lambda>_. None)" .
  have "insert_fits sample_contact st"
    by (simp add: insert_fits_def p(2,3) sample_contact_def key_region_new_def string_heap_new_def opt_or_def)
  moreover have "\<exists>s \<in> slot_range (nc_own_identity sample_contact). directory (ce_crc fake_contact_env) (fv_mem (fst w')) s = None"
    by (rule bexI [of _ 4]) (simp_all add: p(4) slot_range_def sample_contact_def)
  ultimately show ?thesis
    using contact_insert_succeeds [OF fresh_world_hyps _ p(1) sample_contact_ok] p(1) by fastforce
qed

text \<open>
  The timing log and the integrity digest. An append to the timing log succeeds but does not
  renew the stored digest, which covers the log: the next boot is accepted only if the keyed hash does
  not tell the old log from the new one, and fails with \<open>IntegrityMismatch\<close> otherwise.
\<close>

theorem timing_log_append_invalidates_digest:
  assumes "contact_contract E mem ok mk key" and "ok w" and "unprovisioned (mem w)"
    and "counter_apart counter mem ok" and "counter_apart (ce_counter E) mem ok" and "list_all op_ok ops"
    and "contact_session E counter mk ops w = (bs, st, w')" and "tl_count (cs_timing_log st) < MAX_ENTRIES"
  shows "\<exists>st2 w2. timing_log_append E slot ts (st, w') = (Inr (), st2, w2) \<and>
    fst (init_on_boot E (contact_store_new mk, w2)) =
      (if ce_keyed_hash E key (digest_input (mem w2)) = ce_keyed_hash E key (digest_input (mem w'))
       then Inr () else Inl IntegrityMismatch)"
proof -
  from contact_contract.session_good [OF assms(1-4,6,7)] have good: "store_good E mem ok mk key st w'" by blast
  then have "ok w'" and dig: "slice CONTACT_STORE_INTEGRITY_OFFSET 32 (mem w') = ce_keyed_hash E key (digest_input (mem w'))"
    by (simp_all add: store_good_def base_good_def)
  with assms(5) obtain seq w1 where c: "mc_increment (ce_counter E) w' = (Inr seq, w1)" "ok w1" "mem w1 = mem w'"
    by (auto simp: counter_apart_def)
  from contact_contract.append_good [OF assms(1) good assms(8) c] obtain st2 w2 where
    a: "timing_log_append E slot ts (st, w') = (Inr (), st2, w2)" "base_good E mem ok mk st2 w2"
    "index_lists (cs_index st2) (slot_records (ce_crc E) (mem w2))"
    "slice CONTACT_STORE_INTEGRITY_OFFSET 32 (mem w2) = slice CONTACT_STORE_INTEGRITY_OFFSET 32 (mem w')" .
  show ?thesis
  proof (cases "ce_keyed_hash E key (digest_input (mem w2)) = ce_keyed_hash E key (digest_input (mem w'))")
    case True
    with a dig have "store_good E mem ok mk key st2 w2" by (simp add: store_good_def)
    from contact_contract.boot_good [OF assms(1) this] obtain st3 where
      "init_on_boot E (contact_store_new mk, w2) = (Inr (), st3, w2)" .
    with a(1) True show ?thesis by simp
  next
    case False
    with contact_contract.boot_mismatch [OF assms(1) a(2)] a(1,4) dig show ?thesis by auto
  qed
qed

theorem timing_log_append_invalidates_digest_witness:
  "\<exists>bs st w' st2 w2. contact_session fake_contact_env (ce_counter fake_contact_env) (replicate 32 0x42) [] fresh_world = (bs, st, w') \<and>
     timing_log_append fake_contact_env 4 100 (st, w') = (Inr (), st2, w2)"
proof -
  from fake_contact.provision_blank [OF fresh_world_ok fake_counter_apart] obtain st w' where
    p: "contact_session fake_contact_env (ce_counter fake_contact_env) (replicate 32 0x42) [] fresh_world = ([True], st, w')"
    "cs_timing_log st = timing_log_new" .
  then have "tl_count (cs_timing_log st) < 1024" by (simp add: timing_log_new_def)
  from timing_log_append_invalidates_digest [OF fresh_world_hyps fake_counter_apart _ p(1) this, of 4 100] p(1)
  show ?thesis by fastforce
qed

end
