(* ===== verification/Handshake_Wire.thy ===== *)
theory Handshake_Wire
  imports Cipher_Profile
begin

text \<open>
  Handshake messages of \<open>crates/ephemeral-session\<close>: the error type (\<open>error.rs\<close>), the two messages with
  their wire format and the hexadecimal fingerprints (\<open>handshake.rs\<close>), and the length of a public key
  on a curve (\<open>curve_select.rs\<close>, whose wire bytes are in \<open>Cipher_Profile\<close>). Both parsers are shown to
  accept exactly the serialised messages, followed by anything.
\<close>

section \<open>Errors and curves\<close>

datatype session_error =
    KeyGeneration | InvalidPeerPublicKey | InvalidPeerSignature | EcdhFailed
  | SessionAlreadyCompleted | SessionAlreadyInitialised | MalformedHandshake
  | RemovedBrainpoolP512Curve | CurveMismatch | FingerprintMismatch | Storage | Brainpool
  | TrustStoreFull

fun public_key_len :: "session_curve \<Rightarrow> nat" where
  "public_key_len BrainpoolP256r1 = 65"
| "public_key_len BrainpoolP384r1 = 97"

definition curve_from_wire :: "u8 \<Rightarrow> session_curve option" where
  "curve_from_wire byte = (case curve_try_from_wire byte of Inl _ \<Rightarrow> None | Inr c \<Rightarrow> Some c)"

section \<open>Messages\<close>

definition INIT_PROTOCOL_VERSION :: u8 where "INIT_PROTOCOL_VERSION = 0x01"
definition RESP_PROTOCOL_VERSION :: u8 where "RESP_PROTOCOL_VERSION = 0x01"

abbreviation MAX_SIG_BYTES :: nat where "MAX_SIG_BYTES \<equiv> 200"
abbreviation MAX_HANDSHAKE_BYTES :: nat where "MAX_HANDSHAKE_BYTES \<equiv> 512"

record init_message =
  im_version :: u8
  im_curve :: session_curve
  im_ephemeral_public_key :: bytes
  im_long_term_fingerprint :: bytes
  im_signature :: bytes

record response_message =
  rm_version :: u8
  rm_curve :: session_curve
  rm_ephemeral_public_key :: bytes
  rm_long_term_fingerprint :: bytes
  rm_initiator_ephemeral_public_key :: bytes
  rm_signature :: bytes

text \<open>\<open>Vec::extend_from_slice\<close> refuses the whole slice when it does not fit.\<close>

definition vextend :: "nat \<Rightarrow> 'a list \<Rightarrow> 'a list \<Rightarrow> 'a list option" where
  "vextend cap xs ys = (if length xs + length ys \<le> cap then Some (xs @ ys) else None)"

abbreviation malformed :: "'a option \<Rightarrow> session_error + 'a" where
  "malformed r \<equiv> ok_or MalformedHandshake r"

subsection \<open>Hexadecimal fingerprints\<close>

definition HEX_DIGITS :: bytes where "HEX_DIGITS = ascii ''0123456789abcdef''"

definition hex_encode_32 :: "bytes \<Rightarrow> bytes" where
  "hex_encode_32 raw =
     fold (\<lambda>b out. out @ [HEX_DIGITS ! unat (drop_bit 4 b)] @ [HEX_DIGITS ! unat (b AND 0x0F)]) raw []"

definition hex_val :: "u8 \<Rightarrow> session_error + u8" where
  "hex_val c =
     (if 0x30 \<le> c \<and> c \<le> 0x39 then Inr (c - 0x30)
      else if 0x61 \<le> c \<and> c \<le> 0x66 then Inr (c - 0x61 + 10)
      else if 0x41 \<le> c \<and> c \<le> 0x46 then Inr (c - 0x41 + 10)
      else Inl MalformedHandshake)"

fun hex_decode_loop :: "bytes \<Rightarrow> nat list \<Rightarrow> bytes \<Rightarrow> session_error + bytes" where
  "hex_decode_loop hex [] out = Inr out"
| "hex_decode_loop hex (i # is) out =
     res_bind (hex_val (hex ! (i * 2))) (\<lambda>hi.
     res_bind (hex_val (hex ! (i * 2 + 1))) (\<lambda>lo.
     hex_decode_loop hex is (out[i := push_bit 4 hi OR lo])))"

definition hex_decode_64 :: "bytes \<Rightarrow> session_error + bytes" where
  "hex_decode_64 hex =
     (if length hex \<noteq> 64 then Inl MalformedHandshake
      else hex_decode_loop hex [0..<32] (replicate 32 0))"

definition encode_fingerprint_hex :: "bytes \<Rightarrow> bytes" where
  "encode_fingerprint_hex raw_fp = hex_encode_32 raw_fp"

definition decode_fingerprint_hex :: "bytes \<Rightarrow> session_error + bytes" where
  "decode_fingerprint_hex hex = hex_decode_64 hex"

subsection \<open>Serialisation\<close>

definition init_serialise :: "init_message \<Rightarrow> session_error + bytes" where
  "init_serialise m =
     res_bind (malformed (vpush MAX_HANDSHAKE_BYTES [] (im_version m))) (\<lambda>out.
     res_bind (malformed (vpush MAX_HANDSHAKE_BYTES out (curve_wire_id (im_curve m)))) (\<lambda>out.
     let epk = im_ephemeral_public_key m; n = length epk in
     if n > 255 then Inl MalformedHandshake
     else
     res_bind (malformed (vpush MAX_HANDSHAKE_BYTES out (of_nat n))) (\<lambda>out.
     res_bind (malformed (vextend MAX_HANDSHAKE_BYTES out epk)) (\<lambda>out.
     let fp = im_long_term_fingerprint m in
     if length fp > 255 then Inl MalformedHandshake
     else
     res_bind (malformed (vpush MAX_HANDSHAKE_BYTES out (of_nat (length fp)))) (\<lambda>out.
     res_bind (malformed (vextend MAX_HANDSHAKE_BYTES out fp)) (\<lambda>out.
     let sig = im_signature m in
     if length sig > 65535 then Inl MalformedHandshake
     else
     let slen = (of_nat (length sig) :: u16) in
     res_bind (malformed (vpush MAX_HANDSHAKE_BYTES out (ucast (drop_bit 8 slen)))) (\<lambda>out.
     res_bind (malformed (vpush MAX_HANDSHAKE_BYTES out (ucast (slen AND 0xFF)))) (\<lambda>out.
     malformed (vextend MAX_HANDSHAKE_BYTES out sig)))))))))"

definition response_serialise :: "response_message \<Rightarrow> session_error + bytes" where
  "response_serialise m =
     res_bind (malformed (vpush MAX_HANDSHAKE_BYTES [] (rm_version m))) (\<lambda>out.
     res_bind (malformed (vpush MAX_HANDSHAKE_BYTES out (curve_wire_id (rm_curve m)))) (\<lambda>out.
     let epk = rm_ephemeral_public_key m; n = length epk in
     if n > 255 then Inl MalformedHandshake
     else
     res_bind (malformed (vpush MAX_HANDSHAKE_BYTES out (of_nat n))) (\<lambda>out.
     res_bind (malformed (vextend MAX_HANDSHAKE_BYTES out epk)) (\<lambda>out.
     let fp = rm_long_term_fingerprint m in
     if length fp > 255 then Inl MalformedHandshake
     else
     res_bind (malformed (vpush MAX_HANDSHAKE_BYTES out (of_nat (length fp)))) (\<lambda>out.
     res_bind (malformed (vextend MAX_HANDSHAKE_BYTES out fp)) (\<lambda>out.
     let iepk = rm_initiator_ephemeral_public_key m; ilen = length iepk in
     if ilen > 255 then Inl MalformedHandshake
     else
     res_bind (malformed (vpush MAX_HANDSHAKE_BYTES out (of_nat ilen))) (\<lambda>out.
     res_bind (malformed (vextend MAX_HANDSHAKE_BYTES out iepk)) (\<lambda>out.
     let sig = rm_signature m in
     if length sig > 65535 then Inl MalformedHandshake
     else
     let slen = (of_nat (length sig) :: u16) in
     res_bind (malformed (vpush MAX_HANDSHAKE_BYTES out (ucast (drop_bit 8 slen)))) (\<lambda>out.
     res_bind (malformed (vpush MAX_HANDSHAKE_BYTES out (ucast (slen AND 0xFF)))) (\<lambda>out.
     malformed (vextend MAX_HANDSHAKE_BYTES out sig)))))))))))"

subsection \<open>Parsing\<close>

definition map_curve_error :: "session_curve_wire_error \<Rightarrow> session_error" where
  "map_curve_error e =
     (case e of RemovedBrainpoolP512 \<Rightarrow> RemovedBrainpoolP512Curve | UnknownCurve \<Rightarrow> MalformedHandshake)"

definition init_parse :: "bytes \<Rightarrow> session_error + init_message" where
  "init_parse bs =
     (if length bs < 6 then Inl MalformedHandshake
      else
      let version = bs ! 0 in
      if version \<noteq> INIT_PROTOCOL_VERSION then Inl MalformedHandshake
      else
      res_bind (map_err map_curve_error (curve_try_from_wire (bs ! 1))) (\<lambda>curve.
      let n = unat (bs ! 2); expected = public_key_len curve in
      if n \<noteq> expected then Inl MalformedHandshake
      else if length bs < 3 + n + 1 then Inl MalformedHandshake
      else
      res_bind (malformed (vextend 129 [] (slice 3 n bs))) (\<lambda>ephemeral_public_key.
      let o1 = 3 + n; flen = unat (bs ! o1); o2 = o1 + 1 in
      if length bs < o2 + flen + 2 then Inl MalformedHandshake
      else
      res_bind (malformed (vextend 64 [] (slice o2 flen bs))) (\<lambda>long_term_fingerprint.
      let o3 = o2 + flen; slen = unat (u16_of_be (bs ! o3) (bs ! (o3 + 1))); o4 = o3 + 2 in
      if length bs < o4 + slen then Inl MalformedHandshake
      else
      res_bind (malformed (vextend MAX_SIG_BYTES [] (slice o4 slen bs))) (\<lambda>signature.
      Inr \<lparr>im_version = version, im_curve = curve,
           im_ephemeral_public_key = ephemeral_public_key,
           im_long_term_fingerprint = long_term_fingerprint, im_signature = signature\<rparr>)))))"

definition response_parse :: "bytes \<Rightarrow> session_error + response_message" where
  "response_parse bs =
     (if length bs < 6 then Inl MalformedHandshake
      else
      let version = bs ! 0 in
      if version \<noteq> RESP_PROTOCOL_VERSION then Inl MalformedHandshake
      else
      res_bind (map_err map_curve_error (curve_try_from_wire (bs ! 1))) (\<lambda>curve.
      let n = unat (bs ! 2); expected = public_key_len curve in
      if n \<noteq> expected then Inl MalformedHandshake
      else if length bs < 3 + n + 1 then Inl MalformedHandshake
      else
      res_bind (malformed (vextend 129 [] (slice 3 n bs))) (\<lambda>ephemeral_public_key.
      let o1 = 3 + n; flen = unat (bs ! o1); o2 = o1 + 1 in
      if length bs < o2 + flen + 1 then Inl MalformedHandshake
      else
      res_bind (malformed (vextend 64 [] (slice o2 flen bs))) (\<lambda>long_term_fingerprint.
      let o3 = o2 + flen; ilen = unat (bs ! o3); o4 = o3 + 1 in
      if ilen \<noteq> expected then Inl MalformedHandshake
      else if length bs < o4 + ilen + 2 then Inl MalformedHandshake
      else
      res_bind (malformed (vextend 129 [] (slice o4 ilen bs))) (\<lambda>initiator_ephemeral_public_key.
      let o5 = o4 + ilen; slen = unat (u16_of_be (bs ! o5) (bs ! (o5 + 1))); o6 = o5 + 2 in
      if length bs < o6 + slen then Inl MalformedHandshake
      else
      res_bind (malformed (vextend MAX_SIG_BYTES [] (slice o6 slen bs))) (\<lambda>signature.
      Inr \<lparr>rm_version = version, rm_curve = curve,
           rm_ephemeral_public_key = ephemeral_public_key,
           rm_long_term_fingerprint = long_term_fingerprint,
           rm_initiator_ephemeral_public_key = initiator_ephemeral_public_key,
           rm_signature = signature\<rparr>))))))"

section \<open>The wire format\<close>

text \<open>
  What the messages look like on the wire: fields with a one-byte length, the signature with a
  big-endian two-byte length. The types of the source bound the fields; a message is \<open>wf\<close> when it also
  has the version and the key lengths that the parser demands.
\<close>

definition field8 :: "bytes \<Rightarrow> bytes" where "field8 b = of_nat (length b) # b"
definition field16 :: "bytes \<Rightarrow> bytes" where "field16 b = u16_be (of_nat (length b)) @ b"

definition init_wire :: "init_message \<Rightarrow> bytes" where
  "init_wire m = [im_version m, curve_wire_id (im_curve m)] @ field8 (im_ephemeral_public_key m)
     @ field8 (im_long_term_fingerprint m) @ field16 (im_signature m)"

definition response_wire :: "response_message \<Rightarrow> bytes" where
  "response_wire m = [rm_version m, curve_wire_id (rm_curve m)] @ field8 (rm_ephemeral_public_key m)
     @ field8 (rm_long_term_fingerprint m) @ field8 (rm_initiator_ephemeral_public_key m)
     @ field16 (rm_signature m)"

definition init_wf :: "init_message \<Rightarrow> bool" where
  "init_wf m \<longleftrightarrow> im_version m = 1 \<and> length (im_ephemeral_public_key m) = public_key_len (im_curve m)
     \<and> length (im_long_term_fingerprint m) \<le> 64 \<and> length (im_signature m) \<le> 200"

definition response_wf :: "response_message \<Rightarrow> bool" where
  "response_wf m \<longleftrightarrow> rm_version m = 1 \<and> length (rm_ephemeral_public_key m) = public_key_len (rm_curve m)
     \<and> length (rm_initiator_ephemeral_public_key m) = public_key_len (rm_curve m)
     \<and> length (rm_long_term_fingerprint m) \<le> 64 \<and> length (rm_signature m) \<le> 200"

locale wire_codec =
  fixes serialise :: "'m \<Rightarrow> session_error + bytes"
    and parse :: "bytes \<Rightarrow> session_error + 'm"
    and wf :: "'m \<Rightarrow> bool"
    and wire :: "'m \<Rightarrow> bytes"
  assumes serialise_wf: "wf m \<Longrightarrow> serialise m = Inr (wire m)"
    and parse_wire: "wf m \<Longrightarrow> parse (wire m @ rest) = Inr m"
    and parse_wf: "parse bs = Inr m \<Longrightarrow> wf m \<and> (\<exists>rest. bs = wire m @ rest)"
begin

lemma parse_exact: "parse bs = Inr m \<longleftrightarrow> wf m \<and> (\<exists>w rest. serialise m = Inr w \<and> bs = w @ rest)"
  using serialise_wf parse_wire parse_wf by (metis sum.inject(2))

lemma wire_prefix_free: "wf m \<Longrightarrow> wf m' \<Longrightarrow> wire m @ r = wire m' @ r' \<Longrightarrow> m = m'"
  using parse_wire by (metis sum.inject(2))

lemma serialise_parse: "wf m \<Longrightarrow> res_bind (serialise m) parse = Inr m"
  using serialise_wf parse_wire [of m "[]"] by simp

end

lemma public_key_len_le: "public_key_len c \<le> 97" "65 \<le> public_key_len c"
  by (cases c; simp)+

lemma vextend_Nil [simp]: "vextend cap [] ys = (if length ys \<le> cap then Some ys else None)"
  by (simp add: vextend_def)

lemma low_byte [simp]: "(ucast ((w :: u16) AND 0xFF) :: u8) = ucast w"
proof -
  have "w AND 0xFF = take_bit 8 w" by (simp add: take_bit_eq_mask mask_eq_exp_minus_1)
  then show ?thesis by (auto simp: bit_simps intro: bit_word_eqI)
qed

lemma slice_at: "length p = i \<Longrightarrow> length xs = n \<Longrightarrow> slice i n (p @ xs @ q) = xs"
  by (simp add: slice_def)

lemma nth_at: "length p = i \<Longrightarrow> (p @ x # q) ! i = x"
  by auto

lemma drop_field: "i + n \<le> length bs \<Longrightarrow> drop i bs = slice i n bs @ drop (i + n) bs"
  by (metis add.commute append_take_drop_id drop_drop slice_def)

lemma drop_byte: "i < length bs \<Longrightarrow> drop i bs = bs ! i # drop (i + 1) bs"
  by (simp add: Cons_nth_drop_Suc)

lemma split_header: "6 \<le> length bs \<Longrightarrow> bs = [bs ! 0, bs ! 1, bs ! 2] @ drop 3 bs"
  using drop_byte [of 0 bs] drop_byte [of 1 bs] drop_byte [of 2 bs]
  by (cases "bs = []") (simp_all add: numeral_2_eq_2 numeral_3_eq_3)

lemma byte_bit_beyond [simp]: "\<not> bit (b :: u8) (8 + n)"
  by (auto dest: bit_imp_le_length)

lemma be_of_be: "u16_be (u16_of_be a b) = [a, b]"
  by (auto simp: u16_be_def u16_of_be_def bit_simps intro!: bit_word_eqI)

lemma field8_of_byte: "length b = unat x \<Longrightarrow> field8 b = x # b"
  by (simp add: field8_def)

lemma field16_of_bytes: "length b = unat (u16_of_be x y) \<Longrightarrow> field16 b = x # y # b"
  by (simp add: field16_def be_of_be)

lemma curve_from_wire_Inr: "curve_try_from_wire b = Inr c \<Longrightarrow> curve_wire_id c = b"
  by (auto simp: curve_try_from_wire_def split: if_splits)

subsection \<open>The initiator's message\<close>

lemma init_serialise_wf: "init_wf m \<Longrightarrow> init_serialise m = Inr (init_wire m)"
  using public_key_len_le [of "im_curve m"]
  by (simp add: init_serialise_def init_wf_def init_wire_def vpush_def vextend_def Let_def
      field8_def field16_def u16_be_def)

lemma init_parse_wire:
  assumes "init_wf m"
  shows "init_parse (init_wire m @ rest) = Inr m"
proof -
  define v c e f s where "v = im_version m" and "c = im_curve m" and "e = im_ephemeral_public_key m"
    and "f = im_long_term_fingerprint m" and "s = im_signature m"
  define sl where "sl = (of_nat (length s) :: u16)"
  define bs where "bs = init_wire m @ rest"
  note defs = v_def [symmetric] c_def [symmetric] e_def [symmetric] f_def [symmetric] s_def [symmetric]
  from assms have l: "v = 1" "length e = public_key_len c" "length f \<le> 64" "length s \<le> 200"
    by (simp_all add: init_wf_def defs)
  with public_key_len_le [of c] have b: "length e \<le> 97" "65 \<le> length e" by simp_all
  have n: "unat (of_nat (length e) :: u8) = length e" "unat (of_nat (length f) :: u8) = length f"
    "unat sl = length s"
    using l b by (simp_all add: unat_of_nat_u8 unat_of_nat_u16 sl_def)
  have bs: "bs = [v, curve_wire_id c, of_nat (length e)] @ e @ of_nat (length f) # f
      @ ucast (drop_bit 8 sl) # ucast sl # s @ rest"
    by (simp add: bs_def init_wire_def defs field8_def field16_def u16_be_def sl_def)
  have "bs ! 0 = v" "bs ! 1 = curve_wire_id c" "bs ! 2 = of_nat (length e)" by (simp_all add: bs)
  moreover have "slice 3 (length e) bs = e" unfolding bs by (rule slice_at) simp_all
  moreover have "bs ! (3 + length e) = of_nat (length f)"
    using nth_at [of "[v, curve_wire_id c, of_nat (length e)] @ e" "3 + length e"] by (simp add: bs)
  moreover have "slice (4 + length e) (length f) bs = f"
    using slice_at [of "[v, curve_wire_id c, of_nat (length e)] @ e @ [of_nat (length f)]" "4 + length e" f]
    by (simp add: bs)
  moreover have "bs ! (4 + length e + length f) = ucast (drop_bit 8 sl)"
    using nth_at [of "[v, curve_wire_id c, of_nat (length e)] @ e @ of_nat (length f) # f"
      "4 + length e + length f"] by (simp add: bs)
  moreover have "bs ! (5 + (length e + length f)) = ucast sl"
    using nth_at [of "[v, curve_wire_id c, of_nat (length e)] @ e @ of_nat (length f) # f
      @ [ucast (drop_bit 8 sl)]" "5 + (length e + length f)"] by (simp add: bs)
  moreover have "slice (6 + (length e + length f)) (length s) bs = s"
    using slice_at [of "[v, curve_wire_id c, of_nat (length e)] @ e @ of_nat (length f) # f
      @ [ucast (drop_bit 8 sl), ucast sl]" "6 + (length e + length f)" s] by (simp add: bs)
  moreover have "length bs = 6 + length e + length f + length s + length rest" by (simp add: bs)
  ultimately have "init_parse bs = Inr \<lparr>im_version = v, im_curve = c, im_ephemeral_public_key = e,
      im_long_term_fingerprint = f, im_signature = s\<rparr>"
    using l b n by (simp add: init_parse_def Let_def INIT_PROTOCOL_VERSION_def)
  then show ?thesis by (simp add: bs_def v_def c_def e_def f_def s_def)
qed

lemma init_parse_wf:
  assumes "init_parse bs = Inr m"
  shows "init_wf m \<and> (\<exists>rest. bs = init_wire m @ rest)"
proof -
  define c n where "c = im_curve m" and "n = public_key_len c"
  define i1 where "i1 = 3 + n"
  define fl where "fl = unat (bs ! i1)"
  define i3 where "i3 = i1 + 1 + fl"
  define sl where "sl = unat (u16_of_be (bs ! i3) (bs ! (i3 + 1)))"
  from assms have long: "6 \<le> length bs" and v: "bs ! 0 = 1"
    by (auto simp: init_parse_def Let_def INIT_PROTOCOL_VERSION_def split: if_splits)
  with assms have c: "curve_try_from_wire (bs ! 1) = Inr c"
    by (auto simp: init_parse_def Let_def INIT_PROTOCOL_VERSION_def c_def res_bind_eq_Inr split: if_splits)
  with assms long v have g: "unat (bs ! 2) = n" "3 + n + 1 \<le> length bs" "i1 + 1 + fl + 2 \<le> length bs"
      "fl \<le> 64" "i3 + 2 + sl \<le> length bs" "sl \<le> 200"
    and m: "m = \<lparr>im_version = 1, im_curve = c, im_ephemeral_public_key = slice 3 n bs,
      im_long_term_fingerprint = slice (i1 + 1) fl bs, im_signature = slice (i3 + 2) sl bs\<rparr>"
    by (auto simp: init_parse_def Let_def INIT_PROTOCOL_VERSION_def n_def i1_def fl_def i3_def sl_def
        split: if_splits)
  have n: "n \<le> 97" using public_key_len_le by (simp add: n_def)
  have f: "field8 (slice 3 n bs) = bs ! 2 # slice 3 n bs"
    "field8 (slice (i1 + 1) fl bs) = bs ! i1 # slice (i1 + 1) fl bs"
    "field16 (slice (i3 + 2) sl bs) = bs ! i3 # bs ! (i3 + 1) # slice (i3 + 2) sl bs"
    by (rule field8_of_byte field16_of_bytes; use g in \<open>simp add: fl_def sl_def\<close>)+
  have "bs = [1, curve_wire_id c, bs ! 2] @ drop 3 bs"
    using split_header [OF long] curve_from_wire_Inr [OF c] v by simp
  also have "drop 3 bs = slice 3 n bs @ drop i1 bs" using g drop_field [of 3 n bs] by (simp add: i1_def)
  also have "drop i1 bs = bs ! i1 # slice (i1 + 1) fl bs @ drop i3 bs"
    using g drop_byte [of i1 bs] drop_field [of "i1 + 1" fl bs] by (simp add: i1_def i3_def)
  also have "drop i3 bs = bs ! i3 # bs ! (i3 + 1) # slice (i3 + 2) sl bs @ drop (i3 + 2 + sl) bs"
    using g drop_byte [of i3 bs] drop_byte [of "i3 + 1" bs] drop_field [of "i3 + 2" sl bs] by simp
  finally have "bs = [1, curve_wire_id c] @ field8 (slice 3 n bs) @ field8 (slice (i1 + 1) fl bs)
      @ field16 (slice (i3 + 2) sl bs) @ drop (i3 + 2 + sl) bs"
    unfolding f by simp
  then have "bs = init_wire m @ drop (i3 + 2 + sl) bs" by (simp add: init_wire_def m)
  moreover have "init_wf m" using g n by (simp add: init_wf_def m n_def)
  ultimately show ?thesis by blast
qed

interpretation init_codec: wire_codec init_serialise init_parse init_wf init_wire
  by unfold_locales (simp_all add: init_serialise_wf init_parse_wire init_parse_wf)

subsection \<open>The responder's message\<close>

lemma response_serialise_wf: "response_wf m \<Longrightarrow> response_serialise m = Inr (response_wire m)"
  using public_key_len_le [of "rm_curve m"]
  by (simp add: response_serialise_def response_wf_def response_wire_def vpush_def vextend_def Let_def
      field8_def field16_def u16_be_def)

lemma response_parse_wire:
  assumes "response_wf m"
  shows "response_parse (response_wire m @ rest) = Inr m"
proof -
  define v c e f i s where "v = rm_version m" and "c = rm_curve m" and "e = rm_ephemeral_public_key m"
    and "f = rm_long_term_fingerprint m" and "i = rm_initiator_ephemeral_public_key m" and "s = rm_signature m"
  define sl where "sl = (of_nat (length s) :: u16)"
  define bs where "bs = response_wire m @ rest"
  define h where "h = [v, curve_wire_id c, of_nat (length e)] @ e"
  define k where "k = h @ field8 f @ field8 i"
  note defs = v_def [symmetric] c_def [symmetric] e_def [symmetric] f_def [symmetric] i_def [symmetric]
    s_def [symmetric]
  from assms have l: "v = 1" "length e = public_key_len c" "length i = public_key_len c"
      "length f \<le> 64" "length s \<le> 200"
    by (simp_all add: response_wf_def defs)
  with public_key_len_le [of c] have b: "length e \<le> 97" "65 \<le> length e" by simp_all
  have n: "unat (of_nat (length e) :: u8) = length e" "unat (of_nat (length f) :: u8) = length f"
    "unat sl = length s"
    using l b by (simp_all add: unat_of_nat_u8 unat_of_nat_u16 sl_def)
  have bs: "bs = k @ ucast (drop_bit 8 sl) # ucast sl # s @ rest"
    by (simp add: bs_def response_wire_def defs field8_def field16_def u16_be_def sl_def h_def k_def)
  have k: "length h = 3 + length e" "length k = 5 + (2 * length e + length f)" using l by (simp_all add: h_def k_def field8_def)
  have "bs ! 0 = v" "bs ! 1 = curve_wire_id c" "bs ! 2 = of_nat (length e)"
    by (simp_all add: bs k_def h_def)
  moreover have "slice 3 (length e) bs = e"
    unfolding bs k_def h_def append_assoc by (rule slice_at) simp_all
  moreover have "bs ! (3 + length e) = of_nat (length f)"
    using nth_at [OF k(1)] by (simp add: bs k_def field8_def)
  moreover have "slice (4 + length e) (length f) bs = f"
    using slice_at [of "h @ [of_nat (length f)]" "4 + length e" f] k by (simp add: bs k_def field8_def)
  moreover have "bs ! (4 + length e + length f) = of_nat (length e)"
    using nth_at [of "h @ field8 f" "4 + length e + length f"] k l by (simp add: bs k_def field8_def)
  moreover have "slice (5 + (length e + length f)) (length e) bs = i"
    using slice_at [of "h @ field8 f @ [of_nat (length i)]" "5 + (length e + length f)" i] k l
    by (simp add: bs k_def field8_def)
  moreover have "bs ! (5 + (2 * length e + length f)) = ucast (drop_bit 8 sl)"
    using nth_at [OF k(2)] by (simp add: bs)
  moreover have "bs ! (6 + (2 * length e + length f)) = ucast sl"
    using nth_at [of "k @ [ucast (drop_bit 8 sl)]" "6 + (2 * length e + length f)"] k by (simp add: bs)
  moreover have "slice (7 + (2 * length e + length f)) (length s) bs = s"
    using slice_at [of "k @ [ucast (drop_bit 8 sl), ucast sl]" "7 + (2 * length e + length f)" s] k
    by (simp add: bs)
  moreover have "length bs = 7 + 2 * length e + length f + length s + length rest" using k by (simp add: bs)
  ultimately have "response_parse bs = Inr \<lparr>rm_version = v, rm_curve = c, rm_ephemeral_public_key = e,
      rm_long_term_fingerprint = f, rm_initiator_ephemeral_public_key = i, rm_signature = s\<rparr>"
    using l b n by (simp add: response_parse_def Let_def RESP_PROTOCOL_VERSION_def mult_2 ac_simps)
  then show ?thesis by (simp add: bs_def v_def c_def e_def f_def i_def s_def)
qed

lemma response_parse_wf:
  assumes "response_parse bs = Inr m"
  shows "response_wf m \<and> (\<exists>rest. bs = response_wire m @ rest)"
proof -
  define c n where "c = rm_curve m" and "n = public_key_len c"
  define i1 where "i1 = 3 + n"
  define fl where "fl = unat (bs ! i1)"
  define i3 where "i3 = i1 + 1 + fl"
  define i5 where "i5 = i3 + 1 + n"
  define sl where "sl = unat (u16_of_be (bs ! i5) (bs ! (i5 + 1)))"
  from assms have long: "6 \<le> length bs" and v: "bs ! 0 = 1"
    by (auto simp: response_parse_def Let_def RESP_PROTOCOL_VERSION_def split: if_splits)
  with assms have c: "curve_try_from_wire (bs ! 1) = Inr c"
    by (auto simp: response_parse_def Let_def RESP_PROTOCOL_VERSION_def c_def res_bind_eq_Inr split: if_splits)
  with assms long v have g: "unat (bs ! 2) = n" "3 + n + 1 \<le> length bs" "i1 + 1 + fl + 1 \<le> length bs"
      "fl \<le> 64" "unat (bs ! i3) = n" "i5 + 2 \<le> length bs" "i5 + 2 + sl \<le> length bs" "sl \<le> 200"
    and m: "m = \<lparr>rm_version = 1, rm_curve = c, rm_ephemeral_public_key = slice 3 n bs,
      rm_long_term_fingerprint = slice (i1 + 1) fl bs,
      rm_initiator_ephemeral_public_key = slice (i3 + 1) n bs, rm_signature = slice (i5 + 2) sl bs\<rparr>"
    by (auto simp: response_parse_def Let_def RESP_PROTOCOL_VERSION_def n_def i1_def fl_def i3_def i5_def
        sl_def split: if_splits)
  have f: "field8 (slice 3 n bs) = bs ! 2 # slice 3 n bs"
    "field8 (slice (i1 + 1) fl bs) = bs ! i1 # slice (i1 + 1) fl bs"
    "field8 (slice (i3 + 1) n bs) = bs ! i3 # slice (i3 + 1) n bs"
    "field16 (slice (i5 + 2) sl bs) = bs ! i5 # bs ! (i5 + 1) # slice (i5 + 2) sl bs"
    by (rule field8_of_byte field16_of_bytes; use g in \<open>simp add: fl_def sl_def i5_def\<close>)+
  have "bs = [1, curve_wire_id c, bs ! 2] @ drop 3 bs"
    using split_header [OF long] curve_from_wire_Inr [OF c] v by simp
  also have "drop 3 bs = slice 3 n bs @ drop i1 bs" using g drop_field [of 3 n bs] by (simp add: i1_def)
  also have "drop i1 bs = bs ! i1 # slice (i1 + 1) fl bs @ drop i3 bs"
    using g drop_byte [of i1 bs] drop_field [of "i1 + 1" fl bs] by (simp add: i1_def i3_def)
  also have "drop i3 bs = bs ! i3 # slice (i3 + 1) n bs @ drop i5 bs"
    using g drop_byte [of i3 bs] drop_field [of "i3 + 1" n bs] by (simp add: i5_def)
  also have "drop i5 bs = bs ! i5 # bs ! (i5 + 1) # slice (i5 + 2) sl bs @ drop (i5 + 2 + sl) bs"
    using g drop_byte [of i5 bs] drop_byte [of "i5 + 1" bs] drop_field [of "i5 + 2" sl bs] by simp
  finally have "bs = [1, curve_wire_id c] @ field8 (slice 3 n bs) @ field8 (slice (i1 + 1) fl bs)
      @ field8 (slice (i3 + 1) n bs) @ field16 (slice (i5 + 2) sl bs) @ drop (i5 + 2 + sl) bs"
    unfolding f by simp
  then have "bs = response_wire m @ drop (i5 + 2 + sl) bs" by (simp add: response_wire_def m)
  moreover have "response_wf m"
    using g public_key_len_le [of c] by (simp add: response_wf_def m n_def i5_def)
  ultimately show ?thesis by blast
qed

interpretation response_codec: wire_codec response_serialise response_parse response_wf response_wire
  by unfold_locales (simp_all add: response_serialise_wf response_parse_wire response_parse_wf)

section \<open>Fingerprints\<close>

lemma hex_val_digit: "k < 16 \<Longrightarrow> hex_val (HEX_DIGITS ! k) = Inr (of_nat k)"
proof -
  have "\<forall>k \<in> set [0..<16]. hex_val (HEX_DIGITS ! k) = Inr (of_nat k)" by code_simp
  then show "k < 16 \<Longrightarrow> hex_val (HEX_DIGITS ! k) = Inr (of_nat k)" by simp
qed

lemma nibbles: "push_bit 4 (drop_bit 4 b) OR (b AND 0x0F) = (b :: u8)" "unat (drop_bit 4 b) < 16"
  "unat (b AND 0x0F) < 16"
proof -
  have m: "b AND 0x0F = take_bit 4 b" by (simp add: take_bit_eq_mask mask_eq_exp_minus_1)
  show "push_bit 4 (drop_bit 4 b) OR (b AND 0x0F) = b"
    unfolding m by (rule bit_word_eqI) (auto simp: bit_simps)
  have "unat b < 256" using unsigned_less [of b] by simp
  moreover from this have "unat (drop_bit 4 b) = drop_bit 4 (unat b)"
    by (simp add: unsigned_drop_bit_eq take_bit_nat_eq_self)
  ultimately show "unat (drop_bit 4 b) < 16" by (simp add: drop_bit_nat_def)
  show "unat (b AND 0x0F) < 16" using take_bit_nat_less_exp [of 4 "unat b"] unfolding m by (simp add: unsigned_take_bit_eq)
qed

lemma hex_encode_concat:
  "hex_encode_32 raw =
     concat (map (\<lambda>b. [HEX_DIGITS ! unat (drop_bit 4 b), HEX_DIGITS ! unat (b AND 0x0F)]) raw)"
proof -
  have "fold (\<lambda>b out. out @ [HEX_DIGITS ! unat (drop_bit 4 b)] @ [HEX_DIGITS ! unat (b AND 0x0F)]) raw out
    = out @ concat (map (\<lambda>b. [HEX_DIGITS ! unat (drop_bit 4 b), HEX_DIGITS ! unat (b AND 0x0F)]) raw)" for out
    by (induction raw arbitrary: out) simp_all
  then show ?thesis by (simp add: hex_encode_32_def)
qed

lemma length_hex_encode [simp]: "length (hex_encode_32 raw) = 2 * length raw"
  unfolding hex_encode_concat by (induction raw) simp_all

lemma nth_hex_encode:
  "i < length raw \<Longrightarrow> hex_encode_32 raw ! (i * 2) = HEX_DIGITS ! unat (drop_bit 4 (raw ! i))
     \<and> hex_encode_32 raw ! (i * 2 + 1) = HEX_DIGITS ! unat (raw ! i AND 0x0F)"
  unfolding hex_encode_concat
proof (induction raw arbitrary: i)
  case (Cons b raw)
  then show ?case by (cases i) simp_all
qed simp

lemma hex_decode_loop_encode:
  assumes "length raw = 32" and "k \<le> 32"
  shows "hex_decode_loop (hex_encode_32 raw) [k..<32] (take k raw @ replicate (32 - k) 0) = Inr raw"
  using assms(2)
proof (induction "32 - k" arbitrary: k)
  case 0
  with assms show ?case by simp
next
  case (Suc n)
  with assms have k: "k < length raw" "k < 32" by simp_all
  have "replicate (32 - k) (0 :: u8) = 0 # replicate (32 - Suc k) 0"
    using k by (simp only: Suc_diff_Suc flip: replicate_Suc)
  with k have "(take k raw @ replicate (32 - k) 0)[k := raw ! k] = take (Suc k) raw @ replicate (32 - Suc k) 0"
    by (simp add: list_update_append take_Suc_conv_app_nth)
  with Suc.hyps(1) [of "Suc k"] Suc.hyps(2) k nth_hex_encode [OF k(1)] nibbles show ?case
    by (simp add: upt_conv_Cons hex_val_digit)
qed

lemma decode_encode_fingerprint [simp]:
  "length raw = 32 \<Longrightarrow> decode_fingerprint_hex (encode_fingerprint_hex raw) = Inr raw"
  using hex_decode_loop_encode [of raw 0]
  by (simp add: decode_fingerprint_hex_def encode_fingerprint_hex_def hex_decode_64_def)

lemma length_encode_fingerprint [simp]: "length (encode_fingerprint_hex raw) = 2 * length raw"
  by (simp add: encode_fingerprint_hex_def)

section \<open>Properties\<close>

text \<open>
  The handshake parsers are exact: a byte string parses to a message if and only if the message
  has the protocol version, keys of its curve's length and fields within their bounds, and the string
  begins with its serialisation. Nothing is said about what follows: trailing bytes are ignored.
\<close>

theorem handshake_parsers_exact:
  "(init_parse bs = Inr m \<longleftrightarrow> init_wf m \<and> (\<exists>w rest. init_serialise m = Inr w \<and> bs = w @ rest))
   \<and> (response_parse bs = Inr r \<longleftrightarrow> response_wf r \<and> (\<exists>w rest. response_serialise r = Inr w \<and> bs = w @ rest))"
  using init_codec.parse_exact response_codec.parse_exact by blast

end
