(* ===== verification/Session_Crypto.thy ===== *)
theory Session_Crypto
  imports Key_Vault Handshake_Wire
begin

text \<open>
  The curve operations the session handshake calls: the BrainpoolP384r1 wrappers of
  \<open>crates/vault/src/brainpool384.rs\<close>, the verification side of the BrainpoolP256r1 wrappers
  (\<open>ecdsa_brainpool.rs\<close>, \<open>brainpool.rs\<close>), and the long-term signing keys in storage
  (\<open>session_long_term_signing.rs\<close>). The P-256 operations of \<open>Key_Vault\<close> are used as they are.

  The third-party curve crates are parameters. A secret or signing key is represented by its
  canonical scalar bytes, a public or verifying key by one encoding of the point, a parsed signature
  by bytes.
\<close>

section \<open>Third-party primitives\<close>

text \<open>
  What the crate \<open>bp384\<close> with \<open>ecdsa\<close> provides. \<open>p384_sign_sha384\<close> is \<open>try_sign\<close>, which hashes with
  SHA-384; the \<open>prehash\<close> operations take a digest. \<open>p384_spki\<close> decodes an X.509 public key.
\<close>

record p384_lib =
  p384_from_slice :: "bytes \<Rightarrow> bytes option"
  p384_public_point :: "bytes \<Rightarrow> bytes"
  p384_dh :: "bytes \<Rightarrow> bytes \<Rightarrow> bytes"
  p384_sec1_parse :: "bytes \<Rightarrow> bytes option"
  p384_sec1_is_identity :: "bytes \<Rightarrow> bool"
  p384_sec1_to_public :: "bytes \<Rightarrow> bytes option"
  p384_public_is_identity :: "bytes \<Rightarrow> bool"
  p384_to_sec1_point :: "bytes \<Rightarrow> bytes"
  p384_spki :: "bytes \<Rightarrow> bytes option"
  p384_vk_from_sec1 :: "bytes \<Rightarrow> bytes option"
  p384_sign_sha384 :: "bytes \<Rightarrow> bytes \<Rightarrow> bytes option"
  p384_sign_digest :: "bytes \<Rightarrow> bytes \<Rightarrow> bytes option"
  p384_sig_from_der :: "bytes \<Rightarrow> bytes option"
  p384_verify_sha384 :: "bytes \<Rightarrow> bytes \<Rightarrow> bytes \<Rightarrow> bool"
  p384_verify_digest :: "bytes \<Rightarrow> bytes \<Rightarrow> bytes \<Rightarrow> bool"

text \<open>
  All of the handshake's third-party code: the library of \<open>Key_Vault\<close>, the rest of \<open>bp256\<close> and
  \<open>ecdsa\<close>, \<open>bp384\<close>, HMAC-SHA256 and HKDF.
\<close>

record session_lib =
  sl_crypto :: crypto_lib
  p256_to_sec1_point :: "bytes \<Rightarrow> bytes"
  p256_spki :: "bytes \<Rightarrow> bytes option"
  p256_vk_from_sec1 :: "bytes \<Rightarrow> bytes option"
  p256_sign_sha256 :: "bytes \<Rightarrow> bytes \<Rightarrow> bytes option"
  p256_sig_from_der :: "bytes \<Rightarrow> bytes option"
  p256_verify_sha256 :: "bytes \<Rightarrow> bytes \<Rightarrow> bytes \<Rightarrow> bool"
  p256_verify_digest :: "bytes \<Rightarrow> bytes \<Rightarrow> bytes \<Rightarrow> bool"
  sl_p384 :: p384_lib
  hmac_sha256 :: "bytes \<Rightarrow> bytes \<Rightarrow> bytes"
  hkdf_from_prk :: "bytes \<Rightarrow> bytes option"
  hkdf_expand :: "bytes \<Rightarrow> bytes \<Rightarrow> nat \<Rightarrow> bytes option"

section \<open>BrainpoolP256r1, the rest of the wrappers\<close>

abbreviation MAX_DER_SIG :: nat where "MAX_DER_SIG \<equiv> 72"

definition bp_sig_from_der_bytes :: "bytes \<Rightarrow> brainpool_error + bytes" where
  "bp_sig_from_der_bytes bs = ok_or InvalidSignature (push_all MAX_DER_SIG [] bs)"

text \<open>\<open>BrainpoolPublicKey::to_sec1_uncompressed\<close> copies into \<open>[u8; 65]\<close>; the verifying key's checks first.\<close>

definition bp_to_sec1_uncompressed :: "session_lib \<Rightarrow> bytes \<Rightarrow> bytes" where
  "bp_to_sec1_uncompressed L pk = p256_to_sec1_point L pk"

definition bp_vk_to_sec1_uncompressed :: "session_lib \<Rightarrow> bytes \<Rightarrow> bytes" where
  "bp_vk_to_sec1_uncompressed L vk =
     (let out = replicate 65 0; b = p256_to_sec1_point L vk in
      if length b = 65 then b else out)"

definition bp_verifying_key :: "session_lib \<Rightarrow> bytes \<Rightarrow> bytes" where
  "bp_verifying_key L sk = bp_public_point (sl_crypto L) sk"

definition bp_vk_from_sec1 :: "session_lib \<Rightarrow> bytes \<Rightarrow> brainpool_error + bytes" where
  "bp_vk_from_sec1 L bs = ok_or InvalidPoint (p256_vk_from_sec1 L bs)"

definition bp_from_public_key_der :: "session_lib \<Rightarrow> bytes \<Rightarrow> brainpool_error + bytes" where
  "bp_from_public_key_der L bs = ok_or InvalidPoint (p256_spki L bs)"

definition bp_sign :: "session_lib \<Rightarrow> bytes \<Rightarrow> bytes \<Rightarrow> brainpool_error + bytes" where
  "bp_sign L sk message =
     res_bind (ok_or InvalidSignature (p256_sign_sha256 L sk message)) (\<lambda>sig.
     ok_or InvalidSignature (push_all MAX_DER_SIG [] sig))"

definition bp_verify :: "session_lib \<Rightarrow> bytes \<Rightarrow> bytes \<Rightarrow> bytes \<Rightarrow> brainpool_error + unit" where
  "bp_verify L vk message sig_der =
     res_bind (ok_or InvalidSignature (p256_sig_from_der L sig_der)) (\<lambda>sig.
     if p256_verify_sha256 L vk message sig then Inr () else Inl InvalidSignature)"

definition bp_verify_handshake_sha256_prehash ::
  "session_lib \<Rightarrow> bytes \<Rightarrow> bytes \<Rightarrow> bytes \<Rightarrow> brainpool_error + unit" where
  "bp_verify_handshake_sha256_prehash L vk preimage sig_der =
     (let digest = sha256 (sl_crypto L) preimage in
      res_bind (ok_or InvalidSignature (p256_sig_from_der L sig_der)) (\<lambda>sig.
      if p256_verify_digest L vk digest sig then Inr () else Inl InvalidSignature))"

section \<open>BrainpoolP384r1 wrappers\<close>

abbreviation MAX_DER_SIG_P384 :: nat where "MAX_DER_SIG_P384 \<equiv> 150"

definition p384_sig_from_der_bytes :: "bytes \<Rightarrow> brainpool_error + bytes" where
  "p384_sig_from_der_bytes bs = ok_or InvalidSignature (push_all MAX_DER_SIG_P384 [] bs)"

text \<open>\<open>BrainpoolP384Scalar::generate\<close> and \<open>BrainpoolP384SigningKey::generate\<close>.\<close>

fun p384_sample :: "p384_lib \<Rightarrow> 'w hardware_trng \<Rightarrow> nat \<Rightarrow> 'w \<Rightarrow> (brainpool_error + bytes) \<times> 'w" where
  "p384_sample P tr 0 w = (Inl TrngFailure, w)"
| "p384_sample P tr (Suc n) w =
     (case tr_try_fill tr 48 w of
        (Inl _, w1) \<Rightarrow> (Inl TrngFailure, w1)
      | (Inr raw, w1) \<Rightarrow>
          (case p384_from_slice P raw of
             Some sk \<Rightarrow> (Inr sk, w1)
           | None \<Rightarrow> p384_sample P tr n w1))"

definition p384_scalar_generate :: "p384_lib \<Rightarrow> 'w hardware_trng \<Rightarrow> 'w \<Rightarrow> (brainpool_error + bytes) \<times> 'w" where
  "p384_scalar_generate P tr w = p384_sample P tr SCALAR_SAMPLE_TRIES w"

definition p384_signing_key_generate ::
  "p384_lib \<Rightarrow> 'w hardware_trng \<Rightarrow> 'w \<Rightarrow> (brainpool_error + bytes) \<times> 'w" where
  "p384_signing_key_generate P tr w = p384_sample P tr SCALAR_SAMPLE_TRIES w"

definition p384_secret_key :: "p384_lib \<Rightarrow> bytes \<Rightarrow> brainpool_error + bytes" where
  "p384_secret_key P s = ok_or InvalidScalar (p384_from_slice P s)"

definition p384_public_key :: "p384_lib \<Rightarrow> bytes \<Rightarrow> brainpool_error + bytes" where
  "p384_public_key P s = res_bind (p384_secret_key P s) (\<lambda>sk. Inr (p384_public_point P sk))"

definition p384_diffie_hellman :: "p384_lib \<Rightarrow> bytes \<Rightarrow> bytes \<Rightarrow> brainpool_error + bytes" where
  "p384_diffie_hellman P s peer =
     (if p384_public_is_identity P peer then Inl PointAtInfinity
      else res_bind (p384_secret_key P s) (\<lambda>sk.
        let raw = p384_dh P sk peer in
        if length raw \<noteq> 48 then Inl InvalidPoint else Inr raw))"

definition p384_scalar_from_secret :: "p384_lib \<Rightarrow> bytes \<Rightarrow> brainpool_error + bytes" where
  "p384_scalar_from_secret P bs = ok_or InvalidScalar (p384_from_slice P bs)"

definition p384_from_public_key_der :: "p384_lib \<Rightarrow> bytes \<Rightarrow> brainpool_error + bytes" where
  "p384_from_public_key_der P bs = ok_or InvalidPoint (p384_spki P bs)"

definition p384_to_sec1_uncompressed :: "p384_lib \<Rightarrow> bytes \<Rightarrow> bytes" where
  "p384_to_sec1_uncompressed P pk = p384_to_sec1_point P pk"

definition p384_from_sec1 :: "p384_lib \<Rightarrow> bytes \<Rightarrow> brainpool_error + bytes" where
  "p384_from_sec1 P bs =
     res_bind (ok_or InvalidPoint (p384_sec1_parse P bs)) (\<lambda>point.
     if p384_sec1_is_identity P point then Inl PointAtInfinity
     else ok_or InvalidPoint (p384_sec1_to_public P point))"

definition p384_verifying_key :: "p384_lib \<Rightarrow> bytes \<Rightarrow> bytes" where
  "p384_verifying_key P sk = p384_public_point P sk"

definition p384_sign :: "p384_lib \<Rightarrow> bytes \<Rightarrow> bytes \<Rightarrow> brainpool_error + bytes" where
  "p384_sign P sk message =
     res_bind (ok_or InvalidSignature (p384_sign_sha384 P sk message)) (\<lambda>sig.
     ok_or InvalidSignature (push_all MAX_DER_SIG_P384 [] sig))"

definition p384_sign_handshake_sha256_prehash ::
  "session_lib \<Rightarrow> bytes \<Rightarrow> bytes \<Rightarrow> brainpool_error + bytes" where
  "p384_sign_handshake_sha256_prehash L sk preimage =
     res_bind (ok_or InvalidSignature
       (p384_sign_digest (sl_p384 L) sk (sha256 (sl_crypto L) preimage))) (\<lambda>sig.
     ok_or InvalidSignature (push_all MAX_DER_SIG_P384 [] sig))"

definition p384_signing_key_from_scalar :: "p384_lib \<Rightarrow> bytes \<Rightarrow> brainpool_error + bytes" where
  "p384_signing_key_from_scalar P bs = ok_or InvalidScalar (p384_from_slice P bs)"

definition p384_verify :: "p384_lib \<Rightarrow> bytes \<Rightarrow> bytes \<Rightarrow> bytes \<Rightarrow> brainpool_error + unit" where
  "p384_verify P vk message sig_der =
     res_bind (ok_or InvalidSignature (p384_sig_from_der P sig_der)) (\<lambda>sig.
     if p384_verify_sha384 P vk message sig then Inr () else Inl InvalidSignature)"

definition p384_verify_handshake_sha256_prehash ::
  "session_lib \<Rightarrow> bytes \<Rightarrow> bytes \<Rightarrow> bytes \<Rightarrow> brainpool_error + unit" where
  "p384_verify_handshake_sha256_prehash L vk preimage sig_der =
     (let digest = sha256 (sl_crypto L) preimage in
      res_bind (ok_or InvalidSignature (p384_sig_from_der (sl_p384 L) sig_der)) (\<lambda>sig.
      if p384_verify_digest (sl_p384 L) vk digest sig then Inr () else Inl InvalidSignature))"

definition p384_verifying_key_from_sec1 :: "p384_lib \<Rightarrow> bytes \<Rightarrow> brainpool_error + bytes" where
  "p384_verifying_key_from_sec1 P bs = ok_or InvalidPoint (p384_vk_from_sec1 P bs)"

section \<open>Long-term signing keys in storage\<close>

definition SESSION_LT_MAGIC :: bytes where "SESSION_LT_MAGIC = [0x47, 0x4C, 0x54, 0x53]"
abbreviation SESSION_LT_SLOT_BYTES :: nat where "SESSION_LT_SLOT_BYTES \<equiv> 512"
abbreviation SESSION_LT_REGION_BASE :: nat where "SESSION_LT_REGION_BASE \<equiv> 0x100000"

datatype session_long_term_signing_key = P256 bytes | P384 bytes

datatype session_lt_error = LtSlotOccupied | LtSlotEmpty | LtInvalidEncoding | LtStorageError | LtInvalidScalar

text \<open>The saturating \<open>u64\<close> operations cannot saturate on a 32-bit slot number.\<close>

definition session_lt_slot_offset :: "u32 \<Rightarrow> nat" where
  "session_lt_slot_offset slot = SESSION_LT_REGION_BASE + unat slot * SESSION_LT_SLOT_BYTES"

fun session_lt_scalar :: "session_long_term_signing_key \<Rightarrow> u8 \<times> bytes" where
  "session_lt_scalar (P256 b) = (1, splice (replicate 64 0) 0 b)"
| "session_lt_scalar (P384 b) = (2, splice (replicate 64 0) 0 b)"

definition vault_store_session_long_term_signing_key ::
  "'w vault_storage \<Rightarrow> u32 \<Rightarrow> session_long_term_signing_key \<Rightarrow> bool \<Rightarrow> 'w \<Rightarrow> (session_lt_error + unit) \<times> 'w" where
  "vault_store_session_long_term_signing_key vs slot key overwrite w =
     (let off = session_lt_slot_offset slot in
      case vs_read vs w off 4 of
        Inl _ \<Rightarrow> (Inl LtStorageError, w)
      | Inr probe \<Rightarrow>
          if probe = SESSION_LT_MAGIC \<and> \<not> overwrite then (Inl LtSlotOccupied, w)
          else
            case session_lt_scalar key of (curve_id, scalar_buf) \<Rightarrow>
            case (if curve_id = 1 then Inr 32 else if curve_id = 2 then Inr 48
                  else Inl LtInvalidEncoding) of
              Inl e \<Rightarrow> (Inl e, w)
            | Inr slen \<Rightarrow>
                let scalar = take slen scalar_buf;
                    buf = replicate SESSION_LT_SLOT_BYTES 0;
                    buf = splice buf 0 SESSION_LT_MAGIC;
                    buf = buf[4 := curve_id];
                    buf = buf[5 := of_nat (length scalar)];
                    buf = splice buf 6 scalar in
                case vs_write vs w off buf of (r, w1) \<Rightarrow> (map_err (\<lambda>_. LtStorageError) r, w1))"

definition vault_load_session_long_term_signing_key ::
  "session_lib \<Rightarrow> 'w vault_storage \<Rightarrow> u32 \<Rightarrow> u8 \<Rightarrow> 'w \<Rightarrow> session_lt_error + session_long_term_signing_key" where
  "vault_load_session_long_term_signing_key L vs slot expected_curve w =
     res_bind (map_err (\<lambda>_. LtStorageError)
       (vs_read vs w (session_lt_slot_offset slot) SESSION_LT_SLOT_BYTES)) (\<lambda>buf.
     if slice 0 4 buf \<noteq> SESSION_LT_MAGIC then Inl LtSlotEmpty
     else
       let curve_id = buf ! 4 in
       if curve_id \<noteq> expected_curve then Inl LtInvalidEncoding
       else
         let slen = unat (buf ! 5) in
         if slen = 0 \<or> slen > 64 \<or> 6 + slen > SESSION_LT_SLOT_BYTES then Inl LtInvalidEncoding
         else
           let scalar = slice 6 slen buf in
           if curve_id = 1 then
             (if slen \<noteq> 32 then Inl LtInvalidEncoding
              else res_bind (map_err (\<lambda>_. LtInvalidScalar)
                (bp_signing_key_from_scalar (sl_crypto L) scalar)) (\<lambda>sk. Inr (P256 sk)))
           else if curve_id = 2 then
             (if slen \<noteq> 48 then Inl LtInvalidEncoding
              else res_bind (map_err (\<lambda>_. LtInvalidScalar)
                (p384_signing_key_from_scalar (sl_p384 L) scalar)) (\<lambda>sk. Inr (P384 sk)))
           else Inl LtInvalidEncoding)"

section \<open>What the curve crates document\<close>

text \<open>The primitives of the two curves under one name.\<close>

fun scalar_len :: "session_curve \<Rightarrow> nat" where
  "scalar_len BrainpoolP256r1 = 32" | "scalar_len BrainpoolP384r1 = 48"

fun der_limit :: "session_curve \<Rightarrow> nat" where
  "der_limit BrainpoolP256r1 = 72" | "der_limit BrainpoolP384r1 = 150"

fun curve_scalar :: "session_lib \<Rightarrow> session_curve \<Rightarrow> bytes \<Rightarrow> bytes option" where
  "curve_scalar L BrainpoolP256r1 = bp_from_slice (sl_crypto L)"
| "curve_scalar L BrainpoolP384r1 = p384_from_slice (sl_p384 L)"

fun curve_point :: "session_lib \<Rightarrow> session_curve \<Rightarrow> bytes \<Rightarrow> bytes" where
  "curve_point L BrainpoolP256r1 = bp_public_point (sl_crypto L)"
| "curve_point L BrainpoolP384r1 = p384_public_point (sl_p384 L)"

fun curve_sec1 :: "session_lib \<Rightarrow> session_curve \<Rightarrow> bytes \<Rightarrow> bytes" where
  "curve_sec1 L BrainpoolP256r1 = p256_to_sec1_point L"
| "curve_sec1 L BrainpoolP384r1 = p384_to_sec1_point (sl_p384 L)"

fun curve_sec1_parse :: "session_lib \<Rightarrow> session_curve \<Rightarrow> bytes \<Rightarrow> bytes option" where
  "curve_sec1_parse L BrainpoolP256r1 = sec1_parse (sl_crypto L)"
| "curve_sec1_parse L BrainpoolP384r1 = p384_sec1_parse (sl_p384 L)"

fun curve_sec1_is_identity :: "session_lib \<Rightarrow> session_curve \<Rightarrow> bytes \<Rightarrow> bool" where
  "curve_sec1_is_identity L BrainpoolP256r1 = sec1_is_identity (sl_crypto L)"
| "curve_sec1_is_identity L BrainpoolP384r1 = p384_sec1_is_identity (sl_p384 L)"

fun curve_sec1_to_public :: "session_lib \<Rightarrow> session_curve \<Rightarrow> bytes \<Rightarrow> bytes option" where
  "curve_sec1_to_public L BrainpoolP256r1 = sec1_to_public (sl_crypto L)"
| "curve_sec1_to_public L BrainpoolP384r1 = p384_sec1_to_public (sl_p384 L)"

fun curve_is_identity :: "session_lib \<Rightarrow> session_curve \<Rightarrow> bytes \<Rightarrow> bool" where
  "curve_is_identity L BrainpoolP256r1 = public_is_identity (sl_crypto L)"
| "curve_is_identity L BrainpoolP384r1 = p384_public_is_identity (sl_p384 L)"

fun curve_dh :: "session_lib \<Rightarrow> session_curve \<Rightarrow> bytes \<Rightarrow> bytes \<Rightarrow> bytes" where
  "curve_dh L BrainpoolP256r1 = bp_dh (sl_crypto L)"
| "curve_dh L BrainpoolP384r1 = p384_dh (sl_p384 L)"

fun curve_vk :: "session_lib \<Rightarrow> session_curve \<Rightarrow> bytes \<Rightarrow> bytes option" where
  "curve_vk L BrainpoolP256r1 = p256_vk_from_sec1 L"
| "curve_vk L BrainpoolP384r1 = p384_vk_from_sec1 (sl_p384 L)"

fun curve_sign :: "session_lib \<Rightarrow> session_curve \<Rightarrow> bytes \<Rightarrow> bytes \<Rightarrow> bytes option" where
  "curve_sign L BrainpoolP256r1 = bp_sign_prehash (sl_crypto L)"
| "curve_sign L BrainpoolP384r1 = p384_sign_digest (sl_p384 L)"

fun curve_sig :: "session_lib \<Rightarrow> session_curve \<Rightarrow> bytes \<Rightarrow> bytes option" where
  "curve_sig L BrainpoolP256r1 = p256_sig_from_der L"
| "curve_sig L BrainpoolP384r1 = p384_sig_from_der (sl_p384 L)"

fun curve_verify :: "session_lib \<Rightarrow> session_curve \<Rightarrow> bytes \<Rightarrow> bytes \<Rightarrow> bytes \<Rightarrow> bool" where
  "curve_verify L BrainpoolP256r1 = p256_verify_digest L"
| "curve_verify L BrainpoolP384r1 = p384_verify_digest (sl_p384 L)"

text \<open>
  The documented behaviour the handshake relies on: scalar bytes are canonical; a public key survives
  its uncompressed encoding, as a point and as a verifying key, and is not the identity; key agreement
  is commutative; a signature over a digest verifies under the signer's key and its encoding is within
  the size the wrappers reserve; hashes have 32 bytes and HKDF yields 32-byte outputs.
\<close>

locale session_crypto =
  fixes L :: session_lib
  assumes scalar: "curve_scalar L c raw = Some sk \<Longrightarrow> length sk = scalar_len c \<and> curve_scalar L c sk = Some sk"
    and public_key: "curve_scalar L c sk = Some sk \<Longrightarrow>
      length (curve_sec1 L c (curve_point L c sk)) = public_key_len c \<and>
      \<not> curve_is_identity L c (curve_point L c sk) \<and>
      (\<exists>q. curve_sec1_parse L c (curve_sec1 L c (curve_point L c sk)) = Some q \<and>
        \<not> curve_sec1_is_identity L c q \<and> curve_sec1_to_public L c q = Some (curve_point L c sk))"
    and verifying_key: "curve_scalar L c sk = Some sk \<Longrightarrow>
      curve_vk L c (curve_sec1 L c (curve_point L c sk)) = Some (curve_point L c sk)"
    and agreement: "curve_scalar L c a = Some a \<Longrightarrow> curve_scalar L c b = Some b \<Longrightarrow>
      curve_dh L c a (curve_point L c b) = curve_dh L c b (curve_point L c a) \<and>
      length (curve_dh L c a (curve_point L c b)) = scalar_len c"
    and signature: "curve_scalar L c sk = Some sk \<Longrightarrow> length d = 32 \<Longrightarrow>
      \<exists>s p. curve_sign L c sk d = Some s \<and> length s \<le> der_limit c \<and> curve_sig L c s = Some p \<and>
        curve_verify L c (curve_point L c sk) d p"
    and digest: "length (sha256 (sl_crypto L) m) = 32"
    and prk: "\<exists>h. hkdf_from_prk L (hmac_sha256 L k m) = Some h \<and>
      (\<forall>info. \<exists>okm. hkdf_expand L h info 32 = Some okm)"

section \<open>Stored keys\<close>

fun lt_valid :: "session_lib \<Rightarrow> session_curve \<Rightarrow> session_long_term_signing_key \<Rightarrow> bool" where
  "lt_valid L BrainpoolP256r1 (P256 sk) \<longleftrightarrow> curve_scalar L BrainpoolP256r1 sk = Some sk \<and> length sk = 32"
| "lt_valid L BrainpoolP384r1 (P384 sk) \<longleftrightarrow> curve_scalar L BrainpoolP384r1 sk = Some sk \<and> length sk = 48"
| "lt_valid L _ _ \<longleftrightarrow> False"

definition lt_slot_bytes :: "session_long_term_signing_key \<Rightarrow> bytes" where
  "lt_slot_bytes key =
     (case key of
        P256 b \<Rightarrow> SESSION_LT_MAGIC @ [1, 32] @ b @ replicate 474 0
      | P384 b \<Rightarrow> SESSION_LT_MAGIC @ [2, 48] @ b @ replicate 458 0)"

lemma length_SESSION_LT_MAGIC [simp]: "length SESSION_LT_MAGIC = 4"
  by (simp add: SESSION_LT_MAGIC_def)

lemma lt_valid_cases:
  assumes "lt_valid L c key"
  obtains (P256) sk where "c = BrainpoolP256r1" "key = P256 sk" "bp_from_slice (sl_crypto L) sk = Some sk" "length sk = 32"
  | (P384) sk where "c = BrainpoolP384r1" "key = P384 sk" "p384_from_slice (sl_p384 L) sk = Some sk" "length sk = 48"
  using assms by (cases "(L, c, key)" rule: lt_valid.cases) auto

lemma lt_slot_bytes_eq:
  assumes "length b + n = 506"
  shows "splice ((splice (replicate 512 0) 0 SESSION_LT_MAGIC)[4 := i, 5 := l]) 6 b =
    SESSION_LT_MAGIC @ [i, l] @ b @ replicate n (0 :: u8)"
proof -
  have "splice (replicate 512 0) 0 SESSION_LT_MAGIC = SESSION_LT_MAGIC @ replicate 2 0 @ replicate 506 (0 :: u8)"
    by (simp add: splice_def flip: replicate_add)
  then have "(splice (replicate 512 0) 0 SESSION_LT_MAGIC)[4 := i, 5 := l] =
      SESSION_LT_MAGIC @ [i, l] @ replicate 506 0"
    by (simp add: list_update_append numeral_2_eq_2)
  moreover have "replicate (506 - length b) (0 :: u8) = replicate n 0" using assms by (intro arg_cong2 [of _ _ _ _ replicate]) auto
  ultimately show ?thesis by (simp add: splice_def)
qed

lemma lt_slot_bytes_props:
  assumes "lt_valid L c key"
  shows "length (lt_slot_bytes key) = 512" "slice 0 4 (lt_slot_bytes key) = SESSION_LT_MAGIC"
    "lt_slot_bytes key ! 4 = curve_wire_id c"
  using assms
  by (cases rule: lt_valid_cases; simp add: lt_slot_bytes_def nth_append slice_def)+

context vault_contract
begin

lemma store_session_key:
  assumes "lt_valid L c key" and "vs_ok w" and "session_lt_slot_offset sl + 512 \<le> length (vs_mem w)"
  shows "vault_store_session_long_term_signing_key vs sl key ov w =
    (if slice (session_lt_slot_offset sl) 4 (vs_mem w) = SESSION_LT_MAGIC \<and> \<not> ov then (Inl LtSlotOccupied, w)
     else (Inr (), snd (vs_write vs w (session_lt_slot_offset sl) (lt_slot_bytes key))))"
proof -
  let ?o = "session_lt_slot_offset sl"
  have buf: "vault_store_session_long_term_signing_key vs sl key ov w =
    (if slice ?o 4 (vs_mem w) = SESSION_LT_MAGIC \<and> \<not> ov then (Inl LtSlotOccupied, w)
     else case vs_write vs w ?o (lt_slot_bytes key) of (r, w1) \<Rightarrow> (map_err (\<lambda>_. LtStorageError) r, w1))"
    using assms
    by (cases rule: lt_valid_cases)
      (simp_all add: vault_store_session_long_term_signing_key_def Let_def read_in splice_def [of "replicate 64 0"]
        lt_slot_bytes_eq lt_slot_bytes_def)
  have "fst (vs_write vs w ?o (lt_slot_bytes key)) = Inr ()"
    using assms lt_slot_bytes_props(1) [OF assms(1)] by (intro write_in) simp_all
  with buf show ?thesis by (cases "vs_write vs w ?o (lt_slot_bytes key)") auto
qed

lemma load_session_key:
  assumes "lt_valid L c key" and "vs_read vs w (session_lt_slot_offset sl) 512 = Inr (lt_slot_bytes key)"
  shows "vault_load_session_long_term_signing_key L vs sl i w =
    (if i = curve_wire_id c then Inr key else Inl LtInvalidEncoding)"
proof -
  note p = lt_slot_bytes_props [OF assms(1)]
  have l: "lt_slot_bytes key ! 5 = (case key of P256 _ \<Rightarrow> 32 | P384 _ \<Rightarrow> 48)"
    by (simp add: lt_slot_bytes_def nth_append split: session_long_term_signing_key.split)
  have b: "slice 6 (length b) (lt_slot_bytes key) = b" if "key = P256 b \<or> key = P384 b" for b
    using that by (auto simp: lt_slot_bytes_def slice_def)
  note load = vault_load_session_long_term_signing_key_def assms(2) bp_signing_key_from_scalar_def
    p384_signing_key_from_scalar_def
  from assms(1) show ?thesis
  proof (cases rule: lt_valid_cases)
    case (P256 sk)
    with p l b [of sk] show ?thesis by (simp add: load)
  next
    case (P384 sk)
    with p l b [of sk] show ?thesis by (simp add: load)
  qed
qed

end

context session_crypto
begin

lemma loaded_key_valid:
  assumes "vault_load_session_long_term_signing_key L vs sl (curve_wire_id c) w = Inr key"
  shows "lt_valid L c key"
  using assms scalar [of BrainpoolP256r1] scalar [of BrainpoolP384r1]
  by (cases c) (auto simp: vault_load_session_long_term_signing_key_def Let_def res_bind_eq_Inr
      bp_signing_key_from_scalar_def p384_signing_key_from_scalar_def ok_or_def
      split: if_splits option.splits)

end

end
