(* ===== verification/Session_Keys.thy ===== *)
theory Session_Keys
  imports Session_Crypto Constant_Time "HOL-Library.List_Lexorder"
begin

text \<open>
  Ephemeral key pairs, shared secrets and session keys (\<open>keys.rs\<close>, labels from \<open>hkdf_labels.rs\<close>), and
  the trust store of long-term certificates (\<open>trust.rs\<close>) of \<open>crates/ephemeral-session\<close>. Slices of
  bytes compare lexicographically, as the order of \<open>List_Lexorder\<close>.
\<close>

section \<open>Labels\<close>

definition PAYLOAD_KEY_I2R :: bytes where "PAYLOAD_KEY_I2R = ascii ''galdralag/session/payload-i2r/v1''"
definition PAYLOAD_KEY_R2I :: bytes where "PAYLOAD_KEY_R2I = ascii ''galdralag/session/payload-r2i/v1''"
definition GDSS_MASK_KEY :: bytes where "GDSS_MASK_KEY = ascii ''galdralag/session/gdss-mask/v1''"
definition GDSS_SYNC_KEY :: bytes where "GDSS_SYNC_KEY = ascii ''galdralag/session/gdss-sync/v1''"
definition GDSS_TIMING_KEY :: bytes where "GDSS_TIMING_KEY = ascii ''galdralag/session/gdss-timing/v1''"
definition MAC_KEY :: bytes where "MAC_KEY = ascii ''galdralag/session/mac/v1''"

section \<open>Ephemeral keys\<close>

abbreviation MAX_SHARED :: nat where "MAX_SHARED \<equiv> 48"

record ephemeral_key_pair =
  ek_curve :: session_curve
  ek_public_key :: bytes
  ek_private_key :: bytes
  ek_private_len :: u8

definition ephemeral_generate ::
  "session_lib \<Rightarrow> session_curve \<Rightarrow> 'w hardware_trng \<Rightarrow> 'w \<Rightarrow> (session_error + ephemeral_key_pair) \<times> 'w" where
  "ephemeral_generate L curve tr w =
     (case curve of
        BrainpoolP256r1 \<Rightarrow>
          (case bp_scalar_generate (sl_crypto L) tr w of
             (Inl _, w1) \<Rightarrow> (Inl KeyGeneration, w1)
           | (Inr sk, w1) \<Rightarrow>
               (res_bind (map_err (\<lambda>_. KeyGeneration) (bp_public_key (sl_crypto L) sk)) (\<lambda>pk.
                let sec1 = bp_to_sec1_uncompressed L pk in
                res_bind (ok_or KeyGeneration (vextend 97 [] sec1)) (\<lambda>public_key.
                let raw = sk; private_key = splice (replicate 64 0) 0 raw in
                Inr \<lparr>ek_curve = curve, ek_public_key = public_key, ek_private_key = private_key,
                     ek_private_len = 32\<rparr>)), w1))
      | BrainpoolP384r1 \<Rightarrow>
          (case p384_scalar_generate (sl_p384 L) tr w of
             (Inl _, w1) \<Rightarrow> (Inl KeyGeneration, w1)
           | (Inr sk, w1) \<Rightarrow>
               (res_bind (map_err (\<lambda>_. KeyGeneration) (p384_public_key (sl_p384 L) sk)) (\<lambda>pk.
                let sec1 = p384_to_sec1_uncompressed (sl_p384 L) pk in
                res_bind (ok_or KeyGeneration (vextend 97 [] sec1)) (\<lambda>public_key.
                let raw = sk; private_key = splice (replicate 64 0) 0 raw in
                Inr \<lparr>ek_curve = curve, ek_public_key = public_key, ek_private_key = private_key,
                     ek_private_len = 48\<rparr>)), w1)))"

record shared_secret =
  ss_bytes :: bytes
  ss_len :: u8

definition pack_shared :: "bytes \<Rightarrow> session_error + shared_secret" where
  "pack_shared bs =
     (if length bs > MAX_SHARED then Inl EcdhFailed
      else Inr \<lparr>ss_bytes = splice (replicate MAX_SHARED 0) 0 bs, ss_len = of_nat (length bs)\<rparr>)"

definition ephemeral_ecdh :: "session_lib \<Rightarrow> ephemeral_key_pair \<Rightarrow> bytes \<Rightarrow> session_error + shared_secret" where
  "ephemeral_ecdh L kp peer_public_key =
     (let sk = take (unat (ek_private_len kp)) (ek_private_key kp) in
      case ek_curve kp of
        BrainpoolP256r1 \<Rightarrow>
          res_bind (map_err (\<lambda>_. EcdhFailed) (bp_scalar_from_secret (sl_crypto L) sk)) (\<lambda>s.
          res_bind (map_err (\<lambda>_. InvalidPeerPublicKey) (bp_from_sec1 (sl_crypto L) peer_public_key)) (\<lambda>peer.
          res_bind (map_err (\<lambda>_. EcdhFailed) (bp_diffie_hellman (sl_crypto L) s peer)) pack_shared))
      | BrainpoolP384r1 \<Rightarrow>
          res_bind (map_err (\<lambda>_. EcdhFailed) (p384_scalar_from_secret (sl_p384 L) sk)) (\<lambda>s.
          res_bind (map_err (\<lambda>_. InvalidPeerPublicKey) (p384_from_sec1 (sl_p384 L) peer_public_key)) (\<lambda>peer.
          res_bind (map_err (\<lambda>_. EcdhFailed) (p384_diffie_hellman (sl_p384 L) s peer)) pack_shared)))"

section \<open>Session keys\<close>

definition shared_ikm :: "shared_secret \<Rightarrow> bytes" where
  "shared_ikm ss = take (unat (ss_len ss)) (ss_bytes ss)"

definition cess_k_outer_mode_a :: "(bytes \<Rightarrow> arr32) \<Rightarrow> shared_secret \<Rightarrow> arr32 option" where
  "cess_k_outer_mode_a blake3 ss = derive_k_outer blake3 (shared_ikm ss)"

definition hkdf_extract_sha256 :: "session_lib \<Rightarrow> bytes \<Rightarrow> bytes \<Rightarrow> bytes" where
  "hkdf_extract_sha256 L salt ikm =
     (if salt = [] then hmac_sha256 L (replicate 32 0) ikm else hmac_sha256 L salt ikm)"

definition ordered_epk_salt :: "bytes \<Rightarrow> bytes \<Rightarrow> session_error + bytes" where
  "ordered_epk_salt epk_initiator epk_responder =
     (if epk_initiator \<le> epk_responder then
        res_bind (malformed (vextend 258 [] epk_initiator)) (\<lambda>salt.
        malformed (vextend 258 salt epk_responder))
      else
        res_bind (malformed (vextend 258 [] epk_responder)) (\<lambda>salt.
        malformed (vextend 258 salt epk_initiator)))"

record session_keys =
  sk_classical_ecdh_ikm_storage :: bytes
  sk_classical_ecdh_ikm_len :: u8
  sk_profile_prk_material :: bytes
  sk_payload_key_i2r :: bytes
  sk_payload_key_r2i :: bytes
  sk_gdss_mask_key :: bytes
  sk_gdss_sync_key :: bytes
  sk_gdss_timing_key :: bytes
  sk_mac_key :: bytes

definition derive_session_keys ::
  "session_lib \<Rightarrow> shared_secret \<Rightarrow> bytes \<Rightarrow> bytes \<Rightarrow> session_error + session_keys" where
  "derive_session_keys L inner epk_initiator epk_responder =
     res_bind (ordered_epk_salt epk_initiator epk_responder) (\<lambda>salt.
     let ikm = shared_ikm inner; prk = hkdf_extract_sha256 L salt ikm in
     res_bind (malformed (hkdf_from_prk L prk)) (\<lambda>hk.
     res_bind (malformed (hkdf_expand L hk PAYLOAD_KEY_I2R 32)) (\<lambda>payload_key_i2r.
     res_bind (malformed (hkdf_expand L hk PAYLOAD_KEY_R2I 32)) (\<lambda>payload_key_r2i.
     res_bind (malformed (hkdf_expand L hk GDSS_MASK_KEY 32)) (\<lambda>gdss_mask_key.
     res_bind (malformed (hkdf_expand L hk GDSS_SYNC_KEY 32)) (\<lambda>gdss_sync_key.
     res_bind (malformed (hkdf_expand L hk GDSS_TIMING_KEY 32)) (\<lambda>gdss_timing_key.
     res_bind (malformed (hkdf_expand L hk MAC_KEY 32)) (\<lambda>mac_key.
     Inr \<lparr>sk_classical_ecdh_ikm_storage = splice (replicate MAX_SHARED 0) 0 ikm,
          sk_classical_ecdh_ikm_len = ss_len inner, sk_profile_prk_material = prk,
          sk_payload_key_i2r = payload_key_i2r, sk_payload_key_r2i = payload_key_r2i,
          sk_gdss_mask_key = gdss_mask_key, sk_gdss_sync_key = gdss_sync_key,
          sk_gdss_timing_key = gdss_timing_key, sk_mac_key = mac_key\<rparr>))))))))"

definition cess_inner_cascade_ikm :: "session_keys \<Rightarrow> bytes" where
  "cess_inner_cascade_ikm k = take (unat (sk_classical_ecdh_ikm_len k)) (sk_classical_ecdh_ikm_storage k)"

definition profile_prk :: "session_keys \<Rightarrow> bytes" where
  "profile_prk k = sk_profile_prk_material k"

definition as_gdss_keys :: "session_keys \<Rightarrow> bytes \<times> bytes \<times> bytes \<times> bytes" where
  "as_gdss_keys k = (sk_payload_key_i2r k, sk_gdss_mask_key k, sk_gdss_sync_key k, sk_gdss_timing_key k)"

section \<open>Trust store\<close>

record long_term_cert =
  lc_fingerprint :: bytes
  lc_curve :: session_curve
  lc_verifying_key :: bytes

definition fingerprint_of :: "session_lib \<Rightarrow> bytes \<Rightarrow> bytes" where
  "fingerprint_of L public_key_sec1 = sha256 (sl_crypto L) public_key_sec1"

definition fingerprint_ct_eq :: "long_term_cert \<Rightarrow> bytes \<Rightarrow> choice" where
  "fingerprint_ct_eq c other =
     (if length other \<noteq> length (lc_fingerprint c) then 0 else ct_eq (lc_fingerprint c) other)"

type_synonym trust_store = "long_term_cert list"

definition trust_new :: trust_store where "trust_new = []"

text \<open>\<open>n\<close> is the capacity of \<open>InMemoryTrustStore<N>\<close>.\<close>

definition trust_add :: "nat \<Rightarrow> long_term_cert \<Rightarrow> trust_store \<Rightarrow> (session_error + unit) \<times> trust_store" where
  "trust_add n cert s =
     (case vpush n s cert of None \<Rightarrow> (Inl TrustStoreFull, s) | Some s' \<Rightarrow> (Inr (), s'))"

function trust_remove_loop :: "bytes \<Rightarrow> nat \<Rightarrow> trust_store \<Rightarrow> bool \<times> trust_store" where
  "trust_remove_loop fingerprint i s =
     (if i < length s then
        let fp = lc_fingerprint (s ! i) in
        if length fp = length fingerprint \<and> bool_of_choice (ct_eq fp fingerprint)
        then (True, swap_remove i s)
        else trust_remove_loop fingerprint (i + 1) s
      else (False, s))"
  by pat_completeness auto

termination
  by (relation "measure (\<lambda>(fp, i, s). length s - i)") auto

declare trust_remove_loop.simps [simp del]

definition trust_remove :: "bytes \<Rightarrow> trust_store \<Rightarrow> bool \<times> trust_store" where
  "trust_remove fingerprint s = trust_remove_loop fingerprint 0 s"

fun trust_lookup_loop :: "bytes \<Rightarrow> trust_store \<Rightarrow> long_term_cert option \<Rightarrow> long_term_cert option" where
  "trust_lookup_loop fingerprint [] found = found"
| "trust_lookup_loop fingerprint (e # es) found =
     (if bool_of_choice (ct_eq (lc_fingerprint e) fingerprint)
      then (if found \<noteq> None then None else trust_lookup_loop fingerprint es (Some e))
      else trust_lookup_loop fingerprint es found)"

definition trust_lookup :: "bytes \<Rightarrow> trust_store \<Rightarrow> long_term_cert option" where
  "trust_lookup fingerprint s =
     (if length fingerprint \<noteq> 32 then None else trust_lookup_loop fingerprint s None)"

section \<open>Key agreement\<close>

lemma take_splice_zero: "length b \<le> m \<Longrightarrow> take (length b) (splice (replicate m 0) 0 b) = b"
  by (simp add: splice_def)

text \<open>A key pair whose public key is the encoded point of the private scalar it holds.\<close>

definition key_pair_ok :: "session_lib \<Rightarrow> ephemeral_key_pair \<Rightarrow> bool" where
  "key_pair_ok L kp \<longleftrightarrow> (\<exists>sk. curve_scalar L (ek_curve kp) sk = Some sk \<and>
     take (unat (ek_private_len kp)) (ek_private_key kp) = sk \<and>
     ek_public_key kp = curve_sec1 L (ek_curve kp) (curve_point L (ek_curve kp) sk))"

lemma p384_sample_accepted: "p384_sample P tr k w = (Inr sk, w1) \<Longrightarrow> \<exists>raw. p384_from_slice P raw = Some sk"
  by (induction k arbitrary: w) (auto split: prod.splits sum.splits option.splits)

lemma pack_shared_ok: "length b \<le> 48 \<Longrightarrow> \<exists>ss. pack_shared b = Inr ss \<and> shared_ikm ss = b"
  by (simp add: pack_shared_def shared_ikm_def unat_of_nat_u8 take_splice_zero)

lemma ordered_epk_salt_ok:
  "length e + length r \<le> 258 \<Longrightarrow> \<exists>salt. ordered_epk_salt e r = Inr salt \<and> set salt = set e \<union> set r"
  by (auto simp: ordered_epk_salt_def vextend_def)

lemma ordered_epk_salt_commute: "ordered_epk_salt e r = ordered_epk_salt r e"
  by (auto simp: ordered_epk_salt_def vextend_def add.commute)

lemma trust_lookup_loop_spec:
  "trust_lookup_loop fp s found =
     (case found of
        None \<Rightarrow> (case filter (\<lambda>e. lc_fingerprint e = fp) s of [c] \<Rightarrow> Some c | _ \<Rightarrow> None)
      | Some c \<Rightarrow> if filter (\<lambda>e. lc_fingerprint e = fp) s = [] then Some c else None)"
  by (induction s arbitrary: found) (auto split: option.splits list.splits)

lemma trust_remove_loop_spec:
  "\<forall>j < i. j < length s \<longrightarrow> lc_fingerprint (s ! j) \<noteq> fp \<Longrightarrow> trust_remove_loop fp i s = (b, s') \<Longrightarrow>
   if \<exists>e \<in> set s. lc_fingerprint e = fp
   then b \<and> (\<exists>e. lc_fingerprint e = fp \<and> mset s = add_mset e (mset s'))
   else \<not> b \<and> s' = s"
proof (induction fp i s rule: trust_remove_loop.induct)
  case (1 fp i s)
  show ?case
  proof (cases "i < length s")
    case True
    show ?thesis
    proof (cases "lc_fingerprint (s ! i) = fp")
      case True
      with 1(3) \<open>i < length s\<close> have "b" "s' = swap_remove i s"
        by (subst (asm) trust_remove_loop.simps, simp)+
      moreover have "\<exists>e \<in> set s. lc_fingerprint e = fp" using True \<open>i < length s\<close> by auto
      ultimately show ?thesis using True mset_swap_remove [OF \<open>i < length s\<close>] by metis
    next
      case False
      with 1 \<open>i < length s\<close> show ?thesis
        by (subst (asm) trust_remove_loop.simps) (auto simp: less_Suc_eq)
    qed
  next
    case False
    with 1(2) have "\<not> (\<exists>e \<in> set s. lc_fingerprint e = fp)"
      by (metis in_set_conv_nth not_less order_less_le_trans)
    moreover from False 1(3) have "\<not> b" "s' = s" by (subst (asm) trust_remove_loop.simps, simp)+
    ultimately show ?thesis by simp
  qed
qed

context session_crypto
begin

lemma generated_key_pair:
  assumes "ephemeral_generate L c tr w = (Inr kp, w1)"
  shows "ek_curve kp = c" and "key_pair_ok L kp" and "length (ek_public_key kp) = public_key_len c"
proof -
  note defs = ephemeral_generate_def key_pair_ok_def Let_def bp_scalar_generate_def p384_scalar_generate_def
    bp_public_key_def p384_public_key_def p384_secret_key_def bp_to_sec1_uncompressed_def
    p384_to_sec1_uncompressed_def
  have "ek_curve kp = c \<and> key_pair_ok L kp"
  proof (cases c)
    case BrainpoolP256r1
    with assms obtain sk where s: "bp_sample (sl_crypto L) tr SCALAR_SAMPLE_TRIES w = (Inr sk, w1)"
      by (auto simp: defs split: prod.splits sum.splits)
    with bp_sample_accepted scalar [of BrainpoolP256r1] have sk: "curve_scalar L BrainpoolP256r1 sk = Some sk"
        "length sk = 32" by fastforce+
    from assms s sk BrainpoolP256r1 take_splice_zero [of sk 64] show ?thesis
      by (auto simp: defs res_bind_eq_Inr split: if_splits)
  next
    case BrainpoolP384r1
    with assms obtain sk where s: "p384_sample (sl_p384 L) tr SCALAR_SAMPLE_TRIES w = (Inr sk, w1)"
      by (auto simp: defs split: prod.splits sum.splits)
    with p384_sample_accepted scalar [of BrainpoolP384r1] have sk: "curve_scalar L BrainpoolP384r1 sk = Some sk"
        "length sk = 48" by fastforce+
    from assms s sk BrainpoolP384r1 take_splice_zero [of sk 64] show ?thesis
      by (auto simp: defs res_bind_eq_Inr split: if_splits)
  qed
  then show "ek_curve kp = c" "key_pair_ok L kp" by simp_all
  then show "length (ek_public_key kp) = public_key_len c" using public_key by (auto simp: key_pair_ok_def)
qed

lemma ecdh_key_pair:
  assumes "key_pair_ok L kp" and "ek_curve kp = c" and "curve_scalar L c b = Some b"
  shows "ephemeral_ecdh L kp (curve_sec1 L c (curve_point L c b)) =
    pack_shared (curve_dh L c (take (unat (ek_private_len kp)) (ek_private_key kp)) (curve_point L c b))"
proof -
  define a where "a = take (unat (ek_private_len kp)) (ek_private_key kp)"
  have a: "curve_scalar L c a = Some a" using assms by (auto simp: key_pair_ok_def a_def)
  obtain q where q: "curve_sec1_parse L c (curve_sec1 L c (curve_point L c b)) = Some q"
    "\<not> curve_sec1_is_identity L c q" "curve_sec1_to_public L c q = Some (curve_point L c b)"
    "\<not> curve_is_identity L c (curve_point L c b)"
    using public_key [OF assms(3)] by blast
  have l: "length (curve_dh L c a (curve_point L c b)) = scalar_len c"
    by (rule conjunct2 [OF agreement [OF a assms(3)]])
  note defs = ephemeral_ecdh_def Let_def a_def [symmetric] bp_scalar_from_secret_def bp_from_sec1_def
    bp_diffie_hellman_def p384_scalar_from_secret_def p384_from_sec1_def p384_diffie_hellman_def
    p384_secret_key_def
  show ?thesis using a q l assms(2) unfolding a_def [symmetric] by (cases c) (simp_all add: defs)
qed

lemma ecdh_agrees:
  assumes "key_pair_ok L x" "key_pair_ok L y" and "ek_curve x = c" "ek_curve y = c"
  obtains ss where "ephemeral_ecdh L x (ek_public_key y) = Inr ss" "ephemeral_ecdh L y (ek_public_key x) = Inr ss"
proof -
  define a b where "a = take (unat (ek_private_len x)) (ek_private_key x)"
    and "b = take (unat (ek_private_len y)) (ek_private_key y)"
  have ab: "curve_scalar L c a = Some a" "curve_scalar L c b = Some b"
    "ek_public_key x = curve_sec1 L c (curve_point L c a)" "ek_public_key y = curve_sec1 L c (curve_point L c b)"
    using assms by (auto simp: key_pair_ok_def a_def b_def)
  have e: "ephemeral_ecdh L x (ek_public_key y) = pack_shared (curve_dh L c a (curve_point L c b))"
    "ephemeral_ecdh L y (ek_public_key x) = pack_shared (curve_dh L c b (curve_point L c a))"
    using ecdh_key_pair [OF assms(1,3) ab(2)] ecdh_key_pair [OF assms(2,4) ab(1)]
    by (simp_all add: ab a_def b_def)
  have "scalar_len c \<le> 48" by (cases c) simp_all
  then have "length (curve_dh L c a (curve_point L c b)) \<le> 48" using conjunct2 [OF agreement [OF ab(1,2)]] by simp
  with agreement [OF ab(1,2)] pack_shared_ok e that show ?thesis by metis
qed

lemma keys_derived:
  assumes "length e + length r \<le> 258"
  obtains keys where "derive_session_keys L ss e r = Inr keys"
proof -
  obtain salt where salt: "ordered_epk_salt e r = Inr salt" using ordered_epk_salt_ok [OF assms] by blast
  obtain k where "hkdf_extract_sha256 L salt (shared_ikm ss) = hmac_sha256 L k (shared_ikm ss)"
    by (cases "salt = []") (auto simp: hkdf_extract_sha256_def)
  with prk obtain h where h: "hkdf_from_prk L (hkdf_extract_sha256 L salt (shared_ikm ss)) = Some h"
    and x: "\<forall>info. \<exists>okm. hkdf_expand L h info 32 = Some okm" by metis
  from x obtain f where "\<And>info. hkdf_expand L h info 32 = Some (f info)" by metis
  with salt h have "\<exists>keys. derive_session_keys L ss e r = Inr keys"
    by (simp add: derive_session_keys_def Let_def)
  then show ?thesis using that by blast
qed

end

text \<open>
  A lookup succeeds exactly when one certificate with the fingerprint is stored; a certificate that
  was added twice is not found until one copy is removed.
\<close>

lemma trust_lookup_unique:
  "trust_lookup fp s = Some c \<longleftrightarrow> length fp = 32 \<and> filter (\<lambda>e. lc_fingerprint e = fp) s = [c]"
  by (auto simp: trust_lookup_def trust_lookup_loop_spec split: list.splits)

lemma trust_added_twice:
  assumes "trust_add n c s = (Inr (), s1)" and "trust_add n c s1 = (Inr (), s2)"
  shows "trust_lookup (lc_fingerprint c) s2 = None"
  using assms by (auto simp: trust_add_def vpush_def trust_lookup_def trust_lookup_loop_spec
      split: if_splits option.splits list.splits)

text \<open>The raw shared secret stays readable in the session keys.\<close>

lemma session_keys_hold_shared_secret:
  assumes "derive_session_keys L ss e r = Inr keys" and "length (ss_bytes ss) = 48" and "ss_len ss \<le> 48"
  shows "cess_inner_cascade_ikm keys = shared_ikm ss"
  using assms
  by (auto simp: derive_session_keys_def Let_def res_bind_eq_Inr cess_inner_cascade_ikm_def shared_ikm_def
      splice_def word_le_nat_alt)

end
