(* ===== verification/Handshake.thy ===== *)
theory Handshake
  imports Session_Keys
begin

text \<open>
  The authenticated key agreement of \<open>crates/ephemeral-session/src/protocol.rs\<close>: the initiator's
  state machine (\<open>init\<close>, \<open>complete\<close>) and the responder's single step (\<open>respond\<close>), with the signed
  transcripts. Storage and random source act on one world. The private key of a consumed session
  state is dropped; its zeroisation is not observable here.
\<close>

datatype session_role = Initiator | Responder

datatype initiator_state =
    New
  | Initialised session_curve ephemeral_key_pair init_message
  | Completed

definition initiator_new :: initiator_state where "initiator_new = New"

section \<open>Transcripts and signatures\<close>

text \<open>The vectors hold 200 and 400 bytes, more than any public keys of the messages need.\<close>

definition init_sign_preimage :: "u8 \<Rightarrow> session_curve \<Rightarrow> bytes \<Rightarrow> bytes" where
  "init_sign_preimage version curve epk = [version] @ [curve_wire_id curve] @ epk"

definition response_sign_preimage :: "u8 \<Rightarrow> session_curve \<Rightarrow> bytes \<Rightarrow> bytes \<Rightarrow> bytes" where
  "response_sign_preimage version curve responder_epk initiator_epk =
     [version] @ [curve_wire_id curve] @ responder_epk @ initiator_epk"

definition sign_with_long_term ::
  "session_lib \<Rightarrow> session_long_term_signing_key \<Rightarrow> bytes \<Rightarrow> session_error + bytes" where
  "sign_with_long_term L key preimage =
     (case key of
        P256 sk \<Rightarrow>
          res_bind (map_err (\<lambda>_. InvalidPeerSignature)
            (sign_handshake_sha256_prehash (sl_crypto L) sk preimage)) (\<lambda>s.
          malformed (vextend 200 [] s))
      | P384 sk \<Rightarrow>
          res_bind (map_err (\<lambda>_. InvalidPeerSignature)
            (p384_sign_handshake_sha256_prehash L sk preimage)) (\<lambda>s.
          malformed (vextend 200 [] s)))"

definition verifying_sec1 :: "session_lib \<Rightarrow> session_long_term_signing_key \<Rightarrow> session_error + bytes" where
  "verifying_sec1 L key =
     (case key of
        P256 sk \<Rightarrow>
          (let b = bp_vk_to_sec1_uncompressed L (bp_verifying_key L sk) in malformed (vextend 129 [] b))
      | P384 sk \<Rightarrow>
          (let b = p384_to_sec1_uncompressed (sl_p384 L) (p384_verifying_key (sl_p384 L) sk) in
           malformed (vextend 129 [] b)))"

definition verify_with_cert :: "session_lib \<Rightarrow> long_term_cert \<Rightarrow> bytes \<Rightarrow> bytes \<Rightarrow> session_error + unit" where
  "verify_with_cert L cert preimage der_sig =
     (case lc_curve cert of
        BrainpoolP256r1 \<Rightarrow>
          res_bind (map_err (\<lambda>_. InvalidPeerPublicKey) (bp_vk_from_sec1 L (lc_verifying_key cert))) (\<lambda>vk.
          res_bind (map_err (\<lambda>_. InvalidPeerSignature) (bp_sig_from_der_bytes der_sig)) (\<lambda>sig.
          map_err (\<lambda>_. InvalidPeerSignature) (bp_verify_handshake_sha256_prehash L vk preimage sig)))
      | BrainpoolP384r1 \<Rightarrow>
          res_bind (map_err (\<lambda>_. InvalidPeerPublicKey)
            (p384_verifying_key_from_sec1 (sl_p384 L) (lc_verifying_key cert))) (\<lambda>vk.
          res_bind (map_err (\<lambda>_. InvalidPeerSignature) (p384_sig_from_der_bytes der_sig)) (\<lambda>sig.
          map_err (\<lambda>_. InvalidPeerSignature) (p384_verify_handshake_sha256_prehash L vk preimage sig))))"

fun session_error_of_vault :: "session_lt_error \<Rightarrow> session_error" where
  "session_error_of_vault LtStorageError = Storage"
| "session_error_of_vault _ = MalformedHandshake"

section \<open>Initiator\<close>

definition initiator_init ::
  "session_lib \<Rightarrow> 'w vault_storage \<Rightarrow> 'w hardware_trng \<Rightarrow> session_curve \<Rightarrow> u32 \<Rightarrow> initiator_state \<Rightarrow> 'w \<Rightarrow>
   (session_error + init_message) \<times> initiator_state \<times> 'w" where
  "initiator_init L vs tr curve long_term_slot st w =
     (case st of
        Completed \<Rightarrow> (Inl SessionAlreadyCompleted, st, w)
      | Initialised _ _ _ \<Rightarrow> (Inl SessionAlreadyInitialised, st, w)
      | New \<Rightarrow>
          (case map_err session_error_of_vault
             (vault_load_session_long_term_signing_key L vs long_term_slot (curve_wire_id curve) w) of
             Inl e \<Rightarrow> (Inl e, st, w)
           | Inr lt \<Rightarrow>
               (case ephemeral_generate L curve tr w of
                  (Inl e, w1) \<Rightarrow> (Inl e, st, w1)
                | (Inr epk, w1) \<Rightarrow>
                    let preimage = init_sign_preimage INIT_PROTOCOL_VERSION curve (ek_public_key epk) in
                    (case res_bind (sign_with_long_term L lt preimage) (\<lambda>sig.
                          res_bind (verifying_sec1 L lt) (\<lambda>vk_sec1.
                          let raw_fp = fingerprint_of L vk_sec1;
                              fp_hex = encode_fingerprint_hex raw_fp in
                          res_bind (malformed (vextend 64 [] fp_hex)) (\<lambda>long_term_fingerprint.
                          res_bind (malformed (vextend MAX_SIG_BYTES [] sig)) (\<lambda>signature.
                          res_bind (malformed (vextend 129 [] (ek_public_key epk))) (\<lambda>ephemeral_public_key.
                          Inr \<lparr>im_version = INIT_PROTOCOL_VERSION, im_curve = curve,
                               im_ephemeral_public_key = ephemeral_public_key,
                               im_long_term_fingerprint = long_term_fingerprint,
                               im_signature = signature\<rparr>))))) of
                       Inl e \<Rightarrow> (Inl e, st, w1)
                     | Inr init_message \<Rightarrow> (Inr init_message, Initialised curve epk init_message, w1)))))"

definition complete_inner ::
  "session_lib \<Rightarrow> session_curve \<Rightarrow> ephemeral_key_pair \<Rightarrow> init_message \<Rightarrow> response_message \<Rightarrow> long_term_cert \<Rightarrow>
   (session_error + session_keys) \<times> initiator_state" where
  "complete_inner L curve epk init_message response peer_long_term_cert =
     (let keep = Initialised curve epk init_message; my_epk = im_ephemeral_public_key init_message in
      if rm_version response \<noteq> RESP_PROTOCOL_VERSION then (Inl MalformedHandshake, keep)
      else if rm_curve response \<noteq> curve then (Inl CurveMismatch, keep)
      else if length my_epk \<noteq> length (rm_initiator_ephemeral_public_key response)
        \<or> \<not> bool_of_choice (ct_eq my_epk (rm_initiator_ephemeral_public_key response))
      then (Inl InvalidPeerSignature, keep)
      else
        case decode_fingerprint_hex (rm_long_term_fingerprint response) of
          Inl e \<Rightarrow> (Inl e, keep)
        | Inr wire_fp \<Rightarrow>
            if \<not> bool_of_choice (ct_eq (lc_fingerprint peer_long_term_cert) wire_fp)
            then (Inl FingerprintMismatch, keep)
            else
              let resp_pre = response_sign_preimage RESP_PROTOCOL_VERSION curve
                    (rm_ephemeral_public_key response) (rm_initiator_ephemeral_public_key response) in
              case verify_with_cert L peer_long_term_cert resp_pre (rm_signature response) of
                Inl e \<Rightarrow> (Inl e, keep)
              | Inr _ \<Rightarrow>
                  (case ephemeral_ecdh L epk (rm_ephemeral_public_key response) of
                     Inl e \<Rightarrow> (Inl e, New)
                   | Inr shared \<Rightarrow>
                       (case derive_session_keys L shared (im_ephemeral_public_key init_message)
                          (rm_ephemeral_public_key response) of
                          Inl e \<Rightarrow> (Inl e, New)
                        | Inr keys \<Rightarrow> (Inr keys, Completed))))"

definition initiator_complete ::
  "session_lib \<Rightarrow> response_message \<Rightarrow> long_term_cert \<Rightarrow> initiator_state \<Rightarrow>
   (session_error + session_keys) \<times> initiator_state" where
  "initiator_complete L response peer_long_term_cert st =
     (case st of
        Initialised curve ephemeral_keypair init_message \<Rightarrow>
          complete_inner L curve ephemeral_keypair init_message response peer_long_term_cert
      | Completed \<Rightarrow> (Inl SessionAlreadyCompleted, Completed)
      | New \<Rightarrow> (Inl MalformedHandshake, New))"

section \<open>Responder\<close>

definition responder_respond ::
  "session_lib \<Rightarrow> 'w vault_storage \<Rightarrow> 'w hardware_trng \<Rightarrow> init_message \<Rightarrow> u32 \<Rightarrow> long_term_cert \<Rightarrow> 'w \<Rightarrow>
   (session_error + response_message \<times> session_keys) \<times> 'w" where
  "responder_respond L vs tr m long_term_slot peer_long_term_cert w =
     (if im_version m \<noteq> INIT_PROTOCOL_VERSION then (Inl MalformedHandshake, w)
      else
      let curve = im_curve m in
      case map_err (\<lambda>_. MalformedHandshake) (decode_fingerprint_hex (im_long_term_fingerprint m)) of
        Inl e \<Rightarrow> (Inl e, w)
      | Inr wire_fp \<Rightarrow>
      if \<not> bool_of_choice (ct_eq (lc_fingerprint peer_long_term_cert) wire_fp) then (Inl FingerprintMismatch, w)
      else
      let init_pre = init_sign_preimage (im_version m) curve (im_ephemeral_public_key m) in
      case res_bind (verify_with_cert L peer_long_term_cert init_pre (im_signature m)) (\<lambda>_.
             map_err session_error_of_vault
               (vault_load_session_long_term_signing_key L vs long_term_slot (curve_wire_id curve) w)) of
        Inl e \<Rightarrow> (Inl e, w)
      | Inr lt \<Rightarrow>
      (case ephemeral_generate L curve tr w of
         (Inl e, w1) \<Rightarrow> (Inl e, w1)
       | (Inr epk, w1) \<Rightarrow>
           (let resp_pre = response_sign_preimage RESP_PROTOCOL_VERSION curve (ek_public_key epk)
                  (im_ephemeral_public_key m) in
            res_bind (sign_with_long_term L lt resp_pre) (\<lambda>sig.
            res_bind (verifying_sec1 L lt) (\<lambda>vk_sec1.
            let raw_fp = fingerprint_of L vk_sec1;
                fp_hex = encode_fingerprint_hex raw_fp in
            res_bind (malformed (vextend 64 [] fp_hex)) (\<lambda>long_term_fingerprint.
            res_bind (malformed (vextend MAX_SIG_BYTES [] sig)) (\<lambda>signature.
            res_bind (malformed (vextend 129 [] (ek_public_key epk))) (\<lambda>ephemeral_public_key.
            res_bind (malformed (vextend 129 [] (im_ephemeral_public_key m))) (\<lambda>initiator_ephemeral_public_key.
            let response = \<lparr>rm_version = RESP_PROTOCOL_VERSION, rm_curve = curve,
                  rm_ephemeral_public_key = ephemeral_public_key,
                  rm_long_term_fingerprint = long_term_fingerprint,
                  rm_initiator_ephemeral_public_key = initiator_ephemeral_public_key,
                  rm_signature = signature\<rparr> in
            res_bind (ephemeral_ecdh L epk (im_ephemeral_public_key m)) (\<lambda>shared.
            res_bind (derive_session_keys L shared (im_ephemeral_public_key m)
              (rm_ephemeral_public_key response)) (\<lambda>keys.
            Inr (response, keys))))))))), w1)))"

end
