(* ===== verification/Handshake_Runs.thy ===== *)
theory Handshake_Runs
  imports Handshake
begin

text \<open>
  Runs of the session protocol. Two honest parties agree on all session keys over the wire; an
  initiator hands out keys at most once and only for a response whose signature covers its own
  ephemeral key; and the transcripts do not name the parties, so a third party can put its own name on
  an initiator's offer. All laws of the curve crates come from the contract \<open>session_crypto\<close>.
\<close>

section \<open>Signatures of long-term keys\<close>

text \<open>The certificate that the trust store holds for a key.\<close>

fun lt_sec1 :: "session_lib \<Rightarrow> session_long_term_signing_key \<Rightarrow> bytes" where
  "lt_sec1 L (P256 sk) = curve_sec1 L BrainpoolP256r1 (curve_point L BrainpoolP256r1 sk)"
| "lt_sec1 L (P384 sk) = curve_sec1 L BrainpoolP384r1 (curve_point L BrainpoolP384r1 sk)"

fun lt_curve :: "session_long_term_signing_key \<Rightarrow> session_curve" where
  "lt_curve (P256 _) = BrainpoolP256r1"
| "lt_curve (P384 _) = BrainpoolP384r1"

definition cert_of :: "session_lib \<Rightarrow> session_long_term_signing_key \<Rightarrow> long_term_cert" where
  "cert_of L key = \<lparr>lc_fingerprint = fingerprint_of L (lt_sec1 L key), lc_curve = lt_curve key,
     lc_verifying_key = lt_sec1 L key\<rparr>"

lemma cert_of_simps [simp]:
  "lc_fingerprint (cert_of L key) = fingerprint_of L (lt_sec1 L key)"
  "lc_curve (cert_of L key) = lt_curve key" "lc_verifying_key (cert_of L key) = lt_sec1 L key"
  by (simp_all add: cert_of_def)

context session_crypto
begin

lemma length_fingerprint [simp]: "length (fingerprint_of L b) = 32"
  by (simp add: fingerprint_of_def digest)

lemma verifying_sec1_valid:
  assumes "lt_valid L c key"
  shows "verifying_sec1 L key = Inr (lt_sec1 L key)"
  using assms
proof (cases rule: lt_valid_cases)
  case (P256 sk)
  with public_key [of BrainpoolP256r1 sk] show ?thesis
    by (simp add: verifying_sec1_def bp_vk_to_sec1_uncompressed_def bp_verifying_key_def Let_def)
next
  case (P384 sk)
  with public_key [of BrainpoolP384r1 sk] show ?thesis
    by (simp add: verifying_sec1_def p384_to_sec1_uncompressed_def p384_verifying_key_def Let_def)
qed

lemma sign_verifies:
  assumes "lt_valid L c key"
  obtains sig where "sign_with_long_term L key pre = Inr sig" and "length sig \<le> 150"
    and "verify_with_cert L (cert_of L key) pre sig = Inr ()"
proof -
  define d where "d = sha256 (sl_crypto L) pre"
  have d: "length d = 32" by (simp add: d_def digest)
  note defs = sign_with_long_term_def verify_with_cert_def sign_handshake_sha256_prehash_def
    p384_sign_handshake_sha256_prehash_def bp_vk_from_sec1_def p384_verifying_key_from_sec1_def
    bp_sig_from_der_bytes_def p384_sig_from_der_bytes_def bp_verify_handshake_sha256_prehash_def
    p384_verify_handshake_sha256_prehash_def Let_def d_def [symmetric]
  from assms show ?thesis
  proof (cases rule: lt_valid_cases)
    case (P256 sk)
    then have sk: "curve_scalar L BrainpoolP256r1 sk = Some sk" by simp
    from signature [OF sk d] verifying_key [OF sk] P256 show ?thesis
      by (intro that [of "the (bp_sign_prehash (sl_crypto L) sk d)"]) (auto simp: defs)
  next
    case (P384 sk)
    then have sk: "curve_scalar L BrainpoolP384r1 sk = Some sk" by simp
    from signature [OF sk d] verifying_key [OF sk] P384 show ?thesis
      by (intro that [of "the (p384_sign_digest (sl_p384 L) sk d)"]) (auto simp: defs)
  qed
qed

end

section \<open>One handshake\<close>

text \<open>What an offer must say to be answered, and an answer to be accepted, for the epk pairs of both sides.\<close>

definition offer_by :: "session_lib \<Rightarrow> session_long_term_signing_key \<Rightarrow> session_curve \<Rightarrow> bytes \<Rightarrow> init_message \<Rightarrow> bool" where
  "offer_by L key c epk m \<longleftrightarrow> im_version m = 1 \<and> im_curve m = c \<and> im_ephemeral_public_key m = epk
     \<and> im_long_term_fingerprint m = encode_fingerprint_hex (fingerprint_of L (lt_sec1 L key))
     \<and> length (im_signature m) \<le> 150
     \<and> verify_with_cert L (cert_of L key) (init_sign_preimage 1 c epk) (im_signature m) = Inr ()"

definition answer_by ::
  "session_lib \<Rightarrow> session_long_term_signing_key \<Rightarrow> session_curve \<Rightarrow> bytes \<Rightarrow> bytes \<Rightarrow> response_message \<Rightarrow> bool" where
  "answer_by L key c epk iepk r \<longleftrightarrow> rm_version r = 1 \<and> rm_curve r = c \<and> rm_ephemeral_public_key r = epk
     \<and> rm_initiator_ephemeral_public_key r = iepk
     \<and> rm_long_term_fingerprint r = encode_fingerprint_hex (fingerprint_of L (lt_sec1 L key))
     \<and> length (rm_signature r) \<le> 150
     \<and> verify_with_cert L (cert_of L key) (response_sign_preimage 1 c epk iepk) (rm_signature r) = Inr ()"

context session_crypto
begin

lemma init_succeeds:
  assumes "vault_load_session_long_term_signing_key L vs sl (curve_wire_id c) w = Inr key"
    and "ephemeral_generate L c tr w = (Inr kp, w1)"
  obtains m where "initiator_init L vs tr c sl New w = (Inr m, Initialised c kp m, w1)"
    and "offer_by L key c (ek_public_key kp) m"
proof -
  have v: "lt_valid L c key" by (rule loaded_key_valid [OF assms(1)])
  obtain sig where sig: "sign_with_long_term L key (init_sign_preimage 1 c (ek_public_key kp)) = Inr sig"
    "length sig \<le> 150" "verify_with_cert L (cert_of L key) (init_sign_preimage 1 c (ek_public_key kp)) sig = Inr ()"
    by (rule sign_verifies [OF v])
  define m where "m = \<lparr>im_version = 1, im_curve = c, im_ephemeral_public_key = ek_public_key kp,
    im_long_term_fingerprint = encode_fingerprint_hex (fingerprint_of L (lt_sec1 L key)), im_signature = sig\<rparr>"
  have "initiator_init L vs tr c sl New w = (Inr m, Initialised c kp m, w1)"
    using assms sig verifying_sec1_valid [OF v] generated_key_pair(3) [OF assms(2)] public_key_len_le [of c]
    by (simp add: initiator_init_def Let_def m_def INIT_PROTOCOL_VERSION_def)
  moreover have "offer_by L key c (ek_public_key kp) m" using sig by (simp add: offer_by_def m_def)
  ultimately show ?thesis by (rule that)
qed

lemma respond_succeeds:
  assumes "offer_by L ikey c (ek_public_key ikp) m" and "key_pair_ok L ikp" "ek_curve ikp = c"
    and "vault_load_session_long_term_signing_key L vs sl (curve_wire_id c) w = Inr key"
    and "ephemeral_generate L c tr w = (Inr kp, w1)"
  obtains r ss keys where "responder_respond L vs tr m sl (cert_of L ikey) w = (Inr (r, keys), w1)"
    and "answer_by L key c (ek_public_key kp) (ek_public_key ikp) r"
    and "ephemeral_ecdh L ikp (ek_public_key kp) = Inr ss"
    and "derive_session_keys L ss (ek_public_key ikp) (ek_public_key kp) = Inr keys"
proof -
  have v: "lt_valid L c key" by (rule loaded_key_valid [OF assms(4)])
  note kp = generated_key_pair [OF assms(5)]
  have il: "length (ek_public_key ikp) = public_key_len c" using assms(2,3) public_key by (auto simp: key_pair_ok_def)
  let ?pre = "response_sign_preimage 1 c (ek_public_key kp) (ek_public_key ikp)"
  obtain sig where sig: "sign_with_long_term L key ?pre = Inr sig" "length sig \<le> 150"
    "verify_with_cert L (cert_of L key) ?pre sig = Inr ()" by (rule sign_verifies [OF v])
  obtain ss where ss: "ephemeral_ecdh L ikp (ek_public_key kp) = Inr ss" "ephemeral_ecdh L kp (ek_public_key ikp) = Inr ss"
    by (rule ecdh_agrees [OF assms(2) kp(2) assms(3) kp(1)])
  have "length (ek_public_key ikp) + length (ek_public_key kp) \<le> 258"
    using il kp(3) public_key_len_le [of c] by simp
  then obtain keys where keys: "derive_session_keys L ss (ek_public_key ikp) (ek_public_key kp) = Inr keys"
    by (rule keys_derived)
  define r where "r = \<lparr>rm_version = 1, rm_curve = c, rm_ephemeral_public_key = ek_public_key kp,
    rm_long_term_fingerprint = encode_fingerprint_hex (fingerprint_of L (lt_sec1 L key)),
    rm_initiator_ephemeral_public_key = ek_public_key ikp, rm_signature = sig\<rparr>"
  have "responder_respond L vs tr m sl (cert_of L ikey) w = (Inr (r, keys), w1)"
    using assms(1,4,5) sig ss keys verifying_sec1_valid [OF v] kp(3) il public_key_len_le [of c]
    by (simp add: responder_respond_def Let_def offer_by_def r_def INIT_PROTOCOL_VERSION_def RESP_PROTOCOL_VERSION_def)
  moreover have "answer_by L key c (ek_public_key kp) (ek_public_key ikp) r" using sig by (simp add: answer_by_def r_def)
  ultimately show ?thesis using ss(1) keys by (rule that)
qed

lemma complete_succeeds:
  assumes "answer_by L key c epk (im_ephemeral_public_key m) r"
    and "ephemeral_ecdh L ikp epk = Inr ss"
    and "derive_session_keys L ss (im_ephemeral_public_key m) epk = Inr keys"
  shows "initiator_complete L r (cert_of L key) (Initialised c ikp m) = (Inr keys, Completed)"
  using assms
  by (simp add: initiator_complete_def complete_inner_def Let_def answer_by_def RESP_PROTOCOL_VERSION_def)

lemma messages_wf:
  assumes "length epk = public_key_len c"
  shows "offer_by L key c epk m \<Longrightarrow> init_wf m"
    and "answer_by L key' c epk' epk r \<Longrightarrow> length epk' = public_key_len c \<Longrightarrow> response_wf r"
  using assms by (auto simp: offer_by_def answer_by_def init_wf_def response_wf_def)

lemma honest_handshake:
  assumes "vault_load_session_long_term_signing_key L vsI slI (curve_wire_id c) wI = Inr ikey"
    and "ephemeral_generate L c trI wI = (Inr ikp, wI')"
    and "vault_load_session_long_term_signing_key L vsR slR (curve_wire_id c) wR = Inr rkey"
    and "ephemeral_generate L c trR wR = (Inr rkp, wR')"
  obtains m r keys where "initiator_init L vsI trI c slI initiator_new wI = (Inr m, Initialised c ikp m, wI')"
    and "init_wf m" and "responder_respond L vsR trR m slR (cert_of L ikey) wR = (Inr (r, keys), wR')"
    and "response_wf r"
    and "initiator_complete L r (cert_of L rkey) (Initialised c ikp m) = (Inr keys, Completed)"
proof -
  note ikp = generated_key_pair [OF assms(2)] and rkp = generated_key_pair [OF assms(4)]
  obtain m where m: "initiator_init L vsI trI c slI New wI = (Inr m, Initialised c ikp m, wI')"
    "offer_by L ikey c (ek_public_key ikp) m"
    by (rule init_succeeds [OF assms(1,2)])
  obtain r ss keys where r: "responder_respond L vsR trR m slR (cert_of L ikey) wR = (Inr (r, keys), wR')"
    "answer_by L rkey c (ek_public_key rkp) (ek_public_key ikp) r"
    "ephemeral_ecdh L ikp (ek_public_key rkp) = Inr ss"
    "derive_session_keys L ss (ek_public_key ikp) (ek_public_key rkp) = Inr keys"
    by (rule respond_succeeds [OF m(2) ikp(2,1) assms(3,4)])
  have epk: "im_ephemeral_public_key m = ek_public_key ikp" using m(2) by (simp add: offer_by_def)
  have "initiator_complete L r (cert_of L rkey) (Initialised c ikp m) = (Inr keys, Completed)"
    using r by (intro complete_succeeds) (simp_all add: epk)
  moreover have "init_wf m" "response_wf r"
    using messages_wf(1) [OF ikp(3) m(2)] messages_wf(2) [OF ikp(3) r(2) rkp(3)] by simp_all
  ultimately show ?thesis using m(1) r(1) by (intro that) (simp_all add: initiator_new_def)
qed

end

section \<open>Sequences of calls on one initiator\<close>

datatype initiator_call = CallInit session_curve u32 | CallComplete response_message long_term_cert

datatype initiator_answer = Offer "session_error + init_message" | Keys "session_error + session_keys"

definition initiator_step ::
  "session_lib \<Rightarrow> 'w vault_storage \<Rightarrow> 'w hardware_trng \<Rightarrow> initiator_call \<Rightarrow> initiator_state \<times> 'w \<Rightarrow>
   initiator_answer \<times> initiator_state \<times> 'w" where
  "initiator_step L vs tr call s =
     (case call of
        CallInit c sl \<Rightarrow> (case initiator_init L vs tr c sl (fst s) (snd s) of (r, s') \<Rightarrow> (Offer r, s'))
      | CallComplete m cert \<Rightarrow>
          (case initiator_complete L m cert (fst s) of (r, st) \<Rightarrow> (Keys r, st, snd s)))"

fun initiator_run ::
  "session_lib \<Rightarrow> 'w vault_storage \<Rightarrow> 'w hardware_trng \<Rightarrow> initiator_call list \<Rightarrow> initiator_state \<times> 'w \<Rightarrow>
   initiator_answer list \<times> initiator_state \<times> 'w" where
  "initiator_run L vs tr [] s = ([], s)"
| "initiator_run L vs tr (call # calls) s =
     (case initiator_step L vs tr call s of (a, s1) \<Rightarrow>
      case initiator_run L vs tr calls s1 of (as, s2) \<Rightarrow> (a # as, s2))"

text \<open>What a completed session answers to every further call.\<close>

fun refused :: "initiator_answer \<Rightarrow> bool" where
  "refused (Offer r) \<longleftrightarrow> r = Inl SessionAlreadyCompleted"
| "refused (Keys r) \<longleftrightarrow> r = Inl SessionAlreadyCompleted"

text \<open>The checks a response passed when keys were derived from it, for the offer \<open>m\<close>.\<close>

definition authenticated ::
  "session_lib \<Rightarrow> init_message \<Rightarrow> response_message \<Rightarrow> long_term_cert \<Rightarrow> bool" where
  "authenticated L m r cert \<longleftrightarrow> rm_version r = 1 \<and> rm_curve r = im_curve m
     \<and> rm_initiator_ephemeral_public_key r = im_ephemeral_public_key m
     \<and> decode_fingerprint_hex (rm_long_term_fingerprint r) = Inr (lc_fingerprint cert)
     \<and> verify_with_cert L cert (response_sign_preimage 1 (im_curve m) (rm_ephemeral_public_key r)
         (im_ephemeral_public_key m)) (rm_signature r) = Inr ()"

lemma complete_keys:
  assumes "initiator_complete L r cert st = (Inr keys, st')"
  obtains c kp m where "st = Initialised c kp m" and "st' = Completed" and "im_curve m = c \<Longrightarrow> authenticated L m r cert"
  using assms
  by (auto simp: initiator_complete_def complete_inner_def Let_def authenticated_def RESP_PROTOCOL_VERSION_def
      split: initiator_state.splits if_splits sum.splits)

lemma complete_initialised:
  "initiator_complete L r cert st = (a, Initialised c kp m) \<Longrightarrow> st = Initialised c kp m"
  by (auto simp: initiator_complete_def complete_inner_def Let_def
      split: initiator_state.splits if_splits sum.splits)

lemma init_initialised:
  assumes "initiator_init L vs tr c sl st w = (a, Initialised c' kp m, w')"
  shows "st = Initialised c' kp m \<or> a = Inr m \<and> im_curve m = c' \<and> c' = c"
  using assms
  by (auto simp: initiator_init_def Let_def res_bind_eq_Inr split: initiator_state.splits sum.splits prod.splits)

text \<open>An initialised state remembers the offer that some call of the run answered.\<close>

definition offered :: "initiator_answer list \<Rightarrow> initiator_state \<Rightarrow> bool" where
  "offered as st \<longleftrightarrow> (\<forall>c kp m. st = Initialised c kp m \<longrightarrow> im_curve m = c \<and> Offer (Inr m) \<in> set as)"

lemma step_offered:
  assumes "initiator_step L vs tr call s = (a, s')" and "offered as (fst s)"
  shows "offered (as @ [a]) (fst s')"
proof (cases call)
  case (CallInit c sl)
  with assms show ?thesis
    by (cases s') (auto simp: initiator_step_def offered_def dest!: init_initialised split: prod.splits)
next
  case (CallComplete r cert)
  with assms show ?thesis
    by (auto simp: initiator_step_def offered_def dest!: complete_initialised split: prod.splits)
qed

lemma step_completed:
  "initiator_step L vs tr call (Completed, w) = (a, s') \<Longrightarrow> s' = (Completed, w) \<and> refused a"
  by (cases call) (auto simp: initiator_step_def initiator_init_def initiator_complete_def)

lemma run_completed:
  "initiator_run L vs tr calls (Completed, w) = (as, s') \<Longrightarrow> \<forall>a \<in> set as. refused a"
  by (induction calls arbitrary: as) (auto split: prod.splits dest!: step_completed)

lemma run_append:
  "initiator_run L vs tr (xs @ ys) s =
     (case initiator_run L vs tr xs s of (as, s1) \<Rightarrow>
      case initiator_run L vs tr ys s1 of (bs, s2) \<Rightarrow> (as @ bs, s2))"
  by (induction xs arbitrary: s) (auto split: prod.splits)

lemma run_length: "initiator_run L vs tr xs s = (as, s') \<Longrightarrow> length as = length xs"
  by (induction xs arbitrary: s as) (auto split: prod.splits)

lemma run_offered:
  "initiator_run L vs tr xs s = (as, s') \<Longrightarrow> offered bs (fst s) \<Longrightarrow> offered (bs @ as) (fst s')"
proof (induction xs arbitrary: s s' as bs)
  case (Cons x xs)
  obtain a s1 where a: "initiator_step L vs tr x s = (a, s1)" by (cases "initiator_step L vs tr x s")
  obtain as1 s2 where r: "initiator_run L vs tr xs s1 = (as1, s2)" by (cases "initiator_run L vs tr xs s1")
  from Cons.prems a r have "as = a # as1" "s' = s2" by simp_all
  with Cons.IH [OF r step_offered [OF a Cons.prems(2)]] show ?case by simp
qed simp

section \<open>A concrete library and world\<close>

text \<open>
  A library that keeps the contract \<open>session_crypto\<close>: a point is its scalar with a prefix and padding,
  agreement combines two scalars bytewise, a signature is half of the digest and half of the scalar.
\<close>

definition demo_point :: "nat \<Rightarrow> bytes \<Rightarrow> bytes" where
  "demo_point n sk = 4 # sk @ replicate n 0"

definition demo_dh :: "bytes \<Rightarrow> bytes \<Rightarrow> bytes" where
  "demo_dh sk p = map2 (XOR) sk (drop 1 p)"

definition demo_sign :: "bytes \<Rightarrow> bytes \<Rightarrow> bytes" where
  "demo_sign sk d = take 16 d @ take 16 sk"

definition demo_session_lib :: session_lib where
  "demo_session_lib = \<lparr>
     sl_crypto = plain_crypto\<lparr>bp_public_point := demo_point 32, bp_dh := demo_dh,
       bp_sign_prehash := (\<lambda>sk d. Some (demo_sign sk d)), sec1_to_public := Some\<rparr>,
     p256_to_sec1_point = (\<lambda>p. p), p256_spki = Some, p256_vk_from_sec1 = Some,
     p256_sign_sha256 = (\<lambda>sk m. Some (demo_sign sk m)), p256_sig_from_der = Some,
     p256_verify_sha256 = (\<lambda>vk m s. s = demo_sign (drop 1 vk) m),
     p256_verify_digest = (\<lambda>vk d s. s = demo_sign (drop 1 vk) d),
     sl_p384 = \<lparr>
       p384_from_slice = (\<lambda>bs. if length bs = 48 then Some bs else None),
       p384_public_point = demo_point 48, p384_dh = demo_dh, p384_sec1_parse = Some,
       p384_sec1_is_identity = (\<lambda>p. p = [0]), p384_sec1_to_public = Some,
       p384_public_is_identity = (\<lambda>p. p = []), p384_to_sec1_point = (\<lambda>p. p), p384_spki = Some,
       p384_vk_from_sec1 = Some, p384_sign_sha384 = (\<lambda>sk m. Some (demo_sign sk m)),
       p384_sign_digest = (\<lambda>sk d. Some (demo_sign sk d)), p384_sig_from_der = Some,
       p384_verify_sha384 = (\<lambda>vk m s. s = demo_sign (drop 1 vk) m),
       p384_verify_digest = (\<lambda>vk d s. s = demo_sign (drop 1 vk) d)\<rparr>,
     hmac_sha256 = (\<lambda>k m. take 32 (m @ k @ replicate 32 0)),
     hkdf_from_prk = Some, hkdf_expand = (\<lambda>prk info n. Some (take n (info @ prk @ replicate n 0)))\<rparr>"

lemma demo_dh_commute:
  "length a = length b \<Longrightarrow> demo_dh a (demo_point n b) = demo_dh b (demo_point n a)"
  "length a = length b \<Longrightarrow> length (demo_dh a (demo_point n b)) = length a"
  by (auto simp: demo_dh_def demo_point_def xor.commute nth_append intro!: nth_equalityI)

lemma demo_verifies: "16 \<le> length sk \<Longrightarrow> demo_sign (drop 1 (demo_point n sk)) d = demo_sign sk d"
  by (simp add: demo_sign_def demo_point_def)

interpretation demo: session_crypto demo_session_lib
proof
  fix c raw sk
  show "curve_scalar demo_session_lib c raw = Some sk \<Longrightarrow>
      length sk = scalar_len c \<and> curve_scalar demo_session_lib c sk = Some sk"
    by (cases c) (auto simp: demo_session_lib_def plain_crypto_def split: if_splits)
next
  fix c sk
  assume sk: "curve_scalar demo_session_lib c sk = Some sk"
  then show "length (curve_sec1 demo_session_lib c (curve_point demo_session_lib c sk)) = public_key_len c \<and>
      \<not> curve_is_identity demo_session_lib c (curve_point demo_session_lib c sk) \<and>
      (\<exists>q. curve_sec1_parse demo_session_lib c (curve_sec1 demo_session_lib c (curve_point demo_session_lib c sk)) = Some q \<and>
        \<not> curve_sec1_is_identity demo_session_lib c q \<and>
        curve_sec1_to_public demo_session_lib c q = Some (curve_point demo_session_lib c sk))"
    by (cases c) (auto simp: demo_session_lib_def plain_crypto_def demo_point_def split: if_splits)
  from sk show "curve_vk demo_session_lib c (curve_sec1 demo_session_lib c (curve_point demo_session_lib c sk)) =
      Some (curve_point demo_session_lib c sk)"
    by (cases c) (simp_all add: demo_session_lib_def)
  fix d :: bytes
  assume d: "length d = 32"
  show "\<exists>s p. curve_sign demo_session_lib c sk d = Some s \<and> length s \<le> der_limit c \<and>
      curve_sig demo_session_lib c s = Some p \<and> curve_verify demo_session_lib c (curve_point demo_session_lib c sk) d p"
    using sk d demo_verifies [of sk]
    by (cases c) (auto simp: demo_session_lib_def plain_crypto_def split: if_splits, simp_all add: demo_sign_def)
next
  fix c a b
  assume "curve_scalar demo_session_lib c a = Some a" "curve_scalar demo_session_lib c b = Some b"
  then show "curve_dh demo_session_lib c a (curve_point demo_session_lib c b) =
      curve_dh demo_session_lib c b (curve_point demo_session_lib c a) \<and>
      length (curve_dh demo_session_lib c a (curve_point demo_session_lib c b)) = scalar_len c"
    by (cases c) (auto simp: demo_session_lib_def plain_crypto_def demo_dh_commute split: if_splits)
next
  show "length (sha256 (sl_crypto demo_session_lib) m) = 32" for m
    by (simp add: demo_session_lib_def plain_crypto_def)
  show "\<exists>h. hkdf_from_prk demo_session_lib (hmac_sha256 demo_session_lib k m) = Some h \<and>
      (\<forall>info. \<exists>okm. hkdf_expand demo_session_lib h info 32 = Some okm)" for k m
    by (simp add: demo_session_lib_def)
qed

text \<open>Storage with two long-term keys and a random source, side by side.\<close>

definition demo_key :: "u8 \<Rightarrow> session_long_term_signing_key" where
  "demo_key b = P384 (replicate 48 b)"

type_synonym demo_world = "fake_vault_storage \<times> u64"

definition demo_vs :: "demo_world vault_storage" where
  "demo_vs = vault_via fst (\<lambda>s w. (s, snd w)) FakeVaultStorage"

definition demo_tr :: "demo_world hardware_trng" where
  "demo_tr = trng_via snd (\<lambda>s w. (fst w, s)) FakeTrng"

definition demo_world :: "u64 \<Rightarrow> demo_world" where
  "demo_world seed = (\<lparr>fv_mem = replicate 0x100000 0 @ lt_slot_bytes (demo_key 1) @ lt_slot_bytes (demo_key 2),
     fv_fail_next_write = False\<rparr>, seed)"

lemma demo_key_valid: "lt_valid demo_session_lib BrainpoolP384r1 (demo_key b)"
  by (simp add: demo_key_def demo_session_lib_def)

lemma demo_loads:
  "vault_load_session_long_term_signing_key demo_session_lib demo_vs 0
     (curve_wire_id BrainpoolP384r1) (demo_world seed) = Inr (demo_key 1)"
  "vault_load_session_long_term_signing_key demo_session_lib demo_vs 1
     (curve_wire_id BrainpoolP384r1) (demo_world seed) = Inr (demo_key 2)"
proof -
  have l: "length (lt_slot_bytes (demo_key b)) = 512" for b by (rule lt_slot_bytes_props(1) [OF demo_key_valid])
  have C: "vault_contract demo_vs (\<lambda>w. fv_mem (fst w)) (\<lambda>w. \<not> fv_fail_next_write (fst w))"
    unfolding demo_vs_def by (rule vault_via_contract [OF fake_vault.vault_contract_axioms]) simp
  have "vs_read demo_vs (demo_world seed) (session_lt_slot_offset 0) 512 = Inr (lt_slot_bytes (demo_key 1))"
    "vs_read demo_vs (demo_world seed) (session_lt_slot_offset 1) 512 = Inr (lt_slot_bytes (demo_key 2))"
    using l by (simp_all add: vault_contract.read_in [OF C] demo_world_def session_lt_slot_offset_def slice_def)
  then show
    "vault_load_session_long_term_signing_key demo_session_lib demo_vs 0
     (curve_wire_id BrainpoolP384r1) (demo_world seed) = Inr (demo_key 1)"
    "vault_load_session_long_term_signing_key demo_session_lib demo_vs 1
     (curve_wire_id BrainpoolP384r1) (demo_world seed) = Inr (demo_key 2)"
    using vault_contract.load_session_key [OF C demo_key_valid] by simp_all
qed

lemma demo_generates:
  obtains kp w' where "ephemeral_generate demo_session_lib BrainpoolP384r1 demo_tr w = (Inr kp, w')"
proof -
  obtain bs st where f: "fake_trng_fill 48 (snd w) = (bs, st)" by (cases "fake_trng_fill 48 (snd w)")
  then have l: "length bs = 48" using fake_trng_fill_length [of 48 "snd w"] by simp
  have "p384_sample (sl_p384 demo_session_lib) demo_tr (Suc 127) w = (Inr bs, fst w, st)"
    unfolding p384_sample.simps using f l
    by (simp add: demo_tr_def trng_via_def FakeTrng_def demo_session_lib_def)
  then have "p384_sample (sl_p384 demo_session_lib) demo_tr 128 w = (Inr bs, fst w, st)" by simp
  then have "\<exists>kp w'. ephemeral_generate demo_session_lib BrainpoolP384r1 demo_tr w = (Inr kp, w')"
    using l by (simp add: ephemeral_generate_def p384_scalar_generate_def p384_public_key_def
        p384_secret_key_def p384_to_sec1_uncompressed_def Let_def)
      (simp add: demo_session_lib_def demo_point_def)
  then show ?thesis using that by blast
qed

text \<open>
  (C17) An initiator's keys are authenticated and handed out once: whatever the sequence of calls on a
  session object, when a call of \<open>complete\<close> returns keys, an earlier call of \<open>init\<close> made an offer for
  the same curve, the response repeats the ephemeral key of that offer, its fingerprint is that of the
  given certificate and its signature, checked under that certificate, covers both ephemeral keys;
  and every later call on the object answers \<open>SessionAlreadyCompleted\<close>.
\<close>

theorem initiator_keys_authenticated_once:
  assumes "initiator_run L vs tr (before @ CallComplete r cert # after) (initiator_new, w) = (as @ Keys (Inr keys) # bs, s)"
    and "length as = length before"
  shows "(\<exists>m. Offer (Inr m) \<in> set as \<and> authenticated L m r cert) \<and> (\<forall>a \<in> set bs. refused a)"
proof -
  obtain as1 st w1 where b: "initiator_run L vs tr before (initiator_new, w) = (as1, st, w1)"
    by (metis prod.collapse)
  obtain k st2 where c: "initiator_complete L r cert st = (k, st2)" by (cases "initiator_complete L r cert st")
  obtain bs1 s1 where a: "initiator_run L vs tr after (st2, w1) = (bs1, s1)"
    by (cases "initiator_run L vs tr after (st2, w1)")
  have "as1 = as \<and> Keys k # bs1 = Keys (Inr keys) # bs"
    using assms a b c run_length [OF b] by (simp add: run_append initiator_step_def)
  then have eq: "as1 = as" "k = Inr keys" "bs1 = bs" by simp_all
  from c eq obtain c' kp m where st: "st = Initialised c' kp m" "st2 = Completed"
    and auth: "im_curve m = c' \<Longrightarrow> authenticated L m r cert" by (auto elim: complete_keys)
  have "offered [] initiator_new" by (simp add: offered_def initiator_new_def)
  with run_offered [OF b, of "[]"] eq st have "im_curve m = c'" "Offer (Inr m) \<in> set as"
    by (simp_all add: offered_def)
  moreover from a eq st have "initiator_run L vs tr after (Completed, w1) = (bs, s1)" by simp
  then have "\<forall>a \<in> set bs. refused a" by (rule run_completed)
  ultimately show ?thesis using auth by blast
qed

theorem initiator_keys_authenticated_once_witness:
  "\<exists>m r keys s.
    initiator_run demo_session_lib demo_vs demo_tr
      [CallInit BrainpoolP384r1 0, CallComplete r (cert_of demo_session_lib (demo_key 2)), CallInit BrainpoolP384r1 0]
      (initiator_new, demo_world 7)
      = ([Offer (Inr m), Keys (Inr keys), Offer (Inl SessionAlreadyCompleted)], s)
    \<and> authenticated demo_session_lib m r (cert_of demo_session_lib (demo_key 2))"
proof -
  obtain ikp wI where i: "ephemeral_generate demo_session_lib BrainpoolP384r1 demo_tr (demo_world 7) = (Inr ikp, wI)"
    by (rule demo_generates)
  obtain rkp wR where r: "ephemeral_generate demo_session_lib BrainpoolP384r1 demo_tr (demo_world 8) = (Inr rkp, wR)"
    by (rule demo_generates)
  obtain m r keys where h:
    "initiator_init demo_session_lib demo_vs demo_tr BrainpoolP384r1 0 initiator_new (demo_world 7) =
      (Inr m, Initialised BrainpoolP384r1 ikp m, wI)"
    "initiator_complete demo_session_lib r (cert_of demo_session_lib (demo_key 2)) (Initialised BrainpoolP384r1 ikp m)
      = (Inr keys, Completed)"
    by (rule demo.honest_handshake [OF demo_loads(1) i demo_loads(2) r])
  have run: "initiator_run demo_session_lib demo_vs demo_tr
      [CallInit BrainpoolP384r1 0, CallComplete r (cert_of demo_session_lib (demo_key 2)), CallInit BrainpoolP384r1 0]
      (initiator_new, demo_world 7)
      = ([Offer (Inr m), Keys (Inr keys), Offer (Inl SessionAlreadyCompleted)], Completed, wI)"
    using h by (simp add: initiator_step_def initiator_init_def [of _ _ _ _ _ Completed])
  have "authenticated demo_session_lib m r (cert_of demo_session_lib (demo_key 2))"
    using initiator_keys_authenticated_once [of demo_session_lib demo_vs demo_tr "[CallInit BrainpoolP384r1 0]" r
        "cert_of demo_session_lib (demo_key 2)" "[CallInit BrainpoolP384r1 0]" "demo_world 7" "[Offer (Inr m)]" keys
        "[Offer (Inl SessionAlreadyCompleted)]" "(Completed, wI)"] run by simp
  with run show ?thesis by blast
qed

section \<open>Stored long-term keys\<close>

lemma session_lt_slots_disjoint:
  "a \<noteq> b \<Longrightarrow> session_lt_slot_offset a + 512 \<le> session_lt_slot_offset b \<or> session_lt_slot_offset b + 512 \<le> session_lt_slot_offset a"
  by (cases "unat a < unat b") (auto simp: session_lt_slot_offset_def word_unat_eq_iff)

text \<open>
  A stored long-term key is loaded back for its curve and refused for any other curve byte; other
  slots load what they did, and a second store needs the overwrite flag.
\<close>

theorem session_key_store_load:
  assumes "vault_contract vs mem ok" and "ok w" and "lt_valid L c key"
    and "session_lt_slot_offset sl + 512 \<le> length (mem w)"
  defines "w' \<equiv> snd (vault_store_session_long_term_signing_key vs sl key True w)"
  shows "vault_load_session_long_term_signing_key L vs sl i w' = (if i = curve_wire_id c then Inr key else Inl LtInvalidEncoding)
    \<and> (\<forall>k. k \<noteq> sl \<longrightarrow> session_lt_slot_offset k + 512 \<le> length (mem w) \<longrightarrow>
        vault_load_session_long_term_signing_key L vs k i w' = vault_load_session_long_term_signing_key L vs k i w)
    \<and> vault_store_session_long_term_signing_key vs sl key False w' = (Inl LtSlotOccupied, w')"
proof -
  note V = assms(1)
  note p = lt_slot_bytes_props [OF assms(3)]
  have w': "w' = snd (vs_write vs w (session_lt_slot_offset sl) (lt_slot_bytes key))"
    using vault_contract.store_session_key [OF V assms(3,2,4), of True] by (simp add: w'_def)
  have fit: "session_lt_slot_offset sl + length (lt_slot_bytes key) \<le> length (mem w)" using assms(4) p(1) by simp
  have ok: "ok w'" using vault_contract.write_ok [OF V assms(2)] by (simp add: w')
  have mem: "mem w' = splice (mem w) (session_lt_slot_offset sl) (lt_slot_bytes key)"
    using vault_contract.write_mem [OF V vault_contract.write_in [OF V assms(2) fit]] by (simp add: w')
  have "vs_read vs w' (session_lt_slot_offset sl) 512 = Inr (lt_slot_bytes key)"
    unfolding w' using assms(2) fit p(1) by (intro vault_contract.write_then_read [OF V]) simp_all
  note l = vault_contract.load_session_key [OF V assms(3) this]
  have "vault_load_session_long_term_signing_key L vs k i w' = vault_load_session_long_term_signing_key L vs k i w"
    if "k \<noteq> sl" "session_lt_slot_offset k + 512 \<le> length (mem w)" for k
    using vault_contract.write_frame [OF V assms(2) fit that(2)] session_lt_slots_disjoint [OF that(1)] p(1)
    by (auto simp: vault_load_session_long_term_signing_key_def w')
  moreover have "slice (session_lt_slot_offset sl) 4 (mem w') = SESSION_LT_MAGIC"
    using mem fit p slice_splice_inner [of "session_lt_slot_offset sl" "lt_slot_bytes key" "mem w" "session_lt_slot_offset sl" 4]
    by simp
  with vault_contract.store_session_key [OF V assms(3) ok, of sl False] assms(4) mem fit
  have "vault_store_session_long_term_signing_key vs sl key False w' = (Inl LtSlotOccupied, w')" by simp
  ultimately show ?thesis using l by blast
qed

section \<open>Two parties\<close>

text \<open>
  (C16) Two honest parties agree: if both sides find their long-term key for the curve in storage and
  draw an ephemeral key, the initiator's offer survives the wire, the responder who trusts the
  initiator's certificate answers it, the answer survives the wire, and the initiator who trusts the
  responder's certificate completes with exactly the responder's keys.
\<close>

theorem handshake_agreement:
  assumes "session_crypto L"
    and "vault_load_session_long_term_signing_key L vsI slI (curve_wire_id c) wI = Inr ikey"
    and "ephemeral_generate L c trI wI = (Inr ikp, wI')"
    and "vault_load_session_long_term_signing_key L vsR slR (curve_wire_id c) wR = Inr rkey"
    and "ephemeral_generate L c trR wR = (Inr rkp, wR')"
  shows "\<exists>m st b r keys b'.
    initiator_init L vsI trI c slI initiator_new wI = (Inr m, st, wI') \<and>
    init_serialise m = Inr b \<and> init_parse b = Inr m \<and>
    responder_respond L vsR trR m slR (cert_of L ikey) wR = (Inr (r, keys), wR') \<and>
    response_serialise r = Inr b' \<and> response_parse b' = Inr r \<and>
    initiator_complete L r (cert_of L rkey) st = (Inr keys, Completed)"
proof -
  obtain m r keys where h: "initiator_init L vsI trI c slI initiator_new wI = (Inr m, Initialised c ikp m, wI')"
    "init_wf m" "responder_respond L vsR trR m slR (cert_of L ikey) wR = (Inr (r, keys), wR')" "response_wf r"
    "initiator_complete L r (cert_of L rkey) (Initialised c ikp m) = (Inr keys, Completed)"
    by (rule session_crypto.honest_handshake [OF assms])
  then show ?thesis
    using init_codec.serialise_wf [of m] init_codec.parse_wire [of m "[]"]
      response_codec.serialise_wf [of r] response_codec.parse_wire [of r "[]"] by auto
qed

theorem handshake_agreement_witness:
  "\<exists>m st b r keys b' wI wR.
    initiator_init demo_session_lib demo_vs demo_tr BrainpoolP384r1 0 initiator_new (demo_world 7) = (Inr m, st, wI) \<and>
    init_serialise m = Inr b \<and> init_parse b = Inr m \<and>
    responder_respond demo_session_lib demo_vs demo_tr m 1 (cert_of demo_session_lib (demo_key 1)) (demo_world 8)
      = (Inr (r, keys), wR) \<and>
    response_serialise r = Inr b' \<and> response_parse b' = Inr r \<and>
    initiator_complete demo_session_lib r (cert_of demo_session_lib (demo_key 2)) st = (Inr keys, Completed)"
proof -
  obtain ikp wI where i: "ephemeral_generate demo_session_lib BrainpoolP384r1 demo_tr (demo_world 7) = (Inr ikp, wI)"
    by (rule demo_generates)
  obtain rkp wR where r: "ephemeral_generate demo_session_lib BrainpoolP384r1 demo_tr (demo_world 8) = (Inr rkp, wR)"
    by (rule demo_generates)
  show ?thesis
    using handshake_agreement [OF demo.session_crypto_axioms demo_loads(1) i demo_loads(2) r] by blast
qed

text \<open>
  The transcripts name no party: whoever holds any signing key of the curve can take an honest
  offer, replace its fingerprint and signature by their own, and have the responder answer it as
  theirs. The answer completes the honest initiator's session, so the initiator shares keys with a
  responder who attributes the session to the third party.
\<close>

theorem offer_can_be_relabelled:
  assumes "session_crypto L"
    and "vault_load_session_long_term_signing_key L vsI slI (curve_wire_id c) wI = Inr ikey"
    and "ephemeral_generate L c trI wI = (Inr ikp, wI')"
    and "vault_load_session_long_term_signing_key L vsR slR (curve_wire_id c) wR = Inr rkey"
    and "ephemeral_generate L c trR wR = (Inr rkp, wR')"
    and "lt_valid L c okey"
  shows "\<exists>m st sig r keys.
    initiator_init L vsI trI c slI initiator_new wI = (Inr m, st, wI') \<and>
    sign_with_long_term L okey (init_sign_preimage (im_version m) c (im_ephemeral_public_key m)) = Inr sig \<and>
    responder_respond L vsR trR
      (m\<lparr>im_long_term_fingerprint := encode_fingerprint_hex (lc_fingerprint (cert_of L okey)), im_signature := sig\<rparr>)
      slR (cert_of L okey) wR = (Inr (r, keys), wR') \<and>
    initiator_complete L r (cert_of L rkey) st = (Inr keys, Completed)"
proof -
  note S = assms(1)
  note ikp = session_crypto.generated_key_pair [OF S assms(3)]
  obtain m where m: "initiator_init L vsI trI c slI New wI = (Inr m, Initialised c ikp m, wI')"
    "offer_by L ikey c (ek_public_key ikp) m"
    by (rule session_crypto.init_succeeds [OF S assms(2,3)])
  obtain sig where sig: "sign_with_long_term L okey (init_sign_preimage 1 c (ek_public_key ikp)) = Inr sig"
    "length sig \<le> 150" "verify_with_cert L (cert_of L okey) (init_sign_preimage 1 c (ek_public_key ikp)) sig = Inr ()"
    by (rule session_crypto.sign_verifies [OF S assms(6)])
  let ?m = "m\<lparr>im_long_term_fingerprint := encode_fingerprint_hex (lc_fingerprint (cert_of L okey)), im_signature := sig\<rparr>"
  have "offer_by L okey c (ek_public_key ikp) ?m" using m(2) sig by (simp add: offer_by_def)
  then obtain r ss keys where r: "responder_respond L vsR trR ?m slR (cert_of L okey) wR = (Inr (r, keys), wR')"
    "answer_by L rkey c (ek_public_key rkp) (ek_public_key ikp) r"
    "ephemeral_ecdh L ikp (ek_public_key rkp) = Inr ss"
    "derive_session_keys L ss (ek_public_key ikp) (ek_public_key rkp) = Inr keys"
    by (rule session_crypto.respond_succeeds [OF S _ ikp(2,1) assms(4,5)])
  have epk: "im_ephemeral_public_key m = ek_public_key ikp" "im_version m = 1" using m(2) by (simp_all add: offer_by_def)
  have "initiator_complete L r (cert_of L rkey) (Initialised c ikp m) = (Inr keys, Completed)"
    using r by (intro session_crypto.complete_succeeds [OF S]) (simp_all add: epk)
  with m(1) r(1) sig(1) epk show ?thesis by (auto simp: initiator_new_def)
qed

theorem offer_can_be_relabelled_witness:
  "\<exists>m st sig r keys wI wR.
    initiator_init demo_session_lib demo_vs demo_tr BrainpoolP384r1 0 initiator_new (demo_world 7) = (Inr m, st, wI) \<and>
    sign_with_long_term demo_session_lib (demo_key 3)
      (init_sign_preimage (im_version m) BrainpoolP384r1 (im_ephemeral_public_key m)) = Inr sig \<and>
    responder_respond demo_session_lib demo_vs demo_tr
      (m\<lparr>im_long_term_fingerprint := encode_fingerprint_hex (lc_fingerprint (cert_of demo_session_lib (demo_key 3))),
         im_signature := sig\<rparr>) 1 (cert_of demo_session_lib (demo_key 3)) (demo_world 8) = (Inr (r, keys), wR) \<and>
    initiator_complete demo_session_lib r (cert_of demo_session_lib (demo_key 2)) st = (Inr keys, Completed)"
proof -
  obtain ikp wI where i: "ephemeral_generate demo_session_lib BrainpoolP384r1 demo_tr (demo_world 7) = (Inr ikp, wI)"
    by (rule demo_generates)
  obtain rkp wR where r: "ephemeral_generate demo_session_lib BrainpoolP384r1 demo_tr (demo_world 8) = (Inr rkp, wR)"
    by (rule demo_generates)
  show ?thesis
    using offer_can_be_relabelled [OF demo.session_crypto_axioms demo_loads(1) i demo_loads(2) r demo_key_valid]
    by blast
qed

end
