(* ===== verification/Rsa_Vault.thy ===== *)
theory Rsa_Vault
  imports Session_Crypto Pin_Policy
begin

text \<open>
  RSA keys of \<open>crates/vault\<close>: the policy wrappers around the \<open>rsa\<close> crate (\<open>rsa_keys.rs\<close>) and the storage
  of wrapped private keys (\<open>rsa_vault.rs\<close>). Also the provisioned PIN policy record
  (\<open>vault_pin_policy.rs\<close>) and the service stub that fails closed (\<open>service.rs\<close>).

  A key of the \<open>rsa\<close> crate is represented by bytes; the crate's operations, which may draw from the
  random source, are the fields of \<open>rsa_lib\<close>.
\<close>

section \<open>RSA keys\<close>

datatype rsa_crate_error = CratePkcs8 | CrateDecryption | CrateVerification | CrateOther

datatype digest_alg = DigestSha256 | DigestSha512

text \<open>An OAEP label is absent or a string; \<open>rsa_sign_*\<close> and \<open>rsa_verify_*\<close> hash or take the digest as the crate does.\<close>

record 'w rsa_lib =
  rsa_new :: "'w hardware_trng \<Rightarrow> nat \<Rightarrow> 'w \<Rightarrow> bytes option \<times> 'w"
  rsa_public_of :: "bytes \<Rightarrow> bytes"
  rsa_modulus_bits :: "bytes \<Rightarrow> nat"
  rsa_pkcs8_decode :: "bytes \<Rightarrow> bytes option"
  rsa_pkcs8_encode :: "bytes \<Rightarrow> bytes option"
  rsa_spki_decode :: "bytes \<Rightarrow> bytes option"
  rsa_spki_encode :: "bytes \<Rightarrow> bytes option"
  rsa_digest :: "digest_alg \<Rightarrow> bytes \<Rightarrow> bytes"
  rsa_oaep_decrypt :: "bytes \<Rightarrow> bytes option \<Rightarrow> bytes \<Rightarrow> rsa_crate_error + bytes"
  rsa_oaep_encrypt :: "'w hardware_trng \<Rightarrow> bytes \<Rightarrow> bytes option \<Rightarrow> bytes \<Rightarrow> 'w \<Rightarrow> (rsa_crate_error + bytes) \<times> 'w"
  rsa_pss_sign :: "'w hardware_trng \<Rightarrow> digest_alg \<Rightarrow> bytes \<Rightarrow> bytes \<Rightarrow> 'w \<Rightarrow> bytes option \<times> 'w"
  rsa_pkcs1_sign :: "bytes \<Rightarrow> bytes \<Rightarrow> bytes option"
  rsa_pss_signature :: "bytes \<Rightarrow> bytes option"
  rsa_pss_verify :: "digest_alg \<Rightarrow> bytes \<Rightarrow> bytes \<Rightarrow> bytes \<Rightarrow> bool"
  rsa_pkcs1_signature :: "bytes \<Rightarrow> bytes option"
  rsa_pkcs1_verify :: "bytes \<Rightarrow> bytes \<Rightarrow> bytes \<Rightarrow> bool"

abbreviation RSA_MIN_MODULUS_BITS :: nat where "RSA_MIN_MODULUS_BITS \<equiv> 2048"

datatype rsa_error =
    KeyTooSmall nat | DecryptionFailed | SignatureFailed | VerificationFailed | InvalidEncoding
  | RsaTrngFailure | RsaKeyGeneration | UnsupportedKeySize nat

fun map_rsa_err :: "rsa_crate_error \<Rightarrow> rsa_error" where
  "map_rsa_err CratePkcs8 = InvalidEncoding"
| "map_rsa_err CrateDecryption = DecryptionFailed"
| "map_rsa_err CrateVerification = VerificationFailed"
| "map_rsa_err CrateOther = InvalidEncoding"

definition ensure_min_public_bits :: "'w rsa_lib \<Rightarrow> bytes \<Rightarrow> rsa_error + unit" where
  "ensure_min_public_bits R pk =
     (let bits = rsa_modulus_bits R pk in
      if bits < RSA_MIN_MODULUS_BITS then Inl (KeyTooSmall bits) else Inr ())"

definition oaep_sha256 :: "bytes \<Rightarrow> rsa_error + bytes option" where
  "oaep_sha256 label =
     (if label = [] then Inr None
      else if \<not> utf8_valid label then Inl InvalidEncoding else Inr (Some label))"

definition rsa_generate :: "'w rsa_lib \<Rightarrow> 'w hardware_trng \<Rightarrow> nat \<Rightarrow> 'w \<Rightarrow> (rsa_error + bytes) \<times> 'w" where
  "rsa_generate R tr bits w =
     (if bits \<noteq> 2048 \<and> bits \<noteq> 3072 \<and> bits \<noteq> 4096 then (Inl (UnsupportedKeySize bits), w)
      else if bits < RSA_MIN_MODULUS_BITS then (Inl (KeyTooSmall bits), w)
      else
        case rsa_new R tr bits w of
          (None, w1) \<Rightarrow> (Inl RsaKeyGeneration, w1)
        | (Some inner, w1) \<Rightarrow>
            (res_bind (ensure_min_public_bits R (rsa_public_of R inner)) (\<lambda>_. Inr inner), w1))"

definition rsa_from_pkcs8_der :: "'w rsa_lib \<Rightarrow> bytes \<Rightarrow> rsa_error + bytes" where
  "rsa_from_pkcs8_der R der =
     res_bind (ok_or InvalidEncoding (rsa_pkcs8_decode R der)) (\<lambda>inner.
     res_bind (ensure_min_public_bits R (rsa_public_of R inner)) (\<lambda>_. Inr inner))"

definition rsa_public_key :: "'w rsa_lib \<Rightarrow> bytes \<Rightarrow> bytes" where
  "rsa_public_key R key = rsa_public_of R key"

definition rsa_decrypt_oaep :: "'w rsa_lib \<Rightarrow> bytes \<Rightarrow> bytes \<Rightarrow> bytes \<Rightarrow> rsa_error + bytes" where
  "rsa_decrypt_oaep R key ciphertext label =
     res_bind (ensure_min_public_bits R (rsa_public_of R key)) (\<lambda>_.
     res_bind (oaep_sha256 label) (\<lambda>padding.
     map_err map_rsa_err (rsa_oaep_decrypt R key padding ciphertext)))"

text \<open>\<open>sign_pss_sha256\<close> and \<open>sign_pss_sha512\<close> differ in the hash only, as do the verifications.\<close>

definition rsa_sign_pss ::
  "'w rsa_lib \<Rightarrow> 'w hardware_trng \<Rightarrow> digest_alg \<Rightarrow> bytes \<Rightarrow> bytes \<Rightarrow> 'w \<Rightarrow> (rsa_error + bytes) \<times> 'w" where
  "rsa_sign_pss R tr alg key message w =
     (case ensure_min_public_bits R (rsa_public_of R key) of
        Inl e \<Rightarrow> (Inl e, w)
      | Inr _ \<Rightarrow>
          (case rsa_pss_sign R tr alg key (rsa_digest R alg message) w of
             (s, w1) \<Rightarrow> (ok_or SignatureFailed s, w1)))"

definition rsa_sign_pkcs1_sha256 :: "'w rsa_lib \<Rightarrow> bytes \<Rightarrow> bytes \<Rightarrow> rsa_error + bytes" where
  "rsa_sign_pkcs1_sha256 R key message =
     res_bind (ensure_min_public_bits R (rsa_public_of R key)) (\<lambda>_.
     ok_or SignatureFailed (rsa_pkcs1_sign R key (rsa_digest R DigestSha256 message)))"

definition rsa_to_pkcs8_der :: "'w rsa_lib \<Rightarrow> bytes \<Rightarrow> rsa_error + bytes" where
  "rsa_to_pkcs8_der R key = ok_or InvalidEncoding (rsa_pkcs8_encode R key)"

definition rsa_from_spki_der :: "'w rsa_lib \<Rightarrow> bytes \<Rightarrow> rsa_error + bytes" where
  "rsa_from_spki_der R der =
     res_bind (ok_or InvalidEncoding (rsa_spki_decode R der)) (\<lambda>inner.
     res_bind (ensure_min_public_bits R inner) (\<lambda>_. Inr inner))"

definition rsa_to_spki_der :: "'w rsa_lib \<Rightarrow> bytes \<Rightarrow> rsa_error + bytes" where
  "rsa_to_spki_der R pk = ok_or InvalidEncoding (rsa_spki_encode R pk)"

definition rsa_encrypt_oaep ::
  "'w rsa_lib \<Rightarrow> 'w hardware_trng \<Rightarrow> bytes \<Rightarrow> bytes \<Rightarrow> bytes \<Rightarrow> 'w \<Rightarrow> (rsa_error + bytes) \<times> 'w" where
  "rsa_encrypt_oaep R tr pk plaintext label w =
     (case res_bind (ensure_min_public_bits R pk) (\<lambda>_. oaep_sha256 label) of
        Inl e \<Rightarrow> (Inl e, w)
      | Inr padding \<Rightarrow>
          (case rsa_oaep_encrypt R tr pk padding plaintext w of (ct, w1) \<Rightarrow> (map_err map_rsa_err ct, w1)))"

definition rsa_verify_pss :: "'w rsa_lib \<Rightarrow> digest_alg \<Rightarrow> bytes \<Rightarrow> bytes \<Rightarrow> bytes \<Rightarrow> rsa_error + unit" where
  "rsa_verify_pss R alg pk message signature =
     res_bind (ensure_min_public_bits R pk) (\<lambda>_.
     res_bind (ok_or VerificationFailed (rsa_pss_signature R signature)) (\<lambda>sig.
     if rsa_pss_verify R alg pk message sig then Inr () else Inl VerificationFailed))"

definition rsa_verify_pkcs1_sha256 :: "'w rsa_lib \<Rightarrow> bytes \<Rightarrow> bytes \<Rightarrow> bytes \<Rightarrow> rsa_error + unit" where
  "rsa_verify_pkcs1_sha256 R pk message signature =
     res_bind (ensure_min_public_bits R pk) (\<lambda>_.
     res_bind (ok_or VerificationFailed (rsa_pkcs1_signature R signature)) (\<lambda>sig.
     if rsa_pkcs1_verify R pk message sig then Inr () else Inl VerificationFailed))"

section \<open>Wrapped keys in storage\<close>

datatype rsa_vault_error =
    RsaFault rsa_error | WrapFault chacha_error | RsaSlotOccupied | RsaSlotEmpty | RsaSlotInvalid | RsaStorageError

definition RSA_VAULT_MAGIC :: bytes where "RSA_VAULT_MAGIC = [0x47, 0x33, 0x52, 0x31]"
abbreviation RSA_SLOT_BYTES :: nat where "RSA_SLOT_BYTES \<equiv> 8192"
abbreviation RSA_HEADER_LEN :: nat where "RSA_HEADER_LEN \<equiv> 20"
definition RSA_WRAP_AAD :: bytes where "RSA_WRAP_AAD = ascii ''galdralag/rsa/vault-wrap/v1''"

definition rsa_slot_offset :: "u32 \<Rightarrow> nat" where
  "rsa_slot_offset slot = unat slot * RSA_SLOT_BYTES"

definition u32_be :: "u32 \<Rightarrow> bytes" where
  "u32_be w = [ucast (drop_bit 24 w), ucast (drop_bit 16 w), ucast (drop_bit 8 w), ucast w]"

definition derive_wrap_key :: "cipher_lib \<Rightarrow> bytes \<Rightarrow> u32 \<Rightarrow> rsa_vault_error + arr32" where
  "derive_wrap_key K vault_master_prk slot =
     res_bind (ok_or RsaSlotInvalid (push_all 32 [] (u32_be slot))) (\<lambda>info.
     map_err WrapFault (ChaChaKey_derive K vault_master_prk RsaKeyWrap info))"

text \<open>\<open>try_from\<close> to \<open>u32\<close> cannot fail: a ciphertext has at most 8208 bytes.\<close>

definition vault_store_rsa_key ::
  "'w rsa_lib \<Rightarrow> cipher_lib \<Rightarrow> 'w vault_storage \<Rightarrow> bytes \<Rightarrow> 'w hardware_trng \<Rightarrow> u32 \<Rightarrow> bytes \<Rightarrow> bool \<Rightarrow> 'w \<Rightarrow>
   (rsa_vault_error + unit) \<times> 'w" where
  "vault_store_rsa_key R K vs vault_master_prk tr slot key overwrite w =
     (let off = rsa_slot_offset slot in
      case vs_read vs w off 4 of
        Inl _ \<Rightarrow> (Inl RsaStorageError, w)
      | Inr probe \<Rightarrow>
      if probe = RSA_VAULT_MAGIC \<and> \<not> overwrite then (Inl RsaSlotOccupied, w)
      else
      case res_bind (map_err RsaFault (rsa_to_pkcs8_der R key)) (\<lambda>der.
             res_bind (derive_wrap_key K vault_master_prk slot) (\<lambda>wrap_key. Inr (der, wrap_key))) of
        Inl e \<Rightarrow> (Inl e, w)
      | Inr (der, wrap_key) \<Rightarrow>
      (case ChaChaNonce_generate tr w of
         (Inl e, w1) \<Rightarrow> (Inl (WrapFault e), w1)
       | (Inr nonce, w1) \<Rightarrow>
           (case map_err WrapFault (chacha_encrypt K wrap_key nonce RSA_WRAP_AAD der) of
              Inl e \<Rightarrow> (Inl e, w1)
            | Inr ct_bytes \<Rightarrow>
                let ct_len = (of_nat (length ct_bytes) :: u32) in
                if RSA_HEADER_LEN + length ct_bytes > RSA_SLOT_BYTES then (Inl RsaSlotInvalid, w1)
                else
                  let buf = RSA_VAULT_MAGIC @ u32_le ct_len @ nonce @ ct_bytes;
                      slot_buf = splice (replicate RSA_SLOT_BYTES 0) 0 buf in
                  case vs_write vs w1 off slot_buf of (r, w2) \<Rightarrow> (map_err (\<lambda>_. RsaStorageError) r, w2))))"

definition vault_load_rsa_key ::
  "'w rsa_lib \<Rightarrow> cipher_lib \<Rightarrow> 'w vault_storage \<Rightarrow> bytes \<Rightarrow> u32 \<Rightarrow> 'w \<Rightarrow> rsa_vault_error + bytes" where
  "vault_load_rsa_key R K vs vault_master_prk slot w =
     res_bind (map_err (\<lambda>_. RsaStorageError) (vs_read vs w (rsa_slot_offset slot) RSA_SLOT_BYTES)) (\<lambda>slot_buf.
     if length slot_buf < RSA_HEADER_LEN \<or> slice 0 4 slot_buf \<noteq> RSA_VAULT_MAGIC then Inl RsaSlotEmpty
     else
       let ct_len = unat (rd_u32_le slot_buf 4) in
       if ct_len < 16 \<or> RSA_HEADER_LEN + ct_len > RSA_SLOT_BYTES then Inl RsaSlotInvalid
       else
         let nonce = slice 8 12 slot_buf; ct_slice = slice 20 ct_len slot_buf in
         res_bind (ok_or RsaSlotInvalid (push_all MAX_CHACHA_CIPHERTEXT [] ct_slice)) (\<lambda>ct.
         res_bind (derive_wrap_key K vault_master_prk slot) (\<lambda>wrap_key.
         res_bind (map_err WrapFault (chacha_decrypt K wrap_key nonce RSA_WRAP_AAD ct)) (\<lambda>plain.
         map_err RsaFault (rsa_from_pkcs8_der R plain)))))"

definition vault_delete_rsa_key :: "'w vault_storage \<Rightarrow> u32 \<Rightarrow> 'w \<Rightarrow> (rsa_vault_error + unit) \<times> 'w" where
  "vault_delete_rsa_key vs slot w =
     (case vs_write vs w (rsa_slot_offset slot) (replicate RSA_SLOT_BYTES 0) of
        (r, w1) \<Rightarrow> (map_err (\<lambda>_. RsaStorageError) r, w1))"

section \<open>Provisioned PIN policy\<close>

definition VAULT_PIN_POLICY_MAGIC :: bytes where "VAULT_PIN_POLICY_MAGIC = [0x47, 0x50, 0x50, 0x4C]"
definition VAULT_PIN_POLICY_VERSION :: u8 where "VAULT_PIN_POLICY_VERSION = 1"
abbreviation VAULT_PIN_POLICY_RECORD_BYTES :: nat where "VAULT_PIN_POLICY_RECORD_BYTES \<equiv> 64"

record vault_pin_policy_record =
  vp_pin_verifier_sha256 :: bytes
  vp_max_pin_attempts :: u32

datatype vault_pin_policy_error = BadMagic | BadVersion | VpMaxAttemptsOutOfRange | VpStorageError

definition pin_policy_encode :: "vault_pin_policy_record \<Rightarrow> vault_pin_policy_error + bytes" where
  "pin_policy_encode r =
     res_bind (map_err (\<lambda>_. VpMaxAttemptsOutOfRange) (try_with_max_attempts (vp_max_pin_attempts r))) (\<lambda>_.
     let out = replicate VAULT_PIN_POLICY_RECORD_BYTES 0;
         out = splice out 0 VAULT_PIN_POLICY_MAGIC;
         out = out[4 := VAULT_PIN_POLICY_VERSION];
         out = splice out 5 (vp_pin_verifier_sha256 r);
         out = splice out 37 (u32_le (vp_max_pin_attempts r)) in
     Inr out)"

definition pin_policy_decode :: "bytes \<Rightarrow> vault_pin_policy_error + vault_pin_policy_record" where
  "pin_policy_decode buf =
     (if slice 0 4 buf \<noteq> VAULT_PIN_POLICY_MAGIC then Inl BadMagic
      else if buf ! 4 \<noteq> VAULT_PIN_POLICY_VERSION then Inl BadVersion
      else
        let max_pin_attempts = rd_u32_le buf 37 in
        res_bind (map_err (\<lambda>_. VpMaxAttemptsOutOfRange) (try_with_max_attempts max_pin_attempts)) (\<lambda>_.
        Inr \<lparr>vp_pin_verifier_sha256 = slice 5 32 buf, vp_max_pin_attempts = max_pin_attempts\<rparr>))"

definition to_pin_policy_config :: "vault_pin_policy_record \<Rightarrow> pin_policy_config" where
  "to_pin_policy_config r = \<lparr>max_attempts = vp_max_pin_attempts r\<rparr>"

definition vault_read_pin_policy :: "'w vault_storage \<Rightarrow> nat \<Rightarrow> 'w \<Rightarrow> vault_pin_policy_error + vault_pin_policy_record" where
  "vault_read_pin_policy vs offset w =
     res_bind (map_err (\<lambda>_. VpStorageError) (vs_read vs w offset VAULT_PIN_POLICY_RECORD_BYTES)) pin_policy_decode"

definition vault_write_pin_policy ::
  "'w vault_storage \<Rightarrow> nat \<Rightarrow> vault_pin_policy_record \<Rightarrow> 'w \<Rightarrow> (vault_pin_policy_error + unit) \<times> 'w" where
  "vault_write_pin_policy vs offset r w =
     (case pin_policy_encode r of
        Inl e \<Rightarrow> (Inl e, w)
      | Inr enc \<Rightarrow> (case vs_write vs w offset enc of (x, w1) \<Rightarrow> (map_err (\<lambda>_. VpStorageError) x, w1)))"

definition provisioned_attempts_range :: "u32 \<times> u32" where
  "provisioned_attempts_range = (MIN_PROVISIONED_PIN_ATTEMPTS, MAX_PROVISIONED_PIN_ATTEMPTS)"

section \<open>Service stub\<close>

datatype vault_request = SealRequest u32 | UnsealRequest u32 | ZeroiseAll u32

fun vault_dispatch :: "vault_request \<Rightarrow> galdr_error + unit" where
  "vault_dispatch (SealRequest slot) = Inl PrivilegedOperationDenied"
| "vault_dispatch (UnsealRequest slot) = Inl PrivilegedOperationDenied"
| "vault_dispatch (ZeroiseAll reason_code) = Inl PrivilegedOperationDenied"

datatype vault_session_state = SessIdle | EphemeralPending | SessionActive

section \<open>Lemmas on slots\<close>

definition rsa_slot_bytes :: "bytes \<Rightarrow> bytes \<Rightarrow> bytes" where
  "rsa_slot_bytes nonce ct =
     splice (replicate RSA_SLOT_BYTES 0) 0 (RSA_VAULT_MAGIC @ u32_le (of_nat (length ct)) @ nonce @ ct)"

lemma length_RSA_VAULT_MAGIC [simp]: "length RSA_VAULT_MAGIC = 4"
  by (simp add: RSA_VAULT_MAGIC_def)

lemma rsa_slot_bytes_props:
  assumes "length nonce = 12" and "20 + length ct \<le> 8192"
  shows "length (rsa_slot_bytes nonce ct) = 8192" and "slice 0 4 (rsa_slot_bytes nonce ct) = RSA_VAULT_MAGIC"
    and "unat (rd_u32_le (rsa_slot_bytes nonce ct) 4) = length ct"
    and "slice 8 12 (rsa_slot_bytes nonce ct) = nonce"
    and "slice 20 (length ct) (rsa_slot_bytes nonce ct) = ct"
proof -
  have e: "rsa_slot_bytes nonce ct =
      (RSA_VAULT_MAGIC @ u32_le (of_nat (length ct)) @ nonce @ ct) @ replicate (8172 - length ct) 0"
    using assms by (simp add: rsa_slot_bytes_def splice_def)
  show "length (rsa_slot_bytes nonce ct) = 8192" "slice 0 4 (rsa_slot_bytes nonce ct) = RSA_VAULT_MAGIC"
    "slice 8 12 (rsa_slot_bytes nonce ct) = nonce" "slice 20 (length ct) (rsa_slot_bytes nonce ct) = ct"
    using assms by (simp_all add: e slice_def)
  have "rd_u32_le (rsa_slot_bytes nonce ct) 4 = of_nat (length ct)"
    by (simp add: e rd_u32_le_def nth_append u32_le_def)
  with assms show "unat (rd_u32_le (rsa_slot_bytes nonce ct) 4) = length ct" by (simp add: unat_of_nat)
qed

lemma rsa_slot_offset_disjoint:
  "a \<noteq> b \<Longrightarrow> rsa_slot_offset a + RSA_SLOT_BYTES \<le> rsa_slot_offset b \<or> rsa_slot_offset b + RSA_SLOT_BYTES \<le> rsa_slot_offset a"
  by (cases "unat a < unat b") (auto simp: rsa_slot_offset_def word_unat_eq_iff)

text \<open>The random source does not touch the storage.\<close>

definition trng_apart :: "'w hardware_trng \<Rightarrow> ('w \<Rightarrow> bytes) \<Rightarrow> ('w \<Rightarrow> bool) \<Rightarrow> bool" where
  "trng_apart tr mem ok \<longleftrightarrow>
     (\<forall>n w. mem (snd (tr_try_fill tr n w)) = mem w \<and> ok (snd (tr_try_fill tr n w)) = ok w)"

context vault_contract
begin

lemma store_rsa_key:
  assumes "vault_store_rsa_key R K vs prk tr sl key ov w = (Inr (), w')"
    and "trng_contract tr" and "trng_apart tr vs_mem vs_ok" and "vs_ok w"
  obtains der wk nonce ct where "rsa_pkcs8_encode R key = Some der" "derive_wrap_key K prk sl = Inr wk"
    "length nonce = 12" "chacha_encrypt K wk nonce RSA_WRAP_AAD der = Inr ct" "20 + length ct \<le> 8192"
    "rsa_slot_offset sl + 8192 \<le> length (vs_mem w)"
    "vs_mem w' = splice (vs_mem w) (rsa_slot_offset sl) (rsa_slot_bytes nonce ct)" "vs_ok w'"
proof -
  from assms(1) obtain der wk nonce w1 ct where s: "rsa_pkcs8_encode R key = Some der" "derive_wrap_key K prk sl = Inr wk"
    "ChaChaNonce_generate tr w = (Inr nonce, w1)" "chacha_encrypt K wk nonce RSA_WRAP_AAD der = Inr ct"
    "20 + length ct \<le> 8192" "fst (vs_write vs w1 (rsa_slot_offset sl) (rsa_slot_bytes nonce ct)) = Inr ()"
    "w' = snd (vs_write vs w1 (rsa_slot_offset sl) (rsa_slot_bytes nonce ct))"
    by (auto simp: vault_store_rsa_key_def Let_def rsa_to_pkcs8_der_def res_bind_eq_Inr ok_or_def rsa_slot_bytes_def
        split: sum.splits if_splits prod.splits option.splits)
  have t: "tr_try_fill tr 12 w = (Inr nonce, w1)"
    using s(3) by (auto simp: ChaChaNonce_generate_def split: prod.splits sum.splits)
  have n: "length nonce = 12" by (rule trng_contract.try_fill_length [OF assms(2), of 12 w]) (simp add: t)
  have w1: "vs_mem w1 = vs_mem w" "vs_ok w1"
    using assms(3,4) t unfolding trng_apart_def by (metis snd_conv)+
  from write_mem [OF s(6)] w1 rsa_slot_bytes_props(1) [OF n s(5)]
  have "rsa_slot_offset sl + 8192 \<le> length (vs_mem w)"
    "vs_mem w' = splice (vs_mem w) (rsa_slot_offset sl) (rsa_slot_bytes nonce ct)" by (simp_all add: s(7))
  moreover have "vs_ok w'" using write_ok [OF w1(2)] by (simp add: s(7))
  ultimately show ?thesis using s n that by blast
qed

lemma load_rsa_frame:
  assumes "vs_ok w" "vs_ok w'" and "length (vs_mem w') = length (vs_mem w)"
    and "rsa_slot_offset sl + 8192 \<le> length (vs_mem w)"
    and "slice (rsa_slot_offset sl) 8192 (vs_mem w') = slice (rsa_slot_offset sl) 8192 (vs_mem w)"
  shows "vault_load_rsa_key R K vs prk sl w' = vault_load_rsa_key R K vs prk sl w"
  using assms by (simp add: vault_load_rsa_key_def read_in)

lemma load_session_key_empty:
  assumes "vs_ok w" and "session_lt_slot_offset sl + 512 \<le> length (vs_mem w)"
    and "slice (session_lt_slot_offset sl) 4 (vs_mem w) \<noteq> SESSION_LT_MAGIC"
  shows "vault_load_session_long_term_signing_key L vs sl i w = Inl LtSlotEmpty"
proof -
  have "slice 0 4 (slice (session_lt_slot_offset sl) 512 (vs_mem w)) = slice (session_lt_slot_offset sl) 4 (vs_mem w)"
    by (simp add: slice_slice)
  then show ?thesis using assms by (simp add: vault_load_session_long_term_signing_key_def read_in)
qed

end

section \<open>Policy records\<close>

lemma pin_policy_roundtrip:
  assumes "length (vp_pin_verifier_sha256 r) = 32" and "pin_policy_encode r = Inr b"
  shows "length b = 64" and "pin_policy_decode b = Inr r"
proof -
  define n where "n = vp_max_pin_attempts r"
  define v where "v = vp_pin_verifier_sha256 r"
  have r: "r = \<lparr>vp_pin_verifier_sha256 = v, vp_max_pin_attempts = n\<rparr>" by (simp add: n_def v_def)
  have v: "length v = 32" using assms(1) by (simp add: v_def)
  have m: "length VAULT_PIN_POLICY_MAGIC = 4" by (simp add: VAULT_PIN_POLICY_MAGIC_def)
  from assms(2) have attempts: "\<exists>c. try_with_max_attempts n = Inr c"
    and b: "b = splice (splice ((splice (replicate 64 0) 0 VAULT_PIN_POLICY_MAGIC)[4 := 1]) 5 v) 37 (u32_le n)"
    by (auto simp: pin_policy_encode_def res_bind_eq_Inr VAULT_PIN_POLICY_VERSION_def n_def v_def)
  show l: "length b = 64" using v m by (simp add: b)
  have "slice 0 4 b = VAULT_PIN_POLICY_MAGIC"
    using v m by (simp add: b slice_splice_disjoint) (simp add: slice_def splice_def)
  moreover have "b ! 4 = 1" using v m by (simp add: b nth_splice)
  moreover have "slice 5 32 b = v" using v m by (simp add: b slice_splice_disjoint slice_splice_same)
  moreover have "rd_u32_le b 37 = n" using v m by (simp add: b rd_u32_le_def nth_splice u32_le_def)
  ultimately show "pin_policy_decode b = Inr r"
    using attempts by (auto simp: pin_policy_decode_def VAULT_PIN_POLICY_VERSION_def r)
qed

lemma fake_trng_apart:
  "trng_apart (trng_via snd (\<lambda>s w. (fst w, s)) FakeTrng) (\<lambda>w. fv_mem (fst w)) (\<lambda>w. \<not> fv_fail_next_write (fst w))"
  by (simp add: trng_apart_def)

text \<open>A concrete library: keys are their own encodings, and the AEAD appends a constant tag.\<close>

definition rig_rsa :: "'w rsa_lib" where
  "rig_rsa = \<lparr>rsa_new = (\<lambda>tr n w. (Some [1], w)), rsa_public_of = (\<lambda>k. k), rsa_modulus_bits = (\<lambda>k. 2048),
     rsa_pkcs8_decode = Some, rsa_pkcs8_encode = Some, rsa_spki_decode = Some, rsa_spki_encode = Some,
     rsa_digest = (\<lambda>a m. m), rsa_oaep_decrypt = (\<lambda>k l c. Inr c), rsa_oaep_encrypt = (\<lambda>tr k l p w. (Inr p, w)),
     rsa_pss_sign = (\<lambda>tr a k d w. (Some d, w)), rsa_pkcs1_sign = (\<lambda>k d. Some d), rsa_pss_signature = Some,
     rsa_pss_verify = (\<lambda>a k m s. s = m), rsa_pkcs1_signature = Some, rsa_pkcs1_verify = (\<lambda>k m s. s = m)\<rparr>"

definition rig_cipher :: cipher_lib where
  "rig_cipher = \<lparr>hkdf256_expand = (\<lambda>prk info n. Some (replicate n 0)),
     twofish_new = (\<lambda>k. None), serpent_new = (\<lambda>k. None), camellia_new = (\<lambda>k. None), hmac_new = (\<lambda>k. None),
     chacha_seal = (\<lambda>k n a p. Some (p, replicate 16 0)),
     chacha_open = (\<lambda>k n a b t. if t = replicate 16 0 then Some b else None)\<rparr>"

definition rig_storage :: "(fake_vault_storage \<times> u64) vault_storage" where
  "rig_storage = vault_via fst (\<lambda>s w. (s, snd w)) FakeVaultStorage"

definition rig_random :: "(fake_vault_storage \<times> u64) hardware_trng" where
  "rig_random = trng_via snd (\<lambda>s w. (fst w, s)) FakeTrng"

definition rig_start :: "fake_vault_storage \<times> u64" where
  "rig_start = (fake_vault_new 1056768, 5)"

lemma rig_contracts:
  "vault_contract rig_storage (\<lambda>w. fv_mem (fst w)) (\<lambda>w. \<not> fv_fail_next_write (fst w))"
  "trng_contract rig_random"
  "trng_apart rig_random (\<lambda>w. fv_mem (fst w)) (\<lambda>w. \<not> fv_fail_next_write (fst w))"
  "detached_aead (chacha_seal rig_cipher) (chacha_open rig_cipher)"
proof -
  show "vault_contract rig_storage (\<lambda>w. fv_mem (fst w)) (\<lambda>w. \<not> fv_fail_next_write (fst w))"
    unfolding rig_storage_def by (rule vault_via_contract [OF fake_vault.vault_contract_axioms]) simp
  show "trng_contract rig_random"
    unfolding rig_random_def by (rule trng_via_contract [OF fake_trng.trng_contract_axioms])
  show "trng_apart rig_random (\<lambda>w. fv_mem (fst w)) (\<lambda>w. \<not> fv_fail_next_write (fst w))"
    unfolding rig_random_def by (rule fake_trng_apart)
  show "detached_aead (chacha_seal rig_cipher) (chacha_open rig_cipher)"
    by (auto simp: detached_aead_def rig_cipher_def)
qed

lemma rig_stores:
  assumes "sl \<le> 128"
  obtains w' where "vault_store_rsa_key rig_rsa rig_cipher rig_storage [9] rig_random sl [1, 2] True rig_start = (Inr (), w')"
proof -
  have sl: "unat sl \<le> 128" using assms by (simp add: word_le_nat_alt)
  obtain n st where f: "fake_trng_fill 12 5 = (n, st)" by (cases "fake_trng_fill 12 5")
  then have n: "length n = 12" using fake_trng_fill_length [of 12 5] by simp
  have g: "ChaChaNonce_generate rig_random rig_start = (Inr n, (fake_vault_new 1056768, st))"
    using f by (simp add: ChaChaNonce_generate_def rig_random_def trng_via_def FakeTrng_def rig_start_def)
  have k: "derive_wrap_key rig_cipher [9] sl = Inr (Arr32 (replicate 32 0))"
    by (simp add: derive_wrap_key_def u32_be_def ChaChaKey_derive_def rig_cipher_def push_all_eq ascii_def)
  have c: "chacha_encrypt rig_cipher k n a [1, 2] = Inr ([1, 2] @ replicate 16 0)" for k n a
    by (simp add: chacha_encrypt_def rig_cipher_def push_all_eq)
  let ?o = "rsa_slot_offset sl" and ?b = "rsa_slot_bytes n ([1, 2] @ replicate 16 0)"
    and ?w = "(fake_vault_new 1056768, st)"
  have o: "?o + 8192 \<le> 1056768" using sl by (simp add: rsa_slot_offset_def)
  then obtain x where r: "vs_read rig_storage rig_start ?o 4 = Inr x"
    by (simp add: rig_storage_def fake_vault_defs rig_start_def fake_vault_new_def)
  have wr: "fst (vs_write rig_storage ?w ?o ?b) = Inr ()"
    using o rsa_slot_bytes_props(1) [OF n, of "[1, 2] @ replicate 16 0"]
    by (simp add: rig_storage_def fake_vault_defs fake_vault_new_def)
  have "vault_store_rsa_key rig_rsa rig_cipher rig_storage [9] rig_random sl [1, 2] True rig_start =
      (case vs_write rig_storage ?w ?o ?b of (r, w2) \<Rightarrow> (map_err (\<lambda>_. RsaStorageError) r, w2))"
    by (simp add: vault_store_rsa_key_def Let_def r g k c rsa_to_pkcs8_der_def rig_rsa_def rsa_slot_bytes_def)
  with wr have "\<exists>w'. vault_store_rsa_key rig_rsa rig_cipher rig_storage [9] rig_random sl [1, 2] True rig_start = (Inr (), w')"
    by (cases "vs_write rig_storage ?w ?o ?b") auto
  then show ?thesis using that by blast
qed

section \<open>Properties\<close>

text \<open>
  A stored RSA key comes back: for every storage, random source and AEAD that keep their
  contracts, a successful store makes a load of the same slot under the same master key return the
  key, leaves what every other slot loads as it was, refuses a store that must not overwrite, and a
  deletion empties the slot.
\<close>

theorem rsa_key_store_load:
  assumes "vault_contract vs mem ok" and "trng_contract tr" and "trng_apart tr mem ok"
    and "detached_aead (chacha_seal K) (chacha_open K)"
    and "\<forall>der. rsa_pkcs8_encode R key = Some der \<longrightarrow> rsa_pkcs8_decode R der = Some key"
    and "2048 \<le> rsa_modulus_bits R (rsa_public_of R key)"
    and "ok w" and "vault_store_rsa_key R K vs prk tr sl key ov w = (Inr (), w')"
  shows "vault_load_rsa_key R K vs prk sl w' = Inr key
    \<and> (\<forall>k. k \<noteq> sl \<longrightarrow> rsa_slot_offset k + RSA_SLOT_BYTES \<le> length (mem w) \<longrightarrow>
         vault_load_rsa_key R K vs prk k w' = vault_load_rsa_key R K vs prk k w)
    \<and> vault_store_rsa_key R K vs prk tr sl key2 False w' = (Inl RsaSlotOccupied, w')
    \<and> vault_load_rsa_key R K vs prk sl (snd (vault_delete_rsa_key vs sl w')) = Inl RsaSlotEmpty"
proof -
  note V = assms(1)
  obtain der wk nonce ct where s: "rsa_pkcs8_encode R key = Some der" "derive_wrap_key K prk sl = Inr wk"
    "length nonce = 12" "chacha_encrypt K wk nonce RSA_WRAP_AAD der = Inr ct" "20 + length ct \<le> 8192"
    "rsa_slot_offset sl + 8192 \<le> length (mem w)"
    "mem w' = splice (mem w) (rsa_slot_offset sl) (rsa_slot_bytes nonce ct)" "ok w'"
    by (rule vault_contract.store_rsa_key [OF V assms(8,2,3,7)])
  note p = rsa_slot_bytes_props [OF s(3,5)]
  have len: "length (mem w') = length (mem w)" using s(6,7) p(1) by simp
  have read: "vs_read vs w' (rsa_slot_offset sl) 8192 = Inr (rsa_slot_bytes nonce ct)"
    "vs_read vs w' (rsa_slot_offset sl) 4 = Inr RSA_VAULT_MAGIC"
    using s(6,7,8) p len slice_splice_inner [of "rsa_slot_offset sl" "rsa_slot_bytes nonce ct" "mem w" "rsa_slot_offset sl" 4]
    by (simp_all add: vault_contract.read_in [OF V] slice_splice_same)
  have box: "chacha_decrypt K wk nonce RSA_WRAP_AAD ct = Inr der" "16 \<le> length ct" "length ct \<le> 8208"
    using sealed_box.opens_exactly [OF chacha_sealed_box [OF assms(4)], of wk nonce RSA_WRAP_AAD ct der]
      sealed_box.grows [OF chacha_sealed_box [OF assms(4)] s(4)] s(4,5) by simp_all
  have "vault_load_rsa_key R K vs prk sl w' = Inr key"
    using read p box s assms(5,6)
    by (simp add: vault_load_rsa_key_def Let_def rsa_from_pkcs8_der_def ensure_min_public_bits_def)
  moreover have "vault_load_rsa_key R K vs prk k w' = vault_load_rsa_key R K vs prk k w"
    if "k \<noteq> sl" "rsa_slot_offset k + RSA_SLOT_BYTES \<le> length (mem w)" for k
    using that s len p(1) assms(7) rsa_slot_offset_disjoint [OF that(1)]
    by (intro vault_contract.load_rsa_frame [OF V]) (auto simp: slice_splice_disjoint)
  moreover have "vault_store_rsa_key R K vs prk tr sl key2 False w' = (Inl RsaSlotOccupied, w')"
    by (simp add: vault_store_rsa_key_def Let_def read)
  moreover have "vault_load_rsa_key R K vs prk sl (snd (vault_delete_rsa_key vs sl w')) = Inl RsaSlotEmpty"
  proof -
    have "vs_read vs (snd (vs_write vs w' (rsa_slot_offset sl) (replicate 8192 0))) (rsa_slot_offset sl) 8192
        = Inr (replicate 8192 0)"
      using s len by (intro vault_contract.write_then_read [OF V]) simp_all
    moreover have "snd (vault_delete_rsa_key vs sl w') = snd (vs_write vs w' (rsa_slot_offset sl) (replicate 8192 0))"
      by (simp add: vault_delete_rsa_key_def split: prod.split)
    moreover have "replicate 4 0 \<noteq> RSA_VAULT_MAGIC" by code_simp
    ultimately show ?thesis by (simp add: vault_load_rsa_key_def slice_def)
  qed
  ultimately show ?thesis by blast
qed

theorem rsa_key_store_load_witness:
  "\<exists>w'. vault_store_rsa_key rig_rsa rig_cipher rig_storage [9] rig_random 3 [1, 2] True rig_start = (Inr (), w')
    \<and> vault_load_rsa_key rig_rsa rig_cipher rig_storage [9] 3 w' = Inr [1, 2]"
proof -
  obtain w' where w: "vault_store_rsa_key rig_rsa rig_cipher rig_storage [9] rig_random 3 [1, 2] True rig_start = (Inr (), w')"
    by (rule rig_stores [of 3]) simp_all
  have "vault_load_rsa_key rig_rsa rig_cipher rig_storage [9] 3 w' = Inr [1, 2]"
    using rsa_key_store_load [OF rig_contracts _ _ _ w] by (simp add: rig_rsa_def rig_start_def fake_vault_new_def)
  with w show ?thesis by blast
qed

text \<open>
  The RSA slots run into the session keys: slot 128 begins exactly where the region of the
  long-term session keys begins, and no index is checked, so a successful store there leaves session
  slot 0 empty.
\<close>

theorem rsa_slot_128_erases_session_key:
  assumes "vault_contract vs mem ok" and "trng_contract tr" and "trng_apart tr mem ok" and "ok w"
    and "vault_store_rsa_key R K vs prk tr 128 key ov w = (Inr (), w')"
  shows "vault_load_session_long_term_signing_key L vs 0 curve_id w' = Inl LtSlotEmpty"
proof -
  note V = assms(1)
  have off: "rsa_slot_offset 128 = session_lt_slot_offset 0"
    by (simp add: rsa_slot_offset_def session_lt_slot_offset_def)
  obtain nonce ct where s: "length nonce = 12" "20 + length ct \<le> 8192"
    "rsa_slot_offset 128 + 8192 \<le> length (mem w)"
    "mem w' = splice (mem w) (rsa_slot_offset 128) (rsa_slot_bytes nonce ct)" "ok w'"
    by (rule vault_contract.store_rsa_key [OF V assms(5,2,3,4)])
  note p = rsa_slot_bytes_props [OF s(1,2)]
  have "slice (rsa_slot_offset 128) 4 (mem w') = RSA_VAULT_MAGIC"
    using s p slice_splice_inner [of "rsa_slot_offset 128" "rsa_slot_bytes nonce ct" "mem w" "rsa_slot_offset 128" 4]
    by simp
  then show ?thesis
    using s p(1) by (intro vault_contract.load_session_key_empty [OF V])
      (simp_all add: off, simp add: RSA_VAULT_MAGIC_def SESSION_LT_MAGIC_def)
qed

theorem rsa_slot_128_erases_session_key_witness:
  "\<exists>w'. vault_store_rsa_key rig_rsa rig_cipher rig_storage [9] rig_random 128 [1, 2] True rig_start = (Inr (), w')
    \<and> (\<forall>L. vault_load_session_long_term_signing_key L rig_storage 0 1 w' = Inl LtSlotEmpty)"
proof -
  obtain w' where w: "vault_store_rsa_key rig_rsa rig_cipher rig_storage [9] rig_random 128 [1, 2] True rig_start = (Inr (), w')"
    by (rule rig_stores [of 128]) simp_all
  have "vault_load_session_long_term_signing_key L rig_storage 0 1 w' = Inl LtSlotEmpty" for L
    using rsa_slot_128_erases_session_key [OF rig_contracts(1,2,3) _ w] by (simp add: rig_start_def fake_vault_new_def)
  with w show ?thesis by blast
qed

end
