(* ===== verification/Biometric.thy ===== *)
theory Biometric
  imports Cess
begin

text \<open>
  The biometric pre-gate: signed match results and their validation (\<open>crates/biometric-api/src/lib.rs\<close>),
  template encryption and session tokens (\<open>crates/biometric-vault/src/lib.rs\<close>), and the two device
  drivers (\<open>crates/biometric-fingervein\<close>, \<open>crates/biometric-sweet\<close>).

  CBOR, Ed25519, HKDF, AES-GCM, SHA-256 and HMAC are parameters. \<open>f32\<close> is its 32-bit pattern with the
  comparison of IEEE 754.
\<close>

section \<open>Single-precision comparison\<close>

type_synonym f32 = "32 word"

definition f32_is_nan :: "f32 \<Rightarrow> bool" where
  "f32_is_nan x \<longleftrightarrow> x AND 0x7F800000 = 0x7F800000 \<and> x AND 0x007FFFFF \<noteq> 0"

definition f32_order :: "f32 \<Rightarrow> int" where
  "f32_order x = (let m = uint (x AND 0x7FFFFFFF) in if bit x 31 then - m else m)"

definition f32_lt :: "f32 \<Rightarrow> f32 \<Rightarrow> bool" where
  "f32_lt x y \<longleftrightarrow> \<not> f32_is_nan x \<and> \<not> f32_is_nan y \<and> f32_order x < f32_order y"

section \<open>Wire types\<close>

definition MATCH_PAYLOAD_VERSION :: u8 where "MATCH_PAYLOAD_VERSION = 1"

datatype biometric_backend = BackendFingerVein | BackendSweetPlatform

datatype modality = FingerVein | PalmVein | Palmprint

fun modality_u8 :: "modality \<Rightarrow> u8" where
  "modality_u8 FingerVein = 1"
| "modality_u8 PalmVein = 2"
| "modality_u8 Palmprint = 3"

record match_payload =
  mp_version :: u8
  mp_device_id :: bytes
  mp_backend :: biometric_backend
  mp_nonce :: bytes
  mp_timestamp :: u64
  mp_matched :: bool
  mp_score :: f32
  mp_threshold :: f32
  mp_liveness :: bool
  mp_modalities :: "modality list"

record signed_match_result =
  sm_payload :: match_payload
  sm_signature :: bytes

datatype biometric_error =
    DeviceNotConnected | LivenessCheckFailed | MatchFailed | SignatureInvalid | NonceMismatch
  | TimestampExpired | EnrollmentNotFound | StorageFull | CborError | HardwareError u32

text \<open>
  Third-party code. \<open>bl_cbor_wire\<close> and \<open>bl_cbor_wire_from\<close> are the CBOR codec on the transport view,
  a payload with a signature of any length.
\<close>

record bio_lib =
  bl_cbor_payload :: "match_payload \<Rightarrow> bytes option"
  bl_cbor_wire :: "match_payload \<times> bytes \<Rightarrow> bytes option"
  bl_cbor_wire_from :: "bytes \<Rightarrow> (match_payload \<times> bytes) option"
  bl_ed_sign :: "bytes \<Rightarrow> bytes \<Rightarrow> bytes"
  bl_ed_public :: "bytes \<Rightarrow> bytes"
  bl_ed_verify :: "bytes \<Rightarrow> bytes \<Rightarrow> bytes \<Rightarrow> bool"
  bl_hkdf :: "bytes \<Rightarrow> bytes \<Rightarrow> bytes \<Rightarrow> nat \<Rightarrow> bytes option"
  bl_gcm_encrypt :: aead_fun
  bl_gcm_decrypt :: aead_fun
  bl_sha256 :: "bytes \<Rightarrow> bytes"
  bl_hmac :: "bytes \<Rightarrow> bytes \<Rightarrow> bytes"

section \<open>Signed match results\<close>

definition match_payload_cbor_bytes :: "bio_lib \<Rightarrow> match_payload \<Rightarrow> biometric_error + bytes" where
  "match_payload_cbor_bytes L payload = ok_or CborError (bl_cbor_payload L payload)"

definition verify_match_payload_signature ::
  "bio_lib \<Rightarrow> match_payload \<Rightarrow> bytes \<Rightarrow> bytes \<Rightarrow> biometric_error + unit" where
  "verify_match_payload_signature L payload signature verifying_key =
     res_bind (match_payload_cbor_bytes L payload) (\<lambda>msg.
     if bl_ed_verify L verifying_key msg signature then Inr () else Inl SignatureInvalid)"

definition sign_match_result :: "bio_lib \<Rightarrow> match_payload \<Rightarrow> bytes \<Rightarrow> biometric_error + signed_match_result" where
  "sign_match_result L payload signing_key =
     res_bind (match_payload_cbor_bytes L payload) (\<lambda>msg.
     Inr \<lparr>sm_payload = payload, sm_signature = bl_ed_sign L signing_key msg\<rparr>)"

definition signed_match_to_cbor :: "bio_lib \<Rightarrow> signed_match_result \<Rightarrow> biometric_error + bytes" where
  "signed_match_to_cbor L result = ok_or CborError (bl_cbor_wire L (sm_payload result, sm_signature result))"

definition signed_match_from_bytes :: "bio_lib \<Rightarrow> bytes \<Rightarrow> biometric_error + signed_match_result" where
  "signed_match_from_bytes L data =
     res_bind (ok_or CborError (bl_cbor_wire_from L data)) (\<lambda>(payload, sig).
     if length sig \<noteq> 64 then Inl CborError else Inr \<lparr>sm_payload = payload, sm_signature = sig\<rparr>)"

definition sat_sub64 :: "u64 \<Rightarrow> u64 \<Rightarrow> u64" where
  "sat_sub64 a b = (if b \<le> a then a - b else 0)"

definition galdrad_validate_match_result ::
  "bio_lib \<Rightarrow> signed_match_result \<Rightarrow> bytes \<Rightarrow> bytes \<Rightarrow> u64 \<Rightarrow> u64 \<Rightarrow> biometric_error + unit" where
  "galdrad_validate_match_result L result verifying_key expected_nonce now_secs max_age_secs =
     (let p = sm_payload result in
      res_bind (verify_match_payload_signature L p (sm_signature result) verifying_key) (\<lambda>_.
      if mp_version p \<noteq> MATCH_PAYLOAD_VERSION then Inl CborError
      else if mp_nonce p \<noteq> expected_nonce then Inl NonceMismatch
      else if sat_sub64 now_secs (mp_timestamp p) > max_age_secs then Inl TimestampExpired
      else if \<not> mp_liveness p then Inl LivenessCheckFailed
      else if \<not> mp_matched p then Inl MatchFailed
      else if f32_lt (mp_score p) (mp_threshold p) then Inl MatchFailed
      else Inr ()))"

definition fuzz_try_verify_signed_match :: "bio_lib \<Rightarrow> bytes \<Rightarrow> bytes \<Rightarrow> biometric_error + unit" where
  "fuzz_try_verify_signed_match L data verifying_key =
     res_bind (signed_match_from_bytes L data) (\<lambda>sm.
     res_bind (verify_match_payload_signature L (sm_payload sm) (sm_signature sm) verifying_key) (\<lambda>_.
     galdrad_validate_match_result L sm verifying_key (mp_nonce (sm_payload sm)) (mp_timestamp (sm_payload sm)) 3600))"

section \<open>Drivers\<close>

text \<open>
  \<open>BiometricBackendDriver\<close>, as operations on the device's state. The path of the device is behind a
  mutex; \<open>dv_poisoned\<close> says that locking it fails.
\<close>

record biometric_device =
  dv_path :: "string option"
  dv_poisoned :: bool
  dv_signing_key :: bytes
  dv_device_id :: bytes

definition device_new :: "bytes \<Rightarrow> biometric_device" where
  "device_new seed = \<lparr>dv_path = None, dv_poisoned = False, dv_signing_key = seed, dv_device_id = replicate 16 0\<rparr>"

definition device_connect :: "string \<Rightarrow> biometric_device \<Rightarrow> (biometric_error + unit) \<times> biometric_device" where
  "device_connect path d =
     (if dv_poisoned d then (Inl (HardwareError 1), d) else (Inr (), d\<lparr>dv_path := Some path\<rparr>))"

definition device_disconnect :: "biometric_device \<Rightarrow> biometric_device" where
  "device_disconnect d = (if dv_poisoned d then d else d\<lparr>dv_path := None\<rparr>)"

definition device_connected :: "biometric_device \<Rightarrow> bool" where
  "device_connected d \<longleftrightarrow> \<not> dv_poisoned d \<and> dv_path d \<noteq> None"

definition device_probe :: "biometric_device \<Rightarrow> biometric_error + unit" where
  "device_probe d = (if device_connected d then Inr () else Inl DeviceNotConnected)"

definition device_pubkey :: "bio_lib \<Rightarrow> biometric_device \<Rightarrow> bytes" where
  "device_pubkey L d = bl_ed_public L (dv_signing_key d)"

definition fingervein_authenticate ::
  "biometric_device \<Rightarrow> bytes \<Rightarrow> bytes \<Rightarrow> biometric_error + signed_match_result" where
  "fingervein_authenticate d nonce encrypted_template =
     (if \<not> device_connected d then Inl DeviceNotConnected else Inl (HardwareError 2))"

definition fingervein_enroll :: "biometric_device \<Rightarrow> nat \<Rightarrow> biometric_error + bytes" where
  "fingervein_enroll d samples =
     (if \<not> device_connected d then Inl DeviceNotConnected else Inl (HardwareError 3))"

definition sweet_authenticate ::
  "biometric_device \<Rightarrow> bytes \<Rightarrow> bytes \<Rightarrow> biometric_error + signed_match_result" where
  "sweet_authenticate d nonce encrypted_template =
     (if \<not> device_connected d then Inl DeviceNotConnected else Inl (HardwareError 10))"

definition sweet_enroll :: "biometric_device \<Rightarrow> nat \<Rightarrow> biometric_error + bytes" where
  "sweet_enroll d samples =
     (if \<not> device_connected d then Inl DeviceNotConnected else Inl (HardwareError 11))"

text \<open>The simulated devices.\<close>

record mock_device =
  mk_force_match :: bool
  mk_force_liveness :: bool
  mk_force_score :: f32
  mk_signing_key :: bytes
  mk_device_id :: bytes
  mk_threshold :: f32

record mock_sweet = mock_device +
  mk_force_modalities :: "modality list"


definition mock_sweet_new :: "bytes \<Rightarrow> mock_sweet" where
  "mock_sweet_new sk = \<lparr>
     mk_force_match = True, mk_force_liveness = True, mk_force_score = 0x3F7D70A4,
     mk_signing_key = sk,
     mk_device_id = splice (replicate 16 0) 0 (ascii ''sweetplc''), mk_threshold = 0x3F4CCCCD,
     mk_force_modalities = [PalmVein, Palmprint, FingerVein]\<rparr>"

definition mock_payload ::
  "biometric_backend \<Rightarrow> modality list \<Rightarrow> 'a mock_device_scheme \<Rightarrow> bytes \<Rightarrow> match_payload" where
  "mock_payload backend modalities d nonce = \<lparr>
     mp_version = MATCH_PAYLOAD_VERSION, mp_device_id = mk_device_id d, mp_backend = backend,
     mp_nonce = nonce, mp_timestamp = 1700000000, mp_matched = mk_force_match d,
     mp_score = mk_force_score d, mp_threshold = mk_threshold d, mp_liveness = mk_force_liveness d,
     mp_modalities = modalities\<rparr>"


definition mock_sweet_authenticate ::
  "bio_lib \<Rightarrow> mock_sweet \<Rightarrow> bytes \<Rightarrow> bytes \<Rightarrow> biometric_error + signed_match_result" where
  "mock_sweet_authenticate L d nonce encrypted_template =
     sign_match_result L (mock_payload BackendSweetPlatform (mk_force_modalities d) d nonce) (mk_signing_key d)"

definition mock_fingervein_enroll :: "nat \<Rightarrow> biometric_error + bytes" where
  "mock_fingervein_enroll samples =
     Inr (concat (map (\<lambda>i. u64_le (of_nat i) @ ascii ''fingervein tpl'') [0..<samples]))"

definition mock_sweet_enroll :: "nat \<Rightarrow> biometric_error + bytes" where
  "mock_sweet_enroll samples =
     Inr (concat (map (\<lambda>i. u64_le (of_nat i) @ ascii ''sweet multimodal template block '') [0..<samples]))"

section \<open>Template encryption\<close>

definition RRAM_TOTAL_BYTES :: nat where "RRAM_TOTAL_BYTES = 4194304"
definition BIOMETRIC_REGION_OFFSET :: nat where "BIOMETRIC_REGION_OFFSET = 0x010000"
definition BIOMETRIC_REGION_SIZE :: nat where "BIOMETRIC_REGION_SIZE = RRAM_TOTAL_BYTES - BIOMETRIC_REGION_OFFSET"
definition MAX_TEMPLATE_SIZE_BYTES :: nat where "MAX_TEMPLATE_SIZE_BYTES = 16 * 1024"
definition MAX_ENROLLED_PERSONS :: nat where "MAX_ENROLLED_PERSONS = 260"
definition SAMPLES_PER_ENROLLMENT :: nat where "SAMPLES_PER_ENROLLMENT = 3"

datatype bio_vault_error = BvCrypto | TemplateTooLarge | DecryptFailed | TokenMismatch | TimeWindow

definition derive_slot_key :: "bio_lib \<Rightarrow> bytes \<Rightarrow> bytes \<Rightarrow> modality \<Rightarrow> bio_vault_error + arr32" where
  "derive_slot_key L master_key user_id modality =
     (let salt = splice ((replicate 17 0)[0 := modality_u8 modality]) 1 user_id in
      res_bind (ok_or BvCrypto (bl_hkdf L salt master_key (ascii ''galdrag-bio-slot-v1'') 32)) (\<lambda>key.
      Inr (Arr32 key)))"

definition nonce_for_plaintext :: "bio_lib \<Rightarrow> bytes \<Rightarrow> bytes \<Rightarrow> modality \<Rightarrow> bytes \<Rightarrow> bytes" where
  "nonce_for_plaintext L master_key user_id modality raw_template =
     take 12 (bl_sha256 L (master_key @ user_id @ [modality_u8 modality]
       @ u64_le (of_nat (length raw_template)) @ raw_template))"

definition encrypt_template ::
  "bio_lib \<Rightarrow> bytes \<Rightarrow> bytes \<Rightarrow> modality \<Rightarrow> bytes \<Rightarrow> bio_vault_error + bytes" where
  "encrypt_template L master_key user_id modality raw_template =
     (if length raw_template > MAX_TEMPLATE_SIZE_BYTES then Inl TemplateTooLarge
      else
        res_bind (derive_slot_key L master_key user_id modality) (\<lambda>key.
        let nonce = nonce_for_plaintext L master_key user_id modality raw_template in
        res_bind (ok_or BvCrypto (bl_gcm_encrypt L key nonce [] raw_template)) (\<lambda>ct.
        Inr (nonce @ ct))))"

definition decrypt_template ::
  "bio_lib \<Rightarrow> bytes \<Rightarrow> bytes \<Rightarrow> modality \<Rightarrow> bytes \<Rightarrow> bio_vault_error + bytes" where
  "decrypt_template L master_key user_id modality encrypted_blob =
     (if length encrypted_blob < 12 + 16 then Inl DecryptFailed
      else
        let nonce_b = take 12 encrypted_blob; ct = drop 12 encrypted_blob in
        res_bind (derive_slot_key L master_key user_id modality) (\<lambda>key.
        res_bind (ok_or DecryptFailed (bl_gcm_decrypt L key nonce_b [] ct)) (\<lambda>pt.
        let expected = nonce_for_plaintext L master_key user_id modality pt in
        if \<not> bool_of_choice (ct_eq expected nonce_b) then Inl DecryptFailed else Inr pt)))"

section \<open>Session tokens\<close>

definition session_message :: "bytes \<Rightarrow> bytes \<Rightarrow> u64 \<Rightarrow> bytes" where
  "session_message nonce device_id timestamp = nonce @ device_id @ rev (u64_le timestamp)"

definition generate_session_token :: "bio_lib \<Rightarrow> bytes \<Rightarrow> bytes \<Rightarrow> bytes \<Rightarrow> u64 \<Rightarrow> bytes" where
  "generate_session_token L hmac_key nonce device_id timestamp =
     bl_hmac L hmac_key (session_message nonce device_id timestamp)"

definition verify_session_token ::
  "bio_lib \<Rightarrow> bytes \<Rightarrow> bytes \<Rightarrow> bytes \<Rightarrow> u64 \<Rightarrow> bytes \<Rightarrow> u64 \<Rightarrow> u64 \<Rightarrow> bio_vault_error + unit" where
  "verify_session_token L hmac_key nonce device_id timestamp token max_age_secs now_secs =
     (if sat_sub64 now_secs timestamp > max_age_secs then Inl TimeWindow
      else
        let expected = generate_session_token L hmac_key nonce device_id timestamp in
        if \<not> bool_of_choice (ct_eq expected token) then Inl TokenMismatch else Inr ())"

section \<open>Lemmas\<close>

lemma sat_sub64_le: "sat_sub64 a b \<le> c \<longleftrightarrow> unat a \<le> unat b + unat c"
  by (auto simp: sat_sub64_def word_le_nat_alt unat_sub)

lemma sat_sub64_gt: "c < sat_sub64 a b \<longleftrightarrow> unat b + unat c < unat a"
  using sat_sub64_le [of a b c] by (simp add: not_le [symmetric])

lemma u64_le_inj: "u64_le x = u64_le y \<longleftrightarrow> x = y"
  using rd_u64_le_u64_le [of _ "[]"] by (metis append_Nil2)

lemma session_message_inj:
  assumes "length n = length n'" "length d = length d'"
  shows "session_message n d t = session_message n' d' t' \<longleftrightarrow> n = n' \<and> d = d' \<and> t = t'"
  using assms by (auto simp: session_message_def u64_le_inj)




lemma signed_transport:
  assumes "bl_cbor_wire L (sm_payload r, sm_signature r) = Some bs"
    "bl_cbor_wire_from L bs = Some (sm_payload r, sm_signature r)" "length (sm_signature r) = 64"
  shows "signed_match_to_cbor L r = Inr bs \<and> signed_match_from_bytes L bs = Inr r"
  using assms by (simp add: signed_match_to_cbor_def signed_match_from_bytes_def)


text \<open>An example of the third-party code.\<close>

definition demo_bio :: bio_lib where
  "demo_bio = \<lparr>
     bl_cbor_payload = (\<lambda>p. Some [mp_version p]),
     bl_cbor_wire = (\<lambda>w. Some []), bl_cbor_wire_from = (\<lambda>bs. None),
     bl_ed_sign = (\<lambda>sk msg. replicate 64 0), bl_ed_public = id,
     bl_ed_verify = (\<lambda>vk msg s. s = replicate 64 0),
     bl_hkdf = (\<lambda>salt ikm info n. Some (replicate n 1)),
     bl_gcm_encrypt = zero_tag_enc, bl_gcm_decrypt = zero_tag_dec,
     bl_sha256 = (\<lambda>m. replicate 32 (of_nat (length m))), bl_hmac = (\<lambda>k m. take 32 (k @ m))\<rparr>"


section \<open>Properties\<close>

text \<open>
  Templates come back exactly, and nothing else does: for the key of a user and a modality,
  decryption returns a template of at most 16 KiB exactly for the blob that encrypting that template
  gives, for every AEAD that decrypts what it encrypted; the deterministic nonce is checked as well.
\<close>

theorem template_exact:
  assumes "combined_aead (bl_gcm_encrypt L) (bl_gcm_decrypt L)" and "\<And>m. 12 \<le> length (bl_sha256 L m)"
  shows "decrypt_template L mk uid md blob = Inr pt \<and> length pt \<le> MAX_TEMPLATE_SIZE_BYTES \<longleftrightarrow>
    encrypt_template L mk uid md pt = Inr blob"
proof -
  have laws: "bl_gcm_decrypt L k n a c = Some p \<longleftrightarrow> bl_gcm_encrypt L k n a p = Some c"
    "bl_gcm_encrypt L k n a p = Some c \<Longrightarrow> length c = length p + 16" for k n a c p
    using assms(1) by (simp_all add: combined_aead_def)
  let ?n = "nonce_for_plaintext L mk uid md"
  have n: "length (?n p) = 12" for p
    using assms(2) by (simp add: nonce_for_plaintext_def)
  show ?thesis
  proof (cases "derive_slot_key L mk uid md")
    case (Inr k)
    have "decrypt_template L mk uid md blob = Inr pt \<longleftrightarrow>
        28 \<le> length blob \<and> bl_gcm_encrypt L k (take 12 blob) [] pt = Some (drop 12 blob) \<and> ?n pt = take 12 blob"
      by (auto simp: decrypt_template_def Let_def Inr res_bind_eq_Inr ok_or_eq_Inr laws(1) split: if_splits)
    also have "\<dots> \<longleftrightarrow> bl_gcm_encrypt L k (?n pt) [] pt = Some (drop 12 blob) \<and> blob = ?n pt @ drop 12 blob"
    proof -
      have "?n pt = take 12 blob \<longleftrightarrow> blob = ?n pt @ drop 12 blob"
        by (metis append_take_drop_id append_same_eq)
      moreover have "28 \<le> length blob" if "bl_gcm_encrypt L k (take 12 blob) [] pt = Some (drop 12 blob)"
        using laws(2) [OF that] by simp
      ultimately show ?thesis by metis
    qed
    also have "\<dots> \<longleftrightarrow> (\<exists>ct. bl_gcm_encrypt L k (?n pt) [] pt = Some ct \<and> blob = ?n pt @ ct)"
      using n [of pt] by force
    finally show ?thesis
      by (auto simp: encrypt_template_def Let_def Inr res_bind_eq_Inr ok_or_eq_Inr split: if_splits)
  qed (auto simp: encrypt_template_def decrypt_template_def Let_def split: if_splits)
qed

theorem template_exact_witness:
  "encrypt_template demo_bio [1] (replicate 16 2) PalmVein [7, 8] =
     Inr (nonce_for_plaintext demo_bio [1] (replicate 16 2) PalmVein [7, 8] @ [7, 8] @ replicate 16 0)
   \<and> decrypt_template demo_bio [1] (replicate 16 2) PalmVein
       (nonce_for_plaintext demo_bio [1] (replicate 16 2) PalmVein [7, 8] @ [7, 8] @ replicate 16 0) = Inr [7, 8]"
proof -
  have e: "encrypt_template demo_bio [1] (replicate 16 2) PalmVein [7, 8] =
     Inr (nonce_for_plaintext demo_bio [1] (replicate 16 2) PalmVein [7, 8] @ [7, 8] @ replicate 16 0)"
    by (simp add: encrypt_template_def derive_slot_key_def demo_bio_def zero_tag_enc_def MAX_TEMPLATE_SIZE_BYTES_def Let_def)
  have "combined_aead (bl_gcm_encrypt demo_bio) (bl_gcm_decrypt demo_bio)" "12 \<le> length (bl_sha256 demo_bio m)" for m
    by (simp_all add: demo_bio_def zero_tag_aead)
  from template_exact [OF this, of "[1]" "replicate 16 2" PalmVein _ "[7, 8]"] e show ?thesis by blast
qed



text \<open>
  The age checks subtract with saturation, so a result or a token dated in the future passes them; and
  no comparison with NaN holds, so a score that is not a number passes the threshold.
\<close>

theorem future_token_accepted:
  assumes "now \<le> ts"
  shows "verify_session_token L key nonce dev ts (generate_session_token L key nonce dev ts) max_age now = Inr ()"
  using assms by (simp add: verify_session_token_def Let_def sat_sub64_gt word_le_nat_alt)

theorem nan_score_passes_threshold:
  "f32_is_nan (mp_score p) \<Longrightarrow> \<not> f32_lt (mp_score p) (mp_threshold p)"
  by (simp add: f32_lt_def)

end
