(* ===== verification/Envelope.thy ===== *)
theory Envelope
  imports Cascade
begin

text \<open>
  The message envelope of the host (\<open>galdra-core-host/src/cipher_envelope.rs\<close>): the plaintext of an OpenPGP
  message is a header with time stamp, sender and key material around a serialised cascade ciphertext,
  optionally wrapped once more in CESS Mode A.

  The clock and the random key material are arguments of \<open>seal_plaintext_with_profile\<close>. Error texts made
  with \<open>format!\<close> are represented by what they format. Parsing of hexadecimal command-line keys is left
  out.
\<close>

section \<open>Model\<close>

definition ENVELOPE_MAGIC :: bytes where "ENVELOPE_MAGIC = ascii ''GALDRACP''"
definition ENVELOPE_VERSION :: u8 where "ENVELOPE_VERSION = 1"
definition PROFILE_NAME_HIGH_ASSURANCE :: bytes where "PROFILE_NAME_HIGH_ASSURANCE = ascii ''high-assurance''"

datatype host_text =
    Txt string | ProfileErrorText cipher_profile_error | VersionText u8
  | CessWireText cess_wire_error | CessCryptoText string cess_crypto_error | NoSuiteText bytes

datatype removed_text = MSG_CIPHERTEXT_HIGH_ASSURANCE | MSG_SESSION_CURVE_P512

datatype host_error =
    HeCipherProfile host_text | HeRemovedLegacyCrypto removed_text | HeProfileNotFound bytes

fun map_cipher_profile_err :: "cipher_profile_error \<Rightarrow> host_error" where
  "map_cipher_profile_err RemovedHighAssuranceProfile = HeRemovedLegacyCrypto MSG_CIPHERTEXT_HIGH_ASSURANCE"
| "map_cipher_profile_err RemovedBrainpoolP512Curve = HeRemovedLegacyCrypto MSG_SESSION_CURVE_P512"
| "map_cipher_profile_err other = HeCipherProfile (ProfileErrorText other)"


text \<open>\<open>to_be_bytes\<close> and \<open>from_be_bytes\<close> of a slice.\<close>

definition be32 :: "u32 \<Rightarrow> bytes" where "be32 w = rev (u32_le w)"
definition be64 :: "u64 \<Rightarrow> bytes" where "be64 w = rev (u64_le w)"
definition rd_be32 :: "bytes \<Rightarrow> nat \<Rightarrow> u32" where "rd_be32 bs i = rd_u32_le (rev (slice i 4 bs)) 0"
definition rd_be64 :: "bytes \<Rightarrow> nat \<Rightarrow> u64" where "rd_be64 bs i = rd_u64_le (rev (slice i 8 bs)) 0"

definition build_cipher_aad :: "bytes \<Rightarrow> bytes \<Rightarrow> u64 \<Rightarrow> bytes" where
  "build_cipher_aad profile_name sender_fingerprint_hex ts_unix =
     profile_name @ [0x7C] @ sender_fingerprint_hex @ [0x7C] @ be64 ts_unix"

definition serialize_cascade_ct :: "cascade_ciphertext \<Rightarrow> host_error + bytes" where
  "serialize_cascade_ct ct =
     (let name = cc_profile_name ct in
      if length name > 64 then Inl (HeCipherProfile (Txt ''profile name too long''))
      else
        let out = [of_nat (length name)] @ name; body = cc_ciphertext ct; len = length body in
        if len > 65536 then Inl (HeCipherProfile (Txt ''ciphertext too large''))
        else Inr (out @ be32 (of_nat len) @ body))"

definition deserialize_cascade_ct :: "bytes \<Rightarrow> host_error + cascade_ciphertext" where
  "deserialize_cascade_ct data =
     (if data = [] then Inl (HeCipherProfile (Txt ''truncated cascade blob''))
      else
        let nl = unat (data ! 0) in
        if length data < 1 + nl + 4 then Inl (HeCipherProfile (Txt ''truncated cascade blob''))
        else
          let name_bytes = slice 1 nl data in
          if \<not> utf8_valid name_bytes then Inl (HeCipherProfile (Txt ''invalid profile name utf8''))
          else
            let i = 1 + nl in
            if length data < i + 4 then Inl (HeCipherProfile (Txt ''truncated cascade length''))
            else
              let cl = unat (rd_be32 data i); i = i + 4 in
              if length data < i + cl then Inl (HeCipherProfile (Txt ''truncated cascade body''))
              else
                let ct_body = slice i cl data in
                res_bind (ok_or (HeCipherProfile (Txt ''profile name buffer'')) (push_str 64 [] name_bytes)) (\<lambda>profile_name.
                res_bind (ok_or (HeCipherProfile (Txt ''ciphertext buffer'')) (push_all MAX_CT [] ct_body)) (\<lambda>ciphertext.
                Inr \<lparr>cc_profile_name = profile_name, cc_ciphertext = ciphertext\<rparr>)))"

definition seal_plaintext_with_profile ::
  "cascade_lib \<Rightarrow> u64 \<Rightarrow> bytes \<Rightarrow> cipher_profile \<Rightarrow> bytes \<Rightarrow> bytes \<Rightarrow> host_error + bytes" where
  "seal_plaintext_with_profile X ts_unix prk profile user_plaintext sender_fingerprint_hex =
     (if length sender_fingerprint_hex > 255 then Inl (HeCipherProfile (Txt ''sender fingerprint too long''))
      else
        let aad = build_cipher_aad (cp_name profile) sender_fingerprint_hex ts_unix in
        res_bind (map_err (\<lambda>e. HeCipherProfile (ProfileErrorText e)) (cascade_encrypt X profile prk aad user_plaintext)) (\<lambda>cascade.
        res_bind (serialize_cascade_ct cascade) (\<lambda>cascade_bytes.
        let fp = sender_fingerprint_hex in
        Inr (ENVELOPE_MAGIC @ [ENVELOPE_VERSION] @ be64 ts_unix @ [of_nat (length fp)] @ fp @ prk
             @ be32 (of_nat (length cascade_bytes)) @ cascade_bytes))))"

definition open_cascade ::
  "cascade_lib \<Rightarrow> u64 \<Rightarrow> bytes \<Rightarrow> bytes \<Rightarrow> (bytes \<Rightarrow> cipher_profile option) \<Rightarrow> bytes \<Rightarrow> host_error + bytes \<times> bytes" where
  "open_cascade X ts_unix sender_fp prk get_profile cascade_raw =
     res_bind (deserialize_cascade_ct cascade_raw) (\<lambda>cascade.
     let pname = cc_profile_name cascade in
     if pname = PROFILE_NAME_HIGH_ASSURANCE then Inl (HeRemovedLegacyCrypto MSG_CIPHERTEXT_HIGH_ASSURANCE)
     else
       res_bind (ok_or (HeProfileNotFound pname) (get_profile pname)) (\<lambda>profile.
       let aad = build_cipher_aad (cp_name profile) sender_fp ts_unix in
       res_bind (map_err map_cipher_profile_err (cascade_decrypt X profile prk aad cascade)) (\<lambda>plain.
       Inr (plain, pname))))"

definition open_plaintext_after_openpgp ::
  "cascade_lib \<Rightarrow> (bytes \<Rightarrow> cipher_profile option) \<Rightarrow> bytes \<Rightarrow> host_error + bytes \<times> bytes" where
  "open_plaintext_after_openpgp X get_profile inner =
     (if length inner < 8 \<or> take 8 inner \<noteq> ENVELOPE_MAGIC
      then Inl (HeCipherProfile (Txt ''not a Galdra cipher-profile message (missing magic)''))
      else let i = 8 in
      if length inner < i + 1 then Inl (HeCipherProfile (Txt ''truncated header''))
      else let ver = inner ! i; i = i + 1 in
      if ver \<noteq> ENVELOPE_VERSION then Inl (HeCipherProfile (VersionText ver))
      else if length inner < i + 8 then Inl (HeCipherProfile (Txt ''truncated timestamp''))
      else let ts_unix = rd_be64 inner i; i = i + 8 in
      if length inner < i + 1 then Inl (HeCipherProfile (Txt ''truncated fp len''))
      else let fpl = unat (inner ! i); i = i + 1 in
      if length inner < i + fpl then Inl (HeCipherProfile (Txt ''truncated fingerprint''))
      else let sender_fp = slice i fpl inner in
      if \<not> utf8_valid sender_fp then Inl (HeCipherProfile (Txt ''sender fingerprint utf8''))
      else let i = i + fpl in
      if length inner < i + 32 then Inl (HeCipherProfile (Txt ''truncated prk''))
      else let prk = slice i 32 inner; i = i + 32 in
      if length inner < i + 4 then Inl (HeCipherProfile (Txt ''truncated cascade len''))
      else let cbl = unat (rd_be32 inner i); i = i + 4 in
      if length inner < i + cbl then Inl (HeCipherProfile (Txt ''truncated cascade blob''))
      else open_cascade X ts_unix sender_fp prk get_profile (slice i cbl inner))"





section \<open>Formats\<close>

lemma length_be [simp]: "length (be32 w) = 4" "length (be64 v) = 8"
  by (simp_all add: be32_def be64_def)

lemma rd_be [simp]: "rd_u32_le (rev (be32 w)) 0 = w" "rd_u64_le (rev (be64 v)) 0 = v"
  using rd_u64_le_u64_le [of v "[]"] by (simp_all add: be32_def be64_def)

lemma be_of_rd [simp]:
  "i + 4 \<le> length bs \<Longrightarrow> be32 (rd_be32 bs i) = slice i 4 bs"
  "i + 8 \<le> length bs \<Longrightarrow> be64 (rd_be64 bs i) = slice i 8 bs"
proof -
  assume "i + 4 \<le> length bs"
  then show "be32 (rd_be32 bs i) = slice i 4 bs"
    using le_of_rd(1) [of 0 "rev (slice i 4 bs)"] by (simp add: be32_def rd_be32_def slice_def)
next
  assume "i + 8 \<le> length bs"
  then show "be64 (rd_be64 bs i) = slice i 8 bs"
    using u64_le_of_rd [of 0 "rev (slice i 8 bs)"] by (simp add: be64_def rd_be64_def slice_def)
qed

lemma slice_after: "length xs = i \<Longrightarrow> slice i n (xs @ ys) = take n ys"
  by (simp add: slice_def)

text \<open>A serialised cascade ciphertext, and the whole envelope.\<close>

definition cascade_wire :: "cascade_ciphertext \<Rightarrow> bytes" where
  "cascade_wire ct = [of_nat (length (cc_profile_name ct))] @ cc_profile_name ct
     @ be32 (of_nat (length (cc_ciphertext ct))) @ cc_ciphertext ct"

definition cascade_fits :: "cascade_ciphertext \<Rightarrow> bool" where
  "cascade_fits ct \<longleftrightarrow> length (cc_profile_name ct) \<le> 64 \<and> utf8_valid (cc_profile_name ct) \<and> length (cc_ciphertext ct) \<le> 65536"

definition envelope_wire :: "u64 \<Rightarrow> bytes \<Rightarrow> bytes \<Rightarrow> bytes \<Rightarrow> bytes" where
  "envelope_wire ts fp prk blob = ENVELOPE_MAGIC @ [ENVELOPE_VERSION] @ be64 ts @ [of_nat (length fp)] @ fp @ prk
     @ be32 (of_nat (length blob)) @ blob"

definition header_fits :: "bytes \<Rightarrow> bytes \<Rightarrow> bytes \<Rightarrow> bool" where
  "header_fits fp prk blob \<longleftrightarrow> length fp \<le> 255 \<and> utf8_valid fp \<and> length prk = 32 \<and> length blob < 2 ^ 32"

lemma serialize_cascade_ct_fits: "cascade_fits ct \<Longrightarrow> serialize_cascade_ct ct = Inr (cascade_wire ct)"
  by (simp add: serialize_cascade_ct_def cascade_wire_def cascade_fits_def Let_def)

lemma unat_u32_of_nat: "n < 2 ^ 32 \<Longrightarrow> unat (of_nat n :: u32) = n"
  by (simp add: unat_of_nat)


lemma split_slices:
  assumes "i + n \<le> length bs"
  shows "drop i bs = slice i n bs @ drop (i + n) bs"
  by (simp add: slice_def add.commute [of i] flip: drop_drop)

lemma deserialize_cascade_ct_wire:
  assumes "cascade_fits ct"
  shows "deserialize_cascade_ct (cascade_wire ct @ rest) = Inr ct"
proof -
  let ?n = "cc_profile_name ct" and ?b = "cc_ciphertext ct"
  have fits: "length ?n \<le> 64" "utf8_valid ?n" "length ?b \<le> 65536" using assms by (simp_all add: cascade_fits_def)
  let ?data = "cascade_wire ct @ rest"
  have nl: "unat (?data ! 0) = length ?n" using fits(1) by (simp add: cascade_wire_def unat_of_nat_u8)
  have name: "slice 1 (length ?n) ?data = ?n" by (simp add: cascade_wire_def slice_def)
  have cl: "slice (Suc (length ?n)) 4 ?data = be32 (of_nat (length ?b))" by (simp add: cascade_wire_def slice_def)
  then have cl': "unat (rd_be32 ?data (Suc (length ?n))) = length ?b"
    using fits(3) by (simp add: rd_be32_def unat_u32_of_nat)
  have body: "slice (5 + length ?n) (length ?b) ?data = ?b" by (simp add: cascade_wire_def slice_def drop_Cons')
  have "length ?data = 5 + length ?n + length ?b + length rest" "?data \<noteq> []" by (simp_all add: cascade_wire_def)
  with fits nl name cl' body show ?thesis
    by (simp add: deserialize_cascade_ct_def push_str_def ok_or_eq_Inr)
qed

lemma deserialize_cascade_ct_Inr:
  assumes "deserialize_cascade_ct raw = Inr ct"
  shows "cascade_fits ct \<and> (\<exists>rest. raw = cascade_wire ct @ rest)"
proof -
  define nl cl where "nl = unat (raw ! 0)" and "cl = unat (rd_be32 raw (1 + nl))"
  from assms have b: "raw \<noteq> []" "1 + nl + 4 \<le> length raw" "utf8_valid (slice 1 nl raw)" "1 + nl + 4 + cl \<le> length raw"
    "length (slice 1 nl raw) \<le> 64" "length (slice (1 + nl + 4) cl raw) \<le> 65536"
    and ct: "ct = \<lparr>cc_profile_name = slice 1 nl raw, cc_ciphertext = slice (1 + nl + 4) cl raw\<rparr>"
    by (auto simp: deserialize_cascade_ct_def Let_def nl_def cl_def push_str_def res_bind_eq_Inr push_all_eq_Some split: if_splits)
  have "raw = [raw ! 0] @ slice 1 nl raw @ slice (1 + nl) 4 raw @ slice (1 + nl + 4) cl raw @ drop (1 + nl + 4 + cl) raw"
    using b(1,2,4) split_slices [of 1 nl raw] split_slices [of "1 + nl" 4 raw] split_slices [of "1 + nl + 4" cl raw]
    by (cases raw) simp_all
  moreover have "[raw ! 0] @ slice 1 nl raw @ slice (1 + nl) 4 raw @ slice (1 + nl + 4) cl raw = cascade_wire ct"
    using b(2,4) by (simp add: cascade_wire_def ct nl_def cl_def)
  moreover have "cascade_fits ct" using b(3,5,6) by (simp add: cascade_fits_def ct)
  ultimately show ?thesis by (metis append.assoc)
qed

lemma open_envelope_wire:
  assumes "header_fits fp prk blob"
  shows "open_plaintext_after_openpgp X gp (envelope_wire ts fp prk blob @ rest) = open_cascade X ts fp prk gp blob"
proof -
  have fits: "length fp \<le> 255" "utf8_valid fp" "length prk = 32" "length blob < 2 ^ 32"
    using assms by (simp_all add: header_fits_def)
  let ?in = "envelope_wire ts fp prk blob @ rest" and ?f = "length fp"
  have m: "length ENVELOPE_MAGIC = 8" by (simp add: ENVELOPE_MAGIC_def ascii_def)
  have len: "length ?in = 54 + ?f + length blob + length rest" using fits(3) by (simp add: envelope_wire_def m)
  have "take 8 ?in = ENVELOPE_MAGIC" "?in ! 8 = ENVELOPE_VERSION" by (simp_all add: envelope_wire_def m nth_append)
  moreover have "slice 9 8 ?in = be64 ts" by (simp add: envelope_wire_def m slice_def)
  then have "rd_be64 ?in 9 = ts" by (simp add: rd_be64_def)
  moreover have "unat (?in ! 17) = ?f" using fits(1) by (simp add: envelope_wire_def m nth_append unat_of_nat_u8)
  moreover have "slice 18 ?f ?in = fp" "slice (18 + ?f) 32 ?in = prk"
    "slice (50 + ?f) 4 ?in = be32 (of_nat (length blob))" "slice (54 + ?f) (length blob) ?in = blob"
    using fits(3) by (simp_all add: envelope_wire_def m slice_def drop_Cons')
  moreover from this(3) have "unat (rd_be32 ?in (50 + ?f)) = length blob" using fits(4) by (simp add: rd_be32_def unat_u32_of_nat)
  ultimately show ?thesis
    using fits(2) len by (simp add: open_plaintext_after_openpgp_def Let_def add.commute [of ?f])
qed

lemma open_envelope_Inr:
  assumes "open_plaintext_after_openpgp X gp inner = Inr r"
  shows "\<exists>ts fp prk blob rest. header_fits fp prk blob \<and> inner = envelope_wire ts fp prk blob @ rest
    \<and> open_cascade X ts fp prk gp blob = Inr r"
proof -
  define f c where "f = unat (inner ! 17)" and "c = unat (rd_be32 inner (50 + f))"
  from assms have b: "8 \<le> length inner" "take 8 inner = ENVELOPE_MAGIC" "inner ! 8 = ENVELOPE_VERSION" "18 + f \<le> length inner"
    "utf8_valid (slice 18 f inner)" "54 + f + c \<le> length inner"
    "open_cascade X (rd_be64 inner 9) (slice 18 f inner) (slice (18 + f) 32 inner) gp (slice (54 + f) c inner) = Inr r"
    by (auto simp: open_plaintext_after_openpgp_def Let_def f_def c_def add.commute [of "unat (inner ! 17)"] split: if_splits)
  let ?w = "envelope_wire (rd_be64 inner 9) (slice 18 f inner) (slice (18 + f) 32 inner) (slice (54 + f) c inner)"
  have "drop 8 inner = slice 8 1 inner @ slice 9 8 inner @ slice 17 1 inner @ slice 18 f inner
      @ slice (18 + f) 32 inner @ slice (50 + f) 4 inner @ slice (54 + f) c inner @ drop (54 + f + c) inner"
    using b(1,4,6) split_slices [of 8 1 inner] split_slices [of 9 8 inner] split_slices [of 17 1 inner] split_slices [of 18 f inner]
      split_slices [of "18 + f" 32 inner] split_slices [of "50 + f" 4 inner] split_slices [of "54 + f" c inner]
    by simp
  then have "inner = take 8 inner @ slice 8 1 inner @ slice 9 8 inner @ slice 17 1 inner @ slice 18 f inner
      @ slice (18 + f) 32 inner @ slice (50 + f) 4 inner @ slice (54 + f) c inner @ drop (54 + f + c) inner"
    using append_take_drop_id [of 8 inner] by argo
  also have "\<dots> = ?w @ drop (54 + f + c) inner"
    using b(2,3,4,6) slice_list1 [of 8 inner] slice_list1 [of 17 inner]
    by (simp add: envelope_wire_def f_def c_def)
  finally have "inner = ?w @ drop (54 + f + c) inner" .
  moreover have "header_fits (slice 18 f inner) (slice (18 + f) 32 inner) (slice (54 + f) c inner)"
    using b(4,5,6) unsigned_less [of "inner ! 17", where ?'a = nat] unsigned_less [of "rd_be32 inner (50 + f)", where ?'a = nat]
    by (simp add: header_fits_def f_def c_def)
  ultimately show ?thesis using b(7) by blast
qed


section \<open>What opens\<close>

lemma forward_loop_bound:
  assumes "libraries_ok X"
  shows "length p \<le> 65536 \<Longrightarrow> forward_loop X name layers sid ikm aad is p = Inr y \<Longrightarrow> length y \<le> 65536"
proof (induction "is" arbitrary: p)
  case (Cons i "is")
  then obtain c d where "length c \<le> 65536" "forward_loop X name layers sid ikm aad is d = Inr y"
    "(case sid of
        Some s \<Rightarrow> if i + 1 < length layers then cess_append_inter_layer_mac X ikm s (of_nat i) c else Inr c
      | None \<Rightarrow> Inr c) = Inr d"
    using layer_grows [OF assms] unfolding forward_loop.simps Let_def res_bind_eq_Inr by blast
  moreover from this(1,3) have "length d \<le> 65536"
    by (auto simp: append_mac_ok gap_mac_def split: option.splits if_splits)
  ultimately show ?case using Cons.IH by blast
qed simp

lemma cascade_encrypt_fits:
  assumes "libraries_ok X" and "profile_constructed profile" and "cascade_encrypt X profile ikm aad p = Inr ct"
  shows "cascade_fits ct" and "cc_profile_name ct = cp_name profile"
proof -
  have name: "validate_profile_name (cp_name profile) = Inr ()"
    using constructed_wf [OF assms(2)] by (simp add: wf_profile_def)
  then have len: "length (cp_name profile) \<le> 64" by (simp add: validate_profile_name_ok)
  from assms(3) obtain y where y: "cascade_forward_encrypt X profile ikm aad p (length (cp_layers profile)) = Inr y"
    and ct: "ct = \<lparr>cc_profile_name = cp_name profile, cc_ciphertext = y\<rparr>"
    by (auto simp: cascade_encrypt_def res_bind_eq_Inr push_str_def split: if_splits)
  from y have "length p \<le> 65536" "forward_loop X (cp_name profile) (cp_layers profile) (suite_id_for_profile_name (cp_name profile))
      ikm aad [0..<length (cp_layers profile)] p = Inr y"
    by (auto simp: cascade_forward_encrypt_def Let_def res_bind_eq_Inr push_all_eq_Some MAX_CASCADE_PLAINTEXT_def split: if_splits)
  then have "length y \<le> 65536" by (rule forward_loop_bound [OF assms(1)])
  then show "cascade_fits ct" using len name_utf8_valid [OF name] by (simp add: cascade_fits_def ct)
  show "cc_profile_name ct = cp_name profile" by (simp add: ct)
qed

lemma open_cascade_exact:
  assumes "libraries_ok X" and "\<forall>n p. gp n = Some p \<longrightarrow> profile_constructed p"
  shows "open_cascade X ts fp prk gp blob = Inr (pt, nm) \<and> length pt \<le> 8192 \<longleftrightarrow>
    (\<exists>profile ct junk. gp nm = Some profile \<and> cp_name profile = nm \<and> nm \<noteq> PROFILE_NAME_HIGH_ASSURANCE
      \<and> cascade_encrypt X profile prk (build_cipher_aad nm fp ts) pt = Inr ct \<and> blob = cascade_wire ct @ junk)"
    (is "?open \<and> _ \<longleftrightarrow> ?sealed")
proof -
  have con: "profile_constructed p" if "gp n = Some p" for n p using assms(2) that by blast
  show ?thesis
  proof
    assume l: "?open \<and> length pt \<le> 8192"
    then obtain ct profile where ct: "deserialize_cascade_ct blob = Inr ct" "cc_profile_name ct = nm"
      "nm \<noteq> PROFILE_NAME_HIGH_ASSURANCE" "gp nm = Some profile"
      "cascade_decrypt X profile prk (build_cipher_aad (cp_name profile) fp ts) ct = Inr pt"
      by (auto simp: open_cascade_def Let_def res_bind_eq_Inr split: if_splits)
    then have "cp_name profile = nm" by (auto simp: cascade_decrypt_def split: if_splits)
    moreover obtain junk where "blob = cascade_wire ct @ junk" "length (cc_ciphertext ct) \<le> 65536"
      using deserialize_cascade_ct_Inr [OF ct(1)] by (auto simp: cascade_fits_def)
    moreover from this(2) l ct(5) have "cascade_encrypt X profile prk (build_cipher_aad (cp_name profile) fp ts) pt = Inr ct"
      using cascade_inverse [OF assms(1) con [OF ct(4)]] by blast
    ultimately show ?sealed using ct(3,4) by blast
  next
    assume ?sealed
    then obtain profile ct junk where s: "gp nm = Some profile" "cp_name profile = nm" "nm \<noteq> PROFILE_NAME_HIGH_ASSURANCE"
      "cascade_encrypt X profile prk (build_cipher_aad nm fp ts) pt = Inr ct" "blob = cascade_wire ct @ junk" by blast
    note fits = cascade_encrypt_fits [OF assms(1) con [OF s(1)] s(4)]
    then have "length (cc_ciphertext ct) \<le> 65536" by (simp add: cascade_fits_def)
    then have "cascade_decrypt X profile prk (build_cipher_aad nm fp ts) ct = Inr pt \<and> length pt \<le> 8192"
      using cascade_inverse [OF assms(1) con [OF s(1)]] s(4) by blast
    then show "?open \<and> length pt \<le> 8192"
      using s fits deserialize_cascade_ct_wire [OF fits(1)] by (simp add: open_cascade_def Let_def)
  qed
qed

lemma seal_plaintext_ok:
  assumes "libraries_ok X" and "profile_constructed profile"
    and "seal_plaintext_with_profile X ts prk profile pt fp = Inr inner"
  shows "length fp \<le> 255 \<and> (\<exists>ct. cascade_encrypt X profile prk (build_cipher_aad (cp_name profile) fp ts) pt = Inr ct
    \<and> cascade_fits ct \<and> cc_profile_name ct = cp_name profile \<and> inner = envelope_wire ts fp prk (cascade_wire ct))"
proof -
  from assms(3) obtain ct where ct: "length fp \<le> 255" "cascade_encrypt X profile prk (build_cipher_aad (cp_name profile) fp ts) pt = Inr ct"
    "\<exists>cb. serialize_cascade_ct ct = Inr cb \<and> inner = envelope_wire ts fp prk cb"
    by (auto simp: seal_plaintext_with_profile_def envelope_wire_def Let_def res_bind_eq_Inr split: if_splits)
  with cascade_encrypt_fits [OF assms(1,2) ct(2)] show ?thesis by (auto simp: serialize_cascade_ct_fits)
qed

lemma header_fits_wire:
  "cascade_fits ct \<Longrightarrow> length fp \<le> 255 \<Longrightarrow> utf8_valid fp \<Longrightarrow> length prk = 32 \<Longrightarrow> header_fits fp prk (cascade_wire ct)"
  by (simp add: header_fits_def cascade_fits_def cascade_wire_def)





section \<open>Properties\<close>



text \<open>
  (C29) Nothing else opens: a string opens to a plaintext of at most 8192 bytes under a profile exactly when
  it is a header, with the key material and the sender in it, around the encryption of that plaintext
  under that profile, bound to sender and time stamp; only bytes after the cascade ciphertext or
  after the whole envelope are ignored.
\<close>

theorem envelope_opens_exactly:
  assumes "libraries_ok X" and "\<forall>n p. gp n = Some p \<longrightarrow> profile_constructed p"
  shows "open_plaintext_after_openpgp X gp inner = Inr (pt, nm) \<and> length pt \<le> 8192 \<longleftrightarrow>
    (\<exists>profile ts fp prk ct junk rest. gp nm = Some profile \<and> cp_name profile = nm \<and> nm \<noteq> PROFILE_NAME_HIGH_ASSURANCE
      \<and> header_fits fp prk (cascade_wire ct @ junk)
      \<and> cascade_encrypt X profile prk (build_cipher_aad nm fp ts) pt = Inr ct
      \<and> inner = envelope_wire ts fp prk (cascade_wire ct @ junk) @ rest)"
    (is "?open \<longleftrightarrow> ?wire")
proof
  assume ?open
  then obtain ts fp prk blob rest where o: "header_fits fp prk blob" "inner = envelope_wire ts fp prk blob @ rest"
    "open_cascade X ts fp prk gp blob = Inr (pt, nm) \<and> length pt \<le> 8192"
    using open_envelope_Inr by blast
  from open_cascade_exact [OF assms, THEN iffD1, OF o(3)] obtain profile ct junk where
    "gp nm = Some profile" "cp_name profile = nm" "nm \<noteq> PROFILE_NAME_HIGH_ASSURANCE"
    "cascade_encrypt X profile prk (build_cipher_aad nm fp ts) pt = Inr ct" "blob = cascade_wire ct @ junk" by blast
  with o(1,2) show ?wire by blast
next
  assume ?wire
  then obtain profile ts fp prk ct junk rest where w: "header_fits fp prk (cascade_wire ct @ junk)"
    "inner = envelope_wire ts fp prk (cascade_wire ct @ junk) @ rest"
    "\<exists>profile ct' junk'. gp nm = Some profile \<and> cp_name profile = nm \<and> nm \<noteq> PROFILE_NAME_HIGH_ASSURANCE
      \<and> cascade_encrypt X profile prk (build_cipher_aad nm fp ts) pt = Inr ct' \<and> cascade_wire ct @ junk = cascade_wire ct' @ junk'"
    by blast
  from w(3) have "open_cascade X ts fp prk gp (cascade_wire ct @ junk) = Inr (pt, nm) \<and> length pt \<le> 8192"
    by (rule open_cascade_exact [OF assms, THEN iffD2])
  then show ?open unfolding w(2) open_envelope_wire [OF w(1)] .
qed

theorem envelope_opens_exactly_witness:
  "\<exists>p. builtin_standard = Inr p \<and>
     open_plaintext_after_openpgp demo_lib (\<lambda>_. Some p)
       (envelope_wire 0 [] (replicate 32 5)
         (cascade_wire \<lparr>cc_profile_name = ascii ''standard'', cc_ciphertext = [3, 4] @ replicate 16 0\<rparr> @ [1]) @ [2])
     = Inr ([3, 4], ascii ''standard'')"
proof -
  obtain p where p: "builtin_standard = Inr p" using builtin_standard_exists by blast
  have c: "profile_constructed p" and n: "cp_name p = ascii ''standard''"
    using builtins_constructed(1) [OF p] builtin_fields(1) [OF p] by simp_all
  let ?ct = "\<lparr>cc_profile_name = ascii ''standard'', cc_ciphertext = [3, 4] @ replicate 16 0\<rparr>"
  have "cascade_encrypt demo_lib p (replicate 32 5) (build_cipher_aad (ascii ''standard'') [] 0) [3, 4] = Inr ?ct"
    by (rule demo_encrypt [OF p]) simp
  moreover have "header_fits [] (replicate 32 5) (cascade_wire ?ct @ [1])"
    by (simp add: header_fits_def cascade_wire_def ascii_def)
  moreover have "ascii ''standard'' \<noteq> PROFILE_NAME_HIGH_ASSURANCE" by (simp add: PROFILE_NAME_HIGH_ASSURANCE_def ascii_def)
  moreover have con: "\<forall>n q. (\<lambda>_. Some p) n = Some q \<longrightarrow> profile_constructed q" using c by simp
  note exact = envelope_opens_exactly [where gp = "\<lambda>_. Some p" and X = demo_lib, OF demo_lib_ok con, THEN iffD2]
  ultimately have "open_plaintext_after_openpgp demo_lib (\<lambda>_. Some p)
       (envelope_wire 0 [] (replicate 32 5) (cascade_wire ?ct @ [1]) @ [2]) = Inr ([3, 4], ascii ''standard'') \<and> length [3, 4 :: u8] \<le> 8192"
    using n by - (rule exact, rule exI [of _ p], rule exI [of _ 0], rule exI [of _ "[]"], rule exI [of _ "replicate 32 5"],
        rule exI [of _ ?ct], rule exI [of _ "[1]"], rule exI [of _ "[2]"], simp)
  with p show ?thesis by blast
qed

text \<open>
  The name of the retired profile is still accepted for new profiles: what such a profile seals is
  refused by every recipient.
\<close>

theorem high_assurance_seals_but_never_opens:
  assumes "libraries_ok X" and "profile_constructed profile" and "cp_name profile = PROFILE_NAME_HIGH_ASSURANCE"
    and "utf8_valid fp" and "length prk = 32" and "seal_plaintext_with_profile X ts prk profile pt fp = Inr inner"
  shows "open_plaintext_after_openpgp X gp inner = Inl (HeRemovedLegacyCrypto MSG_CIPHERTEXT_HIGH_ASSURANCE)"
proof -
  obtain ct where ct: "length fp \<le> 255" "cascade_fits ct" "cc_profile_name ct = cp_name profile"
    "inner = envelope_wire ts fp prk (cascade_wire ct)"
    using seal_plaintext_ok [OF assms(1,2,6)] by blast
  then show ?thesis
    using open_envelope_wire [OF header_fits_wire [OF ct(2,1) assms(4,5)], of X gp ts "[]"]
      deserialize_cascade_ct_wire [OF ct(2), of "[]"] assms(3)
    by (simp add: open_cascade_def)
qed

lemma high_assurance_name_accepted: "validate_profile_name PROFILE_NAME_HIGH_ASSURANCE = Inr ()"
  by (simp add: validate_profile_name_def PROFILE_NAME_HIGH_ASSURANCE_def is_ascii_alphanumeric_def ascii_def)

end
