(* ===== verification/Audit_Log.thy ===== *)
theory Audit_Log
  imports Prelude
begin

text \<open>
  The audit log of the host (\<open>galdra-core-host/src/audit.rs\<close>): rows in a SQL table, each with the hash of
  the row before it.

  The database, \<open>serde_json\<close>, SHA-256, hexadecimal encoding and the RFC 3339 conversions of \<open>chrono\<close> are
  parameters, collected in \<open>audit_lib\<close>; the database operations are the three statements the module
  executes. Export to CSV and JSON is left out but for the quoting of fields.
\<close>

section \<open>Model\<close>

datatype audit_action =
    ActDeviceUnlock | ActDeviceLock | ActDeviceZeroise | ActKeyImport | ActKeyDelete | ActKeyFetch | ActGroupCreate
  | ActGroupAddMember | ActGroupRemoveMember | ActGroupDelete | ActEncrypt | ActDecrypt | ActSign | ActVerify
  | ActSyncExport | ActSyncImport | ActConfigChange | ActEpkGenerate | ActEpkImport | ActEpkDerive | ActEpkReject

fun action_as_str :: "audit_action \<Rightarrow> string" where
  "action_as_str ActDeviceUnlock = ''device_unlock''"
| "action_as_str ActDeviceLock = ''device_lock''"
| "action_as_str ActDeviceZeroise = ''device_zeroise''"
| "action_as_str ActKeyImport = ''key_import''"
| "action_as_str ActKeyDelete = ''key_delete''"
| "action_as_str ActKeyFetch = ''key_fetch''"
| "action_as_str ActGroupCreate = ''group_create''"
| "action_as_str ActGroupAddMember = ''group_add_member''"
| "action_as_str ActGroupRemoveMember = ''group_remove_member''"
| "action_as_str ActGroupDelete = ''group_delete''"
| "action_as_str ActEncrypt = ''encrypt''"
| "action_as_str ActDecrypt = ''decrypt''"
| "action_as_str ActSign = ''sign''"
| "action_as_str ActVerify = ''verify''"
| "action_as_str ActSyncExport = ''sync_export''"
| "action_as_str ActSyncImport = ''sync_import''"
| "action_as_str ActConfigChange = ''config_change''"
| "action_as_str ActEpkGenerate = ''epk_generate''"
| "action_as_str ActEpkImport = ''epk_import''"
| "action_as_str ActEpkDerive = ''epk_derive''"
| "action_as_str ActEpkReject = ''epk_reject''"

definition action_from_wire :: "string \<Rightarrow> audit_action option" where
  "action_from_wire s =
     (if s = ''device_unlock'' then Some ActDeviceUnlock
      else if s = ''device_lock'' then Some ActDeviceLock
      else if s = ''device_zeroise'' then Some ActDeviceZeroise
      else if s = ''key_import'' then Some ActKeyImport
      else if s = ''key_delete'' then Some ActKeyDelete
      else if s = ''key_fetch'' then Some ActKeyFetch
      else if s = ''group_create'' then Some ActGroupCreate
      else if s = ''group_add_member'' then Some ActGroupAddMember
      else if s = ''group_remove_member'' then Some ActGroupRemoveMember
      else if s = ''group_delete'' then Some ActGroupDelete
      else if s = ''encrypt'' then Some ActEncrypt
      else if s = ''decrypt'' then Some ActDecrypt
      else if s = ''sign'' then Some ActSign
      else if s = ''verify'' then Some ActVerify
      else if s = ''sync_export'' then Some ActSyncExport
      else if s = ''sync_import'' then Some ActSyncImport
      else if s = ''config_change'' then Some ActConfigChange
      else if s = ''epk_generate'' then Some ActEpkGenerate
      else if s = ''epk_import'' then Some ActEpkImport
      else if s = ''epk_derive'' then Some ActEpkDerive
      else if s = ''epk_reject'' then Some ActEpkReject
      else None)"

record 't audit_entry =
  ae_timestamp :: 't
  ae_operator :: "string option"
  ae_action :: audit_action
  ae_subject :: "string option"
  ae_detail :: "string option"
  ae_device_serial :: "string option"

record 't audit_log_record =
  au_id :: int
  au_prev_hash :: string
  au_timestamp :: 't
  au_operator :: "string option"
  au_action :: audit_action
  au_subject :: "string option"
  au_detail :: "string option"
  au_device_serial :: "string option"

record 't audit_filter =
  af_since :: "'t option"
  af_action :: "audit_action option"
  af_limit :: "u64 option"

datatype audit_verify_result = ChainIntact | ChainBroken int string string

record chain_payload =
  pl_timestamp :: string
  pl_operator :: "string option"
  pl_action :: string
  pl_subject :: "string option"
  pl_detail :: "string option"
  pl_device_serial :: "string option"

text \<open>A row of the table: its key, the data columns and the column \<open>prev_hash\<close>.\<close>

record audit_row =
  row_id :: int
  row_data :: chain_payload
  row_prev_hash :: string

datatype sql_error = SqlFailure nat | ToSqlConversionFailure

datatype audit_error = AuDatabase sql_error | AuSerialise

text \<open>
  \<open>al_last\<close> is the statement of \<open>last_audit_row\<close>, \<open>al_insert\<close> the one of \<open>audit_append\<close> and \<open>al_select\<close> the
  one of \<open>audit_query\<close> with its three optional bindings.
\<close>

record ('d, 't) audit_lib =
  al_last :: "'d \<Rightarrow> sql_error + chain_payload option"
  al_insert :: "chain_payload \<Rightarrow> string \<Rightarrow> 'd \<Rightarrow> (sql_error + unit) \<times> 'd"
  al_select :: "string option \<Rightarrow> string option \<Rightarrow> u64 option \<Rightarrow> 'd \<Rightarrow> sql_error + audit_row list"
  al_json :: "chain_payload \<Rightarrow> bytes option"
  al_sha256 :: "bytes \<Rightarrow> bytes"
  al_hex :: "bytes \<Rightarrow> string"
  al_to_rfc3339 :: "'t \<Rightarrow> string"
  al_parse_rfc3339 :: "string \<Rightarrow> 't option"

definition genesis_prev_hash :: string where
  "genesis_prev_hash = replicate 64 (CHR ''0'')"

definition hash_payload :: "('d, 't) audit_lib \<Rightarrow> chain_payload \<Rightarrow> audit_error + string" where
  "hash_payload L payload =
     res_bind (ok_or AuSerialise (al_json L payload)) (\<lambda>json.
     Inr (al_hex L (al_sha256 L json)))"

definition record_to_payload ::
  "string \<Rightarrow> string option \<Rightarrow> string \<Rightarrow> string option \<Rightarrow> string option \<Rightarrow> string option \<Rightarrow> audit_error + chain_payload" where
  "record_to_payload timestamp operator action subject detail device_serial =
     Inr \<lparr>pl_timestamp = timestamp, pl_operator = operator, pl_action = action, pl_subject = subject,
          pl_detail = detail, pl_device_serial = device_serial\<rparr>"

definition last_audit_row :: "('d, 't) audit_lib \<Rightarrow> 'd \<Rightarrow> audit_error + chain_payload option" where
  "last_audit_row L db = map_err AuDatabase (al_last L db)"

definition prev_hash_of_last :: "('d, 't) audit_lib \<Rightarrow> 'd \<Rightarrow> audit_error + string" where
  "prev_hash_of_last L db =
     res_bind (last_audit_row L db) (\<lambda>row.
     case row of
       None \<Rightarrow> Inr genesis_prev_hash
     | Some r \<Rightarrow>
         res_bind (record_to_payload (pl_timestamp r) (pl_operator r) (pl_action r) (pl_subject r) (pl_detail r)
           (pl_device_serial r)) (hash_payload L))"

definition entry_columns :: "('d, 't) audit_lib \<Rightarrow> 't audit_entry \<Rightarrow> chain_payload" where
  "entry_columns L entry =
     \<lparr>pl_timestamp = al_to_rfc3339 L (ae_timestamp entry), pl_operator = ae_operator entry,
      pl_action = action_as_str (ae_action entry), pl_subject = ae_subject entry, pl_detail = ae_detail entry,
      pl_device_serial = ae_device_serial entry\<rparr>"

definition audit_append :: "('d, 't) audit_lib \<Rightarrow> 't audit_entry \<Rightarrow> 'd \<Rightarrow> (audit_error + unit) \<times> 'd" where
  "audit_append L entry db =
     (case prev_hash_of_last L db of
        Inl e \<Rightarrow> (Inl e, db)
      | Inr prev_hash \<Rightarrow>
          (case al_insert L (entry_columns L entry) prev_hash db of (r, db') \<Rightarrow> (map_err AuDatabase r, db')))"

definition map_audit_row :: "('d, 't) audit_lib \<Rightarrow> audit_row \<Rightarrow> sql_error + 't audit_log_record" where
  "map_audit_row L row =
     (let c = row_data row;
          action = (case action_from_wire (pl_action c) of Some a \<Rightarrow> a | None \<Rightarrow> ActConfigChange) in
      res_bind (ok_or ToSqlConversionFailure (al_parse_rfc3339 L (pl_timestamp c))) (\<lambda>timestamp.
      Inr \<lparr>au_id = row_id row, au_prev_hash = row_prev_hash row, au_timestamp = timestamp,
           au_operator = pl_operator c, au_action = action, au_subject = pl_subject c, au_detail = pl_detail c,
           au_device_serial = pl_device_serial c\<rparr>))"

fun map_audit_rows :: "('d, 't) audit_lib \<Rightarrow> audit_row list \<Rightarrow> 't audit_log_record list \<Rightarrow> audit_error + 't audit_log_record list" where
  "map_audit_rows L [] out = Inr out"
| "map_audit_rows L (r # rs) out =
     res_bind (map_err AuDatabase (map_audit_row L r)) (\<lambda>x. map_audit_rows L rs (out @ [x]))"

definition audit_query :: "('d, 't) audit_lib \<Rightarrow> 'd \<Rightarrow> 't audit_filter \<Rightarrow> audit_error + 't audit_log_record list" where
  "audit_query L db f =
     res_bind (map_err AuDatabase
       (al_select L (map_option (al_to_rfc3339 L) (af_since f)) (map_option action_as_str (af_action f)) (af_limit f) db)) (\<lambda>rows.
     map_audit_rows L rows [])"

fun verify_rows :: "('d, 't) audit_lib \<Rightarrow> 't audit_log_record list \<Rightarrow> nat list \<Rightarrow> audit_error + audit_verify_result" where
  "verify_rows L rows [] = Inr ChainIntact"
| "verify_rows L rows (idx # idxs) =
     (let r = rows ! idx in
      if idx = 0 then
        if au_prev_hash r \<noteq> genesis_prev_hash
        then Inr (ChainBroken (au_id r) genesis_prev_hash (au_prev_hash r))
        else verify_rows L rows idxs
      else
        let prev = rows ! (idx - 1) in
        res_bind (record_to_payload (al_to_rfc3339 L (au_timestamp prev)) (au_operator prev)
          (action_as_str (au_action prev)) (au_subject prev) (au_detail prev) (au_device_serial prev)) (\<lambda>payload.
        res_bind (hash_payload L payload) (\<lambda>expected.
        if au_prev_hash r \<noteq> expected then Inr (ChainBroken (au_id r) expected (au_prev_hash r))
        else verify_rows L rows idxs)))"

definition audit_verify_chain :: "('d, 't) audit_lib \<Rightarrow> 'd \<Rightarrow> audit_error + audit_verify_result" where
  "audit_verify_chain L db =
     res_bind (audit_query L db \<lparr>af_since = None, af_action = None, af_limit = None\<rparr>) (\<lambda>rows.
     if rows = [] then Inr ChainIntact else verify_rows L rows [0..<length rows])"

definition csv_escape :: "string option \<Rightarrow> string" where
  "csv_escape s =
     (case s of
        None \<Rightarrow> ''''
      | Some t \<Rightarrow>
          if CHR '','' \<in> set t \<or> CHR 0x22 \<in> set t \<or> CHR 0x0A \<in> set t
          then [CHR 0x22] @ concat (map (\<lambda>c. if c = CHR 0x22 then [CHR 0x22, CHR 0x22] else [c]) t) @ [CHR 0x22]
          else t)"

section \<open>Lemmas\<close>

lemma action_wire_roundtrip [simp]: "action_from_wire (action_as_str a) = Some a"
  by (cases a) (simp_all add: action_from_wire_def)

text \<open>What the database and the libraries promise: \<open>rows\<close> gives the table of a database state.\<close>

definition audit_db_ok :: "('d, 't) audit_lib \<Rightarrow> ('d \<Rightarrow> audit_row list) \<Rightarrow> bool" where
  "audit_db_ok L rows \<longleftrightarrow>
     (\<forall>d. al_last L d = Inr (if rows d = [] then None else Some (row_data (last (rows d)))))
     \<and> (\<forall>d. al_select L None None None d = Inr (rows d))
     \<and> (\<forall>c h d r d'. al_insert L c h d = (r, d') \<longrightarrow>
          (case r of Inl _ \<Rightarrow> rows d' = rows d
           | Inr _ \<Rightarrow> \<exists>i. rows d' = rows d @ [\<lparr>row_id = i, row_data = c, row_prev_hash = h\<rparr>]))
     \<and> (\<forall>p. al_json L p \<noteq> None) \<and> (\<forall>t. al_parse_rfc3339 L (al_to_rfc3339 L t) = Some t)"

text \<open>What the verifier hashes of a row: the data columns after parsing.\<close>

definition seen_payload :: "('d, 't) audit_lib \<Rightarrow> chain_payload \<Rightarrow> chain_payload" where
  "seen_payload L c = c\<lparr>
     pl_timestamp := (case al_parse_rfc3339 L (pl_timestamp c) of Some t \<Rightarrow> al_to_rfc3339 L t | None \<Rightarrow> ''''),
     pl_action := action_as_str (case action_from_wire (pl_action c) of Some a \<Rightarrow> a | None \<Rightarrow> ActConfigChange)\<rparr>"

definition payload_hash :: "('d, 't) audit_lib \<Rightarrow> chain_payload \<Rightarrow> string" where
  "payload_hash L p = al_hex L (al_sha256 L (the (al_json L p)))"

definition readable :: "('d, 't) audit_lib \<Rightarrow> audit_row \<Rightarrow> bool" where
  "readable L r \<longleftrightarrow> al_parse_rfc3339 L (pl_timestamp (row_data r)) \<noteq> None"

definition links :: "('d, 't) audit_lib \<Rightarrow> audit_row list \<Rightarrow> bool" where
  "links L rs \<longleftrightarrow> (\<forall>i < length rs. row_prev_hash (rs ! i) =
     (if i = 0 then genesis_prev_hash else payload_hash L (seen_payload L (row_data (rs ! (i - 1))))))"

definition row_record :: "('d, 't) audit_lib \<Rightarrow> audit_row \<Rightarrow> 't audit_log_record" where
  "row_record L r = (let c = row_data r in
     \<lparr>au_id = row_id r, au_prev_hash = row_prev_hash r, au_timestamp = the (al_parse_rfc3339 L (pl_timestamp c)),
      au_operator = pl_operator c, au_action = (case action_from_wire (pl_action c) of Some a \<Rightarrow> a | None \<Rightarrow> ActConfigChange),
      au_subject = pl_subject c, au_detail = pl_detail c, au_device_serial = pl_device_serial c\<rparr>)"

lemma map_audit_rows_Inr:
  "map_audit_rows L rs out = Inr xs \<longleftrightarrow> list_all (readable L) rs \<and> xs = out @ map (row_record L) rs"
proof (induction rs arbitrary: out)
  case (Cons r rs)
  show ?case
  proof (cases "al_parse_rfc3339 L (pl_timestamp (row_data r))")
    case None
    then show ?thesis by (simp add: map_audit_row_def readable_def)
  next
    case (Some t)
    then have "map_audit_row L r = Inr (row_record L r)" by (simp add: map_audit_row_def row_record_def Let_def)
    with Some show ?thesis by (simp add: Cons readable_def)
  qed
qed auto

lemma hash_payload_ok: "al_json L p \<noteq> None \<Longrightarrow> hash_payload L p = Inr (payload_hash L p)"
  by (auto simp: hash_payload_def payload_hash_def)

lemma verify_rows_intact:
  assumes "\<And>p. al_json L p \<noteq> None" and "list_all (readable L) rs" and "set idxs \<subseteq> {..<length rs}"
  shows "verify_rows L (map (row_record L) rs) idxs = Inr ChainIntact \<longleftrightarrow>
    (\<forall>i\<in>set idxs. row_prev_hash (rs ! i) =
      (if i = 0 then genesis_prev_hash else payload_hash L (seen_payload L (row_data (rs ! (i - 1))))))"
  using assms(3)
proof (induction idxs)
  case (Cons i idxs)
  then have i: "i < length rs" by simp
  let ?p = "row_data (rs ! (i - 1))" and ?r = "row_record L (rs ! (i - 1))"
  have "readable L (rs ! (i - 1))" using assms(2) i by (simp add: list_all_length)
  then have "record_to_payload (al_to_rfc3339 L (au_timestamp ?r)) (au_operator ?r) (action_as_str (au_action ?r))
      (au_subject ?r) (au_detail ?r) (au_device_serial ?r) = Inr (seen_payload L ?p)"
    by (auto simp: record_to_payload_def row_record_def seen_payload_def readable_def Let_def)
  moreover have "au_prev_hash (row_record L (rs ! i)) = row_prev_hash (rs ! i)" by (simp add: row_record_def Let_def)
  ultimately show ?case
    using Cons i by (cases "i = 0") (auto simp: Let_def hash_payload_ok [OF assms(1)])
qed simp

lemma verify_chain_intact:
  assumes "audit_db_ok L rows"
  shows "audit_verify_chain L d = Inr ChainIntact \<longleftrightarrow> list_all (readable L) (rows d) \<and> links L (rows d)"
proof -
  have laws: "al_select L None None None d = Inr (rows d)" "\<And>p. al_json L p \<noteq> None"
    using assms by (simp_all add: audit_db_ok_def)
  show ?thesis
  proof (cases "list_all (readable L) (rows d)")
    case True
    then have "map_audit_rows L (rows d) [] = Inr (map (row_record L) (rows d))" by (simp add: map_audit_rows_Inr)
    moreover have "verify_rows L (map (row_record L) (rows d)) [0..<length (rows d)] = Inr ChainIntact \<longleftrightarrow> links L (rows d)"
      using verify_rows_intact [OF laws(2) True, of "[0..<length (rows d)]"] unfolding links_def
      by (simp add: atLeast0LessThan Ball_def)
    ultimately show ?thesis
      using True by (simp add: audit_verify_chain_def audit_query_def laws(1) links_def)
  next
    case False
    then have "\<nexists>xs. map_audit_rows L (rows d) [] = Inr xs" by (simp add: map_audit_rows_Inr)
    with False show ?thesis by (auto simp: audit_verify_chain_def audit_query_def laws(1) res_bind_eq_Inr)
  qed
qed

lemma record_to_payload_eta:
  "record_to_payload (pl_timestamp c) (pl_operator c) (pl_action c) (pl_subject c) (pl_detail c) (pl_device_serial c) = Inr c"
  by (simp add: record_to_payload_def)

text \<open>Rows as the only writer leaves them: what the verifier sees of a row is what was stored.\<close>

definition written :: "('d, 't) audit_lib \<Rightarrow> audit_row \<Rightarrow> bool" where
  "written L r \<longleftrightarrow> readable L r \<and> seen_payload L (row_data r) = row_data r"

lemma links_append:
  "links L (rs @ [r]) \<longleftrightarrow> links L rs \<and> row_prev_hash r =
     (if rs = [] then genesis_prev_hash else payload_hash L (seen_payload L (row_data (last rs))))"
proof -
  have "links L (rs @ [r]) \<longleftrightarrow> links L rs \<and> row_prev_hash ((rs @ [r]) ! length rs) =
     (if rs = [] then genesis_prev_hash else payload_hash L (seen_payload L (row_data ((rs @ [r]) ! (length rs - 1)))))"
    unfolding links_def length_append by (auto simp: nth_append less_Suc_eq)
  then show ?thesis by (cases rs rule: rev_cases) (simp_all add: nth_append)
qed

lemma append_keeps_links:
  assumes "audit_db_ok L rows" and "list_all (written L) (rows d)" and "links L (rows d)"
  shows "list_all (written L) (rows (snd (audit_append L e d))) \<and> links L (rows (snd (audit_append L e d)))"
proof -
  have laws: "al_last L d = Inr (if rows d = [] then None else Some (row_data (last (rows d))))"
    "\<And>c h r d'. al_insert L c h d = (r, d') \<Longrightarrow> (case r of Inl _ \<Rightarrow> rows d' = rows d
       | Inr _ \<Rightarrow> \<exists>i. rows d' = rows d @ [\<lparr>row_id = i, row_data = c, row_prev_hash = h\<rparr>])"
    "\<And>p. al_json L p \<noteq> None" "\<And>t. al_parse_rfc3339 L (al_to_rfc3339 L t) = Some t"
    using assms(1) by (simp_all add: audit_db_ok_def)
  define h where "h = (if rows d = [] then genesis_prev_hash else payload_hash L (row_data (last (rows d))))"
  have h: "prev_hash_of_last L d = Inr h"
    by (simp add: prev_hash_of_last_def last_audit_row_def laws(1) record_to_payload_eta hash_payload_ok [OF laws(3)] h_def)
  obtain r d' where ins: "al_insert L (entry_columns L e) h d = (r, d')" by fastforce
  then have d': "snd (audit_append L e d) = d'" by (simp add: audit_append_def h)
  have w: "written L \<lparr>row_id = i, row_data = entry_columns L e, row_prev_hash = h\<rparr>" for i
    by (simp add: written_def readable_def seen_payload_def entry_columns_def laws(4))
  have "rows d \<noteq> [] \<Longrightarrow> written L (last (rows d))" using assms(2) by (simp add: list_all_iff)
  then have "h = (if rows d = [] then genesis_prev_hash else payload_hash L (seen_payload L (row_data (last (rows d)))))"
    by (simp add: h_def written_def)
  with laws(2) [OF ins] w assms(2,3) show ?thesis
    unfolding d' by (cases r) (auto simp: links_append)
qed

text \<open>An example of a database: the table as a list, time stamps as text.\<close>

definition list_db :: "(audit_row list, string) audit_lib" where
  "list_db = \<lparr>
     al_last = (\<lambda>d. Inr (if d = [] then None else Some (row_data (last d)))),
     al_insert = (\<lambda>c h d. (Inr (), d @ [\<lparr>row_id = int (length d) + 1, row_data = c, row_prev_hash = h\<rparr>])),
     al_select = (\<lambda>since action limit d.
       let d = filter (\<lambda>r. action = None \<or> action = Some (pl_action (row_data r))) d in
       Inr (case limit of None \<Rightarrow> d | Some n \<Rightarrow> take (unat n) d)),
     al_json = (\<lambda>p. Some (map (\<lambda>c. of_nat (of_char c)) (pl_timestamp p @ pl_action p))),
     al_sha256 = id, al_hex = map (\<lambda>b. char_of (unat b)),
     al_to_rfc3339 = id, al_parse_rfc3339 = Some\<rparr>"

lemma list_db_ok: "audit_db_ok list_db (\<lambda>d. d)"
  by (simp add: audit_db_ok_def list_db_def)

lemma list_db_payload: "seen_payload list_db (entry_columns list_db e) = entry_columns list_db e"
  by (simp add: seen_payload_def entry_columns_def list_db_def)

lemma list_db_hash: "payload_hash list_db p = pl_timestamp p @ pl_action p"
proof -
  have "char_of (unat (of_nat (of_char c) :: u8)) = c" for c
    by (simp add: unat_of_nat_u8)
  then show ?thesis by (simp add: payload_hash_def list_db_def comp_def map_idI)
qed

definition demo_entry :: "string \<Rightarrow> string audit_entry" where
  "demo_entry t = \<lparr>ae_timestamp = t, ae_operator = None, ae_action = ActSign, ae_subject = None, ae_detail = None,
     ae_device_serial = None\<rparr>"

lemma demo_hash: "payload_hash list_db (entry_columns list_db (demo_entry t)) = t @ ''sign''"
  by (simp add: list_db_hash) (simp add: entry_columns_def demo_entry_def list_db_def)

definition demo_log :: "string \<Rightarrow> string \<Rightarrow> audit_row list" where
  "demo_log t u = [
     \<lparr>row_id = 1, row_data = entry_columns list_db (demo_entry t), row_prev_hash = genesis_prev_hash\<rparr>,
     \<lparr>row_id = 2, row_data = entry_columns list_db (demo_entry u), row_prev_hash = t @ ''sign''\<rparr>]"

lemma demo_log_intact: "audit_verify_chain list_db (demo_log t u) = Inr ChainIntact"
  unfolding verify_chain_intact [OF list_db_ok]
  by (auto simp: demo_log_def links_def less_Suc_eq list_db_payload demo_hash readable_def) (simp_all add: list_db_def)

section \<open>Properties\<close>

text \<open>
  The log verifies: after any sequence of appends on an empty table, also when some of them fail, the
  chain is reported intact.
\<close>

theorem appended_log_verifies:
  assumes "audit_db_ok L rows" and "rows d = []"
  shows "audit_verify_chain L (fold (\<lambda>e d. snd (audit_append L e d)) es d) = Inr ChainIntact"
proof -
  have "list_all (written L) (rows d) \<and> links L (rows d)" using assms(2) by (simp add: links_def)
  then have "list_all (written L) (rows (fold (\<lambda>e d. snd (audit_append L e d)) es d))
    \<and> links L (rows (fold (\<lambda>e d. snd (audit_append L e d)) es d))"
    by (induction es arbitrary: d) (use append_keeps_links [OF assms(1)] in auto)
  then show ?thesis unfolding verify_chain_intact [OF assms(1)] by (auto simp: written_def list_all_iff)
qed

theorem appended_log_verifies_witness:
  "audit_verify_chain list_db (fold (\<lambda>e d. snd (audit_append list_db e d)) [demo_entry ''t1'', demo_entry ''t2''] [])
     = Inr ChainIntact"
  by (rule appended_log_verifies [OF list_db_ok]) simp



text \<open>
  (C33) The rows do not form a chain: the hash of a row leaves out the row's own \<open>prev_hash\<close>. Whoever rewrites
  an entry needs to recompute one hash only, the one in the next row, and the log verifies again;
  cutting off the end needs none.
\<close>

theorem rewritten_entry_verifies:
  assumes "audit_db_ok L rows" and "audit_verify_chain L d = Inr ChainIntact"
    and "i < length (rows d)" and "al_parse_rfc3339 L (pl_timestamp c) \<noteq> None"
    and "rows d' = (let rs = (rows d)[i := (rows d ! i)\<lparr>row_data := c\<rparr>] in
           take n (rs[Suc i := (rs ! Suc i)\<lparr>row_prev_hash := payload_hash L (seen_payload L c)\<rparr>]))"
  shows "audit_verify_chain L d' = Inr ChainIntact"
proof -
  let ?rs = "(rows d)[i := (rows d ! i)\<lparr>row_data := c\<rparr>]"
  let ?qs = "?rs[Suc i := (?rs ! Suc i)\<lparr>row_prev_hash := payload_hash L (seen_payload L c)\<rparr>]"
  have l: "list_all (readable L) (rows d)" "links L (rows d)" using assms(2) by (simp_all add: verify_chain_intact [OF assms(1)])
  have data: "row_data (?qs ! j) = (if j = i then c else row_data (rows d ! j))"
    and prev: "row_prev_hash (?qs ! j) = (if j = Suc i then payload_hash L (seen_payload L c) else row_prev_hash (rows d ! j))"
    if "j < length (rows d)" for j
    using that by (cases "j = Suc i"; cases "j = i"; simp)+
  have "readable L (?qs ! j)" if "j < length (rows d)" for j
    using l(1) assms(4) that data [OF that] by (simp add: list_all_length readable_def)
  moreover have "row_prev_hash (?qs ! j) = (if j = 0 then genesis_prev_hash else payload_hash L (seen_payload L (row_data (?qs ! (j - 1)))))"
    if "j < length (rows d)" for j
    using l(2) that data [of "j - 1"] prev [OF that] by (cases j) (auto simp: links_def)
  ultimately show ?thesis
    unfolding verify_chain_intact [OF assms(1)] assms(5) Let_def by (auto simp: list_all_length links_def)
qed

theorem rewritten_entry_verifies_witness:
  "audit_verify_chain list_db (demo_log ''t9'' ''t2'') = Inr ChainIntact"
proof (rule rewritten_entry_verifies [OF list_db_ok demo_log_intact, where i = 0 and n = 2])
  show "demo_log ''t9'' ''t2'' = (let rs = (demo_log ''t1'' ''t2'')[0 := (demo_log ''t1'' ''t2'' ! 0)\<lparr>row_data := entry_columns list_db (demo_entry ''t9'')\<rparr>] in
      take 2 (rs[Suc 0 := (rs ! Suc 0)\<lparr>row_prev_hash := payload_hash list_db (seen_payload list_db (entry_columns list_db (demo_entry ''t9'')))\<rparr>]))"
    by (simp add: demo_log_def list_db_payload demo_hash)
qed (simp_all add: demo_log_def list_db_def)

end
