(* ===== verification/Ephemeral_Offers.thy ===== *)
theory Ephemeral_Offers
  imports Audit_Log Session_Crypto
begin

text \<open>
  Ephemeral key offers of the host (\<open>galdra-core-host/src/ephemeral_offers.rs\<close>): signed ephemeral public keys
  that are generated, imported from a peer, consumed and revoked, in a table with the session
  identifier as its key.

  The database, the calls of GnuPG (a subprocess, with temporary files and parsing of its listing), JSON, hexadecimal and Unicode case conversion are parameters,
  collected in \<open>offer_lib\<close> on top of the library of the audit log. The clock is read by the caller
  (\<open>offer_clock\<close>): seconds since 1970 as \<open>i64\<close> and the two time stamps of a call. Listing of offers, which
  only reads, is left out.
\<close>

section \<open>Model\<close>

type_synonym i64 = "64 word"



record offer_row =
  or_session_id :: string
  or_epk_hex :: string
  or_curve :: string
  or_long_term_fingerprint :: string
  or_signature_hex :: string
  or_expires_at :: i64
  or_created_at :: i64
  or_consumed :: bool
  or_revoked :: bool
  or_imported_at :: string
  or_my_private_key_bytes :: "bytes option"

datatype offer_error =
    OeDatabase sql_error | OeAudit audit_error | OeSerialise | OeConfig string | OeGpg nat
  | EpkNotFound string | EpkConsumed string | EpkExpired string



definition is_expired :: "i64 \<Rightarrow> offer_row \<Rightarrow> bool" where
  "is_expired now r \<longleftrightarrow> sint now \<ge> sint (or_expires_at r)"






definition check_expiry :: "i64 \<Rightarrow> offer_row \<Rightarrow> offer_error + unit" where
  "check_expiry now r = (if is_expired now r then Inl (EpkExpired (or_session_id r)) else Inr ())"

definition check_not_consumed :: "offer_row \<Rightarrow> offer_error + unit" where
  "check_not_consumed r = (if or_consumed r then Inl (EpkConsumed (or_session_id r)) else Inr ())"
















section \<open>The table of offers\<close>


text \<open>What no later operation undoes.\<close>

definition offer_le :: "offer_row \<Rightarrow> offer_row \<Rightarrow> bool" where
  "offer_le r r' \<longleftrightarrow>
     or_session_id r' = or_session_id r \<and> or_epk_hex r' = or_epk_hex r \<and> or_expires_at r' = or_expires_at r
     \<and> or_long_term_fingerprint r' = or_long_term_fingerprint r
     \<and> (or_consumed r \<longrightarrow> or_consumed r') \<and> (or_revoked r \<longrightarrow> or_revoked r')
     \<and> (or_my_private_key_bytes r = None \<longrightarrow> or_my_private_key_bytes r' = None)"

lemma offer_le_refl [simp]: "offer_le r r" and offer_le_trans: "offer_le r q \<Longrightarrow> offer_le q p \<Longrightarrow> offer_le r p"
  by (auto simp: offer_le_def)

definition table_le :: "(string \<Rightarrow> offer_row option) \<Rightarrow> (string \<Rightarrow> offer_row option) \<Rightarrow> bool" where
  "table_le f g \<longleftrightarrow> (\<forall>s r. f s = Some r \<longrightarrow> (\<exists>r'. g s = Some r' \<and> offer_le r r'))"

lemma table_le_refl [simp]: "table_le f f"
  by (simp add: table_le_def)



















section \<open>Properties\<close>





end
