(* ===== verification/Host_Identity.thy ===== *)
theory Host_Identity
  imports Pin_Policy Card
begin

text \<open>
  Checks of the host library that mirror the token (\<open>galdra-core-host/src\<close>): Galdralag fingerprints
  (\<open>galdra_fingerprint.rs\<close>), algorithm attributes read from the card (\<open>openpgp_card_attrs.rs\<close>), PIN and
  provisioning bounds and the token handle (\<open>device.rs\<close>).

  A Rust \<open>str\<close> is its list of code points; lengths and slices of the source count the bytes of its UTF-8
  encoding. A slice off a character boundary panics: such a function returns an option, \<open>None\<close> for the
  panic. BLAKE3 and the hexadecimal encoding are parameters.
\<close>

section \<open>Strings\<close>

definition utf8_width :: "code_point \<Rightarrow> nat" where
  "utf8_width c = (if c < 0x80 then 1 else if c < 0x800 then 2 else if c < 0x10000 then 3 else 4)"

definition str_len :: "code_point list \<Rightarrow> nat" where
  "str_len s = sum_list (map utf8_width s)"

text \<open>\<open>(&s[..n], &s[n..])\<close>\<close>

fun str_split_at :: "nat \<Rightarrow> code_point list \<Rightarrow> (code_point list \<times> code_point list) option" where
  "str_split_at n s =
     (if n = 0 then Some ([], s)
      else case s of
          [] \<Rightarrow> None
        | c # cs \<Rightarrow>
            if n < utf8_width c then None
            else map_option (\<lambda>(l, r). (c # l, r)) (str_split_at (n - utf8_width c) cs))"

declare str_split_at.simps [simp del]

definition is_whitespace :: "code_point \<Rightarrow> bool" where
  "is_whitespace c \<longleftrightarrow> 0x09 \<le> c \<and> c \<le> 0x0D \<or> c = 0x20 \<or> c = 0x85 \<or> c = 0xA0 \<or> c = 0x1680
     \<or> 0x2000 \<le> c \<and> c \<le> 0x200A \<or> c = 0x2028 \<or> c = 0x2029 \<or> c = 0x202F \<or> c = 0x205F \<or> c = 0x3000"

definition is_ascii_hexdigit :: "code_point \<Rightarrow> bool" where
  "is_ascii_hexdigit c \<longleftrightarrow> 0x30 \<le> c \<and> c \<le> 0x39 \<or> 0x41 \<le> c \<and> c \<le> 0x46 \<or> 0x61 \<le> c \<and> c \<le> 0x66"

definition to_ascii_lowercase :: "code_point \<Rightarrow> code_point" where
  "to_ascii_lowercase c = (if 0x41 \<le> c \<and> c \<le> 0x5A then c + 0x20 else c)"

section \<open>Fingerprints\<close>

datatype galdra_fingerprint_parse_error = InvalidFormat | InvalidHex

definition FP_PREFIX :: "code_point list" where "FP_PREFIX = [0x47, 0x3A]"
definition HASH_PREFIX_LEN :: nat where "HASH_PREFIX_LEN = 20"

definition from_public_key_bytes :: "(bytes \<Rightarrow> code_point list) \<Rightarrow> (bytes \<Rightarrow> bytes) \<Rightarrow> bytes \<Rightarrow> code_point list" where
  "from_public_key_bytes hex_encode blake3 public_key_bytes =
     (let h = blake3 public_key_bytes; slice20 = take HASH_PREFIX_LEN h; lower = hex_encode slice20 in
      FP_PREFIX @ lower)"

fun chunks4 :: "'a list \<Rightarrow> 'a list list" where
  "chunks4 xs = (if xs = [] then [] else take 4 xs # chunks4 (drop 4 xs))"

declare chunks4.simps [simp del]

definition fp_display :: "code_point list \<Rightarrow> code_point list" where
  "fp_display fp =
     (let hex_part = drop 2 fp in
      FP_PREFIX @ concat (map (\<lambda>(i, chunk). (if i > 0 then if i = 5 then [0x20, 0x20] else [0x20] else []) @ chunk)
        (enumerate 0 (chunks4 hex_part))))"

definition fp_normalize_input :: "code_point list \<Rightarrow> (galdra_fingerprint_parse_error + code_point list) option" where
  "fp_normalize_input s =
     (let stripped = filter (\<lambda>c. \<not> is_whitespace c) s in
      if str_len stripped < 2 then Some (Inl InvalidFormat)
      else
        case str_split_at 2 stripped of
          None \<Rightarrow> None
        | Some (prefix, hex_part) \<Rightarrow>
            if map to_ascii_lowercase prefix \<noteq> map to_ascii_lowercase FP_PREFIX then Some (Inl InvalidFormat)
            else if str_len hex_part \<noteq> 40 then Some (Inl InvalidFormat)
            else if \<not> list_all is_ascii_hexdigit hex_part then Some (Inl InvalidHex)
            else Some (Inr (FP_PREFIX @ map to_ascii_lowercase hex_part)))"

definition fp_from_str :: "code_point list \<Rightarrow> (galdra_fingerprint_parse_error + code_point list) option" where
  "fp_from_str s = fp_normalize_input s"

section \<open>Algorithm attributes on the host\<close>

definition host_do_tag :: "openpgp_key_slot \<Rightarrow> u16" where
  "host_do_tag s = (case s of Sig \<Rightarrow> 0xC1 | Dec \<Rightarrow> 0xC2 | Aut \<Rightarrow> 0xC3)"

definition slot_label :: "openpgp_key_slot \<Rightarrow> string" where
  "slot_label s = (case s of Sig \<Rightarrow> ''SIG'' | Dec \<Rightarrow> ''DEC'' | Aut \<Rightarrow> ''AUT'')"

definition host_uses_removed_curve :: "algorithm_attributes \<Rightarrow> bool" where
  "host_uses_removed_curve a =
     (case a of
        Rsa _ _ _ \<Rightarrow> False
      | Ecdh curve_oid \<Rightarrow> is_brainpool_p512_oid curve_oid
      | Ecdsa curve_oid \<Rightarrow> is_brainpool_p512_oid curve_oid
      | EdDsa curve_oid \<Rightarrow> is_brainpool_p512_oid curve_oid)"

definition host_attributes_parse :: "bytes \<Rightarrow> unit + algorithm_attributes" where
  "host_attributes_parse d =
     (if d = [] then Inl ()
      else if d ! 0 = 0x01 \<and> length d \<ge> 6
        then Inr (Rsa (u16_of_be (d ! 1) (d ! 2)) (u16_of_be (d ! 3) (d ! 4)) (d ! 5))
      else if d ! 0 = 0x12 then Inr (Ecdh (drop 1 d))
      else if d ! 0 = 0x13 then Inr (Ecdsa (drop 1 d))
      else if d ! 0 = 0x16 then Inr (EdDsa (drop 1 d))
      else Inl ())"

record stale_p512_slot =
  st_slot :: openpgp_key_slot
  st_message :: string

definition stale_p512_message :: "string \<Rightarrow> openpgp_key_slot \<Rightarrow> string" where
  "stale_p512_message msg_key_algo_p512 slot = ''OpenPGP '' @ slot_label slot @ '' slot: '' @ msg_key_algo_p512"

definition stale_p512_slot_from_do_bytes :: "string \<Rightarrow> openpgp_key_slot \<Rightarrow> bytes \<Rightarrow> stale_p512_slot option" where
  "stale_p512_slot_from_do_bytes msg slot data =
     (if data = [] then None
      else
        case host_attributes_parse data of
          Inl _ \<Rightarrow> None
        | Inr attrs \<Rightarrow>
            if \<not> host_uses_removed_curve attrs then None
            else Some \<lparr>st_slot = slot, st_message = stale_p512_message msg slot\<rparr>)"

definition stale_p512_slots_from_do_bytes :: "string \<Rightarrow> bytes \<Rightarrow> bytes \<Rightarrow> bytes \<Rightarrow> stale_p512_slot list" where
  "stale_p512_slots_from_do_bytes msg sig dec aut =
     List.map_filter (\<lambda>(slot, data). stale_p512_slot_from_do_bytes msg slot data) [(Sig, sig), (Dec, dec), (Aut, aut)]"

section \<open>PIN bounds and the token handle\<close>

datatype device_error = PinTooShort | PinNotAlphanumeric | ConfigError string | DeviceNotConnected




section \<open>Lemmas\<close>

lemma str_len_simps [simp]: "str_len [] = 0" "str_len (c # s) = utf8_width c + str_len s"
  by (simp_all add: str_len_def)

lemma utf8_width_ascii [simp]: "c < 0x80 \<Longrightarrow> utf8_width c = 1"
  by (simp add: utf8_width_def)

lemma hexdigit_ascii: "is_ascii_hexdigit c \<Longrightarrow> c < 0x80" and alphanumeric_ascii: "is_ascii_alphanumeric c \<Longrightarrow> c < 0x80"
  by (auto simp: is_ascii_hexdigit_def is_ascii_alphanumeric_def)

lemma str_len_ascii: "list_all (\<lambda>c. c < 0x80) s \<Longrightarrow> str_len s = length s"
  by (induction s) simp_all

lemma str_split_at_steps:
  "str_split_at 0 s = Some ([], s)" "0 < n \<Longrightarrow> str_split_at n [] = None"
  "0 < n \<Longrightarrow> str_split_at n (c # cs) =
     (if n < utf8_width c then None else map_option (\<lambda>(l, r). (c # l, r)) (str_split_at (n - utf8_width c) cs))"
  by (subst str_split_at.simps, simp)+

lemma str_split_at_Some: "str_split_at n s = Some (p, h) \<longleftrightarrow> s = p @ h \<and> str_len p = n"
proof (induction s arbitrary: n p)
  case Nil
  have "0 < utf8_width c" for c by (simp add: utf8_width_def)
  then show ?case by (cases "n = 0"; cases p) (auto simp: str_split_at_steps)
next
  case (Cons c cs)
  have w: "0 < utf8_width c" for c by (simp add: utf8_width_def)
  show ?case
  proof (cases "0 < n")
    case True
    show ?thesis
    proof (cases p)
      case Nil
      then show ?thesis using True by (auto simp: str_split_at_steps)
    next
      case p: (Cons a q)
      have "str_split_at n (c # cs) = Some (a # q, h) \<longleftrightarrow>
          utf8_width c \<le> n \<and> a = c \<and> str_split_at (n - utf8_width c) cs = Some (q, h)"
        using True by (auto simp: str_split_at_steps)
      then show ?thesis unfolding p Cons by auto
    qed
  next
    case False
    then show ?thesis using w by (cases p) (auto simp: str_split_at_steps)
  qed
qed

lemma prefix_lower: "map to_ascii_lowercase p = map to_ascii_lowercase FP_PREFIX \<longleftrightarrow> p = [0x47, 0x3A] \<or> p = [0x67, 0x3A]"
proof (cases p rule: list.exhaust)
  case (Cons a q)
  then show ?thesis
    by (cases q) (auto simp: FP_PREFIX_def to_ascii_lowercase_def split: if_splits)
qed (simp add: FP_PREFIX_def)

lemma fp_normalize_exact:
  "fp_normalize_input s = Some (Inr c) \<longleftrightarrow>
     (\<exists>g hs. filter (\<lambda>c. \<not> is_whitespace c) s = g # 0x3A # hs \<and> g \<in> {0x47, 0x67} \<and> length hs = 40
        \<and> list_all is_ascii_hexdigit hs \<and> c = FP_PREFIX @ map to_ascii_lowercase hs)"
  (is "_ \<longleftrightarrow> ?text")
proof -
  let ?s = "filter (\<lambda>c. \<not> is_whitespace c) s"
  have ascii: "str_len hs = length hs" if "list_all is_ascii_hexdigit hs" for hs
    using that by (intro str_len_ascii) (auto simp: list_all_iff dest: hexdigit_ascii)
  have "fp_normalize_input s = Some (Inr c) \<longleftrightarrow>
      (\<exists>p hs. ?s = p @ hs \<and> str_len p = 2 \<and> map to_ascii_lowercase p = map to_ascii_lowercase FP_PREFIX \<and> str_len hs = 40
        \<and> list_all is_ascii_hexdigit hs \<and> c = FP_PREFIX @ map to_ascii_lowercase hs)"
  proof
    assume "fp_normalize_input s = Some (Inr c)"
    then show "\<exists>p hs. ?s = p @ hs \<and> str_len p = 2 \<and> map to_ascii_lowercase p = map to_ascii_lowercase FP_PREFIX \<and> str_len hs = 40
        \<and> list_all is_ascii_hexdigit hs \<and> c = FP_PREFIX @ map to_ascii_lowercase hs"
      by (auto simp: fp_normalize_input_def Let_def str_split_at_Some split: if_splits option.splits) blast
  next
    assume "\<exists>p hs. ?s = p @ hs \<and> str_len p = 2 \<and> map to_ascii_lowercase p = map to_ascii_lowercase FP_PREFIX \<and> str_len hs = 40
        \<and> list_all is_ascii_hexdigit hs \<and> c = FP_PREFIX @ map to_ascii_lowercase hs"
    then obtain p hs where ps: "?s = p @ hs" "str_len p = 2" "map to_ascii_lowercase p = map to_ascii_lowercase FP_PREFIX"
      "str_len hs = 40" "list_all is_ascii_hexdigit hs" "c = FP_PREFIX @ map to_ascii_lowercase hs" by blast
    moreover from this(1,2) have "str_split_at 2 ?s = Some (p, hs)" by (simp add: str_split_at_Some)
    moreover have "\<not> str_len ?s < 2" using ps(1,2) by (simp add: str_len_def)
    ultimately show "fp_normalize_input s = Some (Inr c)" by (simp add: fp_normalize_input_def)
  qed
  also have "\<dots> \<longleftrightarrow> ?text"
  proof
    assume ?text
    then obtain g hs where "?s = [g, 0x3A] @ hs" "g \<in> {0x47, 0x67}" "length hs = 40" "list_all is_ascii_hexdigit hs"
      "c = FP_PREFIX @ map to_ascii_lowercase hs" by auto
    then show "\<exists>p hs. ?s = p @ hs \<and> str_len p = 2 \<and> map to_ascii_lowercase p = map to_ascii_lowercase FP_PREFIX \<and> str_len hs = 40
        \<and> list_all is_ascii_hexdigit hs \<and> c = FP_PREFIX @ map to_ascii_lowercase hs"
      by - (rule exI [of _ "[g, 0x3A]"], rule exI [of _ hs], auto simp: ascii FP_PREFIX_def to_ascii_lowercase_def)
  qed (auto simp: prefix_lower ascii)
  finally show ?thesis .
qed

text \<open>What \<open>hex::encode\<close> documents: two lower-case digits for each byte.\<close>

definition hex_ok :: "(bytes \<Rightarrow> code_point list) \<Rightarrow> bool" where
  "hex_ok hex \<longleftrightarrow> (\<forall>bs. length (hex bs) = 2 * length bs
     \<and> list_all (\<lambda>c. 0x30 \<le> c \<and> c \<le> 0x39 \<or> 0x61 \<le> c \<and> c \<le> 0x66) (hex bs))"

lemma hex_ok_digits:
  assumes "hex_ok hex"
  shows "length (hex bs) = 2 * length bs"
    and "c \<in> set (hex bs) \<Longrightarrow> is_ascii_hexdigit c \<and> to_ascii_lowercase c = c \<and> \<not> is_whitespace c"
proof -
  show "length (hex bs) = 2 * length bs" using assms by (simp add: hex_ok_def)
  assume "c \<in> set (hex bs)"
  then have "0x30 \<le> c \<and> c \<le> 0x39 \<or> 0x61 \<le> c \<and> c \<le> 0x66" using assms by (auto simp: hex_ok_def list_all_iff)
  then show "is_ascii_hexdigit c \<and> to_ascii_lowercase c = c \<and> \<not> is_whitespace c"
    by (auto simp: is_ascii_hexdigit_def to_ascii_lowercase_def is_whitespace_def)
qed

definition hex_digit :: "nat \<Rightarrow> code_point" where
  "hex_digit n = (if n < 10 then 0x30 + n else 0x57 + n)"

definition hex_pairs_of :: "bytes \<Rightarrow> code_point list" where
  "hex_pairs_of bs = concat (map (\<lambda>b. [hex_digit (unat b div 16), hex_digit (unat b mod 16)]) bs)"

lemma hex_pairs_ok: "hex_ok hex_pairs_of"
proof -
  have "length (hex_pairs_of bs) = 2 * length bs" for bs by (induction bs) (simp_all add: hex_pairs_of_def)
  moreover have "unat (b :: u8) div 16 \<le> 15" for b
    using unsigned_less [of b, where ?'a = nat] div_le_mono [of "unat b" 255 16] by simp
  then have "list_all (\<lambda>c. 0x30 \<le> c \<and> c \<le> 0x39 \<or> 0x61 \<le> c \<and> c \<le> 0x66) (hex_pairs_of bs)" for bs
    by (induction bs) (auto simp: hex_pairs_of_def hex_digit_def)
  ultimately show ?thesis by (simp add: hex_ok_def)
qed

lemma display_strips:
  assumes "\<And>c. c \<in> set hs \<Longrightarrow> \<not> is_whitespace c"
  shows "filter (\<lambda>c. \<not> is_whitespace c) (fp_display (FP_PREFIX @ hs)) = FP_PREFIX @ hs"
proof -
  have sp: "is_whitespace 0x20" "\<not> is_whitespace 0x47" "\<not> is_whitespace 0x3A" by (simp_all add: is_whitespace_def)
  have "filter (\<lambda>c. \<not> is_whitespace c) (concat (map (\<lambda>(i, chunk). (if i > 0 then if i = 5 then [0x20, 0x20] else [0x20] else []) @ chunk)
      (enumerate n (chunks4 hs)))) = hs" for n :: nat
    using assms
  proof (induction hs arbitrary: n rule: chunks4.induct)
    case (1 hs)
    show ?case
    proof (cases "hs = []")
      case True
      then show ?thesis by (simp add: chunks4.simps)
    next
      case False
      have "c \<in> set (drop 4 hs) \<Longrightarrow> \<not> is_whitespace c" for c using 1(2) in_set_dropD by fast
      note rest = 1(1) [OF False this, of "Suc n"]
      have "filter (\<lambda>c. \<not> is_whitespace c) (take 4 hs) = take 4 hs"
        using 1(2) by (simp add: filter_id_conv) (meson in_set_takeD)
      with False sp(1) rest show ?thesis by (subst chunks4.simps) simp
    qed
  qed
  then show ?thesis using sp by (simp add: fp_display_def FP_PREFIX_def Let_def)
qed


section \<open>Properties\<close>

text \<open>
  Fingerprints survive their text forms: the fingerprint of every key has 42 characters and is read
  back from the canonical and from the grouped form.
\<close>

theorem fingerprint_text_roundtrip:
  assumes "hex_ok hex" and "20 \<le> length (blake3 pk)"
  defines "fp \<equiv> from_public_key_bytes hex blake3 pk"
  shows "length fp = 42 \<and> fp_from_str fp = Some (Inr fp) \<and> fp_from_str (fp_display fp) = Some (Inr fp)"
proof -
  define hs where "hs = hex (take 20 (blake3 pk))"
  have fp: "fp = FP_PREFIX @ hs" by (simp add: fp_def from_public_key_bytes_def HASH_PREFIX_LEN_def hs_def)
  have len: "length hs = 40" using assms(2) by (simp add: hs_def hex_ok_digits(1) [OF assms(1)])
  have d: "is_ascii_hexdigit c" "to_ascii_lowercase c = c" "\<not> is_whitespace c" if "c \<in> set hs" for c
    using hex_ok_digits(2) [OF assms(1)] that unfolding hs_def by blast+
  have low: "map to_ascii_lowercase hs = hs" using d(2) by (simp add: map_idI)
  have read: "fp_from_str s = Some (Inr fp)" if "filter (\<lambda>c. \<not> is_whitespace c) s = FP_PREFIX @ hs" for s
    unfolding fp_from_str_def fp_normalize_exact
    using that len d(1) low fp by (auto simp: FP_PREFIX_def list_all_iff)
  have "filter (\<lambda>c. \<not> is_whitespace c) fp = FP_PREFIX @ hs"
    using d(3) by (simp add: fp FP_PREFIX_def is_whitespace_def filter_id_conv)
  moreover have "filter (\<lambda>c. \<not> is_whitespace c) (fp_display fp) = FP_PREFIX @ hs"
    unfolding fp by (rule display_strips) (rule d(3))
  ultimately show ?thesis using read len by (simp add: fp FP_PREFIX_def)
qed

theorem fingerprint_text_roundtrip_witness:
  "fp_from_str (fp_display (from_public_key_bytes hex_pairs_of (\<lambda>m. m) (replicate 33 9))) =
     Some (Inr (from_public_key_bytes hex_pairs_of (\<lambda>m. m) (replicate 33 9)))"
  using fingerprint_text_roundtrip [OF hex_pairs_ok, of "\<lambda>m. m" "replicate 33 9"] by simp


text \<open>
  Text whose first character needs three bytes or more makes the parser panic instead of reporting an
  invalid format.
\<close>

theorem fingerprint_parser_panics:
  assumes "0x800 \<le> c" and "\<not> is_whitespace c"
  shows "fp_from_str (c # s) = None"
  using assms by (simp add: fp_from_str_def fp_normalize_input_def Let_def str_split_at_steps utf8_width_def)

end
