(* ===== verification/Spec2Isabelle.thy ===== *)
theory Spec2Isabelle
  imports Provisioning Rram Card_Keys Shamir Cascade Contact_Runs Handshake_Runs Rsa_Vault
    Biometric Envelope Ephemeral_Offers Host_Identity
begin

text \<open>
  Verification of the Galdralag firmware (Rust): a USB security token that presents itself as a CCID
  smart card reader with an OpenPGP card, keeps sealed private keys in non-volatile memory behind a
  PIN policy, and offers secret sharing, layered encryption with named cipher profiles, a contact store
  and an authenticated session protocol.

  \<^bold>\<open>How the program is put together.\<close> Bulk packets reach the class driver
  (\<open>usb-personality/src/ccid/usb_class.rs\<close>), which assembles messages, hands each to \<open>handle_ccid\<close>
  (\<open>usb-personality/src/openpgp/dispatch.rs\<close>) and sends the reply in packets. \<open>handle_ccid\<close> parses the CCID frame, parses the APDU, dispatches on the instruction byte and answers with a
  CCID frame. Handlers call a backend interface; \<open>OpenPgpVaultBackend\<close> implements it with the PIN
  policy machine, the data-object store, the sealed keys and the public-key table, which all act on
  one shared storage through the traits of \<open>galdr-core\<close>. On the target the storage is a window of the
  RRAM (\<open>baochip-openpgp/src/xous_impl.rs\<close>); before the first boot a second USB class
  (\<open>usb-personality/src/provisioning/mod.rs\<close>) takes the PINs and leaves them there as records that the boot
  consumes. Cipher profiles select layers; the cascade
  runs the vault ciphers one inside the other, with keys from HKDF. The host library
  (\<open>galdra-core-host\<close>) uses the same crates to seal messages for OpenPGP recipients, and keeps an audit
  log and key offers in a database.

  \<^bold>\<open>Theories, in the order of import.\<close>
  \<^item> \<open>Prelude\<close>: words, results as sums, slices, bounded \<open>heapless\<close> vectors, integer encodings.
  \<^item> \<open>Hal\<close>: errors and the traits \<open>VaultStorage\<close>, \<open>MonotonicCounter\<close>, \<open>HardwareTrng\<close> of \<open>galdr-core\<close> as
    records of functions over a shared world, their in-memory implementations, and the contracts
    clients rely on as locales, interpreted on these implementations.
  \<^item> \<open>Constant_Time\<close>: \<open>ct_eq\<close> of the vendored \<open>subtle\<close>, which decides equality.
  \<^item> \<open>Pin_Policy\<close>: the attempt machine of \<open>pin-policy\<close>; failures are bounded over any run, a breach is
    final, and the exact value of the counter.
  \<^item> \<open>Apdu\<close>, \<open>Data_Objects\<close>, \<open>Ccid\<close>: parsers and encoders with round trips.
  \<^item> \<open>Do_Store\<close>: the slot store of data objects, which refines a partial map.
  \<^item> \<open>Kdf_Policy\<close>, \<open>Key_Vault\<close>: key purposes, sealed keys and the public-key table.
  \<^item> \<open>Card\<close>: the card state, the backend interface and every instruction handler, up to the CCID
    dispatcher. \<open>Vault_Backend\<close>: every method of the real backend. \<open>Card_Env\<close>: PIN verification and
    change on that backend.
  \<^item> \<open>Card_Session\<close>: runs of the whole card as sequences of CCID messages and bus resets: session
    flags, access control, the one-signature rule, response chaining, termination, frame bounds.
  \<^item> \<open>Usb_Ccid\<close>: the class driver as steps on bus events. The locale \<open>ccid_dispatch\<close> is what it needs of a
    dispatcher, interpreted on the card. However packets are cut, the card sees exactly the host's
    messages; arbitrary bytes only lead to states that messages lead to; replies arrive completely.
  \<^item> \<open>Provisioning\<close>: the line protocol; it refines commands executed one after the other, and only PINs
    of 1 to 32 bytes are committed.
  \<^item> \<open>Rram\<close>: layout, storage, counters, zeroisation, provision records, master key and construction of
    the backend on the target. \<open>rram_contract\<close> states what the memory driver, which is outside the
    repository, promises; \<open>rram_vault\<close> places the window, and as a \<open>sublocale\<close> of the storage contract
    gives the clients of \<open>Hal\<close> their laws. \<open>flat\<close> interprets both on a plain memory.
  \<^item> \<open>Card_Keys\<close>: generated keys across a restart, the removed curve, the signature counter.
  \<^item> \<open>Gf256\<close>, \<open>Shamir\<close>: \<open>vault/src/shamir.rs\<close>. The field is a parameter of class \<open>field\<close>; \<open>Gf256\<close>
    constructs the field of 256 elements on bytes (multiplication modulo \<open>x^8 + x^4 + x^3 + x + 1\<close>,
    inverse as the 254th power) and the locale \<open>gf_bytes\<close> is interpreted on it. Shown: recovery from
    any \<open>k\<close> shares, secrecy below the threshold, the sort.
  \<^item> \<open>Aead\<close>: the encrypt-then-MAC ciphers and ChaCha20-Poly1305 of \<open>crates/vault\<close>. The locale \<open>sealed_box\<close>
    states that decryption accepts exactly the encryptions; it is interpreted on the three
    constructions, and follows for ChaCha20-Poly1305 from what its crate documents.
  \<^item> \<open>Cess\<close>: HKDF-BLAKE3, labels, suite registry and the Mode A envelope of \<open>crates/cess\<close>.
  \<^item> \<open>Cipher_Profile\<close>, \<open>Cascade\<close>: profiles, their wire format, builder and registry, and the cascade of
    \<open>crates/cipher-profile\<close>, with its exactness built from the layers' contracts.
  \<^item> \<open>Contact_Record\<close>, \<open>Contact_Index\<close>, \<open>Contact_Regions\<close>, \<open>Contact_Store\<close>: the contact store of
    \<open>crates/contact-store\<close>: the 256-byte record and its wire format, the sorted index with its binary
    search, the string heap, key region and timing log, and every method of the store, each a function
    on the storage, the generation counter and the in-memory copies.
  \<^item> \<open>Contact_Directory\<close>, \<open>Contact_Invariant\<close>, \<open>Contact_Runs\<close>: the store as a partial map from
    fingerprints to contacts, the invariant that ties memory, index and digest together (contract
    \<open>contact_contract\<close>, interpreted on the in-memory storage and counter), and runs of operations and
    restarts: they refine the map, lookups read it, insertion succeeds while a slot and space are
    left, and one method leaves the digest stale.
  \<^item> \<open>Handshake_Wire\<close>, \<open>Session_Crypto\<close>, \<open>Session_Keys\<close>, \<open>Handshake\<close>: the authenticated session of
    \<open>crates/ephemeral-session\<close> with the curve wrappers and stored long-term keys of \<open>crates/vault\<close> it
    calls: messages and their exact parsers (contract \<open>wire_codec\<close>, interpreted on both messages),
    BrainpoolP384r1 and the rest of the P-256 wrappers, key pairs, key derivation, trust store,
    initiator state machine and responder. The laws of the curve crates are the contract
    \<open>session_crypto\<close>; those crates are outside the repository, so it is interpreted on an example.
  \<^item> \<open>Handshake_Runs\<close>: honest parties agree on the keys; keys come out once and only for a response
    bound to the own offer; an offer can be re-signed by a third party, since transcripts name nobody.
  \<^item> \<open>Rsa_Vault\<close>: RSA policy wrappers and wrapped key slots, the provisioned PIN policy record and the
    service stub; stored keys come back, and high RSA slots erase session keys.
  \<^item> \<open>Biometric\<close>: \<open>crates/biometric-api\<close>, \<open>-vault\<close>, \<open>-fingervein\<close> and \<open>-sweet\<close>: signed match results, their
    validation, template encryption, session tokens and drivers; which results are accepted, and that
    templates come back exactly.
  \<^item> \<open>Envelope\<close> (\<open>galdra-core-host/src/cipher_envelope.rs\<close>): the message format around the cascade; sealed
    messages open, with or without the Mode A wrapping, and nothing else does.
  \<^item> \<open>Audit_Log\<close> (\<open>galdra-core-host/src/audit.rs\<close>): the hashed audit table over a database that is a parameter
    (\<open>audit_db_ok\<close> states what its three statements do); what verification guarantees and what not.
  \<^item> \<open>Ephemeral_Offers\<close> (\<open>galdra-core-host/src/ephemeral_offers.rs\<close>): key offers in a table, as steps on the
    database: offers are used once, and the exact conditions of an import.
  \<^item> \<open>Host_Identity\<close> (\<open>galdra_fingerprint.rs\<close>, \<open>openpgp_card_attrs.rs\<close>, \<open>device.rs\<close>): text forms of fingerprints,
    and checks of the host that agree with those of the token.
  \<^item> This theory: PINs entered over USB are the PINs the token boots with.

  \<^bold>\<open>Conventions.\<close> A method that mutates state returns its result paired with the new state, on error
  paths too. Third-party code (hashes, block ciphers, AEADs, curve arithmetic, HKDF) is a record of
  functions that definitions take as an argument; a theorem that needs more of it than its type has
  that as a hypothesis (\<open>detached_aead\<close>, \<open>combined_aead\<close>, the contracts in \<open>Hal\<close> and \<open>Key_Vault\<close>), and its
  witness gives a concrete instance. Loops of the source are structural recursions on the list of the
  loop's values, or recursive functions with a measure where the source tests a condition
  (\<open>ctr_xor_loop\<close>, \<open>hkdf_blake3_loop\<close>, \<open>registry_remove_loop\<close>, \<open>digest_log\<close>,
  \<open>lookup_prefix_loop\<close>, \<open>zero_region\<close>, \<open>trust_remove_loop\<close>, \<open>rram_read_bytes\<close>, \<open>zero_rram_window\<close>); no fuel is used. Fixed-size arrays of
  the ciphers are types of lists of that length.

  \<^bold>\<open>Bounds.\<close> \<open>usize\<close> values are natural numbers: all are lengths of buffers of at most 65536 bytes or
  offsets into storage regions far below the word size, except where the target code itself checks a
  sum for overflow. Counters, indices and tags keep their width.

  \<^bold>\<open>Not modelled.\<close> Zeroisation of memory on drop and timing; the Xous service processes, which are
  loops of operating-system calls around the components above; on the host the command line, daemon,
  graphical interface, configuration, contact and group queries and the OpenPGP messages, which are
  calls of \<open>sequoia\<close>, \<open>rusqlite\<close> and network libraries; build and measurement tooling.
\<close>

section \<open>From USB provisioning to the first boot\<close>



end
